(* ===== verification/Ups_Prelude.thy ===== *)
theory Ups_Prelude
  imports Main "HOL-Library.Word" "HOL-Library.Monad_Syntax"
begin

text \<open>
  Shared vocabulary of the development: the machine types of the LP64 little-endian target
  (\<open>unsigned char\<close>, \<open>unsigned long\<close>, pointers), the byte representation of integers, the flat
  byte-addressed memory that the interpreter's native pointers range over, and the lemmas about
  them that every component uses.

  A computation of type \<open>'a option\<close> is \<open>None\<close> where the C program has no defined behaviour
  (a load or store outside mapped memory, an oversized shift) or, in the code generator, where it
  calls \<open>ci_panic\<close>.
\<close>

unbundle bit_operations_syntax

named_theorems mem_simps \<open>memory, byte and word access laws\<close>
named_theorems mach_defs \<open>definitions of the byte code machine's operations\<close>
named_theorems text_defs \<open>definitions of the code emitter's operations\<close>

type_synonym byte = "8 word"
type_synonym word64 = "64 word"
type_synonym addr = "64 word"
type_synonym mem = "addr \<Rightarrow> byte option"

section \<open>Options\<close>

lemma bind_Some_iff [mem_simps]:
  "Option.bind x f = Some y \<longleftrightarrow> (\<exists>a. x = Some a \<and> f a = Some y)"
  by (simp add: Option.bind_eq_Some_conv)

lemma if_None_Some [simp]:
  "(if P then None else x) = Some y \<longleftrightarrow> \<not> P \<and> x = Some y"
  "(if P then x else None) = Some y \<longleftrightarrow> P \<and> x = Some y"
  by auto

section \<open>Integers as little-endian bytes\<close>

text \<open>\<open>bytes_of n w\<close> are the low \<open>n\<close> bytes of a value, least significant first, as the target
  stores them; \<open>word_of\<close> reads them back without sign.\<close>

definition bytes_of :: "nat \<Rightarrow> word64 \<Rightarrow> byte list" where
  "bytes_of n w = map (\<lambda>i. ucast (drop_bit (8 * i) w)) [0..<n]"

fun word_of :: "byte list \<Rightarrow> word64" where
  "word_of [] = 0"
| "word_of (b # bs) = ucast b OR push_bit 8 (word_of bs)"

lemma length_bytes_of [simp]: "length (bytes_of n w) = n"
  by (simp add: bytes_of_def)

lemma bytes_of_0 [simp]: "bytes_of 0 w = []"
  by (simp add: bytes_of_def)

lemma bytes_of_Suc:
  "bytes_of (Suc n) w = ucast w # bytes_of n (drop_bit 8 w)"
proof -
  have "bytes_of (Suc n) w = map (\<lambda>i. ucast (drop_bit (8 * i) w)) (0 # map Suc [0..<n])"
    by (simp only: bytes_of_def map_Suc_upt upt_conv_Cons[symmetric] zero_less_Suc)
  then show ?thesis
    by (simp add: bytes_of_def o_def algebra_simps)
qed

lemma bit_word_of:
  "bit (word_of bs) i \<longleftrightarrow> i < 64 \<and> i div 8 < length bs \<and> bit (bs ! (i div 8)) (i mod 8)"
proof (induction bs arbitrary: i)
  case Nil
  then show ?case by simp
next
  case (Cons b bs)
  show ?case
  proof (cases "i < 8")
    case True
    then show ?thesis by (simp add: bit_simps)
  next
    case False
    then have "i div 8 = Suc ((i - 8) div 8)" and "i mod 8 = (i - 8) mod 8"
      by (simp_all add: le_div_geq le_mod_geq)
    with False show ?thesis
      using Cons.IH[of "i - 8"]
      by (auto simp: bit_simps dest: bit_imp_le_length)
  qed
qed

lemma word_of_bytes_of: "word_of (bytes_of n w) = take_bit (8 * n) w"
proof (rule bit_word_eqI)
  fix i assume i: "i < LENGTH(64)"
  have "i div 8 < n \<longleftrightarrow> i < 8 * n"
    by (simp add: div_less_iff_less_mult algebra_simps)
  moreover have "i mod 8 + 8 * (i div 8) = i" by simp
  ultimately show "bit (word_of (bytes_of n w)) i = bit (take_bit (8 * n) w) i"
    using i by (auto simp: bit_word_of bytes_of_def bit_simps)
qed

lemma word_of_bytes_of_8 [simp]: "word_of (bytes_of 8 w) = w"
  by (simp add: word_of_bytes_of take_bit_word_eq_self)

lemma word_of_bytes_of_small:
  "unat w < 2 ^ (8 * n) \<Longrightarrow> word_of (bytes_of n w) = w"
  by (simp add: word_of_bytes_of take_bit_nat_eq_self unsigned_take_bit_eq word_unat_eq_iff)

lemma bytes_of_word_of:
  assumes "length bs = n" and "n \<le> 8"
  shows "bytes_of n (word_of bs) = bs"
proof (rule nth_equalityI)
  show "length (bytes_of n (word_of bs)) = length bs" by (simp add: assms)
next
  fix k assume "k < length (bytes_of n (word_of bs))"
  then have k: "k < n" by simp
  have "bit (bytes_of n (word_of bs) ! k) j = bit (bs ! k) j" if "j < 8" for j
  proof -
    have "(j + 8 * k) div 8 = k" and "(j + 8 * k) mod 8 = j" using that by auto
    then show ?thesis
      using that k assms by (simp add: bytes_of_def bit_simps bit_word_of ac_simps)
  qed
  then show "bytes_of n (word_of bs) ! k = bs ! k"
    by (intro bit_word_eqI) simp
qed

lemma word_of_append:
  "word_of (xs @ ys) = word_of xs OR push_bit (8 * length xs) (word_of ys)"
  by (induction xs) (simp_all add: push_bit_or push_bit_push_bit or.assoc algebra_simps)

section \<open>Memory\<close>

text \<open>\<open>rd_bytes\<close> and \<open>wr_bytes\<close> are loads and stores of consecutive bytes; an access that
  touches an unmapped address has no result.\<close>

fun rd_bytes :: "mem \<Rightarrow> addr \<Rightarrow> nat \<Rightarrow> byte list option" where
  "rd_bytes m a 0 = Some []"
| "rd_bytes m a (Suc n) = do { b \<leftarrow> m a; bs \<leftarrow> rd_bytes m (a + 1) n; Some (b # bs) }"

fun wr_bytes :: "mem \<Rightarrow> addr \<Rightarrow> byte list \<Rightarrow> mem option" where
  "wr_bytes m a [] = Some m"
| "wr_bytes m a (b # bs) = do { _ \<leftarrow> m a; wr_bytes (m(a \<mapsto> b)) (a + 1) bs }"

text \<open>The addresses an access of \<open>n\<close> bytes at \<open>a\<close> touches, with wrap-around.\<close>

definition region :: "addr \<Rightarrow> nat \<Rightarrow> addr set" where
  "region a n = (\<lambda>i. a + of_nat i) ` {..<n}"

lemma region_0 [simp]: "region a 0 = {}"
  by (simp add: region_def)

lemma region_Suc: "region a (Suc n) = insert a (region (a + 1) n)"
proof -
  have "{..<Suc n} = insert 0 (Suc ` {..<n})"
    by (rule lessThan_Suc_eq_insert_0)
  then show ?thesis
    by (simp add: region_def image_image algebra_simps)
qed

lemma finite_region [simp]: "finite (region a n)"
  by (simp add: region_def)

lemma in_region_iff:
  assumes "n \<le> 2 ^ 64"
  shows "x \<in> region a n \<longleftrightarrow> unat (x - a) < n"
proof
  assume "x \<in> region a n"
  then obtain i where i: "i < n" "x = a + of_nat i" by (auto simp: region_def)
  moreover from i assms have "unat (of_nat i :: addr) = i"
    by (simp add: unsigned_of_nat take_bit_nat_eq_self)
  ultimately show "unat (x - a) < n" by simp
next
  assume "unat (x - a) < n"
  then show "x \<in> region a n"
    by (auto simp: region_def intro: image_eqI[of _ _ "unat (x - a)"])
qed

lemma rd_bytes_length: "rd_bytes m a n = Some bs \<Longrightarrow> length bs = n"
  by (induction n arbitrary: a bs) (auto simp: mem_simps)

lemma rd_bytes_total: "region a n \<subseteq> dom m \<longleftrightarrow> (\<exists>bs. rd_bytes m a n = Some bs)"
  by (induction n arbitrary: a) (auto simp: mem_simps region_Suc)

lemma rd_bytes_cong:
  "(\<And>x. x \<in> region a n \<Longrightarrow> m x = m' x) \<Longrightarrow> rd_bytes m a n = rd_bytes m' a n"
  by (induction n arbitrary: a) (auto simp: region_Suc)

lemma wr_bytes_dom: "wr_bytes m a bs = Some m' \<Longrightarrow> dom m' = dom m"
proof (induction bs arbitrary: m a)
  case (Cons b bs)
  then obtain y where "m a = Some y" and "wr_bytes (m(a \<mapsto> b)) (a + 1) bs = Some m'"
    by (auto simp: mem_simps)
  moreover from this(1) have "dom (m(a \<mapsto> b)) = dom m"
    by (simp add: insert_absorb domI)
  ultimately show ?case using Cons.IH by blast
qed simp

lemma wr_bytes_total: "region a (length bs) \<subseteq> dom m \<longleftrightarrow> (\<exists>m'. wr_bytes m a bs = Some m')"
proof (induction bs arbitrary: m a)
  case (Cons b bs)
  show ?case
  proof (cases "m a")
    case None
    then show ?thesis by (auto simp: region_Suc)
  next
    case (Some y)
    then have d: "dom (m(a \<mapsto> b)) = dom m"
      by (simp add: insert_absorb domI)
    have "region a (length (b # bs)) \<subseteq> dom m \<longleftrightarrow> region (a + 1) (length bs) \<subseteq> dom m"
      using Some by (simp add: region_Suc domI)
    also have "\<dots> \<longleftrightarrow> (\<exists>m'. wr_bytes (m(a \<mapsto> b)) (a + 1) bs = Some m')"
      using Cons.IH[of "a + 1" "m(a \<mapsto> b)"] by (simp only: d)
    finally show ?thesis using Some by simp
  qed
qed simp

lemma wr_bytes_other:
  "wr_bytes m a bs = Some m' \<Longrightarrow> x \<notin> region a (length bs) \<Longrightarrow> m' x = m x"
  by (induction bs arbitrary: m a) (auto simp: mem_simps region_Suc)

lemma rd_wr_other:
  assumes "wr_bytes m a bs = Some m'" and "region a (length bs) \<inter> region x n = {}"
  shows "rd_bytes m' x n = rd_bytes m x n"
  using assms by (intro rd_bytes_cong wr_bytes_other) auto

lemma rd_wr_same:
  assumes "wr_bytes m a bs = Some m'" and "length bs \<le> 2 ^ 64"
  shows "rd_bytes m' a (length bs) = Some bs"
  using assms
proof (induction bs arbitrary: m a)
  case (Cons b bs)
  from Cons.prems(1) have w: "wr_bytes (m(a \<mapsto> b)) (a + 1) bs = Some m'"
    by (auto simp: mem_simps)
  have "unat (a - (a + 1)) = 2 ^ 64 - 1"
    by (simp add: unat_eq_nat_uint uint_word_ariths)
  then have "a \<notin> region (a + 1) (length bs)"
    using Cons.prems(2) by (subst in_region_iff) auto
  with w have "m' a = Some b" by (auto dest: wr_bytes_other)
  moreover have "rd_bytes m' (a + 1) (length bs) = Some bs"
    using Cons.IH[OF w] Cons.prems(2) by simp
  ultimately show ?case by simp
qed simp

end
