(* ===== verification/Ups_Memory.thy ===== *)
theory Ups_Memory
  imports Ups_Prelude
begin

text \<open>
  The memory interface the byte code machine and the malloc arena rely on.  The locale
  \<open>byte_store\<close> states what a client may assume of loads and stores of byte runs: an access
  succeeds exactly on mapped addresses, a store keeps the mapping, a load after a store sees the
  stored bytes and nothing else has changed.  The client lemmas (integers of any width, disjoint
  locations) are proved from these laws once; \<open>rd_bytes\<close> and \<open>wr_bytes\<close> provide the interface.
\<close>

section \<open>Address arithmetic\<close>

lemma region_iff:
  assumes "unat a + n \<le> 2 ^ 64"
  shows "x \<in> region a n \<longleftrightarrow> unat a \<le> unat x \<and> unat x < unat a + n"
proof -
  have "unat (x - a) < n \<longleftrightarrow> unat a \<le> unat x \<and> unat x < unat a + n"
  proof (cases "a \<le> x")
    case True
    then show ?thesis by (auto simp: unat_sub word_le_nat_alt)
  next
    case False
    then have lt: "unat x < unat a" by (simp add: word_le_nat_alt)
    have "unat (x - a) = unat x + 2 ^ 64 - unat a"
      using lt by (simp add: unat_sub_if' less_imp_le_nat)
    with lt assms show ?thesis by linarith
  qed
  with assms show ?thesis by (subst in_region_iff) auto
qed

lemma region_disjoint:
  assumes "unat a + n \<le> unat b" and "unat b + k \<le> 2 ^ 64"
  shows "region a n \<inter> region b k = {}"
proof -
  have "unat a + n \<le> 2 ^ 64" using assms by linarith
  then show ?thesis using assms by (auto simp: region_iff)
qed

lemma region_mono: "n \<le> k \<Longrightarrow> region a n \<subseteq> region a k"
  by (auto simp: region_def)

lemma unat_plus_no_wrap:
  "unat (a :: addr) + k < 2 ^ 64 \<Longrightarrow> unat (a + of_nat k) = unat a + k"
  by (simp add: unat_word_ariths unsigned_of_nat take_bit_nat_eq_self)

lemma unat_minus_no_wrap:
  "k \<le> unat (a :: addr) \<Longrightarrow> unat (a - of_nat k) = unat a - k"
proof -
  assume k: "k \<le> unat a"
  moreover have "unat a < 2 ^ LENGTH(64)" by (rule unsigned_less)
  ultimately have "k < 2 ^ 64" by (simp add: le_less_trans)
  then have "unat (of_nat k :: addr) = k" by (simp add: unsigned_of_nat take_bit_nat_eq_self)
  with k show ?thesis by (simp add: unat_sub word_le_nat_alt)
qed

section \<open>The interface\<close>

locale byte_store =
  fixes rd :: "'m \<Rightarrow> addr \<Rightarrow> nat \<Rightarrow> byte list option"
    and wr :: "'m \<Rightarrow> addr \<Rightarrow> byte list \<Rightarrow> 'm option"
    and mapped :: "'m \<Rightarrow> addr set"
  assumes rd_defined: "region a n \<subseteq> mapped m \<longleftrightarrow> (\<exists>bs. rd m a n = Some bs)"
    and wr_defined: "region a (length bs) \<subseteq> mapped m \<longleftrightarrow> (\<exists>m'. wr m a bs = Some m')"
    and wr_mapped: "wr m a bs = Some m' \<Longrightarrow> mapped m' = mapped m"
    and rd_length: "rd m a n = Some bs \<Longrightarrow> length bs = n"
    and rd_after_wr: "wr m a bs = Some m' \<Longrightarrow> length bs \<le> 2 ^ 64 \<Longrightarrow> rd m' a (length bs) = Some bs"
    and rd_elsewhere:
      "wr m a bs = Some m' \<Longrightarrow> region a (length bs) \<inter> region x n = {} \<Longrightarrow> rd m' x n = rd m x n"
begin

text \<open>Integers: what a load of width \<open>n\<close> sees after a store of the same width.\<close>

lemma word_after_store:
  assumes "wr m a (bytes_of n w) = Some m'" and "n \<le> 8"
  shows "map_option word_of (rd m' a n) = Some (take_bit (8 * n) w)"
  using rd_after_wr[OF assms(1)] assms(2) by (simp add: word_of_bytes_of)

lemma word_elsewhere:
  assumes "wr m a (bytes_of n w) = Some m'" and "region a n \<inter> region x k = {}"
  shows "map_option word_of (rd m' x k) = map_option word_of (rd m x k)"
  using rd_elsewhere[OF assms(1)] assms(2) by simp

lemma store_defined_iff:
  "(\<exists>m'. wr m a (bytes_of n w) = Some m') \<longleftrightarrow> region a n \<subseteq> mapped m"
  using wr_defined[of a "bytes_of n w" m] by simp

lemma load_defined_iff:
  "(\<exists>w. map_option word_of (rd m a n) = Some w) \<longleftrightarrow> region a n \<subseteq> mapped m"
  using rd_defined[of a n m] by auto

text \<open>A whole run of bytes copied from one place to another, disjoint one (\<open>memcpy\<close>).\<close>

lemma copy_bytes:
  assumes "rd m src n = Some bs" and "wr m dst bs = Some m'" and "n \<le> 2 ^ 64"
    and "region dst n \<inter> region src n = {}"
  shows "rd m' dst n = Some bs" and "rd m' src n = Some bs"
proof -
  have n: "length bs = n" using assms(1) by (rule rd_length)
  show "rd m' dst n = Some bs"
    using rd_after_wr[OF assms(2)] assms(3) n by simp
  show "rd m' src n = Some bs"
    using rd_elsewhere[OF assms(2)] assms(1,4) n by simp
qed

end

interpretation ram: byte_store rd_bytes wr_bytes dom
  by unfold_locales
    (fact rd_bytes_total wr_bytes_total wr_bytes_dom rd_bytes_length rd_wr_same rd_wr_other)+

section \<open>Typed access\<close>

text \<open>\<open>*(unsigned T *)a\<close> with \<open>sizeof(T) = n\<close>, the sign-extending load of a signed \<open>T\<close>, and the
  store of the low \<open>n\<close> bytes of a stack word.\<close>

definition rd_word :: "nat \<Rightarrow> mem \<Rightarrow> addr \<Rightarrow> word64 option" where
  "rd_word n m a = map_option word_of (rd_bytes m a n)"

definition rd_sword :: "nat \<Rightarrow> mem \<Rightarrow> addr \<Rightarrow> word64 option" where
  "rd_sword n m a = map_option (\<lambda>bs. signed_take_bit (8 * n - 1) (word_of bs)) (rd_bytes m a n)"

definition wr_word :: "nat \<Rightarrow> mem \<Rightarrow> addr \<Rightarrow> word64 \<Rightarrow> mem option" where
  "wr_word n m a w = wr_bytes m a (bytes_of n w)"

lemma wr_word_defined [mem_simps]: "(\<exists>m'. wr_word n m a w = Some m') \<longleftrightarrow> region a n \<subseteq> dom m"
  unfolding wr_word_def by (rule ram.store_defined_iff)

lemma rd_word_defined [mem_simps]: "(\<exists>w. rd_word n m a = Some w) \<longleftrightarrow> region a n \<subseteq> dom m"
  unfolding rd_word_def by (rule ram.load_defined_iff)

lemma wr_word_dom: "wr_word n m a w = Some m' \<Longrightarrow> dom m' = dom m"
  unfolding wr_word_def by (rule ram.wr_mapped)

lemma rd_word_same: "wr_word n m a w = Some m' \<Longrightarrow> n \<le> 8 \<Longrightarrow> rd_word n m' a = Some (take_bit (8 * n) w)"
  unfolding wr_word_def rd_word_def by (rule ram.word_after_store)

lemma rd_word_same_8: "wr_word 8 m a w = Some m' \<Longrightarrow> rd_word 8 m' a = Some w"
  using rd_word_same[of 8 m a w m'] by (simp add: take_bit_word_eq_self)

lemma rd_word_other:
  "wr_word n m a w = Some m' \<Longrightarrow> region a n \<inter> region x k = {} \<Longrightarrow> rd_word k m' x = rd_word k m x"
  unfolding wr_word_def rd_word_def by (rule ram.word_elsewhere)

lemma rd_bytes_wr_word_other:
  "wr_word n m a w = Some m' \<Longrightarrow> region a n \<inter> region x k = {} \<Longrightarrow> rd_bytes m' x k = rd_bytes m x k"
  using ram.rd_elsewhere[of m a "bytes_of n w" m' x k] by (simp add: wr_word_def)

lemma rd_word_bytes: "rd_bytes m a n = Some bs \<Longrightarrow> rd_word n m a = Some (word_of bs)"
  by (simp add: rd_word_def)

end
