(* ===== verification/Ups_Opcodes.thy ===== *)
theory Ups_Opcodes
  imports Ups_Prelude
begin

text \<open>
  The opcodes of the C interpreter and their table (\<open>src/ups/xc_opcodes.h\<close>, \<open>src/ups/ci_opcodes.c\<close>),
  for the documented build (\<open>--enable-longlong\<close>, no long double, \<open>WANT_TYPE_PUSHED\<close>) on an LP64
  host.  The source lists 314 enumeration constants; they come in families that differ in the
  operand width (\<open>_B _W _L _Q\<close>), the type of the value moved or the type of the operands, and the
  code generator moves inside a family by adding to the enumeration value.  Here a family is one
  constructor, and \<open>Optab\<close> is the source's list in the source's order: the position of an
  opcode in it is its enumeration value.  The last part shows that the closed form of the
  enumeration value and of the table's columns agrees with the list, which is what the arithmetic
  of the code generator relies on.
\<close>

section \<open>The enumeration\<close>

text \<open>Operand widths: the \<open>_B\<close>, \<open>_W\<close>, \<open>_L\<close> and \<open>_Q\<close> forms.\<close>

datatype isz = SZ_B | SZ_W | SZ_L | SZ_Q

text \<open>Types of an assigned value: \<open>_LONG_LONG _BYTE _WORD _LONG _FLOAT _DOUBLE\<close>.\<close>

datatype aty = A_LONG_LONG | A_BYTE | A_WORD | A_LONG | A_FLOAT | A_DOUBLE

text \<open>Types of a loaded value: signed (and floating) ones first, as in the source's groups.\<close>

datatype (plugins only: code size) lty =
    LT_SLL | LT_SB | LT_SW | LT_SL | LT_F | LT_D
  | LT_ULL | LT_UB | LT_UW | LT_UL

text \<open>Operand types of the generic operators, in the source's order, and of the integer ones.\<close>

datatype nty = N_LL | N_WORD | N_FLOAT | N_DOUBLE
datatype ity = I_LL | I_WORD

datatype (plugins only: code size) arop =
    AR_MUL_SIGNED | AR_DIV_SIGNED | AR_CHKDIV_SIGNED | AR_ADD | AR_SUB
  | AR_IS_EQUAL | AR_NOT_EQUAL | AR_LESS_SIGNED | AR_GREATER_SIGNED
  | AR_LESS_OR_EQUAL_SIGNED | AR_GREATER_OR_EQUAL_SIGNED

datatype (plugins only: code size) inop =
    IN_BITWISE_AND | IN_BITWISE_XOR | IN_BITWISE_OR | IN_LSHIFT | IN_RSHIFT | IN_MOD
  | IN_MUL_UNSIGNED | IN_DIV_UNSIGNED | IN_CHKDIV_UNSIGNED
  | IN_LESS_UNSIGNED | IN_GREATER_UNSIGNED
  | IN_LESS_OR_EQUAL_UNSIGNED | IN_GREATER_OR_EQUAL_UNSIGNED

datatype (plugins only: code size) cvt =
    CVT_UNSIGNED_LONG_TO_LONG_LONG | CVT_SIGNED_LONG_TO_LONG_LONG
  | CVT_DOUBLE_TO_LONG_LONG | CVT_FLOAT_TO_LONG_LONG
  | CVT_UNSIGNED_LONG_LONG_TO_DOUBLE | CVT_SIGNED_LONG_LONG_TO_DOUBLE
  | CVT_UNSIGNED_LONG_LONG_TO_FLOAT | CVT_SIGNED_LONG_LONG_TO_FLOAT
  | CVT_UNSIGNED_LONG_LONG_TO_LONG | CVT_SIGNED_LONG_LONG_TO_LONG
  | CVT_LONG_LONG_TO_BOOL | CVT_UNSIGNED_LONG_TO_DOUBLE
  | CVT_SIGNED_LONG_TO_DOUBLE | CVT_FLOAT_TO_DOUBLE
  | CVT_UNSIGNED_LONG_TO_FLOAT | CVT_SIGNED_LONG_TO_FLOAT
  | CVT_DOUBLE_TO_FLOAT | CVT_FLOAT_TO_LONG
  | CVT_DOUBLE_TO_LONG | CVT_FLOAT_TO_BOOL
  | CVT_DOUBLE_TO_BOOL

datatype (plugins only: code size) opcode =
    OC_CALL isz | OC_POPMANY isz | OC_LINK isz | OC_PROC_MEMCPY isz | OC_MEMCPY isz
  | OC_PUSH_BYTES | OC_PROC_PUSH_BYTES | OC_RESERVE_BYTES
  | OC_PROC_ASSIGN aty | OC_ASSIGN aty | OC_PROC_ASSIGN_AND_PUSH aty | OC_ASSIGN_AND_PUSH aty
  | OC_PROC_DEREF lty | OC_DEREF lty
  | OC_NEG_CONSTPUSH isz | OC_CONSTPUSH isz | OC_PUSH_FLOAT_CONST | OC_PUSH_DOUBLE_CONST
  | OC_CHECK_SP isz
  | OC_PROC_PUSH_FP_ADDR isz | OC_PROC_PUSH_AP_ADDR isz | OC_PROC_PUSH_SP_ADDR isz
  | OC_PROC_PUSH_CFA_ADDR isz | OC_PUSH_STACKADDR isz
  | OC_PUSH_AT_STACKADDR lty isz | OC_PUSH_AT_ADDR lty isz
  | OC_INSERT_SIGNED_BITFIELD | OC_INSERT_UNSIGNED_BITFIELD
  | OC_EXTRACT_SIGNED_BITFIELD | OC_EXTRACT_UNSIGNED_BITFIELD
  | OC_RET | OC_RET_WORD | OC_RET_LONG_LONG | OC_RET_FLOAT | OC_RET_DOUBLE | OC_RET_STRUCT
  | OC_PUSH_STRUCTRET_ADDR | OC_MULTI_ARROW
  | OC_UNRESOLVED_JUMP | OC_JUMP | OC_JUMP_IF_NON_ZERO | OC_JUMP_IF_ZERO
  | OC_SWITCH_ON_TABLE | OC_SWITCH_ON_CHAIN isz
  | OC_PUSH_WORD_RETVAL | OC_PUSH_LONG_LONG_RETVAL | OC_PUSH_FLOAT_RETVAL | OC_PUSH_DOUBLE_RETVAL
  | OC_CALL_INDIRECT | OC_TRAP | OC_NOP | OC_SETJMP | OC_LONGJMP
  | OC_DUP | OC_DUP_BACK_ONE | OC_RESERVE_SLOT | OC_POP | OC_CVT_TO_BOOL
  | OC_BITWISE_NOT ity | OC_LOGICAL_NOT | OC_UNARY_MINUS nty
  | OC_ARITH arop nty | OC_INT inop ity | OC_CVT cvt

datatype operand_size = OS_ZERO | OS_BYTE | OS_WORD | OS_LONG | OS_QUAD | OS_OTHER

text \<open>Sizes in bytes: \<open>sizeof(stackword_t)\<close>, \<open>sizeof(float)\<close>, \<open>sizeof(double)\<close>, \<open>sizeof(long long)\<close>.\<close>

definition STACKW_SIZE :: int where [simp]: "STACKW_SIZE = 8"
definition FLOAT_NBYTES :: int where [simp]: "FLOAT_NBYTES = 4"
definition DOUBLE_NBYTES :: int where [simp]: "DOUBLE_NBYTES = 8"
definition LONGLONG_NBYTES :: int where [simp]: "LONGLONG_NBYTES = 8"

section \<open>The table\<close>

text \<open>One entry per opcode: the static effect on the stack in bytes (positive: it grows) and the
  kind of operand that follows the opcode.  The list is split as the source's groups are.\<close>

definition Optab_1 :: "(opcode \<times> int \<times> operand_size) list" where
  "Optab_1 = [
    (OC_CALL SZ_B, 0, OS_OTHER),
    (OC_CALL SZ_W, 0, OS_OTHER),
    (OC_CALL SZ_L, 0, OS_OTHER),
    (OC_CALL SZ_Q, 0, OS_OTHER),
    (OC_POPMANY SZ_B, 0, OS_BYTE),
    (OC_POPMANY SZ_W, 0, OS_WORD),
    (OC_POPMANY SZ_L, 0, OS_LONG),
    (OC_POPMANY SZ_Q, 0, OS_QUAD),
    (OC_LINK SZ_B, 0, OS_OTHER),
    (OC_LINK SZ_W, 0, OS_OTHER),
    (OC_LINK SZ_L, 0, OS_OTHER),
    (OC_LINK SZ_Q, 0, OS_OTHER),
    (OC_PROC_MEMCPY SZ_B, -(2 * STACKW_SIZE), OS_BYTE),
    (OC_PROC_MEMCPY SZ_W, -(2 * STACKW_SIZE), OS_WORD),
    (OC_PROC_MEMCPY SZ_L, -(2 * STACKW_SIZE), OS_LONG),
    (OC_PROC_MEMCPY SZ_Q, -(2 * STACKW_SIZE), OS_QUAD),
    (OC_MEMCPY SZ_B, -(2 * STACKW_SIZE), OS_BYTE),
    (OC_MEMCPY SZ_W, -(2 * STACKW_SIZE), OS_WORD),
    (OC_MEMCPY SZ_L, -(2 * STACKW_SIZE), OS_LONG),
    (OC_MEMCPY SZ_Q, -(2 * STACKW_SIZE), OS_QUAD),
    (OC_PUSH_BYTES, 0, OS_LONG),
    (OC_PROC_PUSH_BYTES, 0, OS_LONG),
    (OC_RESERVE_BYTES, 0, OS_LONG),
    (OC_PROC_ASSIGN A_LONG_LONG, -(STACKW_SIZE + LONGLONG_NBYTES), OS_ZERO),
    (OC_PROC_ASSIGN A_BYTE, -(2 * STACKW_SIZE), OS_ZERO),
    (OC_PROC_ASSIGN A_WORD, -(2 * STACKW_SIZE), OS_ZERO),
    (OC_PROC_ASSIGN A_LONG, -(2 * STACKW_SIZE), OS_ZERO),
    (OC_PROC_ASSIGN A_FLOAT, -(STACKW_SIZE + FLOAT_NBYTES), OS_ZERO),
    (OC_PROC_ASSIGN A_DOUBLE, -(STACKW_SIZE + DOUBLE_NBYTES), OS_ZERO),
    (OC_ASSIGN A_LONG_LONG, -(STACKW_SIZE + LONGLONG_NBYTES), OS_ZERO),
    (OC_ASSIGN A_BYTE, -(2 * STACKW_SIZE), OS_ZERO),
    (OC_ASSIGN A_WORD, -(2 * STACKW_SIZE), OS_ZERO),
    (OC_ASSIGN A_LONG, -(2 * STACKW_SIZE), OS_ZERO),
    (OC_ASSIGN A_FLOAT, -(STACKW_SIZE + FLOAT_NBYTES), OS_ZERO),
    (OC_ASSIGN A_DOUBLE, -(STACKW_SIZE + DOUBLE_NBYTES), OS_ZERO),
    (OC_PROC_ASSIGN_AND_PUSH A_LONG_LONG, -STACKW_SIZE, OS_ZERO),
    (OC_PROC_ASSIGN_AND_PUSH A_BYTE, -STACKW_SIZE, OS_ZERO),
    (OC_PROC_ASSIGN_AND_PUSH A_WORD, -STACKW_SIZE, OS_ZERO),
    (OC_PROC_ASSIGN_AND_PUSH A_LONG, -STACKW_SIZE, OS_ZERO),
    (OC_PROC_ASSIGN_AND_PUSH A_FLOAT, -STACKW_SIZE, OS_ZERO),
    (OC_PROC_ASSIGN_AND_PUSH A_DOUBLE, -STACKW_SIZE, OS_ZERO),
    (OC_ASSIGN_AND_PUSH A_LONG_LONG, -STACKW_SIZE, OS_ZERO),
    (OC_ASSIGN_AND_PUSH A_BYTE, -STACKW_SIZE, OS_ZERO),
    (OC_ASSIGN_AND_PUSH A_WORD, -STACKW_SIZE, OS_ZERO),
    (OC_ASSIGN_AND_PUSH A_LONG, -STACKW_SIZE, OS_ZERO),
    (OC_ASSIGN_AND_PUSH A_FLOAT, -STACKW_SIZE, OS_ZERO),
    (OC_ASSIGN_AND_PUSH A_DOUBLE, -STACKW_SIZE, OS_ZERO),
    (OC_PROC_DEREF LT_SLL, LONGLONG_NBYTES - STACKW_SIZE, OS_ZERO),
    (OC_PROC_DEREF LT_SB, 0, OS_ZERO),
    (OC_PROC_DEREF LT_SW, 0, OS_ZERO),
    (OC_PROC_DEREF LT_SL, 0, OS_ZERO),
    (OC_PROC_DEREF LT_F, FLOAT_NBYTES - STACKW_SIZE, OS_ZERO),
    (OC_PROC_DEREF LT_D, DOUBLE_NBYTES - STACKW_SIZE, OS_ZERO),
    (OC_PROC_DEREF LT_ULL, LONGLONG_NBYTES - STACKW_SIZE, OS_ZERO),
    (OC_PROC_DEREF LT_UB, 0, OS_ZERO),
    (OC_PROC_DEREF LT_UW, 0, OS_ZERO),
    (OC_PROC_DEREF LT_UL, 0, OS_ZERO),
    (OC_DEREF LT_SLL, LONGLONG_NBYTES - STACKW_SIZE, OS_ZERO),
    (OC_DEREF LT_SB, 0, OS_ZERO),
    (OC_DEREF LT_SW, 0, OS_ZERO),
    (OC_DEREF LT_SL, 0, OS_ZERO),
    (OC_DEREF LT_F, FLOAT_NBYTES - STACKW_SIZE, OS_ZERO),
    (OC_DEREF LT_D, DOUBLE_NBYTES - STACKW_SIZE, OS_ZERO),
    (OC_DEREF LT_ULL, LONGLONG_NBYTES - STACKW_SIZE, OS_ZERO),
    (OC_DEREF LT_UB, 0, OS_ZERO),
    (OC_DEREF LT_UW, 0, OS_ZERO),
    (OC_DEREF LT_UL, 0, OS_ZERO)]"

definition Optab_2 :: "(opcode \<times> int \<times> operand_size) list" where
  "Optab_2 = [
    (OC_NEG_CONSTPUSH SZ_B, STACKW_SIZE, OS_BYTE),
    (OC_NEG_CONSTPUSH SZ_W, STACKW_SIZE, OS_WORD),
    (OC_NEG_CONSTPUSH SZ_L, STACKW_SIZE, OS_LONG),
    (OC_NEG_CONSTPUSH SZ_Q, STACKW_SIZE, OS_QUAD),
    (OC_CONSTPUSH SZ_B, STACKW_SIZE, OS_BYTE),
    (OC_CONSTPUSH SZ_W, STACKW_SIZE, OS_WORD),
    (OC_CONSTPUSH SZ_L, STACKW_SIZE, OS_LONG),
    (OC_CONSTPUSH SZ_Q, STACKW_SIZE, OS_QUAD),
    (OC_PUSH_FLOAT_CONST, FLOAT_NBYTES, OS_OTHER),
    (OC_PUSH_DOUBLE_CONST, DOUBLE_NBYTES, OS_OTHER),
    (OC_CHECK_SP SZ_B, 0, OS_BYTE),
    (OC_CHECK_SP SZ_W, 0, OS_WORD),
    (OC_CHECK_SP SZ_L, 0, OS_LONG),
    (OC_CHECK_SP SZ_Q, 0, OS_QUAD),
    (OC_PROC_PUSH_FP_ADDR SZ_B, STACKW_SIZE, OS_BYTE),
    (OC_PROC_PUSH_FP_ADDR SZ_W, STACKW_SIZE, OS_WORD),
    (OC_PROC_PUSH_FP_ADDR SZ_L, STACKW_SIZE, OS_LONG),
    (OC_PROC_PUSH_FP_ADDR SZ_Q, STACKW_SIZE, OS_QUAD),
    (OC_PROC_PUSH_AP_ADDR SZ_B, STACKW_SIZE, OS_BYTE),
    (OC_PROC_PUSH_AP_ADDR SZ_W, STACKW_SIZE, OS_WORD),
    (OC_PROC_PUSH_AP_ADDR SZ_L, STACKW_SIZE, OS_LONG),
    (OC_PROC_PUSH_AP_ADDR SZ_Q, STACKW_SIZE, OS_QUAD),
    (OC_PROC_PUSH_SP_ADDR SZ_B, STACKW_SIZE, OS_BYTE),
    (OC_PROC_PUSH_SP_ADDR SZ_W, STACKW_SIZE, OS_WORD),
    (OC_PROC_PUSH_SP_ADDR SZ_L, STACKW_SIZE, OS_LONG),
    (OC_PROC_PUSH_SP_ADDR SZ_Q, STACKW_SIZE, OS_QUAD),
    (OC_PROC_PUSH_CFA_ADDR SZ_B, STACKW_SIZE, OS_BYTE),
    (OC_PROC_PUSH_CFA_ADDR SZ_W, STACKW_SIZE, OS_WORD),
    (OC_PROC_PUSH_CFA_ADDR SZ_L, STACKW_SIZE, OS_LONG),
    (OC_PROC_PUSH_CFA_ADDR SZ_Q, STACKW_SIZE, OS_QUAD),
    (OC_PUSH_STACKADDR SZ_B, STACKW_SIZE, OS_BYTE),
    (OC_PUSH_STACKADDR SZ_W, STACKW_SIZE, OS_WORD),
    (OC_PUSH_STACKADDR SZ_L, STACKW_SIZE, OS_LONG),
    (OC_PUSH_STACKADDR SZ_Q, STACKW_SIZE, OS_QUAD)]"

definition Optab_3 :: "(opcode \<times> int \<times> operand_size) list" where
  "Optab_3 = [
    (OC_PUSH_AT_STACKADDR LT_SLL SZ_B, LONGLONG_NBYTES, OS_BYTE),
    (OC_PUSH_AT_STACKADDR LT_SLL SZ_W, LONGLONG_NBYTES, OS_WORD),
    (OC_PUSH_AT_STACKADDR LT_SLL SZ_L, LONGLONG_NBYTES, OS_LONG),
    (OC_PUSH_AT_STACKADDR LT_SLL SZ_Q, LONGLONG_NBYTES, OS_QUAD),
    (OC_PUSH_AT_STACKADDR LT_SB SZ_B, STACKW_SIZE, OS_BYTE),
    (OC_PUSH_AT_STACKADDR LT_SB SZ_W, STACKW_SIZE, OS_WORD),
    (OC_PUSH_AT_STACKADDR LT_SB SZ_L, STACKW_SIZE, OS_LONG),
    (OC_PUSH_AT_STACKADDR LT_SB SZ_Q, STACKW_SIZE, OS_QUAD),
    (OC_PUSH_AT_STACKADDR LT_SW SZ_B, STACKW_SIZE, OS_BYTE),
    (OC_PUSH_AT_STACKADDR LT_SW SZ_W, STACKW_SIZE, OS_WORD),
    (OC_PUSH_AT_STACKADDR LT_SW SZ_L, STACKW_SIZE, OS_LONG),
    (OC_PUSH_AT_STACKADDR LT_SW SZ_Q, STACKW_SIZE, OS_QUAD),
    (OC_PUSH_AT_STACKADDR LT_SL SZ_B, STACKW_SIZE, OS_BYTE),
    (OC_PUSH_AT_STACKADDR LT_SL SZ_W, STACKW_SIZE, OS_WORD),
    (OC_PUSH_AT_STACKADDR LT_SL SZ_L, STACKW_SIZE, OS_LONG),
    (OC_PUSH_AT_STACKADDR LT_SL SZ_Q, STACKW_SIZE, OS_QUAD),
    (OC_PUSH_AT_STACKADDR LT_F SZ_B, FLOAT_NBYTES, OS_BYTE),
    (OC_PUSH_AT_STACKADDR LT_F SZ_W, FLOAT_NBYTES, OS_WORD),
    (OC_PUSH_AT_STACKADDR LT_F SZ_L, FLOAT_NBYTES, OS_LONG),
    (OC_PUSH_AT_STACKADDR LT_F SZ_Q, FLOAT_NBYTES, OS_QUAD),
    (OC_PUSH_AT_STACKADDR LT_D SZ_B, DOUBLE_NBYTES, OS_BYTE),
    (OC_PUSH_AT_STACKADDR LT_D SZ_W, DOUBLE_NBYTES, OS_WORD),
    (OC_PUSH_AT_STACKADDR LT_D SZ_L, DOUBLE_NBYTES, OS_LONG),
    (OC_PUSH_AT_STACKADDR LT_D SZ_Q, DOUBLE_NBYTES, OS_QUAD),
    (OC_PUSH_AT_STACKADDR LT_ULL SZ_B, LONGLONG_NBYTES, OS_BYTE),
    (OC_PUSH_AT_STACKADDR LT_ULL SZ_W, LONGLONG_NBYTES, OS_WORD),
    (OC_PUSH_AT_STACKADDR LT_ULL SZ_L, LONGLONG_NBYTES, OS_LONG),
    (OC_PUSH_AT_STACKADDR LT_ULL SZ_Q, LONGLONG_NBYTES, OS_QUAD),
    (OC_PUSH_AT_STACKADDR LT_UB SZ_B, STACKW_SIZE, OS_BYTE),
    (OC_PUSH_AT_STACKADDR LT_UB SZ_W, STACKW_SIZE, OS_WORD),
    (OC_PUSH_AT_STACKADDR LT_UB SZ_L, STACKW_SIZE, OS_LONG),
    (OC_PUSH_AT_STACKADDR LT_UB SZ_Q, STACKW_SIZE, OS_QUAD),
    (OC_PUSH_AT_STACKADDR LT_UW SZ_B, STACKW_SIZE, OS_BYTE),
    (OC_PUSH_AT_STACKADDR LT_UW SZ_W, STACKW_SIZE, OS_WORD),
    (OC_PUSH_AT_STACKADDR LT_UW SZ_L, STACKW_SIZE, OS_LONG),
    (OC_PUSH_AT_STACKADDR LT_UW SZ_Q, STACKW_SIZE, OS_QUAD),
    (OC_PUSH_AT_STACKADDR LT_UL SZ_B, STACKW_SIZE, OS_BYTE),
    (OC_PUSH_AT_STACKADDR LT_UL SZ_W, STACKW_SIZE, OS_WORD),
    (OC_PUSH_AT_STACKADDR LT_UL SZ_L, STACKW_SIZE, OS_LONG),
    (OC_PUSH_AT_STACKADDR LT_UL SZ_Q, STACKW_SIZE, OS_QUAD),
    (OC_PUSH_AT_ADDR LT_ULL SZ_B, LONGLONG_NBYTES, OS_BYTE),
    (OC_PUSH_AT_ADDR LT_ULL SZ_W, LONGLONG_NBYTES, OS_WORD),
    (OC_PUSH_AT_ADDR LT_ULL SZ_L, LONGLONG_NBYTES, OS_LONG),
    (OC_PUSH_AT_ADDR LT_ULL SZ_Q, LONGLONG_NBYTES, OS_QUAD),
    (OC_PUSH_AT_ADDR LT_UB SZ_B, STACKW_SIZE, OS_BYTE),
    (OC_PUSH_AT_ADDR LT_UB SZ_W, STACKW_SIZE, OS_WORD),
    (OC_PUSH_AT_ADDR LT_UB SZ_L, STACKW_SIZE, OS_LONG),
    (OC_PUSH_AT_ADDR LT_UB SZ_Q, STACKW_SIZE, OS_QUAD),
    (OC_PUSH_AT_ADDR LT_UW SZ_B, STACKW_SIZE, OS_BYTE),
    (OC_PUSH_AT_ADDR LT_UW SZ_W, STACKW_SIZE, OS_WORD),
    (OC_PUSH_AT_ADDR LT_UW SZ_L, STACKW_SIZE, OS_LONG),
    (OC_PUSH_AT_ADDR LT_UW SZ_Q, STACKW_SIZE, OS_QUAD),
    (OC_PUSH_AT_ADDR LT_UL SZ_B, STACKW_SIZE, OS_BYTE),
    (OC_PUSH_AT_ADDR LT_UL SZ_W, STACKW_SIZE, OS_WORD),
    (OC_PUSH_AT_ADDR LT_UL SZ_L, STACKW_SIZE, OS_LONG),
    (OC_PUSH_AT_ADDR LT_UL SZ_Q, STACKW_SIZE, OS_QUAD)]"

definition Optab_4 :: "(opcode \<times> int \<times> operand_size) list" where
  "Optab_4 = [
    (OC_PUSH_AT_ADDR LT_SLL SZ_B, LONGLONG_NBYTES, OS_BYTE),
    (OC_PUSH_AT_ADDR LT_SLL SZ_W, LONGLONG_NBYTES, OS_WORD),
    (OC_PUSH_AT_ADDR LT_SLL SZ_L, LONGLONG_NBYTES, OS_LONG),
    (OC_PUSH_AT_ADDR LT_SLL SZ_Q, LONGLONG_NBYTES, OS_QUAD),
    (OC_PUSH_AT_ADDR LT_SB SZ_B, STACKW_SIZE, OS_BYTE),
    (OC_PUSH_AT_ADDR LT_SB SZ_W, STACKW_SIZE, OS_WORD),
    (OC_PUSH_AT_ADDR LT_SB SZ_L, STACKW_SIZE, OS_LONG),
    (OC_PUSH_AT_ADDR LT_SB SZ_Q, STACKW_SIZE, OS_QUAD),
    (OC_PUSH_AT_ADDR LT_SW SZ_B, STACKW_SIZE, OS_BYTE),
    (OC_PUSH_AT_ADDR LT_SW SZ_W, STACKW_SIZE, OS_WORD),
    (OC_PUSH_AT_ADDR LT_SW SZ_L, STACKW_SIZE, OS_LONG),
    (OC_PUSH_AT_ADDR LT_SW SZ_Q, STACKW_SIZE, OS_QUAD),
    (OC_PUSH_AT_ADDR LT_SL SZ_B, STACKW_SIZE, OS_BYTE),
    (OC_PUSH_AT_ADDR LT_SL SZ_W, STACKW_SIZE, OS_WORD),
    (OC_PUSH_AT_ADDR LT_SL SZ_L, STACKW_SIZE, OS_LONG),
    (OC_PUSH_AT_ADDR LT_SL SZ_Q, STACKW_SIZE, OS_QUAD),
    (OC_PUSH_AT_ADDR LT_F SZ_B, FLOAT_NBYTES, OS_BYTE),
    (OC_PUSH_AT_ADDR LT_F SZ_W, FLOAT_NBYTES, OS_WORD),
    (OC_PUSH_AT_ADDR LT_F SZ_L, FLOAT_NBYTES, OS_LONG),
    (OC_PUSH_AT_ADDR LT_F SZ_Q, FLOAT_NBYTES, OS_QUAD),
    (OC_PUSH_AT_ADDR LT_D SZ_B, DOUBLE_NBYTES, OS_BYTE),
    (OC_PUSH_AT_ADDR LT_D SZ_W, DOUBLE_NBYTES, OS_WORD),
    (OC_PUSH_AT_ADDR LT_D SZ_L, DOUBLE_NBYTES, OS_LONG),
    (OC_PUSH_AT_ADDR LT_D SZ_Q, DOUBLE_NBYTES, OS_QUAD),
    (OC_INSERT_SIGNED_BITFIELD, -STACKW_SIZE, OS_OTHER),
    (OC_INSERT_UNSIGNED_BITFIELD, -STACKW_SIZE, OS_OTHER),
    (OC_EXTRACT_SIGNED_BITFIELD, 0, OS_OTHER),
    (OC_EXTRACT_UNSIGNED_BITFIELD, 0, OS_OTHER)]"

definition Optab_5 :: "(opcode \<times> int \<times> operand_size) list" where
  "Optab_5 = [
    (OC_RET, 0, OS_ZERO),
    (OC_RET_WORD, -STACKW_SIZE, OS_ZERO),
    (OC_RET_LONG_LONG, -(LONGLONG_NBYTES), OS_ZERO),
    (OC_RET_FLOAT, -(FLOAT_NBYTES), OS_ZERO),
    (OC_RET_DOUBLE, -(DOUBLE_NBYTES), OS_ZERO),
    (OC_RET_STRUCT, 0, OS_LONG),
    (OC_PUSH_STRUCTRET_ADDR, STACKW_SIZE, OS_ZERO),
    (OC_MULTI_ARROW, -(2 * STACKW_SIZE), OS_ZERO),
    (OC_UNRESOLVED_JUMP, 0, OS_OTHER),
    (OC_JUMP, 0, OS_OTHER),
    (OC_JUMP_IF_NON_ZERO, -STACKW_SIZE, OS_OTHER),
    (OC_JUMP_IF_ZERO, -STACKW_SIZE, OS_OTHER),
    (OC_SWITCH_ON_TABLE, -STACKW_SIZE, OS_OTHER),
    (OC_SWITCH_ON_CHAIN SZ_B, -STACKW_SIZE, OS_OTHER),
    (OC_SWITCH_ON_CHAIN SZ_W, -STACKW_SIZE, OS_OTHER),
    (OC_SWITCH_ON_CHAIN SZ_L, -STACKW_SIZE, OS_OTHER),
    (OC_SWITCH_ON_CHAIN SZ_Q, -STACKW_SIZE, OS_OTHER),
    (OC_PUSH_WORD_RETVAL, STACKW_SIZE, OS_ZERO),
    (OC_PUSH_LONG_LONG_RETVAL, LONGLONG_NBYTES, OS_ZERO),
    (OC_PUSH_FLOAT_RETVAL, FLOAT_NBYTES, OS_ZERO),
    (OC_PUSH_DOUBLE_RETVAL, DOUBLE_NBYTES, OS_ZERO),
    (OC_CALL_INDIRECT, -STACKW_SIZE, OS_OTHER),
    (OC_TRAP, 0, OS_ZERO),
    (OC_NOP, 0, OS_ZERO),
    (OC_SETJMP, 0, OS_ZERO),
    (OC_LONGJMP, 0, OS_ZERO),
    (OC_DUP, STACKW_SIZE, OS_ZERO),
    (OC_DUP_BACK_ONE, 0, OS_ZERO),
    (OC_RESERVE_SLOT, STACKW_SIZE, OS_ZERO),
    (OC_POP, -STACKW_SIZE, OS_ZERO),
    (OC_CVT_TO_BOOL, 0, OS_ZERO),
    (OC_INT IN_BITWISE_AND I_LL, -LONGLONG_NBYTES, OS_ZERO),
    (OC_INT IN_BITWISE_AND I_WORD, -STACKW_SIZE, OS_ZERO),
    (OC_INT IN_BITWISE_XOR I_LL, -LONGLONG_NBYTES, OS_ZERO),
    (OC_INT IN_BITWISE_XOR I_WORD, -STACKW_SIZE, OS_ZERO),
    (OC_INT IN_BITWISE_OR I_LL, -LONGLONG_NBYTES, OS_ZERO),
    (OC_INT IN_BITWISE_OR I_WORD, -STACKW_SIZE, OS_ZERO),
    (OC_BITWISE_NOT I_LL, 0, OS_ZERO),
    (OC_BITWISE_NOT I_WORD, 0, OS_ZERO),
    (OC_LOGICAL_NOT, 0, OS_ZERO),
    (OC_INT IN_LSHIFT I_LL, -LONGLONG_NBYTES, OS_ZERO),
    (OC_INT IN_LSHIFT I_WORD, -STACKW_SIZE, OS_ZERO),
    (OC_INT IN_RSHIFT I_LL, -LONGLONG_NBYTES, OS_ZERO),
    (OC_INT IN_RSHIFT I_WORD, -STACKW_SIZE, OS_ZERO),
    (OC_INT IN_MOD I_LL, -LONGLONG_NBYTES, OS_ZERO)]"

definition Optab_6 :: "(opcode \<times> int \<times> operand_size) list" where
  "Optab_6 = [
    (OC_INT IN_MOD I_WORD, -STACKW_SIZE, OS_ZERO),
    (OC_UNARY_MINUS N_LL, 0, OS_ZERO),
    (OC_UNARY_MINUS N_WORD, 0, OS_ZERO),
    (OC_UNARY_MINUS N_FLOAT, 0, OS_ZERO),
    (OC_UNARY_MINUS N_DOUBLE, 0, OS_ZERO),
    (OC_ARITH AR_MUL_SIGNED N_LL, -LONGLONG_NBYTES, OS_ZERO),
    (OC_ARITH AR_MUL_SIGNED N_WORD, -STACKW_SIZE, OS_ZERO),
    (OC_ARITH AR_MUL_SIGNED N_FLOAT, -(FLOAT_NBYTES), OS_ZERO),
    (OC_ARITH AR_MUL_SIGNED N_DOUBLE, -(DOUBLE_NBYTES), OS_ZERO),
    (OC_ARITH AR_DIV_SIGNED N_LL, -LONGLONG_NBYTES, OS_ZERO),
    (OC_ARITH AR_DIV_SIGNED N_WORD, -STACKW_SIZE, OS_ZERO),
    (OC_ARITH AR_DIV_SIGNED N_FLOAT, -(FLOAT_NBYTES), OS_ZERO),
    (OC_ARITH AR_DIV_SIGNED N_DOUBLE, -(DOUBLE_NBYTES), OS_ZERO),
    (OC_ARITH AR_CHKDIV_SIGNED N_LL, -LONGLONG_NBYTES, OS_ZERO),
    (OC_ARITH AR_CHKDIV_SIGNED N_WORD, -STACKW_SIZE, OS_ZERO),
    (OC_ARITH AR_CHKDIV_SIGNED N_FLOAT, -(FLOAT_NBYTES), OS_ZERO),
    (OC_ARITH AR_CHKDIV_SIGNED N_DOUBLE, -(DOUBLE_NBYTES), OS_ZERO),
    (OC_ARITH AR_ADD N_LL, -LONGLONG_NBYTES, OS_ZERO),
    (OC_ARITH AR_ADD N_WORD, -STACKW_SIZE, OS_ZERO),
    (OC_ARITH AR_ADD N_FLOAT, -(FLOAT_NBYTES), OS_ZERO),
    (OC_ARITH AR_ADD N_DOUBLE, -(DOUBLE_NBYTES), OS_ZERO),
    (OC_ARITH AR_SUB N_LL, -LONGLONG_NBYTES, OS_ZERO),
    (OC_ARITH AR_SUB N_WORD, -STACKW_SIZE, OS_ZERO),
    (OC_ARITH AR_SUB N_FLOAT, -(FLOAT_NBYTES), OS_ZERO),
    (OC_ARITH AR_SUB N_DOUBLE, -(DOUBLE_NBYTES), OS_ZERO),
    (OC_ARITH AR_IS_EQUAL N_LL, -((2 * LONGLONG_NBYTES) - STACKW_SIZE), OS_ZERO),
    (OC_ARITH AR_IS_EQUAL N_WORD, -STACKW_SIZE, OS_ZERO),
    (OC_ARITH AR_IS_EQUAL N_FLOAT, -((2 * FLOAT_NBYTES) - STACKW_SIZE), OS_ZERO),
    (OC_ARITH AR_IS_EQUAL N_DOUBLE, -((2 * DOUBLE_NBYTES) - STACKW_SIZE), OS_ZERO),
    (OC_ARITH AR_NOT_EQUAL N_LL, -((2 * LONGLONG_NBYTES) - STACKW_SIZE), OS_ZERO),
    (OC_ARITH AR_NOT_EQUAL N_WORD, -STACKW_SIZE, OS_ZERO),
    (OC_ARITH AR_NOT_EQUAL N_FLOAT, -((2 * FLOAT_NBYTES) - STACKW_SIZE), OS_ZERO),
    (OC_ARITH AR_NOT_EQUAL N_DOUBLE, -((2 * DOUBLE_NBYTES) - STACKW_SIZE), OS_ZERO),
    (OC_ARITH AR_LESS_SIGNED N_LL, -((2 * LONGLONG_NBYTES) - STACKW_SIZE), OS_ZERO),
    (OC_ARITH AR_LESS_SIGNED N_WORD, -STACKW_SIZE, OS_ZERO),
    (OC_ARITH AR_LESS_SIGNED N_FLOAT, -((2 * FLOAT_NBYTES) - STACKW_SIZE), OS_ZERO),
    (OC_ARITH AR_LESS_SIGNED N_DOUBLE, -((2 * DOUBLE_NBYTES) - STACKW_SIZE), OS_ZERO),
    (OC_ARITH AR_GREATER_SIGNED N_LL, -((2 * LONGLONG_NBYTES) - STACKW_SIZE), OS_ZERO),
    (OC_ARITH AR_GREATER_SIGNED N_WORD, -STACKW_SIZE, OS_ZERO),
    (OC_ARITH AR_GREATER_SIGNED N_FLOAT, -((2 * FLOAT_NBYTES) - STACKW_SIZE), OS_ZERO),
    (OC_ARITH AR_GREATER_SIGNED N_DOUBLE, -((2 * DOUBLE_NBYTES) - STACKW_SIZE), OS_ZERO)]"

definition Optab_7 :: "(opcode \<times> int \<times> operand_size) list" where
  "Optab_7 = [
    (OC_ARITH AR_LESS_OR_EQUAL_SIGNED N_LL, -((2 * LONGLONG_NBYTES) - STACKW_SIZE), OS_ZERO),
    (OC_ARITH AR_LESS_OR_EQUAL_SIGNED N_WORD, -STACKW_SIZE, OS_ZERO),
    (OC_ARITH AR_LESS_OR_EQUAL_SIGNED N_FLOAT, -((2 * FLOAT_NBYTES) - STACKW_SIZE), OS_ZERO),
    (OC_ARITH AR_LESS_OR_EQUAL_SIGNED N_DOUBLE, -((2 * DOUBLE_NBYTES) - STACKW_SIZE), OS_ZERO),
    (OC_ARITH AR_GREATER_OR_EQUAL_SIGNED N_LL, -((2 * LONGLONG_NBYTES) - STACKW_SIZE), OS_ZERO),
    (OC_ARITH AR_GREATER_OR_EQUAL_SIGNED N_WORD, -STACKW_SIZE, OS_ZERO),
    (OC_ARITH AR_GREATER_OR_EQUAL_SIGNED N_FLOAT, -((2 * FLOAT_NBYTES) - STACKW_SIZE), OS_ZERO),
    (OC_ARITH AR_GREATER_OR_EQUAL_SIGNED N_DOUBLE, -((2 * DOUBLE_NBYTES) - STACKW_SIZE), OS_ZERO),
    (OC_INT IN_MUL_UNSIGNED I_LL, -LONGLONG_NBYTES, OS_ZERO),
    (OC_INT IN_MUL_UNSIGNED I_WORD, -STACKW_SIZE, OS_ZERO),
    (OC_INT IN_DIV_UNSIGNED I_LL, -LONGLONG_NBYTES, OS_ZERO),
    (OC_INT IN_DIV_UNSIGNED I_WORD, -STACKW_SIZE, OS_ZERO),
    (OC_INT IN_CHKDIV_UNSIGNED I_LL, -LONGLONG_NBYTES, OS_ZERO),
    (OC_INT IN_CHKDIV_UNSIGNED I_WORD, -STACKW_SIZE, OS_ZERO),
    (OC_INT IN_LESS_UNSIGNED I_LL, -((2 * LONGLONG_NBYTES) - STACKW_SIZE), OS_ZERO),
    (OC_INT IN_LESS_UNSIGNED I_WORD, -STACKW_SIZE, OS_ZERO),
    (OC_INT IN_GREATER_UNSIGNED I_LL, -((2 * LONGLONG_NBYTES) - STACKW_SIZE), OS_ZERO),
    (OC_INT IN_GREATER_UNSIGNED I_WORD, -STACKW_SIZE, OS_ZERO),
    (OC_INT IN_LESS_OR_EQUAL_UNSIGNED I_LL, -((2 * LONGLONG_NBYTES) - STACKW_SIZE), OS_ZERO),
    (OC_INT IN_LESS_OR_EQUAL_UNSIGNED I_WORD, -STACKW_SIZE, OS_ZERO),
    (OC_INT IN_GREATER_OR_EQUAL_UNSIGNED I_LL, -((2 * LONGLONG_NBYTES) - STACKW_SIZE), OS_ZERO),
    (OC_INT IN_GREATER_OR_EQUAL_UNSIGNED I_WORD, -STACKW_SIZE, OS_ZERO),
    (OC_CVT CVT_UNSIGNED_LONG_TO_LONG_LONG, LONGLONG_NBYTES - STACKW_SIZE, OS_ZERO),
    (OC_CVT CVT_SIGNED_LONG_TO_LONG_LONG, LONGLONG_NBYTES - STACKW_SIZE, OS_ZERO),
    (OC_CVT CVT_DOUBLE_TO_LONG_LONG, LONGLONG_NBYTES - DOUBLE_NBYTES, OS_ZERO),
    (OC_CVT CVT_FLOAT_TO_LONG_LONG, LONGLONG_NBYTES - FLOAT_NBYTES, OS_ZERO),
    (OC_CVT CVT_UNSIGNED_LONG_LONG_TO_DOUBLE, DOUBLE_NBYTES - LONGLONG_NBYTES, OS_ZERO),
    (OC_CVT CVT_SIGNED_LONG_LONG_TO_DOUBLE, DOUBLE_NBYTES - LONGLONG_NBYTES, OS_ZERO),
    (OC_CVT CVT_UNSIGNED_LONG_LONG_TO_FLOAT, FLOAT_NBYTES - LONGLONG_NBYTES, OS_ZERO),
    (OC_CVT CVT_SIGNED_LONG_LONG_TO_FLOAT, FLOAT_NBYTES - LONGLONG_NBYTES, OS_ZERO),
    (OC_CVT CVT_UNSIGNED_LONG_LONG_TO_LONG, STACKW_SIZE - LONGLONG_NBYTES, OS_ZERO),
    (OC_CVT CVT_SIGNED_LONG_LONG_TO_LONG, STACKW_SIZE - LONGLONG_NBYTES, OS_ZERO),
    (OC_CVT CVT_LONG_LONG_TO_BOOL, STACKW_SIZE - LONGLONG_NBYTES, OS_ZERO),
    (OC_CVT CVT_UNSIGNED_LONG_TO_DOUBLE, DOUBLE_NBYTES - STACKW_SIZE, OS_ZERO),
    (OC_CVT CVT_SIGNED_LONG_TO_DOUBLE, DOUBLE_NBYTES - STACKW_SIZE, OS_ZERO),
    (OC_CVT CVT_FLOAT_TO_DOUBLE, DOUBLE_NBYTES - FLOAT_NBYTES, OS_ZERO),
    (OC_CVT CVT_UNSIGNED_LONG_TO_FLOAT, FLOAT_NBYTES - STACKW_SIZE, OS_ZERO),
    (OC_CVT CVT_SIGNED_LONG_TO_FLOAT, FLOAT_NBYTES - STACKW_SIZE, OS_ZERO),
    (OC_CVT CVT_DOUBLE_TO_FLOAT, -(DOUBLE_NBYTES - FLOAT_NBYTES), OS_ZERO),
    (OC_CVT CVT_FLOAT_TO_LONG, -(FLOAT_NBYTES - STACKW_SIZE), OS_ZERO),
    (OC_CVT CVT_DOUBLE_TO_LONG, -(DOUBLE_NBYTES - STACKW_SIZE), OS_ZERO),
    (OC_CVT CVT_FLOAT_TO_BOOL, -(FLOAT_NBYTES - STACKW_SIZE), OS_ZERO),
    (OC_CVT CVT_DOUBLE_TO_BOOL, -(DOUBLE_NBYTES - STACKW_SIZE), OS_ZERO)]"

definition Optab :: "(opcode \<times> int \<times> operand_size) list" where
  "Optab = Optab_1 @ Optab_2 @ Optab_3 @ Optab_4 @ Optab_5 @ Optab_6 @ Optab_7"

definition NUM_OPCODES :: nat where
  "NUM_OPCODES = 314"

section \<open>Closed forms\<close>

text \<open>Offsets inside a family: \<open>BYTE_FORM_OFFSET\<close> and so on.\<close>

primrec isz_offset :: "isz \<Rightarrow> nat" where
  "isz_offset SZ_B = 0" | "isz_offset SZ_W = 1" | "isz_offset SZ_L = 2" | "isz_offset SZ_Q = 3"

primrec aty_index :: "aty \<Rightarrow> nat" where
  "aty_index A_LONG_LONG = 0" | "aty_index A_BYTE = 1" | "aty_index A_WORD = 2"
| "aty_index A_LONG = 3" | "aty_index A_FLOAT = 4" | "aty_index A_DOUBLE = 5"

primrec lty_index :: "lty \<Rightarrow> nat" where
  "lty_index LT_SLL = 0" | "lty_index LT_SB = 1" | "lty_index LT_SW = 2" | "lty_index LT_SL = 3"
| "lty_index LT_F = 4" | "lty_index LT_D = 5"
| "lty_index LT_ULL = 6" | "lty_index LT_UB = 7" | "lty_index LT_UW = 8" | "lty_index LT_UL = 9"

primrec nty_index :: "nty \<Rightarrow> nat" where
  "nty_index N_LL = 0" | "nty_index N_WORD = 1" | "nty_index N_FLOAT = 2" | "nty_index N_DOUBLE = 3"

primrec ity_index :: "ity \<Rightarrow> nat" where
  "ity_index I_LL = 0" | "ity_index I_WORD = 1"

primrec arop_base :: "arop \<Rightarrow> nat" where
  "arop_base AR_MUL_SIGNED = 235"
| "arop_base AR_DIV_SIGNED = 239"
| "arop_base AR_CHKDIV_SIGNED = 243"
| "arop_base AR_ADD = 247"
| "arop_base AR_SUB = 251"
| "arop_base AR_IS_EQUAL = 255"
| "arop_base AR_NOT_EQUAL = 259"
| "arop_base AR_LESS_SIGNED = 263"
| "arop_base AR_GREATER_SIGNED = 267"
| "arop_base AR_LESS_OR_EQUAL_SIGNED = 271"
| "arop_base AR_GREATER_OR_EQUAL_SIGNED = 275"

primrec inop_base :: "inop \<Rightarrow> nat" where
  "inop_base IN_BITWISE_AND = 216"
| "inop_base IN_BITWISE_XOR = 218"
| "inop_base IN_BITWISE_OR = 220"
| "inop_base IN_LSHIFT = 225"
| "inop_base IN_RSHIFT = 227"
| "inop_base IN_MOD = 229"
| "inop_base IN_MUL_UNSIGNED = 279"
| "inop_base IN_DIV_UNSIGNED = 281"
| "inop_base IN_CHKDIV_UNSIGNED = 283"
| "inop_base IN_LESS_UNSIGNED = 285"
| "inop_base IN_GREATER_UNSIGNED = 287"
| "inop_base IN_LESS_OR_EQUAL_UNSIGNED = 289"
| "inop_base IN_GREATER_OR_EQUAL_UNSIGNED = 291"

primrec cvt_base :: "cvt \<Rightarrow> nat" where
  "cvt_base CVT_UNSIGNED_LONG_TO_LONG_LONG = 293"
| "cvt_base CVT_SIGNED_LONG_TO_LONG_LONG = 294"
| "cvt_base CVT_DOUBLE_TO_LONG_LONG = 295"
| "cvt_base CVT_FLOAT_TO_LONG_LONG = 296"
| "cvt_base CVT_UNSIGNED_LONG_LONG_TO_DOUBLE = 297"
| "cvt_base CVT_SIGNED_LONG_LONG_TO_DOUBLE = 298"
| "cvt_base CVT_UNSIGNED_LONG_LONG_TO_FLOAT = 299"
| "cvt_base CVT_SIGNED_LONG_LONG_TO_FLOAT = 300"
| "cvt_base CVT_UNSIGNED_LONG_LONG_TO_LONG = 301"
| "cvt_base CVT_SIGNED_LONG_LONG_TO_LONG = 302"
| "cvt_base CVT_LONG_LONG_TO_BOOL = 303"
| "cvt_base CVT_UNSIGNED_LONG_TO_DOUBLE = 304"
| "cvt_base CVT_SIGNED_LONG_TO_DOUBLE = 305"
| "cvt_base CVT_FLOAT_TO_DOUBLE = 306"
| "cvt_base CVT_UNSIGNED_LONG_TO_FLOAT = 307"
| "cvt_base CVT_SIGNED_LONG_TO_FLOAT = 308"
| "cvt_base CVT_DOUBLE_TO_FLOAT = 309"
| "cvt_base CVT_FLOAT_TO_LONG = 310"
| "cvt_base CVT_DOUBLE_TO_LONG = 311"
| "cvt_base CVT_FLOAT_TO_BOOL = 312"
| "cvt_base CVT_DOUBLE_TO_BOOL = 313"

text \<open>The enumeration value of an opcode.\<close>

primrec opcode_num :: "opcode \<Rightarrow> nat" where
  "opcode_num (OC_CALL sz) = isz_offset sz"
| "opcode_num (OC_POPMANY sz) = 4 + isz_offset sz"
| "opcode_num (OC_LINK sz) = 8 + isz_offset sz"
| "opcode_num (OC_PROC_MEMCPY sz) = 12 + isz_offset sz"
| "opcode_num (OC_MEMCPY sz) = 16 + isz_offset sz"
| "opcode_num (OC_NEG_CONSTPUSH sz) = 67 + isz_offset sz"
| "opcode_num (OC_CONSTPUSH sz) = 71 + isz_offset sz"
| "opcode_num (OC_CHECK_SP sz) = 77 + isz_offset sz"
| "opcode_num (OC_PROC_PUSH_FP_ADDR sz) = 81 + isz_offset sz"
| "opcode_num (OC_PROC_PUSH_AP_ADDR sz) = 85 + isz_offset sz"
| "opcode_num (OC_PROC_PUSH_SP_ADDR sz) = 89 + isz_offset sz"
| "opcode_num (OC_PROC_PUSH_CFA_ADDR sz) = 93 + isz_offset sz"
| "opcode_num (OC_PUSH_STACKADDR sz) = 97 + isz_offset sz"
| "opcode_num (OC_SWITCH_ON_CHAIN sz) = 198 + isz_offset sz"
| "opcode_num (OC_PROC_ASSIGN t) = 23 + aty_index t"
| "opcode_num (OC_ASSIGN t) = 29 + aty_index t"
| "opcode_num (OC_PROC_ASSIGN_AND_PUSH t) = 35 + aty_index t"
| "opcode_num (OC_ASSIGN_AND_PUSH t) = 41 + aty_index t"
| "opcode_num (OC_PROC_DEREF t) = 47 + lty_index t"
| "opcode_num (OC_DEREF t) = 57 + lty_index t"
| "opcode_num (OC_PUSH_AT_STACKADDR t sz) = 101 + 4 * lty_index t + isz_offset sz"
| "opcode_num (OC_PUSH_AT_ADDR t sz) =
     (if 6 \<le> lty_index t then 141 + 4 * (lty_index t - 6) else 157 + 4 * lty_index t) + isz_offset sz"
| "opcode_num OC_PUSH_BYTES = 20"
| "opcode_num OC_PROC_PUSH_BYTES = 21"
| "opcode_num OC_RESERVE_BYTES = 22"
| "opcode_num OC_PUSH_FLOAT_CONST = 75"
| "opcode_num OC_PUSH_DOUBLE_CONST = 76"
| "opcode_num OC_INSERT_SIGNED_BITFIELD = 181"
| "opcode_num OC_INSERT_UNSIGNED_BITFIELD = 182"
| "opcode_num OC_EXTRACT_SIGNED_BITFIELD = 183"
| "opcode_num OC_EXTRACT_UNSIGNED_BITFIELD = 184"
| "opcode_num OC_RET = 185"
| "opcode_num OC_RET_WORD = 186"
| "opcode_num OC_RET_LONG_LONG = 187"
| "opcode_num OC_RET_FLOAT = 188"
| "opcode_num OC_RET_DOUBLE = 189"
| "opcode_num OC_RET_STRUCT = 190"
| "opcode_num OC_PUSH_STRUCTRET_ADDR = 191"
| "opcode_num OC_MULTI_ARROW = 192"
| "opcode_num OC_UNRESOLVED_JUMP = 193"
| "opcode_num OC_JUMP = 194"
| "opcode_num OC_JUMP_IF_NON_ZERO = 195"
| "opcode_num OC_JUMP_IF_ZERO = 196"
| "opcode_num OC_SWITCH_ON_TABLE = 197"
| "opcode_num OC_PUSH_WORD_RETVAL = 202"
| "opcode_num OC_PUSH_LONG_LONG_RETVAL = 203"
| "opcode_num OC_PUSH_FLOAT_RETVAL = 204"
| "opcode_num OC_PUSH_DOUBLE_RETVAL = 205"
| "opcode_num OC_CALL_INDIRECT = 206"
| "opcode_num OC_TRAP = 207"
| "opcode_num OC_NOP = 208"
| "opcode_num OC_SETJMP = 209"
| "opcode_num OC_LONGJMP = 210"
| "opcode_num OC_DUP = 211"
| "opcode_num OC_DUP_BACK_ONE = 212"
| "opcode_num OC_RESERVE_SLOT = 213"
| "opcode_num OC_POP = 214"
| "opcode_num OC_CVT_TO_BOOL = 215"
| "opcode_num OC_LOGICAL_NOT = 224"
| "opcode_num (OC_BITWISE_NOT t) = 222 + ity_index t"
| "opcode_num (OC_UNARY_MINUS t) = 231 + nty_index t"
| "opcode_num (OC_ARITH a t) = arop_base a + nty_index t"
| "opcode_num (OC_INT a t) = inop_base a + ity_index t"
| "opcode_num (OC_CVT c) = cvt_base c"

definition opcode_of :: "nat \<Rightarrow> opcode option" where
  "opcode_of n = (if n < NUM_OPCODES then Some (fst (Optab ! n)) else None)"

text \<open>Bytes the table counts for a value of each type.\<close>

primrec lty_nbytes :: "lty \<Rightarrow> int" where
  "lty_nbytes LT_SLL = LONGLONG_NBYTES" | "lty_nbytes LT_SB = STACKW_SIZE"
| "lty_nbytes LT_SW = STACKW_SIZE" | "lty_nbytes LT_SL = STACKW_SIZE"
| "lty_nbytes LT_F = FLOAT_NBYTES" | "lty_nbytes LT_D = DOUBLE_NBYTES"
| "lty_nbytes LT_ULL = LONGLONG_NBYTES" | "lty_nbytes LT_UB = STACKW_SIZE"
| "lty_nbytes LT_UW = STACKW_SIZE" | "lty_nbytes LT_UL = STACKW_SIZE"

primrec aty_nbytes :: "aty \<Rightarrow> int" where
  "aty_nbytes A_LONG_LONG = LONGLONG_NBYTES" | "aty_nbytes A_BYTE = STACKW_SIZE"
| "aty_nbytes A_WORD = STACKW_SIZE" | "aty_nbytes A_LONG = STACKW_SIZE"
| "aty_nbytes A_FLOAT = FLOAT_NBYTES" | "aty_nbytes A_DOUBLE = DOUBLE_NBYTES"

primrec nty_nbytes :: "nty \<Rightarrow> int" where
  "nty_nbytes N_LL = LONGLONG_NBYTES" | "nty_nbytes N_WORD = STACKW_SIZE"
| "nty_nbytes N_FLOAT = FLOAT_NBYTES" | "nty_nbytes N_DOUBLE = DOUBLE_NBYTES"

primrec isz_os :: "isz \<Rightarrow> operand_size" where
  "isz_os SZ_B = OS_BYTE" | "isz_os SZ_W = OS_WORD" | "isz_os SZ_L = OS_LONG" | "isz_os SZ_Q = OS_QUAD"

definition arop_relational :: "arop \<Rightarrow> bool" where
  "arop_relational a \<longleftrightarrow> (case a of
     AR_IS_EQUAL \<Rightarrow> True | AR_NOT_EQUAL \<Rightarrow> True | AR_LESS_SIGNED \<Rightarrow> True | AR_GREATER_SIGNED \<Rightarrow> True
   | AR_LESS_OR_EQUAL_SIGNED \<Rightarrow> True | AR_GREATER_OR_EQUAL_SIGNED \<Rightarrow> True | _ \<Rightarrow> False)"

primrec cvt_effect :: "cvt \<Rightarrow> int" where
  "cvt_effect CVT_UNSIGNED_LONG_TO_LONG_LONG = 0"
| "cvt_effect CVT_SIGNED_LONG_TO_LONG_LONG = 0"
| "cvt_effect CVT_DOUBLE_TO_LONG_LONG = 0"
| "cvt_effect CVT_FLOAT_TO_LONG_LONG = 4"
| "cvt_effect CVT_UNSIGNED_LONG_LONG_TO_DOUBLE = 0"
| "cvt_effect CVT_SIGNED_LONG_LONG_TO_DOUBLE = 0"
| "cvt_effect CVT_UNSIGNED_LONG_LONG_TO_FLOAT = -4"
| "cvt_effect CVT_SIGNED_LONG_LONG_TO_FLOAT = -4"
| "cvt_effect CVT_UNSIGNED_LONG_LONG_TO_LONG = 0"
| "cvt_effect CVT_SIGNED_LONG_LONG_TO_LONG = 0"
| "cvt_effect CVT_LONG_LONG_TO_BOOL = 0"
| "cvt_effect CVT_UNSIGNED_LONG_TO_DOUBLE = 0"
| "cvt_effect CVT_SIGNED_LONG_TO_DOUBLE = 0"
| "cvt_effect CVT_FLOAT_TO_DOUBLE = 4"
| "cvt_effect CVT_UNSIGNED_LONG_TO_FLOAT = -4"
| "cvt_effect CVT_SIGNED_LONG_TO_FLOAT = -4"
| "cvt_effect CVT_DOUBLE_TO_FLOAT = -4"
| "cvt_effect CVT_FLOAT_TO_LONG = 4"
| "cvt_effect CVT_DOUBLE_TO_LONG = 0"
| "cvt_effect CVT_FLOAT_TO_BOOL = 4"
| "cvt_effect CVT_DOUBLE_TO_BOOL = 0"

primrec op_effect :: "opcode \<Rightarrow> int" where
  "op_effect (OC_CALL sz) = 0"
| "op_effect (OC_POPMANY sz) = 0"
| "op_effect (OC_LINK sz) = 0"
| "op_effect (OC_PROC_MEMCPY sz) = - 16"
| "op_effect (OC_MEMCPY sz) = - 16"
| "op_effect (OC_NEG_CONSTPUSH sz) = 8"
| "op_effect (OC_CONSTPUSH sz) = 8"
| "op_effect (OC_CHECK_SP sz) = 0"
| "op_effect (OC_PROC_PUSH_FP_ADDR sz) = 8"
| "op_effect (OC_PROC_PUSH_AP_ADDR sz) = 8"
| "op_effect (OC_PROC_PUSH_SP_ADDR sz) = 8"
| "op_effect (OC_PROC_PUSH_CFA_ADDR sz) = 8"
| "op_effect (OC_PUSH_STACKADDR sz) = 8"
| "op_effect (OC_SWITCH_ON_CHAIN sz) = - 8"
| "op_effect (OC_PROC_ASSIGN t) = - (8 + aty_nbytes t)"
| "op_effect (OC_ASSIGN t) = - (8 + aty_nbytes t)"
| "op_effect (OC_PROC_ASSIGN_AND_PUSH t) = - 8"
| "op_effect (OC_ASSIGN_AND_PUSH t) = - 8"
| "op_effect (OC_PROC_DEREF t) = lty_nbytes t - 8"
| "op_effect (OC_DEREF t) = lty_nbytes t - 8"
| "op_effect (OC_PUSH_AT_STACKADDR t sz) = lty_nbytes t"
| "op_effect (OC_PUSH_AT_ADDR t sz) = lty_nbytes t"
| "op_effect OC_PUSH_BYTES = 0"
| "op_effect OC_PROC_PUSH_BYTES = 0"
| "op_effect OC_RESERVE_BYTES = 0"
| "op_effect OC_PUSH_FLOAT_CONST = 4"
| "op_effect OC_PUSH_DOUBLE_CONST = 8"
| "op_effect OC_INSERT_SIGNED_BITFIELD = - 8"
| "op_effect OC_INSERT_UNSIGNED_BITFIELD = - 8"
| "op_effect OC_EXTRACT_SIGNED_BITFIELD = 0"
| "op_effect OC_EXTRACT_UNSIGNED_BITFIELD = 0"
| "op_effect OC_RET = 0"
| "op_effect OC_RET_WORD = - 8"
| "op_effect OC_RET_LONG_LONG = - 8"
| "op_effect OC_RET_FLOAT = - 4"
| "op_effect OC_RET_DOUBLE = - 8"
| "op_effect OC_RET_STRUCT = 0"
| "op_effect OC_PUSH_STRUCTRET_ADDR = 8"
| "op_effect OC_MULTI_ARROW = - 16"
| "op_effect OC_UNRESOLVED_JUMP = 0"
| "op_effect OC_JUMP = 0"
| "op_effect OC_JUMP_IF_NON_ZERO = - 8"
| "op_effect OC_JUMP_IF_ZERO = - 8"
| "op_effect OC_SWITCH_ON_TABLE = - 8"
| "op_effect OC_PUSH_WORD_RETVAL = 8"
| "op_effect OC_PUSH_LONG_LONG_RETVAL = 8"
| "op_effect OC_PUSH_FLOAT_RETVAL = 4"
| "op_effect OC_PUSH_DOUBLE_RETVAL = 8"
| "op_effect OC_CALL_INDIRECT = - 8"
| "op_effect OC_TRAP = 0"
| "op_effect OC_NOP = 0"
| "op_effect OC_SETJMP = 0"
| "op_effect OC_LONGJMP = 0"
| "op_effect OC_DUP = 8"
| "op_effect OC_DUP_BACK_ONE = 0"
| "op_effect OC_RESERVE_SLOT = 8"
| "op_effect OC_POP = - 8"
| "op_effect OC_CVT_TO_BOOL = 0"
| "op_effect OC_LOGICAL_NOT = 0"
| "op_effect (OC_BITWISE_NOT t) = 0"
| "op_effect (OC_UNARY_MINUS t) = 0"
| "op_effect (OC_ARITH a t) = (if arop_relational a then - (2 * nty_nbytes t - 8) else - nty_nbytes t)"
| "op_effect (OC_INT a t) = - 8"
| "op_effect (OC_CVT c) = cvt_effect c"

primrec op_os :: "opcode \<Rightarrow> operand_size" where
  "op_os (OC_CALL sz) = OS_OTHER"
| "op_os (OC_LINK sz) = OS_OTHER"
| "op_os (OC_SWITCH_ON_CHAIN sz) = OS_OTHER"
| "op_os (OC_POPMANY sz) = isz_os sz"
| "op_os (OC_PROC_MEMCPY sz) = isz_os sz"
| "op_os (OC_MEMCPY sz) = isz_os sz"
| "op_os (OC_NEG_CONSTPUSH sz) = isz_os sz"
| "op_os (OC_CONSTPUSH sz) = isz_os sz"
| "op_os (OC_CHECK_SP sz) = isz_os sz"
| "op_os (OC_PROC_PUSH_FP_ADDR sz) = isz_os sz"
| "op_os (OC_PROC_PUSH_AP_ADDR sz) = isz_os sz"
| "op_os (OC_PROC_PUSH_SP_ADDR sz) = isz_os sz"
| "op_os (OC_PROC_PUSH_CFA_ADDR sz) = isz_os sz"
| "op_os (OC_PUSH_STACKADDR sz) = isz_os sz"
| "op_os (OC_PROC_ASSIGN t) = OS_ZERO"
| "op_os (OC_ASSIGN t) = OS_ZERO"
| "op_os (OC_PROC_ASSIGN_AND_PUSH t) = OS_ZERO"
| "op_os (OC_ASSIGN_AND_PUSH t) = OS_ZERO"
| "op_os (OC_PROC_DEREF t) = OS_ZERO"
| "op_os (OC_DEREF t) = OS_ZERO"
| "op_os (OC_PUSH_AT_STACKADDR t sz) = isz_os sz"
| "op_os (OC_PUSH_AT_ADDR t sz) = isz_os sz"
| "op_os OC_PUSH_BYTES = OS_LONG"
| "op_os OC_PROC_PUSH_BYTES = OS_LONG"
| "op_os OC_RESERVE_BYTES = OS_LONG"
| "op_os OC_PUSH_FLOAT_CONST = OS_OTHER"
| "op_os OC_PUSH_DOUBLE_CONST = OS_OTHER"
| "op_os OC_INSERT_SIGNED_BITFIELD = OS_OTHER"
| "op_os OC_INSERT_UNSIGNED_BITFIELD = OS_OTHER"
| "op_os OC_EXTRACT_SIGNED_BITFIELD = OS_OTHER"
| "op_os OC_EXTRACT_UNSIGNED_BITFIELD = OS_OTHER"
| "op_os OC_RET = OS_ZERO"
| "op_os OC_RET_WORD = OS_ZERO"
| "op_os OC_RET_LONG_LONG = OS_ZERO"
| "op_os OC_RET_FLOAT = OS_ZERO"
| "op_os OC_RET_DOUBLE = OS_ZERO"
| "op_os OC_RET_STRUCT = OS_LONG"
| "op_os OC_PUSH_STRUCTRET_ADDR = OS_ZERO"
| "op_os OC_MULTI_ARROW = OS_ZERO"
| "op_os OC_UNRESOLVED_JUMP = OS_OTHER"
| "op_os OC_JUMP = OS_OTHER"
| "op_os OC_JUMP_IF_NON_ZERO = OS_OTHER"
| "op_os OC_JUMP_IF_ZERO = OS_OTHER"
| "op_os OC_SWITCH_ON_TABLE = OS_OTHER"
| "op_os OC_PUSH_WORD_RETVAL = OS_ZERO"
| "op_os OC_PUSH_LONG_LONG_RETVAL = OS_ZERO"
| "op_os OC_PUSH_FLOAT_RETVAL = OS_ZERO"
| "op_os OC_PUSH_DOUBLE_RETVAL = OS_ZERO"
| "op_os OC_CALL_INDIRECT = OS_OTHER"
| "op_os OC_TRAP = OS_ZERO"
| "op_os OC_NOP = OS_ZERO"
| "op_os OC_SETJMP = OS_ZERO"
| "op_os OC_LONGJMP = OS_ZERO"
| "op_os OC_DUP = OS_ZERO"
| "op_os OC_DUP_BACK_ONE = OS_ZERO"
| "op_os OC_RESERVE_SLOT = OS_ZERO"
| "op_os OC_POP = OS_ZERO"
| "op_os OC_CVT_TO_BOOL = OS_ZERO"
| "op_os OC_LOGICAL_NOT = OS_ZERO"
| "op_os (OC_BITWISE_NOT t) = OS_ZERO"
| "op_os (OC_UNARY_MINUS t) = OS_ZERO"
| "op_os (OC_ARITH a t) = OS_ZERO"
| "op_os (OC_INT a t) = OS_ZERO"
| "op_os (OC_CVT c) = OS_ZERO"

section \<open>The closed forms agree with the list\<close>

lemmas Optab_defs = Optab_def Optab_1_def Optab_2_def Optab_3_def Optab_4_def Optab_5_def Optab_6_def Optab_7_def

lemma length_Optab: "length Optab = NUM_OPCODES"
  by (simp add: Optab_defs NUM_OPCODES_def)

lemma Optab_numbered: "map (opcode_num \<circ> fst) Optab = [0..<NUM_OPCODES]"
  by code_simp

lemma Optab_closed_form:
  "Optab = map (\<lambda>(op, _). (op, op_effect op, op_os op)) Optab"
  by code_simp

text \<open>Every opcode, enumerated by constructor rather than by number.\<close>

definition iszs :: "isz list" where "iszs = [SZ_B, SZ_W, SZ_L, SZ_Q]"
definition atys :: "aty list" where
  "atys = [A_LONG_LONG, A_BYTE, A_WORD, A_LONG, A_FLOAT, A_DOUBLE]"
definition ltys :: "lty list" where
  "ltys = [LT_SLL, LT_SB, LT_SW, LT_SL, LT_F, LT_D, LT_ULL, LT_UB, LT_UW, LT_UL]"
definition ntys :: "nty list" where "ntys = [N_LL, N_WORD, N_FLOAT, N_DOUBLE]"
definition itys :: "ity list" where "itys = [I_LL, I_WORD]"
definition arops :: "arop list" where
  "arops = [AR_MUL_SIGNED, AR_DIV_SIGNED, AR_CHKDIV_SIGNED, AR_ADD, AR_SUB, AR_IS_EQUAL,
     AR_NOT_EQUAL, AR_LESS_SIGNED, AR_GREATER_SIGNED, AR_LESS_OR_EQUAL_SIGNED,
     AR_GREATER_OR_EQUAL_SIGNED]"
definition inops :: "inop list" where
  "inops = [IN_BITWISE_AND, IN_BITWISE_XOR, IN_BITWISE_OR, IN_LSHIFT, IN_RSHIFT, IN_MOD,
     IN_MUL_UNSIGNED, IN_DIV_UNSIGNED, IN_CHKDIV_UNSIGNED, IN_LESS_UNSIGNED, IN_GREATER_UNSIGNED,
     IN_LESS_OR_EQUAL_UNSIGNED, IN_GREATER_OR_EQUAL_UNSIGNED]"
definition cvts :: "cvt list" where
  "cvts = [CVT_UNSIGNED_LONG_TO_LONG_LONG, CVT_SIGNED_LONG_TO_LONG_LONG,
     CVT_DOUBLE_TO_LONG_LONG, CVT_FLOAT_TO_LONG_LONG,
     CVT_UNSIGNED_LONG_LONG_TO_DOUBLE, CVT_SIGNED_LONG_LONG_TO_DOUBLE,
     CVT_UNSIGNED_LONG_LONG_TO_FLOAT, CVT_SIGNED_LONG_LONG_TO_FLOAT,
     CVT_UNSIGNED_LONG_LONG_TO_LONG, CVT_SIGNED_LONG_LONG_TO_LONG,
     CVT_LONG_LONG_TO_BOOL, CVT_UNSIGNED_LONG_TO_DOUBLE,
     CVT_SIGNED_LONG_TO_DOUBLE, CVT_FLOAT_TO_DOUBLE,
     CVT_UNSIGNED_LONG_TO_FLOAT, CVT_SIGNED_LONG_TO_FLOAT,
     CVT_DOUBLE_TO_FLOAT, CVT_FLOAT_TO_LONG,
     CVT_DOUBLE_TO_LONG, CVT_FLOAT_TO_BOOL,
     CVT_DOUBLE_TO_BOOL]"

definition all_opcodes :: "opcode list" where
  "all_opcodes =
     concat (map (\<lambda>sz. [OC_CALL sz, OC_POPMANY sz, OC_LINK sz, OC_PROC_MEMCPY sz,
       OC_MEMCPY sz, OC_NEG_CONSTPUSH sz, OC_CONSTPUSH sz, OC_CHECK_SP sz,
       OC_PROC_PUSH_FP_ADDR sz, OC_PROC_PUSH_AP_ADDR sz, OC_PROC_PUSH_SP_ADDR sz, OC_PROC_PUSH_CFA_ADDR sz,
       OC_PUSH_STACKADDR sz, OC_SWITCH_ON_CHAIN sz]) iszs)
   @ concat (map (\<lambda>t. [OC_PROC_ASSIGN t, OC_ASSIGN t, OC_PROC_ASSIGN_AND_PUSH t, OC_ASSIGN_AND_PUSH t]) atys)
   @ concat (map (\<lambda>t. [OC_PROC_DEREF t, OC_DEREF t]) ltys)
   @ concat (map (\<lambda>t. concat (map (\<lambda>sz. [OC_PUSH_AT_STACKADDR t sz, OC_PUSH_AT_ADDR t sz]) iszs)) ltys)
   @ [OC_PUSH_BYTES, OC_PROC_PUSH_BYTES, OC_RESERVE_BYTES,
      OC_PUSH_FLOAT_CONST, OC_PUSH_DOUBLE_CONST, OC_INSERT_SIGNED_BITFIELD,
      OC_INSERT_UNSIGNED_BITFIELD, OC_EXTRACT_SIGNED_BITFIELD, OC_EXTRACT_UNSIGNED_BITFIELD,
      OC_RET, OC_RET_WORD, OC_RET_LONG_LONG,
      OC_RET_FLOAT, OC_RET_DOUBLE, OC_RET_STRUCT,
      OC_PUSH_STRUCTRET_ADDR, OC_MULTI_ARROW, OC_UNRESOLVED_JUMP,
      OC_JUMP, OC_JUMP_IF_NON_ZERO, OC_JUMP_IF_ZERO,
      OC_SWITCH_ON_TABLE, OC_PUSH_WORD_RETVAL, OC_PUSH_LONG_LONG_RETVAL,
      OC_PUSH_FLOAT_RETVAL, OC_PUSH_DOUBLE_RETVAL, OC_CALL_INDIRECT,
      OC_TRAP, OC_NOP, OC_SETJMP,
      OC_LONGJMP, OC_DUP, OC_DUP_BACK_ONE,
      OC_RESERVE_SLOT, OC_POP, OC_CVT_TO_BOOL,
      OC_LOGICAL_NOT]
   @ map OC_BITWISE_NOT itys @ map OC_UNARY_MINUS ntys
   @ concat (map (\<lambda>a. map (OC_ARITH a) ntys) arops) @ concat (map (\<lambda>a. map (OC_INT a) itys) inops)
   @ map OC_CVT cvts"

lemma in_iszs [simp]: "x \<in> set iszs"
  by (cases x) (simp_all add: iszs_def)

lemma in_atys [simp]: "x \<in> set atys"
  by (cases x) (simp_all add: atys_def)

lemma in_ltys [simp]: "x \<in> set ltys"
  by (cases x) (simp_all add: ltys_def)

lemma in_ntys [simp]: "x \<in> set ntys"
  by (cases x) (simp_all add: ntys_def)

lemma in_itys [simp]: "x \<in> set itys"
  by (cases x) (simp_all add: itys_def)

lemma in_arops [simp]: "x \<in> set arops"
  by (cases x) (simp_all add: arops_def)

lemma in_inops [simp]: "x \<in> set inops"
  by (cases x) (simp_all add: inops_def)

lemma in_cvts [simp]: "x \<in> set cvts"
  by (cases x) (simp_all add: cvts_def)

lemma in_all_opcodes: "op \<in> set all_opcodes"
  unfolding all_opcodes_def set_append set_concat set_map image_Union
  by (cases op) (simp_all add: image_iff bex_Un)

lemma all_opcodes_positions:
  "list_all (\<lambda>op. opcode_num op < NUM_OPCODES \<and> fst (Optab ! opcode_num op) = op) all_opcodes"
  by code_simp

lemma opcode_num_bound: "opcode_num op < NUM_OPCODES"
  and fst_Optab_opcode_num: "fst (Optab ! opcode_num op) = op"
  using all_opcodes_positions in_all_opcodes[of op] by (auto simp: list_all_iff)

text \<open>Reading an enumeration value back gives the opcode, so the enumeration values of different
  opcodes are different.\<close>

lemma opcode_of_num [simp]: "opcode_of (opcode_num op) = Some op"
  by (simp add: opcode_of_def opcode_num_bound fst_Optab_opcode_num)

lemma opcode_num_inject [simp]: "opcode_num a = opcode_num b \<longleftrightarrow> a = b"
  by (metis opcode_of_num option.inject)

lemma opcode_of_Some_iff: "opcode_of n = Some op \<longleftrightarrow> n = opcode_num op"
proof
  assume "opcode_of n = Some op"
  then have n: "n < NUM_OPCODES" and op: "fst (Optab ! n) = op"
    by (auto simp: opcode_of_def split: if_splits)
  have "map (opcode_num \<circ> fst) Optab ! n = n"
    using n by (simp add: Optab_numbered del: map_map)
  then show "n = opcode_num op"
    using n op by (simp add: length_Optab)
qed simp

lemma Optab_opcode_num: "Optab ! opcode_num op = (op, op_effect op, op_os op)"
proof -
  have "Optab ! opcode_num op
      = (\<lambda>(op, _). (op, op_effect op, op_os op)) (Optab ! opcode_num op)"
    by (subst Optab_closed_form) (simp add: length_Optab opcode_num_bound)
  then show ?thesis
    using fst_Optab_opcode_num[of op] by (metis (mono_tags, lifting) case_prod_beta')
qed

end
