(* ===== verification/Ups_Types.thy ===== *)
theory Ups_Types
  imports Ups_Prelude
begin

text \<open>
  Types and symbols as the expression compiler sees them: the type codes and storage classes of
  \<open>src/ups/symtab.h\<close>, the operators of \<open>src/ups/ci_parse.h\<close>, and the classification functions of
  \<open>src/ups/ci_types.c\<close> and \<open>src/ups/ci_util.c\<close>.  \<open>None\<close> is a call of \<open>ci_panic\<close>.
\<close>

section \<open>Type codes\<close>

datatype (plugins only: code size) typecode_t =
    DT_PTR_TO | DT_FUNC_RETURNING | DT_ARRAY_OF | TY_NOTYPE | TY_UNKNOWN | PI_SAME_AS
  | TY_IDENTIFIER | TY_ELLIPSIS | TY_UNSIGNED | TY_SIGNED
  | TY_STRUCT | TY_UNION | TY_ENUM | TY_U_STRUCT | TY_U_UNION | TY_U_ENUM | TY_BITFIELD
  | TY_BASIC_TYPES
  | TY_VOID | TY_CHAR | TY_UCHAR | TY_SHORT | TY_USHORT | TY_INT | TY_UINT | TY_LONG | TY_ULONG
  | TY_FLOAT | TY_DOUBLE | TY_INT_ASSUMED
  | TY_LONGLONG | TY_ULONGLONG | TY_LONGDOUBLE | TY_BOOLEAN
  | TY_COMPLEX | TY_DBLCOMP | TY_LOGICAL | TY_CHARACTER | TY_FVOID | TY_MAXTYPE

text \<open>The enumeration values.\<close>

primrec typecode_num :: "typecode_t \<Rightarrow> nat" where
  "typecode_num DT_PTR_TO = 0"
| "typecode_num DT_FUNC_RETURNING = 1"
| "typecode_num DT_ARRAY_OF = 2"
| "typecode_num TY_NOTYPE = 3"
| "typecode_num TY_UNKNOWN = 4"
| "typecode_num PI_SAME_AS = 5"
| "typecode_num TY_IDENTIFIER = 6"
| "typecode_num TY_ELLIPSIS = 7"
| "typecode_num TY_UNSIGNED = 8"
| "typecode_num TY_SIGNED = 9"
| "typecode_num TY_STRUCT = 10"
| "typecode_num TY_UNION = 11"
| "typecode_num TY_ENUM = 12"
| "typecode_num TY_U_STRUCT = 13"
| "typecode_num TY_U_UNION = 14"
| "typecode_num TY_U_ENUM = 15"
| "typecode_num TY_BITFIELD = 16"
| "typecode_num TY_BASIC_TYPES = 17"
| "typecode_num TY_VOID = 18"
| "typecode_num TY_CHAR = 19"
| "typecode_num TY_UCHAR = 20"
| "typecode_num TY_SHORT = 21"
| "typecode_num TY_USHORT = 22"
| "typecode_num TY_INT = 23"
| "typecode_num TY_UINT = 24"
| "typecode_num TY_LONG = 25"
| "typecode_num TY_ULONG = 26"
| "typecode_num TY_FLOAT = 27"
| "typecode_num TY_DOUBLE = 28"
| "typecode_num TY_INT_ASSUMED = 29"
| "typecode_num TY_LONGLONG = 30"
| "typecode_num TY_ULONGLONG = 31"
| "typecode_num TY_LONGDOUBLE = 32"
| "typecode_num TY_BOOLEAN = 33"
| "typecode_num TY_COMPLEX = 34"
| "typecode_num TY_DBLCOMP = 35"
| "typecode_num TY_LOGICAL = 36"
| "typecode_num TY_CHARACTER = 37"
| "typecode_num TY_FVOID = 38"
| "typecode_num TY_MAXTYPE = 39"

section \<open>Types\<close>

text \<open>
  A type: its code, its size (-1 while not computed), the type it is derived from, the highest index
  of an array, the size and alignment of an aggregate, and for a bit field its underlying type, offset
  and width.
\<close>

datatype (plugins only: code size) type_t = Type
  (ty_code: typecode_t) (ty_size: int) (ty_base: "type_t option") (ty_dim_high: int) (ae_size: int)
  (ae_alignment: int)
  (ty_bitfield: "(type_t \<times> word64 \<times> word64) option")

text \<open>What \<open>ci_set_sizeof_bool\<close> last chose for the boolean type is passed in as \<open>bt\<close>; it is
  \<open>TY_VOID\<close> at the start.\<close>

definition ci_set_sizeof_bool :: "nat \<Rightarrow> typecode_t" where
  "ci_set_sizeof_bool n =
     (if n = 1 then TY_UCHAR else if n = 2 then TY_USHORT else if n = 4 then TY_ULONG else TY_VOID)"

definition ci_effective_typecode :: "typecode_t \<Rightarrow> typecode_t \<Rightarrow> typecode_t" where
  "ci_effective_typecode bt tc = (if tc = TY_BOOLEAN then bt else tc)"

definition ci_is_signed_type :: "typecode_t \<Rightarrow> bool option" where
  "ci_is_signed_type tc =
     (if tc \<in> {TY_CHAR, TY_SHORT, TY_INT, TY_LONG, TY_LONGLONG, TY_ENUM, TY_FLOAT, TY_DOUBLE, TY_BOOLEAN}
      then Some True
      else if tc \<in> {TY_UCHAR, TY_USHORT, TY_UINT, TY_ULONG, TY_ULONGLONG, DT_PTR_TO, DT_ARRAY_OF}
      then Some False
      else None)"

definition ci_is_integral :: "typecode_t \<Rightarrow> bool" where
  "ci_is_integral tc \<longleftrightarrow>
     tc \<in> {TY_CHAR, TY_UCHAR, TY_SHORT, TY_USHORT, TY_INT, TY_UINT, TY_LONG, TY_ULONG,
           TY_LONGLONG, TY_ULONGLONG, TY_BITFIELD, TY_BOOLEAN, TY_ENUM}"

definition is_aggregate :: "type_t \<Rightarrow> bool" where
  "is_aggregate t \<longleftrightarrow> ty_code t \<in> {TY_STRUCT, TY_UNION, DT_ARRAY_OF}"

text \<open>Sizes on the LP64 host.  The computed size is stored back in the type by the code; that makes
  no difference to later calls, which give the same value, except for \<open>void\<close>, whose -1 is
  recomputed.\<close>

fun ci_typesize :: "typecode_t \<Rightarrow> type_t \<Rightarrow> int option" where
  "ci_typesize bt (Type tc sz base high ae al bf) =
     (if sz \<noteq> -1 then Some sz
      else let c = ci_effective_typecode bt tc in
        if c = DT_PTR_TO then Some 8
        else if c = DT_ARRAY_OF then
          (case base of None \<Rightarrow> None
           | Some b \<Rightarrow> (case ci_typesize bt b of None \<Rightarrow> None | Some n \<Rightarrow> Some ((high + 1) * n)))
        else if c = DT_FUNC_RETURNING then Some 0
        else if c = TY_VOID then Some (-1)
        else if c \<in> {TY_U_STRUCT, TY_U_UNION} then Some 0
        else if c \<in> {TY_STRUCT, TY_UNION} then Some ae
        else if c \<in> {TY_U_ENUM, TY_ENUM} then Some 4
        else if c \<in> {TY_LONG, TY_ULONG, TY_LONGLONG, TY_ULONGLONG} then Some 8
        else if c \<in> {TY_INT, TY_UINT, TY_BITFIELD, TY_BOOLEAN} then Some 4
        else if c \<in> {TY_SHORT, TY_USHORT} then Some 2
        else if c \<in> {TY_CHAR, TY_UCHAR} then Some 1
        else if c = TY_FLOAT then Some 4
        else if c = TY_DOUBLE then Some 8
        else Some 0)"

text \<open>Alignments.  A \<open>long double\<close> has 16 bytes on the host; the last line is the error message for a
  type without alignment, whose result is -1.\<close>

fun ci_type_alignment :: "typecode_t \<Rightarrow> type_t \<Rightarrow> int option" where
  "ci_type_alignment bt (Type tc sz base high ae al bf) =
     (let c = ci_effective_typecode bt tc in
      if c \<in> {TY_U_ENUM, TY_ENUM, DT_PTR_TO} then Some 8
      else if c \<in> {TY_STRUCT, TY_UNION} then Some al
      else if c = DT_ARRAY_OF then (case base of None \<Rightarrow> None | Some b \<Rightarrow> ci_type_alignment bt b)
      else if c \<in> {TY_LONG, TY_ULONG} then Some 8
      else if c \<in> {TY_LONGLONG, TY_ULONGLONG} then Some 8
      else if c = TY_BITFIELD then
        (if sz > 0 then Some sz else case base of Some b \<Rightarrow> ci_type_alignment bt b | None \<Rightarrow> Some 4)
      else if c \<in> {TY_INT, TY_UINT, TY_BOOLEAN, TY_INT_ASSUMED} then Some 4
      else if c \<in> {TY_SHORT, TY_USHORT} then Some 2
      else if c \<in> {TY_CHAR, TY_UCHAR} then Some 1
      else if c = TY_FLOAT then Some 4
      else if c = TY_DOUBLE then Some 4
      else if c = TY_LONGDOUBLE then Some 16
      else Some (-1))"

text \<open>\<open>pad\<close> is an \<open>int\<close>; the division by an alignment of 0 has no result.\<close>

definition ci_align_addr :: "word64 \<Rightarrow> int \<Rightarrow> word64 option" where
  "ci_align_addr a alignment =
     (if alignment = 0 then None
      else let pad = signed_take_bit 31 (of_int alignment - a mod of_int alignment) in
        Some (if pad = of_int alignment then a else a + pad))"

definition ci_align_addr_for_type :: "typecode_t \<Rightarrow> word64 \<Rightarrow> type_t \<Rightarrow> word64 option" where
  "ci_align_addr_for_type bt a t = do { al \<leftarrow> ci_type_alignment bt t; ci_align_addr a al }"

section \<open>Operators\<close>

datatype (plugins only: code size) optype_t =
    OP_ASSIGN | OP_MUL_ASSIGN | OP_DIV_ASSIGN | OP_MOD_ASSIGN | OP_PLUS_ASSIGN | OP_MINUS_ASSIGN
  | OP_LSHIFT_ASSIGN | OP_RSHIFT_ASSIGN
  | OP_BITWISE_AND_ASSIGN | OP_BITWISE_XOR_ASSIGN | OP_BITWISE_OR_ASSIGN
  | OP_LOGICAL_OR | OP_LOGICAL_AND | OP_LOGICAL_NOT
  | OP_BITWISE_OR | OP_BITWISE_XOR | OP_BITWISE_AND | OP_BITWISE_NOT
  | OP_IS_EQUAL | OP_NOT_EQUAL | OP_LESS | OP_GREATER | OP_LESS_OR_EQUAL | OP_GREATER_OR_EQUAL
  | OP_LSHIFT | OP_RSHIFT | OP_PLUS | OP_MINUS | OP_MUL | OP_DIV | OP_MOD
  | OP_PREINC | OP_PREDEC | OP_POSTINC | OP_POSTDEC | OP_ADDRESS_OF | OP_DEREF
  | OP_UNARY_PLUS | OP_UNARY_MINUS | OP_COMMA
  | OP_CVT_TO_CHAR | OP_CVT_TO_UCHAR | OP_CVT_TO_SHORT | OP_CVT_TO_USHORT
  | OP_CVT_TO_INT | OP_CVT_TO_UINT | OP_CVT_TO_LONG | OP_CVT_TO_ULONG
  | OP_CVT_TO_DOUBLE | OP_CVT_TO_FLOAT | OP_CVT_TO_PTR | OP_CVT_TO_VOID
  | OP_CVT_TO_LONG_LONG | OP_CVT_TO_ULONG_LONG | OP_LAST

definition ci_typecode_to_cvt_op :: "typecode_t \<Rightarrow> typecode_t \<Rightarrow> optype_t option" where
  "ci_typecode_to_cvt_op bt tc =
     (let c = ci_effective_typecode bt tc in
      if c = TY_CHAR then Some OP_CVT_TO_CHAR
      else if c = TY_UCHAR then Some OP_CVT_TO_UCHAR
      else if c = TY_SHORT then Some OP_CVT_TO_SHORT
      else if c = TY_USHORT then Some OP_CVT_TO_USHORT
      else if c \<in> {TY_INT, TY_U_ENUM, TY_ENUM, TY_BOOLEAN} then Some OP_CVT_TO_INT
      else if c = TY_UINT then Some OP_CVT_TO_UINT
      else if c = TY_LONG then Some OP_CVT_TO_LONG
      else if c = TY_ULONG then Some OP_CVT_TO_ULONG
      else if c = TY_LONGLONG then Some OP_CVT_TO_LONG_LONG
      else if c = TY_ULONGLONG then Some OP_CVT_TO_ULONG_LONG
      else if c = TY_FLOAT then Some OP_CVT_TO_FLOAT
      else if c = TY_VOID then Some OP_CVT_TO_VOID
      else if c = TY_DOUBLE then Some OP_CVT_TO_DOUBLE
      else if c = DT_PTR_TO then Some OP_CVT_TO_PTR
      else None)"

section \<open>Variables\<close>

datatype (plugins only: code size) class_t =
    CL_NOCLASS | CL_EXTREF | CL_DECL | CL_AUTO | CL_EXT | CL_STAT | CL_REG | CL_MOS | CL_ARG | CL_REF
  | CL_MOU | CL_MOE | CL_LSTAT | CL_FUNC | CL_LFUNC | CL_TYPEDEF

definition IS_LOCAL_CLASS :: "class_t \<Rightarrow> bool" where
  "IS_LOCAL_CLASS c \<longleftrightarrow> c = CL_AUTO \<or> c = CL_ARG"

text \<open>How the debugger's symbol tables locate a variable of the target, where they say.\<close>

datatype vaddr_op = OP_CFA_RELATIVE | OP_FP_RELATIVE | OP_SP_RELATIVE | OP_OTHER_LOCATION

text \<open>\<open>va_id\<close> is the identity of the structure: expressions and blocks that refer to the same variable hold
  the same pointer.\<close>

record var_t =
  va_id :: nat
  va_name :: string
  va_class :: class_t
  va_is_ci_var :: bool
  va_location :: "vaddr_op option"
  va_addr :: word64
  va_type :: type_t

end
