(* ===== verification/Ups_State.thy ===== *)
theory Ups_State
  imports Ups_Memory Ups_Opcodes Ups_Types
begin

text \<open>
  The state of a running byte code machine and its primitive moves: the local variables of
  \<open>ci_execute_machine\<close> (\<open>src/ups/xc_machine.c\<close>), the parts of \<open>machine_t\<close> and \<open>codefile_t\<close>
  (\<open>src/ups/xc_machine.h\<close>) it reads and writes, the callbacks it is given, and the stack and
  program text accesses (\<open>PUSH\<close>, \<open>POP\<close>, \<open>GETWORD\<close>, \<open>READOPCODE\<close> and the like).

  Native pointers are 64-bit addresses into one flat byte memory.  A step is \<open>None\<close> where C gives
  it no meaning (a load or store outside mapped memory, an oversized shift, signed overflow);
  otherwise it goes on (\<open>Next\<close>), stops the machine with a result (\<open>Quit\<close>), panics (\<open>Panic\<close>) or
  raises the arithmetic signal that \<open>ci_execute_machine\<close> catches (\<open>Sigfpe\<close>).
\<close>

section \<open>Results\<close>

datatype (plugins only: code size) ci_exec_result_t =
    CI_ER_CONTINUE | CI_ER_EXITED | CI_ER_TRAP | CI_ER_LOADFAULT | CI_ER_READDATA_FAILED
  | CI_ER_WRITEDATA_FAILED | CI_ER_INDIRECT_CALL_FAILED | CI_ER_STACK_OVERFLOW
  | CI_ER_DIVISION_BY_ZERO | CI_ER_ARITHMETIC_EXCEPTION | CI_ER_BAD_MA_COUNT | CI_ER_MEM_BAD
  | CI_ER_MEM_OVERRUN | CI_ER_MEM_FREED | CI_ER_USER1 | CI_ER_USER2 | CI_ER_USER3

primrec ci_exec_result_to_string :: "ci_exec_result_t \<Rightarrow> string" where
  "ci_exec_result_to_string CI_ER_EXITED = ''exited''"
| "ci_exec_result_to_string CI_ER_CONTINUE = ''continue''"
| "ci_exec_result_to_string CI_ER_TRAP = ''trap''"
| "ci_exec_result_to_string CI_ER_LOADFAULT = ''text load error''"
| "ci_exec_result_to_string CI_ER_READDATA_FAILED = ''data read failed''"
| "ci_exec_result_to_string CI_ER_WRITEDATA_FAILED = ''data write failed''"
| "ci_exec_result_to_string CI_ER_INDIRECT_CALL_FAILED = ''indirect call failed''"
| "ci_exec_result_to_string CI_ER_STACK_OVERFLOW = ''stack overflow''"
| "ci_exec_result_to_string CI_ER_DIVISION_BY_ZERO = ''division by zero''"
| "ci_exec_result_to_string CI_ER_ARITHMETIC_EXCEPTION = ''arithmetic exception''"
| "ci_exec_result_to_string CI_ER_BAD_MA_COUNT = ''bad ->[] index''"
| "ci_exec_result_to_string CI_ER_MEM_BAD = ''malloc arena corrupted''"
| "ci_exec_result_to_string CI_ER_MEM_OVERRUN = ''malloc block overrun''"
| "ci_exec_result_to_string CI_ER_MEM_FREED = ''block freed twice''"
| "ci_exec_result_to_string CI_ER_USER1 = ''user1''"
| "ci_exec_result_to_string CI_ER_USER2 = ''user2''"
| "ci_exec_result_to_string CI_ER_USER3 = ''user3''"

section \<open>Code files\<close>

text \<open>An external function reference.  \<open>er_file\<close> is 0 for \<open>NULL\<close>.\<close>

record extref_t =
  er_file :: addr
  er_indirect :: bool
  er_addr :: word64

text \<open>A code file.  The two tables are C arrays indexed with a (possibly negative) \<open>int\<close>; \<open>None\<close>
  is an index outside the array.\<close>

record codefile_t =
  cf_loaded :: bool
  cf_text_and_data :: addr
  cf_text_size :: word64
  cf_data_size :: word64
  cf_bss_size :: word64
  cf_data_copy :: addr
  cf_funcaddrs :: "int \<Rightarrow> word64 option"
  cf_funcrefs :: "int \<Rightarrow> extref_t option"

type_synonym codefiles = "addr \<Rightarrow> codefile_t option"

section \<open>Floating point\<close>

text \<open>
  Values of type \<open>float\<close> and \<open>double\<close> are their IEEE bit patterns.  Rounding arithmetic and the
  conversions are those of the host and are a parameter; a conversion to an integer type is \<open>None\<close>
  where the value does not fit, which C leaves undefined.  Sign change, comparison and the test
  for zero are written out below.
\<close>

record fpu =
  f_add :: "32 word \<Rightarrow> 32 word \<Rightarrow> 32 word"
  f_sub :: "32 word \<Rightarrow> 32 word \<Rightarrow> 32 word"
  f_mul :: "32 word \<Rightarrow> 32 word \<Rightarrow> 32 word"
  f_div :: "32 word \<Rightarrow> 32 word \<Rightarrow> 32 word"
  d_add :: "64 word \<Rightarrow> 64 word \<Rightarrow> 64 word"
  d_sub :: "64 word \<Rightarrow> 64 word \<Rightarrow> 64 word"
  d_mul :: "64 word \<Rightarrow> 64 word \<Rightarrow> 64 word"
  d_div :: "64 word \<Rightarrow> 64 word \<Rightarrow> 64 word"
  d_of_f :: "32 word \<Rightarrow> 64 word"
  f_of_d :: "64 word \<Rightarrow> 32 word"
  f_of_int :: "int \<Rightarrow> 32 word"
  d_of_int :: "int \<Rightarrow> 64 word"
  f_to_longlong :: "32 word \<Rightarrow> word64 option"
  d_to_longlong :: "64 word \<Rightarrow> word64 option"
  f_to_ulong :: "32 word \<Rightarrow> word64 option"
  d_to_ulong :: "64 word \<Rightarrow> word64 option"

definition f_neg :: "32 word \<Rightarrow> 32 word" where "f_neg x = x XOR 0x80000000"
definition d_neg :: "64 word \<Rightarrow> 64 word" where "d_neg x = x XOR 0x8000000000000000"

definition f_nan :: "32 word \<Rightarrow> bool" where "f_nan x \<longleftrightarrow> x AND 0x7fffffff > 0x7f800000"
definition d_nan :: "64 word \<Rightarrow> bool" where
  "d_nan x \<longleftrightarrow> x AND 0x7fffffffffffffff > 0x7ff0000000000000"

text \<open>The order of the values that are no NaN: sign and magnitude.\<close>

definition f_key :: "32 word \<Rightarrow> int" where
  "f_key x = (if bit x 31 then - uint (x AND 0x7fffffff) else uint (x AND 0x7fffffff))"
definition d_key :: "64 word \<Rightarrow> int" where
  "d_key x = (if bit x 63 then - uint (x AND 0x7fffffffffffffff) else uint (x AND 0x7fffffffffffffff))"

definition f_eq :: "32 word \<Rightarrow> 32 word \<Rightarrow> bool" where
  "f_eq x y \<longleftrightarrow> \<not> f_nan x \<and> \<not> f_nan y \<and> f_key x = f_key y"
definition f_lt :: "32 word \<Rightarrow> 32 word \<Rightarrow> bool" where
  "f_lt x y \<longleftrightarrow> \<not> f_nan x \<and> \<not> f_nan y \<and> f_key x < f_key y"
definition f_le :: "32 word \<Rightarrow> 32 word \<Rightarrow> bool" where
  "f_le x y \<longleftrightarrow> \<not> f_nan x \<and> \<not> f_nan y \<and> f_key x \<le> f_key y"
definition d_eq :: "64 word \<Rightarrow> 64 word \<Rightarrow> bool" where
  "d_eq x y \<longleftrightarrow> \<not> d_nan x \<and> \<not> d_nan y \<and> d_key x = d_key y"
definition d_lt :: "64 word \<Rightarrow> 64 word \<Rightarrow> bool" where
  "d_lt x y \<longleftrightarrow> \<not> d_nan x \<and> \<not> d_nan y \<and> d_key x < d_key y"
definition d_le :: "64 word \<Rightarrow> 64 word \<Rightarrow> bool" where
  "d_le x y \<longleftrightarrow> \<not> d_nan x \<and> \<not> d_nan y \<and> d_key x \<le> d_key y"

section \<open>State and environment\<close>

text \<open>
  The local variables of \<open>ci_execute_machine\<close> and what it changes outside: native memory, the code
  files (loaded on demand), the stop result, the opcode counts and the world, which stands for the
  target process and whatever the callbacks change.  \<open>d0\<close> and \<open>d1\<close> are the union scratch variables,
  as their 8 bytes.
\<close>

record 'w mstate =
  x_mem :: mem
  x_pc :: addr
  x_sp :: addr
  x_fp :: addr
  x_cf :: addr
  x_retval :: word64
  x_d0 :: word64
  x_d1 :: word64
  x_cfs :: codefiles
  x_stopres :: ci_exec_result_t
  x_opcounts :: "word64 list option"
  x_world :: 'w

text \<open>
  What stays fixed during a run: the stack and data bounds, the target's registers, the table of
  code files (the addresses of the elements of \<open>ma_cftab\<close>) and the functions the machine calls.
  A function pointer may be \<open>NULL\<close>.  \<open>readproc\<close> gives the bytes it read, \<open>None\<close> when it fails;
  a library function is called as one that returns \<open>double\<close> or a word, with the stack pointer (kept
  in \<open>ma_sp\<close> for callbacks) and its arguments, and gives the 8 bytes of its result.
\<close>

record 'w env =
  e_minsp :: addr
  e_maxsp :: addr
  e_mindata :: addr
  e_maxdata :: addr
  e_procfp :: word64
  e_procap :: word64
  e_procsp :: word64
  e_proccfa :: word64
  e_cftab :: "addr list"
  e_readproc :: "('w \<Rightarrow> addr \<Rightarrow> nat \<Rightarrow> byte list option) option"
  e_writeproc :: "('w \<Rightarrow> addr \<Rightarrow> byte list \<Rightarrow> 'w option) option"
  e_indirect_call_proc ::
    "(word64 \<Rightarrow> addr \<Rightarrow> nat \<Rightarrow> byte \<Rightarrow> mem \<Rightarrow> 'w \<Rightarrow> (ci_exec_result_t \<times> word64 \<times> mem \<times> 'w) option) option"
  e_loadfunc :: "(addr \<Rightarrow> mem \<Rightarrow> codefiles \<Rightarrow> 'w \<Rightarrow> (bool \<times> mem \<times> codefiles \<times> 'w) option) option"
  e_libfuncs ::
    "word64 \<Rightarrow> (bool \<Rightarrow> addr \<Rightarrow> word64 list \<Rightarrow> mem \<Rightarrow> ci_exec_result_t \<Rightarrow> 'w
       \<Rightarrow> (word64 \<times> mem \<times> ci_exec_result_t \<times> 'w) option) option"
  e_fpu :: fpu

datatype 'w sres =
    Next "'w mstate"
  | Quit ci_exec_result_t "'w mstate"
  | Panic string "'w mstate"
  | Sigfpe "'w mstate"

definition is_ci_addr :: "'w env \<Rightarrow> addr \<Rightarrow> bool" where
  "is_ci_addr e a \<longleftrightarrow>
     (a \<ge> e_mindata e \<and> a < e_maxdata e) \<or> (a \<ge> e_minsp e \<and> a < e_maxsp e)"

section \<open>Stack\<close>

text \<open>\<open>sp[i]\<close> as a value and as the target of an assignment.\<close>

definition stk :: "'w mstate \<Rightarrow> nat \<Rightarrow> word64 option" where
  "stk s i = rd_word 8 (x_mem s) (x_sp s + of_nat (8 * i))"

definition set_stk :: "'w mstate \<Rightarrow> nat \<Rightarrow> word64 \<Rightarrow> 'w mstate option" where
  "set_stk s i v =
     do { m \<leftarrow> wr_word 8 (x_mem s) (x_sp s + of_nat (8 * i)) v; Some (s\<lparr>x_mem := m\<rparr>) }"

definition drop_stk :: "nat \<Rightarrow> 'w mstate \<Rightarrow> 'w mstate" where
  "drop_stk n s = s\<lparr>x_sp := x_sp s + of_nat (8 * n)\<rparr>"

definition push :: "word64 \<Rightarrow> 'w mstate \<Rightarrow> 'w mstate option" where
  "push v s =
     do { m \<leftarrow> wr_word 8 (x_mem s) (x_sp s - 8) v;
          Some (s\<lparr>x_mem := m, x_sp := x_sp s - 8\<rparr>) }"

definition pop :: "'w mstate \<Rightarrow> (word64 \<times> 'w mstate) option" where
  "pop s = do { v \<leftarrow> rd_word 8 (x_mem s) (x_sp s); Some (v, s\<lparr>x_sp := x_sp s + 8\<rparr>) }"

section \<open>Program text\<close>

primrec isz_nbytes :: "isz \<Rightarrow> nat" where
  "isz_nbytes SZ_B = 1"
| "isz_nbytes SZ_W = 2"
| "isz_nbytes SZ_L = 4"
| "isz_nbytes SZ_Q = 8"

text \<open>\<open>*pc\<close>, \<open>GETWORD(pc)\<close>, \<open>GETLONG(pc)\<close> and \<open>GETQUAD(pc)\<close>, and the same with \<open>pc\<close> moved on.\<close>

definition text_at :: "isz \<Rightarrow> 'w mstate \<Rightarrow> word64 option" where
  "text_at sz s = rd_word (isz_nbytes sz) (x_mem s) (x_pc s)"

definition skip_text :: "nat \<Rightarrow> 'w mstate \<Rightarrow> 'w mstate" where
  "skip_text n s = s\<lparr>x_pc := x_pc s + of_nat n\<rparr>"

definition fetch :: "isz \<Rightarrow> 'w mstate \<Rightarrow> (word64 \<times> 'w mstate) option" where
  "fetch sz s = do { v \<leftarrow> text_at sz s; Some (v, skip_text (isz_nbytes sz) s) }"

text \<open>Conversion to \<open>int\<close> and to \<open>short\<close>, sign extended to the stack word.\<close>

definition to_int :: "word64 \<Rightarrow> word64" where "to_int w = signed_take_bit 31 w"
definition to_short :: "word64 \<Rightarrow> word64" where "to_short w = signed_take_bit 15 w"

text \<open>Storing to a member of \<open>n\<close> bytes of the union \<open>func_retval_t\<close> (little endian).\<close>

definition set_low :: "nat \<Rightarrow> word64 \<Rightarrow> word64 \<Rightarrow> word64" where
  "set_low n d v = (d AND NOT (mask (8 * n))) OR take_bit (8 * n) v"

definition sext :: "nat \<Rightarrow> word64 \<Rightarrow> word64" where
  "sext n w = signed_take_bit (8 * n - 1) w"

definition of_bool_word :: "bool \<Rightarrow> word64" where
  "of_bool_word b = (if b then 1 else 0)"

section \<open>Data of the target\<close>

text \<open>\<open>READDATA(addr, w)\<close> and \<open>WRITEDATA(addr, w)\<close> on \<open>n\<close> bytes.  The outer option is \<open>None\<close> for a
  call through a null pointer; the inner one is the callback's failure.\<close>

definition readdata :: "'w env \<Rightarrow> 'w mstate \<Rightarrow> addr \<Rightarrow> nat \<Rightarrow> byte list option option" where
  "readdata e s a n =
     do { f \<leftarrow> e_readproc e;
          (case f (x_world s) a n of
             None \<Rightarrow> Some None
           | Some bs \<Rightarrow> if length bs = n then Some (Some bs) else None) }"

definition writedata :: "'w env \<Rightarrow> 'w mstate \<Rightarrow> addr \<Rightarrow> byte list \<Rightarrow> 'w mstate option option" where
  "writedata e s a bs =
     do { f \<leftarrow> e_writeproc e;
          Some (map_option (\<lambda>w. s\<lparr>x_world := w\<rparr>) (f (x_world s) a bs)) }"

lemmas [mach_defs] =
  stk_def set_stk_def drop_stk_def push_def pop_def text_at_def skip_text_def fetch_def

end
