(* ===== verification/Ups_Exec_Control.thy ===== *)
theory Ups_Exec_Control
  imports Ups_State
begin

text \<open>
  The machine's control instructions (\<open>ci_execute_machine\<close>, \<open>src/ups/xc_machine.c\<close>): calls and
  returns, stack frames, setjmp and longjmp, block copies, jumps and switches.  One definition per
  block of the interpreter loop; the opcode has been read, so \<open>x_pc\<close> is at the operand.
\<close>

section \<open>Block copies\<close>

text \<open>\<open>memcpy\<close>: undefined on overlapping blocks.\<close>

definition memcpy :: "mem \<Rightarrow> addr \<Rightarrow> addr \<Rightarrow> nat \<Rightarrow> mem option" where
  "memcpy m dst src n =
     (if 0 < n \<and> (unat (dst - src) < n \<or> unat (src - dst) < n) then None
      else do { bs \<leftarrow> rd_bytes m src n; wr_bytes m dst bs })"

definition exec_memcpy :: "isz \<Rightarrow> 'w mstate \<Rightarrow> 'w sres option" where
  "exec_memcpy sz s =
     do { dst \<leftarrow> stk s 1; src \<leftarrow> stk s 0; n \<leftarrow> text_at sz s;
          m \<leftarrow> memcpy (x_mem s) dst src (unat n);
          Some (Next (drop_stk 2 (skip_text (isz_nbytes sz) (s\<lparr>x_mem := m\<rparr>)))) }"

text \<open>Copy between the interpreter's memory and the target's: four cases.\<close>

definition exec_proc_memcpy :: "'w env \<Rightarrow> isz \<Rightarrow> 'w mstate \<Rightarrow> 'w sres option" where
  "exec_proc_memcpy e sz s =
     do { (nbytes, s) \<leftarrow> fetch sz s;
          let n = unat nbytes;
          dst \<leftarrow> stk s 1; src \<leftarrow> stk s 0;
          if is_ci_addr e dst then
            if is_ci_addr e src then do {
              m \<leftarrow> memcpy (x_mem s) dst src n;
              Some (Next (drop_stk 2 (s\<lparr>x_mem := m\<rparr>))) }
            else do {
              r \<leftarrow> readdata e s src n;
              (case r of
                 None \<Rightarrow> Some (Quit CI_ER_READDATA_FAILED s)
               | Some bs \<Rightarrow> do { m \<leftarrow> wr_bytes (x_mem s) dst bs;
                               Some (Next (drop_stk 2 (s\<lparr>x_mem := m\<rparr>))) }) }
          else
            if is_ci_addr e src then do {
              bs \<leftarrow> rd_bytes (x_mem s) src n;
              r \<leftarrow> writedata e s dst bs;
              (case r of
                 None \<Rightarrow> Some (Quit CI_ER_WRITEDATA_FAILED s)
               | Some s \<Rightarrow> Some (Next (drop_stk 2 s))) }
            else do {
              r \<leftarrow> readdata e s src n;
              (case r of
                 None \<Rightarrow> Some (Quit CI_ER_READDATA_FAILED s)
               | Some bs \<Rightarrow> do {
                   r \<leftarrow> writedata e s dst bs;
                   (case r of
                      None \<Rightarrow> Some (Quit CI_ER_WRITEDATA_FAILED s)
                    | Some s \<Rightarrow> Some (Next (drop_stk 2 s))) }) } }"

definition exec_reserve_bytes :: "'w mstate \<Rightarrow> 'w sres option" where
  "exec_reserve_bytes s =
     do { (nbytes, s) \<leftarrow> fetch SZ_L s;
          let s = s\<lparr>x_sp := x_sp s - 8 * (nbytes div 4)\<rparr>;
          s \<leftarrow> push (x_sp s) s;
          Some (Next s) }"

definition exec_proc_push_bytes :: "'w env \<Rightarrow> 'w mstate \<Rightarrow> 'w sres option" where
  "exec_proc_push_bytes e s =
     do { nbytes \<leftarrow> text_at SZ_L s;
          a \<leftarrow> stk s 0;
          let s = s\<lparr>x_sp := x_sp s - 8 * (nbytes div 8 - 1)\<rparr>;
          top \<leftarrow> stk s 0;
          if is_ci_addr e top then do {
            m \<leftarrow> memcpy (x_mem s) (x_sp s) a (unat nbytes);
            Some (Next (skip_text 4 (s\<lparr>x_mem := m\<rparr>))) }
          else do {
            r \<leftarrow> readdata e s (take_bit 32 a) (unat nbytes);
            (case r of
               None \<Rightarrow> Some (Quit CI_ER_READDATA_FAILED s)
             | Some bs \<Rightarrow> do { m \<leftarrow> wr_bytes (x_mem s) (x_sp s) bs;
                             Some (Next (skip_text 4 (s\<lparr>x_mem := m\<rparr>))) }) } }"

definition exec_push_bytes :: "'w mstate \<Rightarrow> 'w sres option" where
  "exec_push_bytes s =
     do { nbytes \<leftarrow> text_at SZ_L s;
          a \<leftarrow> stk s 0;
          let s = s\<lparr>x_sp := x_sp s - 8 * (nbytes div 4 - 1)\<rparr>;
          m \<leftarrow> memcpy (x_mem s) (x_sp s) a (unat nbytes);
          Some (Next (skip_text 4 (s\<lparr>x_mem := m\<rparr>))) }"

section \<open>Frames and returns\<close>

definition exec_push_retval :: "'w mstate \<Rightarrow> 'w sres option" where
  "exec_push_retval s = do { s \<leftarrow> push (x_retval s) s; Some (Next s) }"

text \<open>The code at the label \<open>unlink\<close>.\<close>

definition unlink :: "'w mstate \<Rightarrow> 'w mstate option" where
  "unlink s =
     do { let s = s\<lparr>x_sp := x_fp s\<rparr>;
          (fp, s) \<leftarrow> pop s;
          (pc, s) \<leftarrow> pop s;
          (cf, s) \<leftarrow> pop s;
          Some (s\<lparr>x_fp := fp, x_pc := pc, x_cf := cf\<rparr>) }"

definition exec_ret :: "'w mstate \<Rightarrow> 'w sres option" where
  "exec_ret s = do { s \<leftarrow> unlink s; Some (Next s) }"

text \<open>\<open>OC_RET_WORD\<close> reads the top of the stack; the others pop it.  Either way \<open>unlink\<close> resets the
  stack pointer.\<close>

definition exec_ret_word :: "'w mstate \<Rightarrow> 'w sres option" where
  "exec_ret_word s = do { v \<leftarrow> stk s 0; exec_ret (s\<lparr>x_retval := v\<rparr>) }"

definition exec_ret_popped :: "'w mstate \<Rightarrow> 'w sres option" where
  "exec_ret_popped s = do { (v, s) \<leftarrow> pop s; exec_ret (s\<lparr>x_retval := v\<rparr>) }"

definition exec_push_structret_addr :: "'w mstate \<Rightarrow> 'w sres option" where
  "exec_push_structret_addr s =
     do { offset \<leftarrow> rd_word 8 (x_mem s) (x_fp s + 8 * 3);
          a \<leftarrow> rd_word 8 (x_mem s) (x_fp s + 8 * to_int (to_int offset + 3));
          s \<leftarrow> push a s;
          Some (Next s) }"

definition exec_ret_struct :: "'w mstate \<Rightarrow> 'w sres option" where
  "exec_ret_struct s =
     do { nbytes \<leftarrow> text_at SZ_L s;
          a \<leftarrow> stk s 0;
          s \<leftarrow> unlink s;
          slot \<leftarrow> stk s 0;
          if slot \<noteq> 0 then do {
            dst \<leftarrow> rd_word 8 (x_mem s) (x_sp s + 8 * slot);
            m \<leftarrow> memcpy (x_mem s) dst a (unat nbytes);
            Some (Next (s\<lparr>x_mem := m\<rparr>)) }
          else Some (Next s) }"

definition SETJMP_NWORDS :: nat where "SETJMP_NWORDS = 4"

text \<open>\<open>machine_state_t\<close> has \<open>ms_cf\<close>, \<open>ms_pc\<close>, \<open>ms_fp\<close>, \<open>ms_sp\<close> and \<open>ms_stackwords\<close> at offsets 0, 8,
  16, 24 and 32.\<close>

definition exec_setjmp :: "'w mstate \<Rightarrow> 'w sres option" where
  "exec_setjmp s =
     do { let s = s\<lparr>x_retval := 0\<rparr>;
          (pc, s) \<leftarrow> pop s;
          (cf, s) \<leftarrow> pop s;
          let s = s\<lparr>x_pc := pc, x_cf := cf\<rparr>;
          ms \<leftarrow> stk s 0;
          m \<leftarrow> wr_word 8 (x_mem s) ms (x_cf s);
          m \<leftarrow> wr_word 8 m (ms + 8) (x_pc s);
          m \<leftarrow> wr_word 8 m (ms + 16) (x_fp s);
          m \<leftarrow> wr_word 8 m (ms + 24) (x_sp s);
          m \<leftarrow> memcpy m (ms + 32) (x_sp s + 8) (SETJMP_NWORDS * 8);
          Some (Next (s\<lparr>x_mem := m\<rparr>)) }"

definition exec_longjmp :: "'w mstate \<Rightarrow> 'w sres option" where
  "exec_longjmp s =
     do { v \<leftarrow> stk s 3;
          ms \<leftarrow> stk s 2;
          cf \<leftarrow> rd_word 8 (x_mem s) ms;
          pc \<leftarrow> rd_word 8 (x_mem s) (ms + 8);
          fp \<leftarrow> rd_word 8 (x_mem s) (ms + 16);
          sp \<leftarrow> rd_word 8 (x_mem s) (ms + 24);
          let s = s\<lparr>x_retval := v, x_cf := cf, x_pc := pc, x_fp := fp, x_sp := sp\<rparr>;
          m \<leftarrow> memcpy (x_mem s) (x_sp s + 8) (ms + 32) (SETJMP_NWORDS * 8);
          Some (Next (s\<lparr>x_mem := m\<rparr>)) }"

text \<open>Enter a function: save \<open>fp\<close>, reserve the locals, and check that the space the function's
  expressions need is left on the stack.\<close>

definition exec_link :: "'w env \<Rightarrow> isz \<Rightarrow> 'w mstate \<Rightarrow> 'w sres option" where
  "exec_link e sz s =
     do { s \<leftarrow> push (x_fp s) s;
          let s = s\<lparr>x_fp := x_sp s\<rparr>;
          (n, s) \<leftarrow> fetch sz s;
          let s = s\<lparr>x_sp := x_sp s - n\<rparr>;
          need \<leftarrow> text_at SZ_L s;
          if x_sp s - need \<ge> e_minsp e then Some (Next (skip_text 4 s))
          else Some (Quit CI_ER_STACK_OVERFLOW s) }"

definition exec_popmany :: "isz \<Rightarrow> 'w mstate \<Rightarrow> 'w sres option" where
  "exec_popmany sz s = do { (n, s) \<leftarrow> fetch sz s; Some (Next (s\<lparr>x_sp := x_sp s + n\<rparr>)) }"

section \<open>Calls\<close>

text \<open>\<open>XLOAD\<close>, and the test \<open>!cf->cf_loaded && XLOAD(ma, cf) != 0\<close>: \<open>True\<close> when the file is there.\<close>

definition xload :: "'w env \<Rightarrow> addr \<Rightarrow> 'w mstate \<Rightarrow> (bool \<times> 'w mstate) option" where
  "xload e cf s =
     do { f \<leftarrow> e_loadfunc e;
          (ok, m, cfs, w) \<leftarrow> f cf (x_mem s) (x_cfs s) (x_world s);
          Some (ok, s\<lparr>x_mem := m, x_cfs := cfs, x_world := w\<rparr>) }"

definition ensure_loaded :: "'w env \<Rightarrow> addr \<Rightarrow> 'w mstate \<Rightarrow> (bool \<times> 'w mstate) option" where
  "ensure_loaded e cf s =
     do { fc \<leftarrow> x_cfs s cf; if cf_loaded fc then Some (True, s) else xload e cf s }"

text \<open>\<open>nargs\<close> words from the stack, as \<open>memcpy(params, sp, nargs * sizeof(params[0]))\<close> takes them.\<close>

fun stk_words :: "'w mstate \<Rightarrow> nat \<Rightarrow> nat \<Rightarrow> word64 list option" where
  "stk_words s i 0 = Some []"
| "stk_words s i (Suc n) = do { v \<leftarrow> stk s i; vs \<leftarrow> stk_words s (Suc i) n; Some (v # vs) }"

text \<open>Call of a library function: up to 20 arguments, the others zero.\<close>

definition call_libfunc :: "'w env \<Rightarrow> word64 \<Rightarrow> nat \<Rightarrow> nat \<Rightarrow> 'w mstate \<Rightarrow> 'w sres option" where
  "call_libfunc e idx nargs typecode s =
     (if nargs > 20 then Some (Panic ''too many args'' s)
      else do {
        lf \<leftarrow> e_libfuncs e idx;
        args \<leftarrow> stk_words s 0 nargs;
        (rv, m, stopres, w) \<leftarrow>
          lf (typecode = typecode_num TY_DOUBLE \<or> typecode = typecode_num TY_LONGDOUBLE)
             (x_sp s) (if nargs = 0 then [] else args @ replicate (20 - nargs) 0)
             (x_mem s) (x_stopres s) (x_world s);
        let s = s\<lparr>x_mem := m, x_stopres := stopres, x_world := w, x_retval := rv\<rparr>;
        if stopres \<noteq> CI_ER_CONTINUE then Some (Quit stopres s) else Some (Next s) })"

definition call_extref :: "'w env \<Rightarrow> extref_t \<Rightarrow> nat \<Rightarrow> byte \<Rightarrow> 'w mstate \<Rightarrow> 'w sres option" where
  "call_extref e er nargs typecode s =
     (if er_file er \<noteq> 0 then do {
        s \<leftarrow> push (x_cf s) s;
        let s = s\<lparr>x_cf := er_file er\<rparr>;
        (ok, s) \<leftarrow> ensure_loaded e (x_cf s) s;
        if \<not> ok then Some (Quit CI_ER_LOADFAULT s)
        else do {
          s \<leftarrow> push (x_pc s) s;
          fc \<leftarrow> x_cfs s (x_cf s);
          Some (Next (s\<lparr>x_pc := cf_text_and_data fc + er_addr er\<rparr>)) } }
      else if er_indirect er then do {
        f \<leftarrow> e_indirect_call_proc e;
        (res, rv, m, w) \<leftarrow> f (er_addr er) (x_sp s) nargs typecode (x_mem s) (x_world s);
        let s = s\<lparr>x_mem := m, x_world := w, x_retval := rv\<rparr>;
        if res \<noteq> CI_ER_CONTINUE then Some (Quit res s) else Some (Next s) }
      else call_libfunc e (er_addr er) nargs (unat typecode) s)"

text \<open>The code at the label \<open>func_call\<close>: a positive index is a function of the file, any other a
  reference to an external one.\<close>

definition func_call :: "'w env \<Rightarrow> addr \<Rightarrow> int \<Rightarrow> 'w mstate \<Rightarrow> 'w sres option" where
  "func_call e fcf func_index s =
     do { (nargs, s) \<leftarrow> fetch SZ_B s;
          (typecode, s) \<leftarrow> fetch SZ_B s;
          fc \<leftarrow> x_cfs s fcf;
          if func_index > 0 then do {
            s \<leftarrow> push (x_cf s) s;
            s \<leftarrow> push (x_pc s) s;
            a \<leftarrow> cf_funcaddrs fc func_index;
            Some (Next (s\<lparr>x_cf := fcf, x_pc := cf_text_and_data fc + a\<rparr>)) }
          else do {
            er \<leftarrow> cf_funcrefs fc func_index;
            call_extref e er (unat nargs) (ucast typecode) s } }"

definition exec_call :: "'w env \<Rightarrow> isz \<Rightarrow> 'w mstate \<Rightarrow> 'w sres option" where
  "exec_call e sz s =
     do { (i, s) \<leftarrow> fetch sz s; func_call e (x_cf s) (sint (to_int i)) s }"

definition exec_call_indirect :: "'w env \<Rightarrow> 'w mstate \<Rightarrow> 'w sres option" where
  "exec_call_indirect e s =
     do { (a, s) \<leftarrow> pop s;
          let i = unat (drop_bit 16 a);
          if i < length (e_cftab e) then do {
            let fcf = e_cftab e ! i;
            (ok, s) \<leftarrow> ensure_loaded e fcf s;
            if \<not> ok then Some (Quit CI_ER_LOADFAULT s)
            else func_call e fcf (sint (to_short a)) s }
          else None }"

section \<open>Jumps and switches\<close>

definition jump :: "'w mstate \<Rightarrow> 'w sres option" where
  "jump s = do { d \<leftarrow> text_at SZ_W s; Some (Next (s\<lparr>x_pc := x_pc s + to_short d\<rparr>)) }"

definition exec_jump_if :: "bool \<Rightarrow> 'w mstate \<Rightarrow> 'w sres option" where
  "exec_jump_if zero s =
     do { (v, s) \<leftarrow> pop s;
          if (v = 0) = zero then jump s else Some (Next (skip_text 2 s)) }"

definition exec_switch_on_table :: "'w mstate \<Rightarrow> 'w sres option" where
  "exec_switch_on_table s =
     do { (ncase, s) \<leftarrow> fetch SZ_W s;
          minval \<leftarrow> text_at SZ_L s;
          (v, s) \<leftarrow> pop s;
          let switchval = take_bit 32 (v - to_int minval);
          let switchval = (if switchval \<ge> ncase then ncase else switchval);
          jump (s\<lparr>x_pc := x_pc s + 4 + switchval * 2\<rparr>) }"

text \<open>The loop over the cases of a chain: \<open>n\<close> cases are left.\<close>

fun switch_chain :: "isz \<Rightarrow> word64 \<Rightarrow> nat \<Rightarrow> 'w mstate \<Rightarrow> 'w sres option" where
  "switch_chain sz switchval 0 s = jump s"
| "switch_chain sz switchval (Suc n) s =
     do { (caseval, s) \<leftarrow> fetch sz s;
          if to_int caseval = switchval then jump s
          else switch_chain sz switchval n (skip_text 2 s) }"

definition exec_switch_on_chain :: "isz \<Rightarrow> 'w mstate \<Rightarrow> 'w sres option" where
  "exec_switch_on_chain sz s =
     do { (ncase, s) \<leftarrow> fetch SZ_W s;
          (minval, s) \<leftarrow> fetch SZ_L s;
          (v, s) \<leftarrow> pop s;
          switch_chain sz (to_int (v - to_int minval)) (unat ncase) s }"

end
