(* ===== verification/Ups_Exec_Data.thy ===== *)
theory Ups_Exec_Data
  imports Ups_State
begin

text \<open>
  The machine's data instructions (\<open>ci_execute_machine\<close>, \<open>src/ups/xc_machine.c\<close>): constants and
  addresses, loads, stores, bit fields and the \<open>->[]\<close> operator.  \<open>LONG\<close> in an opcode name is the C
  type \<open>long\<close> (8 bytes) where the machine goes through a native pointer, but the union member
  \<open>d_long\<close>, an \<open>int\<close>, where it goes through \<open>d0\<close>.
\<close>

section \<open>Constants and addresses\<close>

definition exec_constpush :: "isz \<Rightarrow> 'w mstate \<Rightarrow> 'w sres option" where
  "exec_constpush sz s = do { (v, s) \<leftarrow> fetch sz s; s \<leftarrow> push v s; Some (Next s) }"

definition exec_neg_constpush :: "isz \<Rightarrow> 'w mstate \<Rightarrow> 'w sres option" where
  "exec_neg_constpush sz s = do { (v, s) \<leftarrow> fetch sz s; s \<leftarrow> push (- v) s; Some (Next s) }"

text \<open>A float constant replaces the low four bytes of \<open>d0\<close>; all eight are pushed.\<close>

definition exec_push_float_const :: "'w mstate \<Rightarrow> 'w sres option" where
  "exec_push_float_const s =
     do { v \<leftarrow> text_at SZ_L s;
          let s = s\<lparr>x_d0 := set_low 4 (x_d0 s) v\<rparr>;
          s \<leftarrow> push (x_d0 s) s;
          Some (Next (skip_text 4 s)) }"

definition exec_push_double_const :: "'w mstate \<Rightarrow> 'w sres option" where
  "exec_push_double_const s =
     do { v \<leftarrow> text_at SZ_Q s;
          let s = s\<lparr>x_d0 := v\<rparr>;
          s \<leftarrow> push (x_d0 s) s;
          Some (Next (skip_text 8 s)) }"

text \<open>The run-time stack check: the depth is compared as an \<open>int\<close>.\<close>

definition exec_check_sp :: "isz \<Rightarrow> 'w mstate \<Rightarrow> 'w sres option" where
  "exec_check_sp sz s =
     do { (checkval, s) \<leftarrow> fetch sz s;
          if x_fp s - x_sp s \<noteq> to_int checkval then Some (Panic ''sp botch'' s) else Some (Next s) }"

text \<open>Addresses relative to a register of the target and to the machine's frame pointer.\<close>

definition exec_proc_push_addr :: "word64 \<Rightarrow> isz \<Rightarrow> 'w mstate \<Rightarrow> 'w sres option" where
  "exec_proc_push_addr reg sz s =
     do { (v, s) \<leftarrow> fetch sz s; s \<leftarrow> push (reg + v) s; Some (Next s) }"

definition exec_push_stackaddr :: "isz \<Rightarrow> 'w mstate \<Rightarrow> 'w sres option" where
  "exec_push_stackaddr sz s =
     do { (v, s) \<leftarrow> fetch sz s; s \<leftarrow> push (x_fp s + v) s; Some (Next s) }"

section \<open>Loads\<close>

text \<open>The value at a native address, and what the load leaves in \<open>d0\<close>: the types that go through
  \<open>d0\<close> are read as a whole stack word, \<open>float\<close> included.\<close>

primrec load_unsigned :: "lty \<Rightarrow> 'w mstate \<Rightarrow> addr \<Rightarrow> (word64 \<times> 'w mstate) option" where
  "load_unsigned LT_ULL s a = do { v \<leftarrow> rd_word 8 (x_mem s) a; Some (v, s\<lparr>x_d0 := v\<rparr>) }"
| "load_unsigned LT_UB s a = do { v \<leftarrow> rd_word 1 (x_mem s) a; Some (v, s) }"
| "load_unsigned LT_UW s a = do { v \<leftarrow> rd_word 2 (x_mem s) a; Some (v, s) }"
| "load_unsigned LT_UL s a = do { v \<leftarrow> rd_word 8 (x_mem s) a; Some (v, s) }"
| "load_unsigned LT_SLL s a = None"
| "load_unsigned LT_SB s a = None"
| "load_unsigned LT_SW s a = None"
| "load_unsigned LT_SL s a = None"
| "load_unsigned LT_F s a = None"
| "load_unsigned LT_D s a = None"

primrec load_signed :: "lty \<Rightarrow> 'w mstate \<Rightarrow> addr \<Rightarrow> (word64 \<times> 'w mstate) option" where
  "load_signed LT_SLL s a = do { v \<leftarrow> rd_word 8 (x_mem s) a; Some (v, s\<lparr>x_d0 := v\<rparr>) }"
| "load_signed LT_SB s a = do { v \<leftarrow> rd_sword 1 (x_mem s) a; Some (v, s) }"
| "load_signed LT_SW s a = do { v \<leftarrow> rd_sword 2 (x_mem s) a; Some (v, s) }"
| "load_signed LT_SL s a = do { v \<leftarrow> rd_sword 8 (x_mem s) a; Some (v, s) }"
| "load_signed LT_F s a = do { v \<leftarrow> rd_word 8 (x_mem s) a; Some (v, s\<lparr>x_d0 := v\<rparr>) }"
| "load_signed LT_D s a = do { v \<leftarrow> rd_word 8 (x_mem s) a; Some (v, s\<lparr>x_d0 := v\<rparr>) }"
| "load_signed LT_ULL s a = None"
| "load_signed LT_UB s a = None"
| "load_signed LT_UW s a = None"
| "load_signed LT_UL s a = None"

primrec lty_unsigned :: "lty \<Rightarrow> bool" where
  "lty_unsigned LT_ULL = True"
| "lty_unsigned LT_UB = True"
| "lty_unsigned LT_UW = True"
| "lty_unsigned LT_UL = True"
| "lty_unsigned LT_SLL = False"
| "lty_unsigned LT_SB = False"
| "lty_unsigned LT_SW = False"
| "lty_unsigned LT_SL = False"
| "lty_unsigned LT_F = False"
| "lty_unsigned LT_D = False"

definition load :: "lty \<Rightarrow> 'w mstate \<Rightarrow> addr \<Rightarrow> (word64 \<times> 'w mstate) option" where
  "load t s a = (if lty_unsigned t then load_unsigned t s a else load_signed t s a)"

text \<open>The four groups of load instructions with an address in the text, absolute or relative to the
  frame pointer.\<close>

definition exec_push_unsigned_at_addr :: "lty \<Rightarrow> isz \<Rightarrow> 'w mstate \<Rightarrow> 'w sres option" where
  "exec_push_unsigned_at_addr t sz s =
     do { (a, s) \<leftarrow> fetch sz s; (v, s) \<leftarrow> load_unsigned t s a; s \<leftarrow> push v s; Some (Next s) }"

definition exec_push_unsigned_at_stackaddr :: "lty \<Rightarrow> isz \<Rightarrow> 'w mstate \<Rightarrow> 'w sres option" where
  "exec_push_unsigned_at_stackaddr t sz s =
     do { (a, s) \<leftarrow> fetch sz s; (v, s) \<leftarrow> load_unsigned t s (x_fp s + a); s \<leftarrow> push v s; Some (Next s) }"

definition exec_push_signed_at_addr :: "lty \<Rightarrow> isz \<Rightarrow> 'w mstate \<Rightarrow> 'w sres option" where
  "exec_push_signed_at_addr t sz s =
     do { (a, s) \<leftarrow> fetch sz s; (v, s) \<leftarrow> load_signed t s a; s \<leftarrow> push v s; Some (Next s) }"

definition exec_push_signed_at_stackaddr :: "lty \<Rightarrow> isz \<Rightarrow> 'w mstate \<Rightarrow> 'w sres option" where
  "exec_push_signed_at_stackaddr t sz s =
     do { (a, s) \<leftarrow> fetch sz s; (v, s) \<leftarrow> load_signed t s (x_fp s + a); s \<leftarrow> push v s; Some (Next s) }"

text \<open>Indirection through the address on the stack.\<close>

definition exec_deref :: "lty \<Rightarrow> 'w mstate \<Rightarrow> 'w sres option" where
  "exec_deref t s =
     do { (a, s) \<leftarrow> pop s; (v, s) \<leftarrow> load t s a; s \<leftarrow> push v s; Some (Next s) }"

text \<open>
  Indirection through an address that may be the target's.  The size is that of the union member:
  \<open>d_long\<close> and \<open>d_ulong\<close> are 32-bit integers.  From the interpreter's own memory \<open>LONG\<close> is read
  through a \<open>long *\<close> and cut down to the member.
\<close>

primrec lty_member_nbytes :: "lty \<Rightarrow> nat" where
  "lty_member_nbytes LT_SLL = 8"
| "lty_member_nbytes LT_SB = 1"
| "lty_member_nbytes LT_SW = 2"
| "lty_member_nbytes LT_SL = 4"
| "lty_member_nbytes LT_F = 4"
| "lty_member_nbytes LT_D = 8"
| "lty_member_nbytes LT_ULL = 8"
| "lty_member_nbytes LT_UB = 1"
| "lty_member_nbytes LT_UW = 2"
| "lty_member_nbytes LT_UL = 4"

primrec lty_ptr_nbytes :: "lty \<Rightarrow> nat" where
  "lty_ptr_nbytes LT_SLL = 8"
| "lty_ptr_nbytes LT_SB = 1"
| "lty_ptr_nbytes LT_SW = 2"
| "lty_ptr_nbytes LT_SL = 8"
| "lty_ptr_nbytes LT_F = 8"
| "lty_ptr_nbytes LT_D = 8"
| "lty_ptr_nbytes LT_ULL = 8"
| "lty_ptr_nbytes LT_UB = 1"
| "lty_ptr_nbytes LT_UW = 2"
| "lty_ptr_nbytes LT_UL = 8"

text \<open>What is pushed: the whole of \<open>d0\<close> for \<open>LONG_LONG\<close>, \<open>FLOAT\<close> and \<open>DOUBLE\<close>, the member,
  extended, for the others.\<close>

primrec d0_value :: "lty \<Rightarrow> word64 \<Rightarrow> word64" where
  "d0_value LT_SLL d = d"
| "d0_value LT_SB d = sext 1 d"
| "d0_value LT_SW d = sext 2 d"
| "d0_value LT_SL d = sext 4 d"
| "d0_value LT_F d = d"
| "d0_value LT_D d = d"
| "d0_value LT_ULL d = d"
| "d0_value LT_UB d = take_bit 8 d"
| "d0_value LT_UW d = take_bit 16 d"
| "d0_value LT_UL d = take_bit 32 d"

definition exec_proc_deref :: "'w env \<Rightarrow> lty \<Rightarrow> 'w mstate \<Rightarrow> 'w sres option" where
  "exec_proc_deref e t s =
     do { a \<leftarrow> stk s 0;
          if is_ci_addr e a then do {
            v \<leftarrow> rd_word (lty_ptr_nbytes t) (x_mem s) a;
            let s = s\<lparr>x_d0 := (if t = LT_F then v else set_low (lty_member_nbytes t) (x_d0 s) v)\<rparr>;
            s \<leftarrow> set_stk s 0 (d0_value t (x_d0 s));
            Some (Next s) }
          else do {
            r \<leftarrow> readdata e s a (lty_member_nbytes t);
            (case r of
               None \<Rightarrow> Some (Quit CI_ER_READDATA_FAILED
                         (if t \<in> {LT_SLL, LT_F, LT_D, LT_ULL} then drop_stk 1 s else s))
             | Some bs \<Rightarrow> do {
                 let s = s\<lparr>x_d0 := set_low (lty_member_nbytes t) (x_d0 s) (word_of bs)\<rparr>;
                 s \<leftarrow> set_stk s 0 (d0_value t (x_d0 s));
                 Some (Next s) }) } }"

section \<open>Stores\<close>

text \<open>
  Plain stores: \<open>BYTE\<close>, \<open>WORD\<close> and \<open>LONG\<close> store the low 1, 2 or 8 bytes of the top word; the others
  go through \<open>d0\<close> and store a whole word, \<open>FLOAT\<close> included.
\<close>

primrec aty_through_d0 :: "aty \<Rightarrow> bool" where
  "aty_through_d0 A_LONG_LONG = True"
| "aty_through_d0 A_BYTE = False"
| "aty_through_d0 A_WORD = False"
| "aty_through_d0 A_LONG = False"
| "aty_through_d0 A_FLOAT = True"
| "aty_through_d0 A_DOUBLE = True"

primrec aty_ptr_nbytes :: "aty \<Rightarrow> nat" where
  "aty_ptr_nbytes A_LONG_LONG = 8"
| "aty_ptr_nbytes A_BYTE = 1"
| "aty_ptr_nbytes A_WORD = 2"
| "aty_ptr_nbytes A_LONG = 8"
| "aty_ptr_nbytes A_FLOAT = 8"
| "aty_ptr_nbytes A_DOUBLE = 8"

primrec aty_member_nbytes :: "aty \<Rightarrow> nat" where
  "aty_member_nbytes A_LONG_LONG = 8"
| "aty_member_nbytes A_BYTE = 1"
| "aty_member_nbytes A_WORD = 2"
| "aty_member_nbytes A_LONG = 4"
| "aty_member_nbytes A_FLOAT = 4"
| "aty_member_nbytes A_DOUBLE = 8"

definition store :: "aty \<Rightarrow> 'w mstate \<Rightarrow> 'w mstate option" where
  "store t s =
     do { v \<leftarrow> stk s 0;
          a \<leftarrow> stk s 1;
          let s = (if aty_through_d0 t then s\<lparr>x_d0 := v\<rparr> else s);
          m \<leftarrow> wr_word (aty_ptr_nbytes t) (x_mem s) a v;
          Some (s\<lparr>x_mem := m\<rparr>) }"

definition exec_assign :: "aty \<Rightarrow> 'w mstate \<Rightarrow> 'w sres option" where
  "exec_assign t s = do { s \<leftarrow> store t s; Some (Next (drop_stk 2 s)) }"

text \<open>Assign and push: the types that do not go through \<open>d0\<close> read the value again after the store.\<close>

definition exec_assign_and_push :: "aty \<Rightarrow> 'w mstate \<Rightarrow> 'w sres option" where
  "exec_assign_and_push t s =
     do { s \<leftarrow> store t s;
          v \<leftarrow> (if aty_through_d0 t then Some (x_d0 s) else stk s 0);
          s \<leftarrow> set_stk s 1 v;
          Some (Next (drop_stk 1 s)) }"

text \<open>
  Stores to an address that may be the target's.  The value goes through the member of \<open>d0\<close>; the
  interpreter's own memory gets the extended member for \<open>LONG\<close> and the whole word for \<open>FLOAT\<close>.  On
  failure the types popped before the store leave the stack two words shorter.
\<close>

definition d0_store :: "aty \<Rightarrow> word64 \<Rightarrow> word64 \<Rightarrow> word64" where
  "d0_store t d v = (if t = A_FLOAT then v else set_low (aty_member_nbytes t) d v)"

definition d0_assigned :: "aty \<Rightarrow> word64 \<Rightarrow> word64" where
  "d0_assigned t d =
     (case t of A_BYTE \<Rightarrow> sext 1 d | A_WORD \<Rightarrow> sext 2 d | A_LONG \<Rightarrow> sext 4 d | _ \<Rightarrow> d)"

definition proc_store :: "'w env \<Rightarrow> aty \<Rightarrow> 'w mstate \<Rightarrow> ('w mstate + 'w mstate) option" where
  "proc_store e t s =
     do { v \<leftarrow> stk s 0;
          let s = s\<lparr>x_d0 := d0_store t (x_d0 s) v\<rparr>;
          a \<leftarrow> stk s 1;
          if is_ci_addr e a then do {
            m \<leftarrow> wr_word (aty_ptr_nbytes t) (x_mem s) a (d0_assigned t (x_d0 s));
            Some (Inr (s\<lparr>x_mem := m\<rparr>)) }
          else do {
            r \<leftarrow> writedata e s a (bytes_of (aty_member_nbytes t) (x_d0 s));
            (case r of
               None \<Rightarrow> Some (Inl (if aty_through_d0 t then drop_stk 2 s else s))
             | Some s \<Rightarrow> Some (Inr s)) } }"

definition exec_proc_assign :: "'w env \<Rightarrow> aty \<Rightarrow> 'w mstate \<Rightarrow> 'w sres option" where
  "exec_proc_assign e t s =
     do { r \<leftarrow> proc_store e t s;
          (case r of
             Inl s \<Rightarrow> Some (Quit CI_ER_WRITEDATA_FAILED s)
           | Inr s \<Rightarrow> Some (Next (drop_stk 2 s))) }"

definition exec_proc_assign_and_push :: "'w env \<Rightarrow> aty \<Rightarrow> 'w mstate \<Rightarrow> 'w sres option" where
  "exec_proc_assign_and_push e t s =
     do { r \<leftarrow> proc_store e t s;
          (case r of
             Inl s \<Rightarrow> Some (Quit CI_ER_WRITEDATA_FAILED s)
           | Inr s \<Rightarrow> do { s \<leftarrow> set_stk s 1 (d0_assigned t (x_d0 s)); Some (Next (drop_stk 1 s)) }) }"

section \<open>Bit fields\<close>

text \<open>The masks are \<open>int\<close> expressions: \<open>(1 << width) - 1\<close> is defined up to width 30, and shifting it
  by the offset while the result fits an \<open>int\<close>.\<close>

definition extract_bits :: "word64 \<Rightarrow> nat \<Rightarrow> nat \<Rightarrow> word64 option" where
  "extract_bits v offset width =
     (if offset < 64 \<and> width \<le> 30 then Some (drop_bit offset v AND (push_bit width 1 - 1)) else None)"

definition exec_extract_unsigned_bitfield :: "'w mstate \<Rightarrow> 'w sres option" where
  "exec_extract_unsigned_bitfield s =
     do { (offset, s) \<leftarrow> fetch SZ_B s;
          (width, s) \<leftarrow> fetch SZ_B s;
          v \<leftarrow> stk s 0;
          v \<leftarrow> extract_bits v (unat offset) (unat width);
          s \<leftarrow> set_stk s 0 v;
          Some (Next s) }"

text \<open>The sign is extended with \<open>~0u << width\<close>, a 32-bit value.\<close>

definition extend_bits :: "word64 \<Rightarrow> nat \<Rightarrow> word64 option" where
  "extend_bits v width =
     (if 0 < width
      then Some (if v AND push_bit (width - 1) 1 \<noteq> 0
                 then v OR ucast (push_bit width (- 1 :: 32 word)) else v)
      else None)"

definition exec_extract_signed_bitfield :: "'w mstate \<Rightarrow> 'w sres option" where
  "exec_extract_signed_bitfield s =
     do { (offset, s) \<leftarrow> fetch SZ_B s;
          (width, s) \<leftarrow> fetch SZ_B s;
          v \<leftarrow> stk s 0;
          v \<leftarrow> extract_bits v (unat offset) (unat width);
          v \<leftarrow> extend_bits v (unat width);
          s \<leftarrow> set_stk s 0 v;
          Some (Next s) }"

definition insert_bits :: "word64 \<Rightarrow> word64 \<Rightarrow> nat \<Rightarrow> nat \<Rightarrow> word64 option" where
  "insert_bits old new offset width =
     (if offset + width \<le> 31 \<and> width \<le> 30 \<and> offset < 32
      then (let m = push_bit offset (push_bit width 1 - 1)
            in Some ((old AND NOT m) OR (push_bit offset new AND m)))
      else None)"

definition exec_insert_bitfield :: "'w mstate \<Rightarrow> 'w sres option" where
  "exec_insert_bitfield s =
     do { (offset, s) \<leftarrow> fetch SZ_B s;
          (width, s) \<leftarrow> fetch SZ_B s;
          old \<leftarrow> stk s 1;
          new \<leftarrow> stk s 0;
          v \<leftarrow> insert_bits old new (unat offset) (unat width);
          s \<leftarrow> set_stk s 1 v;
          Some (Next (drop_stk 1 s)) }"

section \<open>The multiple arrow\<close>

text \<open>The loop of \<open>p->[n]link\<close>, with the number of links left to follow.  A pointer read from the
  target goes through the 32-bit member \<open>d_ulong\<close>.\<close>

fun multi_arrow :: "'w env \<Rightarrow> word64 \<Rightarrow> nat \<Rightarrow> word64 \<Rightarrow> 'w mstate
    \<Rightarrow> ('w mstate + word64 \<times> 'w mstate) option" where
  "multi_arrow e offset 0 a s = Some (Inr (a, s))"
| "multi_arrow e offset (Suc n) a s =
     (if is_ci_addr e a then do {
        a \<leftarrow> rd_word 8 (x_mem s) (a + offset);
        multi_arrow e offset n a s }
      else do {
        r \<leftarrow> readdata e s (a + offset) 4;
        (case r of
           None \<Rightarrow> Some (Inl s)
         | Some bs \<Rightarrow> do {
             let s = s\<lparr>x_d0 := set_low 4 (x_d0 s) (word_of bs)\<rparr>;
             multi_arrow e offset n (take_bit 32 (x_d0 s)) s }) })"

definition exec_multi_arrow :: "'w env \<Rightarrow> 'w mstate \<Rightarrow> 'w sres option" where
  "exec_multi_arrow e s =
     do { offset \<leftarrow> stk s 0;
          a \<leftarrow> stk s 1;
          count \<leftarrow> stk s 2;
          let count = sint (to_int count);
          if count < 0 then Some (Quit CI_ER_BAD_MA_COUNT s)
          else do {
            r \<leftarrow> multi_arrow e (to_int offset) (nat count) a s;
            (case r of
               Inl s \<Rightarrow> Some (Quit CI_ER_READDATA_FAILED s)
             | Inr (a, s) \<Rightarrow> do { let s = drop_stk 2 s; s \<leftarrow> set_stk s 0 a; Some (Next s) }) } }"

end
