(* ===== verification/Ups_Exec_Arith.thy ===== *)
theory Ups_Exec_Arith
  imports Ups_State
begin

text \<open>
  The machine's arithmetic instructions (\<open>ci_execute_machine\<close>, \<open>src/ups/xc_machine.c\<close>): stack
  shuffles, unary and binary operators on words, \<open>long long\<close>, \<open>float\<close> and \<open>double\<close>, comparisons and
  conversions.  The value of each integer operator is a function of its operands
  (\<open>arith_value\<close>, \<open>int_value\<close>); the instruction definitions say where the operands come from and
  what becomes of the stack on success and on failure.
\<close>

section \<open>Stack shuffles\<close>

definition exec_dup :: "'w mstate \<Rightarrow> 'w sres option" where
  "exec_dup s = do { v \<leftarrow> stk s 0; s \<leftarrow> push v s; Some (Next s) }"

definition exec_dup_back_one :: "'w mstate \<Rightarrow> 'w sres option" where
  "exec_dup_back_one s = do { v \<leftarrow> stk s 0; s \<leftarrow> set_stk s 2 v; Some (Next s) }"

definition exec_reserve_slot :: "'w mstate \<Rightarrow> 'w sres option" where
  "exec_reserve_slot s = Some (Next (s\<lparr>x_sp := x_sp s - 8\<rparr>))"

definition exec_pop :: "'w mstate \<Rightarrow> 'w sres option" where
  "exec_pop s = Some (Next (s\<lparr>x_sp := x_sp s + 8\<rparr>))"

section \<open>Integer operators\<close>

text \<open>An operator gives a value, finds a zero divisor (the checked divisions), or raises the
  arithmetic signal (a division by zero or an overflowing one); \<open>None\<close> is undefined.\<close>

datatype opval = Val word64 | Div_By_Zero | Fpe

definition fits_long :: "int \<Rightarrow> bool" where
  "fits_long i \<longleftrightarrow> - (2 ^ 63) \<le> i \<and> i < 2 ^ 63"

text \<open>C division truncates towards zero.\<close>

definition c_quot :: "int \<Rightarrow> int \<Rightarrow> int" where
  "c_quot a b = sgn a * sgn b * (\<bar>a\<bar> div \<bar>b\<bar>)"

definition mul_signed :: "word64 \<Rightarrow> word64 \<Rightarrow> opval option" where
  "mul_signed a b = (if fits_long (sint a * sint b) then Some (Val (a * b)) else None)"

definition div_signed :: "word64 \<Rightarrow> word64 \<Rightarrow> opval" where
  "div_signed a b =
     (if b = 0 \<or> \<not> fits_long (c_quot (sint a) (sint b)) then Fpe
      else Val (word_of_int (c_quot (sint a) (sint b))))"

definition div_unsigned :: "word64 \<Rightarrow> word64 \<Rightarrow> opval" where
  "div_unsigned a b = (if b = 0 then Fpe else Val (a div b))"

text \<open>The operators that exist for every operand type, on integers: \<open>a\<close> is \<open>sp[1]\<close> (or \<open>d0\<close>), \<open>b\<close> is
  \<open>*sp\<close> (or \<open>d1\<close>).\<close>

primrec arith_value :: "arop \<Rightarrow> word64 \<Rightarrow> word64 \<Rightarrow> opval option" where
  "arith_value AR_MUL_SIGNED a b = mul_signed a b"
| "arith_value AR_DIV_SIGNED a b = Some (div_signed a b)"
| "arith_value AR_CHKDIV_SIGNED a b = Some (if b = 0 then Div_By_Zero else div_signed a b)"
| "arith_value AR_ADD a b = Some (Val (a + b))"
| "arith_value AR_SUB a b = Some (Val (a - b))"
| "arith_value AR_IS_EQUAL a b = Some (Val (of_bool_word (a = b)))"
| "arith_value AR_NOT_EQUAL a b = Some (Val (of_bool_word (a \<noteq> b)))"
| "arith_value AR_LESS_SIGNED a b = Some (Val (of_bool_word (sint a < sint b)))"
| "arith_value AR_GREATER_SIGNED a b = Some (Val (of_bool_word (sint a > sint b)))"
| "arith_value AR_LESS_OR_EQUAL_SIGNED a b = Some (Val (of_bool_word (sint a \<le> sint b)))"
| "arith_value AR_GREATER_OR_EQUAL_SIGNED a b = Some (Val (of_bool_word (sint a \<ge> sint b)))"

text \<open>The operators for integers only.  A shift by 64 or more is undefined.\<close>

primrec int_value :: "inop \<Rightarrow> word64 \<Rightarrow> word64 \<Rightarrow> opval option" where
  "int_value IN_BITWISE_AND a b = Some (Val (a AND b))"
| "int_value IN_BITWISE_XOR a b = Some (Val (a XOR b))"
| "int_value IN_BITWISE_OR a b = Some (Val (a OR b))"
| "int_value IN_LSHIFT a b = (if b < 64 then Some (Val (push_bit (unat b) a)) else None)"
| "int_value IN_RSHIFT a b = (if b < 64 then Some (Val (drop_bit (unat b) a)) else None)"
| "int_value IN_MOD a b = Some (if b = 0 then Fpe else Val (a mod b))"
| "int_value IN_MUL_UNSIGNED a b = Some (Val (a * b))"
| "int_value IN_DIV_UNSIGNED a b = Some (div_unsigned a b)"
| "int_value IN_CHKDIV_UNSIGNED a b = Some (if b = 0 then Div_By_Zero else div_unsigned a b)"
| "int_value IN_LESS_UNSIGNED a b = Some (Val (of_bool_word (a < b)))"
| "int_value IN_GREATER_UNSIGNED a b = Some (Val (of_bool_word (a > b)))"
| "int_value IN_LESS_OR_EQUAL_UNSIGNED a b = Some (Val (of_bool_word (a \<le> b)))"
| "int_value IN_GREATER_OR_EQUAL_UNSIGNED a b = Some (Val (of_bool_word (a \<ge> b)))"

definition inop_relational :: "inop \<Rightarrow> bool" where
  "inop_relational a \<longleftrightarrow>
     a \<in> {IN_LESS_UNSIGNED, IN_GREATER_UNSIGNED, IN_LESS_OR_EQUAL_UNSIGNED, IN_GREATER_OR_EQUAL_UNSIGNED}"

text \<open>Word operators work in place: \<open>sp[1] = sp[1] op *sp; ++sp\<close>.  A failed check leaves both operands
  on the stack.\<close>

definition exec_word_binop :: "(word64 \<Rightarrow> word64 \<Rightarrow> opval option) \<Rightarrow> 'w mstate \<Rightarrow> 'w sres option" where
  "exec_word_binop f s =
     do { b \<leftarrow> stk s 0;
          a \<leftarrow> stk s 1;
          r \<leftarrow> f a b;
          (case r of
             Val v \<Rightarrow> do { s \<leftarrow> set_stk s 1 v; Some (Next (drop_stk 1 s)) }
           | Div_By_Zero \<Rightarrow> Some (Quit CI_ER_DIVISION_BY_ZERO s)
           | Fpe \<Rightarrow> Some (Sigfpe s)) }"

text \<open>The \<open>long long\<close> operators pop both operands first; the result of an arithmetic one goes
  through \<open>d0\<close>.\<close>

definition exec_ll_binop ::
  "bool \<Rightarrow> (word64 \<Rightarrow> word64 \<Rightarrow> opval option) \<Rightarrow> 'w mstate \<Rightarrow> 'w sres option" where
  "exec_ll_binop relational f s =
     do { (d1, s) \<leftarrow> pop s;
          (d0, s) \<leftarrow> pop s;
          let s = s\<lparr>x_d0 := d0, x_d1 := d1\<rparr>;
          r \<leftarrow> f d0 d1;
          (case r of
             Val v \<Rightarrow> do { s \<leftarrow> push v (if relational then s else s\<lparr>x_d0 := v\<rparr>); Some (Next s) }
           | Div_By_Zero \<Rightarrow> Some (Quit CI_ER_DIVISION_BY_ZERO s)
           | Fpe \<Rightarrow> Some (Sigfpe s)) }"

section \<open>Floating operators\<close>

definition lowf :: "word64 \<Rightarrow> 32 word" where "lowf d = ucast d"

definition f_is_zero :: "32 word \<Rightarrow> bool" where "f_is_zero x \<longleftrightarrow> f_eq x 0"
definition d_is_zero :: "64 word \<Rightarrow> bool" where "d_is_zero x \<longleftrightarrow> d_eq x 0"

text \<open>The result of an operator on two floats: the new \<open>d_float\<close> of \<open>d0\<close> or a truth value.\<close>

datatype 'f fval = FVal 'f | FBool bool | FDiv_By_Zero

primrec float_value :: "fpu \<Rightarrow> arop \<Rightarrow> 32 word \<Rightarrow> 32 word \<Rightarrow> 32 word fval" where
  "float_value u AR_ADD a b = FVal (f_add u a b)"
| "float_value u AR_SUB a b = FVal (f_sub u a b)"
| "float_value u AR_MUL_SIGNED a b = FVal (f_mul u a b)"
| "float_value u AR_DIV_SIGNED a b = FVal (f_div u a b)"
| "float_value u AR_CHKDIV_SIGNED a b = (if f_is_zero b then FDiv_By_Zero else FVal (f_div u a b))"
| "float_value u AR_IS_EQUAL a b = FBool (f_eq a b)"
| "float_value u AR_NOT_EQUAL a b = FBool (\<not> f_eq a b)"
| "float_value u AR_LESS_SIGNED a b = FBool (f_lt a b)"
| "float_value u AR_GREATER_SIGNED a b = FBool (f_lt b a)"
| "float_value u AR_LESS_OR_EQUAL_SIGNED a b = FBool (f_le a b)"
| "float_value u AR_GREATER_OR_EQUAL_SIGNED a b = FBool (f_le b a)"

primrec double_value :: "fpu \<Rightarrow> arop \<Rightarrow> 64 word \<Rightarrow> 64 word \<Rightarrow> 64 word fval" where
  "double_value u AR_ADD a b = FVal (d_add u a b)"
| "double_value u AR_SUB a b = FVal (d_sub u a b)"
| "double_value u AR_MUL_SIGNED a b = FVal (d_mul u a b)"
| "double_value u AR_DIV_SIGNED a b = FVal (d_div u a b)"
| "double_value u AR_CHKDIV_SIGNED a b = (if d_is_zero b then FDiv_By_Zero else FVal (d_div u a b))"
| "double_value u AR_IS_EQUAL a b = FBool (d_eq a b)"
| "double_value u AR_NOT_EQUAL a b = FBool (\<not> d_eq a b)"
| "double_value u AR_LESS_SIGNED a b = FBool (d_lt a b)"
| "double_value u AR_GREATER_SIGNED a b = FBool (d_lt b a)"
| "double_value u AR_LESS_OR_EQUAL_SIGNED a b = FBool (d_le a b)"
| "double_value u AR_GREATER_OR_EQUAL_SIGNED a b = FBool (d_le b a)"

definition exec_float_binop :: "'w env \<Rightarrow> arop \<Rightarrow> 'w mstate \<Rightarrow> 'w sres option" where
  "exec_float_binop e opr s =
     do { (d1, s) \<leftarrow> pop s;
          (d0, s) \<leftarrow> pop s;
          let s = s\<lparr>x_d0 := d0, x_d1 := d1\<rparr>;
          (case float_value (e_fpu e) opr (lowf d0) (lowf d1) of
             FVal f \<Rightarrow> do { let s = s\<lparr>x_d0 := set_low 4 d0 (ucast f)\<rparr>;
                          s \<leftarrow> push (x_d0 s) s; Some (Next s) }
           | FBool b \<Rightarrow> do { s \<leftarrow> push (of_bool_word b) s; Some (Next s) }
           | FDiv_By_Zero \<Rightarrow> Some (Quit CI_ER_DIVISION_BY_ZERO s)) }"

definition exec_double_binop :: "'w env \<Rightarrow> arop \<Rightarrow> 'w mstate \<Rightarrow> 'w sres option" where
  "exec_double_binop e opr s =
     do { (d1, s) \<leftarrow> pop s;
          (d0, s) \<leftarrow> pop s;
          let s = s\<lparr>x_d0 := d0, x_d1 := d1\<rparr>;
          (case double_value (e_fpu e) opr d0 d1 of
             FVal f \<Rightarrow> do { let s = s\<lparr>x_d0 := f\<rparr>; s \<leftarrow> push (x_d0 s) s; Some (Next s) }
           | FBool b \<Rightarrow> do { s \<leftarrow> push (of_bool_word b) s; Some (Next s) }
           | FDiv_By_Zero \<Rightarrow> Some (Quit CI_ER_DIVISION_BY_ZERO s)) }"

text \<open>All binary operators by operand type.\<close>

primrec exec_arith :: "'w env \<Rightarrow> arop \<Rightarrow> nty \<Rightarrow> 'w mstate \<Rightarrow> 'w sres option" where
  "exec_arith e opr N_WORD s = exec_word_binop (arith_value opr) s"
| "exec_arith e opr N_LL s = exec_ll_binop (arop_relational opr) (arith_value opr) s"
| "exec_arith e opr N_FLOAT s = exec_float_binop e opr s"
| "exec_arith e opr N_DOUBLE s = exec_double_binop e opr s"

primrec exec_int :: "inop \<Rightarrow> ity \<Rightarrow> 'w mstate \<Rightarrow> 'w sres option" where
  "exec_int opr I_WORD s = exec_word_binop (int_value opr) s"
| "exec_int opr I_LL s = exec_ll_binop (inop_relational opr) (int_value opr) s"

section \<open>Unary operators\<close>

definition exec_word_unop :: "(word64 \<Rightarrow> word64) \<Rightarrow> 'w mstate \<Rightarrow> 'w sres option" where
  "exec_word_unop f s = do { v \<leftarrow> stk s 0; s \<leftarrow> set_stk s 0 (f v); Some (Next s) }"

text \<open>Through \<open>d0\<close>: pop, change, push.\<close>

definition exec_d0_unop :: "(word64 \<Rightarrow> word64 option) \<Rightarrow> 'w mstate \<Rightarrow> 'w sres option" where
  "exec_d0_unop f s =
     do { (d0, s) \<leftarrow> pop s; v \<leftarrow> f d0; s \<leftarrow> push v (s\<lparr>x_d0 := v\<rparr>); Some (Next s) }"

primrec exec_bitwise_not :: "ity \<Rightarrow> 'w mstate \<Rightarrow> 'w sres option" where
  "exec_bitwise_not I_WORD s = exec_word_unop NOT s"
| "exec_bitwise_not I_LL s = exec_d0_unop (\<lambda>v. Some (NOT v)) s"

definition exec_logical_not :: "'w mstate \<Rightarrow> 'w sres option" where
  "exec_logical_not s = exec_word_unop (\<lambda>v. of_bool_word (v = 0)) s"

definition exec_cvt_to_bool :: "'w mstate \<Rightarrow> 'w sres option" where
  "exec_cvt_to_bool s = exec_word_unop (\<lambda>v. of_bool_word (v \<noteq> 0)) s"

primrec exec_unary_minus :: "nty \<Rightarrow> 'w mstate \<Rightarrow> 'w sres option" where
  "exec_unary_minus N_WORD s = exec_word_unop uminus s"
| "exec_unary_minus N_LL s =
     exec_d0_unop (\<lambda>v. if fits_long (- sint v) then Some (- v) else None) s"
| "exec_unary_minus N_FLOAT s =
     exec_d0_unop (\<lambda>v. Some (set_low 4 v (ucast (f_neg (lowf v))))) s"
| "exec_unary_minus N_DOUBLE s = exec_d0_unop (\<lambda>v. Some (d_neg v)) s"

section \<open>Conversions\<close>

text \<open>Pop into \<open>d0\<close>, compute the other union member in \<open>d1\<close>, push \<open>d1\<close>.\<close>

definition cvt_d0_d1 :: "(word64 \<Rightarrow> word64 \<Rightarrow> word64 option) \<Rightarrow> 'w mstate \<Rightarrow> 'w sres option" where
  "cvt_d0_d1 f s =
     do { (d0, s) \<leftarrow> pop s;
          let s = s\<lparr>x_d0 := d0\<rparr>;
          v \<leftarrow> f (x_d1 s) d0;
          s \<leftarrow> push v (s\<lparr>x_d1 := v\<rparr>);
          Some (Next s) }"

text \<open>Pop a word, store it converted in \<open>d0\<close>, push \<open>d0\<close>.\<close>

definition cvt_word_d0 :: "(word64 \<Rightarrow> word64 \<Rightarrow> word64) \<Rightarrow> 'w mstate \<Rightarrow> 'w sres option" where
  "cvt_word_d0 f s =
     do { (w, s) \<leftarrow> pop s;
          let s = s\<lparr>x_d0 := f (x_d0 s) w\<rparr>;
          s \<leftarrow> push (x_d0 s) s;
          Some (Next s) }"

text \<open>Pop into \<open>d0\<close>, push a word computed from it.\<close>

definition cvt_d0_word :: "(word64 \<Rightarrow> word64 option) \<Rightarrow> 'w mstate \<Rightarrow> 'w sres option" where
  "cvt_d0_word f s =
     do { (d0, s) \<leftarrow> pop s; v \<leftarrow> f d0; s \<leftarrow> push v (s\<lparr>x_d0 := d0\<rparr>); Some (Next s) }"

primrec exec_cvt :: "'w env \<Rightarrow> cvt \<Rightarrow> 'w mstate \<Rightarrow> 'w sres option" where
  "exec_cvt e CVT_FLOAT_TO_DOUBLE s = cvt_d0_d1 (\<lambda>d1 d0. Some (d_of_f (e_fpu e) (lowf d0))) s"
| "exec_cvt e CVT_UNSIGNED_LONG_LONG_TO_DOUBLE s =
     cvt_d0_d1 (\<lambda>d1 d0. Some (d_of_int (e_fpu e) (uint d0))) s"
| "exec_cvt e CVT_SIGNED_LONG_LONG_TO_DOUBLE s =
     cvt_d0_d1 (\<lambda>d1 d0. Some (d_of_int (e_fpu e) (sint d0))) s"
| "exec_cvt e CVT_UNSIGNED_LONG_TO_DOUBLE s = cvt_word_d0 (\<lambda>d0 w. d_of_int (e_fpu e) (uint w)) s"
| "exec_cvt e CVT_SIGNED_LONG_TO_DOUBLE s = cvt_word_d0 (\<lambda>d0 w. d_of_int (e_fpu e) (sint w)) s"
| "exec_cvt e CVT_FLOAT_TO_BOOL s = cvt_d0_word (\<lambda>d0. Some (of_bool_word (\<not> f_is_zero (lowf d0)))) s"
| "exec_cvt e CVT_DOUBLE_TO_BOOL s = cvt_d0_word (\<lambda>d0. Some (of_bool_word (\<not> d_is_zero d0))) s"
| "exec_cvt e CVT_LONG_LONG_TO_BOOL s = cvt_d0_word (\<lambda>d0. Some (of_bool_word (d0 \<noteq> 0))) s"
| "exec_cvt e CVT_DOUBLE_TO_LONG_LONG s = cvt_d0_d1 (\<lambda>d1 d0. d_to_longlong (e_fpu e) d0) s"
| "exec_cvt e CVT_FLOAT_TO_LONG_LONG s = cvt_d0_d1 (\<lambda>d1 d0. f_to_longlong (e_fpu e) (lowf d0)) s"
| "exec_cvt e CVT_UNSIGNED_LONG_TO_LONG_LONG s = cvt_word_d0 (\<lambda>d0 w. w) s"
| "exec_cvt e CVT_SIGNED_LONG_TO_LONG_LONG s = cvt_word_d0 (\<lambda>d0 w. w) s"
| "exec_cvt e CVT_UNSIGNED_LONG_LONG_TO_LONG s = cvt_d0_word (\<lambda>d0. Some d0) s"
| "exec_cvt e CVT_SIGNED_LONG_LONG_TO_LONG s = cvt_d0_word (\<lambda>d0. Some d0) s"
| "exec_cvt e CVT_FLOAT_TO_LONG s = cvt_d0_word (\<lambda>d0. f_to_ulong (e_fpu e) (lowf d0)) s"
| "exec_cvt e CVT_DOUBLE_TO_LONG s = cvt_d0_word (\<lambda>d0. d_to_ulong (e_fpu e) d0) s"
| "exec_cvt e CVT_UNSIGNED_LONG_TO_FLOAT s =
     cvt_word_d0 (\<lambda>d0 w. set_low 4 d0 (ucast (f_of_int (e_fpu e) (uint w)))) s"
| "exec_cvt e CVT_SIGNED_LONG_TO_FLOAT s =
     cvt_word_d0 (\<lambda>d0 w. set_low 4 d0 (ucast (f_of_int (e_fpu e) (sint w)))) s"
| "exec_cvt e CVT_UNSIGNED_LONG_LONG_TO_FLOAT s =
     cvt_d0_d1 (\<lambda>d1 d0. Some (set_low 4 d1 (ucast (f_of_int (e_fpu e) (uint d0))))) s"
| "exec_cvt e CVT_SIGNED_LONG_LONG_TO_FLOAT s =
     cvt_d0_d1 (\<lambda>d1 d0. Some (set_low 4 d1 (ucast (f_of_int (e_fpu e) (sint d0))))) s"
| "exec_cvt e CVT_DOUBLE_TO_FLOAT s =
     cvt_d0_d1 (\<lambda>d1 d0. Some (set_low 4 d1 (ucast (f_of_d (e_fpu e) d0)))) s"

end
