(* ===== verification/Ups_Machine.thy ===== *)
theory Ups_Machine
  imports Ups_Exec_Control Ups_Exec_Data Ups_Exec_Arith
begin

text \<open>
  The interpreter loop of \<open>ci_execute_machine\<close> (\<open>src/ups/xc_machine.c\<close>): dispatch on the opcode, one
  step, runs of a bounded number of steps, the step relation, and the function itself with its
  entry and exit code.  The loop need not end, so a run takes a bound on the number of steps; a run
  that is still going is \<open>Next\<close> (\<open>Running\<close> for the whole function), and what is said about a run that
  stops is said with the number of steps it needs.
\<close>

section \<open>Dispatch\<close>

primrec exec :: "'w env \<Rightarrow> opcode \<Rightarrow> 'w mstate \<Rightarrow> 'w sres option" where
  "exec e OC_PUSH_WORD_RETVAL s = exec_push_retval s"
| "exec e OC_PUSH_LONG_LONG_RETVAL s = exec_push_retval s"
| "exec e OC_PUSH_FLOAT_RETVAL s = exec_push_retval s"
| "exec e OC_PUSH_DOUBLE_RETVAL s = exec_push_retval s"
| "exec e OC_RET_FLOAT s = exec_ret_popped s"
| "exec e OC_RET_DOUBLE s = exec_ret_popped s"
| "exec e OC_RET_LONG_LONG s = exec_ret_popped s"
| "exec e OC_RET_WORD s = exec_ret_word s"
| "exec e OC_RET s = exec_ret s"
| "exec e OC_PUSH_STRUCTRET_ADDR s = exec_push_structret_addr s"
| "exec e OC_RET_STRUCT s = exec_ret_struct s"
| "exec e OC_SETJMP s = exec_setjmp s"
| "exec e OC_LONGJMP s = exec_longjmp s"
| "exec e OC_CALL_INDIRECT s = exec_call_indirect e s"
| "exec e (OC_CALL sz) s = exec_call e sz s"
| "exec e (OC_LINK sz) s = exec_link e sz s"
| "exec e (OC_POPMANY sz) s = exec_popmany sz s"
| "exec e (OC_PROC_MEMCPY sz) s = exec_proc_memcpy e sz s"
| "exec e (OC_MEMCPY sz) s = exec_memcpy sz s"
| "exec e OC_RESERVE_BYTES s = exec_reserve_bytes s"
| "exec e OC_PROC_PUSH_BYTES s = exec_proc_push_bytes e s"
| "exec e OC_PUSH_BYTES s = exec_push_bytes s"
| "exec e OC_EXTRACT_UNSIGNED_BITFIELD s = exec_extract_unsigned_bitfield s"
| "exec e OC_EXTRACT_SIGNED_BITFIELD s = exec_extract_signed_bitfield s"
| "exec e OC_INSERT_SIGNED_BITFIELD s = exec_insert_bitfield s"
| "exec e OC_INSERT_UNSIGNED_BITFIELD s = exec_insert_bitfield s"
| "exec e (OC_PROC_ASSIGN t) s = exec_proc_assign e t s"
| "exec e (OC_ASSIGN t) s = exec_assign t s"
| "exec e (OC_PROC_ASSIGN_AND_PUSH t) s = exec_proc_assign_and_push e t s"
| "exec e (OC_ASSIGN_AND_PUSH t) s = exec_assign_and_push t s"
| "exec e (OC_PROC_DEREF t) s = exec_proc_deref e t s"
| "exec e (OC_DEREF t) s = exec_deref t s"
| "exec e OC_MULTI_ARROW s = exec_multi_arrow e s"
| "exec e (OC_NEG_CONSTPUSH sz) s = exec_neg_constpush sz s"
| "exec e (OC_CONSTPUSH sz) s = exec_constpush sz s"
| "exec e OC_PUSH_FLOAT_CONST s = exec_push_float_const s"
| "exec e OC_PUSH_DOUBLE_CONST s = exec_push_double_const s"
| "exec e (OC_CHECK_SP sz) s = exec_check_sp sz s"
| "exec e (OC_PROC_PUSH_FP_ADDR sz) s = exec_proc_push_addr (e_procfp e) sz s"
| "exec e (OC_PROC_PUSH_AP_ADDR sz) s = exec_proc_push_addr (e_procap e) sz s"
| "exec e (OC_PROC_PUSH_SP_ADDR sz) s = exec_proc_push_addr (e_procsp e) sz s"
| "exec e (OC_PROC_PUSH_CFA_ADDR sz) s = exec_proc_push_addr (e_proccfa e) sz s"
| "exec e (OC_PUSH_STACKADDR sz) s = exec_push_stackaddr sz s"
| "exec e (OC_PUSH_AT_ADDR t sz) s =
     (if lty_unsigned t then exec_push_unsigned_at_addr t sz s else exec_push_signed_at_addr t sz s)"
| "exec e (OC_PUSH_AT_STACKADDR t sz) s =
     (if lty_unsigned t then exec_push_unsigned_at_stackaddr t sz s
      else exec_push_signed_at_stackaddr t sz s)"
| "exec e OC_SWITCH_ON_TABLE s = exec_switch_on_table s"
| "exec e (OC_SWITCH_ON_CHAIN sz) s = exec_switch_on_chain sz s"
| "exec e OC_UNRESOLVED_JUMP s = Some (Panic ''bad opcode: unresolved jump'' s)"
| "exec e OC_JUMP s = jump s"
| "exec e OC_JUMP_IF_NON_ZERO s = exec_jump_if False s"
| "exec e OC_JUMP_IF_ZERO s = exec_jump_if True s"
| "exec e OC_DUP s = exec_dup s"
| "exec e OC_DUP_BACK_ONE s = exec_dup_back_one s"
| "exec e OC_RESERVE_SLOT s = exec_reserve_slot s"
| "exec e OC_POP s = exec_pop s"
| "exec e OC_CVT_TO_BOOL s = exec_cvt_to_bool s"
| "exec e (OC_BITWISE_NOT t) s = exec_bitwise_not t s"
| "exec e OC_LOGICAL_NOT s = exec_logical_not s"
| "exec e (OC_UNARY_MINUS t) s = exec_unary_minus t s"
| "exec e (OC_ARITH opr t) s = exec_arith e opr t s"
| "exec e (OC_INT opr t) s = exec_int opr t s"
| "exec e (OC_CVT c) s = exec_cvt e c s"
| "exec e OC_NOP s = Some (Next s)"
| "exec e OC_TRAP s = Some (Quit CI_ER_TRAP s)"

section \<open>Steps and runs\<close>

text \<open>The code at the label \<open>update_count\<close>.\<close>

definition count_opcode :: "opcode \<Rightarrow> 'w mstate \<Rightarrow> 'w mstate" where
  "count_opcode opc s =
     (case x_opcounts s of
        None \<Rightarrow> s
      | Some counts \<Rightarrow>
          s\<lparr>x_opcounts := Some (counts[opcode_num opc := counts ! opcode_num opc + 1])\<rparr>)"

text \<open>\<open>READOPCODE\<close>: an opcode is two bytes.  A number that is no opcode indexes outside the jump
  table.\<close>

definition read_opcode :: "'w mstate \<Rightarrow> (opcode \<times> 'w mstate) option" where
  "read_opcode s =
     do { (w, s) \<leftarrow> fetch SZ_W s; opc \<leftarrow> opcode_of (unat w); Some (opc, s) }"

definition step :: "'w env \<Rightarrow> 'w mstate \<Rightarrow> 'w sres option" where
  "step e s = do { (opc, s) \<leftarrow> read_opcode s; exec e opc (count_opcode opc s) }"

fun run :: "'w env \<Rightarrow> nat \<Rightarrow> 'w mstate \<Rightarrow> 'w sres option" where
  "run e 0 s = Some (Next s)"
| "run e (Suc n) s = do { r \<leftarrow> step e s; (case r of Next s' \<Rightarrow> run e n s' | _ \<Rightarrow> Some r) }"

text \<open>The same as a relation: from \<open>s\<close> the machine gets to \<open>s'\<close>.\<close>

inductive steps :: "'w env \<Rightarrow> 'w mstate \<Rightarrow> 'w mstate \<Rightarrow> bool" for e where
  refl: "steps e s s"
| step: "step e s = Some (Next s') \<Longrightarrow> steps e s' s'' \<Longrightarrow> steps e s s''"

section \<open>The machine\<close>

text \<open>
  The fields of \<open>machine_t\<close>.  \<open>ma_mhead\<close> is the address of the list head that the structure
  contains; \<open>ma_callbacks\<close> is the list of pending callbacks, \<open>ma_reg_relocs\<close> the register numbers and
  text offsets of the register relocations.
\<close>

record 'w machine_t =
  ma_opcounts :: "word64 list option"
  ma_data :: addr
  ma_data_copy :: addr
  ma_data_size :: word64
  ma_bss_size :: word64
  ma_loadfunc :: "(addr \<Rightarrow> mem \<Rightarrow> codefiles \<Rightarrow> 'w \<Rightarrow> (bool \<times> mem \<times> codefiles \<times> 'w) option) option"
  ma_entry_codefile :: addr
  ma_entry_point :: word64
  ma_argc_pos :: addr
  ma_argv_pos :: addr
  ma_envp_pos :: addr
  ma_cftab :: "addr list"
  ma_reg_relocs :: "(nat \<times> word64) list"
  ma_get_regaddr_proc :: "(nat \<Rightarrow> word64) option"
  ma_callbacks :: "(word64 \<times> nat) list"
  ma_libfuncs ::
    "word64 \<Rightarrow> (bool \<Rightarrow> addr \<Rightarrow> word64 list \<Rightarrow> mem \<Rightarrow> ci_exec_result_t \<Rightarrow> 'w
       \<Rightarrow> (word64 \<times> mem \<times> ci_exec_result_t \<times> 'w) option) option"
  ma_minsp :: addr
  ma_maxsp :: addr
  ma_initial_sp :: addr
  ma_stack_size :: word64
  ma_pc :: addr
  ma_sp :: addr
  ma_fp :: addr
  ma_codefile :: addr
  ma_retval :: word64
  ma_stopres :: ci_exec_result_t
  ma_fdtab :: "byte list"
  ma_fdtab_size :: nat
  ma_mhead :: addr

text \<open>What is outside the structure: memory, the code files, the world.\<close>

record 'w native =
  n_mem :: mem
  n_cfs :: codefiles
  n_world :: 'w

text \<open>The arguments of \<open>ci_execute_machine\<close> after the machine itself, the host's floating point, and
  what the uninitialised scratch variables happen to hold.\<close>

record 'w exec_args =
  a_procfp :: word64
  a_procap :: word64
  a_procsp :: word64
  a_proccfa :: word64
  a_readproc :: "('w \<Rightarrow> addr \<Rightarrow> nat \<Rightarrow> byte list option) option"
  a_writeproc :: "('w \<Rightarrow> addr \<Rightarrow> byte list \<Rightarrow> 'w option) option"
  a_indirect_call_proc ::
    "(word64 \<Rightarrow> addr \<Rightarrow> nat \<Rightarrow> byte \<Rightarrow> mem \<Rightarrow> 'w \<Rightarrow> (ci_exec_result_t \<times> word64 \<times> mem \<times> 'w) option) option"
  a_fpu :: fpu
  a_d0 :: word64
  a_d1 :: word64

definition machine_env :: "'w machine_t \<Rightarrow> codefile_t \<Rightarrow> 'w exec_args \<Rightarrow> 'w env" where
  "machine_env ma cf a =
     (let mindata = cf_text_and_data cf + cf_text_size cf in
      \<lparr>e_minsp = ma_minsp ma, e_maxsp = ma_maxsp ma,
       e_mindata = mindata, e_maxdata = mindata + cf_data_size cf + cf_bss_size cf,
       e_procfp = a_procfp a, e_procap = a_procap a, e_procsp = a_procsp a, e_proccfa = a_proccfa a,
       e_cftab = ma_cftab ma, e_readproc = a_readproc a, e_writeproc = a_writeproc a,
       e_indirect_call_proc = a_indirect_call_proc a, e_loadfunc = ma_loadfunc ma,
       e_libfuncs = ma_libfuncs ma, e_fpu = a_fpu a\<rparr>)"

definition machine_start :: "'w machine_t \<Rightarrow> 'w exec_args \<Rightarrow> 'w native \<Rightarrow> 'w mstate" where
  "machine_start ma a nv =
     \<lparr>x_mem = n_mem nv, x_pc = ma_pc ma, x_sp = ma_sp ma, x_fp = ma_fp ma, x_cf = ma_codefile ma,
      x_retval = ma_retval ma, x_d0 = a_d0 a, x_d1 = a_d1 a, x_cfs = n_cfs nv,
      x_stopres = CI_ER_CONTINUE, x_opcounts = ma_opcounts ma, x_world = n_world nv\<rparr>"

text \<open>The code at the label \<open>quit\<close>.\<close>

definition machine_quit :: "'w machine_t \<Rightarrow> 'w mstate \<Rightarrow> 'w machine_t" where
  "machine_quit ma s =
     ma\<lparr>ma_pc := x_pc s - 1, ma_sp := x_sp s, ma_fp := x_fp s, ma_codefile := x_cf s,
        ma_retval := x_retval s, ma_stopres := x_stopres s, ma_opcounts := x_opcounts s\<rparr>"

definition native_of :: "'w mstate \<Rightarrow> 'w native" where
  "native_of s = \<lparr>n_mem = x_mem s, n_cfs = x_cfs s, n_world = x_world s\<rparr>"

text \<open>
  How a call of \<open>ci_execute_machine\<close> ends.  After an arithmetic signal it returns
  \<open>CI_ER_ARITHMETIC_EXCEPTION\<close>, but the registers it writes back were changed after the \<open>setjmp\<close>
  and are not determined: \<open>Signalled\<close> has the memory only.
\<close>

datatype 'w outcome =
    Stopped ci_exec_result_t "'w machine_t" "'w native"
  | Signalled "'w native"
  | Panicked string
  | Running "'w mstate"

definition ci_execute_machine ::
  "nat \<Rightarrow> 'w machine_t \<Rightarrow> 'w exec_args \<Rightarrow> 'w native \<Rightarrow> 'w outcome option" where
  "ci_execute_machine fuel ma a nv =
     do { cf \<leftarrow> n_cfs nv (ma_codefile ma);
          r \<leftarrow> run (machine_env ma cf a) fuel (machine_start ma a nv);
          (case r of
             Quit res s \<Rightarrow> Some (Stopped res (machine_quit ma s) (native_of s))
           | Sigfpe s \<Rightarrow> Some (Signalled (native_of s))
           | Panic msg s \<Rightarrow> Some (Panicked msg)
           | Next s \<Rightarrow> Some (Running s)) }"

section \<open>Runs\<close>

lemma run_add:
  "run e (m + n) s = do { r \<leftarrow> run e m s; (case r of Next s' \<Rightarrow> run e n s' | _ \<Rightarrow> Some r) }"
proof (induction m arbitrary: s)
  case (Suc m)
  then show ?case
    by (cases "step e s") (auto split: sres.splits)
qed simp

text \<open>A run that has stopped does not change when it is given more steps.\<close>

lemma run_stable:
  "run e m s = Some r \<Longrightarrow> (\<And>s'. r \<noteq> Next s') \<Longrightarrow> run e (m + n) s = Some r"
  by (simp add: run_add split: sres.splits)

lemma steps_trans: "steps e s t \<Longrightarrow> steps e t u \<Longrightarrow> steps e s u"
  by (induction rule: steps.induct) (auto intro: steps.step)

lemma steps_one: "step e s = Some (Next t) \<Longrightarrow> steps e s t"
  by (blast intro: steps.intros)

lemma steps_iff_run: "steps e s t \<longleftrightarrow> (\<exists>n. run e n s = Some (Next t))"
proof
  show "steps e s t \<Longrightarrow> \<exists>n. run e n s = Some (Next t)"
  proof (induction rule: steps.induct)
    case (refl s)
    have "run e 0 s = Some (Next s)" by simp
    then show ?case by blast
  next
    case (step s s' s'')
    then obtain n where "run e n s' = Some (Next s'')" by blast
    with step(1) have "run e (Suc n) s = Some (Next s'')" by simp
    then show ?case by blast
  qed
  have "run e n s = Some (Next t) \<Longrightarrow> steps e s t" for n
  proof (induction n arbitrary: s)
    case (Suc n)
    then obtain r where "step e s = Some r" and "(case r of Next s' \<Rightarrow> run e n s' | _ \<Rightarrow> Some r) = Some (Next t)"
      by (auto simp: mem_simps)
    with Suc.IH show ?case by (cases r) (auto intro: steps.step)
  qed (simp add: steps.refl)
  then show "\<exists>n. run e n s = Some (Next t) \<Longrightarrow> steps e s t" by blast
qed

text \<open>The machine is deterministic, so what it stops with is reached by every long enough run.\<close>

lemma run_stops_unique:
  assumes "run e m s = Some r" and "\<And>s'. r \<noteq> Next s'"
    and "run e n s = Some q" and "\<And>s'. q \<noteq> Next s'"
  shows "r = q"
proof (cases "m \<le> n")
  case True
  then obtain k where "n = m + k" using le_Suc_ex by blast
  with run_stable[OF assms(1,2), of k] assms(3) show ?thesis by simp
next
  case False
  then obtain k where "m = n + k" using le_Suc_ex nat_le_linear by blast
  with run_stable[OF assms(3,4), of k] assms(1) show ?thesis by simp
qed

end
