(* ===== verification/Ups_Text.thy ===== *)
theory Ups_Text
  imports Ups_Opcodes Ups_Types
begin

text \<open>
  The code buffer of the expression compiler (\<open>text_t\<close> of \<open>src/ups/ci_compile.h\<close>) and the
  functions that write to it: bytes, words, longs, quads, opcodes and operands
  (\<open>src/ups/ci_opcodes.c\<close>, \<open>ci_code_constpush\<close> of \<open>src/ups/ci_compile_expr.c\<close>) and branch labels
  (\<open>src/ups/ci_compile.c\<close>).  C \<open>long\<close> arguments are 64-bit words; \<open>None\<close> is a call of
  \<open>ci_panic\<close> (the compilation is abandoned), or a step without defined behaviour.

  The first part of the lemmas says what each function appends; the locale \<open>code_emitter\<close> states
  that contract, and the lemmas about operand forms are derived from it.
\<close>

section \<open>State\<close>

text \<open>A branch label: its address (0 while unknown) and the places that refer to it.\<close>

record branch_label =
  lb_addr :: nat
  lb_refs :: "nat list"

text \<open>
  \<open>tx_text\<close> has one cell per allocated byte, \<open>None\<close> where nothing was written yet.
  \<open>tx_text_malloced\<close> records whether \<open>tx_text\<close> points to a block obtained from \<open>malloc\<close>, the
  only pointers \<open>realloc\<close> accepts: \<open>compile()\<close> takes the first buffer from an allocation pool.
\<close>

datatype loctype_t = RT_TEXTLOC | RT_DATALOC | RT_EXTDATALOC

record text_t =
  tx_text :: "byte option list"
  tx_text_malloced :: bool
  tx_pclim :: nat
  tx_pc :: nat
  tx_sp :: word64
  tx_max_sp :: word64
  tx_labels :: "branch_label option list"
  tx_labellim :: nat
  tx_have_proc_vars :: bool
  tx_flags :: word64
  tx_varlist :: "var_t list"
  tx_vlist :: "var_t list"
  tx_var_relocs :: "(loctype_t \<times> nat \<times> var_t \<times> word64) list"
  tx_string_relocs :: "(loctype_t \<times> nat \<times> byte list \<times> word64) list"
  tx_func_relocs :: "(loctype_t \<times> nat) list"
  tx_want_reg_relocs :: bool
  tx_reg_relocs :: "(nat \<times> word64) list"
  tx_regno_to_addr_proc :: "(word64 \<Rightarrow> word64) option"
  tx_funclist :: "string list"
  tx_num_funcs :: nat
  tx_undef_funcs :: "(string \<times> int) list"
  tx_num_undef_funcs :: nat
  tx_checkarg_proc :: "(type_t \<Rightarrow> nat \<Rightarrow> nat \<Rightarrow> word64 option) option"

definition CI_CP_CHECKSP :: word64 where "CI_CP_CHECKSP = 1"
definition CI_CP_CHECK_DIV :: word64 where "CI_CP_CHECK_DIV = 4"

text \<open>The state \<open>compile()\<close> starts with: a buffer of 200 bytes from the pool.  \<open>funcs\<close> are the names of
  the functions of the file and \<open>vars\<close> its global variables.\<close>

definition CI_CP_WANT_REG_RELOCS :: word64 where "CI_CP_WANT_REG_RELOCS = 0x10"

definition initial_text ::
  "word64 \<Rightarrow> bool \<Rightarrow> string list \<Rightarrow> var_t list \<Rightarrow> (type_t \<Rightarrow> nat \<Rightarrow> nat \<Rightarrow> word64 option) option
     \<Rightarrow> (word64 \<Rightarrow> word64) option \<Rightarrow> text_t" where
  "initial_text flags have_proc_vars funcs vars checkarg regno_to_addr =
     \<lparr>tx_text = replicate 200 None, tx_text_malloced = False, tx_pclim = 200, tx_pc = 0,
      tx_sp = 0, tx_max_sp = 0, tx_labels = [], tx_labellim = 0,
      tx_have_proc_vars = have_proc_vars, tx_flags = flags, tx_varlist = vars, tx_vlist = [],
      tx_var_relocs = [], tx_string_relocs = [], tx_func_relocs = [],
      tx_want_reg_relocs = (flags AND CI_CP_WANT_REG_RELOCS \<noteq> 0), tx_reg_relocs = [],
      tx_regno_to_addr_proc = regno_to_addr, tx_funclist = funcs, tx_num_funcs = 1 + length funcs,
      tx_undef_funcs = [], tx_num_undef_funcs = 1, tx_checkarg_proc = checkarg\<rparr>"

definition text_ok :: "text_t \<Rightarrow> bool" where
  "text_ok tx \<longleftrightarrow> length (tx_text tx) = tx_pclim tx \<and> length (tx_labels tx) = tx_labellim tx"

section \<open>Bytes and integers\<close>

text \<open>The loop \<open>do tx_pclim *= 2 while (tx_pc >= tx_pclim)\<close>; it never ends from 0.\<close>

function double_pclim :: "nat \<Rightarrow> nat \<Rightarrow> nat option" where
  "double_pclim pc lim =
     (if lim = 0 then None
      else if pc < 2 * lim then Some (2 * lim)
      else double_pclim pc (2 * lim))"
  by pat_completeness auto
termination
  by (relation "measure (\<lambda>(pc, lim). pc - lim)") auto

declare double_pclim.simps [simp del]

text \<open>\<open>e_realloc\<close> of the buffer keeps the contents and adds unwritten cells; it is only defined on a block that came
  from \<open>malloc\<close>, so that here \<open>None\<close> is the undefined \<open>realloc\<close>.\<close>

definition realloc_text :: "text_t \<Rightarrow> nat \<Rightarrow> text_t option" where
  "realloc_text tx lim =
     (if tx_text_malloced tx
      then Some (tx\<lparr>tx_pclim := lim, tx_text := tx_text tx @ replicate (lim - length (tx_text tx)) None\<rparr>)
      else None)"

text \<open>Growing the buffer, when the next byte does not fit.\<close>

definition grow_text :: "text_t \<Rightarrow> text_t option" where
  "grow_text tx =
     (if tx_pc tx \<ge> tx_pclim tx
      then do { lim \<leftarrow> double_pclim (tx_pc tx) (tx_pclim tx); realloc_text tx lim }
      else Some tx)"

definition ci_code_byte :: "text_t \<Rightarrow> word64 \<Rightarrow> text_t option" where
  "ci_code_byte tx b =
     (if ucast (ucast b :: byte) \<noteq> b then None
      else do { tx \<leftarrow> grow_text tx;
                if tx_pc tx < length (tx_text tx)
                then Some (tx\<lparr>tx_text := (tx_text tx)[tx_pc tx := Some (ucast b)],
                              tx_pc := tx_pc tx + 1\<rparr>)
                else None })"

definition ci_code_word :: "text_t \<Rightarrow> word64 \<Rightarrow> text_t option" where
  "ci_code_word tx w =
     do { tx \<leftarrow> ci_code_byte tx (w AND 0xff);
          ci_code_byte tx (signed_drop_bit 8 w AND 0xff) }"

definition ci_code_long :: "text_t \<Rightarrow> word64 \<Rightarrow> text_t option" where
  "ci_code_long tx l =
     do { tx \<leftarrow> ci_code_word tx (l AND 0xffff);
          ci_code_word tx (signed_drop_bit 16 l AND 0xffff) }"

definition ci_code_quad :: "text_t \<Rightarrow> word64 \<Rightarrow> text_t option" where
  "ci_code_quad tx q =
     do { tx \<leftarrow> ci_code_long tx (q AND 0xffffffff);
          ci_code_long tx (signed_drop_bit 32 q AND 0xffffffff) }"

section \<open>Opcodes\<close>

text \<open>\<open>(opcode_t)((int)op + k)\<close>: a number outside the enumeration is no opcode.\<close>

definition opcode_plus :: "opcode \<Rightarrow> int \<Rightarrow> opcode option" where
  "opcode_plus op k =
     (let n = int (opcode_num op) + k in if n < 0 then None else opcode_of (nat n))"

definition BYTE_FORM_OFFSET :: int where "BYTE_FORM_OFFSET = 0"
definition SHORT_FORM_OFFSET :: int where "SHORT_FORM_OFFSET = 1"
definition LONG_FORM_OFFSET :: int where "LONG_FORM_OFFSET = 2"
definition QUAD_FORM_OFFSET :: int where "QUAD_FORM_OFFSET = 3"
definition LONGLONG_FORM_OFFSET :: int where "LONGLONG_FORM_OFFSET = - 1"
definition FLOAT_FORM_OFFSET :: int where "FLOAT_FORM_OFFSET = 3"
definition DOUBLE_FORM_OFFSET :: int where "DOUBLE_FORM_OFFSET = 4"

text \<open>The part of \<open>ci_code_opcode\<close> after the run-time stack check: keep the static stack depth
  and its maximum, then write the opcode.\<close>

definition code_opcode_tail :: "text_t \<Rightarrow> opcode \<Rightarrow> text_t option" where
  "code_opcode_tail tx opc =
     (let tmpspace = (case opc of OC_CALL _ \<Rightarrow> 8 | _ \<Rightarrow> 0);
          sp = tx_sp tx + of_int (fst (snd (Optab ! opcode_num opc)));
          tx = tx\<lparr>tx_sp := sp,
                  tx_max_sp := (if sp + tmpspace > tx_max_sp tx then sp + tmpspace else tx_max_sp tx)\<rparr>
      in ci_code_word tx (of_nat (opcode_num opc)))"

text \<open>\<open>ci_code_generic_opcode\<close>, over the function that writes an opcode: the narrowest form that
  holds the argument.\<close>

definition code_generic ::
  "(text_t \<Rightarrow> opcode \<Rightarrow> text_t option) \<Rightarrow> text_t \<Rightarrow> opcode \<Rightarrow> word64 \<Rightarrow> text_t option" where
  "code_generic code_op tx byte_opcode arg =
     (if arg \<le> 0xff then do {
        opc \<leftarrow> opcode_plus byte_opcode BYTE_FORM_OFFSET;
        tx \<leftarrow> code_op tx opc; ci_code_byte tx arg }
      else if arg \<le> 0xffff then do {
        opc \<leftarrow> opcode_plus byte_opcode SHORT_FORM_OFFSET;
        tx \<leftarrow> code_op tx opc; ci_code_word tx arg }
      else if arg \<le> 0xffffffff then do {
        opc \<leftarrow> opcode_plus byte_opcode LONG_FORM_OFFSET;
        tx \<leftarrow> code_op tx opc; ci_code_long tx arg }
      else do {
        opc \<leftarrow> opcode_plus byte_opcode QUAD_FORM_OFFSET;
        tx \<leftarrow> code_op tx opc; ci_code_quad tx arg })"

text \<open>The opcodes that get no run-time stack check before them.\<close>

fun sp_check_exempt :: "opcode \<Rightarrow> bool" where
  "sp_check_exempt (OC_CHECK_SP _) = True"
| "sp_check_exempt OC_TRAP = True"
| "sp_check_exempt OC_NOP = True"
| "sp_check_exempt (OC_LINK _) = True"
| "sp_check_exempt _ = False"

text \<open>\<open>ci_code_opcode\<close> calls \<open>ci_code_generic_opcode\<close> for the stack check and is called by it; the
  inner call writes an exempt opcode, so the recursion is one level deep (\<open>ci_code_opcode_rec\<close>
  below is the recursion of the source).\<close>

definition ci_code_opcode :: "text_t \<Rightarrow> opcode \<Rightarrow> text_t option" where
  "ci_code_opcode tx opc =
     do { tx \<leftarrow> (if tx_flags tx AND CI_CP_CHECKSP \<noteq> 0 \<and> \<not> sp_check_exempt opc
                then code_generic code_opcode_tail tx (OC_CHECK_SP SZ_B) (tx_sp tx)
                else Some tx);
          code_opcode_tail tx opc }"

definition ci_code_generic_opcode :: "text_t \<Rightarrow> opcode \<Rightarrow> word64 \<Rightarrow> text_t option" where
  "ci_code_generic_opcode = code_generic ci_code_opcode"

definition ci_code_constpush :: "text_t \<Rightarrow> word64 \<Rightarrow> text_t option" where
  "ci_code_constpush tx val =
     (if sint val < 0 then ci_code_generic_opcode tx (OC_NEG_CONSTPUSH SZ_B) (- val)
      else ci_code_generic_opcode tx (OC_CONSTPUSH SZ_B) val)"

section \<open>Operand sizes\<close>

text \<open>\<open>ci_operand_size\<close>: the bytes that follow an opcode in the text; \<open>ncase\<close> is \<open>GETWORD(text)\<close>,
  which only the switch opcodes look at.  \<open>None\<close> is the panic for an opcode the function does not
  know.\<close>

fun ci_operand_size :: "opcode \<Rightarrow> nat \<Rightarrow> nat option" where
  "ci_operand_size opc ncase =
     (case snd (snd (Optab ! opcode_num opc)) of
        OS_ZERO \<Rightarrow> Some 0
      | OS_BYTE \<Rightarrow> Some 1
      | OS_WORD \<Rightarrow> Some 2
      | OS_LONG \<Rightarrow> Some 4
      | OS_QUAD \<Rightarrow> Some 8
      | OS_OTHER \<Rightarrow>
          (case opc of
             OC_CALL SZ_B \<Rightarrow> Some (1 + 1 + 1)
           | OC_CALL SZ_W \<Rightarrow> Some (2 + 1 + 1)
           | OC_CALL SZ_L \<Rightarrow> Some (4 + 1 + 1)
           | OC_CALL SZ_Q \<Rightarrow> Some (8 + 1 + 1)
           | OC_CALL_INDIRECT \<Rightarrow> Some (1 + 1)
           | OC_LINK SZ_B \<Rightarrow> Some (1 + 4)
           | OC_LINK SZ_W \<Rightarrow> Some (2 + 4)
           | OC_LINK SZ_L \<Rightarrow> Some (4 + 4)
           | OC_LINK SZ_Q \<Rightarrow> Some (8 + 4)
           | OC_PUSH_FLOAT_CONST \<Rightarrow> Some 4
           | OC_PUSH_DOUBLE_CONST \<Rightarrow> Some 8
           | OC_INSERT_SIGNED_BITFIELD \<Rightarrow> Some 2
           | OC_EXTRACT_SIGNED_BITFIELD \<Rightarrow> Some 2
           | OC_INSERT_UNSIGNED_BITFIELD \<Rightarrow> Some 2
           | OC_EXTRACT_UNSIGNED_BITFIELD \<Rightarrow> Some 2
           | OC_JUMP \<Rightarrow> Some 2
           | OC_JUMP_IF_ZERO \<Rightarrow> Some 2
           | OC_JUMP_IF_NON_ZERO \<Rightarrow> Some 2
           | OC_SWITCH_ON_TABLE \<Rightarrow> Some (2 + 4 + ncase * 2 + 2)
           | OC_SWITCH_ON_CHAIN SZ_B \<Rightarrow> Some (2 + 4 + ncase * (1 + 2) + 2)
           | OC_SWITCH_ON_CHAIN SZ_W \<Rightarrow> Some (2 + 4 + ncase * (2 + 2) + 2)
           | OC_SWITCH_ON_CHAIN SZ_L \<Rightarrow> Some (2 + 4 + ncase * (4 + 2) + 2)
           | OC_SWITCH_ON_CHAIN SZ_Q \<Rightarrow> Some (2 + 4 + ncase * (8 + 2) + 2)
           | _ \<Rightarrow> None))"

section \<open>Branch labels\<close>

definition NO_LABELDESC :: nat where "NO_LABELDESC = 0xffff"
definition MAX_LABELDESC :: nat where "MAX_LABELDESC = 0xfffe"

text \<open>The first free slot of the label table.\<close>

fun free_label :: "branch_label option list \<Rightarrow> nat" where
  "free_label [] = 0"
| "free_label (None # ls) = 0"
| "free_label (Some l # ls) = Suc (free_label ls)"

definition make_label :: "text_t \<Rightarrow> text_t \<times> nat" where
  "make_label tx =
     (let labeldesc = free_label (tx_labels tx);
          tx = (if labeldesc = tx_labellim tx
                then tx\<lparr>tx_labellim := tx_labellim tx + 50,
                        tx_labels := tx_labels tx @ replicate 50 None\<rparr>
                else tx)
      in (tx\<lparr>tx_labels := (tx_labels tx)[labeldesc := Some \<lparr>lb_addr = 0, lb_refs = []\<rparr>]\<rparr>, labeldesc))"

definition labeldesc_to_label :: "text_t \<Rightarrow> nat \<Rightarrow> branch_label option" where
  "labeldesc_to_label tx ld =
     (if ld > MAX_LABELDESC \<or> ld \<ge> tx_labellim tx then None else tx_labels tx ! ld)"

definition add_label_reference :: "text_t \<Rightarrow> nat \<Rightarrow> nat \<Rightarrow> text_t option" where
  "add_label_reference tx ld location =
     do { lb \<leftarrow> labeldesc_to_label tx ld;
          Some (tx\<lparr>tx_labels := (tx_labels tx)[ld := Some (lb\<lparr>lb_refs := location # lb_refs lb\<rparr>)]\<rparr>) }"

definition set_label_addr :: "text_t \<Rightarrow> nat \<Rightarrow> nat \<Rightarrow> text_t option" where
  "set_label_addr tx ld a =
     do { lb \<leftarrow> labeldesc_to_label tx ld;
          if lb_addr lb \<noteq> 0 then None
          else Some (tx\<lparr>tx_labels := (tx_labels tx)[ld := Some (lb\<lparr>lb_addr := a\<rparr>)]\<rparr>) }"

text \<open>The loop over a label's references: each gets the distance from itself to the label, which
  must fit a \<open>short\<close>.\<close>

fun patch_refs :: "text_t \<Rightarrow> nat \<Rightarrow> nat list \<Rightarrow> text_t option" where
  "patch_refs tx a [] = Some tx"
| "patch_refs tx a (r # rs) =
     (let offset = (of_nat a - of_nat r :: word64) in
      if signed_take_bit 15 offset \<noteq> offset then None
      else do { tx \<leftarrow> ci_code_word (tx\<lparr>tx_pc := r\<rparr>) (take_bit 16 offset); patch_refs tx a rs })"

definition ci_resolve_and_free_label :: "text_t \<Rightarrow> nat \<Rightarrow> text_t option" where
  "ci_resolve_and_free_label tx ld =
     do { lb \<leftarrow> labeldesc_to_label tx ld;
          let a = (if lb_addr lb = 0 then tx_pc tx else lb_addr lb);
          tx' \<leftarrow> patch_refs tx a (lb_refs lb);
          Some (tx'\<lparr>tx_pc := tx_pc tx, tx_labels := (tx_labels tx)[ld := None]\<rparr>) }"

definition ci_code_jump_to_label :: "text_t \<Rightarrow> opcode \<Rightarrow> nat \<Rightarrow> (text_t \<times> nat) option" where
  "ci_code_jump_to_label tx opc ld =
     (let (tx, ld) = (if ld = NO_LABELDESC then make_label tx else (tx, ld)) in
      do { tx \<leftarrow> ci_code_opcode tx opc;
           tx \<leftarrow> add_label_reference tx ld (tx_pc tx);
           tx \<leftarrow> ci_code_word tx (of_nat ld);
           Some (tx, ld) })"

lemmas [text_defs] =
  ci_code_byte_def ci_code_word_def ci_code_long_def ci_code_quad_def
  code_opcode_tail_def code_generic_def ci_code_opcode_def ci_code_generic_opcode_def
  ci_code_constpush_def

lemma ucast_byte_word64 [simp]: "ucast (ucast (b :: byte) :: word64) = b"
  by (rule bit_word_eqI) (simp add: bit_simps)

lemma and_masks:
  "(w :: word64) AND 0xff = take_bit 8 w"
  "(w :: word64) AND 0xffff = take_bit 16 w"
  "(w :: word64) AND 0xffffffff = take_bit 32 w"
  by (simp_all add: take_bit_eq_mask mask_eq_exp_minus_1)

section \<open>What is written\<close>

text \<open>The written cells of the buffer, and a cell map with a run of bytes laid over it.\<close>

definition cells :: "text_t \<Rightarrow> nat \<Rightarrow> byte option" where
  "cells tx i = (if i < length (tx_text tx) then tx_text tx ! i else None)"

definition overlay :: "(nat \<Rightarrow> byte option) \<Rightarrow> nat \<Rightarrow> byte list \<Rightarrow> nat \<Rightarrow> byte option" where
  "overlay f p bs = (\<lambda>i. if p \<le> i \<and> i < p + length bs then Some (bs ! (i - p)) else f i)"

text \<open>Writing a sequence of bytes one after the other.\<close>

fun code_seq :: "('tx \<Rightarrow> word64 \<Rightarrow> 'tx option) \<Rightarrow> 'tx \<Rightarrow> byte list \<Rightarrow> 'tx option" where
  "code_seq f tx [] = Some tx"
| "code_seq f tx (b # bs) = do { tx \<leftarrow> f tx (ucast b); code_seq f tx bs }"

lemma code_seq_append:
  "code_seq f tx (xs @ ys) = do { tx \<leftarrow> code_seq f tx xs; code_seq f tx ys }"
  by (induction xs arbitrary: tx) simp_all

lemma overlay_Nil [simp]: "overlay f p [] = f"
  by (rule ext) (auto simp: overlay_def)

lemma overlay_Cons: "overlay f p (b # bs) = overlay (f(p \<mapsto> b)) (Suc p) bs"
  by (rule ext) (auto simp: overlay_def nth_Cons')

lemma overlay_append: "overlay f p (xs @ ys) = overlay (overlay f p xs) (p + length xs) ys"
  by (induction xs arbitrary: f p) (simp_all add: overlay_Cons)

lemma overlay_outside: "i < p \<or> p + length bs \<le> i \<Longrightarrow> overlay f p bs i = f i"
  by (auto simp: overlay_def)

lemma overlay_inside: "k < length bs \<Longrightarrow> overlay f p bs (p + k) = Some (bs ! k)"
  by (simp add: overlay_def)

text \<open>
  The contract of a code emitter: writing one byte puts it at the current position, moves the
  position on, and leaves every other cell and the rest of the state (\<open>frame\<close>) as they were.
\<close>

locale code_emitter =
  fixes code_byte :: "'tx \<Rightarrow> word64 \<Rightarrow> 'tx option"
    and ok :: "'tx \<Rightarrow> bool"
    and cell :: "'tx \<Rightarrow> nat \<Rightarrow> byte option"
    and pos :: "'tx \<Rightarrow> nat"
    and frame :: "'tx \<Rightarrow> 'f"
  assumes byte_ok: "ok tx \<Longrightarrow> code_byte tx b = Some tx' \<Longrightarrow> ok tx'"
    and byte_cell: "ok tx \<Longrightarrow> code_byte tx b = Some tx' \<Longrightarrow> cell tx' = (cell tx)(pos tx \<mapsto> ucast b)"
    and byte_pos: "ok tx \<Longrightarrow> code_byte tx b = Some tx' \<Longrightarrow> pos tx' = Suc (pos tx)"
    and byte_frame: "ok tx \<Longrightarrow> code_byte tx b = Some tx' \<Longrightarrow> frame tx' = frame tx"
begin

lemma seq_written:
  assumes "ok tx" and "code_seq code_byte tx bs = Some tx'"
  shows "ok tx' \<and> cell tx' = overlay (cell tx) (pos tx) bs \<and> pos tx' = pos tx + length bs
         \<and> frame tx' = frame tx"
  using assms
proof (induction bs arbitrary: tx)
  case (Cons b bs)
  then obtain tx1 where 1: "code_byte tx (ucast b) = Some tx1" and 2: "code_seq code_byte tx1 bs = Some tx'"
    by (auto simp: mem_simps)
  from byte_ok[OF Cons.prems(1) 1] byte_cell[OF Cons.prems(1) 1] byte_pos[OF Cons.prems(1) 1]
    byte_frame[OF Cons.prems(1) 1] Cons.IH[OF _ 2]
  show ?case by (simp add: overlay_Cons fun_upd_def)
qed simp

end

lemma double_pclim_grows:
  "double_pclim pc lim = Some l \<Longrightarrow> pc < l \<and> lim \<le> l"
proof (induction pc lim rule: double_pclim.induct)
  case (1 pc lim)
  then show ?case
    by (auto simp: double_pclim.simps[of pc lim] split: if_splits)
qed

text \<open>The doubling loop ends whenever the buffer is not empty.\<close>

lemma double_pclim_total: "0 < lim \<Longrightarrow> \<exists>l. double_pclim pc lim = Some l"
proof (induction pc lim rule: double_pclim.induct)
  case (1 pc lim)
  then show ?case by (cases "pc < 2 * lim") (auto simp: double_pclim.simps[of pc lim])
qed

lemma grow_text_props:
  assumes "text_ok tx" and "grow_text tx = Some tx'"
  shows "text_ok tx'" and "cells tx' = cells tx" and "tx_pc tx' = tx_pc tx" and "tx_pc tx < length (tx_text tx')"
    and "tx' = tx\<lparr>tx_text := tx_text tx', tx_pclim := tx_pclim tx'\<rparr>"
  using assms double_pclim_grows[of "tx_pc tx" "tx_pclim tx"]
  by (auto simp: grow_text_def realloc_text_def text_ok_def cells_def fun_eq_iff nth_append mem_simps split: if_splits)

lemma ci_code_byte_props:
  assumes "text_ok tx" and "ci_code_byte tx b = Some tx'"
  shows "text_ok tx'" and "cells tx' = (cells tx)(tx_pc tx \<mapsto> ucast b)"
    and "tx_pc tx' = Suc (tx_pc tx)"
    and "tx' = tx\<lparr>tx_text := tx_text tx', tx_pclim := tx_pclim tx', tx_pc := tx_pc tx'\<rparr>"
    and "b < 256"
proof -
  from assms(2) obtain t where t: "grow_text tx = Some t" and b: "ucast (ucast b :: byte) = b"
    and tx': "tx' = t\<lparr>tx_text := (tx_text t)[tx_pc t := Some (ucast b)], tx_pc := tx_pc t + 1\<rparr>"
    by (auto simp: ci_code_byte_def mem_simps split: if_splits)
  note g = grow_text_props[OF assms(1) t]
  show "text_ok tx'" using g(1) by (simp add: tx' text_ok_def)
  show "cells tx' = (cells tx)(tx_pc tx \<mapsto> ucast b)"
    using g(2,3,4) by (auto simp: tx' cells_def fun_eq_iff nth_list_update split: if_splits)
  show "tx_pc tx' = Suc (tx_pc tx)" using g(3) by (simp add: tx')
  show "tx' = tx\<lparr>tx_text := tx_text tx', tx_pclim := tx_pclim tx', tx_pc := tx_pc tx'\<rparr>"
    using g(5) unfolding tx' by (cases t, cases tx) simp
  have "(ucast (c :: byte) :: word64) < 256" for c
  proof -
    have c: "unat c < 2 ^ LENGTH(8)" by (rule unsigned_less)
    then have "take_bit 64 (unat c) = unat c" by (simp add: take_bit_nat_eq_self)
    with c show ?thesis by (simp add: word_less_nat_alt unsigned_ucast_eq)
  qed
  from this[of "ucast b"] show "b < 256" by (simp only: b)
qed

text \<open>Everything but the buffer and the position in it.\<close>

definition text_frame :: "text_t \<Rightarrow> text_t" where
  "text_frame tx = tx\<lparr>tx_text := [], tx_pclim := 0, tx_pc := 0\<rparr>"

lemma ci_code_byte_frame: "text_ok tx \<Longrightarrow> ci_code_byte tx b = Some tx' \<Longrightarrow> text_frame tx' = text_frame tx"
  by (subst ci_code_byte_props(4)) (simp_all add: text_frame_def)

interpretation code: code_emitter ci_code_byte text_ok cells tx_pc text_frame
  by unfold_locales (fact ci_code_byte_props ci_code_byte_frame)+

text \<open>Words, longs and quads are written least significant byte first.\<close>

lemma ci_code_word_seq: "ci_code_word tx w = code_seq ci_code_byte tx (bytes_of 2 w)"
proof -
  have 1: "ucast (ucast w :: byte) = take_bit 8 w"
    by (rule bit_word_eqI) (auto simp: bit_simps)
  have 2: "ucast (ucast (drop_bit 8 w) :: byte) = take_bit 8 (signed_drop_bit 8 w)"
    by (rule bit_word_eqI) (auto simp: bit_simps)
  show ?thesis
    by (simp add: ci_code_word_def numeral_2_eq_2 bytes_of_Suc 1 2 and_masks)
qed

lemma bytes_of_split:
  "bytes_of (n + k) w = bytes_of n (take_bit (8 * n) w) @ bytes_of k (take_bit (8 * k) (signed_drop_bit (8 * n) w))"
  (is "?l = ?r") if "n + k \<le> 8"
proof (rule nth_equalityI)
  fix i assume "i < length ?l"
  then have i: "i < n + k" by simp
  show "?l ! i = ?r ! i"
  proof (cases "i < n")
    case True
    then show ?thesis
      by (auto simp: bytes_of_def nth_append intro!: bit_word_eqI simp: bit_simps)
  next
    case False
    then obtain j where j: "i = n + j" using le_Suc_ex linorder_not_less by blast
    have "bit w (8 * i + b) = bit (take_bit (8 * k) (signed_drop_bit (8 * n) w)) (8 * j + b)" if "b < 8" for b
    proof -
      have "8 * i + b = 8 * n + (8 * j + b)" and "8 * j + b < 8 * k" and "8 * n + (8 * j + b) < 64"
        and "\<not> 64 - 8 * n \<le> 8 * j + b"
        using i j that \<open>n + k \<le> 8\<close> by auto
      then show ?thesis
        by (simp add: bit_take_bit_iff bit_signed_drop_bit_iff add.assoc)
    qed
    with i j show ?thesis
      by (auto simp: bytes_of_def nth_append bit_ucast_iff bit_drop_bit_eq intro!: bit_word_eqI)
  qed
qed simp

lemma ci_code_long_seq: "ci_code_long tx w = code_seq ci_code_byte tx (bytes_of 4 w)"
  using bytes_of_split[of 2 2 w]
  by (simp add: ci_code_long_def ci_code_word_seq code_seq_append and_masks)

lemma ci_code_quad_seq: "ci_code_quad tx w = code_seq ci_code_byte tx (bytes_of 8 w)"
  using bytes_of_split[of 4 4 w]
  by (simp add: ci_code_quad_def ci_code_long_seq code_seq_append and_masks)

section \<open>What an instruction looks like in the text\<close>

text \<open>The bytes of an opcode and of an operand of each width.\<close>

definition opcode_bytes :: "opcode \<Rightarrow> byte list" where
  "opcode_bytes opc = bytes_of 2 (of_nat (opcode_num opc))"

lemma length_opcode_bytes [simp]: "length (opcode_bytes opc) = 2"
  by (simp add: opcode_bytes_def)

lemma word_of_opcode_bytes: "word_of (opcode_bytes opc) = of_nat (opcode_num opc)"
proof -
  have "opcode_num opc < 2 ^ 16" using opcode_num_bound[of opc] by (simp add: NUM_OPCODES_def)
  then show ?thesis
    by (simp add: opcode_bytes_def word_of_bytes_of take_bit_of_nat take_bit_nat_eq_self)
qed

text \<open>\<open>emits tx bs tx'\<close>: \<open>tx'\<close> is \<open>tx\<close> with \<open>bs\<close> written at its position.\<close>

definition emits :: "text_t \<Rightarrow> byte list \<Rightarrow> text_t \<Rightarrow> bool" where
  "emits tx bs tx' \<longleftrightarrow>
     text_ok tx' \<and> cells tx' = overlay (cells tx) (tx_pc tx) bs \<and> tx_pc tx' = tx_pc tx + length bs"

lemma emits_trans: "emits a bs b \<Longrightarrow> emits b cs c \<Longrightarrow> emits a (bs @ cs) c"
  by (simp add: emits_def overlay_append)

lemma code_seq_emits:
  assumes "text_ok tx" and "code_seq ci_code_byte tx bs = Some tx'"
  shows "emits tx bs tx'" and "text_frame tx' = text_frame tx"
  using code.seq_written[OF assms] by (simp_all add: emits_def)

lemmas ci_code_seqs = ci_code_word_seq ci_code_long_seq ci_code_quad_seq

text \<open>Room for \<open>n\<close> more bytes: they fit, or the buffer can grow.\<close>

definition room :: "text_t \<Rightarrow> nat \<Rightarrow> bool" where
  "room tx n \<longleftrightarrow> tx_pc tx + n \<le> tx_pclim tx \<or> tx_text_malloced tx \<and> 0 < tx_pclim tx"

lemma room_mono: "room tx n \<Longrightarrow> k \<le> n \<Longrightarrow> room tx k"
  by (auto simp: room_def)

lemma grow_text_total:
  assumes "text_ok tx" and "room tx (Suc n)"
  shows "\<exists>t. grow_text tx = Some t \<and> tx_text_malloced t = tx_text_malloced tx \<and> tx_pclim tx \<le> tx_pclim t"
proof (cases "tx_pc tx < tx_pclim tx")
  case False
  with assms(2) have m: "tx_text_malloced tx" and lim: "0 < tx_pclim tx" by (auto simp: room_def)
  from double_pclim_total[OF lim] obtain l where l: "double_pclim (tx_pc tx) (tx_pclim tx) = Some l" by blast
  with False m double_pclim_grows[OF l] show ?thesis by (simp add: grow_text_def realloc_text_def)
qed (simp add: grow_text_def realloc_text_def)

lemma ci_code_byte_total:
  assumes "text_ok tx" and "room tx (Suc n)"
  shows "\<exists>tx'. ci_code_byte tx (ucast (b :: byte)) = Some tx' \<and> room tx' n"
proof -
  obtain t where t: "grow_text tx = Some t" "tx_text_malloced t = tx_text_malloced tx" "tx_pclim tx \<le> tx_pclim t"
    using grow_text_total[OF assms] by blast
  note g = grow_text_props[OF assms(1) t(1)]
  show ?thesis
    using assms(2) t g(1,3,4) by (auto simp: ci_code_byte_def room_def)
qed

lemma code_seq_total:
  "text_ok tx \<Longrightarrow> room tx (length bs) \<Longrightarrow> \<exists>tx'. code_seq ci_code_byte tx bs = Some tx'"
proof (induction bs arbitrary: tx)
  case (Cons b bs)
  obtain t where t: "ci_code_byte tx (ucast b) = Some t" "room t (length bs)"
    using ci_code_byte_total[OF Cons.prems(1), of "length bs" b] Cons.prems(2) by auto
  with Cons.IH[of t] code.byte_ok[OF Cons.prems(1) t(1)] show ?case by auto
qed simp

section \<open>Opcodes with an operand\<close>

text \<open>The families of opcodes that differ in the operand width only, in enumeration order.\<close>

definition sized :: "(isz \<Rightarrow> opcode) \<Rightarrow> bool" where
  "sized f \<longleftrightarrow> opcode_num (f SZ_W) = opcode_num (f SZ_B) + 1 \<and> opcode_num (f SZ_L) = opcode_num (f SZ_B) + 2
     \<and> opcode_num (f SZ_Q) = opcode_num (f SZ_B) + 3"

lemma sized_families [simp]:
  "sized OC_CALL" "sized OC_POPMANY" "sized OC_LINK" "sized OC_PROC_MEMCPY" "sized OC_MEMCPY"
  "sized OC_NEG_CONSTPUSH" "sized OC_CONSTPUSH" "sized OC_CHECK_SP" "sized OC_PROC_PUSH_FP_ADDR"
  "sized OC_PROC_PUSH_AP_ADDR" "sized OC_PROC_PUSH_SP_ADDR" "sized OC_PROC_PUSH_CFA_ADDR"
  "sized OC_PUSH_STACKADDR" "sized OC_SWITCH_ON_CHAIN"
  "sized (OC_PUSH_AT_ADDR t)" "sized (OC_PUSH_AT_STACKADDR t)"
  by (simp_all add: sized_def)

lemma opcode_plus_sized:
  assumes "sized f"
  shows "opcode_plus (f SZ_B) BYTE_FORM_OFFSET = Some (f SZ_B)"
    and "opcode_plus (f SZ_B) SHORT_FORM_OFFSET = Some (f SZ_W)"
    and "opcode_plus (f SZ_B) LONG_FORM_OFFSET = Some (f SZ_L)"
    and "opcode_plus (f SZ_B) QUAD_FORM_OFFSET = Some (f SZ_Q)"
proof -
  have "opcode_num (f SZ_W) = opcode_num (f SZ_B) + 1" "opcode_num (f SZ_L) = opcode_num (f SZ_B) + 2"
    "opcode_num (f SZ_Q) = opcode_num (f SZ_B) + 3"
    using assms by (auto simp: sized_def)
  then show "opcode_plus (f SZ_B) BYTE_FORM_OFFSET = Some (f SZ_B)"
    and "opcode_plus (f SZ_B) SHORT_FORM_OFFSET = Some (f SZ_W)"
    and "opcode_plus (f SZ_B) LONG_FORM_OFFSET = Some (f SZ_L)"
    and "opcode_plus (f SZ_B) QUAD_FORM_OFFSET = Some (f SZ_Q)"
    by (simp_all add: opcode_plus_def BYTE_FORM_OFFSET_def SHORT_FORM_OFFSET_def LONG_FORM_OFFSET_def
        QUAD_FORM_OFFSET_def nat_add_distrib opcode_of_Some_iff)
qed

text \<open>The width the code generator chooses: the narrowest that holds the operand.\<close>

definition form_of :: "word64 \<Rightarrow> isz" where
  "form_of arg = (if arg \<le> 0xff then SZ_B else if arg \<le> 0xffff then SZ_W
                  else if arg \<le> 0xffffffff then SZ_L else SZ_Q)"

definition operand_bytes :: "word64 \<Rightarrow> byte list" where
  "operand_bytes arg = bytes_of (case form_of arg of SZ_B \<Rightarrow> 1 | SZ_W \<Rightarrow> 2 | SZ_L \<Rightarrow> 4 | SZ_Q \<Rightarrow> 8) arg"

lemma code_byte_operand: "arg \<le> 0xff \<Longrightarrow> ci_code_byte tx arg = code_seq ci_code_byte tx (bytes_of 1 arg)"
proof -
  assume "arg \<le> 0xff"
  then have "unat arg < 2 ^ 8" by (simp add: word_le_nat_alt)
  then have "take_bit 8 arg = arg"
    by (simp add: word_unat_eq_iff unsigned_take_bit_eq take_bit_nat_eq_self)
  moreover have "ucast (ucast arg :: byte) = take_bit 8 arg"
    by (rule bit_word_eqI) (auto simp: bit_simps)
  ultimately have "ucast (ucast arg :: byte) = arg" by simp
  then show ?thesis by (simp add: bytes_of_Suc)
qed

lemma code_generic_eq:
  assumes "sized f"
  shows "code_generic code_op tx (f SZ_B) arg =
     do { tx \<leftarrow> code_op tx (f (form_of arg)); code_seq ci_code_byte tx (operand_bytes arg) }"
  using code_byte_operand[of arg]
  by (simp add: code_generic_def opcode_plus_sized[OF assms] form_of_def operand_bytes_def ci_code_seqs)

text \<open>
  The static stack accounting of \<open>ci_code_opcode\<close>: the depth moves by the table's entry, its maximum
  is kept, a call counting one word extra.
\<close>

definition track_sp :: "opcode \<Rightarrow> text_t \<Rightarrow> text_t" where
  "track_sp opc tx =
     (let sp = tx_sp tx + of_int (op_effect opc);
          peak = sp + (case opc of OC_CALL _ \<Rightarrow> 8 | _ \<Rightarrow> 0)
      in tx\<lparr>tx_sp := sp, tx_max_sp := max (tx_max_sp tx) peak\<rparr>)"

lemma track_sp_same [simp]:
  "text_ok (track_sp opc tx) = text_ok tx" "cells (track_sp opc tx) = cells tx"
  "tx_pc (track_sp opc tx) = tx_pc tx" "tx_flags (track_sp opc tx) = tx_flags tx"
  "room (track_sp opc tx) n = room tx n" "tx_sp (track_sp opc tx) = tx_sp tx + of_int (op_effect opc)"
  by (auto simp: track_sp_def Let_def text_ok_def cells_def fun_eq_iff room_def)

lemma code_opcode_tail_eq:
  "code_opcode_tail tx opc = code_seq ci_code_byte (track_sp opc tx) (opcode_bytes opc)"
  by (simp add: code_opcode_tail_def track_sp_def opcode_bytes_def Optab_opcode_num Let_def max_def
      ci_code_word_seq not_le less_le)

text \<open>The recursion of the source: \<open>ci_code_opcode\<close> uses \<open>ci_code_generic_opcode\<close> for the run-time stack
  check, which uses \<open>ci_code_opcode\<close>.\<close>

lemma ci_code_opcode_rec:
  "ci_code_opcode tx opc =
     do { tx \<leftarrow> (if tx_flags tx AND CI_CP_CHECKSP \<noteq> 0 \<and> \<not> sp_check_exempt opc
                then ci_code_generic_opcode tx (OC_CHECK_SP SZ_B) (tx_sp tx)
                else Some tx);
          code_opcode_tail tx opc }"
proof -
  have "ci_code_opcode t (OC_CHECK_SP sz) = code_opcode_tail t (OC_CHECK_SP sz)" for t sz
    by (simp add: ci_code_opcode_def)
  then have "ci_code_generic_opcode t (OC_CHECK_SP SZ_B) arg = code_generic code_opcode_tail t (OC_CHECK_SP SZ_B) arg"
    for t arg
    by (simp add: ci_code_generic_opcode_def code_generic_eq)
  then show ?thesis by (subst ci_code_opcode_def) simp
qed

lemma ci_code_opcode_unchecked:
  "tx_flags tx AND CI_CP_CHECKSP = 0 \<Longrightarrow> ci_code_opcode tx opc = code_opcode_tail tx opc"
  by (simp add: ci_code_opcode_def)

text \<open>The run-time check that precedes an instruction when stack checks are wanted.\<close>

definition check_bytes :: "text_t \<Rightarrow> opcode \<Rightarrow> byte list" where
  "check_bytes tx opc =
     (if tx_flags tx AND CI_CP_CHECKSP \<noteq> 0 \<and> \<not> sp_check_exempt opc
      then opcode_bytes (OC_CHECK_SP (form_of (tx_sp tx))) @ operand_bytes (tx_sp tx) else [])"

definition check_track :: "text_t \<Rightarrow> opcode \<Rightarrow> text_t" where
  "check_track tx opc =
     (if tx_flags tx AND CI_CP_CHECKSP \<noteq> 0 \<and> \<not> sp_check_exempt opc
      then track_sp (OC_CHECK_SP (form_of (tx_sp tx))) tx else tx)"

lemma op_effect_sized_check [simp]: "op_effect (OC_CHECK_SP sz) = 0"
  by simp

lemma check_track_same [simp]:
  "text_ok (check_track tx opc) = text_ok tx" "cells (check_track tx opc) = cells tx"
  "tx_pc (check_track tx opc) = tx_pc tx" "tx_flags (check_track tx opc) = tx_flags tx"
  "room (check_track tx opc) n = room tx n" "tx_sp (check_track tx opc) = tx_sp tx"
  by (simp_all add: check_track_def)

text \<open>Writing commutes with the accounting, which only touches the two stack fields.\<close>

lemma grow_text_track: "grow_text (track_sp opc tx) = map_option (track_sp opc) (grow_text tx)"
  by (cases "double_pclim (tx_pc tx) (tx_pclim tx)") (auto simp: grow_text_def realloc_text_def track_sp_def Let_def)

lemma ci_code_byte_track: "ci_code_byte (track_sp opc tx) b = map_option (track_sp opc) (ci_code_byte tx b)"
proof -
  have [simp]: "tx_text (track_sp opc t) = tx_text t"
      "(track_sp opc t)\<lparr>tx_text := x, tx_pc := i\<rparr> = track_sp opc (t\<lparr>tx_text := x, tx_pc := i\<rparr>)" for t x i
    by (simp_all add: track_sp_def Let_def)
  show ?thesis by (cases "grow_text tx") (auto simp: ci_code_byte_def grow_text_track)
qed

lemma code_seq_track:
  "code_seq ci_code_byte (track_sp opc tx) bs = map_option (track_sp opc) (code_seq ci_code_byte tx bs)"
proof (induction bs arbitrary: tx)
  case (Cons b bs)
  then show ?case by (cases "ci_code_byte tx (ucast b)") (simp_all add: ci_code_byte_track)
qed simp

lemma track_sp_code_seq:
  "map_option (track_sp opc) (code_seq ci_code_byte tx bs) = code_seq ci_code_byte (track_sp opc tx) bs"
  by (simp add: code_seq_track)

text \<open>An opcode, with what may precede it, is one run of bytes.\<close>

lemma ci_code_opcode_eq:
  "ci_code_opcode tx opc =
     code_seq ci_code_byte (track_sp opc (check_track tx opc)) (check_bytes tx opc @ opcode_bytes opc)"
proof (cases "tx_flags tx AND CI_CP_CHECKSP \<noteq> 0 \<and> \<not> sp_check_exempt opc")
  case True
  let ?t = "track_sp (OC_CHECK_SP (form_of (tx_sp tx))) tx"
  have "code_generic code_opcode_tail tx (OC_CHECK_SP SZ_B) (tx_sp tx) =
      code_seq ci_code_byte ?t (opcode_bytes (OC_CHECK_SP (form_of (tx_sp tx))) @ operand_bytes (tx_sp tx))"
    (is "_ = code_seq _ _ ?bs")
    by (simp add: code_generic_eq code_opcode_tail_eq code_seq_append)
  with True show ?thesis
    by (cases "code_seq ci_code_byte ?t ?bs")
      (simp_all add: ci_code_opcode_def code_opcode_tail_eq code_seq_append[of _ _ ?bs]
        code_seq_track[of opc] check_track_def check_bytes_def del: append_assoc)
next
  case False
  then show ?thesis
    by (auto simp: ci_code_opcode_def code_opcode_tail_eq check_track_def check_bytes_def)
qed

lemma ci_code_generic_opcode_eq:
  assumes "sized f"
  shows "ci_code_generic_opcode tx (f SZ_B) arg =
     (let opc = f (form_of arg) in
      code_seq ci_code_byte (track_sp opc (check_track tx opc))
        (check_bytes tx opc @ opcode_bytes opc @ operand_bytes arg))"
  by (simp add: ci_code_generic_opcode_def code_generic_eq[OF assms] ci_code_opcode_eq Let_def
      code_seq_append flip: append_assoc)

text \<open>An operand read back.\<close>

lemma word_of_operand_bytes: "word_of (operand_bytes arg) = arg"
proof -
  have "unat arg < 2 ^ (8 * n) \<Longrightarrow> n \<le> 8 \<Longrightarrow> word_of (bytes_of n arg) = arg" for n
    by (simp add: word_of_bytes_of word_unat_eq_iff unsigned_take_bit_eq take_bit_nat_eq_self)
  from this[of 1] this[of 2] this[of 4] show ?thesis
    by (auto simp: operand_bytes_def form_of_def word_le_nat_alt)
qed

lemma length_operand_bytes:
  "length (operand_bytes arg) = (case form_of arg of SZ_B \<Rightarrow> 1 | SZ_W \<Rightarrow> 2 | SZ_L \<Rightarrow> 4 | SZ_Q \<Rightarrow> 8)"
  by (simp add: operand_bytes_def)

lemma length_operand_bytes_le: "length (operand_bytes arg) \<le> 8"
  by (simp add: length_operand_bytes split: isz.split)

lemma ci_code_constpush_eq:
  "ci_code_constpush tx val =
     (let arg = (if sint val < 0 then - val else val);
          opc = (if sint val < 0 then OC_NEG_CONSTPUSH else OC_CONSTPUSH) (form_of arg)
      in code_seq ci_code_byte (track_sp opc (check_track tx opc))
           (check_bytes tx opc @ opcode_bytes opc @ operand_bytes arg))"
  by (simp add: ci_code_constpush_def ci_code_generic_opcode_eq Let_def)

section \<open>Branch labels\<close>

text \<open>Reference locations: two bytes each, inside the written text, not overlapping.\<close>

definition refs_ok :: "nat \<Rightarrow> nat list \<Rightarrow> bool" where
  "refs_ok lim rs \<longleftrightarrow> (\<forall>r\<in>set rs. r + 2 \<le> lim) \<and> sorted_wrt (\<lambda>r q. r + 2 \<le> q \<or> q + 2 \<le> r) rs"

definition branch_offset :: "nat \<Rightarrow> nat \<Rightarrow> word64" where
  "branch_offset a r = of_nat a - of_nat r"

definition fits_short :: "word64 \<Rightarrow> bool" where
  "fits_short w \<longleftrightarrow> signed_take_bit 15 w = w"

lemma bytes_of_take_bit: "bytes_of n (take_bit (8 * n) w) = bytes_of n w"
  by (rule nth_equalityI)
    (auto simp: bytes_of_def nth_append intro!: bit_word_eqI simp: bit_simps)

lemma bytes_2_take_bit [simp]: "bytes_of 2 (take_bit 16 w) = bytes_of 2 w"
  using bytes_of_take_bit[of 2 w] by simp

text \<open>Patching one reference.\<close>

lemma patch_one:
  assumes "text_ok tx" and "r + 2 \<le> tx_pclim tx"
  shows "\<exists>t. ci_code_word (tx\<lparr>tx_pc := r\<rparr>) w = Some t \<and> text_ok t \<and> tx_pclim t = tx_pclim tx
         \<and> cells t = overlay (cells tx) r (bytes_of 2 w) \<and> text_frame t = text_frame tx
         \<and> tx_text_malloced t = tx_text_malloced tx"
proof -
  let ?tx = "tx\<lparr>tx_pc := r\<rparr>"
  have ok: "text_ok ?tx" and rm: "room ?tx (length (bytes_of 2 w))"
    using assms by (auto simp: text_ok_def room_def)
  obtain t where t: "code_seq ci_code_byte ?tx (bytes_of 2 w) = Some t"
    using code_seq_total[OF ok rm] by blast
  have frame: "text_frame ?tx = text_frame tx" by (simp add: text_frame_def)
  have cells: "cells ?tx = cells tx" by (auto simp: cells_def fun_eq_iff)
  have grow: "\<And>x. tx_pc x < tx_pclim x \<Longrightarrow> grow_text x = Some x" by (simp add: grow_text_def realloc_text_def)
  have "tx_pclim t = tx_pclim tx \<and> tx_text_malloced t = tx_text_malloced tx"
    using t assms
    by (auto simp: numeral_2_eq_2 bytes_of_Suc ci_code_byte_def grow mem_simps text_ok_def split: if_splits)
  with code_seq_emits[OF ok t] t frame cells show ?thesis
    by (auto simp: emits_def ci_code_word_seq)
qed

lemma overlay_commute:
  assumes "r + length bs \<le> q \<or> q + length cs \<le> r"
  shows "overlay (overlay f r bs) q cs = overlay (overlay f q cs) r bs"
  using assms by (auto simp: overlay_def fun_eq_iff)

text \<open>What the loop over the references does: every reference gets its own distance.\<close>

fun patched :: "(nat \<Rightarrow> byte option) \<Rightarrow> nat \<Rightarrow> nat list \<Rightarrow> nat \<Rightarrow> byte option" where
  "patched f a [] = f"
| "patched f a (r # rs) = patched (overlay f r (bytes_of 2 (branch_offset a r))) a rs"

lemma patched_other: "(\<And>r. r \<in> set rs \<Longrightarrow> i < r \<or> r + 2 \<le> i) \<Longrightarrow> patched f a rs i = f i"
proof (induction rs arbitrary: f)
  case (Cons r rs)
  then show ?case by (simp add: overlay_outside)
qed simp

lemma patched_at:
  assumes "refs_ok lim rs" and "r \<in> set rs" and "k < 2"
  shows "patched f a rs (r + k) = Some (bytes_of 2 (branch_offset a r) ! k)"
  using assms
proof (induction rs arbitrary: f)
  case (Cons q rs)
  then have ok: "refs_ok lim rs" and apart: "\<And>p. p \<in> set rs \<Longrightarrow> q + 2 \<le> p \<or> p + 2 \<le> q"
    by (auto simp: refs_ok_def)
  show ?case
  proof (cases "r \<in> set rs")
    case True
    with Cons.IH[OF ok] Cons.prems(3) show ?thesis by simp
  next
    case False
    with Cons.prems(2) have [simp]: "q = r" by simp
    have "patched (overlay f r (bytes_of 2 (branch_offset a r))) a rs (r + k)
        = overlay f r (bytes_of 2 (branch_offset a r)) (r + k)"
      using apart Cons.prems(3) by (intro patched_other) fastforce
    with Cons.prems(3) show ?thesis by (simp add: overlay_inside)
  qed
qed simp

lemma patch_refs_written:
  assumes "text_ok tx" and "refs_ok (tx_pclim tx) rs" and "\<And>r. r \<in> set rs \<Longrightarrow> fits_short (branch_offset a r)"
  shows "\<exists>t. patch_refs tx a rs = Some t \<and> text_ok t \<and> cells t = patched (cells tx) a rs
         \<and> text_frame t = text_frame tx \<and> tx_pclim t = tx_pclim tx \<and> tx_text_malloced t = tx_text_malloced tx"
  using assms
proof (induction rs arbitrary: tx)
  case (Cons r rs)
  have r: "r + 2 \<le> tx_pclim tx" and fit: "fits_short (branch_offset a r)"
    using Cons.prems by (auto simp: refs_ok_def)
  obtain t where t: "ci_code_word (tx\<lparr>tx_pc := r\<rparr>) (take_bit 16 (branch_offset a r)) = Some t" "text_ok t"
    "tx_pclim t = tx_pclim tx" "cells t = overlay (cells tx) r (bytes_of 2 (branch_offset a r))"
    "text_frame t = text_frame tx" "tx_text_malloced t = tx_text_malloced tx"
    using patch_one[OF Cons.prems(1) r, of "take_bit 16 (branch_offset a r)"] by auto
  have "\<exists>u. patch_refs t a rs = Some u \<and> text_ok u \<and> cells u = patched (cells t) a rs
         \<and> text_frame u = text_frame t \<and> tx_pclim u = tx_pclim t \<and> tx_text_malloced u = tx_text_malloced t"
    using Cons.prems t(2,3) by (intro Cons.IH) (auto simp: refs_ok_def)
  with t fit show ?case by (auto simp: branch_offset_def fits_short_def Let_def)
qed simp

lemma patch_refs_misfit:
  assumes "r \<in> set rs" and "\<not> fits_short (branch_offset a r)"
  shows "patch_refs tx a rs = None"
  using assms by (induction rs arbitrary: tx) (auto simp: Let_def branch_offset_def fits_short_def bind_eq_None_conv)

lemma free_label_le: "free_label ls \<le> length ls"
  by (induction ls rule: free_label.induct) simp_all

lemma free_label_free: "free_label ls < length ls \<Longrightarrow> ls ! free_label ls = None"
  by (induction ls rule: free_label.induct) simp_all

lemma make_label_fresh:
  assumes "text_ok tx" and "make_label tx = (tx', ld)"
  shows "text_ok tx'" and "ld < tx_labellim tx'"
    and "tx_labels tx' ! ld = Some \<lparr>lb_addr = 0, lb_refs = []\<rparr>"
    and "ld < tx_labellim tx \<Longrightarrow> tx_labels tx ! ld = None"
    and "i < tx_labellim tx \<Longrightarrow> i \<noteq> ld \<Longrightarrow> tx_labels tx' ! i = tx_labels tx ! i"
    and "cells tx' = cells tx" and "tx_pc tx' = tx_pc tx" and "tx_labellim tx \<le> tx_labellim tx'"
  using assms free_label_le[of "tx_labels tx"] free_label_free[of "tx_labels tx"]
  by (auto simp: make_label_def Let_def text_ok_def cells_def fun_eq_iff nth_append nth_list_update
      split: if_splits)

section \<open>Properties\<close>

text \<open>C19.  \<open>ci_code_generic_opcode\<close> always succeeds when there is room, for every argument: it writes, after
  the stack check if one is wanted, the opcode of the narrowest form that holds the argument, two bytes,
  then the argument least significant byte first, which reads back as the argument, and moves the static
  stack depth by the table's entry for that opcode.\<close>

theorem ci_code_generic_opcode_writes:
  assumes "sized f" and "text_ok tx" and "room tx 20"
  shows "\<exists>tx'. ci_code_generic_opcode tx (f SZ_B) arg = Some tx'
    \<and> emits tx (check_bytes tx (f (form_of arg)) @ opcode_bytes (f (form_of arg)) @ operand_bytes arg) tx'
    \<and> word_of (opcode_bytes (f (form_of arg))) = of_nat (opcode_num (f (form_of arg)))
    \<and> word_of (operand_bytes arg) = arg
    \<and> tx_sp tx' = tx_sp tx + of_int (op_effect (f (form_of arg)))"
proof -
  let ?opc = "f (form_of arg)" and ?t = "track_sp (f (form_of arg)) (check_track tx (f (form_of arg)))"
  let ?bs = "check_bytes tx ?opc @ opcode_bytes ?opc @ operand_bytes arg"
  have "length ?bs \<le> 20"
    using length_operand_bytes_le[of arg] length_operand_bytes_le[of "tx_sp tx"] by (simp add: check_bytes_def)
  then have "text_ok ?t" and "room ?t (length ?bs)" using assms(2) room_mono[OF assms(3)] by simp_all
  then obtain tx' where tx': "code_seq ci_code_byte ?t ?bs = Some tx'"
    using code_seq_total by blast
  from code_seq_emits[OF \<open>text_ok ?t\<close> tx'] have "emits ?t ?bs tx'" and fr: "text_frame tx' = text_frame ?t" by auto
  moreover from arg_cong[OF fr, of tx_sp] have "tx_sp tx' = tx_sp ?t" by (simp add: text_frame_def)
  ultimately show ?thesis
    using tx' by (auto simp: ci_code_generic_opcode_eq[OF assms(1)] Let_def emits_def word_of_opcode_bytes
        word_of_operand_bytes)
qed

theorem ci_code_generic_opcode_writes_witness:
  "\<exists>tx'. ci_code_generic_opcode (initial_text 1 False [] [] None None) (OC_LINK SZ_B) 0x12345 = Some tx'
     \<and> emits (initial_text 1 False [] [] None None) (opcode_bytes (OC_LINK SZ_L) @ bytes_of 4 0x12345) tx'"
proof -
  have "text_ok (initial_text 1 False [] [] None None)" and "room (initial_text 1 False [] [] None None) 20"
    by (simp_all add: initial_text_def text_ok_def room_def)
  from ci_code_generic_opcode_writes[OF _ this, of OC_LINK "0x12345"]
  show ?thesis by (auto simp: form_of_def check_bytes_def operand_bytes_def)
qed

text \<open>C20.  The buffer that \<open>compile()\<close> takes from its allocation pool cannot grow.  Exactly 200 bytes can be written to the
  initial text.  The next byte makes \<open>ci_code_byte\<close> enlarge the buffer to 400 bytes by a \<open>realloc\<close> of the block, which
  is undefined because the block did not come from \<open>malloc\<close>; if it had, the buffer would grow and the byte would
  be written behind the others.\<close>

theorem pool_text_holds_200_bytes:
  assumes "length bs = 200"
  shows "\<exists>tx. code_seq ci_code_byte (initial_text flags hpv funcs vars ca ra) bs = Some tx \<and> tx_pc tx = 200
    \<and> grow_text tx = realloc_text tx 400 \<and> realloc_text tx 400 = None \<and> ci_code_byte tx (ucast (b :: byte)) = None
    \<and> (\<exists>tx'. ci_code_byte (tx\<lparr>tx_text_malloced := True\<rparr>) (ucast b) = Some tx' \<and> tx_pclim tx' = 400 \<and> tx_pc tx' = 201
         \<and> cells tx' = (cells tx)(200 \<mapsto> b))"
proof -
  let ?tx = "initial_text flags hpv funcs vars ca ra"
  have ok: "text_ok ?tx" and "room ?tx (length bs)" using assms by (simp_all add: initial_text_def text_ok_def room_def)
  then obtain tx where tx: "code_seq ci_code_byte ?tx bs = Some tx" using code_seq_total by blast
  have keep: "code_seq ci_code_byte t bs = Some t' \<Longrightarrow> text_ok t \<Longrightarrow> tx_pclim t = 200 \<Longrightarrow> tx_pc t + length bs \<le> 200 \<Longrightarrow>
      tx_pclim t' = 200 \<and> tx_text_malloced t' = tx_text_malloced t \<and> tx_pc t' = tx_pc t + length bs \<and> text_ok t'" for t t' bs
  proof (induction bs arbitrary: t)
    case (Cons c bs)
    from Cons.prems obtain u where u: "ci_code_byte t (ucast c) = Some u" and rest: "code_seq ci_code_byte u bs = Some t'"
      by (auto simp: mem_simps)
    have "tx_pclim u = 200" "tx_text_malloced u = tx_text_malloced t"
      using u Cons.prems by (auto simp: ci_code_byte_def grow_text_def mem_simps split: if_splits)
    with Cons.IH[OF rest] ci_code_byte_props(1,3)[OF Cons.prems(2) u] Cons.prems(4) show ?case by simp
  qed simp
  have t: "tx_pclim tx = 200" "\<not> tx_text_malloced tx" "tx_pc tx = 200" "text_ok tx"
    using keep[OF tx ok] assms by (simp_all add: initial_text_def)
  have d: "double_pclim 200 200 = Some 400" by (simp add: double_pclim.simps)
  let ?m = "tx\<lparr>tx_text_malloced := True\<rparr>"
  have "text_ok ?m" "room ?m (Suc 0)" using t by (simp_all add: text_ok_def room_def)
  then obtain tx' where tx': "ci_code_byte ?m (ucast b) = Some tx'" using ci_code_byte_total by blast
  have "cells ?m = cells tx" by (auto simp: cells_def fun_eq_iff)
  with ci_code_byte_props(2,3)[OF \<open>text_ok ?m\<close> tx'] t(3) have c: "cells tx' = (cells tx)(200 \<mapsto> b)" "tx_pc tx' = 201" by simp_all
  have "tx_pclim tx' = 400"
    using tx' t d by (auto simp: ci_code_byte_def grow_text_def realloc_text_def mem_simps split: if_splits)
  moreover have "grow_text tx = realloc_text tx 400" "realloc_text tx 400 = None" using t d by (simp_all add: grow_text_def realloc_text_def)
  moreover from this have "ci_code_byte tx (ucast b) = None" by (simp add: ci_code_byte_def)
  ultimately show ?thesis using tx t(3) tx' c by blast
qed

theorem pool_text_holds_200_bytes_witness:
  "\<exists>tx. code_seq ci_code_byte (initial_text 1 False [] [] None None) (replicate 200 7) = Some tx \<and> ci_code_byte tx (ucast (7 :: byte)) = None"
  using pool_text_holds_200_bytes[of "replicate 200 7" 1 False "[]" "[]" None None 7] by auto

text \<open>C21.  Resolving a label either fails, exactly when some reference is too far from the label for a 16-bit
  offset, or writes into each reference its own distance to the label and changes nothing else in the
  text; the position is kept and the label is free again.\<close>

theorem ci_resolve_and_free_label_patches:
  assumes "text_ok tx" and "labeldesc_to_label tx ld = Some lb" and "refs_ok (tx_pclim tx) (lb_refs lb)"
    and "a = (if lb_addr lb = 0 then tx_pc tx else lb_addr lb)"
  shows "(case ci_resolve_and_free_label tx ld of
            None \<Rightarrow> \<exists>r\<in>set (lb_refs lb). \<not> fits_short (branch_offset a r)
          | Some tx' \<Rightarrow>
              (\<forall>r\<in>set (lb_refs lb). fits_short (branch_offset a r)
                 \<and> (\<forall>k<2. cells tx' (r + k) = Some (bytes_of 2 (branch_offset a r) ! k)))
            \<and> (\<forall>i. (\<forall>r\<in>set (lb_refs lb). i < r \<or> r + 2 \<le> i) \<longrightarrow> cells tx' i = cells tx i)
            \<and> tx_pc tx' = tx_pc tx \<and> labeldesc_to_label tx' ld = None)"
proof (cases "\<forall>r\<in>set (lb_refs lb). fits_short (branch_offset a r)")
  case True
  then obtain t where t: "patch_refs tx a (lb_refs lb) = Some t" "cells t = patched (cells tx) a (lb_refs lb)"
      "text_frame t = text_frame tx"
    using patch_refs_written[OF assms(1,3), of a] by blast
  from arg_cong[OF t(3), of tx_labellim] have lim: "tx_labellim t = tx_labellim tx" by (simp add: text_frame_def)
  let ?tx' = "t\<lparr>tx_pc := tx_pc tx, tx_labels := (tx_labels tx)[ld := None]\<rparr>"
  have r: "ci_resolve_and_free_label tx ld = Some ?tx'"
    using t(1) assms(2,4) by (simp add: ci_resolve_and_free_label_def)
  have "cells ?tx' = cells t" by (auto simp: cells_def fun_eq_iff)
  with t(2) have c: "cells ?tx' = patched (cells tx) a (lb_refs lb)" by simp
  have "labeldesc_to_label ?tx' ld = None"
    using assms(1,2) lim by (auto simp: labeldesc_to_label_def text_ok_def split: if_splits)
  with r c True patched_at[OF assms(3)] show ?thesis by (auto simp: patched_other)
next
  case False
  then have "patch_refs tx a (lb_refs lb) = None" using patch_refs_misfit by blast
  with False assms(2,4) show ?thesis by (auto simp: ci_resolve_and_free_label_def)
qed

definition label_example :: text_t where
  "label_example = (initial_text 0 False [] [] None None)\<lparr>tx_pc := 40,
     tx_labels := [Some \<lparr>lb_addr = 0, lb_refs = [20, 8]\<rparr>], tx_labellim := 1\<rparr>"

theorem ci_resolve_and_free_label_patches_witness:
  "case ci_resolve_and_free_label label_example 0 of None \<Rightarrow> False
   | Some tx' \<Rightarrow> cells tx' 20 = Some 20 \<and> cells tx' 8 = Some 32 \<and> tx_pc tx' = 40"
proof -
  have l: "labeldesc_to_label label_example 0 = Some \<lparr>lb_addr = 0, lb_refs = [20, 8]\<rparr>"
    by (simp add: label_example_def labeldesc_to_label_def MAX_LABELDESC_def)
  have ok: "text_ok label_example" "refs_ok (tx_pclim label_example) [20, 8]" "tx_pc label_example = 40"
    by (simp_all add: label_example_def initial_text_def text_ok_def refs_ok_def)
  have fits: "fits_short (branch_offset 40 20)" "fits_short (branch_offset 40 8)"
    by code_simp+
  have bytes: "bytes_of 2 (branch_offset 40 20) ! 0 = 20" "bytes_of 2 (branch_offset 40 8) ! 0 = 32"
    by code_simp+
  show ?thesis
    using ci_resolve_and_free_label_patches[OF ok(1) l, of 40] ok(2,3) fits bytes
    by (auto split: option.splits dest: spec[of _ "0::nat"])
qed

end
