(* ===== verification/Ups_Run.thy ===== *)
theory Ups_Run
  imports Ups_Machine Ups_Text
begin

text \<open>
  What one instruction does, as the rest of the development uses it: how far each opcode moves the
  stack and program counters, reading an instruction that the code generator wrote, and the free
  part of the stack.
\<close>

section \<open>Stack and program counter\<close>

named_theorems exec_defs \<open>definitions of the instructions\<close>

lemmas [exec_defs] =
  exec_memcpy_def exec_proc_memcpy_def exec_push_retval_def exec_push_structret_addr_def
  jump_def exec_jump_if_def exec_switch_on_table_def exec_switch_on_chain_def
  exec_constpush_def exec_neg_constpush_def exec_push_float_const_def exec_push_double_const_def
  exec_check_sp_def exec_proc_push_addr_def exec_push_stackaddr_def
  exec_push_unsigned_at_addr_def exec_push_unsigned_at_stackaddr_def
  exec_push_signed_at_addr_def exec_push_signed_at_stackaddr_def exec_deref_def exec_proc_deref_def
  store_def exec_assign_def exec_assign_and_push_def proc_store_def exec_proc_assign_def
  exec_proc_assign_and_push_def exec_extract_unsigned_bitfield_def exec_extract_signed_bitfield_def
  exec_insert_bitfield_def exec_multi_arrow_def
  exec_dup_def exec_dup_back_one_def exec_reserve_slot_def exec_pop_def
  exec_word_unop_def exec_d0_unop_def exec_logical_not_def exec_cvt_to_bool_def
  cvt_d0_d1_def cvt_word_d0_def cvt_d0_word_def

text \<open>How far an instruction moves the stack and program counters.\<close>

definition moves :: "int \<Rightarrow> nat \<Rightarrow> 'w mstate \<Rightarrow> 'w sres option \<Rightarrow> bool" where
  "moves k n s r \<longleftrightarrow>
     (\<forall>s'. r = Some (Next s') \<longrightarrow> x_sp s' = x_sp s - of_int k \<and> x_pc s' = x_pc s + of_nat n)"

lemma push_sp_pc: "push v s = Some s' \<Longrightarrow> x_sp s' = x_sp s - 8 \<and> x_pc s' = x_pc s"
  by (auto simp: push_def mem_simps)
lemma pop_sp_pc: "pop s = Some (v, s') \<Longrightarrow> x_sp s' = x_sp s + 8 \<and> x_pc s' = x_pc s"
  by (auto simp: pop_def mem_simps)
lemma fetch_sp_pc: "fetch sz s = Some (v, s') \<Longrightarrow> x_sp s' = x_sp s \<and> x_pc s' = x_pc s + of_nat (isz_nbytes sz)"
  by (auto simp: fetch_def skip_text_def mem_simps)
lemma set_stk_sp_pc: "set_stk s i v = Some s' \<Longrightarrow> x_sp s' = x_sp s \<and> x_pc s' = x_pc s"
  by (auto simp: set_stk_def mem_simps)
lemma drop_stk_sp_pc [simp]: "x_sp (drop_stk n s) = x_sp s + of_nat (8 * n)" "x_pc (drop_stk n s) = x_pc s"
  by (simp_all add: drop_stk_def)
lemma skip_text_sp_pc [simp]: "x_sp (skip_text n s) = x_sp s" "x_pc (skip_text n s) = x_pc s + of_nat n"
  by (simp_all add: skip_text_def)
lemma writedata_sp_pc: "writedata e s a bs = Some (Some s') \<Longrightarrow> x_sp s' = x_sp s \<and> x_pc s' = x_pc s"
  by (auto simp: writedata_def mem_simps)
lemma load_unsigned_sp_pc: "load_unsigned t s a = Some (v, s') \<Longrightarrow> x_sp s' = x_sp s \<and> x_pc s' = x_pc s"
  by (cases t) (auto simp: mem_simps)
lemma load_signed_sp_pc: "load_signed t s a = Some (v, s') \<Longrightarrow> x_sp s' = x_sp s \<and> x_pc s' = x_pc s"
  by (cases t) (auto simp: mem_simps)
lemma load_sp_pc: "load t s a = Some (v, s') \<Longrightarrow> x_sp s' = x_sp s \<and> x_pc s' = x_pc s"
  by (auto simp: load_def load_signed_sp_pc load_unsigned_sp_pc split: if_splits)
lemma multi_arrow_sp_pc:
  "multi_arrow e off n a s = Some (Inr (v, s')) \<Longrightarrow> x_sp s' = x_sp s \<and> x_pc s' = x_pc s"
proof (induction n arbitrary: a s)
  case (Suc n)
  then show ?case by (auto simp: mem_simps split: if_split_asm option.split_asm)
qed simp

lemmas sp_pc = push_sp_pc pop_sp_pc fetch_sp_pc set_stk_sp_pc writedata_sp_pc load_unsigned_sp_pc
  load_signed_sp_pc load_sp_pc multi_arrow_sp_pc

lemma moves_binops:
  "moves (- 8) 0 s (exec_word_binop f s)" "moves (- 8) 0 s (exec_ll_binop r f s)"
  "moves (- 8) 0 s (exec_float_binop e opr s)" "moves (- 8) 0 s (exec_double_binop e opr s)"
  unfolding moves_def exec_word_binop_def exec_ll_binop_def exec_float_binop_def exec_double_binop_def
  by (auto simp: mem_simps Let_def dest!: sp_pc split: opval.split_asm fval.split_asm if_split_asm)

lemma moves_arith: "moves (- 8) 0 s (exec_arith e opr t s)" "moves (- 8) 0 s (exec_int opi ti s)"
  by (cases t; cases ti; simp add: moves_binops)+

lemma moves_unary: "moves 0 0 s (exec_bitwise_not ti s)" "moves 0 0 s (exec_unary_minus t s)"
  "moves 0 0 s (exec_logical_not s)" "moves 0 0 s (exec_cvt_to_bool s)"
  by (cases t; cases ti; auto simp: moves_def exec_defs mem_simps dest!: sp_pc)+

lemma moves_cvt: "moves 0 0 s (exec_cvt e c s)"
  by (cases c) (auto simp: moves_def exec_defs mem_simps Let_def dest!: sp_pc)

lemma moves_data:
  "moves 8 (isz_nbytes sz) s (exec_constpush sz s)" "moves 8 (isz_nbytes sz) s (exec_neg_constpush sz s)"
  "moves 8 4 s (exec_push_float_const s)" "moves 8 8 s (exec_push_double_const s)"
  "moves 0 (isz_nbytes sz) s (exec_check_sp sz s)" "moves 8 (isz_nbytes sz) s (exec_proc_push_addr r sz s)"
  "moves 8 (isz_nbytes sz) s (exec_push_stackaddr sz s)"
  "moves 8 (isz_nbytes sz) s (exec_push_unsigned_at_addr t sz s)"
  "moves 8 (isz_nbytes sz) s (exec_push_unsigned_at_stackaddr t sz s)"
  "moves 8 (isz_nbytes sz) s (exec_push_signed_at_addr t sz s)"
  "moves 8 (isz_nbytes sz) s (exec_push_signed_at_stackaddr t sz s)"
  unfolding moves_def exec_defs
  by (auto simp: mem_simps Let_def dest!: sp_pc split: if_split_asm)

lemma moves_deref: "moves 0 0 s (exec_deref t s)" "moves 0 0 s (exec_proc_deref e t s)"
  unfolding moves_def exec_defs
  by (auto simp: mem_simps Let_def dest!: sp_pc split: if_split_asm option.split_asm)

lemma store_sp_pc: "store t s = Some s' \<Longrightarrow> x_sp s' = x_sp s \<and> x_pc s' = x_pc s"
  by (auto simp: store_def mem_simps Let_def split: if_split_asm)

lemma proc_store_sp_pc:
  assumes "proc_store e t s = Some (Inr s')"
  shows "x_sp s' = x_sp s \<and> x_pc s' = x_pc s"
proof -
  obtain v where "stk s 0 = Some v" using assms by (cases "stk s 0") (simp_all add: proc_store_def)
  define t0 where "t0 = s\<lparr>x_d0 := d0_store t (x_d0 s) v\<rparr>"
  have t0: "x_sp t0 = x_sp s" "x_pc t0 = x_pc s" by (simp_all add: t0_def)
  obtain a where "stk t0 1 = Some a"
    using assms \<open>stk s 0 = Some v\<close> by (cases "stk t0 1") (simp_all add: proc_store_def t0_def Let_def)
  with assms \<open>stk s 0 = Some v\<close> have r: "(if is_ci_addr e a then
      wr_word (aty_ptr_nbytes t) (x_mem t0) a (d0_assigned t (x_d0 t0)) \<bind> (\<lambda>m. Some (Inr (t0\<lparr>x_mem := m\<rparr>)))
    else writedata e t0 a (bytes_of (aty_member_nbytes t) (x_d0 t0)) \<bind>
      (\<lambda>r. case r of None \<Rightarrow> Some (Inl (if aty_through_d0 t then drop_stk 2 t0 else t0))
            | Some s \<Rightarrow> Some (Inr s))) = Some (Inr s')"
    by (simp only: proc_store_def t0_def Let_def bind.simps)
  show ?thesis
  proof (cases "is_ci_addr e a")
    case True
    with r t0 show ?thesis by (auto simp: bind_Some_iff)
  next
    case False
    with r obtain q where "writedata e t0 a (bytes_of (aty_member_nbytes t) (x_d0 t0)) = Some q"
      and "(case q of None \<Rightarrow> Some (Inl (if aty_through_d0 t then drop_stk 2 t0 else t0)) | Some s \<Rightarrow> Some (Inr s))
        = Some (Inr s')"
      by (auto simp: bind_Some_iff)
    with t0 show ?thesis by (cases q) (auto dest: writedata_sp_pc)
  qed
qed

lemma moves_assign:
  "moves (- 16) 0 s (exec_assign t s)" "moves (- 16) 0 s (exec_proc_assign e t s)"
  "moves (- 8) 0 s (exec_assign_and_push t s)" "moves (- 8) 0 s (exec_proc_assign_and_push e t s)"
  unfolding moves_def exec_assign_def exec_proc_assign_def exec_assign_and_push_def exec_proc_assign_and_push_def
  by (auto simp: mem_simps Let_def dest!: sp_pc store_sp_pc proc_store_sp_pc split: if_split_asm sum.split_asm)

lemma moves_bitfield:
  "moves 0 2 s (exec_extract_unsigned_bitfield s)" "moves 0 2 s (exec_extract_signed_bitfield s)"
  "moves (- 8) 2 s (exec_insert_bitfield s)"
  unfolding moves_def exec_defs
  by (auto simp: mem_simps Let_def dest!: sp_pc)

lemma moves_multi_arrow: "moves (- 16) 0 s (exec_multi_arrow e s)"
  unfolding moves_def exec_defs
  by (auto simp: mem_simps Let_def dest!: sp_pc split: if_split_asm sum.split_asm)

lemma moves_memcpy:
  "moves (- 16) (isz_nbytes sz) s (exec_memcpy sz s)" "moves (- 16) (isz_nbytes sz) s (exec_proc_memcpy e sz s)"
  unfolding moves_def exec_defs
  by (auto simp: mem_simps Let_def dest!: sp_pc split: if_split_asm option.split_asm)

lemma moves_stack:
  "moves 8 0 s (exec_push_retval s)" "moves 8 0 s (exec_push_structret_addr s)" "moves 8 0 s (exec_dup s)"
  "moves 0 0 s (exec_dup_back_one s)" "moves 8 0 s (exec_reserve_slot s)" "moves (- 8) 0 s (exec_pop s)"
  unfolding moves_def exec_defs
  by (auto simp: mem_simps Let_def dest!: sp_pc)

lemmas moves_all = moves_arith moves_unary moves_cvt moves_data moves_deref moves_assign moves_bitfield
  moves_multi_arrow moves_memcpy moves_stack

text \<open>
  The opcodes whose effect on the stack pointer depends on an operand or on the frame, and those that
  set the program counter themselves.
\<close>

definition frame_opcode :: "opcode \<Rightarrow> bool" where
  "frame_opcode opc = (case opc of
     OC_CALL _ \<Rightarrow> True | OC_POPMANY _ \<Rightarrow> True | OC_LINK _ \<Rightarrow> True | OC_PUSH_BYTES \<Rightarrow> True
   | OC_PROC_PUSH_BYTES \<Rightarrow> True | OC_RESERVE_BYTES \<Rightarrow> True | OC_RET \<Rightarrow> True | OC_RET_WORD \<Rightarrow> True
   | OC_RET_LONG_LONG \<Rightarrow> True | OC_RET_FLOAT \<Rightarrow> True | OC_RET_DOUBLE \<Rightarrow> True | OC_RET_STRUCT \<Rightarrow> True
   | OC_CALL_INDIRECT \<Rightarrow> True | OC_SETJMP \<Rightarrow> True | OC_LONGJMP \<Rightarrow> True | _ \<Rightarrow> False)"

definition jump_opcode :: "opcode \<Rightarrow> bool" where
  "jump_opcode opc = (case opc of
     OC_JUMP \<Rightarrow> True | OC_JUMP_IF_NON_ZERO \<Rightarrow> True | OC_JUMP_IF_ZERO \<Rightarrow> True | OC_SWITCH_ON_TABLE \<Rightarrow> True
   | OC_SWITCH_ON_CHAIN _ \<Rightarrow> True | _ \<Rightarrow> False)"

text \<open>What an opcode really does to the stack, in bytes: a float takes a whole stack word.\<close>

definition slot_effect :: "opcode \<Rightarrow> int" where
  "slot_effect opc = (case opc of
     OC_PROC_ASSIGN _ \<Rightarrow> - 16 | OC_ASSIGN _ \<Rightarrow> - 16 | OC_PROC_DEREF _ \<Rightarrow> 0 | OC_DEREF _ \<Rightarrow> 0
   | OC_PUSH_AT_STACKADDR _ _ \<Rightarrow> 8 | OC_PUSH_AT_ADDR _ _ \<Rightarrow> 8 | OC_PUSH_FLOAT_CONST \<Rightarrow> 8
   | OC_PUSH_FLOAT_RETVAL \<Rightarrow> 8 | OC_ARITH _ _ \<Rightarrow> - 8 | OC_CVT _ \<Rightarrow> 0 | _ \<Rightarrow> op_effect opc)"

lemma ci_operand_size_os:
  "op_os opc = isz_os sz \<Longrightarrow> ci_operand_size opc ncase = Some (isz_nbytes sz)"
  "op_os opc = OS_ZERO \<Longrightarrow> ci_operand_size opc ncase = Some 0"
  "op_os opc = OS_LONG \<Longrightarrow> ci_operand_size opc ncase = Some 4"
  "op_os opc = OS_OTHER \<Longrightarrow> ci_operand_size opc ncase = (case opc of
             OC_CALL sz \<Rightarrow> Some (isz_nbytes sz + 2)
           | OC_CALL_INDIRECT \<Rightarrow> Some 2
           | OC_LINK sz \<Rightarrow> Some (isz_nbytes sz + 4)
           | OC_PUSH_FLOAT_CONST \<Rightarrow> Some 4
           | OC_PUSH_DOUBLE_CONST \<Rightarrow> Some 8
           | OC_INSERT_SIGNED_BITFIELD \<Rightarrow> Some 2
           | OC_EXTRACT_SIGNED_BITFIELD \<Rightarrow> Some 2
           | OC_INSERT_UNSIGNED_BITFIELD \<Rightarrow> Some 2
           | OC_EXTRACT_UNSIGNED_BITFIELD \<Rightarrow> Some 2
           | OC_JUMP \<Rightarrow> Some 2
           | OC_JUMP_IF_ZERO \<Rightarrow> Some 2
           | OC_JUMP_IF_NON_ZERO \<Rightarrow> Some 2
           | OC_SWITCH_ON_TABLE \<Rightarrow> Some (8 + ncase * 2)
           | OC_SWITCH_ON_CHAIN sz \<Rightarrow> Some (8 + ncase * (isz_nbytes sz + 2))
           | _ \<Rightarrow> None)"
  unfolding ci_operand_size.simps Optab_opcode_num
  by (cases sz; simp) (simp_all split: opcode.split isz.split)

declare ci_operand_size.simps [simp del]

lemma exec_moves:
  assumes "\<not> frame_opcode opc" and "\<not> jump_opcode opc" and "ci_operand_size opc ncase = Some n"
  shows "moves (slot_effect opc) n s (exec e opc s)"
  using assms
  by (cases opc) (auto simp: slot_effect_def frame_opcode_def jump_opcode_def ci_operand_size_os moves_all,
      auto simp: moves_def)

lemma jump_moves_sp: "jump s = Some (Next s') \<Longrightarrow> x_sp s' = x_sp s"
  by (auto simp: jump_def mem_simps)

lemma switch_chain_sp: "switch_chain sz v n s = Some (Next s') \<Longrightarrow> x_sp s' = x_sp s"
proof (induction n arbitrary: s)
  case (Suc n)
  then obtain c t where "fetch sz s = Some (c, t)"
    and "(if to_int c = v then jump t else switch_chain sz v n (skip_text 2 t)) = Some (Next s')"
    by (auto simp: mem_simps)
  with Suc.IH[of "skip_text 2 t"] show ?case by (auto dest!: sp_pc jump_moves_sp split: if_split_asm)
qed (simp add: jump_moves_sp)

lemma exec_jump_sp:
  assumes "jump_opcode opc" and "exec e opc s = Some (Next s')"
  shows "x_sp s' = x_sp s - of_int (slot_effect opc)"
  using assms
  by (cases opc) (auto simp: jump_opcode_def slot_effect_def exec_jump_if_def exec_switch_on_table_def
      exec_switch_on_chain_def mem_simps Let_def dest!: sp_pc jump_moves_sp switch_chain_sp split: if_split_asm)

section \<open>Instructions in memory\<close>

definition code_at :: "mem \<Rightarrow> addr \<Rightarrow> byte list \<Rightarrow> bool" where
  "code_at m a bs \<longleftrightarrow> rd_bytes m a (length bs) = Some bs"

lemma code_at_append: "code_at m a (xs @ ys) \<longleftrightarrow> code_at m a xs \<and> code_at m (a + of_nat (length xs)) ys"
  unfolding code_at_def
proof (induction xs arbitrary: a)
  case (Cons x xs)
  then show ?case
    by (auto simp: mem_simps algebra_simps)
qed simp

lemma code_at_pointwise: "code_at m a bs \<longleftrightarrow> (\<forall>i<length bs. m (a + of_nat i) = Some (bs ! i))"
  unfolding code_at_def
proof (induction bs arbitrary: a)
  case (Cons b bs)
  then show ?case
    by (auto simp: mem_simps algebra_simps All_less_Suc2)
qed simp

lemma code_at_cong:
  "(\<And>x. x \<in> region a (length bs) \<Longrightarrow> m' x = m x) \<Longrightarrow> code_at m' a bs = code_at m a bs"
  unfolding code_at_def by (subst rd_bytes_cong[of _ _ m' m]) auto

text \<open>The text from \<open>lo\<close> up to \<open>hi\<close> of a code buffer is in memory at \<open>base\<close>.\<close>

definition loaded :: "text_t \<Rightarrow> addr \<Rightarrow> nat \<Rightarrow> nat \<Rightarrow> mem \<Rightarrow> bool" where
  "loaded tx base lo hi m \<longleftrightarrow>
     (\<forall>i. lo \<le> i \<and> i < hi \<longrightarrow> m (base + of_nat i) = cells tx i \<and> cells tx i \<noteq> None)"

lemma loaded_code_at:
  assumes "emits tx bs tx'" and "\<And>i. i < tx_pc tx' \<Longrightarrow> cells tx'' i = cells tx' i"
    and "loaded tx'' base lo hi m" and "lo \<le> tx_pc tx" and "tx_pc tx' \<le> hi"
  shows "code_at m (base + of_nat (tx_pc tx)) bs"
  unfolding code_at_pointwise
proof (intro allI impI)
  fix i assume i: "i < length bs"
  let ?j = "tx_pc tx + i"
  have "cells tx'' ?j = Some (bs ! i)"
    using assms(1) assms(2)[of ?j] i by (simp add: emits_def overlay_inside)
  moreover have "m (base + of_nat ?j) = cells tx'' ?j"
    using assms(1,4,5) i assms(3)[unfolded loaded_def, rule_format, of ?j] by (simp add: emits_def)
  ultimately show "m (base + of_nat (tx_pc tx) + of_nat i) = Some (bs ! i)" by (simp add: algebra_simps)
qed

lemma read_opcode_at:
  assumes "code_at (x_mem s) (x_pc s) (opcode_bytes opc)"
  shows "read_opcode s = Some (opc, skip_text 2 s)"
proof -
  have "opcode_num opc < 2 ^ 64" using opcode_num_bound[of opc] by (simp add: NUM_OPCODES_def)
  then have "unat (of_nat (opcode_num opc) :: word64) = opcode_num opc"
    by (simp add: unsigned_of_nat take_bit_nat_eq_self)
  with assms show ?thesis
    by (simp add: read_opcode_def fetch_def text_at_def code_at_def rd_word_def word_of_opcode_bytes)
qed

lemma step_at:
  assumes "code_at (x_mem s) (x_pc s) (opcode_bytes opc)"
  shows "step e s = exec e opc (count_opcode opc (skip_text 2 s))"
  by (simp add: step_def read_opcode_at[OF assms])

lemma fetch_at:
  assumes "code_at (x_mem s) (x_pc s) bs" and "length bs = isz_nbytes sz"
  shows "fetch sz s = Some (word_of bs, skip_text (isz_nbytes sz) s)"
  using assms by (simp add: fetch_def text_at_def code_at_def rd_word_def)

lemma count_opcode_same [simp]:
  "x_mem (count_opcode opc s) = x_mem s" "x_pc (count_opcode opc s) = x_pc s"
  "x_sp (count_opcode opc s) = x_sp s" "x_fp (count_opcode opc s) = x_fp s"
  "x_cf (count_opcode opc s) = x_cf s" "x_retval (count_opcode opc s) = x_retval s"
  "x_d0 (count_opcode opc s) = x_d0 s" "x_d1 (count_opcode opc s) = x_d1 s"
  "x_cfs (count_opcode opc s) = x_cfs s" "x_stopres (count_opcode opc s) = x_stopres s"
  "x_world (count_opcode opc s) = x_world s"
  by (simp_all add: count_opcode_def split: option.split)

lemma skip_text_same [simp]:
  "x_mem (skip_text n s) = x_mem s" "x_fp (skip_text n s) = x_fp s"
  "x_cf (skip_text n s) = x_cf s" "x_retval (skip_text n s) = x_retval s"
  "x_d0 (skip_text n s) = x_d0 s" "x_d1 (skip_text n s) = x_d1 s"
  "x_cfs (skip_text n s) = x_cfs s" "x_stopres (skip_text n s) = x_stopres s"
  "x_world (skip_text n s) = x_world s"
  by (simp_all add: skip_text_def)

lemma drop_stk_same [simp]:
  "x_mem (drop_stk n s) = x_mem s" "x_fp (drop_stk n s) = x_fp s"
  "x_cf (drop_stk n s) = x_cf s" "x_retval (drop_stk n s) = x_retval s"
  "x_d0 (drop_stk n s) = x_d0 s" "x_d1 (drop_stk n s) = x_d1 s"
  "x_cfs (drop_stk n s) = x_cfs s" "x_stopres (drop_stk n s) = x_stopres s"
  "x_world (drop_stk n s) = x_world s"
  by (simp_all add: drop_stk_def)

section \<open>The stack\<close>

text \<open>\<open>n\<close> bytes below the stack pointer can be written.\<close>

definition stack_space :: "'w mstate \<Rightarrow> nat \<Rightarrow> bool" where
  "stack_space s n \<longleftrightarrow> n \<le> unat (x_sp s) \<and> region (x_sp s - of_nat n) n \<subseteq> dom (x_mem s)"

lemma stack_region:
  assumes "n \<le> unat sp"
  shows "x \<in> region (sp - of_nat n) n \<longleftrightarrow> unat sp - n \<le> unat x \<and> unat x < unat sp"
proof -
  have "unat sp < 2 ^ LENGTH(64)" by (rule unsigned_less)
  then have "unat (sp - of_nat n) + n \<le> 2 ^ 64" using assms by (simp add: unat_minus_no_wrap)
  from region_iff[OF this] show ?thesis using assms by (simp add: unat_minus_no_wrap)
qed

lemma stack_space_mono:
  assumes "stack_space s n" and "k \<le> n"
  shows "stack_space s k"
proof -
  have "region (x_sp s - of_nat k) k \<subseteq> region (x_sp s - of_nat n) n"
    using assms by (auto simp: stack_space_def stack_region)
  with assms show ?thesis by (auto simp: stack_space_def)
qed

lemma push_total:
  assumes "stack_space s n" and "8 \<le> n"
  shows "\<exists>m. wr_word 8 (x_mem s) (x_sp s - 8) v = Some m \<and> push v s = Some (s\<lparr>x_mem := m, x_sp := x_sp s - 8\<rparr>)"
proof -
  have "region (x_sp s - 8) 8 \<subseteq> dom (x_mem s)"
    using stack_space_mono[OF assms(1), of 8] assms(2) by (simp add: stack_space_def)
  then obtain m where "wr_word 8 (x_mem s) (x_sp s - 8) v = Some m" using wr_word_defined by blast
  then show ?thesis by (simp add: push_def)
qed

lemma pop_after_push: "push v s = Some s' \<Longrightarrow> pop s' = Some (v, s'\<lparr>x_sp := x_sp s\<rparr>)"
  by (auto simp: push_def pop_def bind_Some_iff rd_word_same_8)

section \<open>A small machine\<close>

text \<open>Memory from 0x1000 to 0x3000, all zero except for given bytes; the stack pointer is at 0x2000 and the
  program at 0x2800.\<close>

definition demo_mem :: "byte list \<Rightarrow> mem" where
  "demo_mem code = (\<lambda>a. if 0x1000 \<le> a \<and> a < 0x3000
     then Some (if 0x2800 \<le> a \<and> unat (a - 0x2800) < length code then code ! unat (a - 0x2800) else 0)
     else None)"

definition demo_state :: "byte list \<Rightarrow> unit mstate" where
  "demo_state code = \<lparr>x_mem = demo_mem code, x_pc = 0x2800, x_sp = 0x2000, x_fp = 0x2100, x_cf = 0,
     x_retval = 0, x_d0 = 0, x_d1 = 0, x_cfs = (\<lambda>_. None), x_stopres = CI_ER_CONTINUE,
     x_opcounts = None, x_world = ()\<rparr>"

definition demo_fpu :: fpu where
  "demo_fpu = \<lparr>f_add = (\<lambda>a b. a), f_sub = (\<lambda>a b. a), f_mul = (\<lambda>a b. a), f_div = (\<lambda>a b. a),
     d_add = (\<lambda>a b. a), d_sub = (\<lambda>a b. a), d_mul = (\<lambda>a b. a), d_div = (\<lambda>a b. a),
     d_of_f = ucast, f_of_d = ucast, f_of_int = of_int, d_of_int = of_int,
     f_to_longlong = (\<lambda>_. None), d_to_longlong = (\<lambda>_. None), f_to_ulong = (\<lambda>_. None), d_to_ulong = (\<lambda>_. None)\<rparr>"

definition demo_env :: "unit env" where
  "demo_env = \<lparr>e_minsp = 0x1000, e_maxsp = 0x2100, e_mindata = 0x2100, e_maxdata = 0x2800,
     e_procfp = 0, e_procap = 0, e_procsp = 0, e_proccfa = 0, e_cftab = [], e_readproc = None,
     e_writeproc = None, e_indirect_call_proc = None, e_loadfunc = None, e_libfuncs = (\<lambda>_. None),
     e_fpu = demo_fpu\<rparr>"

lemma demo_mapped:
  assumes "0x1000 \<le> unat a" and "unat a + n \<le> 0x3000"
  shows "region a n \<subseteq> dom (demo_mem code)"
  using assms by (auto simp: region_iff demo_mem_def word_le_nat_alt word_less_nat_alt)

lemma demo_space: "n \<le> 0x1000 \<Longrightarrow> stack_space (demo_state code) n"
  using demo_mapped[of "0x2000 - of_nat n" n code] unat_minus_no_wrap[of n "0x2000"]
  by (simp add: stack_space_def demo_state_def)

lemma demo_count [simp]: "count_opcode opc (skip_text n (demo_state code)) = skip_text n (demo_state code)"
  by (simp add: count_opcode_def demo_state_def skip_text_def)

lemma demo_zero:
  assumes "0x1000 \<le> unat a" and "unat a + n \<le> 0x2800"
  shows "rd_bytes (demo_mem code) a n = Some (replicate n 0)"
  using assms
proof (induction n arbitrary: a)
  case (Suc n)
  then have "unat (a + 1) = unat a + 1" using unat_plus_no_wrap[of a 1] by simp
  with Suc show ?case by (simp add: demo_mem_def word_le_nat_alt word_less_nat_alt)
qed simp

lemma demo_code: "length code \<le> 0x800 \<Longrightarrow> code_at (demo_mem code) 0x2800 code"
proof -
  assume l: "length code \<le> 0x800"
  have "demo_mem code (0x2800 + of_nat i) = Some (code ! i)" if i: "i < length code" for i
  proof -
    have "unat (0x2800 + of_nat i :: addr) = 0x2800 + i"
      using i l unat_plus_no_wrap[of "0x2800" i] by simp
    moreover have "unat (of_nat i :: addr) = i" using i l by (simp add: unsigned_of_nat take_bit_nat_eq_self)
    ultimately show ?thesis using i l by (simp add: demo_mem_def word_le_nat_alt word_less_nat_alt)
  qed
  then show ?thesis by (simp add: code_at_pointwise)
qed

lemma word_of_zeros [simp]: "word_of (replicate n 0) = 0"
  by (rule bit_word_eqI) (simp add: bit_word_of)

lemma demo_stk: "i < 0x100 \<Longrightarrow> stk (demo_state code) i = Some 0"
proof -
  assume i: "i < 0x100"
  then have "unat (0x2000 + of_nat (8 * i) :: addr) = 0x2000 + 8 * i"
    using unat_plus_no_wrap[of "0x2000" "8 * i"] by simp
  with i show ?thesis by (simp add: stk_def demo_state_def rd_word_def demo_zero)
qed

section \<open>Properties\<close>

text \<open>The opcodes that move a \<open>float\<close> and not a whole number of stack words according to the table.\<close>

definition moves_float :: "opcode \<Rightarrow> bool" where
  "moves_float opc = (case opc of
     OC_PROC_ASSIGN t \<Rightarrow> t = A_FLOAT | OC_ASSIGN t \<Rightarrow> t = A_FLOAT
   | OC_PROC_DEREF t \<Rightarrow> t = LT_F | OC_DEREF t \<Rightarrow> t = LT_F
   | OC_PUSH_AT_STACKADDR t _ \<Rightarrow> t = LT_F | OC_PUSH_AT_ADDR t _ \<Rightarrow> t = LT_F
   | OC_PUSH_FLOAT_CONST \<Rightarrow> True | OC_PUSH_FLOAT_RETVAL \<Rightarrow> True
   | OC_ARITH _ t \<Rightarrow> t = N_FLOAT
   | OC_CVT c \<Rightarrow> c \<in> {CVT_FLOAT_TO_LONG_LONG, CVT_UNSIGNED_LONG_LONG_TO_FLOAT, CVT_SIGNED_LONG_LONG_TO_FLOAT,
       CVT_FLOAT_TO_DOUBLE, CVT_UNSIGNED_LONG_TO_FLOAT, CVT_SIGNED_LONG_TO_FLOAT, CVT_DOUBLE_TO_FLOAT,
       CVT_FLOAT_TO_LONG, CVT_FLOAT_TO_BOOL}
   | _ \<Rightarrow> False)"

lemma table_effect:
  "\<not> moves_float opc \<Longrightarrow> slot_effect opc = op_effect opc"
  "moves_float opc \<Longrightarrow> (of_int (slot_effect opc) :: word64) \<noteq> of_int (op_effect opc)"
proof -
  have t: "\<not> moves_float opc \<longrightarrow> slot_effect opc = op_effect opc"
  proof (cases opc)
    case (OC_CVT c)
    then show ?thesis by (cases c) (simp_all add: moves_float_def slot_effect_def)
  next
    case (OC_ARITH a t)
    then show ?thesis by (cases t) (simp_all add: moves_float_def slot_effect_def)
  next
    case (OC_PROC_ASSIGN t) then show ?thesis by (cases t) (simp_all add: moves_float_def slot_effect_def)
  next
    case (OC_ASSIGN t) then show ?thesis by (cases t) (simp_all add: moves_float_def slot_effect_def)
  next
    case (OC_PROC_DEREF t) then show ?thesis by (cases t) (simp_all add: moves_float_def slot_effect_def)
  next
    case (OC_DEREF t) then show ?thesis by (cases t) (simp_all add: moves_float_def slot_effect_def)
  next
    case (OC_PUSH_AT_STACKADDR t sz) then show ?thesis by (cases t) (simp_all add: moves_float_def slot_effect_def)
  next
    case (OC_PUSH_AT_ADDR t sz) then show ?thesis by (cases t) (simp_all add: moves_float_def slot_effect_def)
  qed (simp_all add: slot_effect_def moves_float_def)
  then show "\<not> moves_float opc \<Longrightarrow> slot_effect opc = op_effect opc" by blast
  show "moves_float opc \<Longrightarrow> (of_int (slot_effect opc) :: word64) \<noteq> of_int (op_effect opc)"
    by (cases opc) (auto simp: moves_float_def slot_effect_def)
qed

lemma exec_sp:
  assumes "\<not> frame_opcode opc" and "exec e opc s = Some (Next s')"
  shows "x_sp s' = x_sp s - of_int (slot_effect opc)"
proof (cases "jump_opcode opc")
  case True
  from exec_jump_sp[OF this assms(2)] show ?thesis .
next
  case False
  show ?thesis
  proof (cases "ci_operand_size opc 0")
    case None
    then have "opc = OC_UNRESOLVED_JUMP"
      by (cases opc) (auto simp: ci_operand_size_os)
    with assms(2) show ?thesis by simp
  next
    case (Some n)
    from exec_moves[OF assms(1) False Some, of s e] assms(2) show ?thesis by (simp add: moves_def)
  qed
qed

text \<open>C23.  The static stack accounting of the code generator is right about the machine: every opcode moves the stack
  pointer by exactly the amount that the opcode table gives for it, except for the calls, the returns, \<open>setjmp\<close>
  and \<open>longjmp\<close>, which change the frame, the opcodes whose effect depends on their operand (\<open>OC_POPMANY\<close>, \<open>OC_LINK\<close>,
  \<open>OC_PUSH_BYTES\<close>, \<open>OC_PROC_PUSH_BYTES\<close> and \<open>OC_RESERVE_BYTES\<close>), and those that move a \<open>float\<close>.\<close>

theorem machine_follows_stack_table:
  assumes "\<not> frame_opcode opc" and "\<not> moves_float opc" and "exec e opc s = Some (Next s')"
  shows "x_sp s' = x_sp s - of_int (fst (snd (Optab ! opcode_num opc)))"
  using exec_sp[OF assms(1,3)] table_effect(1)[OF assms(2)] by (simp add: Optab_opcode_num)

theorem machine_follows_stack_table_witness:
  "\<exists>s'. exec demo_env OC_DUP (demo_state []) = Some (Next s') \<and> x_sp s' = 0x1ff8"
proof -
  obtain m where "push 0 (demo_state []) = Some (demo_state []\<lparr>x_mem := m, x_sp := x_sp (demo_state []) - 8\<rparr>)"
    using push_total[OF demo_space[of 8 "[]"], of 0] by auto
  then obtain s' where x: "exec demo_env OC_DUP (demo_state []) = Some (Next s')"
    using demo_stk[of 0 "[]"] by (simp add: exec_dup_def)
  from machine_follows_stack_table[OF _ _ x] have "x_sp s' = 0x2000 - 8"
    by (simp add: frame_opcode_def moves_float_def Optab_opcode_num demo_state_def del: opcode_num.simps)
  with x show ?thesis by simp
qed

text \<open>For the opcodes that move a \<open>float\<close> the table is always wrong: it counts four bytes for the value,
  while the machine uses a whole stack word of eight.\<close>

theorem stack_table_wrong_for_floats:
  assumes "moves_float opc" and "exec e opc s = Some (Next s')"
  shows "x_sp s' \<noteq> x_sp s - of_int (fst (snd (Optab ! opcode_num opc)))"
proof -
  have "\<not> frame_opcode opc" using assms(1) by (cases opc) (simp_all add: moves_float_def frame_opcode_def)
  from exec_sp[OF this assms(2)] table_effect(2)[OF assms(1)] show ?thesis by (simp add: Optab_opcode_num)
qed

theorem stack_table_wrong_for_floats_witness:
  "\<exists>s'. exec demo_env OC_PUSH_FLOAT_RETVAL (demo_state []) = Some (Next s') \<and> x_sp s' \<noteq> 0x1ffc"
proof -
  obtain m where "push 0 (demo_state []) = Some (demo_state []\<lparr>x_mem := m, x_sp := x_sp (demo_state []) - 8\<rparr>)"
    using push_total[OF demo_space[of 8 "[]"], of 0] by auto
  then obtain s' where x: "exec demo_env OC_PUSH_FLOAT_RETVAL (demo_state []) = Some (Next s')"
    by (auto simp: exec_push_retval_def demo_state_def)
  from stack_table_wrong_for_floats[OF _ x] have "x_sp s' \<noteq> 0x2000 - 4"
    by (simp add: moves_float_def Optab_opcode_num demo_state_def del: opcode_num.simps)
  with x show ?thesis by simp
qed

text \<open>The opcodes that set the program counter and are no jumps: calls, returns, \<open>setjmp\<close> and \<open>longjmp\<close>.\<close>

definition transfer_opcode :: "opcode \<Rightarrow> bool" where
  "transfer_opcode opc = (case opc of
     OC_CALL _ \<Rightarrow> True | OC_CALL_INDIRECT \<Rightarrow> True | OC_RET \<Rightarrow> True | OC_RET_WORD \<Rightarrow> True | OC_RET_LONG_LONG \<Rightarrow> True
   | OC_RET_FLOAT \<Rightarrow> True | OC_RET_DOUBLE \<Rightarrow> True | OC_RET_STRUCT \<Rightarrow> True | OC_SETJMP \<Rightarrow> True | OC_LONGJMP \<Rightarrow> True
   | _ \<Rightarrow> False)"

lemma exec_frame_pc:
  assumes "frame_opcode opc" and "\<not> transfer_opcode opc" and "ci_operand_size opc ncase = Some n" and "exec e opc s = Some (Next s')"
  shows "x_pc s' = x_pc s + of_nat n"
  using assms
  by (cases opc) (auto simp: frame_opcode_def transfer_opcode_def ci_operand_size_os exec_popmany_def exec_link_def exec_push_bytes_def
      exec_proc_push_bytes_def exec_reserve_bytes_def mem_simps Let_def dest!: sp_pc split: if_split_asm option.split_asm)

text \<open>C24.  An instruction other than a jump, a switch, a call, a return, \<open>setjmp\<close> or \<open>longjmp\<close> goes on to the next one: the
  program counter ends up after the two bytes of the opcode and the operand bytes that \<open>ci_operand_size\<close> gives.  This
  includes the instructions that move the stack pointer by their operand, and \<open>OC_LINK\<close>.\<close>

theorem step_advances_by_operand_size:
  assumes "code_at (x_mem s) (x_pc s) (opcode_bytes opc)" and "\<not> transfer_opcode opc" and "\<not> jump_opcode opc"
    and "ci_operand_size opc ncase = Some n" and "step e s = Some (Next s')"
  shows "x_pc s' = x_pc s + 2 + of_nat n"
proof (cases "frame_opcode opc")
  case True
  have "exec e opc (count_opcode opc (skip_text 2 s)) = Some (Next s')" using assms(5) by (simp add: step_at[OF assms(1)])
  from exec_frame_pc[OF True assms(2,4) this] show ?thesis by simp
next
  case False
  from exec_moves[OF this assms(3,4), of "count_opcode opc (skip_text 2 s)" e] assms(5) show ?thesis
    by (simp add: step_at[OF assms(1)] moves_def)
qed

theorem step_advances_by_operand_size_witness:
  "\<exists>s'. step demo_env (demo_state (opcode_bytes (OC_CONSTPUSH SZ_L) @ bytes_of 4 7)) = Some (Next s')
     \<and> x_pc s' = 0x2806"
proof -
  let ?c = "opcode_bytes (OC_CONSTPUSH SZ_L) @ bytes_of 4 7"
  let ?s = "demo_state ?c" and ?t = "skip_text 2 (demo_state ?c)"
  have c: "code_at (demo_mem ?c) 0x2800 ?c" by (rule demo_code) simp
  then have op: "code_at (x_mem ?s) (x_pc ?s) (opcode_bytes (OC_CONSTPUSH SZ_L))"
    and arg: "code_at (x_mem ?t) (x_pc ?t) (bytes_of 4 7)"
    by (simp_all add: code_at_append demo_state_def)
  have f: "fetch SZ_L ?t = Some (word_of (bytes_of 4 7), skip_text 4 ?t)"
    using fetch_at[OF arg, of SZ_L] by simp
  have "stack_space (skip_text 4 ?t) 8" using demo_space[of 8 ?c] by (simp add: stack_space_def)
  from push_total[OF this] obtain s' where "push (word_of (bytes_of 4 7)) (skip_text 4 ?t) = Some s'" by auto
  with f have x: "step demo_env ?s = Some (Next s')"
    by (simp add: step_at[OF op] exec_constpush_def)
  have "x_pc s' = x_pc ?s + 2 + of_nat 4"
    using step_advances_by_operand_size[OF op _ _ _ x, of 0 4]
    by (simp add: transfer_opcode_def jump_opcode_def ci_operand_size_os(1)[of _ SZ_L])
  with x show ?thesis by (simp add: demo_state_def)
qed

end
