(* ===== verification/Ups_Exec_Props.thy ===== *)
theory Ups_Exec_Props
  imports Ups_Run
begin

text \<open>
  What the instructions of the machine are for: calls return to their caller, \<open>OC_LINK\<close> guards the
  stack, \<open>longjmp\<close> goes back to \<open>setjmp\<close>, the two kinds of switch find their case, bit fields, loads and
  stores give back what was stored, and the divisions divide.  The small machine of the previous
  theory serves for the concrete instances.
\<close>

section \<open>Memory\<close>


lemma region_offset:
  assumes "i + n \<le> j" and "j + k \<le> 2 ^ 64"
  shows "region (a + of_nat i) n \<inter> region (a + of_nat j) k = {}"
proof (rule ccontr)
  assume "\<not> ?thesis"
  then obtain p q where pq: "p < n" "q < k" "a + of_nat i + of_nat p = a + of_nat j + of_nat q"
    by (auto simp: region_def)
  then have "(of_nat (i + p) :: addr) = of_nat (j + q)" by (simp add: algebra_simps)
  then have "unat (of_nat (i + p) :: addr) = unat (of_nat (j + q) :: addr)" by simp
  moreover have "i + p < 2 ^ 64" and "j + q < 2 ^ 64" using pq(1,2) assms by simp_all
  ultimately have "i + p = j + q" by (simp only: unsigned_of_nat) (simp add: take_bit_nat_eq_self)
  with pq assms show False by simp
qed

lemma region_split: "region a (m + n) = region a m \<union> region (a + of_nat m) n"
  by (induction m arbitrary: a) (auto simp: region_Suc algebra_simps)

lemma region_below:
  "region (a - 8) 8 \<inter> region a n = {}" if "n \<le> 2 ^ 64 - 8"
  using region_offset[of 0 8 8 n "a - 8"] that by simp

lemma wr_word_elsewhere: "wr_word n m a w = Some m' \<Longrightarrow> x \<notin> region a n \<Longrightarrow> m' x = m x"
  using wr_bytes_other[of m a "bytes_of n w" m' x] by (simp add: wr_word_def)

lemma rd_word_cong: "(\<And>x. x \<in> region a n \<Longrightarrow> m' x = m x) \<Longrightarrow> rd_word n m' a = rd_word n m a"
  unfolding rd_word_def by (subst rd_bytes_cong[of a n m' m]) auto

lemma memcpy_copies:
  assumes "memcpy m dst src n = Some m'" and "n \<le> 2 ^ 64"
  shows "rd_bytes m' dst n = rd_bytes m src n" and "rd_bytes m src n \<noteq> None"
    and "\<And>x. x \<notin> region dst n \<Longrightarrow> m' x = m x"
proof -
  obtain bs where bs: "rd_bytes m src n = Some bs" and w: "wr_bytes m dst bs = Some m'"
    using assms(1) by (auto simp: memcpy_def bind_Some_iff split: if_split_asm)
  have l: "length bs = n" using rd_bytes_length[OF bs] .
  show "rd_bytes m' dst n = rd_bytes m src n" using ram.rd_after_wr[OF w] assms(2) l bs by simp
  show "rd_bytes m src n \<noteq> None" using bs by simp
  show "\<And>x. x \<notin> region dst n \<Longrightarrow> m' x = m x" using wr_bytes_other[OF w] l by simp
qed


section \<open>Calls and frames\<close>

text \<open>The three words of a frame: the saved frame pointer, the return address and the code file.\<close>

definition frame_at :: "mem \<Rightarrow> addr \<Rightarrow> addr \<Rightarrow> addr \<Rightarrow> addr \<Rightarrow> bool" where
  "frame_at m a fp pc cf \<longleftrightarrow>
     rd_word 8 m a = Some fp \<and> rd_word 8 m (a + 8) = Some pc \<and> rd_word 8 m (a + 16) = Some cf"

lemma unlink_frame:
  assumes "frame_at (x_mem s) (x_fp s) fp pc cf"
  shows "unlink s = Some (s\<lparr>x_sp := x_fp s + 24, x_fp := fp, x_pc := pc, x_cf := cf\<rparr>)"
  using assms by (simp add: unlink_def pop_def frame_at_def Let_def add.assoc)


lemma words_disjoint:
  "region (a :: addr) 8 \<inter> region (a + 8) 8 = {}" "region a 8 \<inter> region (a + 16) 8 = {}"
  "region (a + 8) 8 \<inter> region (a + 16) 8 = {}"
  using region_offset[of 0 8 8 8 a] region_offset[of 0 8 16 8 a] region_offset[of 8 8 16 8 a] by simp_all

lemma frame_written:
  assumes "wr_word 8 m (a + 16) cf = Some m1" and "wr_word 8 m1 (a + 8) pc = Some m2"
    and "wr_word 8 m2 a fp = Some m3"
  shows "frame_at m3 a fp pc cf"
proof -
  have "rd_word 8 m3 a = Some fp" using rd_word_same_8[OF assms(3)] .
  moreover have "rd_word 8 m3 (a + 8) = Some pc"
    using rd_word_other[OF assms(3) words_disjoint(1)] rd_word_same_8[OF assms(2)] by simp
  moreover have "rd_word 8 m3 (a + 16) = Some cf"
    using rd_word_other[OF assms(3) words_disjoint(2)] rd_word_other[OF assms(2) words_disjoint(3)]
      rd_word_same_8[OF assms(1)] by simp
  ultimately show ?thesis by (simp add: frame_at_def)
qed

text \<open>What a call of a function of the same program followed by its \<open>OC_LINK\<close> does.\<close>

lemma call_link_frame:
  assumes "func_call e fcf i s = Some (Next s1)" and "0 < i"
    and "x_mem s2 = x_mem s1" "x_sp s2 = x_sp s1" "x_fp s2 = x_fp s1"
    and "exec_link e sz s2 = Some (Next s3)"
  shows "frame_at (x_mem s3) (x_fp s3) (x_fp s) (x_pc s + 2) (x_cf s)" and "x_fp s3 = x_sp s - 24"
proof -
  obtain t1 t2 where t: "push (x_cf s) (skip_text 1 (skip_text 1 s)) = Some t1"
      "push (x_pc t1) t1 = Some t2" and s1: "x_mem s1 = x_mem t2" "x_sp s1 = x_sp t2" "x_fp s1 = x_fp t2"
    using assms(1,2) by (auto simp: func_call_def fetch_def bind_Some_iff)
  obtain t3 where t3: "push (x_fp s2) s2 = Some t3" and s3: "x_mem s3 = x_mem t3" "x_fp s3 = x_sp t3"
    using assms(6) by (auto simp: exec_link_def fetch_def bind_Some_iff Let_def skip_text_def split: if_split_asm)
  obtain m1 where m1: "wr_word 8 (x_mem s) (x_sp s - 8) (x_cf s) = Some m1"
      "t1 = skip_text 1 (skip_text 1 s)\<lparr>x_mem := m1, x_sp := x_sp s - 8\<rparr>"
    using t(1) by (auto simp: push_def bind_Some_iff)
  obtain m2 where m2: "wr_word 8 m1 (x_sp s - 16) (x_pc s + 2) = Some m2"
      "t2 = t1\<lparr>x_mem := m2, x_sp := x_sp s - 16\<rparr>"
    using t(2) m1(2) by (auto simp: push_def bind_Some_iff add.commute)
  have "x_fp t2 = x_fp s" "x_sp t2 = x_sp s - 16" "x_mem t2 = m2" by (simp_all add: m1(2) m2(2))
  then obtain m3 where m3: "wr_word 8 m2 (x_sp s - 24) (x_fp s) = Some m3" "x_mem t3 = m3" "x_sp t3 = x_sp s - 24"
    using t3 assms(3-5) s1 by (auto simp: push_def bind_Some_iff)
  show "x_fp s3 = x_sp s - 24" by (simp add: s3 m3)
  with frame_written[of m "x_sp s - 24" "x_cf s" m1 "x_pc s + 2" m2 "x_fp s" m3 for m] m1(1) m2(1) m3
  show "frame_at (x_mem s3) (x_fp s3) (x_fp s) (x_pc s + 2) (x_cf s)" by (simp add: s3)
qed

lemma frame_at_cong:
  assumes "\<And>x. x \<in> region a 24 \<Longrightarrow> m' x = m x"
  shows "frame_at m' a fp pc cf = frame_at m a fp pc cf"
proof -
  have 3: "region a 24 = region a 8 \<union> region (a + 8) 8 \<union> region (a + 16) 8"
    using region_split[of a 8 16] region_split[of "a + 8" 8 8] by (simp add: Un_assoc add.commute)
  show ?thesis
    using rd_word_cong[of a 8 m' m] rd_word_cong[of "a + 8" 8 m' m] rd_word_cong[of "a + 16" 8 m' m] assms
    by (simp add: frame_at_def 3)
qed

text \<open>C25.  A function call returns where it came from.  If \<open>OC_CALL\<close> or \<open>OC_CALL_INDIRECT\<close> calls a function of
  the program and its entry code links a frame, then whatever the function does that keeps the frame
  pointer and the three words of the frame, its \<open>OC_RET\<close> gives back the caller's frame pointer, stack
  pointer and code file and goes on after the two operand bytes of the call.\<close>

theorem call_link_ret:
  assumes "func_call e fcf i s = Some (Next s1)" and "0 < i"
    and "exec_link e sz (count_opcode opc (skip_text 2 s1)) = Some (Next s3)"
    and "x_fp s4 = x_fp s3" and "\<And>x. x \<in> region (x_fp s3) 24 \<Longrightarrow> x_mem s4 x = x_mem s3 x"
  shows "\<exists>s5. exec_ret s4 = Some (Next s5) \<and> x_sp s5 = x_sp s \<and> x_fp s5 = x_fp s
      \<and> x_pc s5 = x_pc s + 2 \<and> x_cf s5 = x_cf s \<and> x_mem s5 = x_mem s4 \<and> x_retval s5 = x_retval s4"
proof -
  from call_link_frame[OF assms(1,2) _ _ _ assms(3)]
  have f: "frame_at (x_mem s3) (x_fp s3) (x_fp s) (x_pc s + 2) (x_cf s)" "x_fp s3 = x_sp s - 24" by simp_all
  have "frame_at (x_mem s4) (x_fp s4) (x_fp s) (x_pc s + 2) (x_cf s)"
    using f(1) frame_at_cong[OF assms(5)] by (simp add: assms(4))
  from unlink_frame[OF this] show ?thesis by (simp add: exec_ret_def assms(4) f(2))
qed


section \<open>Evaluation of concrete steps\<close>

fun is_next :: "'w sres option \<Rightarrow> bool" where
  "is_next (Some (Next s)) = True"
| "is_next _ = False"

fun next_of :: "'w sres option \<Rightarrow> 'w mstate" where
  "next_of (Some (Next s)) = s"
| "next_of r = undefined"

lemma next_of_eq: "is_next r \<Longrightarrow> r = Some (Next (next_of r))"
  by (cases r rule: is_next.cases) simp_all

definition demo_call :: "unit mstate" where
  "demo_call = (demo_state ([3, 0] @ opcode_bytes (OC_LINK SZ_B) @ [16, 32, 0, 0, 0]))
     \<lparr>x_cfs := (\<lambda>a. Some \<lparr>cf_loaded = True, cf_text_and_data = 0x2800, cf_text_size = 0x20, cf_data_size = 0,
        cf_bss_size = 0, cf_data_copy = 0, cf_funcaddrs = (\<lambda>i. Some 2), cf_funcrefs = (\<lambda>i. None)\<rparr>)\<rparr>"



theorem call_link_ret_witness:
  "let s1 = next_of (func_call demo_env 5 1 demo_call);
       s3 = next_of (exec_link demo_env SZ_B (count_opcode (OC_LINK SZ_B) (skip_text 2 s1)))
   in \<exists>s5. exec_ret s3 = Some (Next s5) \<and> x_sp s5 = 0x2000 \<and> x_fp s5 = 0x2100 \<and> x_pc s5 = 0x2802"
proof -
  let ?s1 = "next_of (func_call demo_env 5 1 demo_call)"
  let ?r = "exec_link demo_env SZ_B (count_opcode (OC_LINK SZ_B) (skip_text 2 ?s1))"
  have 1: "func_call demo_env 5 1 demo_call = Some (Next ?s1)" by (rule next_of_eq) code_simp
  have 3: "?r = Some (Next (next_of ?r))" by (rule next_of_eq) code_simp
  have "x_sp demo_call = 0x2000 \<and> x_fp demo_call = 0x2100 \<and> x_pc demo_call + 2 = 0x2802" by code_simp
  with call_link_ret[OF 1 _ 3, of "next_of ?r"] show ?thesis by (auto simp: Let_def)
qed

text \<open>C26.  The stack check of \<open>OC_LINK\<close>.  Unless the amounts exceed the address space below the stack pointer, a
  function is entered exactly when its locals and the stack its expressions need fit above the low
  end of the stack, and then all the space it may use is inside the stack; otherwise the machine stops
  with \<open>CI_ER_STACK_OVERFLOW\<close>.\<close>

theorem link_guards_stack:
  assumes "push (x_fp s) s = Some s1" and "fetch sz s1 = Some (n, s2)" and "text_at SZ_L s2 = Some need"
    and "8 + unat n + unat need \<le> unat (x_sp s)"
  shows "if unat (e_minsp e) + 8 + unat n + unat need \<le> unat (x_sp s)
     then \<exists>s'. exec_link e sz s = Some (Next s') \<and> x_fp s' = x_sp s - 8 \<and> x_sp s' = x_sp s - 8 - n
            \<and> (\<forall>a \<in> region (x_sp s' - need) (unat need). e_minsp e \<le> a \<and> a < x_sp s')
     else \<exists>s'. exec_link e sz s = Some (Quit CI_ER_STACK_OVERFLOW s')"
proof -
  let ?sp = "x_sp s - 8 - n" and ?t = "skip_text (isz_nbytes sz) (s1\<lparr>x_fp := x_sp s1\<rparr>)\<lparr>x_sp := x_sp s - 8 - n\<rparr>"
  have sp1: "x_sp s1 = x_sp s - 8" using push_sp_pc[OF assms(1)] by simp
  have f: "fetch sz (s1\<lparr>x_fp := x_sp s1\<rparr>) = Some (n, skip_text (isz_nbytes sz) (s1\<lparr>x_fp := x_sp s1\<rparr>))"
    using assms(2) by (auto simp: fetch_def text_at_def bind_Some_iff)
  have s2: "x_mem s2 = x_mem s1" "x_pc s2 = x_pc s1 + of_nat (isz_nbytes sz)"
    using assms(2) by (auto simp: fetch_def bind_Some_iff)
  have t: "text_at SZ_L ?t = Some need" using assms(3) by (simp add: text_at_def s2)
  have e: "exec_link e sz s = Some (if e_minsp e \<le> ?sp - need then Next (skip_text 4 ?t) else Quit CI_ER_STACK_OVERFLOW ?t)"
    using f t by (simp add: exec_link_def assms(1) Let_def sp1)
  have u1: "unat (x_sp s - 8) = unat (x_sp s) - 8" using assms(4) unat_minus_no_wrap[of 8 "x_sp s"] by simp
  have u2: "unat ?sp = unat (x_sp s) - 8 - unat n"
    using assms(4) u1 unat_minus_no_wrap[of "unat n" "x_sp s - 8"] by simp
  have u3: "unat (?sp - need) = unat (x_sp s) - 8 - unat n - unat need"
    using assms(4) u2 unat_minus_no_wrap[of "unat need" ?sp] by simp
  have le: "e_minsp e \<le> ?sp - need \<longleftrightarrow> unat (e_minsp e) + 8 + unat n + unat need \<le> unat (x_sp s)"
    using assms(4) by (auto simp: word_le_nat_alt u3)
  have "\<forall>a \<in> region (?sp - need) (unat need). e_minsp e \<le> a \<and> a < ?sp" if "e_minsp e \<le> ?sp - need"
    using that stack_region[of "unat need" ?sp] assms(4) by (auto simp: word_le_nat_alt word_less_nat_alt u3 u2)
  with e le sp1 show ?thesis by (simp add: skip_text_def)
qed

theorem link_guards_stack_witness:
  "\<exists>s'. exec_link demo_env SZ_B (demo_state [16, 32, 0, 0, 0]) = Some (Next s') \<and> x_sp s' = 0x1fe8"
proof -
  let ?s = "demo_state [16, 32, 0, 0, 0]"
  define r where "r = push (x_fp ?s) ?s"
  define f where "f = fetch SZ_B (the r)"
  have "r \<noteq> None \<and> f \<noteq> None \<and> fst (the f) = 16 \<and> text_at SZ_L (snd (the f)) = Some 32"
    unfolding f_def r_def by code_simp
  then have "push (x_fp ?s) ?s = Some (the r)" "fetch SZ_B (the r) = Some (16, snd (the f))"
    "text_at SZ_L (snd (the f)) = Some 32"
    by (auto simp: r_def[symmetric] f_def[symmetric])
  from link_guards_stack[OF this, of demo_env] show ?thesis by (auto simp: demo_env_def demo_state_def)
qed


text \<open>Words written to a small machine, and checks on every address of a region.\<close>

fun demo_poke :: "(addr \<times> word64) list \<Rightarrow> 'w mstate \<Rightarrow> 'w mstate" where
  "demo_poke [] s = s"
| "demo_poke ((a, v) # ws) s = demo_poke ws (s\<lparr>x_mem := the (wr_word 8 (x_mem s) a v)\<rparr>)"

lemma demo_poke_dom: "dom (x_mem (demo_poke ws s)) = dom (x_mem s)"
  if "list_all (\<lambda>(a, v). region a 8 \<subseteq> dom (x_mem s)) ws"
  using that
proof (induction ws s rule: demo_poke.induct)
  case (2 a v ws s)
  then obtain m where m: "wr_word 8 (x_mem s) a v = Some m" using wr_word_defined[of 8 "x_mem s" a v] by auto
  with 2 wr_word_dom[OF m] show ?case by simp
qed simp

lemma region_part:
  assumes "i + n \<le> k"
  shows "region (a + of_nat i) n \<subseteq> region a k"
proof
  fix x assume "x \<in> region (a + of_nat i) n"
  then obtain j where "j < n" "x = a + of_nat (i + j)" by (auto simp: region_def add.assoc)
  with assms show "x \<in> region a k" unfolding region_def by (intro image_eqI[of _ _ "i + j"]) auto
qed

lemma memcpy_defined:
  "memcpy m dst src n \<noteq> None \<longleftrightarrow>
     \<not> (0 < n \<and> (unat (dst - src) < n \<or> unat (src - dst) < n)) \<and> region src n \<subseteq> dom m \<and> region dst n \<subseteq> dom m"
proof (cases "rd_bytes m src n")
  case None
  then show ?thesis using rd_bytes_total[of src n m] by (auto simp: memcpy_def)
next
  case (Some bs)
  then have "region dst n \<subseteq> dom m \<longleftrightarrow> (\<exists>m'. wr_bytes m dst bs = Some m')" "region src n \<subseteq> dom m"
    using wr_bytes_total[of dst bs m] rd_bytes_length[OF Some] rd_bytes_total[of src n m] by auto
  then show ?thesis using Some by (simp add: memcpy_def)
qed

lemma memcpy_dom: "memcpy m dst src n = Some m' \<Longrightarrow> dom m' = dom m"
  using wr_bytes_dom unfolding memcpy_def by (metis (no_types, lifting) bind_Some_iff if_None_Some(1))

lemma memcpy_swap:
  assumes "memcpy m dst src n \<noteq> None" and "region src n \<union> region dst n \<subseteq> dom m'"
  shows "memcpy m' src dst n \<noteq> None"
  using assms unfolding memcpy_defined by blast

lemma memcpy_disjoint:
  assumes "memcpy m dst src n \<noteq> None" and "n \<le> 2 ^ 64"
  shows "region dst n \<inter> region src n = {}"
proof (rule ccontr)
  assume "\<not> ?thesis"
  then obtain i j where ij: "i < n" "j < n" "dst + of_nat i = src + of_nat j" by (auto simp: region_def)
  have no: "\<not> (unat (dst - src) < n) \<and> \<not> (unat (src - dst) < n)"
    using assms(1) ij(1) by (auto simp: memcpy_def split: if_split_asm)
  have u: "k < n \<Longrightarrow> unat (of_nat k :: addr) = k" for k
    using assms(2) by (simp add: unsigned_of_nat take_bit_nat_eq_self)
  show False
  proof (cases "i \<le> j")
    case True
    then have "dst - src = of_nat (j - i)" using ij(3) by (simp add: of_nat_diff algebra_simps)
    with u[of "j - i"] ij no show False by (auto simp: less_imp_diff_less)
  next
    case False
    then have "src - dst = of_nat (i - j)" using ij(3) by (simp add: of_nat_diff algebra_simps)
    with u[of "i - j"] ij no show False by (auto simp: less_imp_diff_less)
  qed
qed

text \<open>The state that \<open>OC_SETJMP\<close> saves in a \<open>machine_state_t\<close>.\<close>

definition jmp_buf_holds :: "mem \<Rightarrow> addr \<Rightarrow> 'w mstate \<Rightarrow> byte list \<Rightarrow> bool" where
  "jmp_buf_holds m ms s ws \<longleftrightarrow>
     rd_word 8 m ms = Some (x_cf s) \<and> rd_word 8 m (ms + 8) = Some (x_pc s) \<and> rd_word 8 m (ms + 16) = Some (x_fp s)
     \<and> rd_word 8 m (ms + 24) = Some (x_sp s) \<and> rd_bytes m (ms + 32) 32 = Some ws"

lemma jmp_buf_cong:
  assumes "\<And>x. x \<in> region ms 64 \<Longrightarrow> m' x = m x"
  shows "jmp_buf_holds m' ms s ws = jmp_buf_holds m ms s ws"
proof -
  have c: "rd_bytes m' (ms + of_nat i) n = rd_bytes m (ms + of_nat i) n" if "i + n \<le> 64" for i n
    using region_part[OF that, of ms] assms by (intro rd_bytes_cong) blast
  show ?thesis using c[of 0 8] c[of 8 8] c[of 16 8] c[of 24 8] c[of 32 32] by (simp add: jmp_buf_holds_def rd_word_def)
qed

lemma four_words_written:
  assumes "wr_word 8 m ms a = Some m1" and "wr_word 8 m1 (ms + 8) b = Some m2"
    and "wr_word 8 m2 (ms + 16) c = Some m3" and "wr_word 8 m3 (ms + 24) d = Some m4"
  shows "rd_word 8 m4 ms = Some a" "rd_word 8 m4 (ms + 8) = Some b"
    "rd_word 8 m4 (ms + 16) = Some c" "rd_word 8 m4 (ms + 24) = Some d"
proof -
  have dj: "region (ms + of_nat j) 8 \<inter> region (ms + of_nat i) 8 = {}" if "i + 8 \<le> j" "j \<le> 24" for i j
    using region_offset[of i 8 j 8 ms] that by (simp add: Int_commute)
  note o4 = rd_word_other[OF assms(4)] and o3 = rd_word_other[OF assms(3)] and o2 = rd_word_other[OF assms(2)]
  show "rd_word 8 m4 (ms + 24) = Some d" using rd_word_same_8[OF assms(4)] .
  show "rd_word 8 m4 (ms + 16) = Some c"
    using o4[of "ms + 16" 8] dj[of 16 24] rd_word_same_8[OF assms(3)] by simp
  show "rd_word 8 m4 (ms + 8) = Some b"
    using o4[of "ms + 8" 8] o3[of "ms + 8" 8] dj[of 8 24] dj[of 8 16] rd_word_same_8[OF assms(2)] by simp
  show "rd_word 8 m4 ms = Some a"
    using o4[of ms 8] o3[of ms 8] o2[of ms 8] dj[of 0 24] dj[of 0 16] dj[of 0 8] rd_word_same_8[OF assms(1)] by simp
qed

lemma setjmp_saves:
  assumes "exec_setjmp s = Some (Next s1)" and "stk s 2 = Some ms"
  shows "\<exists>ws. rd_bytes (x_mem s1) (x_sp s1 + 8) 32 = Some ws \<and> jmp_buf_holds (x_mem s1) ms s1 ws"
    and "memcpy (x_mem s1) (ms + 32) (x_sp s1 + 8) 32 \<noteq> None" and "x_sp s1 = x_sp s + 16"
proof -
  obtain pc cf m1 m2 m3 m4 m5 where w: "wr_word 8 (x_mem s) ms cf = Some m1" "wr_word 8 m1 (ms + 8) pc = Some m2"
      "wr_word 8 m2 (ms + 16) (x_fp s) = Some m3" "wr_word 8 m3 (ms + 24) (x_sp s + 16) = Some m4"
    and cp: "memcpy m4 (ms + 32) (x_sp s + 16 + 8) 32 = Some m5"
    and s1: "x_mem s1 = m5" "x_cf s1 = cf" "x_pc s1 = pc" "x_fp s1 = x_fp s" "x_sp s1 = x_sp s + 16"
    using assms by (auto simp: exec_setjmp_def pop_def stk_def bind_Some_iff SETJMP_NWORDS_def Let_def add.assoc)
  note c = memcpy_copies[OF cp]
  obtain ws where ws: "rd_bytes m4 (x_sp s + 16 + 8) 32 = Some ws" using c(2) by auto
  have dj: "region (ms + 32) 32 \<inter> region (x_sp s + 16 + 8) 32 = {}" using memcpy_disjoint[of m4] cp by simp
  have same: "rd_bytes m5 (x_sp s + 16 + 8) 32 = Some ws"
    using ws rd_bytes_cong[of "x_sp s + 16 + 8" 32 m5 m4] c(3) dj by auto
  have keep: "rd_word 8 m5 (ms + of_nat i) = rd_word 8 m4 (ms + of_nat i)" if "i \<le> 24" for i
    using c(3) region_offset[of i 8 32 32 ms] that by (intro rd_word_cong) auto
  have "jmp_buf_holds m5 ms s1 ws"
    using four_words_written[OF w] keep[of 0] keep[of 8] keep[of 16] keep[of 24] c(1) ws
    by (simp add: jmp_buf_holds_def s1)
  with same show "\<exists>ws. rd_bytes (x_mem s1) (x_sp s1 + 8) 32 = Some ws \<and> jmp_buf_holds (x_mem s1) ms s1 ws"
    by (auto simp: s1)
  show "x_sp s1 = x_sp s + 16" by (rule s1(5))
  have "memcpy m4 (ms + 32) (x_sp s1 + 8) 32 \<noteq> None" using cp by (simp add: s1)
  then show "memcpy (x_mem s1) (ms + 32) (x_sp s1 + 8) 32 \<noteq> None"
    unfolding memcpy_defined s1(1) memcpy_dom[OF cp] .
qed

text \<open>C27.  \<open>longjmp\<close> goes back to the \<open>setjmp\<close>.  If the buffer that \<open>OC_SETJMP\<close> filled in has not been changed, then
  \<open>OC_LONGJMP\<close> with that buffer and a value puts the program counter, stack pointer, frame pointer and
  code file back to what they were when the \<open>setjmp\<close> returned, gives its value as the result, and
  restores the words next to the stack pointer, which the calls since then may have overwritten.\<close>

theorem longjmp_returns_to_setjmp:
  assumes "exec_setjmp s = Some (Next s1)" and "stk s 2 = Some ms"
    and "\<And>x. x \<in> region ms 64 \<Longrightarrow> x_mem s2 x = x_mem s1 x"
    and "stk s2 2 = Some ms" and "stk s2 3 = Some v" and "region (x_sp s1 + 8) 32 \<subseteq> dom (x_mem s2)"
  shows "\<exists>s3. exec_longjmp s2 = Some (Next s3) \<and> x_pc s3 = x_pc s1 \<and> x_sp s3 = x_sp s1 \<and> x_fp s3 = x_fp s1
      \<and> x_cf s3 = x_cf s1 \<and> x_retval s3 = v
      \<and> rd_bytes (x_mem s3) (x_sp s3 + 8) 32 = rd_bytes (x_mem s1) (x_sp s1 + 8) 32"
proof -
  obtain ws where ws: "rd_bytes (x_mem s1) (x_sp s1 + 8) 32 = Some ws" "jmp_buf_holds (x_mem s2) ms s1 ws"
    using setjmp_saves(1)[OF assms(1,2)] jmp_buf_cong[of ms "x_mem s2" "x_mem s1"] assms(3) by auto
  then have "region (ms + 32) 32 \<subseteq> dom (x_mem s2)"
    using rd_bytes_total[of "ms + 32" 32] by (auto simp: jmp_buf_holds_def)
  with memcpy_swap[OF setjmp_saves(2)[OF assms(1,2)]] assms(6)
  obtain m where m: "memcpy (x_mem s2) (x_sp s1 + 8) (ms + 32) 32 = Some m" by blast
  from memcpy_copies(1)[OF m] ws have "rd_bytes m (x_sp s1 + 8) 32 = Some ws" by (simp add: jmp_buf_holds_def)
  with m ws assms(4,5) show ?thesis
    by (simp add: exec_longjmp_def jmp_buf_holds_def SETJMP_NWORDS_def)
qed

lemma setjmp_total:
  assumes "stk s 0 = Some pc" and "stk s 1 = Some cf" and "stk s 2 = Some ms" and "region ms 64 \<subseteq> dom (x_mem s)"
    and "region (x_sp s + 24) 32 \<subseteq> dom (x_mem s)"
    and "\<not> unat (ms + 32 - (x_sp s + 24)) < 32" and "\<not> unat (x_sp s + 24 - (ms + 32)) < 32"
  shows "\<exists>s1. exec_setjmp s = Some (Next s1) \<and> x_pc s1 = pc \<and> x_sp s1 = x_sp s + 16
     \<and> dom (x_mem s1) = dom (x_mem s) \<and> (\<forall>x. x \<notin> region ms 64 \<longrightarrow> x_mem s1 x = x_mem s x)"
proof -
  have r: "region (ms + of_nat i) n \<subseteq> dom (x_mem s)" "region (ms + of_nat i) n \<subseteq> region ms 64" if "i + n \<le> 64" for i n
    using region_part[OF that, of ms] assms(4) by auto
  obtain m1 where m1: "wr_word 8 (x_mem s) ms cf = Some m1" using r[of 0 8] wr_word_defined[of 8 "x_mem s" ms cf] by auto
  note d1 = wr_word_dom[OF m1]
  obtain m2 where m2: "wr_word 8 m1 (ms + 8) pc = Some m2" using r[of 8 8] d1 wr_word_defined[of 8 m1] by fastforce
  note d2 = wr_word_dom[OF m2]
  obtain m3 where m3: "wr_word 8 m2 (ms + 16) (x_fp s) = Some m3" using r[of 16 8] d1 d2 wr_word_defined[of 8 m2] by fastforce
  note d3 = wr_word_dom[OF m3]
  obtain m4 where m4: "wr_word 8 m3 (ms + 24) (x_sp s + 16) = Some m4"
    using r[of 24 8] d1 d2 d3 wr_word_defined[of 8 m3] by fastforce
  note d4 = wr_word_dom[OF m4]
  have "memcpy m4 (ms + 32) (x_sp s + 24) 32 \<noteq> None"
    unfolding memcpy_defined using assms(5-7) r(1)[of 32 32] d1 d2 d3 d4 by simp
  then obtain m5 where m5: "memcpy m4 (ms + 32) (x_sp s + 24) 32 = Some m5" by blast
  have o: "m5 x = x_mem s x" if x: "x \<notin> region ms 64" for x
  proof -
    have n: "x \<notin> region (ms + of_nat i) k" if "i + k \<le> 64" for i k using r(2)[OF that] x by blast
    show ?thesis
      using n[of 0 8] n[of 8 8] n[of 16 8] n[of 24 8] n[of 32 32]
      by (simp add: memcpy_copies(3)[OF m5] wr_word_elsewhere[OF m1] wr_word_elsewhere[OF m2]
          wr_word_elsewhere[OF m3] wr_word_elsewhere[OF m4])
  qed
  have "dom m5 = dom (x_mem s)" using memcpy_dom[OF m5] d1 d2 d3 d4 by simp
  moreover have "exec_setjmp s = Some (Next (s\<lparr>x_retval := 0, x_sp := x_sp s + 16, x_pc := pc, x_cf := cf, x_mem := m5\<rparr>))"
    using assms(1-3) m1 m2 m3 m4 m5 by (simp add: exec_setjmp_def pop_def stk_def SETJMP_NWORDS_def add.assoc)
  ultimately show ?thesis using o by simp
qed

text \<open>A jump buffer at 0x1800, its address and the value 7 as arguments.\<close>

definition demo_jump :: "unit mstate" where
  "demo_jump = demo_poke [(0x2000, 0x2900), (0x2010, 0x1800), (0x2018, 7)] (demo_state [])"

theorem longjmp_returns_to_setjmp_witness:
  "\<exists>s1 s3. exec_setjmp demo_jump = Some (Next s1) \<and> exec_longjmp (s1\<lparr>x_sp := 0x2000\<rparr>) = Some (Next s3)
      \<and> x_pc s3 = 0x2900 \<and> x_sp s3 = 0x2010 \<and> x_retval s3 = 7"
proof -
  have st: "stk demo_jump 0 = Some 0x2900" "stk demo_jump 1 = Some 0" "stk demo_jump 2 = Some 0x1800"
    "stk demo_jump 3 = Some 7" "x_sp demo_jump = 0x2000" by code_simp+
  have d: "dom (x_mem demo_jump) = dom (demo_mem [])" unfolding demo_jump_def
    by (subst demo_poke_dom) (simp_all add: demo_state_def demo_mapped)
  have "region 0x1800 64 \<subseteq> dom (x_mem demo_jump)" "region (0x2000 + 24) 32 \<subseteq> dom (x_mem demo_jump)"
    unfolding d by (rule demo_mapped; simp)+
  with setjmp_total[of demo_jump "0x2900" 0 "0x1800"] st obtain s1 where
    1: "exec_setjmp demo_jump = Some (Next s1)" and s1: "x_pc s1 = 0x2900" "x_sp s1 = 0x2010"
      "dom (x_mem s1) = dom (x_mem demo_jump)" and o: "\<And>x. x \<notin> region 0x1800 64 \<Longrightarrow> x_mem s1 x = x_mem demo_jump x" by auto
  have "stk (s1\<lparr>x_sp := 0x2000\<rparr>) i = stk demo_jump i" if "i \<in> {2, 3}" for i
    using that region_disjoint[of "0x1800" 64 "0x2010" 8] region_disjoint[of "0x1800" 64 "0x2018" 8]
    unfolding stk_def st(5) by (auto intro!: rd_word_cong o)
  with st have "stk (s1\<lparr>x_sp := 0x2000\<rparr>) 2 = Some 0x1800" "stk (s1\<lparr>x_sp := 0x2000\<rparr>) 3 = Some 7" by simp_all
  moreover have "region (x_sp s1 + 8) 32 \<subseteq> dom (x_mem (s1\<lparr>x_sp := 0x2000\<rparr>))"
    unfolding s1 d by (simp add: s1(3) d) (rule demo_mapped; simp)
  ultimately show ?thesis
    using longjmp_returns_to_setjmp[OF 1 st(3), of "s1\<lparr>x_sp := 0x2000\<rparr>" 7] 1 s1 by auto
qed


section \<open>Switches\<close>

lemma take_bit_word_diff:
  fixes a b :: word64
  assumes "n \<le> 64"
  shows "take_bit n (take_bit n a - take_bit n b) = take_bit n (a - b)"
proof -
  have "uint (x - y) = take_bit 64 (uint x - uint y)" for x y :: word64
    by (simp add: uint_word_ariths(2) take_bit_eq_mod)
  then have *: "uint (take_bit n (x - y)) = take_bit n (uint x - uint y)" for x y :: word64
    using assms by (simp add: unsigned_take_bit_eq min_def)
  show ?thesis by (rule word_uint_eqI) (simp only: *, simp add: unsigned_take_bit_eq take_bit_diff)
qed

text \<open>The cases of a switch as the compiler lays them out: the value and the branch offset of each, then the
  offset for the default.\<close>

fun chain_bytes :: "isz \<Rightarrow> (word64 \<times> word64) list \<Rightarrow> word64 \<Rightarrow> byte list" where
  "chain_bytes sz [] dflt = bytes_of 2 dflt"
| "chain_bytes sz ((c, d) # cs) dflt = bytes_of (isz_nbytes sz) c @ bytes_of 2 d @ chain_bytes sz cs dflt"

text \<open>Where a chain at \<open>a\<close> sends the value \<open>v\<close>: an offset counts from its own position.\<close>

fun chain_target :: "isz \<Rightarrow> word64 \<Rightarrow> (word64 \<times> word64) list \<Rightarrow> word64 \<Rightarrow> addr \<Rightarrow> addr" where
  "chain_target sz v [] dflt a = a + to_short dflt"
| "chain_target sz v ((c, d) # cs) dflt a =
     (if to_int (take_bit (8 * isz_nbytes sz) c) = v then a + of_nat (isz_nbytes sz) + to_short d
      else chain_target sz v cs dflt (a + of_nat (isz_nbytes sz) + 2))"

lemma to_short_take_bit [simp]: "to_short (take_bit 16 d) = to_short d"
  by (simp add: to_short_def signed_take_bit_take_bit)

lemma jump_at:
  assumes "code_at (x_mem s) (x_pc s) (bytes_of 2 d)"
  shows "jump s = Some (Next (s\<lparr>x_pc := x_pc s + to_short d\<rparr>))"
  using assms by (simp add: jump_def text_at_def code_at_def rd_word_def word_of_bytes_of)

lemma switch_chain_dispatch:
  assumes "code_at (x_mem s) (x_pc s) (chain_bytes sz cs dflt)"
  shows "switch_chain sz v (length cs) s = Some (Next (s\<lparr>x_pc := chain_target sz v cs dflt (x_pc s)\<rparr>))"
  using assms
proof (induction cs arbitrary: s)
  case Nil
  then show ?case by (simp add: jump_at)
next
  case (Cons p cs)
  obtain c d where p: "p = (c, d)" by (cases p)
  let ?t = "skip_text (isz_nbytes sz) s"
  have c: "code_at (x_mem s) (x_pc s) (bytes_of (isz_nbytes sz) c)"
    and d: "code_at (x_mem ?t) (x_pc ?t) (bytes_of 2 d)"
    and r: "code_at (x_mem (skip_text 2 ?t)) (x_pc (skip_text 2 ?t)) (chain_bytes sz cs dflt)"
    using Cons.prems by (simp_all add: p code_at_append)
  show ?case
    using fetch_at[OF c] jump_at[OF d] Cons.IH[OF r]
    by (simp add: p word_of_bytes_of) (simp add: skip_text_def add.assoc)
qed

text \<open>\<open>OC_SWITCH_ON_CHAIN\<close> implements the switch: with the chain of the cases in the text, the machine pops the
  switch value and goes to the branch of the first case whose value, relative to the least case value
  and as an \<open>int\<close>, is the switch value, and to the default branch when there is none.\<close>

theorem switch_on_chain_dispatches:
  assumes "code_at (x_mem s) (x_pc s) (bytes_of 2 (of_nat (length cs)) @ bytes_of 4 minval @ chain_bytes sz cs dflt)"
    and "length cs < 2 ^ 16" and "stk s 0 = Some v"
  shows "exec_switch_on_chain sz s = Some (Next (s\<lparr>x_sp := x_sp s + 8,
      x_pc := chain_target sz (to_int (v - to_int minval)) cs dflt (x_pc s + 6)\<rparr>))"
proof -
  let ?t = "skip_text 4 (skip_text 2 s)\<lparr>x_sp := x_sp s + 8\<rparr>"
  have n: "code_at (x_mem s) (x_pc s) (bytes_of 2 (of_nat (length cs)))"
    and m: "code_at (x_mem (skip_text 2 s)) (x_pc (skip_text 2 s)) (bytes_of 4 minval)"
    and r: "code_at (x_mem ?t) (x_pc ?t) (chain_bytes sz cs dflt)"
    using assms(1) by (simp_all add: code_at_append)
  have f: "fetch SZ_W s = Some (of_nat (length cs), skip_text 2 s)"
    using fetch_at[OF n, of SZ_W] assms(2) by (simp add: word_of_bytes_of_small unsigned_of_nat take_bit_nat_eq_self)
  have l: "unat (of_nat (length cs) :: word64) = length cs"
    using assms(2) by (simp add: unsigned_of_nat take_bit_nat_eq_self)
  have "to_int (take_bit 32 minval) = to_int minval" by (simp add: to_int_def signed_take_bit_take_bit)
  then show ?thesis
    using f fetch_at[OF m, of SZ_L] switch_chain_dispatch[OF r, of "to_int (v - to_int minval)"] assms(3) l
    by (simp add: exec_switch_on_chain_def pop_def stk_def word_of_bytes_of) (simp add: skip_text_def add.commute)
qed

theorem switch_on_chain_dispatches_witness:
  "exec_switch_on_chain SZ_B (demo_state ([2, 0] @ [0, 0, 0, 0] @ [5, 16, 0] @ [0, 32, 0] @ [64, 0]))
     = Some (Next ((demo_state ([2, 0] @ [0, 0, 0, 0] @ [5, 16, 0] @ [0, 32, 0] @ [64, 0]))\<lparr>x_sp := 0x2008, x_pc := 0x282a\<rparr>))"
proof -
  let ?c = "[2, 0] @ [0, 0, 0, 0] @ [5, 16, 0] @ [0, 32, 0] @ [64, 0] :: byte list"
  have c: "bytes_of 2 (of_nat (length [(5, 16), (0, 32)])) @ bytes_of 4 0 @ chain_bytes SZ_B [(5, 16), (0, 32)] 64 = ?c"
    by code_simp
  have t: "chain_target SZ_B (to_int (0 - to_int 0)) [(5, 16), (0, 32)] 64 (0x2800 + 6) = 0x282a" by code_simp
  show ?thesis
    using switch_on_chain_dispatches[of "demo_state ?c" "[(5, 16), (0, 32)]" 0 SZ_B 64 0] t demo_code[of ?c] demo_stk[of 0 ?c]
    unfolding c by (simp add: demo_state_def)
qed

text \<open>The table of a dense switch: one offset per value from the least one on, then the default's.\<close>

fun table_bytes :: "word64 list \<Rightarrow> byte list" where
  "table_bytes [] = []"
| "table_bytes (d # ds) = bytes_of 2 d @ table_bytes ds"

lemma table_entry:
  "code_at m a (table_bytes ds) \<Longrightarrow> i < length ds \<Longrightarrow> code_at m (a + of_nat (2 * i)) (bytes_of 2 (ds ! i))"
proof (induction ds arbitrary: a i)
  case (Cons d ds)
  show ?case
  proof (cases i)
    case 0
    with Cons.prems show ?thesis by (simp add: code_at_append)
  next
    case (Suc j)
    with Cons.prems Cons.IH[of "a + 2" j] show ?thesis by (simp add: code_at_append add.assoc)
  qed
qed simp

text \<open>\<open>OC_SWITCH_ON_TABLE\<close> implements a dense switch: the machine pops the switch value, subtracts the least case
  value as 32-bit integers, and goes to the branch of that entry of the table; every value outside the
  table, below it or above it, goes to the default branch, the last entry.\<close>

theorem switch_on_table_dispatches:
  assumes "code_at (x_mem s) (x_pc s) (bytes_of 2 (of_nat n) @ bytes_of 4 minval @ table_bytes ds)"
    and "length ds = n + 1" and "n < 2 ^ 16" and "stk s 0 = Some v"
    and "i = (let k = unat (take_bit 32 (v - minval)) in if k < n then k else n)"
  shows "exec_switch_on_table s = Some (Next (s\<lparr>x_sp := x_sp s + 8,
      x_pc := x_pc s + 6 + of_nat (2 * i) + to_short (ds ! i)\<rparr>))"
proof -
  let ?k = "take_bit 32 (v - to_int (take_bit 32 minval))"
  let ?t = "skip_text 2 s\<lparr>x_sp := x_sp s + 8\<rparr>"
  have m: "code_at (x_mem s) (x_pc s) (bytes_of 2 (of_nat n))"
    "code_at (x_mem s) (x_pc s + 2) (bytes_of 4 minval)" "code_at (x_mem s) (x_pc s + 6) (table_bytes ds)"
    using assms(1) by (simp_all add: code_at_append add.assoc)
  have nn: "unat (of_nat n :: word64) = n" using assms(3) by (simp add: unsigned_of_nat take_bit_nat_eq_self)
  have f: "fetch SZ_W s = Some (of_nat n, skip_text 2 s)"
    using fetch_at[OF m(1), of SZ_W] assms(3) nn by (simp add: word_of_bytes_of_small)
  have k: "?k = take_bit 32 (v - minval)"
  proof -
    have "min 31 n = n" if "n < 32" for n :: nat using that by arith
    then have "take_bit 32 (to_int (take_bit 32 minval)) = take_bit 32 minval"
      by (intro bit_word_eqI) (auto simp: to_int_def bit_simps)
    with take_bit_word_diff[of 32 v "to_int (take_bit 32 minval)"] take_bit_word_diff[of 32 v minval] show ?thesis by simp
  qed
  have i: "(if of_nat n \<le> ?k then of_nat n else ?k) = (of_nat i :: word64)"
    using assms(5) nn k by (auto simp: Let_def word_le_nat_alt)
  have "i < length ds" using assms(2,5) by (simp add: Let_def)
  from jump_at[of "?t\<lparr>x_pc := x_pc s + 6 + of_nat (2 * i)\<rparr>"] table_entry[OF m(3) this]
  have j: "jump (?t\<lparr>x_pc := x_pc s + 6 + of_nat (2 * i)\<rparr>)
      = Some (Next (s\<lparr>x_sp := x_sp s + 8, x_pc := x_pc s + 6 + of_nat (2 * i) + to_short (ds ! i)\<rparr>))"
    by (simp add: skip_text_def)
  have "text_at SZ_L (skip_text 2 s) = Some (take_bit 32 minval)"
    using m(2) by (simp add: text_at_def code_at_def rd_word_def word_of_bytes_of)
  moreover have "pop (skip_text 2 s) = Some (v, ?t)" using assms(4) by (simp add: pop_def stk_def)
  ultimately show ?thesis using f i j by (simp add: exec_switch_on_table_def Let_def add.assoc mult.commute)
qed

theorem switch_on_table_dispatches_witness:
  "exec_switch_on_table (demo_state ([2, 0] @ [255, 255, 255, 255] @ [5, 0] @ [16, 0] @ [64, 0]))
     = Some (Next ((demo_state ([2, 0] @ [255, 255, 255, 255] @ [5, 0] @ [16, 0] @ [64, 0]))\<lparr>x_sp := 0x2008, x_pc := 0x2818\<rparr>))"
proof -
  let ?c = "[2, 0] @ [255, 255, 255, 255] @ [5, 0] @ [16, 0] @ [64, 0] :: byte list"
  have c: "bytes_of 2 (of_nat 2) @ bytes_of 4 (- 1) @ table_bytes [5, 16, 64] = ?c" by code_simp
  have i: "1 = (let k = unat (take_bit 32 (0 - (- 1)) :: word64) in if k < 2 then k else 2)" by code_simp
  have t: "0x2800 + 6 + of_nat (2 * 1) + to_short ([5, 16, 64] ! 1) = (0x2818 :: addr)" by code_simp
  show ?thesis
    using switch_on_table_dispatches[of "demo_state ?c" 2 "- 1" "[5, 16, 64]" 0 1] i t demo_code[of ?c] demo_stk[of 0 ?c]
    unfolding c by (simp add: demo_state_def)
qed


section \<open>Bit fields\<close>

lemma exp_mask: "2 ^ n - 1 = (mask n :: word64)"
  by (simp add: mask_eq_exp_minus_1)

lemma extract_bits_eq: "offset < 64 \<Longrightarrow> width \<le> 30 \<Longrightarrow> extract_bits v offset width = Some (take_bit width (drop_bit offset v))"
  by (simp add: extract_bits_def exp_mask take_bit_eq_mask)

lemma insert_bits_Some:
  assumes "insert_bits old new offset width = Some v"
  shows "offset + width \<le> 31" "width \<le> 30"
    and "v = (old AND NOT (push_bit offset (mask width))) OR (push_bit offset new AND push_bit offset (mask width))"
  using assms by (auto simp: insert_bits_def Let_def exp_mask split: if_split_asm)

lemma inserted_field:
  assumes "insert_bits old new offset width = Some v"
  shows "extract_bits v offset width = Some (take_bit width new)"
proof -
  note w = insert_bits_Some[OF assms]
  have "take_bit width (drop_bit offset v) = take_bit width new"
    by (rule bit_word_eqI) (use w(1,2) in \<open>auto simp: w(3) bit_simps\<close>)
  with w(1,2) show ?thesis by (simp add: extract_bits_eq)
qed








text \<open>A negative bit field is extended to 32 bits only: extracting a signed field gives the low 32 bits of the
  sign-extended value, so a field that holds a negative value becomes a positive stack word.\<close>

theorem signed_bitfield_32_bits:
  assumes "insert_bits old new offset width = Some v" and "0 < width"
  shows "Option.bind (extract_bits v offset width) (\<lambda>x. extend_bits x width)
     = Some (take_bit 32 (signed_take_bit (width - 1) new))"
proof -
  note w = insert_bits_Some(1,2)[OF assms(1)] and x = inserted_field[OF assms(1)]
  have b: "take_bit width new AND push_bit (width - 1) 1 \<noteq> 0 \<longleftrightarrow> bit new (width - 1)"
    using assms(2) by (simp add: and_exp_eq_0_iff_not_bit bit_simps)
  have "take_bit width new OR ucast (push_bit width (- 1 :: 32 word)) = take_bit 32 (signed_take_bit (width - 1) new)"
    if "bit new (width - 1)"
    by (rule bit_word_eqI, cases width)
      (use w assms(2) that in \<open>auto simp: bit_simps min_def not_less less_Suc_eq le_less\<close>)
  moreover have "take_bit width new = take_bit 32 (signed_take_bit (width - 1) new)" if "\<not> bit new (width - 1)"
    by (rule bit_word_eqI, cases width)
      (use w assms(2) that in \<open>auto simp: bit_simps min_def not_less less_Suc_eq le_less\<close>)
  ultimately show ?thesis using b assms(2) by (simp add: x extend_bits_def)
qed

theorem signed_bitfield_32_bits_witness:
  "Option.bind (extract_bits 0xf0 4 3) (\<lambda>x. extend_bits x 3) = Some 0xffffffff"
proof -
  have i: "insert_bits 0x80 (- 1) 4 3 = Some 0xf0" by code_simp
  have "take_bit 32 (signed_take_bit (3 - 1) (- 1)) = (0xffffffff :: word64)" by code_simp
  with signed_bitfield_32_bits[OF i] show ?thesis by simp
qed

end
