(* ===== verification/Ups_Data_Props.thy ===== *)
theory Ups_Data_Props
  imports Ups_Exec_Props
begin

text \<open>
  Values through the machine: division as C defines it, loads after stores in the interpreter's own
  memory and in the target process, and the multiple arrow.
\<close>

section \<open>Division\<close>

lemma c_quot_spec:
  assumes "b \<noteq> 0"
  shows "\<exists>r. a = c_quot a b * b + r \<and> \<bar>r\<bar> < \<bar>b\<bar> \<and> (r = 0 \<or> sgn r = sgn a)"
proof -
  let ?r = "sgn a * (\<bar>a\<bar> mod \<bar>b\<bar>)"
  have "c_quot a b * b = sgn a * (\<bar>a\<bar> div \<bar>b\<bar> * \<bar>b\<bar>)"
    by (simp add: c_quot_def abs_sgn[of b])
  then have "c_quot a b * b + ?r = sgn a * (\<bar>a\<bar> div \<bar>b\<bar> * \<bar>b\<bar> + \<bar>a\<bar> mod \<bar>b\<bar>)"
    by (simp only: distrib_left)
  also have "\<dots> = a" by (simp add: sgn_mult_abs)
  finally have "a = c_quot a b * b + ?r" by simp
  moreover have "\<bar>?r\<bar> < \<bar>b\<bar>" using assms by (simp add: abs_mult abs_sgn_eq)
  moreover have "?r = 0 \<or> sgn ?r = sgn a"
  proof (cases "\<bar>a\<bar> mod \<bar>b\<bar> = 0")
    case False
    then have "0 < \<bar>a\<bar> mod \<bar>b\<bar>" using assms pos_mod_sign[of "\<bar>b\<bar>" "\<bar>a\<bar>"] by linarith
    then show ?thesis by (simp add: sgn_mult)
  qed simp
  ultimately show ?thesis by blast
qed

lemma c_quot_fits:
  assumes "b \<noteq> 0" and "\<not> (a = - (2 ^ 63) \<and> b = - 1)" and "fits_long a"
  shows "fits_long (c_quot a b)"
proof -
  consider "b = 1" | "b = - 1" | "2 \<le> \<bar>b\<bar>" using assms(1) by linarith
  then show ?thesis
  proof cases
    case 1
    then show ?thesis using assms(3) by (simp add: c_quot_def sgn_mult_abs)
  next
    case 2
    then show ?thesis using assms(2,3) by (simp add: c_quot_def sgn_mult_abs fits_long_def)
  next
    case 3
    then have "\<bar>a\<bar> div \<bar>b\<bar> \<le> \<bar>a\<bar> div 2" by (intro zdiv_mono2) simp_all
    moreover have "\<bar>a\<bar> div 2 \<le> 2 ^ 62"
      using assms(3) zdiv_mono1[of "\<bar>a\<bar>" "2 ^ 63" 2] by (simp add: fits_long_def abs_le_iff)
    moreover have "\<bar>c_quot a b\<bar> \<le> \<bar>a\<bar> div \<bar>b\<bar>"
      by (simp add: c_quot_def abs_mult abs_sgn_eq pos_imp_zdiv_nonneg_iff)
    ultimately have "\<bar>c_quot a b\<bar> \<le> 2 ^ 62" by linarith
    then show ?thesis by (simp add: fits_long_def abs_le_iff)
  qed
qed

lemma fits_long_sint: "fits_long (sint (w :: word64))"
  using sint_ge[of w] sint_lt[of w] by (simp add: fits_long_def)

lemma sint_of_fits: "fits_long i \<Longrightarrow> sint (word_of_int i :: word64) = i"
  by (simp add: fits_long_def signed_of_int signed_take_bit_int_eq_self)

text \<open>What a binary instruction on words leaves when its operator gives a value.\<close>

lemma word_binop_value:
  assumes "stk s 0 = Some b" and "stk s 1 = Some a" and "f a b = Some (Val v)"
  shows "\<exists>s'. exec_word_binop f s = Some (Next s') \<and> stk s' 0 = Some v \<and> x_sp s' = x_sp s + 8 \<and> x_pc s' = x_pc s"
proof -
  have "\<exists>w. rd_word 8 (x_mem s) (x_sp s + 8) = Some w" using assms(2) by (simp add: stk_def)
  then obtain m where m: "wr_word 8 (x_mem s) (x_sp s + 8) v = Some m"
    using rd_word_defined[of 8 "x_mem s" "x_sp s + 8"] wr_word_defined[of 8 "x_mem s" "x_sp s + 8" v] by blast
  from rd_word_same_8[OF m] m assms show ?thesis
    by (simp add: exec_word_binop_def set_stk_def stk_def)
qed

text \<open>C35.  Signed division: with operands \<open>a\<close> and \<open>b\<close> on the stack, the checked division stops the machine with
  \<open>CI_ER_DIVISION_BY_ZERO\<close> exactly when \<open>b\<close> is 0; the quotient of the least \<open>long\<close> and -1 raises the arithmetic
  signal; in every other case the quotient that replaces the operands is that of C: truncated towards
  zero, with a remainder smaller than \<open>b\<close> that has the sign of \<open>a\<close>.\<close>

theorem checked_signed_division:
  assumes "stk s 0 = Some b" and "stk s 1 = Some a"
  shows "if b = 0 then exec e (OC_ARITH AR_CHKDIV_SIGNED N_WORD) s = Some (Quit CI_ER_DIVISION_BY_ZERO s)
    else if sint a = - (2 ^ 63) \<and> sint b = - 1 then exec e (OC_ARITH AR_CHKDIV_SIGNED N_WORD) s = Some (Sigfpe s)
    else \<exists>s' q r. exec e (OC_ARITH AR_CHKDIV_SIGNED N_WORD) s = Some (Next s') \<and> stk s' 0 = Some q
      \<and> x_sp s' = x_sp s + 8 \<and> sint a = sint q * sint b + r \<and> \<bar>r\<bar> < \<bar>sint b\<bar> \<and> (r = 0 \<or> sgn r = sgn (sint a))"
proof -
  consider "b = 0" | "b \<noteq> 0" "sint a = - (2 ^ 63) \<and> sint b = - 1"
    | "b \<noteq> 0" "\<not> (sint a = - (2 ^ 63) \<and> sint b = - 1)" by blast
  then show ?thesis
  proof cases
    case 1
    then show ?thesis using assms by (simp add: exec_word_binop_def)
  next
    case 2
    then have "\<not> fits_long (c_quot (sint a) (sint b))" by (simp add: c_quot_def fits_long_def)
    with 2 show ?thesis using assms by (simp add: exec_word_binop_def div_signed_def)
  next
    case 3
    let ?q = "c_quot (sint a) (sint b)"
    have b: "sint b \<noteq> 0" using 3(1) by (simp add: signed_eq_0_iff)
    have f: "fits_long ?q" using c_quot_fits[OF b 3(2) fits_long_sint] .
    with 3(1) have "arith_value AR_CHKDIV_SIGNED a b = Some (Val (word_of_int ?q))" by (simp add: div_signed_def)
    from word_binop_value[of s b a "arith_value AR_CHKDIV_SIGNED", OF assms this] obtain s' where
      s': "exec e (OC_ARITH AR_CHKDIV_SIGNED N_WORD) s = Some (Next s')" "stk s' 0 = Some (word_of_int ?q)" "x_sp s' = x_sp s + 8"
      by auto
    have "sint (word_of_int ?q :: word64) = ?q" by (rule sint_of_fits[OF f])
    with s' c_quot_spec[OF b, of "sint a"] 3 show ?thesis by auto
  qed
qed

theorem checked_signed_division_witness:
  "exec demo_env (OC_ARITH AR_CHKDIV_SIGNED N_WORD) (demo_state []) = Some (Quit CI_ER_DIVISION_BY_ZERO (demo_state []))"
  using checked_signed_division[of "demo_state []" 0 0 demo_env] demo_stk[of 0 "[]"] demo_stk[of 1 "[]"] by simp

text \<open>\<open>OC_MOD\<close> is not C's remainder on signed operands: with -7 and 2 on the stack it leaves 1, the remainder of
  the 64-bit pattern of -7, although the remainder of the quotient that the machine itself computes for
  -7 / 2 is -1.\<close>

theorem mod_is_unsigned:
  "int_value IN_MOD (- 7) 2 = Some (Val 1)
     \<and> arith_value AR_DIV_SIGNED (- 7) 2 = Some (Val (- 3)) \<and> (- 7 :: int) - (- 3) * 2 \<noteq> 1"
  by code_simp

section \<open>Loads and stores\<close>

text \<open>The store that belongs to a load, and what the load makes of the stored word.\<close>

primrec lty_aty :: "lty \<Rightarrow> aty" where
  "lty_aty LT_SLL = A_LONG_LONG" | "lty_aty LT_ULL = A_LONG_LONG"
| "lty_aty LT_SB = A_BYTE" | "lty_aty LT_UB = A_BYTE"
| "lty_aty LT_SW = A_WORD" | "lty_aty LT_UW = A_WORD"
| "lty_aty LT_SL = A_LONG" | "lty_aty LT_UL = A_LONG"
| "lty_aty LT_F = A_FLOAT" | "lty_aty LT_D = A_DOUBLE"

definition stored_value :: "lty \<Rightarrow> word64 \<Rightarrow> word64" where
  "stored_value t v = (case t of LT_SB \<Rightarrow> sext 1 v | LT_SW \<Rightarrow> sext 2 v
     | LT_UB \<Rightarrow> take_bit 8 v | LT_UW \<Rightarrow> take_bit 16 v | _ \<Rightarrow> v)"

lemma rd_sword_same:
  assumes "wr_word n m a w = Some m'" and "0 < n" and "n \<le> 8"
  shows "rd_sword n m' a = Some (sext n w)"
proof -
  have "rd_bytes m' a n = Some (bytes_of n w)"
    using assms ram.rd_after_wr[of m a "bytes_of n w" m'] by (simp add: wr_word_def)
  moreover have "signed_take_bit (8 * n - 1) (take_bit (8 * n) w) = signed_take_bit (8 * n - 1) w"
    using assms(2) by (intro bit_word_eqI) (auto simp: bit_simps min_def)
  ultimately show ?thesis by (simp add: rd_sword_def sext_def word_of_bytes_of)
qed

lemma sext_8 [simp]: "sext 8 v = v"
proof -
  have "min 63 n = n" if "n < 64" for n :: nat using that by arith
  then show ?thesis by (intro bit_word_eqI) (simp add: sext_def bit_simps)
qed

lemma load_after_store:
  assumes "wr_word (aty_ptr_nbytes (lty_aty t)) m a v = Some m'" and "\<And>x. x \<in> region a 8 \<Longrightarrow> x_mem s x = m' x"
  shows "\<exists>s'. load t s a = Some (stored_value t v, s') \<and> x_mem s' = x_mem s \<and> x_sp s' = x_sp s"
proof -
  have "rd_bytes (x_mem s) a n = rd_bytes m' a n" if "n \<le> 8" for n
    using assms(2) region_part[of 0 n 8 a] that by (intro rd_bytes_cong) auto
  then have n: "rd_word n (x_mem s) a = rd_word n m' a" "rd_sword n (x_mem s) a = rd_sword n m' a" if "n \<le> 8" for n
    using that by (simp_all add: rd_word_def rd_sword_def)
  show ?thesis
    using rd_word_same[OF assms(1)] rd_sword_same[OF assms(1)]
    by (cases t) (simp_all add: load_def stored_value_def n take_bit_word_eq_self)
qed

text \<open>C30.  What a plain store writes, the matching load reads: after \<open>OC_ASSIGN\<close> of a value to an address, as long as the
  eight bytes there are not changed, \<open>OC_DEREF\<close> at that address replaces it by the value, cut to the
  width of the type and extended again according to its sign.\<close>

theorem assign_deref_roundtrip:
  assumes "stk s 0 = Some v" and "stk s 1 = Some a" and "exec e (OC_ASSIGN (lty_aty t)) s = Some (Next s1)"
    and "stk s2 0 = Some a" and "\<And>x. x \<in> region a 8 \<Longrightarrow> x_mem s2 x = x_mem s1 x"
  shows "\<exists>s3. exec e (OC_DEREF t) s2 = Some (Next s3) \<and> stk s3 0 = Some (stored_value t v) \<and> x_sp s3 = x_sp s2"
proof -
  obtain m where m: "wr_word (aty_ptr_nbytes (lty_aty t)) (x_mem s) a v = Some m" "x_mem s1 = m"
    using assms(1-3) by (auto simp: exec_assign_def store_def bind_Some_iff Let_def split: if_split_asm)
  let ?s = "s2\<lparr>x_sp := x_sp s2 + 8\<rparr>"
  obtain s' where s': "load t ?s a = Some (stored_value t v, s')" "x_mem s' = x_mem s2" "x_sp s' = x_sp s2 + 8"
    using load_after_store[OF m(1), of ?s] assms(5) m(2) by auto
  have r: "rd_word 8 (x_mem s2) (x_sp s2) = Some a" using assms(4) by (simp add: stk_def)
  then obtain m' where w: "wr_word 8 (x_mem s2) (x_sp s2) (stored_value t v) = Some m'"
    using rd_word_defined[of 8 "x_mem s2" "x_sp s2"] wr_word_defined[of 8 "x_mem s2" "x_sp s2"] by blast
  from rd_word_same_8[OF w] w s' r show ?thesis by (simp add: exec_deref_def pop_def push_def stk_def)
qed

theorem assign_deref_roundtrip_witness:
  "let s = demo_poke [(0x2000, 0x180), (0x2008, 0x1800)] (demo_state []); s1 = next_of (exec demo_env (OC_ASSIGN A_BYTE) s)
   in \<exists>s3. exec demo_env (OC_DEREF LT_SB) (s1\<lparr>x_sp := 0x2008\<rparr>) = Some (Next s3) \<and> stk s3 0 = Some (- 128)"
proof -
  let ?s = "demo_poke [(0x2000, 0x180), (0x2008, 0x1800)] (demo_state [])"
  let ?s1 = "next_of (exec demo_env (OC_ASSIGN A_BYTE) ?s)"
  have s: "stk ?s 0 = Some 0x180" "stk ?s 1 = Some 0x1800" "stk (?s1\<lparr>x_sp := 0x2008\<rparr>) 0 = Some 0x1800" by code_simp+
  have x: "exec demo_env (OC_ASSIGN (lty_aty LT_SB)) ?s = Some (Next ?s1)" unfolding lty_aty.simps
    by (rule next_of_eq) code_simp
  have v: "stored_value LT_SB 0x180 = - 128" by code_simp
  show ?thesis using assign_deref_roundtrip[OF s(1,2) x s(3)] unfolding v Let_def by auto
qed

section \<open>Data of the target process\<close>

text \<open>What the machine relies on in the callbacks that access the target: bytes that were written can be read
  back.\<close>

definition target_keeps :: "('w \<Rightarrow> addr \<Rightarrow> nat \<Rightarrow> byte list option) \<Rightarrow> ('w \<Rightarrow> addr \<Rightarrow> byte list \<Rightarrow> 'w option) \<Rightarrow> bool" where
  "target_keeps rd wr \<longleftrightarrow> (\<forall>w a bs w'. wr w a bs = Some w' \<longrightarrow> rd w' a (length bs) = Some bs)"

lemma take_bit_set_low [simp]: "take_bit (8 * n) (set_low n d v) = take_bit (8 * n) v"
  by (rule bit_word_eqI) (auto simp: set_low_def bit_simps)

lemma set_low_8 [simp]: "set_low 8 d v = v"
  by (rule bit_word_eqI) (auto simp: set_low_def bit_simps)

lemma sext_take_bit: "0 < n \<Longrightarrow> take_bit (8 * n) v = take_bit (8 * n) w \<Longrightarrow> sext n v = sext n w"
proof -
  assume n: "0 < n" and e: "take_bit (8 * n) v = take_bit (8 * n) w"
  have "signed_take_bit (8 * n - 1) u = signed_take_bit (8 * n - 1) (take_bit (8 * n) u)" for u :: word64
    using n by (intro bit_word_eqI) (auto simp: bit_simps min_def)
  with e show "sext n v = sext n w" unfolding sext_def by metis
qed

lemma d0_value_low:
  assumes "take_bit (8 * lty_member_nbytes t) d = take_bit (8 * lty_member_nbytes t) v" and "t \<noteq> LT_F"
  shows "d0_value t d = d0_value t v"
  using assms sext_take_bit[of 1 d v] sext_take_bit[of 2 d v] sext_take_bit[of 4 d v]
  by (cases t) (simp_all add: take_bit_word_eq_self)

text \<open>What a store to the target process writes, the matching load reads.  Both go through the callbacks; as long
  as the target has not changed, \<open>OC_PROC_DEREF\<close> gives back the value that \<open>OC_PROC_ASSIGN\<close> stored, cut to the
  union member it went through and extended again.  For the \<open>LONG\<close> forms the member has 32 bits: the
  upper half of a \<open>long\<close> is lost.  Of a \<open>float\<close> only the low four bytes are determined.\<close>

theorem proc_assign_deref_roundtrip:
  assumes "e_readproc e = Some rd" and "e_writeproc e = Some wr" and "target_keeps rd wr"
    and "\<not> is_ci_addr e a" and "stk s 0 = Some v" and "stk s 1 = Some a"
    and "exec e (OC_PROC_ASSIGN (lty_aty t)) s = Some (Next s1)"
    and "stk s2 0 = Some a" and "x_world s2 = x_world s1"
  shows "\<exists>s3 r. exec e (OC_PROC_DEREF t) s2 = Some (Next s3) \<and> stk s3 0 = Some r \<and> x_sp s3 = x_sp s2
     \<and> (if t = LT_F then take_bit 32 r = take_bit 32 v else r = d0_value t v)"
proof -
  let ?n = "lty_member_nbytes t"
  let ?d = "d0_store (lty_aty t) (x_d0 s) v"
  have n: "aty_member_nbytes (lty_aty t) = ?n" "?n \<le> 8" by (cases t; simp)+
  have d: "take_bit (8 * ?n) ?d = take_bit (8 * ?n) v"
    using take_bit_set_low[of ?n "x_d0 s" v] by (cases t) (simp_all add: d0_store_def)
  obtain w where w: "wr (x_world s) a (bytes_of ?n ?d) = Some w" "x_world s1 = w"
    using assms(2,4-7) n(1)
    by (auto simp: exec_proc_assign_def proc_store_def writedata_def bind_Some_iff stk_def Let_def
        split: option.split_asm sum.split_asm if_split_asm)
  have "rd (x_world s2) a ?n = Some (bytes_of ?n ?d)"
    using assms(3,9) w unfolding target_keeps_def by (metis length_bytes_of)
  then have rdd: "readdata e s2 a ?n = Some (Some (bytes_of ?n ?d))" by (simp add: readdata_def assms(1))
  let ?d2 = "set_low ?n (x_d0 s2) (word_of (bytes_of ?n ?d))"
  have r: "rd_word 8 (x_mem s2) (x_sp s2) = Some a" using assms(8) by (simp add: stk_def)
  then obtain m' where m': "wr_word 8 (x_mem s2) (x_sp s2) (d0_value t ?d2) = Some m'"
    using rd_word_defined[of 8 "x_mem s2" "x_sp s2"] wr_word_defined[of 8 "x_mem s2" "x_sp s2"] by blast
  have low: "take_bit (8 * ?n) ?d2 = take_bit (8 * ?n) v" by (simp add: word_of_bytes_of d)
  have "if t = LT_F then take_bit 32 (d0_value t ?d2) = take_bit 32 v else d0_value t ?d2 = d0_value t v"
    using d0_value_low[OF low] low by (cases t) simp_all
  moreover have "exec e (OC_PROC_DEREF t) s2 = Some (Next (s2\<lparr>x_d0 := ?d2, x_mem := m'\<rparr>))"
    using rdd m' assms(4,8) by (simp add: exec_proc_deref_def set_stk_def Let_def)
  ultimately show ?thesis using rd_word_same_8[OF m'] by (auto simp: stk_def)
qed

text \<open>A target whose memory is the world of the machine, with accesses of up to eight bytes.\<close>

definition demo_rd :: "(addr \<Rightarrow> byte) \<Rightarrow> addr \<Rightarrow> nat \<Rightarrow> byte list option" where
  "demo_rd w a n = Some (map (\<lambda>i. w (a + of_nat i)) [0..<n])"

definition demo_wr :: "(addr \<Rightarrow> byte) \<Rightarrow> addr \<Rightarrow> byte list \<Rightarrow> (addr \<Rightarrow> byte) option" where
  "demo_wr w a bs = (if length bs \<le> 8
     then Some (\<lambda>x. if unat (x - a) < length bs then bs ! unat (x - a) else w x) else None)"

definition demo_target :: "(addr \<Rightarrow> byte) mstate" where
  "demo_target = \<lparr>x_mem = demo_mem [], x_pc = 0x2800, x_sp = 0x2000, x_fp = 0x2100, x_cf = 0,
     x_retval = 0, x_d0 = 0, x_d1 = 0, x_cfs = (\<lambda>_. None), x_stopres = CI_ER_CONTINUE,
     x_opcounts = None, x_world = (\<lambda>_. 0)\<rparr>"

definition demo_target_env :: "(addr \<Rightarrow> byte) env" where
  "demo_target_env = \<lparr>e_minsp = 0x1000, e_maxsp = 0x2100, e_mindata = 0x2100, e_maxdata = 0x2800,
     e_procfp = 0, e_procap = 0, e_procsp = 0, e_proccfa = 0, e_cftab = [], e_readproc = Some demo_rd,
     e_writeproc = Some demo_wr, e_indirect_call_proc = None, e_loadfunc = None, e_libfuncs = (\<lambda>_. None),
     e_fpu = demo_fpu\<rparr>"

lemma demo_target_keeps: "target_keeps demo_rd demo_wr"
  unfolding target_keeps_def
proof (intro allI impI)
  fix w w' :: "addr \<Rightarrow> byte" and a :: addr and bs :: "byte list"
  assume "demo_wr w a bs = Some w'"
  then have l: "length bs \<le> 8" and w': "w' = (\<lambda>x. if unat (x - a) < length bs then bs ! unat (x - a) else w x)"
    by (auto simp: demo_wr_def split: if_split_asm)
  have "unat (of_nat i :: addr) = i" if "i < length bs" for i
    using l that by (simp add: unsigned_of_nat take_bit_nat_eq_self)
  then show "demo_rd w' a (length bs) = Some bs"
    by (auto simp: demo_rd_def w' intro!: nth_equalityI)
qed

theorem proc_assign_deref_roundtrip_witness:
  "let s = demo_poke [(0x2000, 0x180000007), (0x2008, 0x90000)] demo_target;
       s1 = next_of (exec demo_target_env (OC_PROC_ASSIGN A_LONG) s)
   in \<exists>s3. exec demo_target_env (OC_PROC_DEREF LT_SL) (s1\<lparr>x_sp := 0x2008\<rparr>) = Some (Next s3)
        \<and> stk s3 0 = Some (sext 4 0x80000007)"
proof -
  let ?s = "demo_poke [(0x2000, 0x180000007), (0x2008, 0x90000)] demo_target"
  let ?s1 = "next_of (exec demo_target_env (OC_PROC_ASSIGN A_LONG) ?s)"
  have s: "stk ?s 0 = Some 0x180000007" "stk ?s 1 = Some 0x90000" "stk (?s1\<lparr>x_sp := 0x2008\<rparr>) 0 = Some 0x90000" by code_simp+
  have x: "exec demo_target_env (OC_PROC_ASSIGN (lty_aty LT_SL)) ?s = Some (Next ?s1)" unfolding lty_aty.simps
    by (rule next_of_eq) code_simp
  have v: "d0_value LT_SL 0x180000007 = sext 4 0x80000007" by code_simp
  have e: "e_readproc demo_target_env = Some demo_rd" "e_writeproc demo_target_env = Some demo_wr"
    "\<not> is_ci_addr demo_target_env 0x90000" by (simp_all add: demo_target_env_def is_ci_addr_def)
  show ?thesis
    using proc_assign_deref_roundtrip[OF e(1,2) demo_target_keeps e(3) s(1,2) x s(3)] unfolding Let_def
    by (auto simp: v simp del: d0_value.simps)
qed

section \<open>The multiple arrow\<close>

text \<open>A chain of pointers at a fixed offset in the interpreter's own memory: \<open>ps\<close> are the objects after \<open>a\<close>.\<close>

fun links :: "'w env \<Rightarrow> mem \<Rightarrow> word64 \<Rightarrow> addr \<Rightarrow> addr list \<Rightarrow> bool" where
  "links e m off a [] = True"
| "links e m off a (p # ps) \<longleftrightarrow> is_ci_addr e a \<and> rd_word 8 m (a + off) = Some p \<and> links e m off p ps"

lemma multi_arrow_links:
  "links e (x_mem s) off a ps \<Longrightarrow> multi_arrow e off (length ps) a s = Some (Inr (last (a # ps), s))"
  by (induction ps arbitrary: a) auto

text \<open>\<open>p->[n]next\<close> follows \<open>n\<close> links: with the offset of the member, the pointer and the count on the stack, the
  multiple arrow leaves in their place the \<open>n\<close>-th object of the chain; a negative count stops the
  machine with \<open>CI_ER_BAD_MA_COUNT\<close>.\<close>

theorem multi_arrow_follows_links:
  assumes "stk s 0 = Some off" and "stk s 1 = Some a" and "stk s 2 = Some n"
    and "sint (to_int n) < 0 \<or> links e (x_mem s) (to_int off) a ps \<and> sint (to_int n) = int (length ps)"
  shows "if sint (to_int n) < 0 then exec e OC_MULTI_ARROW s = Some (Quit CI_ER_BAD_MA_COUNT s)
     else \<exists>s'. exec e OC_MULTI_ARROW s = Some (Next s') \<and> stk s' 0 = Some (last (a # ps)) \<and> x_sp s' = x_sp s + 16"
proof (cases "sint (to_int n) < 0")
  case True
  then show ?thesis using assms(1-3) by (simp add: exec_multi_arrow_def)
next
  case False
  then have l: "links e (x_mem s) (to_int off) a ps" "sint (to_int n) = int (length ps)" using assms(4) by auto
  have "\<exists>w. rd_word 8 (x_mem s) (x_sp s + 16) = Some w" using assms(3) by (simp add: stk_def)
  then obtain m where m: "wr_word 8 (x_mem s) (x_sp s + 16) (last (a # ps)) = Some m"
    using rd_word_defined[of 8 "x_mem s" "x_sp s + 16"] wr_word_defined[of 8 "x_mem s" "x_sp s + 16"] by blast
  from rd_word_same_8[OF m] m multi_arrow_links[OF l(1)] l(2) assms(1-3) False show ?thesis
    by (simp add: exec_multi_arrow_def Let_def set_stk_def stk_def)
qed

theorem multi_arrow_follows_links_witness:
  "\<exists>s'. exec demo_env OC_MULTI_ARROW (demo_poke [(0x2008, 0x1800), (0x2010, 1), (0x1800, 0x1900)] (demo_state [])) = Some (Next s')
     \<and> stk s' 0 = Some 0x1900"
proof -
  let ?s = "demo_poke [(0x2008, 0x1800), (0x2010, 1), (0x1800, 0x1900)] (demo_state [])"
  have s: "stk ?s 0 = Some 0" "stk ?s 1 = Some 0x1800" "stk ?s 2 = Some 1" by code_simp+
  have l: "links demo_env (x_mem ?s) (to_int 0) 0x1800 [0x1900] \<and> sint (to_int 1) = int (length [0x1900 :: addr])" by code_simp
  have n: "\<not> sint (to_int 1) < 0" by code_simp
  show ?thesis using multi_arrow_follows_links[OF s, of demo_env "[0x1900]"] l n by auto
qed

lemma take_bit_32_less: "take_bit 32 (w :: word64) < 2 ^ 32"
  using take_bit_nat_less_exp[of 32 "unat w"] by (simp add: word_less_nat_alt unsigned_take_bit_eq)

text \<open>In the target process the multiple arrow loses the upper half of the pointer it follows: what one link from
  an address of the target leaves on the stack is always below 4 GB, whatever pointer the target holds.\<close>

theorem multi_arrow_truncates_target_pointer:
  assumes "stk s 0 = Some off" and "stk s 1 = Some a" and "stk s 2 = Some 1" and "\<not> is_ci_addr e a"
    and "exec e OC_MULTI_ARROW s = Some (Next s')"
  shows "\<exists>r. stk s' 0 = Some r \<and> r < 2 ^ 32"
proof -
  have n: "nat (sint (to_int 1)) = Suc 0" "\<not> sint (to_int 1) < 0" by code_simp+
  obtain d s1 where m: "multi_arrow e (to_int off) (Suc 0) a s = Some (Inr (take_bit 32 d, s1))"
    and w: "set_stk (drop_stk 2 s1) 0 (take_bit 32 d) = Some s'"
    using assms n by (auto simp: exec_multi_arrow_def Let_def bind_Some_iff split: option.split_asm sum.split_asm)
  from w obtain m where "wr_word 8 (x_mem s1) (x_sp s1 + 16) (take_bit 32 d) = Some m" "s' = drop_stk 2 s1\<lparr>x_mem := m\<rparr>"
    by (auto simp: set_stk_def bind_Some_iff)
  with rd_word_same_8[OF this(1)] take_bit_32_less[of d] show ?thesis by (simp add: stk_def)
qed

theorem multi_arrow_truncates_target_pointer_witness:
  "let s = demo_poke [(0x2008, 0x90000), (0x2010, 1)] (demo_target\<lparr>x_world := (\<lambda>_. 0xff)\<rparr>)
   in \<exists>r. stk (next_of (exec demo_target_env OC_MULTI_ARROW s)) 0 = Some r \<and> r < 2 ^ 32"
proof -
  let ?s = "demo_poke [(0x2008, 0x90000), (0x2010, 1)] (demo_target\<lparr>x_world := (\<lambda>_. 0xff)\<rparr>)"
  have s: "stk ?s 0 = Some 0" "stk ?s 1 = Some 0x90000" "stk ?s 2 = Some 1" by code_simp+
  have e: "\<not> is_ci_addr demo_target_env 0x90000" by (simp add: demo_target_env_def is_ci_addr_def)
  have x: "exec demo_target_env OC_MULTI_ARROW ?s = Some (Next (next_of (exec demo_target_env OC_MULTI_ARROW ?s)))"
    by (rule next_of_eq) code_simp
  show ?thesis using multi_arrow_truncates_target_pointer[OF s e x] unfolding Let_def .
qed

end
