(* ===== verification/Ups_Runtime.thy ===== *)
theory Ups_Runtime
  imports Ups_Arena
begin

text \<open>
  The code around the machine (\<open>src/ups/xc_machine.c\<close>): start-up code, creating, initialising and
  resetting a machine, breakpoints (\<open>src/ups/ci_compile.c\<close>), callbacks from library functions into
  interpreted code and signal handlers.  The buffer that a callback's code is written to is the parameter
  \<open>text\<close>; \<open>fuel\<close> bounds the steps of the machine it runs.
\<close>

section \<open>Text\<close>

text \<open>\<open>ci_write_text_long\<close> and \<open>PUTOPCODE\<close>, and \<open>write_long\<close>, which tells a stack word from program text.\<close>

definition ci_write_text_long :: "addr \<Rightarrow> word64 \<Rightarrow> mem \<Rightarrow> mem option" where
  "ci_write_text_long text val m = wr_bytes m text (bytes_of 4 val)"

definition putopcode :: "addr \<Rightarrow> word64 \<Rightarrow> mem \<Rightarrow> mem option" where
  "putopcode pc opc m = wr_bytes m pc (bytes_of 2 opc)"

definition write_long :: "'w machine_t \<Rightarrow> addr \<Rightarrow> word64 \<Rightarrow> mem \<Rightarrow> mem option" where
  "write_long ma pos val m =
     (if pos > ma_minsp ma \<and> pos \<le> ma_maxsp ma then wr_word 8 m pos val else ci_write_text_long pos val m)"

text \<open>Breakpoints: the opcode at a location, which is replaced by \<open>OC_TRAP\<close>, and putting it back.\<close>

definition ci_install_trap_instruction ::
  "'w machine_t \<Rightarrow> word64 \<Rightarrow> 'w native \<Rightarrow> (word64 \<times> 'w native) option" where
  "ci_install_trap_instruction ma location nv =
     do { cf \<leftarrow> n_cfs nv (ma_codefile ma);
          res \<leftarrow> rd_word 2 (n_mem nv) (cf_text_and_data cf + location);
          m \<leftarrow> putopcode (cf_text_and_data cf + location) (of_nat (opcode_num OC_TRAP)) (n_mem nv);
          Some (res, nv\<lparr>n_mem := m\<rparr>) }"

definition ci_uninstall_trap_instruction ::
  "'w machine_t \<Rightarrow> word64 \<Rightarrow> word64 \<Rightarrow> 'w native \<Rightarrow> (string + 'w native) option" where
  "ci_uninstall_trap_instruction ma location opc nv =
     (if opc \<ge> of_nat NUM_OPCODES then Some (Inl ''opcode botch in cuti'')
      else do {
        cf \<leftarrow> n_cfs nv (ma_codefile ma);
        cur \<leftarrow> rd_word 2 (n_mem nv) (cf_text_and_data cf + location);
        if cur \<noteq> of_nat (opcode_num OC_TRAP) then Some (Inl ''missing bpt in cuti'')
        else do {
          m \<leftarrow> putopcode (cf_text_and_data cf + location) opc (n_mem nv);
          Some (Inr (nv\<lparr>n_mem := m\<rparr>)) } })"

section \<open>Start-up code\<close>

record startup_info_t =
  su_text :: "byte option list"
  su_text_size :: nat
  su_start_addr :: nat
  su_argv_pos :: nat
  su_argc_pos :: nat
  su_envp_pos :: nat
  su_setjmp_addr :: nat
  su_longjmp_addr :: nat

text \<open>\<open>text[pc++] = v\<close> and \<open>ci_write_text_long(&text[pc], v); pc += sizeof(long)\<close> on the buffer being filled;
  \<open>None\<close> is a store outside it.\<close>

definition crt_byte :: "nat \<Rightarrow> byte option list \<times> nat \<Rightarrow> (byte option list \<times> nat) option" where
  "crt_byte v = (\<lambda>(text, pc). if pc < length text then Some (text[pc := Some (of_nat v)], pc + 1) else None)"

definition crt_long :: "nat \<Rightarrow> word64 \<Rightarrow> byte option list \<times> nat \<Rightarrow> (byte option list \<times> nat) option" where
  "crt_long sizeof_long v = (\<lambda>(text, pc).
     if pc + 3 < length text
     then Some (text[pc := Some (ucast v), pc + 1 := Some (ucast (drop_bit 8 v)), pc + 2 := Some (ucast (drop_bit 16 v)),
                     pc + 3 := Some (ucast (drop_bit 24 v))], pc + sizeof_long)
     else None)"

text \<open>\<open>ci_make_crt0\<close>.  The size of a \<open>long\<close> is that of the host; the buffer's size counts four bytes for each.
  \<open>Inl\<close> is the panic.\<close>

definition ci_make_crt0 :: "nat \<Rightarrow> word64 \<Rightarrow> word64 \<Rightarrow> (string + startup_info_t) option" where
  "ci_make_crt0 sizeof_long main_index exit_index =
     do { let text_size = 5 + 5 + 5 + 6 + 1 + 1 + 6 + 1 + 1 + 2;
          let st = (replicate text_size None, 0);
          let start_addr = snd st;
          (text, pc) \<leftarrow> crt_byte (opcode_num (OC_CONSTPUSH SZ_L)) st;
          let envp_pos = pc;
          (text, pc) \<leftarrow> crt_byte (opcode_num (OC_CONSTPUSH SZ_L)) (text, pc + sizeof_long);
          let argv_pos = pc;
          (text, pc) \<leftarrow> crt_byte (opcode_num (OC_CONSTPUSH SZ_L)) (text, pc + sizeof_long);
          let argc_pos = pc;
          st \<leftarrow> crt_byte (opcode_num (OC_CALL SZ_L)) (text, pc + sizeof_long);
          st \<leftarrow> crt_long sizeof_long main_index st;
          st \<leftarrow> crt_byte 3 st;
          st \<leftarrow> crt_byte (typecode_num TY_INT) st;
          st \<leftarrow> crt_byte (opcode_num OC_PUSH_WORD_RETVAL) st;
          st \<leftarrow> crt_byte (opcode_num (OC_CALL SZ_L)) st;
          st \<leftarrow> crt_long sizeof_long exit_index st;
          st \<leftarrow> crt_byte 1 st;
          st \<leftarrow> crt_byte (typecode_num TY_INT) st;
          st \<leftarrow> crt_byte (opcode_num OC_TRAP) st;
          let setjmp_addr = snd st;
          st \<leftarrow> crt_byte (opcode_num OC_SETJMP) st;
          let longjmp_addr = snd st;
          (text, pc) \<leftarrow> crt_byte (opcode_num OC_LONGJMP) st;
          if pc \<noteq> text_size then Some (Inl ''textsize botch in mc0'')
          else Some (Inr \<lparr>su_text = text, su_text_size = text_size, su_start_addr = start_addr, su_argv_pos = argv_pos,
                   su_argc_pos = argc_pos, su_envp_pos = envp_pos, su_setjmp_addr = setjmp_addr,
                   su_longjmp_addr = longjmp_addr\<rparr>) }"

section \<open>Life of a machine\<close>

text \<open>\<open>ci_create_machine\<close>: the structure with its list head at \<open>mhead\<close> and the stack at \<open>minsp\<close>, both from the
  allocation pool; \<open>ma\<close> is what the memory of the structure held before, for the fields not set.\<close>

definition ci_create_machine ::
  "'w machine_t \<Rightarrow> addr \<Rightarrow> addr \<Rightarrow> word64 \<Rightarrow> addr list \<Rightarrow> addr \<Rightarrow> word64 \<Rightarrow> mem \<Rightarrow> ('w machine_t \<times> mem) option" where
  "ci_create_machine ma mhead minsp stack_nwords cftab entry_cf entry_point m =
     do { m \<leftarrow> wr_word 8 m (mhead + 8) mhead;
          m \<leftarrow> wr_word 8 m mhead mhead;
          Some (ma\<lparr>ma_data := 0, ma_data_copy := 0, ma_data_size := 0, ma_bss_size := 0, ma_libfuncs := (\<lambda>_. None),
                   ma_get_regaddr_proc := None, ma_reg_relocs := [], ma_loadfunc := None, ma_cftab := cftab,
                   ma_entry_codefile := entry_cf, ma_entry_point := entry_point, ma_callbacks := [],
                   ma_stack_size := stack_nwords * 8, ma_minsp := minsp, ma_maxsp := minsp + 8 * stack_nwords,
                   ma_initial_sp := minsp + 8 * stack_nwords, ma_argc_pos := 0, ma_argv_pos := 0, ma_envp_pos := 0,
                   ma_fdtab_size := 64, ma_fdtab := replicate 64 0, ma_mhead := mhead\<rparr>, m) }"

definition ci_push_trap_frame :: "'w machine_t \<Rightarrow> 'w native \<Rightarrow> (string + 'w machine_t \<times> 'w native) option" where
  "ci_push_trap_frame ma nv =
     do { cf \<leftarrow> n_cfs nv (ma_entry_codefile ma);
          opc \<leftarrow> rd_word 2 (n_mem nv) (cf_text_and_data cf);
          if opc \<noteq> of_nat (opcode_num OC_TRAP) then Some (Inl ''missing OC_TRAP'')
          else do {
            let sp = ma_initial_sp ma - 8;
            m \<leftarrow> wr_word 8 (n_mem nv) sp (ma_entry_codefile ma);
            let sp = sp - 8;
            m \<leftarrow> wr_word 8 m sp (cf_text_and_data cf);
            if sp < ma_minsp ma then Some (Inl ''stack overflow botch in ptf'')
            else Some (Inr (ma\<lparr>ma_initial_sp := sp\<rparr>, nv\<lparr>n_mem := m\<rparr>)) } }"

text \<open>\<open>copy_stringtab\<close>: the strings, which contain no zero byte, go to the end of one block, last one lowest, and
  the pointers to its beginning.\<close>

fun copy_strings :: "byte list list \<Rightarrow> addr \<Rightarrow> addr \<Rightarrow> mem \<Rightarrow> mem option" where
  "copy_strings [] slot optr m = wr_word 8 m slot 0"
| "copy_strings (s # ss) slot optr m =
     do { let optr = optr - of_nat (length s + 1);
          m \<leftarrow> wr_bytes m optr (s @ [0]);
          m \<leftarrow> wr_word 8 m slot optr;
          copy_strings ss (slot + 8) optr m }"

definition stringtab_nbytes :: "byte list list \<Rightarrow> nat" where
  "stringtab_nbytes itab = sum_list (map (\<lambda>s. length s + 1) itab) + (length itab + 1) * 8"

definition copy_stringtab ::
  "libc \<Rightarrow> 'w machine_t \<Rightarrow> byte list list \<Rightarrow> mem \<Rightarrow> (string + nat \<times> addr \<times> mem) option" where
  "copy_stringtab lc ma itab m =
     do { let nbytes = of_nat (stringtab_nbytes itab);
          (otab, m) \<leftarrow> ci_mem_malloc lc (ma_mhead ma) nbytes m;
          if otab = 0 then Some (Inl ''no mem for argv/envp'')
          else do { m \<leftarrow> copy_strings itab otab (otab + nbytes) m; Some (Inr (length itab, otab, m)) } }"

text \<open>The parts of \<open>ci_initialise_machine\<close>.\<close>

fun apply_reg_relocs :: "(nat \<Rightarrow> word64) option \<Rightarrow> addr \<Rightarrow> (nat \<times> word64) list \<Rightarrow> mem \<Rightarrow> mem option" where
  "apply_reg_relocs proc text [] m = Some m"
| "apply_reg_relocs proc text ((regno, a) # rrs) m =
     do { f \<leftarrow> proc; m \<leftarrow> ci_write_text_long (text + a) (f regno) m; apply_reg_relocs proc text rrs m }"

definition memset0 :: "addr \<Rightarrow> nat \<Rightarrow> mem \<Rightarrow> mem option" where
  "memset0 a n m = wr_bytes m a (replicate n 0)"

fun reset_codefiles :: "codefiles \<Rightarrow> addr list \<Rightarrow> mem \<Rightarrow> mem option" where
  "reset_codefiles cfs [] m = Some m"
| "reset_codefiles cfs (p # ps) m =
     do { cf \<leftarrow> cfs p;
          m \<leftarrow> (if cf_loaded cf then do {
                   let data = cf_text_and_data cf + cf_text_size cf;
                   m \<leftarrow> memcpy m data (cf_data_copy cf) (unat (cf_data_size cf));
                   memset0 (data + cf_data_size cf) (unat (cf_bss_size cf)) m }
                 else Some m);
          reset_codefiles cfs ps m }"

definition reset_data_segments :: "'w machine_t \<Rightarrow> 'w native \<Rightarrow> mem \<Rightarrow> mem option" where
  "reset_data_segments ma nv m =
     do { m \<leftarrow> memcpy m (ma_data ma) (ma_data_copy ma) (unat (ma_data_size ma));
          m \<leftarrow> memset0 (ma_data ma + ma_data_size ma) (unat (ma_bss_size ma)) m;
          reset_codefiles (n_cfs nv) (ma_cftab ma) m }"

fun register_std_fds :: "(nat \<Rightarrow> byte) \<Rightarrow> int list \<Rightarrow> 'w machine_t \<Rightarrow> string + 'w machine_t" where
  "register_std_fds junk [] ma = Inr ma"
| "register_std_fds junk (fd # fds) ma =
     (if ci_fd_is_registered fd ma then register_std_fds junk fds ma
      else case ci_register_fd junk fd ma of
             Inl msg \<Rightarrow> Inl msg
           | Inr ma \<Rightarrow> register_std_fds junk fds ma)"

text \<open>The arguments of the program: \<open>argv\<close> and \<open>envp\<close> are \<open>None\<close> for a null \<open>argv\<close>.  \<open>setenv\<close> stands for
  \<open>cx_set_environ\<close>.\<close>

definition install_arguments ::
  "libc \<Rightarrow> (addr \<Rightarrow> 'w \<Rightarrow> 'w) \<Rightarrow> (byte list list \<times> byte list list) option \<Rightarrow> 'w machine_t \<Rightarrow> 'w native
     \<Rightarrow> (string + 'w native) option" where
  "install_arguments lc setenv args ma nv =
     (case args of
        None \<Rightarrow> Some (Inr nv)
      | Some (argv, envp) \<Rightarrow> do {
          r \<leftarrow> copy_stringtab lc ma argv (n_mem nv);
          (case r of
             Inl msg \<Rightarrow> Some (Inl msg)
           | Inr (argc, argv_copy, m) \<Rightarrow> do {
               r \<leftarrow> copy_stringtab lc ma envp m;
               (case r of
                  Inl msg \<Rightarrow> Some (Inl msg)
                | Inr (_, envp_copy, m) \<Rightarrow> do {
                    m \<leftarrow> write_long ma (ma_argc_pos ma) (of_nat argc) m;
                    m \<leftarrow> write_long ma (ma_argv_pos ma) argv_copy m;
                    m \<leftarrow> write_long ma (ma_envp_pos ma) envp_copy m;
                    Some (Inr (nv\<lparr>n_mem := m, n_world := setenv envp_copy (n_world nv)\<rparr>)) }) }) })"

definition ci_initialise_machine ::
  "libc \<Rightarrow> (addr \<Rightarrow> 'w \<Rightarrow> 'w) \<Rightarrow> (nat \<Rightarrow> byte) \<Rightarrow> bool \<Rightarrow> bool \<Rightarrow> (byte list list \<times> byte list list) option
     \<Rightarrow> 'w machine_t \<Rightarrow> 'w native \<Rightarrow> (string + 'w machine_t \<times> 'w native) option" where
  "ci_initialise_machine lc setenv junk reset_data want_opcounts args ma nv =
     do { ecf \<leftarrow> n_cfs nv (ma_entry_codefile ma);
          m \<leftarrow> apply_reg_relocs (ma_get_regaddr_proc ma) (cf_text_and_data ecf) (ma_reg_relocs ma) (n_mem nv);
          let ma = ma\<lparr>ma_opcounts := (if want_opcounts then Some (replicate NUM_OPCODES 0) else None),
                      ma_codefile := ma_entry_codefile ma, ma_sp := ma_initial_sp ma,
                      ma_pc := cf_text_and_data ecf + ma_entry_point ma, ma_fp := 0\<rparr>;
          r \<leftarrow> install_arguments lc setenv args ma (nv\<lparr>n_mem := m\<rparr>);
          (case r of
             Inl msg \<Rightarrow> Some (Inl msg)
           | Inr nv \<Rightarrow> do {
               m \<leftarrow> (if reset_data then reset_data_segments ma nv (n_mem nv) else Some (n_mem nv));
               (case register_std_fds junk [0, 1, 2] ma of
                  Inl msg \<Rightarrow> Some (Inl msg)
                | Inr ma \<Rightarrow> Some (Inr (ma, nv\<lparr>n_mem := m\<rparr>))) }) }"

text \<open>\<open>ci_reset_machine\<close>: \<open>close_fd\<close> stands for \<open>close\<close> and the message when it fails.\<close>

fun close_fds :: "(nat \<Rightarrow> 'w \<Rightarrow> 'w) \<Rightarrow> nat list \<Rightarrow> byte list \<Rightarrow> 'w \<Rightarrow> byte list \<times> 'w" where
  "close_fds close_fd [] tab w = (tab, w)"
| "close_fds close_fd (fd # fds) tab w =
     (if tab ! fd \<noteq> 0 then close_fds close_fd fds (tab[fd := 0]) (close_fd fd w) else close_fds close_fd fds tab w)"

definition ci_reset_machine ::
  "libc \<Rightarrow> (nat \<Rightarrow> 'w \<Rightarrow> 'w) \<Rightarrow> 'w machine_t \<Rightarrow> 'w native \<Rightarrow> ('w machine_t \<times> 'w native) option" where
  "ci_reset_machine lc close_fd ma nv =
     (let (tab, w) = close_fds close_fd [3 ..< ma_fdtab_size ma] (ma_fdtab ma) (n_world nv) in
      do { (m, stopres) \<leftarrow> reset_mem lc (ma_mhead ma) (n_mem nv, ma_stopres ma);
           Some (ma\<lparr>ma_fdtab := tab, ma_stopres := stopres\<rparr>, nv\<lparr>n_mem := m, n_world := w\<rparr>) })"

section \<open>Callbacks\<close>

definition ci_make_callback :: "word64 \<Rightarrow> nat \<Rightarrow> 'w machine_t \<Rightarrow> 'w machine_t" where
  "ci_make_callback func nargs ma = ma\<lparr>ma_callbacks := (func, nargs) # ma_callbacks ma\<rparr>"

text \<open>The text that \<open>call_machine_func\<close> writes to its static buffer, and the position of its \<open>OC_TRAP\<close>.\<close>

definition callback_text :: "nat \<Rightarrow> byte list" where
  "callback_text nargs =
     bytes_of 2 (of_nat (opcode_num OC_CALL_INDIRECT)) @ [of_nat nargs] @ [of_nat (typecode_num TY_INT_ASSUMED)]
     @ bytes_of 2 (of_nat (opcode_num OC_PUSH_WORD_RETVAL)) @ bytes_of 2 (of_nat (opcode_num OC_TRAP))"

datatype 'w callback =
    Returned "'w machine_t" "'w native"
  | Callback_panic string
  | Callback_running "'w mstate"

definition callback_args :: "fpu \<Rightarrow> word64 \<Rightarrow> word64 \<Rightarrow> 'w exec_args" where
  "callback_args u d0 d1 =
     \<lparr>a_procfp = 0, a_procap = 0, a_procsp = 0, a_proccfa = 0, a_readproc = None, a_writeproc = None,
      a_indirect_call_proc = None, a_fpu = u, a_d0 = d0, a_d1 = d1\<rparr>"

definition call_machine_func ::
  "nat \<Rightarrow> fpu \<Rightarrow> word64 \<times> word64 \<Rightarrow> addr \<Rightarrow> 'w machine_t \<Rightarrow> addr \<Rightarrow> word64 \<Rightarrow> nat \<Rightarrow> 'w native \<Rightarrow> 'w callback option" where
  "call_machine_func fuel u junk text ma sp func nargs nv =
     do { m \<leftarrow> wr_bytes (n_mem nv) text (callback_text nargs);
          m \<leftarrow> wr_word 8 m (sp - 8) func;
          let ma = ma\<lparr>ma_sp := sp - 8, ma_pc := text\<rparr>;
          r \<leftarrow> ci_execute_machine fuel ma (callback_args u (fst junk) (snd junk)) (nv\<lparr>n_mem := m\<rparr>);
          (case r of
             Stopped res ma nv \<Rightarrow>
               if res \<noteq> CI_ER_TRAP \<or> ma_pc ma \<noteq> text + 6 then Some (Callback_panic ''bad callback'')
               else Some (Returned ma nv)
           | Signalled nv \<Rightarrow> Some (Callback_panic ''bad callback'')
           | Panicked msg \<Rightarrow> Some (Callback_panic msg)
           | Running s \<Rightarrow> Some (Callback_running s)) }"

text \<open>\<open>callfunc\<close>: the latest callback, called with the words it is given;
  \<open>Inr None\<close> is a call that is still running.\<close>

fun store_args :: "word64 list \<Rightarrow> addr \<Rightarrow> mem \<Rightarrow> mem option" where
  "store_args [] a m = Some m"
| "store_args (v # vs) a m = do { m \<leftarrow> wr_word 8 m a v; store_args vs (a + 8) m }"

definition callfunc ::
  "nat \<Rightarrow> fpu \<Rightarrow> word64 \<times> word64 \<Rightarrow> addr \<Rightarrow> 'w machine_t \<Rightarrow> word64 list \<Rightarrow> 'w native
     \<Rightarrow> (string + (word64 \<times> 'w machine_t \<times> 'w native) option) option" where
  "callfunc fuel u junk text ma args nv =
     (case ma_callbacks ma of
        [] \<Rightarrow> None
      | (func, nargs) # _ \<Rightarrow>
          if length args < nargs then None
          else do {
            let sp = ma_sp ma - 8 * of_nat nargs;
            m \<leftarrow> store_args (take nargs args) sp (n_mem nv);
            r \<leftarrow> call_machine_func fuel u junk text ma sp func nargs (nv\<lparr>n_mem := m\<rparr>);
            (case r of
               Returned ma nv \<Rightarrow> do { v \<leftarrow> rd_word 8 (n_mem nv) (ma_sp ma); Some (Inr (Some (to_int v, ma, nv))) }
             | Callback_panic msg \<Rightarrow> Some (Inl msg)
             | Callback_running s \<Rightarrow> Some (Inr None)) })"

section \<open>Signals\<close>

text \<open>A handler that the host's \<open>signal\<close> knows: the default, ignore or another address, or \<open>catchsig\<close>.\<close>

datatype sig_handler = Handler word64 | Catchsig

definition ci_set_sig_handler ::
  "(nat \<Rightarrow> sig_handler \<Rightarrow> 'w \<Rightarrow> sig_handler \<times> 'w) \<Rightarrow> int \<Rightarrow> word64 \<Rightarrow> word64 list \<Rightarrow> 'w \<Rightarrow> word64 \<times> word64 list \<times> 'w" where
  "ci_set_sig_handler signal signo func sigfuncs w =
     (if signo < 0 \<or> signo \<ge> int (length sigfuncs) then (- 1, sigfuncs, w)
      else let n = nat signo; old_sigfunc = sigfuncs ! n in
        if func = 1 \<or> func = 0
        then case signal n (Handler func) w of (oldfunc, w) \<Rightarrow>
               ((case oldfunc of Catchsig \<Rightarrow> old_sigfunc | Handler h \<Rightarrow> h), sigfuncs[n := 0], w)
        else case signal n Catchsig w of (oldfunc, w) \<Rightarrow>
               ((case oldfunc of Catchsig \<Rightarrow> old_sigfunc | Handler h \<Rightarrow> h), sigfuncs[n := func], w))"

definition catchsig ::
  "nat \<Rightarrow> fpu \<Rightarrow> word64 \<times> word64 \<Rightarrow> addr \<Rightarrow> int \<Rightarrow> word64 list \<Rightarrow> 'w machine_t \<Rightarrow> 'w native \<Rightarrow> 'w callback option" where
  "catchsig fuel u junk text signo sigfuncs ma nv =
     (if signo < 0 \<or> signo \<ge> int (length sigfuncs) \<or> sigfuncs ! nat signo = 0
      then Some (Callback_panic ''signo botch'')
      else do {
        m \<leftarrow> wr_word 8 (n_mem nv) (ma_sp ma - 8) (word_of_int signo);
        call_machine_func fuel u junk text ma (ma_sp ma - 8) (sigfuncs ! nat signo) 1 (nv\<lparr>n_mem := m\<rparr>) })"

text \<open>\<open>ci_cause_exit\<close> and \<open>ci_get_exit_status\<close>.\<close>

definition ci_cause_exit :: "'w machine_t \<Rightarrow> 'w machine_t" where
  "ci_cause_exit ma = ma\<lparr>ma_stopres := CI_ER_EXITED\<rparr>"

definition ci_get_exit_status :: "'w machine_t \<Rightarrow> word64" where
  "ci_get_exit_status ma = to_int (ma_retval ma)"

end
