(* ===== verification/Ups_Arena_Props.thy ===== *)
theory Ups_Arena_Props
  imports Ups_Exec_Props Ups_Arena
begin

text \<open>
  The arena of a machine as an abstract list of blocks: linking and unlinking through the pointers in
  memory, the contract of \<open>ci_mem_malloc\<close> and \<open>ci_mem_free\<close>, what their checks find, the reset loop, the
  search for an address and the table of file descriptors.
\<close>

section \<open>The list of blocks\<close>

text \<open>\<open>chain m x ys\<close>: from \<open>x\<close> the forward links run through \<open>ys\<close> and the backward links run back.\<close>

fun chain :: "mem \<Rightarrow> addr \<Rightarrow> addr list \<Rightarrow> bool" where
  "chain m x [] = True"
| "chain m x (y # ys) \<longleftrightarrow> rd_word 8 m x = Some y \<and> rd_word 8 m (y + 8) = Some x \<and> chain m y ys"

lemma chain_append: "chain m x (ys @ zs) \<longleftrightarrow> chain m x ys \<and> chain m (last (x # ys)) zs"
  by (induction ys arbitrary: x) auto

lemma chain_cong:
  assumes "\<And>y z. y \<in> set (butlast (x # ys)) \<Longrightarrow> z \<in> region y 8 \<Longrightarrow> m' z = m z"
    and "\<And>y z. y \<in> set ys \<Longrightarrow> z \<in> region (y + 8) 8 \<Longrightarrow> m' z = m z"
  shows "chain m' x ys = chain m x ys"
  using assms
proof (induction ys arbitrary: x)
  case (Cons y ys)
  have "rd_word 8 m' x = rd_word 8 m x" using Cons.prems(1)[of x] by (intro rd_word_cong) simp
  moreover have "rd_word 8 m' (y + 8) = rd_word 8 m (y + 8)" using Cons.prems(2)[of y] by (intro rd_word_cong) simp
  moreover have "chain m' y ys = chain m y ys"
    using Cons.prems by (intro Cons.IH) (auto simp: in_set_butlast_appendI)
  ultimately show ?case by simp
qed simp

text \<open>A block has its size, its markers, and does not wrap around the end of the address space.\<close>

definition block_size :: "word64 \<Rightarrow> nat" where "block_size n = 36 + unat n"

definition block_ok :: "mem \<Rightarrow> addr \<times> word64 \<Rightarrow> bool" where
  "block_ok m = (\<lambda>(b, n). b \<noteq> 0 \<and> rd_word 8 m (b + 16) = Some n \<and> rd_word 4 m (b + 24) = Some M_STARTVAL
     \<and> rd_word 4 m (b + 32 + n) = Some M_ENDVAL \<and> unat b + block_size n \<le> 2 ^ 64
     \<and> region b (block_size n) \<subseteq> dom m)"

definition block_region :: "addr \<times> word64 \<Rightarrow> addr set" where
  "block_region = (\<lambda>(b, n). region b (block_size n))"

text \<open>The arena of a machine with list head \<open>mh\<close>: a circular list of disjoint blocks, newest first.\<close>

definition arena :: "mem \<Rightarrow> addr \<Rightarrow> (addr \<times> word64) list \<Rightarrow> bool" where
  "arena m mh bs \<longleftrightarrow>
     chain m mh (map fst bs @ [mh]) \<and> list_all (block_ok m) bs \<and> region mh 32 \<subseteq> dom m
     \<and> list_all (\<lambda>b. region mh 32 \<inter> block_region b = {}) bs
     \<and> sorted_wrt (\<lambda>b c. block_region b \<inter> block_region c = {}) bs"

lemma block_header: "region b 32 \<subseteq> block_region (b, n)" "region b 16 \<subseteq> block_region (b, n)"
    "region (b + 16) 8 \<subseteq> block_region (b, n)" "region (b + 24) 4 \<subseteq> block_region (b, n)"
    "region (b + 32 + n) 4 \<subseteq> block_region (b, n)" "region b 8 \<subseteq> block_region (b, n)"
    "region (b + 8) 8 \<subseteq> block_region (b, n)"
  unfolding block_region_def block_size_def
  using region_part[of 0 32 "36 + unat n" b] region_part[of 0 16 "36 + unat n" b] region_part[of 16 8 "36 + unat n" b]
    region_part[of 24 4 "36 + unat n" b] region_part[of "32 + unat n" 4 "36 + unat n" b]
    region_part[of 0 8 "36 + unat n" b] region_part[of 8 8 "36 + unat n" b]
  by (simp_all add: add.assoc)

lemma block_ok_cong:
  assumes "\<And>z. z \<in> block_region b \<Longrightarrow> m' z = m z"
  shows "block_ok m' b = block_ok m b"
proof -
  obtain a n where b: "b = (a, n)" by (cases b)
  have "rd_word 8 m' (a + 16) = rd_word 8 m (a + 16)" "rd_word 4 m' (a + 24) = rd_word 4 m (a + 24)"
    "rd_word 4 m' (a + 32 + n) = rd_word 4 m (a + 32 + n)"
    using block_header(3,4,5)[of a n] assms by (auto intro!: rd_word_cong simp: b)
  moreover have "region a (block_size n) \<subseteq> dom m' \<longleftrightarrow> region a (block_size n) \<subseteq> dom m"
    using assms by (auto simp: b block_region_def dom_def subset_iff)
  ultimately show ?thesis by (simp add: block_ok_def b)
qed

lemma arena_cong:
  assumes "\<And>z. z \<in> region mh 32 \<union> \<Union> (block_region ` set bs) \<Longrightarrow> m' z = m z"
  shows "arena m' mh bs = arena m mh bs"
proof -
  have "region mh 8 \<subseteq> region mh 32" "region (mh + 8) 8 \<subseteq> region mh 32"
    using region_part[of 0 8 32 mh] region_part[of 8 8 32 mh] by simp_all
  then have "chain m' mh (map fst bs @ [mh]) = chain m mh (map fst bs @ [mh])"
    using assms block_header(6,7) by (intro chain_cong) (fastforce simp: butlast_append)+
  moreover have "list_all (block_ok m') bs = list_all (block_ok m) bs"
    using assms by (intro list.pred_cong refl block_ok_cong) auto
  moreover have "region mh 32 \<subseteq> dom m' \<longleftrightarrow> region mh 32 \<subseteq> dom m"
    using assms by (auto simp: dom_def subset_iff)
  ultimately show ?thesis by (simp add: arena_def)
qed

lemma block_ok_keep:
  assumes "dom m' = dom m" and "\<And>z. z \<in> region (a + 16) (20 + unat n) \<Longrightarrow> m' z = m z"
  shows "block_ok m' (a, n) = block_ok m (a, n)"
proof -
  have "region (a + 16) 8 \<subseteq> region (a + 16) (20 + unat n)" "region (a + 24) 4 \<subseteq> region (a + 16) (20 + unat n)"
    "region (a + 32 + n) 4 \<subseteq> region (a + 16) (20 + unat n)"
    using region_part[of 0 8 "20 + unat n" "a + 16"] region_part[of 8 4 "20 + unat n" "a + 16"]
      region_part[of "16 + unat n" 4 "20 + unat n" "a + 16"] by (simp_all add: ac_simps)
  then have "rd_word 8 m' (a + 16) = rd_word 8 m (a + 16)" "rd_word 4 m' (a + 24) = rd_word 4 m (a + 24)"
    "rd_word 4 m' (a + 32 + n) = rd_word 4 m (a + 32 + n)"
    using assms(2) by (auto intro!: rd_word_cong)
  with assms(1) show ?thesis by (simp add: block_ok_def)
qed

lemma block_parts:
  assumes "unat a + block_size n \<le> 2 ^ 64"
  shows "region a 8 \<inter> region (a + 8) 8 = {}" "region a 16 \<inter> region (a + 16) (20 + unat n) = {}"
    "region (a + 16) (20 + unat n) \<subseteq> block_region (a, n)"
  using region_offset[of 0 8 8 8 a] region_offset[of 0 16 16 "20 + unat n" a] assms
    region_part[of 16 "20 + unat n" "36 + unat n" a]
  by (simp_all add: block_region_def block_size_def)

section \<open>Linking and unlinking\<close>

text \<open>The links as functions, and a path through them in both directions.\<close>

fun link_path :: "(addr \<Rightarrow> addr) \<Rightarrow> (addr \<Rightarrow> addr) \<Rightarrow> addr \<Rightarrow> addr list \<Rightarrow> bool" where
  "link_path nx pv x [] = True"
| "link_path nx pv x (y # ys) \<longleftrightarrow> nx x = y \<and> pv y = x \<and> link_path nx pv y ys"

lemma link_path_append: "link_path nx pv x (ys @ zs) \<longleftrightarrow> link_path nx pv x ys \<and> link_path nx pv (last (x # ys)) zs"
  by (induction ys arbitrary: x) auto

lemma link_path_upd_nx: "a \<notin> set (butlast (x # ys)) \<Longrightarrow> link_path (nx(a := v)) pv x ys = link_path nx pv x ys"
  by (induction ys arbitrary: x) (auto split: if_split_asm)

lemma link_path_upd_pv: "a \<notin> set ys \<Longrightarrow> link_path nx (pv(a := v)) x ys = link_path nx pv x ys"
  by (induction ys arbitrary: x) auto

lemma link_path_insert:
  assumes "link_path nx pv mh (ys @ [mh])" and "b \<notin> set (mh # ys)" and "distinct (mh # ys)"
  shows "link_path (nx(b := nx mh, mh := b)) (pv(b := mh, nx mh := b)) mh (b # ys @ [mh])"
proof (cases ys)
  case Nil
  then show ?thesis using assms by auto
next
  case (Cons y zs)
  then have "nx mh = y" "link_path nx pv y (zs @ [mh])" using assms(1) by auto
  moreover from this(2) have "link_path (nx(b := y, mh := b)) (pv(b := mh, y := b)) y (zs @ [mh])"
    using assms(2,3) Cons not_sym[of mh y] by (simp add: link_path_upd_nx link_path_upd_pv butlast_append)
  ultimately show ?thesis using assms(2,3) Cons by auto
qed

lemma link_path_remove:
  assumes "link_path nx pv mh (xs @ b # ys @ [mh])" and "distinct (mh # xs @ b # ys)"
  shows "link_path (nx(pv b := nx b)) (pv(nx b := pv b)) mh (xs @ ys @ [mh])" and "pv b = last (mh # xs)"
    and "nx b = hd (ys @ [mh])"
proof -
  let ?p = "last (mh # xs)"
  obtain q zs where t: "ys @ [mh] = q # zs" by (cases ys) auto
  from assms(1) have 1: "link_path nx pv mh xs" and 2: "nx ?p = b" "pv b = ?p" "link_path nx pv b (q # zs)"
    by (auto simp: link_path_append t)
  from 2(3) have 3: "nx b = q" "pv q = b" "link_path nx pv q zs" by simp_all
  show "pv b = last (mh # xs)" "nx b = hd (ys @ [mh])" using 2 3 by (auto simp: t)
  have q: "q \<notin> set xs" "q \<notin> set zs" using assms(2) t by (cases ys; auto)+
  have p: "?p \<notin> set (butlast (mh # xs))" using assms(2) by (cases xs rule: rev_cases) (auto simp: butlast_append)
  have "butlast (q # zs) = ys" using t by (metis butlast_snoc)
  then have p': "?p \<notin> set (butlast (q # zs))" using assms(2) by (cases xs rule: rev_cases) auto
  have "link_path (nx(?p := q)) (pv(q := ?p)) mh xs" using 1 p q(1) by (simp add: link_path_upd_nx link_path_upd_pv)
  moreover have "link_path (nx(?p := q)) (pv(q := ?p)) q zs"
    using 3(3) p' q(2) by (simp add: link_path_upd_nx link_path_upd_pv)
  ultimately have "link_path (nx(?p := q)) (pv(q := ?p)) mh (xs @ q # zs)" by (simp add: link_path_append)
  then show "link_path (nx(pv b := nx b)) (pv(nx b := pv b)) mh (xs @ ys @ [mh])"
    unfolding t using 2(2) 3(1) by simp
qed

text \<open>The link fields of a set of headers that lie apart from each other.\<close>

definition apart :: "addr set \<Rightarrow> bool" where
  "apart H \<longleftrightarrow> (\<forall>x\<in>H. \<forall>y\<in>H. x \<noteq> y \<longrightarrow> region x 16 \<inter> region y 16 = {})"

definition link_fields :: "mem \<Rightarrow> addr set \<Rightarrow> (addr \<Rightarrow> addr) \<Rightarrow> (addr \<Rightarrow> addr) \<Rightarrow> bool" where
  "link_fields m H nx pv \<longleftrightarrow> (\<forall>h\<in>H. rd_word 8 m h = Some (nx h) \<and> rd_word 8 m (h + 8) = Some (pv h))"

lemma two_words: "region (a :: addr) 16 = region a 8 \<union> region (a + 8) 8" "region a 8 \<inter> region (a + 8) 8 = {}"
  using region_split[of a 8 8] region_offset[of 0 8 8 8 a] by simp_all

lemma link_fields_exist:
  assumes "\<And>h. h \<in> H \<Longrightarrow> region h 16 \<subseteq> dom m"
  shows "link_fields m H (\<lambda>h. the (rd_word 8 m h)) (\<lambda>h. the (rd_word 8 m (h + 8)))"
  unfolding link_fields_def
proof
  fix h assume "h \<in> H"
  with assms[of h] rd_word_defined[of 8 m h] rd_word_defined[of 8 m "h + 8"]
  show "rd_word 8 m h = Some (the (rd_word 8 m h)) \<and> rd_word 8 m (h + 8) = Some (the (rd_word 8 m (h + 8)))"
    by (auto simp: two_words)
qed

lemma chain_link_path:
  "link_fields m H nx pv \<Longrightarrow> set (x # ys) \<subseteq> H \<Longrightarrow> chain m x ys = link_path nx pv x ys"
  by (induction ys arbitrary: x) (auto simp: link_fields_def)

lemma write_next:
  assumes "link_fields m H nx pv" and "apart H" and "h \<in> H"
  shows "\<exists>m'. wr_word 8 m h v = Some m' \<and> link_fields m' H (nx(h := v)) pv"
proof -
  have "region h 8 \<subseteq> dom m" using assms(1,3) rd_word_defined[of 8 m h] by (auto simp: link_fields_def)
  then obtain m' where m': "wr_word 8 m h v = Some m'" using wr_word_defined[of 8 m h v] by blast
  have "rd_word 8 m' k = Some ((nx(h := v)) k) \<and> rd_word 8 m' (k + 8) = Some (pv k)" if k: "k \<in> H" for k
  proof (cases "k = h")
    case True
    then show ?thesis using rd_word_same_8[OF m'] rd_word_other[OF m' two_words(2)] assms(1) k
      by (auto simp: link_fields_def)
  next
    case False
    then have "region h 8 \<inter> region k 8 = {}" "region h 8 \<inter> region (k + 8) 8 = {}"
      using assms(2,3) k unfolding apart_def two_words(1) by blast+
    then show ?thesis using False rd_word_other[OF m'] assms(1) k by (auto simp: link_fields_def)
  qed
  with m' show ?thesis by (auto simp: link_fields_def)
qed

lemma write_prev:
  assumes "link_fields m H nx pv" and "apart H" and "h \<in> H"
  shows "\<exists>m'. wr_word 8 m (h + 8) v = Some m' \<and> link_fields m' H nx (pv(h := v))"
proof -
  have "region (h + 8) 8 \<subseteq> dom m" using assms(1,3) rd_word_defined[of 8 m "h + 8"] by (auto simp: link_fields_def)
  then obtain m' where m': "wr_word 8 m (h + 8) v = Some m'" using wr_word_defined[of 8 m "h + 8" v] by blast
  have "rd_word 8 m' k = Some (nx k) \<and> rd_word 8 m' (k + 8) = Some ((pv(h := v)) k)" if k: "k \<in> H" for k
  proof (cases "k = h")
    case True
    then show ?thesis using rd_word_same_8[OF m'] rd_word_other[OF m', of h 8] two_words(2)[of h] assms(1) k
      by (auto simp: link_fields_def Int_commute)
  next
    case False
    then have "region (h + 8) 8 \<inter> region k 8 = {}" "region (h + 8) 8 \<inter> region (k + 8) 8 = {}"
      using assms(2,3) k unfolding apart_def two_words(1) by blast+
    then show ?thesis using False rd_word_other[OF m'] assms(1) k by (auto simp: link_fields_def)
  qed
  with m' show ?thesis by (auto simp: link_fields_def)
qed

abbreviation headers :: "addr set \<Rightarrow> addr set" where
  "headers H \<equiv> \<Union>h\<in>H. region h 16"

lemma write_frame:
  assumes "wr_word 8 m a v = Some m'" and "region a 8 \<subseteq> R"
  shows "dom m' = dom m \<and> (\<forall>z. z \<notin> R \<longrightarrow> m' z = m z)"
  using wr_word_dom[OF assms(1)] wr_word_elsewhere[OF assms(1)] assms(2) by blast

lemma link_mem_fields:
  assumes "link_fields m H nx pv" and "apart H" and "mh \<in> H" "b \<in> H" "nx mh \<in> H" and "b \<noteq> mh"
  shows "\<exists>m'. link_mem mh b m = Some m' \<and> link_fields m' H (nx(b := nx mh, mh := b)) (pv(b := mh, nx mh := b))
     \<and> dom m' = dom m \<and> (\<forall>z. z \<notin> headers H \<longrightarrow> m' z = m z)"
proof -
  obtain m1 where m1: "wr_word 8 m (b + 8) mh = Some m1" and f1: "link_fields m1 H nx (pv(b := mh))"
    using write_prev[OF assms(1,2,4)] by blast
  obtain m2 where m2: "wr_word 8 m1 b (nx mh) = Some m2" and f2: "link_fields m2 H (nx(b := nx mh)) (pv(b := mh))"
    using write_next[OF f1 assms(2,4)] by blast
  obtain m3 where m3: "wr_word 8 m2 (nx mh + 8) b = Some m3"
    and f3: "link_fields m3 H (nx(b := nx mh)) (pv(b := mh, nx mh := b))"
    using write_prev[OF f2 assms(2,5)] by blast
  obtain m4 where m4: "wr_word 8 m3 mh b = Some m4"
    and f4: "link_fields m4 H (nx(b := nx mh, mh := b)) (pv(b := mh, nx mh := b))"
    using write_next[OF f3 assms(2,3)] by blast
  have r: "region h 8 \<subseteq> headers H" "region (h + 8) 8 \<subseteq> headers H" if "h \<in> H" for h using that two_words(1) by blast+
  have "rd_word 8 m1 mh = Some (nx mh)" "rd_word 8 m2 mh = Some (nx mh)"
    using f1 f2 assms(3,6) by (auto simp: link_fields_def)
  then have "link_mem mh b m = Some m4" by (simp add: link_mem_def m1 m2 m3 m4)
  moreover have "dom m4 = dom m \<and> (\<forall>z. z \<notin> headers H \<longrightarrow> m4 z = m z)"
    using write_frame[OF m1 r(2)[OF assms(4)]] write_frame[OF m2 r(1)[OF assms(4)]]
      write_frame[OF m3 r(2)[OF assms(5)]] write_frame[OF m4 r(1)[OF assms(3)]] by simp
  ultimately show ?thesis using f4 by blast
qed

lemma unlink_mem_fields:
  assumes "link_fields m H nx pv" and "apart H" and "b \<in> H" "nx b \<in> H" "pv b \<in> H"
  shows "\<exists>m'. unlink_mem b m = Some m' \<and> link_fields m' H (nx(pv b := nx b)) (pv(nx b := pv b))
     \<and> dom m' = dom m \<and> (\<forall>z. z \<notin> headers H \<longrightarrow> m' z = m z)"
proof -
  obtain m1 where m1: "wr_word 8 m (pv b) (nx b) = Some m1" and f1: "link_fields m1 H (nx(pv b := nx b)) pv"
    using write_next[OF assms(1,2,5)] by blast
  obtain m2 where m2: "wr_word 8 m1 (nx b + 8) (pv b) = Some m2"
    and f2: "link_fields m2 H (nx(pv b := nx b)) (pv(nx b := pv b))"
    using write_prev[OF f1 assms(2,4)] by blast
  have r: "region h 8 \<subseteq> headers H" "region (h + 8) 8 \<subseteq> headers H" if "h \<in> H" for h using that two_words(1) by blast+
  have "unlink_mem b m = Some m2"
    using assms(1,3) f1 m1 m2 by (auto simp: unlink_mem_def link_fields_def split: if_split_asm)
  moreover have "dom m2 = dom m \<and> (\<forall>z. z \<notin> headers H \<longrightarrow> m2 z = m z)"
    using write_frame[OF m1 r(1)[OF assms(5)]] write_frame[OF m2 r(2)[OF assms(4)]] by simp
  ultimately show ?thesis using f2 by blast
qed

text \<open>What an arena says about its headers.\<close>

lemma region_nonempty: "0 < n \<Longrightarrow> a \<in> region a n"
  by (auto simp: region_def image_iff intro!: bexI[of _ 0])

lemma sorted_wrt_sym: "sorted_wrt R xs \<Longrightarrow> (\<And>x y. R x y \<Longrightarrow> R y x) \<Longrightarrow> x \<in> set xs \<Longrightarrow> y \<in> set xs \<Longrightarrow> x \<noteq> y \<Longrightarrow> R x y"
  by (induction xs) auto

lemma arena_blocks_apart:
  assumes "arena m mh bs" and "x \<in> set bs" "y \<in> set bs" "x \<noteq> y"
  shows "block_region x \<inter> block_region y = {}"
  using assms sorted_wrt_sym[of "\<lambda>b c. block_region b \<inter> block_region c = {}" bs x y] by (auto simp: arena_def)

lemma arena_block_mapped: "arena m mh bs \<Longrightarrow> b \<in> set bs \<Longrightarrow> block_region b \<subseteq> dom m"
  by (cases b) (auto simp: arena_def list_all_iff block_ok_def block_region_def)

lemma arena_head_apart: "arena m mh bs \<Longrightarrow> b \<in> set bs \<Longrightarrow> region mh 32 \<inter> block_region b = {}"
  by (simp add: arena_def list_all_iff)

lemma block_head: "fst b \<in> block_region b"
  by (cases b) (simp add: block_region_def block_size_def region_nonempty)

lemma disjoint_heads_distinct:
  "sorted_wrt (\<lambda>b c. block_region b \<inter> block_region c = {}) bs \<Longrightarrow> distinct (map fst bs)"
proof (induction bs)
  case (Cons b bs)
  then have "fst b \<noteq> fst c" if "c \<in> set bs" for c using that block_head[of b] block_head[of c] by fastforce
  then show ?case using Cons by auto
qed simp

lemma arena_heads:
  assumes "arena m mh bs"
  shows "apart (set (mh # map fst bs))" and "distinct (mh # map fst bs)"
    and "h \<in> set (mh # map fst bs) \<Longrightarrow> region h 16 \<subseteq> dom m"
proof -
  have mh16: "region mh 16 \<subseteq> region mh 32" using region_part[of 0 16 32 mh] by simp
  have mhb: "region mh 16 \<inter> region (fst x) 16 = {}" if "x \<in> set bs" for x
    using arena_head_apart[OF assms that] mh16 block_header(2)[of "fst x" "snd x"] by auto
  have bb: "region (fst x) 16 \<inter> region (fst y) 16 = {}" if "x \<in> set bs" "y \<in> set bs" "x \<noteq> y" for x y
    using arena_blocks_apart[OF assms that] block_header(2)[of "fst x" "snd x"] block_header(2)[of "fst y" "snd y"] by auto
  show "apart (set (mh # map fst bs))"
    using mhb bb by (auto simp: apart_def Int_commute) blast+
  show "h \<in> set (mh # map fst bs) \<Longrightarrow> region h 16 \<subseteq> dom m"
  proof -
    assume h: "h \<in> set (mh # map fst bs)"
    have "region (fst x) 16 \<subseteq> dom m" if "x \<in> set bs" for x
      using arena_block_mapped[OF assms that] block_header(2)[of "fst x" "snd x"] by auto
    moreover have "region mh 16 \<subseteq> dom m" using mh16 assms by (auto simp: arena_def)
    ultimately show "region h 16 \<subseteq> dom m" using h by auto
  qed
  have "mh \<notin> set (map fst bs)"
    using arena_head_apart[OF assms] block_head region_nonempty[of 32 mh] by fastforce
  moreover have "distinct (map fst bs)" using assms block_head
    by (auto simp: arena_def intro: disjoint_heads_distinct)
  ultimately show "distinct (mh # map fst bs)" by simp
qed

section \<open>Allocation\<close>

text \<open>A new block: mapped, inside the address space and apart from everything the machine has.\<close>

definition fresh_block :: "mem \<Rightarrow> addr \<Rightarrow> (addr \<times> word64) list \<Rightarrow> addr \<times> word64 \<Rightarrow> bool" where
  "fresh_block m mh bs b \<longleftrightarrow> fst b \<noteq> 0 \<and> block_region b \<subseteq> dom m \<and> unat (fst b) + block_size (snd b) \<le> 2 ^ 64
     \<and> region mh 32 \<inter> block_region b = {} \<and> (\<forall>c\<in>set bs. block_region b \<inter> block_region c = {})"

lemma block_body:
  assumes "unat b + block_size n \<le> 2 ^ 64" and "region b (block_size n) \<subseteq> dom m" and "b \<noteq> 0"
  shows "\<exists>m1 m2 m3. wr_word 4 m (b + 24) M_STARTVAL = Some m1 \<and> wr_word 8 m1 (b + 16) n = Some m2
     \<and> wr_word 4 m2 (b + 32 + n) M_ENDVAL = Some m3 \<and> block_ok m3 (b, n) \<and> dom m3 = dom m
     \<and> (\<forall>z. z \<notin> region (b + 16) (20 + unat n) \<longrightarrow> m3 z = m z)"
proof -
  have p: "region (b + of_nat i) k \<subseteq> dom m" if "i + k \<le> 36 + unat n" for i k
    using region_part[OF that, of b] assms(2) by (auto simp: block_size_def)
  have dj: "region (b + of_nat i) k \<inter> region (b + of_nat j) l = {}" if "i + k \<le> j" "j + l \<le> 36 + unat n" for i j k l
    using region_offset[of i k j l b] that assms(1) by (simp add: block_size_def)
  have q: "region (b + of_nat i) k \<subseteq> region (b + 16) (20 + unat n)" if "16 \<le> i" "i + k \<le> 36 + unat n" for i k
    using region_part[of "i - 16" k "20 + unat n" "b + 16"] that by (simp add: of_nat_diff)
  obtain m1 where m1: "wr_word 4 m (b + 24) M_STARTVAL = Some m1"
    using p[of 24 4] wr_word_defined[of 4 m "b + 24" M_STARTVAL] by auto
  obtain m2 where m2: "wr_word 8 m1 (b + 16) n = Some m2"
    using p[of 16 8] wr_word_defined[of 8 m1 "b + 16" n] wr_word_dom[OF m1] by auto
  obtain m3 where m3: "wr_word 4 m2 (b + 32 + n) M_ENDVAL = Some m3"
    using p[of "32 + unat n" 4] wr_word_defined[of 4 m2 "b + 32 + n" M_ENDVAL] wr_word_dom[OF m1] wr_word_dom[OF m2]
    by (auto simp: ac_simps)
  have d: "dom m3 = dom m" using wr_word_dom[OF m1] wr_word_dom[OF m2] wr_word_dom[OF m3] by simp
  have o3: "rd_word k m3 (b + of_nat i) = rd_word k m2 (b + of_nat i)" if "i + k \<le> 32 + unat n" for i k
    using rd_word_other[OF m3, of "b + of_nat i" k] dj[OF that, of 4] by (simp add: ac_simps Int_commute)
  have "rd_word 8 m3 (b + 16) = Some n" using o3[of 16 8] rd_word_same_8[OF m2] by simp
  moreover have "rd_word 4 m3 (b + 24) = Some M_STARTVAL"
    using o3[of 24 4] rd_word_other[OF m2, of "b + 24" 4] dj[of 16 8 24 4] rd_word_same[OF m1] by (simp add: M_STARTVAL_def)
  moreover have "rd_word 4 m3 (b + 32 + n) = Some M_ENDVAL" using rd_word_same[OF m3] by (simp add: M_ENDVAL_def)
  ultimately have ok: "block_ok m3 (b, n)" using assms d by (simp add: block_ok_def)
  have "m3 z = m z" if "z \<notin> region (b + 16) (20 + unat n)" for z
    using that q[of 24 4] q[of 16 8] q[of "32 + unat n" 4] wr_word_elsewhere[OF m1] wr_word_elsewhere[OF m2]
      wr_word_elsewhere[OF m3] by (simp add: ac_simps subset_iff) metis
  with m1 m2 m3 ok d show ?thesis by blast
qed

lemma arena_link_fields:
  assumes "arena m mh bs"
  obtains nx pv where "link_fields m (set (mh # map fst bs)) nx pv" "link_path nx pv mh (map fst bs @ [mh])"
proof -
  let ?H = "set (mh # map fst bs)"
  have f: "link_fields m ?H (\<lambda>h. the (rd_word 8 m h)) (\<lambda>h. the (rd_word 8 m (h + 8)))"
    by (rule link_fields_exist) (rule arena_heads(3)[OF assms])
  from chain_link_path[OF f, of mh "map fst bs @ [mh]"] assms f that show thesis by (auto simp: arena_def)
qed

lemma apart_insert: "apart H \<Longrightarrow> (\<And>h. h \<in> H \<Longrightarrow> region b 16 \<inter> region h 16 = {}) \<Longrightarrow> apart (insert b H)"
  by (auto simp: apart_def Int_commute)

lemma fresh_not_header:
  assumes "fresh_block m mh bs (b, n)" and "h \<in> set (mh # map fst bs)"
  shows "region h 16 \<inter> block_region (b, n) = {}"
proof (cases "h = mh")
  case True
  then show ?thesis using assms(1) region_part[of 0 16 32 mh] by (auto simp: fresh_block_def)
next
  case False
  with assms(2) obtain k where k: "(h, k) \<in> set bs" by auto
  then have "block_region (b, n) \<inter> block_region (h, k) = {}" using assms(1) by (auto simp: fresh_block_def)
  then show ?thesis using block_header(2)[of h k] by blast
qed

lemma fresh_apart:
  assumes "arena m mh bs" and "fresh_block m mh bs (b, n)"
  shows "apart (insert b (set (mh # map fst bs)))" and "b \<notin> set (mh # map fst bs)"
    and "h \<in> insert b (set (mh # map fst bs)) \<Longrightarrow> region h 16 \<subseteq> dom m"
proof -
  have bh: "region b 16 \<subseteq> block_region (b, n)" by (rule block_header(2))
  have d: "region b 16 \<inter> region h 16 = {}" if "h \<in> set (mh # map fst bs)" for h
    using fresh_not_header[OF assms(2) that] bh by blast
  show "b \<notin> set (mh # map fst bs)" using d[of b] region_nonempty[of 16 b] by auto
  show "apart (insert b (set (mh # map fst bs)))" by (rule apart_insert[OF arena_heads(1)[OF assms(1)] d])
  show "h \<in> insert b (set (mh # map fst bs)) \<Longrightarrow> region h 16 \<subseteq> dom m"
    using arena_heads(3)[OF assms(1), of h] assms(2) bh by (auto simp: fresh_block_def)
qed

text \<open>The fields after the links are untouched by changes to link fields.\<close>

lemma arena_body:
  assumes "arena m mh bs" and "c \<in> set bs" and "h \<in> set (mh # map fst bs)"
  shows "region h 16 \<inter> region (fst c + 16) (20 + unat (snd c)) = {}"
    and "region (fst c + 16) (20 + unat (snd c)) \<subseteq> block_region c"
proof -
  obtain a k where c: "c = (a, k)" by (cases c)
  have "block_ok m (a, k)" using assms(1,2) c by (simp add: arena_def list_all_iff)
  then have u: "unat a + block_size k \<le> 2 ^ 64" by (simp add: block_ok_def)
  have sub: "region (a + 16) (20 + unat k) \<subseteq> block_region (a, k)" by (rule block_parts(3)[OF u])
  then show "region (fst c + 16) (20 + unat (snd c)) \<subseteq> block_region c" by (simp add: c)
  consider "h = a" | "h = mh" | "h \<noteq> a" "h \<in> set (map fst bs)" using assms(3) by auto
  then have "region h 16 \<inter> region (a + 16) (20 + unat k) = {}"
  proof cases
    case 1 then show ?thesis using block_parts(2)[OF u] by simp
  next
    case 2 then show ?thesis using arena_head_apart[OF assms(1,2)] c sub region_part[of 0 16 32 mh] by auto
  next
    case 3
    then obtain l where l: "(h, l) \<in> set bs" by auto
    then show ?thesis using arena_blocks_apart[OF assms(1) l assms(2)] 3(1) c sub block_header(2)[of h l] by blast
  qed
  with c show "region h 16 \<inter> region (fst c + 16) (20 + unat (snd c)) = {}" by simp
qed

lemma body_not_header:
  assumes "arena m mh bs" and "c \<in> set bs" and "h \<in> insert b (set (mh # map fst bs))"
    and "fresh_block m mh bs (b, n)"
  shows "region h 16 \<inter> region (fst c + 16) (20 + unat (snd c)) = {}"
proof (cases "h = b")
  case True
  have "block_region (b, n) \<inter> block_region c = {}" using assms(2,4) by (auto simp: fresh_block_def)
  then show ?thesis using True block_header(2)[of b n] arena_body(2)[OF assms(1,2), of mh] by auto
next
  case False
  then show ?thesis using arena_body(1)[OF assms(1,2)] assms(3) by blast
qed

lemma init_block_arena:
  assumes "arena m mh bs" and "fresh_block m mh bs (b, n)"
  shows "\<exists>m'. init_block mh b n m = Some (b + 32, m') \<and> arena m' mh ((b, n) # bs) \<and> dom m' = dom m"
proof -
  let ?H = "insert b (set (mh # map fst bs))"
  note fa = fresh_apart[OF assms]
  let ?nx = "\<lambda>h. the (rd_word 8 m h)" and ?pv = "\<lambda>h. the (rd_word 8 m (h + 8))"
  have f: "link_fields m ?H ?nx ?pv" by (rule link_fields_exist) (rule fa(3))
  have lp: "link_path ?nx ?pv mh (map fst bs @ [mh])"
    using assms(1) chain_link_path[OF f, of mh "map fst bs @ [mh]"] by (auto simp: arena_def)
  then have nmh: "?nx mh \<in> ?H" by (cases bs) auto
  have bmh: "b \<noteq> mh" using fa(2) by simp
  obtain m1 where m1: "link_mem mh b m = Some m1" and d1: "dom m1 = dom m"
    and o1: "\<And>z. z \<notin> headers ?H \<Longrightarrow> m1 z = m z"
    and f1: "link_fields m1 ?H (?nx(b := ?nx mh, mh := b)) (?pv(b := mh, ?nx mh := b))"
    using link_mem_fields[OF f fa(1) _ _ nmh bmh] by auto
  have c1: "chain m1 mh (b # map fst bs @ [mh])"
    using link_path_insert[OF lp fa(2) arena_heads(2)[OF assms(1)]] chain_link_path[OF f1, of mh "b # map fst bs @ [mh]"] by auto
  have u: "unat b + block_size n \<le> 2 ^ 64" and bd: "region b (block_size n) \<subseteq> dom m1" and b0: "b \<noteq> 0"
    using assms(2) d1 by (auto simp: fresh_block_def block_region_def)
  obtain m2 m3 m4 where w: "wr_word 4 m1 (b + 24) M_STARTVAL = Some m2" "wr_word 8 m2 (b + 16) n = Some m3"
      "wr_word 4 m3 (b + 32 + n) M_ENDVAL = Some m4"
    and ok: "block_ok m4 (b, n)" and d4: "dom m4 = dom m1"
    and o4: "\<And>z. z \<notin> region (b + 16) (20 + unat n) \<Longrightarrow> m4 z = m1 z"
    using block_body[OF u bd b0] by blast
  have body: "region h 16 \<inter> region (b + 16) (20 + unat n) = {}" if "h \<in> set (b # mh # map fst bs)" for h
    using that fresh_not_header[OF assms(2), of h] block_parts(2,3)[OF u] by auto
  have k: "m4 z = m1 z" if "y \<in> set (b # mh # map fst bs)" "z \<in> region y 16" for y z
    using body[OF that(1)] that(2) o4 by blast
  have c4: "chain m4 mh (b # map fst bs @ [mh]) = chain m1 mh (b # map fst bs @ [mh])"
    using k two_words(1) by (intro chain_cong) (auto simp: butlast_append)
  have "block_ok m4 c" if c: "c \<in> set bs" for c
  proof -
    have ca: "block_ok m (fst c, snd c)" using assms(1) c by (auto simp: arena_def list_all_iff)
    have "m4 z = m z" if z: "z \<in> region (fst c + 16) (20 + unat (snd c))" for z
    proof -
      have "z \<notin> headers ?H" using body_not_header[OF assms(1) c _ assms(2)] z by blast
      moreover have "z \<in> block_region c" using z block_parts(3)[of "fst c" "snd c"] ca by (auto simp: block_ok_def)
      then have "z \<notin> block_region (b, n)" using assms(2) c by (auto simp: fresh_block_def)
      then have "z \<notin> region (b + 16) (20 + unat n)" using block_parts(3)[OF u] by blast
      ultimately show ?thesis using o1 o4 by simp
    qed
    with ca block_ok_keep[of m4 m "fst c" "snd c"] d1 d4 show ?thesis by simp
  qed
  then have bs4: "list_all (block_ok m4) bs" by (simp add: list_all_iff)
  have "init_block mh b n m = Some (b + 32, m4)" using m1 w by (simp add: init_block_def set_size_def)
  moreover have "arena m4 mh ((b, n) # bs)"
    using c4 c1 bs4 ok assms d1 d4 by (auto simp: arena_def fresh_block_def)
  ultimately show ?thesis using d1 d4 by auto
qed

section \<open>Freeing\<close>

lemma link_path_mid:
  assumes "link_path nx pv mh (xs @ b # ys @ [mh])"
  shows "nx (pv b) = b" "pv (nx b) = b" "pv b \<in> set (mh # xs @ b # ys)" "nx b \<in> set (mh # xs @ b # ys)"
proof -
  obtain q zs where t: "ys @ [mh] = q # zs" by (cases ys) auto
  from assms have p: "nx (last (mh # xs)) = b" "pv b = last (mh # xs)" "nx b = q" "pv q = b"
    by (auto simp: link_path_append t)
  then show "nx (pv b) = b" "pv (nx b) = b" by simp_all
  have "last (mh # xs) \<in> set (mh # xs)" by (rule last_in_set) simp
  then show "pv b \<in> set (mh # xs @ b # ys)" using p(2) by auto
  have "q \<in> set (ys @ [mh])" unfolding t by simp
  then show "nx b \<in> set (mh # xs @ b # ys)" using p(3) by auto
qed

lemma get_mem_block:
  assumes "arena m mh (xs @ (b, n) # ys)"
  shows "get_mem (b + 32) m = Some (Inr b)"
proof -
  obtain nx pv where f: "link_fields m (set (mh # map fst (xs @ (b, n) # ys))) nx pv"
    and lp: "link_path nx pv mh (map fst xs @ b # map fst ys @ [mh])"
    using arena_link_fields[OF assms] by auto
  note mid = link_path_mid[OF lp]
  have h: "rd_word 8 m h = Some (nx h) \<and> rd_word 8 m (h + 8) = Some (pv h)" if "h \<in> set (mh # map fst xs @ b # map fst ys)" for h
    using f that unfolding link_fields_def by (simp only: map_append list.map fst_conv)
  have "rd_word 8 m b = Some (nx b)" "rd_word 8 m (b + 8) = Some (pv b)"
    "rd_word 8 m (nx b + 8) = Some b" "rd_word 8 m (pv b) = Some b"
    using h[of b] h[OF mid(3)] h[OF mid(4)] mid(1,2) by simp_all
  moreover have "block_ok m (b, n)" using assms by (simp add: arena_def)
  ultimately show ?thesis
    by (simp add: get_mem_def block_ok_def Let_def M_STARTVAL_def add.commute[of 32])
qed

text \<open>\<open>free\<close> returns and touches nothing but the block it is given.\<close>

definition frees :: "libc \<Rightarrow> addr \<times> word64 \<Rightarrow> bool" where
  "frees lc b \<longleftrightarrow> (\<forall>m. \<exists>m'. lc_free lc (fst b) m = Some m' \<and> (\<forall>z. z \<notin> block_region b \<longrightarrow> m' z = m z))"

lemma unlink_mem_arena:
  assumes "arena m mh (xs @ (b, n) # ys)"
  shows "\<exists>m'. unlink_mem b m = Some m' \<and> arena m' mh (xs @ ys) \<and> dom m' = dom m
     \<and> rd_word 8 m' (b + 16) = Some n"
proof -
  let ?bs = "xs @ (b, n) # ys"
  let ?H = "set (mh # map fst ?bs)"
  obtain nx pv where f: "link_fields m ?H nx pv" and lp: "link_path nx pv mh (map fst xs @ b # map fst ys @ [mh])"
    using arena_link_fields[OF assms] by auto
  have hs: "?H = set (mh # map fst xs @ b # map fst ys)" by simp
  note mid = link_path_mid[OF lp, folded hs]
  have bH: "b \<in> ?H" by simp
  obtain m1 where m1: "unlink_mem b m = Some m1" and d1: "dom m1 = dom m"
    and f1: "link_fields m1 ?H (nx(pv b := nx b)) (pv(nx b := pv b))" and o1: "\<And>z. z \<notin> headers ?H \<Longrightarrow> m1 z = m z"
    using unlink_mem_fields[OF f arena_heads(1)[OF assms] bH mid(4,3)] by blast
  have "distinct (mh # map fst xs @ b # map fst ys)" using arena_heads(2)[OF assms] by simp
  from link_path_remove(1)[OF lp this] have c: "chain m1 mh (map fst (xs @ ys) @ [mh])"
    using chain_link_path[OF f1, of mh "map fst (xs @ ys) @ [mh]"] by auto
  have ok: "block_ok m1 c" if "c \<in> set ?bs" for c
  proof -
    have "m1 z = m z" if "z \<in> region (fst c + 16) (20 + unat (snd c))" for z
      using arena_body(1)[OF assms \<open>c \<in> set ?bs\<close>] that by (intro o1) blast
    moreover have "block_ok m (fst c, snd c)" using assms that by (auto simp: arena_def list_all_iff)
    ultimately show ?thesis using block_ok_keep[of m1 m "fst c" "snd c"] d1 by simp
  qed
  have "arena m1 mh (xs @ ys)"
    using assms c ok d1 by (auto simp: arena_def list_all_iff sorted_wrt_append)
  moreover have "rd_word 8 m1 (b + 16) = Some n" using ok[of "(b, n)"] by (simp add: block_ok_def)
  ultimately show ?thesis using m1 d1 by blast
qed

lemma block_size_word: "block_ok m (b, n) \<Longrightarrow> unat (of_nat MEM_T_SIZE + n + 4) = block_size n"
proof -
  assume ok: "block_ok m (b, n)"
  then have "0 < unat b" "unat b + block_size n \<le> 2 ^ 64" by (auto simp: block_ok_def unat_gt_0)
  then have "36 + unat n < 2 ^ 64" by (simp add: block_size_def)
  then show ?thesis using unat_plus_no_wrap[of n 36] by (simp add: block_size_def add.commute)
qed

text \<open>How a block is given back: it is taken out of the list, filled with the mark of freed blocks, header and
  all, and passed to \<open>free\<close>.\<close>

definition mark_freed :: "addr \<times> word64 \<Rightarrow> mem \<Rightarrow> mem option" where
  "mark_freed b m = do { m \<leftarrow> unlink_mem (fst b) m; wr_bytes m (fst b) (replicate (block_size (snd b)) M_FREED_BYTE) }"

definition give_back :: "libc \<Rightarrow> addr \<times> word64 \<Rightarrow> mem \<Rightarrow> mem option" where
  "give_back lc b m = do { m \<leftarrow> mark_freed b m; lc_free lc (fst b) m }"

fun give_back_all :: "libc \<Rightarrow> (addr \<times> word64) list \<Rightarrow> mem \<Rightarrow> mem option" where
  "give_back_all lc [] m = Some m"
| "give_back_all lc (b # bs) m = do { m \<leftarrow> give_back lc b m; give_back_all lc bs m }"

lemma ci_mem_free_gives_back:
  assumes "arena m mh (xs @ (b, n) # ys)"
  shows "ci_mem_free lc (b + 32) (m, r) = map_option (\<lambda>m'. (m', r)) (give_back lc (b, n) m)"
proof -
  have ok: "block_ok m (b, n)" using assms by (simp add: arena_def)
  have "b + 32 \<noteq> 0"
    using ok unat_plus_no_wrap[of b 32] by (auto simp: block_ok_def block_size_def)
  moreover obtain m1 where "unlink_mem b m = Some m1" "rd_word 8 m1 (b + 16) = Some n"
    using unlink_mem_arena[OF assms] by blast
  ultimately show ?thesis
    using get_mem_block[OF assms] block_size_word[OF ok]
    by (simp add: ci_mem_free_def give_back_def mark_freed_def map_option_case Option.bind_assoc bind_Some_iff
        split: option.split Option.bind_split)
qed

lemma ci_mem_free_arena:
  assumes "arena m mh (xs @ (b, n) # ys)" and "frees lc (b, n)"
  shows "\<exists>m'. ci_mem_free lc (b + 32) (m, r) = Some (m', r) \<and> arena m' mh (xs @ ys)"
proof -
  have ok: "block_ok m (b, n)" using assms(1) by (simp add: arena_def)
  have "b + 32 \<noteq> 0"
    using ok unat_plus_no_wrap[of b 32] by (auto simp: block_ok_def block_size_def)
  obtain m1 where m1: "unlink_mem b m = Some m1" "arena m1 mh (xs @ ys)" "dom m1 = dom m" "rd_word 8 m1 (b + 16) = Some n"
    using unlink_mem_arena[OF assms(1)] by blast
  let ?z = "replicate (block_size n) M_FREED_BYTE"
  have "region b (length ?z) \<subseteq> dom m1" using ok m1(3) by (simp add: block_ok_def)
  then obtain m2 where m2: "wr_bytes m1 b ?z = Some m2" using wr_bytes_total by blast
  obtain m3 where m3: "lc_free lc b m2 = Some m3" "\<And>z. z \<notin> block_region (b, n) \<Longrightarrow> m3 z = m2 z"
    using assms(2) unfolding frees_def by (metis fst_conv)
  have "m3 z = m1 z" if "z \<notin> block_region (b, n)" for z
    using that m3(2) wr_bytes_other[OF m2] by (simp add: block_region_def)
  moreover have "block_region (b, n) \<inter> (region mh 32 \<union> \<Union> (block_region ` set (xs @ ys))) = {}"
    using assms(1) by (auto simp: arena_def list_all_iff sorted_wrt_append)
  ultimately have "arena m3 mh (xs @ ys) = arena m1 mh (xs @ ys)" by (intro arena_cong) blast
  moreover have "ci_mem_free lc (b + 32) (m, r) = Some (m3, r)"
    using get_mem_block[OF assms(1)] m1 m2 m3(1) block_size_word[OF ok] \<open>b + 32 \<noteq> 0\<close> by (simp add: ci_mem_free_def)
  ultimately show ?thesis using m1(2) by simp
qed

section \<open>A store of blocks\<close>

text \<open>What the users of the arena rely on: the store represents a list of blocks, and giving back one of
  them leaves the others.\<close>

locale block_store =
  fixes rep :: "'m \<Rightarrow> 'b list \<Rightarrow> bool" and release :: "'b \<Rightarrow> 'm \<Rightarrow> 'm option"
  assumes release_rep: "rep m (xs @ b # ys) \<Longrightarrow> \<exists>m'. release b m = Some m' \<and> rep m' (xs @ ys)"
begin

lemma release_first: "rep m (b # bs) \<Longrightarrow> \<exists>m'. release b m = Some m' \<and> rep m' bs"
  using release_rep[of m "[]" b bs] by simp

text \<open>Giving back all the blocks, one after the other, leaves an empty store.\<close>

lemma release_all: "rep m bs \<Longrightarrow> \<exists>m'. foldl (\<lambda>r b. Option.bind r (release b)) (Some m) bs = Some m' \<and> rep m' []"
proof (induction bs arbitrary: m)
  case (Cons b bs)
  then obtain m1 where "release b m = Some m1" "rep m1 bs" using release_first by blast
  with Cons.IH[of m1] show ?case by simp
qed simp

end

definition free_one :: "libc \<Rightarrow> addr \<times> word64 \<Rightarrow> mem \<Rightarrow> mem option" where
  "free_one lc b m = map_option fst (ci_mem_free lc (fst b + 32) (m, CI_ER_CONTINUE))"

definition freeable :: "libc \<Rightarrow> addr \<Rightarrow> mem \<Rightarrow> (addr \<times> word64) list \<Rightarrow> bool" where
  "freeable lc mh m bs \<longleftrightarrow> arena m mh bs \<and> (\<forall>b\<in>set bs. frees lc b)"

interpretation blocks: block_store "freeable lc mh" "free_one lc" for lc mh
proof unfold_locales
  fix m xs b ys
  assume "freeable lc mh m (xs @ b # ys)"
  then show "\<exists>m'. free_one lc b m = Some m' \<and> freeable lc mh m' (xs @ ys)"
    using ci_mem_free_arena[of m mh xs "fst b" "snd b" ys lc CI_ER_CONTINUE]
    by (auto simp: freeable_def free_one_def)
qed

lemma arena_first: "arena m mh bs \<Longrightarrow> rd_word 8 m mh = Some (hd (map fst bs @ [mh]))"
  by (cases bs) (auto simp: arena_def)

lemma arena_second: "arena m mh (b # bs) \<Longrightarrow> rd_word 8 m (fst b) = Some (hd (map fst bs @ [mh]))"
  by (cases bs) (auto simp: arena_def)

lemma free_all_blocks:
  assumes "freeable lc mh m bs"
  shows "free_all lc mh (hd (map fst bs @ [mh])) (m, CI_ER_CONTINUE)
     = map_option (\<lambda>m'. (mh, m', CI_ER_CONTINUE)) (foldl (\<lambda>r b. Option.bind r (free_one lc b)) (Some m) bs)"
  using assms
proof (induction bs arbitrary: m)
  case Nil
  then show ?case by (subst free_all.simps) simp
next
  case (Cons b bs)
  then have a: "arena m mh (b # bs)" and f: "frees lc (fst b, snd b)" by (auto simp: freeable_def)
  obtain m1 where m1: "ci_mem_free lc (fst b + 32) (m, CI_ER_CONTINUE) = Some (m1, CI_ER_CONTINUE)"
    using ci_mem_free_arena[of m mh "[]" "fst b" "snd b" bs lc CI_ER_CONTINUE] a f by auto
  obtain m' where m': "free_one lc b m = Some m'" "freeable lc mh m' bs" using blocks.release_first[OF Cons.prems] by blast
  with m1 have e: "m' = m1" by (simp add: free_one_def)
  have "fst b \<noteq> mh" using arena_heads(2)[OF a] by auto
  with m1 e m' Cons.IH[of m1] arena_second[OF a] show ?case by (subst free_all.simps) simp
qed

lemma give_back_all_blocks:
  "freeable lc mh m bs \<Longrightarrow> foldl (\<lambda>r b. Option.bind r (free_one lc b)) (Some m) bs = give_back_all lc bs m"
proof (induction bs arbitrary: m)
  case (Cons b bs)
  obtain m' where m': "free_one lc b m = Some m'" "freeable lc mh m' bs" using blocks.release_first[OF Cons.prems] by blast
  have "arena m mh ([] @ (fst b, snd b) # bs)" using Cons.prems by (simp add: freeable_def)
  from ci_mem_free_gives_back[OF this, of lc CI_ER_CONTINUE] m'(1) have "give_back lc b m = Some m'"
    by (auto simp: free_one_def)
  with m' Cons.IH show ?case by simp
qed simp

text \<open>Resetting a machine ends and frees every block: the loop of \<open>ci_reset_machine\<close> follows the list through all
  the blocks of the arena, each of which passes the checks and is given back, leaves the list empty and
  the stop result as it was.\<close>

lemma reset_frees_every_block:
  assumes "arena m mh bs" and "\<forall>b\<in>set bs. frees lc b"
  shows "\<exists>m'. reset_mem lc mh (m, r) = Some (m', r) \<and> arena m' mh [] \<and> give_back_all lc bs m = Some m'"
proof -
  have f: "freeable lc mh m bs" using assms by (simp add: freeable_def)
  obtain m' where "foldl (\<lambda>r b. Option.bind r (free_one lc b)) (Some m) bs = Some m'" "freeable lc mh m' []"
    using blocks.release_all[OF f] by blast
  moreover from this have "give_back_all lc bs m = Some m'" by (simp add: give_back_all_blocks[OF f])
  ultimately show ?thesis using free_all_blocks[OF f] arena_first[OF assms(1)]
    by (auto simp: reset_mem_def freeable_def)
qed

text \<open>C36.  \<open>malloc\<close> for interpreted code keeps the arena well formed: if the C library gives a block of the right size that
  is apart from everything the machine has and leaves that alone, then \<open>ci_mem_malloc\<close> returns the address
  after the header of the new block, which becomes the first of the circular list, with its size and
  both markers; if the library has no memory the result is a null pointer.\<close>

theorem malloc_adds_block:
  assumes "arena m mh bs" and "36 + unat n < 2 ^ 64" and "lc_malloc lc (36 + unat n) m = (b, m1)"
    and "b \<noteq> 0 \<Longrightarrow> fresh_block m1 mh bs (b, n)"
    and "\<And>z. z \<in> region mh 32 \<union> \<Union> (block_region ` set bs) \<Longrightarrow> m1 z = m z"
  shows "if b = 0 then ci_mem_malloc lc mh n m = Some (0, m1) \<and> arena m1 mh bs
     else \<exists>m'. ci_mem_malloc lc mh n m = Some (b + 32, m') \<and> arena m' mh ((b, n) # bs)"
proof -
  have u: "unat (of_nat MEM_T_SIZE + n + 4) = 36 + unat n"
    using unat_plus_no_wrap[of n 36] assms(2) by (simp add: add.commute)
  have a: "arena m1 mh bs" using arena_cong[OF assms(5)] assms(1) by simp
  show ?thesis
  proof (cases "b = 0")
    case False
    from init_block_arena[OF a assms(4)[OF False]] False show ?thesis
      using u assms(3) by (auto simp: ci_mem_malloc_def)
  qed (use u assms(3) a in \<open>simp add: ci_mem_malloc_def\<close>)
qed

text \<open>C37.  \<open>free\<close> of a live block passes the checks, takes the block out of the list, wherever it is, and leaves the rest of
  the arena well formed and the stop result unchanged.\<close>

theorem free_removes_block:
  assumes "arena m mh (xs @ (b, n) # ys)" and "frees lc (b, n)"
  shows "\<exists>m'. ci_mem_free lc (b + 32) (m, r) = Some (m', r) \<and> arena m' mh (xs @ ys)"
  by (rule ci_mem_free_arena[OF assms])

lemma user_address_not_null: "block_ok m (b, n) \<Longrightarrow> b + 32 \<noteq> 0"
  using unat_plus_no_wrap[of b 32] by (auto simp: block_ok_def block_size_def)

lemma freed_marker:
  assumes "wr_bytes m b (replicate (36 + k) M_FREED_BYTE) = Some m'" and "36 + k \<le> 2 ^ 64"
  shows "rd_word 4 m' (b + 24) = Some 0x91919191"
proof -
  have "replicate (36 + k) M_FREED_BYTE = replicate 24 M_FREED_BYTE @ replicate 4 M_FREED_BYTE @ replicate (8 + k) M_FREED_BYTE"
    by (simp add: replicate_add[symmetric])
  moreover have "code_at m' b (replicate (36 + k) M_FREED_BYTE)"
    using rd_wr_same[OF assms(1)] assms(2) by (simp add: code_at_def)
  ultimately have "code_at m' (b + 24) (replicate 4 M_FREED_BYTE)" by (simp add: code_at_append del: replicate.simps)
  moreover have "word_of (replicate 4 M_FREED_BYTE) = 0x91919191" by code_simp
  ultimately show ?thesis by (simp add: code_at_def rd_word_def del: replicate.simps)
qed

text \<open>C38.  Freeing a block twice.  What \<open>ci_mem_free\<close> passes to \<open>free\<close> is the block filled with the mark of freed blocks,
  header and all, so that the place of the first marker bears the mark.  In any memory where that place still bears it, another
  \<open>free\<close> of the same pointer, or a \<open>realloc\<close> of it, changes nothing but the stop result, which becomes
  \<open>CI_ER_MEM_FREED\<close>.  Whether it still does after \<open>free\<close> is up to the C library: the code does not know.\<close>

theorem double_free_detected:
  assumes "arena m mh (xs @ (b, n) # ys)" and "frees lc (b, n)"
  shows "\<exists>m0 m1. mark_freed (b, n) m = Some m0 \<and> lc_free lc b m0 = Some m1 \<and> ci_mem_free lc (b + 32) (m, r) = Some (m1, r)
    \<and> rd_word 4 m0 (b + 24) = Some 0x91919191
    \<and> (\<forall>m2 r2. rd_word 4 m2 (b + 24) = Some 0x91919191 \<longrightarrow> ci_mem_free lc (b + 32) (m2, r2) = Some (m2, CI_ER_MEM_FREED)
        \<and> (\<forall>k. k \<noteq> 0 \<longrightarrow> ci_mem_realloc lc mh (b + 32) k (m2, r2) = Some (0, m2, CI_ER_MEM_FREED)))"
proof -
  have ok: "block_ok m (b, n)" using assms(1) by (simp add: arena_def)
  note nz = user_address_not_null[OF ok]
  obtain m1 where m1: "ci_mem_free lc (b + 32) (m, r) = Some (m1, r)" using ci_mem_free_arena[OF assms] by blast
  then have "give_back lc (b, n) m = Some m1" using ci_mem_free_gives_back[OF assms(1), of lc r] by (simp add: map_option_eq_Some)
  then obtain m0 where m0: "mark_freed (b, n) m = Some m0" "lc_free lc b m0 = Some m1"
    by (auto simp: give_back_def bind_Some_iff)
  obtain mu where "wr_bytes mu b (replicate (36 + unat n) M_FREED_BYTE) = Some m0"
    using m0(1) by (auto simp: mark_freed_def bind_Some_iff block_size_def)
  from freed_marker[OF this] ok have "rd_word 4 m0 (b + 24) = Some 0x91919191"
    by (simp add: block_ok_def block_size_def)
  moreover have "ci_mem_free lc (b + 32) (m2, r2) = Some (m2, CI_ER_MEM_FREED)
      \<and> (\<forall>k. k \<noteq> 0 \<longrightarrow> ci_mem_realloc lc mh (b + 32) k (m2, r2) = Some (0, m2, CI_ER_MEM_FREED))"
    if "rd_word 4 m2 (b + 24) = Some 0x91919191" for m2 r2
    using nz that by (simp add: ci_mem_free_def ci_mem_realloc_def get_mem_def Let_def add.commute[of 32])
  ultimately show ?thesis using m0 m1 by blast
qed

text \<open>What \<open>get_mem\<close> makes of a block whose links, size and first marker are in order.\<close>

lemma get_mem_end_marker:
  assumes "arena m mh (xs @ (b, n) # ys)" and "\<And>z. z \<notin> region (b + 32 + n) 4 \<Longrightarrow> m' z = m z"
    and "rd_word 4 m' (b + 32 + n) = Some w"
  shows "get_mem (b + 32) m' = Some (if w = M_ENDVAL then Inr b else Inl CI_ER_MEM_OVERRUN)"
proof -
  let ?bs = "xs @ (b, n) # ys"
  let ?H = "set (mh # map fst ?bs)"
  have ok: "block_ok m (b, n)" using assms(1) by (simp add: arena_def)
  obtain nx pv where f: "link_fields m ?H nx pv" and lp: "link_path nx pv mh (map fst xs @ b # map fst ys @ [mh])"
    using arena_link_fields[OF assms(1)] by auto
  have hs: "?H = set (mh # map fst xs @ b # map fst ys)" by simp
  note mid = link_path_mid[OF lp, folded hs]
  have tail: "region (b + 32 + n) 4 \<subseteq> region (b + 16) (20 + unat n)"
    using region_part[of "16 + unat n" 4 "20 + unat n" "b + 16"] by (simp add: ac_simps)
  have hd: "m' z = m z" if "h \<in> ?H" "z \<in> region h 16" for h z
    using arena_body(1)[OF assms(1) _ that(1), of "(b, n)"] that(2) tail by (intro assms(2)) auto
  have h: "rd_word 8 m' h = Some (nx h) \<and> rd_word 8 m' (h + 8) = Some (pv h)" if "h \<in> ?H" for h
  proof -
    have "rd_word 8 m' h = rd_word 8 m h" "rd_word 8 m' (h + 8) = rd_word 8 m (h + 8)"
      using hd[OF that] two_words(1)[of h] by (auto intro!: rd_word_cong)
    with bspec[OF f[unfolded link_fields_def] that] show ?thesis by simp
  qed
  have dj: "region (b + of_nat i) k \<inter> region (b + 32 + n) 4 = {}" if "i + k \<le> 32" for i k
    using region_offset[of i k "32 + unat n" 4 b] that ok by (simp add: block_ok_def block_size_def ac_simps)
  have "rd_word 8 m' (b + 16) = Some n" "rd_word 4 m' (b + 24) = Some M_STARTVAL"
    using dj[of 16 8] dj[of 24 4] rd_word_cong[of "b + 16" 8 m' m] rd_word_cong[of "b + 24" 4 m' m] assms(2) ok
    by (auto simp: block_ok_def)
  moreover have "rd_word 8 m' b = Some (nx b)" "rd_word 8 m' (b + 8) = Some (pv b)"
    "rd_word 8 m' (nx b + 8) = Some b" "rd_word 8 m' (pv b) = Some b"
    using h[of b] h[OF mid(3)] h[OF mid(4)] mid(1,2) by simp_all
  ultimately show ?thesis using assms(3)
    by (simp add: get_mem_def Let_def M_STARTVAL_def add.commute[of 32])
qed

text \<open>Writing past the end of a block is detected when it is freed: if any of the four bytes that follow the block has
  been changed, \<open>ci_mem_free\<close> leaves the arena alone and sets the stop result to \<open>CI_ER_MEM_OVERRUN\<close>.\<close>

theorem overrun_detected:
  assumes "arena m mh (xs @ (b, n) # ys)" and "i < 4" and "m (b + 32 + n + of_nat i) \<noteq> Some v"
  shows "ci_mem_free lc (b + 32) (m(b + 32 + n + of_nat i \<mapsto> v), r)
     = Some (m(b + 32 + n + of_nat i \<mapsto> v), CI_ER_MEM_OVERRUN)"
proof -
  let ?a = "b + 32 + n" and ?m = "m(b + 32 + n + of_nat i \<mapsto> v)"
  have ok: "block_ok m (b, n)" using assms(1) by (simp add: arena_def)
  then obtain bs where bs: "rd_bytes m ?a 4 = Some bs" "word_of bs = M_ENDVAL"
    by (auto simp: block_ok_def rd_word_def)
  have in4: "?a + of_nat i \<in> region ?a 4" using assms(2) by (auto simp: region_def)
  have "region ?a 4 \<subseteq> dom ?m" using bs(1) rd_bytes_total[of ?a 4 m] by auto
  then obtain cs where cs: "rd_bytes ?m ?a 4 = Some cs" using rd_bytes_total[of ?a 4 ?m] by blast
  have l: "length bs = 4" "length cs = 4" using bs(1) cs rd_bytes_length by blast+
  have "code_at m ?a bs" "code_at ?m ?a cs" using bs(1) cs l by (simp_all add: code_at_def)
  then have "cs ! i = v" "m (?a + of_nat i) = Some (bs ! i)" using assms(2) l by (auto simp: code_at_pointwise)
  with assms(3) have "cs \<noteq> bs" by auto
  then have ne: "word_of cs \<noteq> M_ENDVAL"
    using bs(2) bytes_of_word_of[of bs 4] bytes_of_word_of[of cs 4] l by auto
  have "get_mem (b + 32) ?m = Some (if word_of cs = M_ENDVAL then Inr b else Inl CI_ER_MEM_OVERRUN)"
  proof (rule get_mem_end_marker[OF assms(1)])
    show "?m z = m z" if "z \<notin> region ?a 4" for z using that in4 by auto
    show "rd_word 4 ?m ?a = Some (word_of cs)" using cs by (simp add: rd_word_def)
  qed
  with ne user_address_not_null[OF ok] show ?thesis by (simp add: ci_mem_free_def)
qed

section \<open>A small arena\<close>

definition demo_arena :: mem where
  "demo_arena = x_mem (demo_poke [(0x2200, 0x1800), (0x2208, 0x1800), (0x1800, 0x2200), (0x1808, 0x2200),
     (0x1810, 8), (0x1818, M_STARTVAL), (0x1828, M_ENDVAL)] (demo_state []))"

definition demo_libc :: libc where
  "demo_libc = \<lparr>lc_malloc = (\<lambda>k m. (0x1900, m)), lc_free = (\<lambda>b m. Some m), lc_realloc = (\<lambda>b k m. Some (b, m))\<rparr>"

lemma demo_arena_dom: "dom demo_arena = dom (demo_mem [])"
  unfolding demo_arena_def by (subst demo_poke_dom) (simp_all add: demo_state_def demo_mapped)

lemma demo_arena_ok: "arena demo_arena 0x2200 [(0x1800, 8)]"
proof -
  have c: "chain demo_arena 0x2200 [0x1800, 0x2200]" by code_simp
  have "rd_word 8 demo_arena (0x1800 + 16) = Some 8 \<and> rd_word 4 demo_arena (0x1800 + 24) = Some M_STARTVAL
     \<and> rd_word 4 demo_arena (0x1800 + 32 + 8) = Some M_ENDVAL" by code_simp
  moreover have "region 0x1800 (block_size 8) \<subseteq> dom demo_arena" "region 0x2200 32 \<subseteq> dom demo_arena"
    unfolding demo_arena_dom by (rule demo_mapped; simp add: block_size_def)+
  moreover have "region 0x2200 32 \<inter> region 0x1800 (block_size 8) = {}"
    using region_disjoint[of "0x1800" "block_size 8" "0x2200" 32] by (simp add: block_size_def Int_commute)
  ultimately show ?thesis using c by (simp add: arena_def block_ok_def block_region_def block_size_def)
qed

lemma demo_frees: "frees demo_libc b"
  by (simp add: frees_def demo_libc_def)

theorem free_removes_block_witness:
  "\<exists>m'. ci_mem_free demo_libc 0x1820 (demo_arena, CI_ER_CONTINUE) = Some (m', CI_ER_CONTINUE) \<and> arena m' 0x2200 []"
  using free_removes_block[of demo_arena "0x2200" "[]" "0x1800" 8 "[]" demo_libc] demo_arena_ok demo_frees by simp

theorem malloc_adds_block_witness:
  "\<exists>m'. ci_mem_malloc demo_libc 0x2200 24 demo_arena = Some (0x1920, m') \<and> arena m' 0x2200 [(0x1900, 24), (0x1800, 8)]"
proof -
  have "region 0x1900 60 \<subseteq> dom demo_arena" unfolding demo_arena_dom by (rule demo_mapped; simp)
  moreover have "region 0x2200 32 \<inter> region 0x1900 60 = {}" "region 0x1900 60 \<inter> region 0x1800 44 = {}"
    using region_disjoint[of "0x1900" 60 "0x2200" 32] region_disjoint[of "0x1800" 44 "0x1900" 60] by (simp_all add: Int_commute)
  ultimately have "fresh_block demo_arena 0x2200 [(0x1800, 8)] (0x1900, 24)"
    by (simp add: fresh_block_def block_region_def block_size_def)
  then show ?thesis
    using malloc_adds_block[OF demo_arena_ok, of 24 demo_libc "0x1900" demo_arena] by (simp add: demo_libc_def)
qed

theorem double_free_detected_witness:
  "\<exists>m'. ci_mem_free demo_libc 0x1820 (demo_arena, CI_ER_CONTINUE) = Some (m', CI_ER_CONTINUE)
     \<and> ci_mem_free demo_libc 0x1820 (m', CI_ER_CONTINUE) = Some (m', CI_ER_MEM_FREED)"
proof -
  have a: "arena demo_arena 0x2200 ([] @ (0x1800, 8) # [])" using demo_arena_ok by simp
  from double_free_detected[OF a demo_frees, of CI_ER_CONTINUE] show ?thesis by (auto simp: demo_libc_def)
qed

theorem overrun_detected_witness:
  "ci_mem_free demo_libc 0x1820 (demo_arena(0x1828 \<mapsto> 0), CI_ER_CONTINUE) = Some (demo_arena(0x1828 \<mapsto> 0), CI_ER_MEM_OVERRUN)"
proof -
  have a: "arena demo_arena 0x2200 ([] @ (0x1800, 8) # [])" using demo_arena_ok by simp
  have "demo_arena 0x1828 \<noteq> Some 0" by code_simp
  with overrun_detected[OF a, of 0 0 demo_libc CI_ER_CONTINUE] show ?thesis by simp
qed

section \<open>Addresses of the interpreter\<close>

lemma arena_next: "arena m mh (xs @ b # cs) \<Longrightarrow> rd_word 8 m (fst b) = Some (hd (map fst cs @ [mh]))"
  by (cases cs) (auto simp: arena_def chain_append)

lemma find_block_spec:
  assumes "arena m mh (xs @ cs)"
  shows "find_block m mh a lim (hd (map fst cs @ [mh]))
     = Some (\<exists>c\<in>set cs. addr_within a lim (fst c + 32) (fst c + 32 + snd c))"
  using assms
proof (induction cs arbitrary: xs)
  case Nil
  then show ?case by (subst find_block.simps) simp
next
  case (Cons c cs)
  have "fst c \<noteq> mh" using arena_heads(2)[OF Cons.prems] by auto
  moreover have "rd_word 8 m (fst c + 16) = Some (snd c)"
    using Cons.prems by (cases c) (simp add: arena_def block_ok_def)
  ultimately show ?case
    using arena_next[OF Cons.prems] Cons.IH[of "xs @ [c]"] Cons.prems by (subst find_block.simps) auto
qed

lemma in_codefile_data_spec:
  assumes "\<forall>p\<in>set ps. cfs p \<noteq> None"
  shows "in_codefile_data cfs a lim ps = Some (\<exists>p\<in>set ps. \<exists>cf. cfs p = Some cf \<and> cf_loaded cf
     \<and> addr_within a lim (cf_text_and_data cf + cf_text_size cf)
         (cf_text_and_data cf + cf_text_size cf + cf_data_size cf + cf_bss_size cf))"
  using assms by (induction ps) (auto simp: Let_def)

text \<open>\<open>ci_is_ci_addr\<close> answers for every address: the search through the code files and the list of blocks ends, and the
  answer is yes exactly when the bytes from the address on lie in the stack, in the data of the machine, in
  the data of a loaded code file, or in a block of the arena.\<close>

theorem ci_is_ci_addr_complete:
  assumes "arena (n_mem nv) (ma_mhead ma) bs" and "\<forall>p\<in>set (ma_cftab ma). n_cfs nv p \<noteq> None"
  shows "ci_is_ci_addr ma nv a len = Some (a \<noteq> 0 \<and>
     (addr_within a (a + len) (ma_minsp ma) (ma_maxsp ma)
      \<or> addr_within a (a + len) (ma_data ma) (ma_data ma + ma_data_size ma + ma_bss_size ma)
      \<or> (\<exists>p\<in>set (ma_cftab ma). \<exists>cf. n_cfs nv p = Some cf \<and> cf_loaded cf
           \<and> addr_within a (a + len) (cf_text_and_data cf + cf_text_size cf)
               (cf_text_and_data cf + cf_text_size cf + cf_data_size cf + cf_bss_size cf))
      \<or> (\<exists>c\<in>set bs. addr_within a (a + len) (fst c + 32) (fst c + 32 + snd c))))"
  using in_codefile_data_spec[OF assms(2)] arena_first[OF assms(1)]
    find_block_spec[of "n_mem nv" "ma_mhead ma" "[]" bs a "a + len"] assms(1)
  by (auto simp: ci_is_ci_addr_def Let_def)

section \<open>File descriptors\<close>

definition fdtab_ok :: "'w machine_t \<Rightarrow> bool" where
  "fdtab_ok ma \<longleftrightarrow> length (ma_fdtab ma) = ma_fdtab_size ma"

text \<open>The table of file descriptors is a set: registering a descriptor that is not registered adds it and changes no
  other, provided the new part of a table that has to grow holds zeros; one that is negative or already
  registered makes the program panic.  The table keeps its length.\<close>

theorem register_fd_adds:
  assumes "fdtab_ok ma" and "\<And>i. junk i = 0"
  shows "if fd < 0 then ci_register_fd junk fd ma = Inl ''fd<0 in rf''
     else if ci_fd_is_registered fd ma then ci_register_fd junk fd ma = Inl ''dup fd in rf''
     else \<exists>ma'. ci_register_fd junk fd ma = Inr ma' \<and> fdtab_ok ma'
        \<and> (\<forall>g. ci_fd_is_registered g ma' \<longleftrightarrow> g = fd \<or> ci_fd_is_registered g ma)"
proof (cases "fd < 0")
  case False
  let ?ma = "if nat fd \<ge> ma_fdtab_size ma
     then ma\<lparr>ma_fdtab_size := nat fd + 32, ma_fdtab := ma_fdtab ma @ map junk [length (ma_fdtab ma) ..< nat fd + 32]\<rparr> else ma"
  have l: "length (ma_fdtab ?ma) = ma_fdtab_size ?ma" "nat fd < ma_fdtab_size ?ma" using assms(1) by (auto simp: fdtab_ok_def)
  have r: "ci_fd_is_registered g ?ma = ci_fd_is_registered g ma" for g
    using assms by (auto simp: ci_fd_is_registered_def fdtab_ok_def nth_append)
  have e: "ci_register_fd junk fd ma = (if ci_fd_is_registered fd ma then Inl ''dup fd in rf''
       else Inr (?ma\<lparr>ma_fdtab := (ma_fdtab ?ma)[nat fd := 1]\<rparr>))"
    using False l(2) r[of fd] by (simp add: ci_register_fd_def ci_fd_is_registered_def Let_def)
  have "ci_fd_is_registered g (?ma\<lparr>ma_fdtab := (ma_fdtab ?ma)[nat fd := 1]\<rparr>) \<longleftrightarrow> g = fd \<or> ci_fd_is_registered g ?ma" for g
    using l False by (auto simp: ci_fd_is_registered_def nth_list_update)
  with e l r False show ?thesis by (auto simp: fdtab_ok_def)
qed (simp add: ci_register_fd_def)

text \<open>A table that grows is not cleared: when the descriptor lies beyond the table and the byte that \<open>realloc\<close> left there
  is not zero, \<open>ci_register_fd\<close> panics although the descriptor was never registered.\<close>

theorem register_fd_reads_uncleared_memory:
  assumes "fdtab_ok ma" and "0 \<le> fd" and "ma_fdtab_size ma \<le> nat fd" and "junk (nat fd) \<noteq> 0"
  shows "\<not> ci_fd_is_registered fd ma \<and> ci_register_fd junk fd ma = Inl ''dup fd in rf''"
  using assms by (simp add: ci_register_fd_def ci_fd_is_registered_def fdtab_ok_def nth_append)

lemma unregister_fd_removes:
  assumes "fdtab_ok ma" and "0 \<le> fd" and "nat fd < ma_fdtab_size ma" and "ma_fdtab ma ! nat fd = 1"
  shows "\<exists>ma'. ci_unregister_fd fd ma = Inr ma' \<and> fdtab_ok ma'
     \<and> (\<forall>g. ci_fd_is_registered g ma' \<longleftrightarrow> g \<noteq> fd \<and> ci_fd_is_registered g ma)"
  using assms by (auto simp: ci_unregister_fd_def ci_fd_is_registered_def fdtab_ok_def nth_list_update)

text \<open>A machine with nothing loaded, for the concrete instances.\<close>

definition demo_machine :: "unit machine_t" where
  "demo_machine = \<lparr>ma_opcounts = None, ma_data = 0x2100, ma_data_copy = 0, ma_data_size = 0x80, ma_bss_size = 0,
     ma_loadfunc = None, ma_entry_codefile = 0x2700, ma_entry_point = 2, ma_argc_pos = 0, ma_argv_pos = 0, ma_envp_pos = 0,
     ma_cftab = [], ma_reg_relocs = [], ma_get_regaddr_proc = None, ma_callbacks = [], ma_libfuncs = (\<lambda>_. None), ma_minsp = 0x1000, ma_maxsp = 0x1400,
     ma_initial_sp = 0x1400, ma_stack_size = 0x400, ma_pc = 0x2800, ma_sp = 0x1400, ma_fp = 0, ma_codefile = 0x2700,
     ma_retval = 0, ma_stopres = CI_ER_CONTINUE, ma_fdtab = replicate 64 0, ma_fdtab_size = 64, ma_mhead = 0x2200\<rparr>"

theorem ci_is_ci_addr_complete_witness:
  "ci_is_ci_addr demo_machine \<lparr>n_mem = demo_arena, n_cfs = (\<lambda>_. None), n_world = ()\<rparr> 0x1820 8 = Some True"
  using ci_is_ci_addr_complete[of "\<lparr>n_mem = demo_arena, n_cfs = (\<lambda>_. None), n_world = ()\<rparr>" demo_machine "[(0x1800, 8)]" "0x1820" 8]
    demo_arena_ok by (simp add: demo_machine_def addr_within_def)

theorem register_fd_adds_witness:
  "\<exists>ma'. ci_register_fd (\<lambda>_. 0) 70 demo_machine = Inr ma' \<and> ci_fd_is_registered 70 ma' \<and> \<not> ci_fd_is_registered 5 ma'"
proof -
  have "fdtab_ok demo_machine" "\<not> ci_fd_is_registered 70 demo_machine" "\<not> ci_fd_is_registered 5 demo_machine"
    by (simp_all add: fdtab_ok_def ci_fd_is_registered_def demo_machine_def)
  with register_fd_adds[of demo_machine "\<lambda>_. 0" 70] show ?thesis by auto
qed

theorem register_fd_reads_uncleared_memory_witness:
  "ci_register_fd (\<lambda>_. 0xff) 70 demo_machine = Inl ''dup fd in rf''"
  using register_fd_reads_uncleared_memory[of demo_machine 70 "\<lambda>_. 0xff"] by (simp add: fdtab_ok_def demo_machine_def)

end
