(* ===== verification/Ups_Runtime_Props.thy ===== *)
theory Ups_Runtime_Props
  imports Ups_Runtime Ups_Exec_Props Ups_Arena_Props
begin

text \<open>
  What the code around the machine does: breakpoints can be set and removed, a function that is run on its
  own comes back to the debugger, the program gets its arguments, and resetting a machine releases what
  the program left behind.  Two parts do not work on a host with 8-byte \<open>long\<close>s and two-byte opcodes: the
  start-up code and the callbacks.
\<close>

section \<open>Start-up code\<close>

text \<open>\<open>ci_make_crt0\<close> does not work on a host with 8-byte \<open>long\<close>s: whatever the two function indices, it stores outside
  the buffer it has allocated, whose size counts four bytes per \<open>long\<close>; with 4-byte \<open>long\<close>s it fills the
  buffer exactly.\<close>

theorem crt0_overruns_on_lp64:
  "ci_make_crt0 8 main_index exit_index = None \<and> (\<exists>su. ci_make_crt0 4 main_index exit_index = Some (Inr su))"
  by (simp add: ci_make_crt0_def crt_byte_def crt_long_def Let_def)

section \<open>Breakpoints\<close>

lemma rd_wr_bytes_back:
  assumes "rd_bytes m a (length bs) = Some cs" and "wr_bytes m a bs = Some m1" and "length bs \<le> 2 ^ 64"
  shows "wr_bytes m1 a cs = Some m"
proof -
  have l: "length cs = length bs" using rd_bytes_length[OF assms(1)] .
  have "region a (length cs) \<subseteq> dom m1"
    using rd_bytes_total[of a "length bs" m] assms(1) wr_bytes_dom[OF assms(2)] l by auto
  then obtain m2 where m2: "wr_bytes m1 a cs = Some m2" using wr_bytes_total by blast
  have c2: "code_at m2 a cs" using rd_wr_same[OF m2] assms(3) l by (simp add: code_at_def)
  have c: "code_at m a cs" using assms(1) l by (simp add: code_at_def)
  have "m2 x = m x" for x
  proof (cases "x \<in> region a (length cs)")
    case True
    then obtain i where "i < length cs" "x = a + of_nat i" by (auto simp: region_def)
    with c c2 show ?thesis by (simp add: code_at_pointwise)
  next
    case False
    then show ?thesis using wr_bytes_other[OF m2] wr_bytes_other[OF assms(2)] l by simp
  qed
  then have "m2 = m" by (rule ext)
  with m2 show ?thesis by simp
qed

text \<open>C28.  A breakpoint stops the machine and can be removed: after \<open>ci_install_trap_instruction\<close> the machine, when it gets to
  the location, stops with \<open>CI_ER_TRAP\<close>, and \<open>ci_uninstall_trap_instruction\<close> with the opcode that the
  installation returned gives back exactly the memory of before, if that was an opcode.\<close>

theorem trap_instruction_roundtrip:
  assumes "ci_install_trap_instruction ma location nv = Some (opc, nv1)" and "opc < of_nat NUM_OPCODES"
    and "n_cfs nv (ma_codefile ma) = Some cf"
    and "x_mem s = n_mem nv1" and "x_pc s = cf_text_and_data cf + location"
  shows "(\<exists>s'. step e s = Some (Quit CI_ER_TRAP s')) \<and> ci_uninstall_trap_instruction ma location opc nv1 = Some (Inr nv)"
proof -
  let ?a = "cf_text_and_data cf + location" and ?t = "bytes_of 2 (of_nat (opcode_num OC_TRAP))"
  obtain m1 where o: "rd_word 2 (n_mem nv) ?a = Some opc" and m1: "wr_bytes (n_mem nv) ?a ?t = Some m1"
    and nv1: "nv1 = nv\<lparr>n_mem := m1\<rparr>"
    using assms(1,3) by (auto simp: ci_install_trap_instruction_def putopcode_def bind_Some_iff)
  obtain cs where cs: "rd_bytes (n_mem nv) ?a 2 = Some cs" "word_of cs = opc" using o by (auto simp: rd_word_def)
  have c: "code_at m1 ?a (opcode_bytes OC_TRAP)"
    using rd_wr_same[OF m1] by (simp add: code_at_def opcode_bytes_def)
  have t: "rd_word 2 m1 ?a = Some (of_nat (opcode_num OC_TRAP))"
    using c word_of_opcode_bytes[of OC_TRAP] by (simp add: code_at_def rd_word_def)
  have "bytes_of 2 opc = cs" using cs rd_bytes_length[OF cs(1)] bytes_of_word_of[of cs 2] by simp
  then have "wr_bytes m1 ?a (bytes_of 2 opc) = Some (n_mem nv)" using rd_wr_bytes_back[OF _ m1, of cs] cs(1) by simp
  then have "ci_uninstall_trap_instruction ma location opc nv1 = Some (Inr nv)"
    using assms(2,3) t by (simp add: ci_uninstall_trap_instruction_def nv1 putopcode_def not_le[symmetric])
  moreover have "step e s = exec e OC_TRAP (count_opcode OC_TRAP (skip_text 2 s))"
    using c assms(4,5) nv1 by (intro step_at) simp
  ultimately show ?thesis by simp
qed

section \<open>The trap frame\<close>

text \<open>C29.  A function that is run on its own gives control back.  After \<open>ci_push_trap_frame\<close>, code that starts with an empty
  frame at the initial stack pointer, links a frame, and returns, arrives at the \<open>OC_TRAP\<close> at the start of
  the text, so that the machine stops with \<open>CI_ER_TRAP\<close>, with the stack as empty as it was before the trap
  frame was pushed.\<close>

theorem trap_frame_stops_machine:
  assumes "ci_push_trap_frame ma nv = Some (Inr (ma', nv'))" and "n_cfs nv (ma_entry_codefile ma) = Some cf"
    and "x_mem s = n_mem nv'" and "x_sp s = ma_initial_sp ma'" and "exec_link e sz s = Some (Next s1)"
    and "x_fp s2 = x_fp s1" and "\<And>x. x \<in> region (x_fp s1) 24 \<Longrightarrow> x_mem s2 x = x_mem s1 x"
    and "code_at (x_mem s2) (cf_text_and_data cf) (opcode_bytes OC_TRAP)"
  shows "\<exists>s3 s4. exec_ret s2 = Some (Next s3) \<and> step e s3 = Some (Quit CI_ER_TRAP s4)
      \<and> x_sp s4 = ma_initial_sp ma \<and> x_cf s4 = ma_entry_codefile ma"
proof -
  let ?sp = "ma_initial_sp ma - 16"
  obtain m1 m2 where w: "wr_word 8 (n_mem nv) (ma_initial_sp ma - 8) (ma_entry_codefile ma) = Some m1"
      "wr_word 8 m1 ?sp (cf_text_and_data cf) = Some m2"
    and ma': "ma_initial_sp ma' = ?sp" "n_mem nv' = m2"
    using assms(1,2) by (auto simp: ci_push_trap_frame_def bind_Some_iff Let_def split: if_split_asm)
  obtain t where t: "push (x_fp s) s = Some t" and s1: "x_mem s1 = x_mem t" "x_fp s1 = x_sp t"
    using assms(5) by (auto simp: exec_link_def fetch_def bind_Some_iff Let_def skip_text_def split: if_split_asm)
  obtain m3 where m3: "wr_word 8 m2 (?sp - 8) (x_fp s) = Some m3" "x_mem t = m3" "x_sp t = ?sp - 8"
    using t assms(3,4) ma' by (auto simp: push_def bind_Some_iff)
  have f: "frame_at m3 (ma_initial_sp ma - 24) (x_fp s) (cf_text_and_data cf) (ma_entry_codefile ma)"
    using frame_written[of "n_mem nv" "ma_initial_sp ma - 24" "ma_entry_codefile ma" m1 "cf_text_and_data cf" m2 "x_fp s" m3] w m3(1) by simp
  have fp: "x_fp s1 = ma_initial_sp ma - 24" using s1(2) m3(3) by simp
  have "frame_at (x_mem s2) (x_fp s2) (x_fp s) (cf_text_and_data cf) (ma_entry_codefile ma)"
    using f frame_at_cong[OF assms(7)] s1(1) m3(2) fp assms(6) by simp
  from unlink_frame[OF this] obtain s3 where s3: "exec_ret s2 = Some (Next s3)" "x_pc s3 = cf_text_and_data cf"
      "x_mem s3 = x_mem s2" "x_sp s3 = ma_initial_sp ma" "x_cf s3 = ma_entry_codefile ma"
    by (simp add: exec_ret_def assms(6) fp)
  have "step e s3 = exec e OC_TRAP (count_opcode OC_TRAP (skip_text 2 s3))"
    using assms(8) s3 by (intro step_at) simp
  with s3 show ?thesis by auto
qed

section \<open>Arguments of the program\<close>

text \<open>A table of strings, as \<open>argv\<close> and \<open>envp\<close> are: pointers to strings, ended by a null pointer.\<close>

fun strings_at :: "mem \<Rightarrow> byte list list \<Rightarrow> addr \<Rightarrow> bool" where
  "strings_at m [] a \<longleftrightarrow> rd_word 8 m a = Some 0"
| "strings_at m (s # ss) a \<longleftrightarrow>
     (\<exists>p. rd_word 8 m a = Some p \<and> rd_bytes m p (length s + 1) = Some (s @ [0])) \<and> strings_at m ss (a + 8)"

lemma stringtab_nbytes_simps [simp]:
  "stringtab_nbytes [] = 8" "stringtab_nbytes (s # ss) = 8 + stringtab_nbytes ss + (length s + 1)"
  by (simp_all add: stringtab_nbytes_def)

lemma copy_strings_table:
  assumes "copy_strings ss a (a + of_nat (stringtab_nbytes ss)) m = Some m'" and "stringtab_nbytes ss \<le> 2 ^ 64"
  shows "strings_at m' ss a \<and> (\<forall>x. x \<notin> region a (stringtab_nbytes ss) \<longrightarrow> m' x = m x)"
  using assms
proof (induction ss arbitrary: a m)
  case Nil
  then show ?case by (auto simp: rd_word_same_8 wr_word_elsewhere)
next
  case (Cons s ss)
  let ?n = "stringtab_nbytes ss" and ?l = "length s + 1"
  let ?p = "a + of_nat (8 + ?n)"
  obtain m1 m2 where w: "wr_bytes m ?p (s @ [0]) = Some m1" "wr_word 8 m1 a ?p = Some m2"
    and c: "copy_strings ss (a + 8) ((a + 8) + of_nat ?n) m2 = Some m'"
    using Cons.prems(1) by (auto simp: bind_Some_iff Let_def algebra_simps)
  have ih: "strings_at m' ss (a + 8)" "\<And>x. x \<notin> region (a + 8) ?n \<Longrightarrow> m' x = m2 x"
    using Cons.IH[OF c] Cons.prems(2) by auto
  have d: "region a 8 \<inter> region (a + 8) ?n = {}" "region (a + 8) ?n \<inter> region ?p ?l = {}" "region a 8 \<inter> region ?p ?l = {}"
    using region_offset[of 0 8 8 ?n a] region_offset[of 8 ?n "8 + ?n" ?l a] region_offset[of 0 8 "8 + ?n" ?l a] Cons.prems(2)
    by simp_all
  have r: "region a (8 + ?n + ?l) = region a 8 \<union> region (a + 8) ?n \<union> region ?p ?l"
    using region_split[of a 8 ?n] region_split[of a "8 + ?n" ?l] by simp
  have "rd_word 8 m' a = Some ?p"
    using rd_word_cong[of a 8 m' m2] ih(2) d(1) rd_word_same_8[OF w(2)] by auto
  moreover have "rd_bytes m' ?p ?l = rd_bytes m2 ?p ?l" using d(2) by (intro rd_bytes_cong ih(2)) auto
  moreover have "rd_bytes m2 ?p ?l = rd_bytes m1 ?p ?l"
    using d(3) by (intro rd_bytes_cong wr_word_elsewhere[OF w(2)]) auto
  moreover have "rd_bytes m1 ?p ?l = Some (s @ [0])" using rd_wr_same[OF w(1)] Cons.prems(2) by simp
  moreover have "m' x = m x" if "x \<notin> region a (8 + ?n + ?l)" for x
    using that ih(2)[of x] wr_word_elsewhere[OF w(2), of x] wr_bytes_other[OF w(1), of x] unfolding r by simp
  ultimately show ?case using ih(1) by auto
qed

text \<open>The program gets its arguments: when \<open>copy_stringtab\<close> has memory, it returns the number of strings and the address of
  a null-terminated table of pointers to copies of them, with their terminating zero bytes, and changes
  nothing outside the block that \<open>ci_mem_malloc\<close> gave it.\<close>

theorem copy_stringtab_copies:
  assumes "copy_stringtab lc ma itab m = Some (Inr (n, otab, m'))" and "stringtab_nbytes itab < 2 ^ 64"
  shows "n = length itab \<and> strings_at m' itab otab
    \<and> (\<exists>m1. ci_mem_malloc lc (ma_mhead ma) (of_nat (stringtab_nbytes itab)) m = Some (otab, m1)
        \<and> (\<forall>x. x \<notin> region otab (stringtab_nbytes itab) \<longrightarrow> m' x = m1 x))"
  using assms copy_strings_table[of itab otab _ m'] by (auto simp: copy_stringtab_def Let_def bind_Some_iff split: if_split_asm)

section \<open>Resetting a machine\<close>

lemma close_fds_clears:
  assumes "\<forall>fd\<in>set fds. fd < length tab" and "close_fds close_fd fds tab w = (tab', w')"
  shows "length tab' = length tab \<and> (\<forall>i < length tab. tab' ! i = (if i \<in> set fds then 0 else tab ! i))"
  using assms
proof (induction fds arbitrary: tab w)
  case (Cons fd fds)
  show ?case
  proof (cases "tab ! fd = 0")
    case True
    with Cons show ?thesis by auto
  next
    case False
    with Cons.IH[of "tab[fd := 0]" "close_fd fd w"] Cons.prems show ?thesis by (auto simp: nth_list_update)
  qed
qed simp

lemma close_fds_calls:
  assumes "distinct fds" and "\<forall>fd\<in>set fds. fd < length tab" and "close_fds close_fd fds tab w = (tab', w')"
  shows "w' = fold close_fd (filter (\<lambda>fd. tab ! fd \<noteq> 0) fds) w"
  using assms
proof (induction fds arbitrary: tab w)
  case (Cons fd fds)
  have "filter (\<lambda>i. tab[fd := 0] ! i \<noteq> 0) fds = filter (\<lambda>i. tab ! i \<noteq> 0) fds"
  proof (rule filter_cong)
    fix i assume "i \<in> set fds"
    then have "i \<noteq> fd" using Cons.prems(1) by auto
    then show "(tab[fd := 0] ! i \<noteq> 0) = (tab ! i \<noteq> 0)" by simp
  qed simp
  with Cons.IH[of "tab[fd := 0]" "close_fd fd w"] Cons.IH[of tab w] Cons.prems show ?case by (auto split: if_split_asm)
qed simp

text \<open>C39.  Resetting a machine releases everything the interpreted program left behind: \<open>close\<close> is called once for every open
  descriptor but the three standard ones, in ascending order, and they are taken from the table; every block of the
  arena, in the order of the list, passes the checks, is taken out of the list and marked, and is passed to \<open>free\<close>, so that the
  list is empty; and the reason why the machine had stopped is kept.\<close>

theorem reset_machine_releases_everything:
  assumes "arena (n_mem nv) (ma_mhead ma) bs" and "\<forall>b\<in>set bs. frees lc b" and "fdtab_ok ma"
  shows "\<exists>ma' nv'. ci_reset_machine lc close_fd ma nv = Some (ma', nv') \<and> arena (n_mem nv') (ma_mhead ma') []
    \<and> give_back_all lc bs (n_mem nv) = Some (n_mem nv')
    \<and> n_world nv' = fold close_fd (filter (\<lambda>fd. ma_fdtab ma ! fd \<noteq> 0) [3 ..< ma_fdtab_size ma]) (n_world nv)
    \<and> ma_stopres ma' = ma_stopres ma \<and> fdtab_ok ma'
    \<and> (\<forall>fd. ci_fd_is_registered fd ma' \<longleftrightarrow> fd < 3 \<and> ci_fd_is_registered fd ma)"
proof -
  obtain tab w where t: "close_fds close_fd [3 ..< ma_fdtab_size ma] (ma_fdtab ma) (n_world nv) = (tab, w)" by fastforce
  obtain m' where m': "reset_mem lc (ma_mhead ma) (n_mem nv, ma_stopres ma) = Some (m', ma_stopres ma)" "arena m' (ma_mhead ma) []"
      "give_back_all lc bs (n_mem nv) = Some m'"
    using reset_frees_every_block[OF assms(1,2)] by blast
  have c: "length tab = ma_fdtab_size ma" "\<And>i. i < ma_fdtab_size ma \<Longrightarrow> tab ! i = (if i < 3 then ma_fdtab ma ! i else 0)"
    using close_fds_clears[OF _ t] assms(3) by (simp_all add: fdtab_ok_def)
  let ?ma = "ma\<lparr>ma_fdtab := tab, ma_stopres := ma_stopres ma\<rparr>"
  have "ci_fd_is_registered fd ?ma \<longleftrightarrow> fd < 3 \<and> ci_fd_is_registered fd ma" for fd
    using c(2)[of "nat fd"] by (cases "fd < 3") (auto simp: ci_fd_is_registered_def split: if_split_asm)
  moreover have "w = fold close_fd (filter (\<lambda>fd. ma_fdtab ma ! fd \<noteq> 0) [3 ..< ma_fdtab_size ma]) (n_world nv)"
    using close_fds_calls[OF _ _ t] assms(3) by (simp add: fdtab_ok_def)
  moreover have "ci_reset_machine lc close_fd ma nv = Some (?ma, nv\<lparr>n_mem := m', n_world := w\<rparr>)"
    using t m'(1) by (simp add: ci_reset_machine_def)
  ultimately show ?thesis using m'(2,3) c(1) unfolding fdtab_ok_def by fastforce
qed

section \<open>Callbacks\<close>

lemma run_then_stop: "run e n s0 = Some (Next s) \<Longrightarrow> step e s = r \<Longrightarrow> \<not> is_next r \<Longrightarrow> run e (n + 1) s0 = r"
  by (cases r rule: is_next.cases) (simp_all add: run_add del: add_Suc_right)

text \<open>C40.  A call back into interpreted code never succeeds: when the function has returned to the code that
  \<open>call_machine_func\<close> wrote and the machine gets to the \<open>OC_TRAP\<close> there, the position that
  \<open>ci_execute_machine\<close> leaves in the machine is not that of the \<open>OC_TRAP\<close>, and the program panics.\<close>

theorem callback_panics:
  assumes "wr_bytes (n_mem nv) text (callback_text nargs) = Some m1" and "wr_word 8 m1 (sp - 8) func = Some m2"
    and "n_cfs nv (ma_codefile ma) = Some cf"
    and "run (machine_env (ma\<lparr>ma_sp := sp - 8, ma_pc := text\<rparr>) cf (callback_args u d0 d1)) n
           (machine_start (ma\<lparr>ma_sp := sp - 8, ma_pc := text\<rparr>) (callback_args u d0 d1) (nv\<lparr>n_mem := m2\<rparr>)) = Some (Next s)"
    and "x_pc s = text + 6" and "code_at (x_mem s) (text + 6) (opcode_bytes OC_TRAP)"
  shows "call_machine_func (n + 1) u (d0, d1) text ma sp func nargs nv = Some (Callback_panic ''bad callback'')"
proof -
  have "step e s = exec e OC_TRAP (count_opcode OC_TRAP (skip_text 2 s))" for e
    using assms(5,6) by (intro step_at) simp
  from run_then_stop[OF assms(4) this] assms(1-3,5) show ?thesis
    by (simp add: call_machine_func_def ci_execute_machine_def Let_def machine_quit_def del: run.simps add_Suc_right)
qed

section \<open>Instances\<close>

text \<open>A program that consists of a trap and one function that does nothing.\<close>

definition demo_program :: "byte list" where
  "demo_program = opcode_bytes OC_TRAP @ opcode_bytes (OC_LINK SZ_B) @ [0, 0, 0, 0, 0] @ opcode_bytes OC_RET"

definition demo_native :: "unit native" where
  "demo_native = \<lparr>n_mem = demo_mem demo_program, n_cfs = (\<lambda>a. if a = 0x2700 then
     Some \<lparr>cf_loaded = True, cf_text_and_data = 0x2800, cf_text_size = 0x20, cf_data_size = 0,
        cf_bss_size = 0, cf_data_copy = 0, cf_funcaddrs = (\<lambda>i. Some 2), cf_funcrefs = (\<lambda>i. None)\<rparr> else None), n_world = ()\<rparr>"

abbreviation demo_caller :: "unit machine_t" where
  "demo_caller \<equiv> demo_machine\<lparr>ma_cftab := [0x2700]\<rparr>"

definition demo_returned :: "unit mstate option" where
  "demo_returned = do { 
     m1 \<leftarrow> wr_bytes (n_mem demo_native) 0x2900 (callback_text 0);
     m2 \<leftarrow> wr_word 8 m1 (0x1400 - 8) 1; 
     cf \<leftarrow> n_cfs demo_native (ma_codefile demo_caller);
     r \<leftarrow> run (machine_env (demo_caller\<lparr>ma_sp := 0x1400 - 8, ma_pc := 0x2900\<rparr>) cf (callback_args demo_fpu 0 0)) 4
       (machine_start (demo_caller\<lparr>ma_sp := 0x1400 - 8, ma_pc := 0x2900\<rparr>) (callback_args demo_fpu 0 0) (demo_native\<lparr>n_mem := m2\<rparr>));
     (case r of Next s \<Rightarrow> Some s | _ \<Rightarrow> None) }"

lemma demo_returned: "case demo_returned of Some s \<Rightarrow> x_pc s = 0x2906 \<and> code_at (x_mem s) 0x2906 (opcode_bytes OC_TRAP) | None \<Rightarrow> False"
  by code_simp

theorem callback_panics_witness:
  "call_machine_func 5 demo_fpu (0, 0) 0x2900 demo_caller 0x1400 1 0 demo_native = Some (Callback_panic ''bad callback'')"
proof -
  obtain s where s: "demo_returned = Some s" "x_pc s = 0x2900 + 6" "code_at (x_mem s) (0x2900 + 6) (opcode_bytes OC_TRAP)"
    using demo_returned by (auto split: option.split_asm)
  obtain m1 m2 cf r where m: "wr_bytes (n_mem demo_native) 0x2900 (callback_text 0) = Some m1" "wr_word 8 m1 (0x1400 - 8) 1 = Some m2"
      "n_cfs demo_native (ma_codefile demo_caller) = Some cf"
      "run (machine_env (demo_caller\<lparr>ma_sp := 0x1400 - 8, ma_pc := 0x2900\<rparr>) cf (callback_args demo_fpu 0 0)) 4
       (machine_start (demo_caller\<lparr>ma_sp := 0x1400 - 8, ma_pc := 0x2900\<rparr>) (callback_args demo_fpu 0 0) (demo_native\<lparr>n_mem := m2\<rparr>))
        = Some r" "(case r of Next s \<Rightarrow> Some s | _ \<Rightarrow> None) = Some s"
    using s(1) unfolding demo_returned_def bind_Some_iff by blast
  from m(5) have "r = Next s" by (cases r) simp_all
  with callback_panics[OF m(1-3) _ s(2,3), of demo_fpu 0 0 4] m(4) show ?thesis by simp
qed

theorem trap_instruction_roundtrip_witness:
  "\<exists>opc nv. ci_install_trap_instruction demo_caller 2 demo_native = Some (opc, nv)
     \<and> (\<exists>s'. step demo_env (demo_call\<lparr>x_mem := n_mem nv, x_pc := 0x2802\<rparr>) = Some (Quit CI_ER_TRAP s'))
     \<and> ci_uninstall_trap_instruction demo_caller 2 opc nv = Some (Inr demo_native)"
proof -
  have "case ci_install_trap_instruction demo_caller 2 demo_native of Some (opc, nv) \<Rightarrow> opc < of_nat NUM_OPCODES | None \<Rightarrow> False"
    by code_simp
  then obtain opc nv where i: "ci_install_trap_instruction demo_caller 2 demo_native = Some (opc, nv)" "opc < of_nat NUM_OPCODES"
    by (auto split: option.split_asm)
  from trap_instruction_roundtrip[OF i, of _ "demo_call\<lparr>x_mem := n_mem nv, x_pc := 0x2802\<rparr>" demo_env] i(1) show ?thesis
    by (simp add: demo_native_def demo_machine_def)
qed

theorem reset_machine_releases_everything_witness:
  "\<exists>ma' nv'. ci_reset_machine demo_libc (\<lambda>_ w. w) demo_machine (demo_native\<lparr>n_mem := demo_arena\<rparr>) = Some (ma', nv')
     \<and> arena (n_mem nv') (ma_mhead ma') [] \<and> give_back demo_libc (0x1800, 8) demo_arena = Some (n_mem nv')"
proof -
  let ?nv = "demo_native\<lparr>n_mem := demo_arena\<rparr>"
  have a: "arena (n_mem ?nv) (ma_mhead demo_machine) [(0x1800, 8)]" using demo_arena_ok by (simp add: demo_machine_def)
  have "\<forall>b\<in>set [(0x1800, 8)]. frees demo_libc b" using demo_frees by simp
  from reset_machine_releases_everything[OF a this, of "\<lambda>_ w. w"] obtain ma' nv' where
    "ci_reset_machine demo_libc (\<lambda>_ w. w) demo_machine ?nv = Some (ma', nv')" "arena (n_mem nv') (ma_mhead ma') []"
    "give_back_all demo_libc [(0x1800, 8)] (n_mem ?nv) = Some (n_mem nv')"
    by (auto simp: demo_machine_def fdtab_ok_def)
  then show ?thesis by (auto simp: bind_Some_iff)
qed

theorem copy_stringtab_copies_witness:
  "\<exists>m'. copy_stringtab demo_libc demo_machine [[97]] (\<lambda>_. Some 0) = Some (Inr (1, 0x1920, m')) \<and> strings_at m' [[97]] 0x1920"
proof -
  have "case copy_stringtab demo_libc demo_machine [[97]] (\<lambda>_. Some 0) of Some (Inr (n, otab, m')) \<Rightarrow> otab = 0x1920 | _ \<Rightarrow> False"
    by code_simp
  then obtain n m' where c: "copy_stringtab demo_libc demo_machine [[97]] (\<lambda>_. Some 0) = Some (Inr (n, 0x1920, m'))"
    by (auto split: option.split_asm sum.split_asm)
  from copy_stringtab_copies[OF this] c show ?thesis by simp
qed

definition demo_entered :: "(unit machine_t \<times> unit mstate) option" where
  "demo_entered = (case ci_push_trap_frame demo_caller demo_native of
      Some (Inr (ma, nv)) \<Rightarrow> Some (ma, (demo_state [])\<lparr>x_mem := n_mem nv, x_sp := ma_initial_sp ma, x_pc := 0x2804\<rparr>)
    | _ \<Rightarrow> None)"

theorem trap_frame_stops_machine_witness:
  "\<exists>ma s s1 s3 s4. demo_entered = Some (ma, s) \<and> exec_link demo_env SZ_B s = Some (Next s1) \<and> exec_ret s1 = Some (Next s3)
     \<and> step demo_env s3 = Some (Quit CI_ER_TRAP s4) \<and> x_sp s4 = 0x1400"
proof -
  have "case demo_entered of Some (ma, s) \<Rightarrow> is_next (exec_link demo_env SZ_B s)
      \<and> code_at (x_mem (next_of (exec_link demo_env SZ_B s))) 0x2800 (opcode_bytes OC_TRAP) | None \<Rightarrow> False"
    by code_simp
  then obtain ma s where e: "demo_entered = Some (ma, s)" and n: "is_next (exec_link demo_env SZ_B s)"
      "code_at (x_mem (next_of (exec_link demo_env SZ_B s))) 0x2800 (opcode_bytes OC_TRAP)"
    by (auto split: option.split_asm)
  obtain nv where p: "ci_push_trap_frame demo_caller demo_native = Some (Inr (ma, nv))"
    and s: "x_mem s = n_mem nv" "x_sp s = ma_initial_sp ma"
    using e by (auto simp: demo_entered_def split: option.split_asm sum.split_asm)
  from trap_frame_stops_machine[OF p _ s next_of_eq[OF n(1)] HOL.refl HOL.refl] n(2) e next_of_eq[OF n(1)]
  show ?thesis by (fastforce simp: demo_native_def demo_machine_def)
qed

end
