(* ===== verification/Ups_Compile_Expr.thy ===== *)
theory Ups_Compile_Expr
  imports Ups_Text
begin

text \<open>
  The expression compiler (\<open>src/ups/ci_compile_expr.c\<close>), with the functions of \<open>src/ups/ci_compile.c\<close>
  that it uses for relocations and function indices.  An expression is a tree whose nodes carry the
  type and the constant flag the parser gave them.  Every function takes the code buffer and gives it
  back extended; \<open>None\<close> is a panic (the compilation is abandoned) or a step without defined meaning.
  Diagnostics, which do not change the code, are left out.
\<close>

section \<open>Expressions\<close>

datatype addrtype_t = AT_CI_ADDR | AT_PROC_ADDR
datatype expr_context_t = EC_VALUE | EC_ADDRESS | EC_EFFECT

text \<open>A floating constant carries its value as a \<open>double\<close> and rounded to \<open>float\<close>.  The constants
  \<open>ET_INT_CONST\<close>, \<open>ET_CHAR_CONST\<close>, \<open>ET_ENUM_CONST\<close> and \<open>ET_SIZEOF\<close> are compiled through the constant
  evaluator only, \<open>ET_UNDEF_VAR\<close> never.\<close>

datatype (plugins only: code size) expr_t = Expr (ex_type: "type_t option") (ex_is_constant: bool) (ex_kind: ekind)
and ekind =
    ET_INT_CONST word64 | ET_CHAR_CONST word64 | ET_ENUM_CONST word64 | ET_SIZEOF word64 | ET_UNDEF_VAR
  | ET_FLOATING_CONST word64 "32 word"
  | ET_STRING_CONST "byte list"
  | ET_VAR var_t
  | ET_FUNCNAME string
  | ET_FUNC_CALL expr_t "expr_t list"
  | ET_DOT expr_t var_t
  | ET_MULTI_ARROW expr_t expr_t var_t
  | ET_BINARY optype_t expr_t expr_t
  | ET_UNARY optype_t expr_t
  | ET_PROMOTION optype_t expr_t
  | ET_CAST optype_t expr_t
  | ET_ASSIGNMENT_CONVERSION optype_t expr_t
  | ET_SCALE optype_t expr_t word64
  | ET_CONDITIONAL expr_t expr_t expr_t

text \<open>What the compiler takes from elsewhere: the type \<open>bool\<close> stands for (\<open>ci_set_sizeof_bool\<close>), and the
  bytes of the \<open>constval_t\<close> that \<open>ci_evaluate_constant_expression\<close> fills in.\<close>

record cparams =
  cp_bool_type :: typecode_t
  cp_evalconst :: "expr_t \<Rightarrow> word64 option"

definition ty :: "expr_t \<Rightarrow> typecode_t option" where
  "ty e = map_option ty_code (ex_type e)"

section \<open>Relocations and function indices\<close>

definition lookup_var_def :: "var_t list \<Rightarrow> string \<Rightarrow> var_t option" where
  "lookup_var_def vlist name = find (\<lambda>v. va_class v = CL_EXT \<and> va_name v = name) vlist"

text \<open>\<open>add_to_vlist\<close>; a variable already on the list (the flag \<open>VA_ON_VLIST\<close>) is a panic.\<close>

definition add_to_vlist :: "text_t \<Rightarrow> var_t \<Rightarrow> text_t option" where
  "add_to_vlist tx v =
     (if va_class v = CL_DECL \<or> ty_code (va_type v) = DT_FUNC_RETURNING then Some tx
      else if va_id v \<in> va_id ` set (tx_vlist tx) then None
      else Some (tx\<lparr>tx_vlist := v # tx_vlist tx\<rparr>))"

text \<open>A declared variable that the file does not define becomes an external reference.  The code changes
  the variable's class in place, so it is added to the list on its first use only.\<close>

definition ci_add_var_reloc :: "text_t \<Rightarrow> loctype_t \<Rightarrow> nat \<Rightarrow> var_t \<Rightarrow> word64 \<Rightarrow> text_t option" where
  "ci_add_var_reloc tx lt loc v offset =
     do { (tx, v) \<leftarrow>
            (if va_class v = CL_DECL then
               (case lookup_var_def (tx_varlist tx) (va_name v) of
                  Some d \<Rightarrow> Some (tx, d)
                | None \<Rightarrow>
                    let v = v\<lparr>va_class := CL_EXTREF\<rparr> in
                    if va_id v \<in> va_id ` set (tx_vlist tx) then Some (tx, v)
                    else do { tx \<leftarrow> add_to_vlist tx v; Some (tx, v) })
             else Some (tx, v));
          Some (tx\<lparr>tx_var_relocs := (lt, loc, v, offset) # tx_var_relocs tx\<rparr>) }"

definition ci_add_func_reloc :: "text_t \<Rightarrow> loctype_t \<Rightarrow> nat \<Rightarrow> text_t" where
  "ci_add_func_reloc tx lt loc = tx\<lparr>tx_func_relocs := (lt, loc) # tx_func_relocs tx\<rparr>"

definition ci_add_string_reloc :: "text_t \<Rightarrow> loctype_t \<Rightarrow> nat \<Rightarrow> byte list \<Rightarrow> word64 \<Rightarrow> text_t" where
  "ci_add_string_reloc tx lt loc sc offset =
     tx\<lparr>tx_string_relocs := (lt, loc, sc, offset) # tx_string_relocs tx\<rparr>"

text \<open>The functions of the file are numbered from 1, undefined ones downwards from -1.\<close>

fun func_position :: "string list \<Rightarrow> string \<Rightarrow> int \<Rightarrow> int option" where
  "func_position [] name i = None"
| "func_position (f # fs) name i = (if f = name then Some i else func_position fs name (i + 1))"

definition ci_funcname_to_index :: "text_t \<Rightarrow> string \<Rightarrow> text_t \<times> int" where
  "ci_funcname_to_index tx name =
     (case func_position (tx_funclist tx) name 1 of
        Some i \<Rightarrow> (tx, i)
      | None \<Rightarrow>
          (case map_of (tx_undef_funcs tx) name of
             Some i \<Rightarrow> (tx, i)
           | None \<Rightarrow>
               (let i = - int (tx_num_undef_funcs tx) in
                (tx\<lparr>tx_num_undef_funcs := tx_num_undef_funcs tx + 1,
                    tx_undef_funcs := (name, i) # tx_undef_funcs tx\<rparr>, i))))"

definition short_form :: "int \<Rightarrow> word64 option" where
  "short_form func_index =
     (let res = take_bit 16 (of_int func_index :: word64) in
      if sint (signed_take_bit 15 res) \<noteq> func_index then None else Some res)"

section \<open>Opcode selection\<close>

text \<open>The second \<open>switch\<close> of \<open>operator_to_opcode\<close>: the word form of the operator.\<close>

definition operator_base :: "bool \<Rightarrow> bool \<Rightarrow> optype_t \<Rightarrow> opcode option" where
  "operator_base check_div is_signed op =
     (if op = OP_BITWISE_AND \<or> op = OP_BITWISE_AND_ASSIGN then Some (OC_INT IN_BITWISE_AND I_WORD)
      else if op = OP_BITWISE_XOR \<or> op = OP_BITWISE_XOR_ASSIGN then Some (OC_INT IN_BITWISE_XOR I_WORD)
      else if op = OP_BITWISE_OR \<or> op = OP_BITWISE_OR_ASSIGN then Some (OC_INT IN_BITWISE_OR I_WORD)
      else if op = OP_MOD \<or> op = OP_MOD_ASSIGN then Some (OC_INT IN_MOD I_WORD)
      else if op = OP_PLUS \<or> op = OP_PLUS_ASSIGN then Some (OC_ARITH AR_ADD N_WORD)
      else if op = OP_MUL \<or> op = OP_MUL_ASSIGN then
        Some (if is_signed then OC_ARITH AR_MUL_SIGNED N_WORD else OC_INT IN_MUL_UNSIGNED I_WORD)
      else if op = OP_DIV \<or> op = OP_DIV_ASSIGN then
        Some (if check_div
              then (if is_signed then OC_ARITH AR_CHKDIV_SIGNED N_WORD else OC_INT IN_CHKDIV_UNSIGNED I_WORD)
              else (if is_signed then OC_ARITH AR_DIV_SIGNED N_WORD else OC_INT IN_DIV_UNSIGNED I_WORD))
      else if op = OP_MINUS \<or> op = OP_MINUS_ASSIGN then Some (OC_ARITH AR_SUB N_WORD)
      else if op = OP_LSHIFT \<or> op = OP_LSHIFT_ASSIGN then Some (OC_INT IN_LSHIFT I_WORD)
      else if op = OP_RSHIFT \<or> op = OP_RSHIFT_ASSIGN then Some (OC_INT IN_RSHIFT I_WORD)
      else if op = OP_IS_EQUAL then Some (OC_ARITH AR_IS_EQUAL N_WORD)
      else if op = OP_NOT_EQUAL then Some (OC_ARITH AR_NOT_EQUAL N_WORD)
      else if op = OP_LESS then
        Some (if is_signed then OC_ARITH AR_LESS_SIGNED N_WORD else OC_INT IN_LESS_UNSIGNED I_WORD)
      else if op = OP_GREATER then
        Some (if is_signed then OC_ARITH AR_GREATER_SIGNED N_WORD else OC_INT IN_GREATER_UNSIGNED I_WORD)
      else if op = OP_LESS_OR_EQUAL then
        Some (if is_signed then OC_ARITH AR_LESS_OR_EQUAL_SIGNED N_WORD
              else OC_INT IN_LESS_OR_EQUAL_UNSIGNED I_WORD)
      else if op = OP_GREATER_OR_EQUAL then
        Some (if is_signed then OC_ARITH AR_GREATER_OR_EQUAL_SIGNED N_WORD
              else OC_INT IN_GREATER_OR_EQUAL_UNSIGNED I_WORD)
      else None)"

definition generic_opcode :: "opcode \<Rightarrow> bool" where
  "generic_opcode opc = (case opc of OC_ARITH _ N_WORD \<Rightarrow> True | _ \<Rightarrow> False)"

definition operator_to_opcode :: "text_t \<Rightarrow> optype_t \<Rightarrow> typecode_t \<Rightarrow> typecode_t \<Rightarrow> opcode option" where
  "operator_to_opcode tx op ltype rtype =
     do { is_signed \<leftarrow> ci_is_signed_type ltype;
          _ \<leftarrow> (if op \<in> {OP_MUL, OP_DIV, OP_LESS, OP_GREATER, OP_LESS_OR_EQUAL, OP_GREATER_OR_EQUAL}
               then do { r \<leftarrow> ci_is_signed_type rtype; if is_signed \<noteq> r then None else Some () }
               else Some ());
          opc \<leftarrow> operator_base (tx_flags tx AND CI_CP_CHECK_DIV \<noteq> 0) is_signed op;
          if ltype = TY_LONGLONG \<or> ltype = TY_ULONGLONG then
            (if rtype \<noteq> ltype then None else opcode_plus opc (- 1))
          else if ltype = TY_FLOAT \<or> ltype = TY_DOUBLE then
            (if rtype \<noteq> ltype \<or> \<not> generic_opcode opc then None
             else opcode_plus opc (if ltype = TY_FLOAT then 1 else 2))
          else Some opc }"

definition opcode_offset :: "cparams \<Rightarrow> typecode_t \<Rightarrow> int \<Rightarrow> int option" where
  "opcode_offset cp tc typesize =
     (let c = ci_effective_typecode (cp_bool_type cp) tc in
      if c = TY_LONGLONG \<or> c = TY_ULONGLONG then Some LONGLONG_FORM_OFFSET
      else if c \<in> {TY_LONG, TY_ULONG, TY_INT, TY_UINT, TY_ENUM, TY_U_ENUM, TY_BOOLEAN, DT_PTR_TO} then
        (if typesize = 4 then Some LONG_FORM_OFFSET
         else if typesize = 8 then Some LONGLONG_FORM_OFFSET else None)
      else if c = TY_FLOAT then Some FLOAT_FORM_OFFSET
      else if c = TY_DOUBLE then Some DOUBLE_FORM_OFFSET
      else if c = TY_SHORT \<or> c = TY_USHORT then Some SHORT_FORM_OFFSET
      else if c = TY_CHAR \<or> c = TY_UCHAR then Some BYTE_FORM_OFFSET
      else None)"

definition unknown_addrtype :: "text_t \<Rightarrow> addrtype_t" where
  "unknown_addrtype tx = (if tx_have_proc_vars tx then AT_PROC_ADDR else AT_CI_ADDR)"

definition code_deref :: "cparams \<Rightarrow> text_t \<Rightarrow> typecode_t \<Rightarrow> int \<Rightarrow> addrtype_t \<Rightarrow> text_t option" where
  "code_deref cp tx tc typesize addrtype =
     do { is_signed \<leftarrow> ci_is_signed_type tc;
          let opc = (if is_signed
                     then (if addrtype = AT_PROC_ADDR then OC_PROC_DEREF LT_SB else OC_DEREF LT_SB)
                     else (if addrtype = AT_PROC_ADDR then OC_PROC_DEREF LT_UB else OC_DEREF LT_UB));
          k \<leftarrow> opcode_offset cp tc typesize;
          opc \<leftarrow> opcode_plus opc k;
          ci_code_opcode tx opc }"

definition code_bitfield_op :: "text_t \<Rightarrow> type_t \<times> word64 \<times> word64 \<Rightarrow> opcode \<Rightarrow> text_t option" where
  "code_bitfield_op tx bf op =
     (case bf of (bf_type, bf_offset, bf_width) \<Rightarrow>
      do { op \<leftarrow> (if ty_code bf_type = TY_UINT then opcode_plus op 1 else Some op);
           tx \<leftarrow> ci_code_opcode tx op;
           tx \<leftarrow> ci_code_byte tx bf_offset;
           ci_code_byte tx bf_width })"

definition code_get_whole_bitfield :: "text_t \<Rightarrow> addrtype_t \<Rightarrow> text_t option" where
  "code_get_whole_bitfield tx addrtype =
     ci_code_opcode tx (if addrtype = AT_PROC_ADDR then OC_PROC_DEREF LT_UL else OC_DEREF LT_UL)"

definition ci_code_assign :: "cparams \<Rightarrow> text_t \<Rightarrow> type_t \<Rightarrow> bool \<Rightarrow> addrtype_t \<Rightarrow> text_t option" where
  "ci_code_assign cp tx t want_value addrtype =
     do { (tx, tc) \<leftarrow>
            (if ty_code t = TY_BITFIELD then do {
               bf \<leftarrow> ty_bitfield t;
               tx \<leftarrow> code_bitfield_op tx bf OC_INSERT_SIGNED_BITFIELD;
               Some (tx, ty_code (fst bf)) }
             else Some (tx, ty_code t));
          let opc = (if addrtype = AT_PROC_ADDR
                     then (if want_value then OC_PROC_ASSIGN_AND_PUSH A_BYTE else OC_PROC_ASSIGN A_BYTE)
                     else (if want_value then OC_ASSIGN_AND_PUSH A_BYTE else OC_ASSIGN A_BYTE));
          k \<leftarrow> opcode_offset cp tc (ty_size t);
          opc \<leftarrow> opcode_plus opc k;
          tx \<leftarrow> ci_code_opcode tx opc;
          if want_value \<and> ty_code t = TY_BITFIELD then do {
            bf \<leftarrow> ty_bitfield t; code_bitfield_op tx bf OC_EXTRACT_SIGNED_BITFIELD }
          else Some tx }"

section \<open>Variables\<close>

text \<open>The opcode that pushes the address of a variable; \<open>None\<close> is the panic for a location the
  interpreter does not handle.\<close>

definition address_opcode :: "var_t \<Rightarrow> opcode option" where
  "address_opcode v =
     (if IS_LOCAL_CLASS (va_class v) then
        (case va_location v of
           Some OP_CFA_RELATIVE \<Rightarrow> Some (OC_PROC_PUSH_CFA_ADDR SZ_B)
         | Some OP_FP_RELATIVE \<Rightarrow> Some (OC_PROC_PUSH_FP_ADDR SZ_B)
         | Some OP_SP_RELATIVE \<Rightarrow> Some (OC_PROC_PUSH_SP_ADDR SZ_B)
         | Some OP_OTHER_LOCATION \<Rightarrow> None
         | None \<Rightarrow> Some (if va_class v = CL_ARG then OC_PROC_PUSH_AP_ADDR SZ_B else OC_PROC_PUSH_FP_ADDR SZ_B))
      else Some (OC_CONSTPUSH SZ_B))"

text \<open>The opcode, whether a load must follow, and the address type of the result.\<close>

definition var_opcode ::
  "cparams \<Rightarrow> text_t \<Rightarrow> var_t \<Rightarrow> expr_context_t \<Rightarrow> (opcode \<times> bool \<times> addrtype_t) option" where
  "var_opcode cp tx v context =
     (if context = EC_ADDRESS \<or> is_aggregate (va_type v) then do {
        opc \<leftarrow> (if IS_LOCAL_CLASS (va_class v) \<and> va_is_ci_var v then Some (OC_PUSH_STACKADDR SZ_B)
                else address_opcode v);
        Some (opc, False, if va_is_ci_var v then AT_CI_ADDR else unknown_addrtype tx) }
      else do {
        is_signed \<leftarrow> ci_is_signed_type (ty_code (va_type v));
        if va_is_ci_var v then do {
          let t = (if is_signed then LT_SB else LT_UB);
          let opc = (if IS_LOCAL_CLASS (va_class v) then OC_PUSH_AT_STACKADDR t SZ_B
                     else OC_PUSH_AT_ADDR t SZ_B);
          k \<leftarrow> opcode_offset cp (ty_code (va_type v)) (ty_size (va_type v));
          opc \<leftarrow> opcode_plus opc (4 * k);
          Some (opc, False, unknown_addrtype tx) }
        else do { opc \<leftarrow> address_opcode v; Some (opc, True, unknown_addrtype tx) } })"

definition ci_compile_var_reference ::
  "cparams \<Rightarrow> text_t \<Rightarrow> var_t \<Rightarrow> expr_context_t \<Rightarrow> (text_t \<times> addrtype_t) option" where
  "ci_compile_var_reference cp tx v context =
     (if context = EC_EFFECT then Some (tx, AT_CI_ADDR)
      else do {
        (opc, need_deref, addrtype) \<leftarrow> var_opcode cp tx v context;
        a \<leftarrow> (if va_class v = CL_REG \<and> \<not> tx_want_reg_relocs tx
              then do { f \<leftarrow> tx_regno_to_addr_proc tx; Some (f (signed_take_bit 31 (va_addr v))) }
              else Some (va_addr v));
        tx \<leftarrow>
          (if va_class v = CL_REG \<and> tx_want_reg_relocs tx then do {
             opc \<leftarrow> opcode_plus opc LONG_FORM_OFFSET;
             tx \<leftarrow> ci_code_opcode tx opc;
             ci_code_long (tx\<lparr>tx_reg_relocs := (tx_pc tx, signed_take_bit 31 (va_addr v)) # tx_reg_relocs tx\<rparr>) 0 }
           else if va_is_ci_var v \<and> \<not> IS_LOCAL_CLASS (va_class v) then do {
             opc \<leftarrow> opcode_plus opc LONG_FORM_OFFSET;
             tx \<leftarrow> ci_code_opcode tx opc;
             tx \<leftarrow> ci_add_var_reloc tx RT_TEXTLOC (tx_pc tx) v 0;
             ci_code_long tx 0 }
           else ci_code_generic_opcode tx opc a);
        tx \<leftarrow> (if need_deref
               then code_deref cp tx (ty_code (va_type v)) (ty_size (va_type v)) AT_PROC_ADDR
               else Some tx);
        Some (tx, addrtype) })"

section \<open>Conversions\<close>

definition cvt_from_integral :: "text_t \<Rightarrow> typecode_t \<Rightarrow> cvt \<Rightarrow> cvt \<Rightarrow> text_t option" where
  "cvt_from_integral tx tc c_signed c_unsigned =
     do { is_signed \<leftarrow> ci_is_signed_type tc;
          ci_code_opcode tx (OC_CVT (if is_signed then c_signed else c_unsigned)) }"

definition code_conversion ::
  "text_t \<Rightarrow> addrtype_t \<Rightarrow> optype_t \<Rightarrow> typecode_t \<Rightarrow> (text_t \<times> addrtype_t) option" where
  "code_conversion tx addrtype op tc =
     (let is_integral = ci_is_integral tc \<or> tc = TY_ENUM \<or> tc = DT_PTR_TO \<or> tc = DT_ARRAY_OF in
      if op = OP_CVT_TO_PTR \<and> (tc = DT_FUNC_RETURNING \<or> tc = DT_ARRAY_OF) then Some (tx, addrtype)
      else if op = OP_CVT_TO_DOUBLE then do {
        tx \<leftarrow> (if tc = TY_FLOAT then ci_code_opcode tx (OC_CVT CVT_FLOAT_TO_DOUBLE)
               else if tc = TY_LONGLONG then ci_code_opcode tx (OC_CVT CVT_SIGNED_LONG_LONG_TO_DOUBLE)
               else if tc = TY_ULONGLONG then ci_code_opcode tx (OC_CVT CVT_UNSIGNED_LONG_LONG_TO_DOUBLE)
               else if is_integral
               then cvt_from_integral tx tc CVT_SIGNED_LONG_TO_DOUBLE CVT_UNSIGNED_LONG_TO_DOUBLE
               else if tc = TY_DOUBLE then Some tx else None);
        Some (tx, addrtype) }
      else if op = OP_CVT_TO_FLOAT then do {
        tx \<leftarrow> (if tc = TY_DOUBLE then ci_code_opcode tx (OC_CVT CVT_DOUBLE_TO_FLOAT)
               else if tc = TY_LONGLONG then ci_code_opcode tx (OC_CVT CVT_SIGNED_LONG_LONG_TO_FLOAT)
               else if tc = TY_ULONGLONG then ci_code_opcode tx (OC_CVT CVT_UNSIGNED_LONG_LONG_TO_FLOAT)
               else if is_integral
               then cvt_from_integral tx tc CVT_SIGNED_LONG_TO_FLOAT CVT_UNSIGNED_LONG_TO_FLOAT
               else if tc = TY_FLOAT then Some tx else None);
        Some (tx, addrtype) }
      else if op = OP_CVT_TO_LONG_LONG \<or> op = OP_CVT_TO_ULONG_LONG then do {
        tx \<leftarrow> (if tc = TY_FLOAT then ci_code_opcode tx (OC_CVT CVT_FLOAT_TO_LONG_LONG)
               else if tc = TY_DOUBLE then ci_code_opcode tx (OC_CVT CVT_DOUBLE_TO_LONG_LONG)
               else if \<not> is_integral then None
               else if tc \<noteq> TY_LONGLONG \<and> tc \<noteq> TY_ULONGLONG
               then cvt_from_integral tx tc CVT_SIGNED_LONG_TO_LONG_LONG CVT_UNSIGNED_LONG_TO_LONG_LONG
               else Some tx);
        Some (tx, addrtype) }
      else if op \<in> {OP_CVT_TO_PTR, OP_CVT_TO_LONG, OP_CVT_TO_ULONG, OP_CVT_TO_INT, OP_CVT_TO_UINT,
                    OP_CVT_TO_SHORT, OP_CVT_TO_USHORT, OP_CVT_TO_CHAR, OP_CVT_TO_UCHAR} then do {
        let addrtype = (if op = OP_CVT_TO_PTR \<and> tc \<noteq> DT_PTR_TO then unknown_addrtype tx else addrtype);
        tx \<leftarrow> (if tc = TY_FLOAT then ci_code_opcode tx (OC_CVT CVT_FLOAT_TO_LONG)
               else if tc = TY_DOUBLE then ci_code_opcode tx (OC_CVT CVT_DOUBLE_TO_LONG)
               else if tc = TY_LONGLONG then ci_code_opcode tx (OC_CVT CVT_SIGNED_LONG_LONG_TO_LONG)
               else if tc = TY_ULONGLONG then ci_code_opcode tx (OC_CVT CVT_UNSIGNED_LONG_LONG_TO_LONG)
               else if \<not> is_integral then None else Some tx);
        Some (tx, addrtype) }
      else None)"

text \<open>The end of \<open>compile_expr_for_jump\<close>: make a condition of a floating or \<open>long long\<close> value.\<close>

definition code_condition :: "text_t \<Rightarrow> typecode_t \<Rightarrow> text_t option" where
  "code_condition tx tc =
     (if tc = TY_FLOAT then ci_code_opcode tx (OC_CVT CVT_FLOAT_TO_BOOL)
      else if tc = TY_DOUBLE then ci_code_opcode tx (OC_CVT CVT_DOUBLE_TO_BOOL)
      else if tc = TY_LONGLONG \<or> tc = TY_ULONGLONG then ci_code_opcode tx (OC_CVT CVT_LONG_LONG_TO_BOOL)
      else Some tx)"

section \<open>Contexts\<close>

definition FLOAT_NSLOTS :: nat where "FLOAT_NSLOTS = 4 div 8"
definition DOUBLE_NSLOTS :: nat where "DOUBLE_NSLOTS = 8 div 8"
definition LONGLONG_NSLOTS :: nat where "LONGLONG_NSLOTS = 8 div 8"

text \<open>The first part of \<open>ci_compile_expression\<close>: the stack depth expected afterwards, and the context,
  which changes for a function call in an address context.\<close>

definition expected_sp :: "text_t \<Rightarrow> expr_t \<Rightarrow> expr_context_t \<Rightarrow> (word64 \<times> expr_context_t) option" where
  "expected_sp tx e context =
     (case context of
        EC_ADDRESS \<Rightarrow>
          (case ex_kind e of
             ET_FUNC_CALL _ _ \<Rightarrow>
               do { tc \<leftarrow> ty e;
                    if tc \<noteq> TY_STRUCT \<and> tc \<noteq> TY_UNION then None else Some (tx_sp tx, EC_VALUE) }
           | ET_VAR _ \<Rightarrow> Some (tx_sp tx + 8, context)
           | ET_DOT _ _ \<Rightarrow> Some (tx_sp tx + 8, context)
           | ET_UNARY _ _ \<Rightarrow> Some (tx_sp tx + 8, context)
           | ET_FUNCNAME _ \<Rightarrow> Some (tx_sp tx + 8, context)
           | ET_CONDITIONAL _ _ _ \<Rightarrow> Some (tx_sp tx + 8, context)
           | ET_BINARY _ _ _ \<Rightarrow> Some (tx_sp tx + 8, context)
           | _ \<Rightarrow> None)
      | EC_VALUE \<Rightarrow>
          do { tc \<leftarrow> ty e;
               if tc = TY_FLOAT then Some (tx_sp tx + of_nat (FLOAT_NSLOTS * 8), context)
               else if tc = TY_DOUBLE then Some (tx_sp tx + of_nat (DOUBLE_NSLOTS * 8), context)
               else if tc = TY_LONGLONG \<or> tc = TY_ULONGLONG
               then Some (tx_sp tx + of_nat (LONGLONG_NSLOTS * 8), context)
               else if tc = TY_STRUCT \<or> tc = TY_UNION then None
               else Some (tx_sp tx + 8, context) }
      | EC_EFFECT \<Rightarrow> Some (tx_sp tx, context))"

text \<open>The check at its end.\<close>

definition check_expected :: "word64 \<Rightarrow> text_t \<times> addrtype_t \<Rightarrow> (text_t \<times> addrtype_t) option" where
  "check_expected sp r = (if tx_sp (fst r) \<noteq> sp then None else Some r)"

text \<open>A constant expression of integral type: its value is pushed, as an \<open>int\<close> unless the type is
  \<open>long long\<close>.\<close>

definition is_folded :: "expr_t \<Rightarrow> bool option" where
  "is_folded e =
     (if ex_is_constant e
      then do { tc \<leftarrow> ty e; Some (tc = TY_ENUM \<or> ci_is_integral tc) } else Some False)"

definition compile_constant :: "cparams \<Rightarrow> text_t \<Rightarrow> expr_t \<Rightarrow> expr_context_t \<Rightarrow> text_t option" where
  "compile_constant cp tx e context =
     (if context = EC_VALUE then do {
        val \<leftarrow> cp_evalconst cp e;
        tc \<leftarrow> ty e;
        ci_code_constpush tx (if tc = TY_LONGLONG \<or> tc = TY_ULONGLONG then val else signed_take_bit 31 val) }
      else Some tx)"

definition compile_floating_const :: "text_t \<Rightarrow> expr_t \<Rightarrow> word64 \<Rightarrow> 32 word \<Rightarrow> expr_context_t \<Rightarrow> text_t option" where
  "compile_floating_const tx e dval fval context =
     (if context = EC_VALUE then do {
        tc \<leftarrow> ty e;
        if tc = TY_FLOAT then do {
          tx \<leftarrow> ci_code_opcode tx OC_PUSH_FLOAT_CONST;
          code_seq ci_code_byte tx (bytes_of 4 (ucast fval)) }
        else if tc = TY_DOUBLE then do {
          tx \<leftarrow> ci_code_opcode tx OC_PUSH_DOUBLE_CONST;
          code_seq ci_code_byte tx (bytes_of 8 dval) }
        else None }
      else Some tx)"

definition compile_string_const :: "text_t \<Rightarrow> byte list \<Rightarrow> expr_context_t \<Rightarrow> text_t option" where
  "compile_string_const tx sc context =
     (if context = EC_VALUE then do {
        tx \<leftarrow> ci_code_opcode tx (OC_CONSTPUSH SZ_L);
        ci_code_long (ci_add_string_reloc tx RT_TEXTLOC (tx_pc tx) sc 0) (0xffff + 1) }
      else Some tx)"

definition compile_funcname :: "text_t \<Rightarrow> string \<Rightarrow> expr_context_t \<Rightarrow> text_t option" where
  "compile_funcname tx name context =
     (if context = EC_VALUE \<or> context = EC_ADDRESS then do {
        let (tx, func_index) = ci_funcname_to_index tx name;
        tx \<leftarrow> ci_code_opcode tx (OC_CONSTPUSH SZ_L);
        v \<leftarrow> short_form func_index;
        ci_code_long (ci_add_func_reloc tx RT_TEXTLOC (tx_pc tx)) v }
      else Some tx)"

text \<open>\<open>compile_binary_expr\<close> looks through promotions for the object a compound assignment stores to.\<close>

fun strip_promotions :: "expr_t \<Rightarrow> expr_t" where
  "strip_promotions (Expr t c (ET_PROMOTION op e)) = strip_promotions e"
| "strip_promotions e = e"

definition assign_op :: "optype_t \<Rightarrow> bool" where
  "assign_op op \<longleftrightarrow> op \<in> {OP_MUL_ASSIGN, OP_DIV_ASSIGN, OP_MOD_ASSIGN, OP_PLUS_ASSIGN, OP_MINUS_ASSIGN,
     OP_LSHIFT_ASSIGN, OP_RSHIFT_ASSIGN, OP_BITWISE_AND_ASSIGN, OP_BITWISE_XOR_ASSIGN, OP_BITWISE_OR_ASSIGN}"

definition value_op :: "optype_t \<Rightarrow> bool" where
  "value_op op \<longleftrightarrow> op \<in> {OP_PLUS, OP_MINUS, OP_BITWISE_OR, OP_BITWISE_XOR, OP_BITWISE_AND, OP_IS_EQUAL,
     OP_NOT_EQUAL, OP_LSHIFT, OP_RSHIFT, OP_MUL, OP_DIV, OP_MOD}"

definition relational_op :: "optype_t \<Rightarrow> bool" where
  "relational_op op \<longleftrightarrow> op \<in> {OP_LESS, OP_GREATER, OP_LESS_OR_EQUAL, OP_GREATER_OR_EQUAL}"

definition join_addrtype :: "text_t \<Rightarrow> addrtype_t \<Rightarrow> addrtype_t \<Rightarrow> addrtype_t" where
  "join_addrtype tx l r = (if l = AT_CI_ADDR \<and> r = AT_CI_ADDR then AT_CI_ADDR else unknown_addrtype tx)"

text \<open>The load of the object of an increment or compound assignment, a copy of its address being on the
  stack.\<close>

definition code_load_for_update :: "cparams \<Rightarrow> text_t \<Rightarrow> type_t \<Rightarrow> (type_t \<times> word64 \<times> word64) option
    \<Rightarrow> addrtype_t \<Rightarrow> text_t option" where
  "code_load_for_update cp tx t bf addrtype =
     (if ty_code t = TY_BITFIELD then do {
        tx \<leftarrow> code_get_whole_bitfield tx addrtype;
        tx \<leftarrow> ci_code_opcode tx OC_DUP;
        bf \<leftarrow> bf;
        code_bitfield_op tx bf OC_EXTRACT_SIGNED_BITFIELD }
      else code_deref cp tx (ty_code t) (ty_size t) addrtype)"

definition code_struct_arg_call :: "text_t \<Rightarrow> word64 \<Rightarrow> text_t option" where
  "code_struct_arg_call tx nbytes =
     do { tx \<leftarrow> ci_code_opcode tx OC_RESERVE_BYTES;
          tx \<leftarrow> ci_code_long tx nbytes;
          Some (tx\<lparr>tx_sp := tx_sp tx + nbytes + 8\<rparr>) }"

definition code_struct_arg_push :: "text_t \<Rightarrow> addrtype_t \<Rightarrow> word64 \<Rightarrow> text_t option" where
  "code_struct_arg_push tx addrtype nbytes =
     do { tx \<leftarrow> ci_code_opcode tx (if addrtype = AT_CI_ADDR then OC_PUSH_BYTES else OC_PROC_PUSH_BYTES);
          tx \<leftarrow> ci_code_long tx nbytes;
          Some (tx\<lparr>tx_sp := tx_sp tx + nbytes - 8\<rparr>) }"

definition round_to_slot :: "word64 \<Rightarrow> word64" where
  "round_to_slot n = (if n mod 8 \<noteq> 0 then n + (8 - n mod 8) else n)"

definition arg_excess :: "typecode_t \<Rightarrow> int" where
  "arg_excess tc =
     (if tc = TY_FLOAT then int FLOAT_NSLOTS - 1
      else if tc = TY_DOUBLE then int DOUBLE_NSLOTS - 1
      else if tc = TY_LONGLONG \<or> tc = TY_ULONGLONG then int LONGLONG_NSLOTS - 1 else 0)"

text \<open>The argument checker: called for each argument, last first, of a call to a function that the file
  does not define.\<close>

fun code_checkargs :: "(type_t \<Rightarrow> nat \<Rightarrow> nat \<Rightarrow> word64 option) \<Rightarrow> nat \<Rightarrow> nat \<Rightarrow> text_t \<Rightarrow> expr_t list \<Rightarrow> text_t option" where
  "code_checkargs f nargs argn tx [] = Some tx"
| "code_checkargs f nargs argn tx (e # es) =
     do { t \<leftarrow> ex_type e;
          tx \<leftarrow> (case f t nargs argn of None \<Rightarrow> Some tx | Some val \<Rightarrow> ci_code_constpush tx val);
          code_checkargs f nargs (argn + 1) tx es }"

text \<open>After the call: drop the arguments, push the result.\<close>

definition code_after_call :: "text_t \<Rightarrow> word64 \<Rightarrow> typecode_t \<Rightarrow> expr_context_t \<Rightarrow> text_t option" where
  "code_after_call tx save_sp tc context =
     do { let bytes_to_pop = tx_sp tx - save_sp;
          tx \<leftarrow> (if bytes_to_pop = 0 then Some tx
                 else if bytes_to_pop = 8 then ci_code_opcode tx OC_POP
                 else do { tx \<leftarrow> ci_code_generic_opcode tx (OC_POPMANY SZ_B) bytes_to_pop;
                           Some (tx\<lparr>tx_sp := tx_sp tx - bytes_to_pop\<rparr>) });
          if context = EC_VALUE then
            (if tc = TY_DOUBLE then ci_code_opcode tx OC_PUSH_DOUBLE_RETVAL
             else if tc = TY_FLOAT then ci_code_opcode tx OC_PUSH_FLOAT_RETVAL
             else if tc = TY_LONGLONG \<or> tc = TY_ULONGLONG then ci_code_opcode tx OC_PUSH_LONG_LONG_RETVAL
             else if tc = TY_STRUCT \<or> tc = TY_UNION then Some tx
             else ci_code_opcode tx OC_PUSH_WORD_RETVAL)
          else Some tx }"

lemma size_strip_promotions: "size (strip_promotions e) \<le> size e"
  by (induction e rule: strip_promotions.induct) simp_all

lemma strip_promotions_bound: "5 * size (strip_promotions e) < 5 + (5 * size e + k)"
  using size_strip_promotions[of e] by linarith

section \<open>The compiler\<close>

function (sequential)
  ci_compile_expression :: "cparams \<Rightarrow> text_t \<Rightarrow> expr_t \<Rightarrow> expr_context_t \<Rightarrow> (text_t \<times> addrtype_t) option"
and compile_kind :: "cparams \<Rightarrow> text_t \<Rightarrow> expr_t \<Rightarrow> expr_context_t \<Rightarrow> (text_t \<times> addrtype_t) option"
and compile_conversion :: "cparams \<Rightarrow> text_t \<Rightarrow> optype_t \<Rightarrow> expr_t \<Rightarrow> expr_context_t \<Rightarrow> (text_t \<times> addrtype_t) option"
and compile_expr_for_jump :: "cparams \<Rightarrow> text_t \<Rightarrow> expr_t \<Rightarrow> text_t option"
and compile_logical_expression ::
  "cparams \<Rightarrow> text_t \<Rightarrow> expr_t \<Rightarrow> expr_t \<Rightarrow> optype_t \<Rightarrow> expr_context_t \<Rightarrow> text_t option"
and compile_scale_expr :: "cparams \<Rightarrow> text_t \<Rightarrow> optype_t \<Rightarrow> expr_t \<Rightarrow> word64 \<Rightarrow> expr_context_t \<Rightarrow> text_t option"
and compile_conditional_expr ::
  "cparams \<Rightarrow> text_t \<Rightarrow> expr_t \<Rightarrow> expr_t \<Rightarrow> expr_t \<Rightarrow> expr_context_t \<Rightarrow> (text_t \<times> addrtype_t) option"
and compile_binary_expr ::
  "cparams \<Rightarrow> text_t \<Rightarrow> optype_t \<Rightarrow> expr_t \<Rightarrow> expr_t \<Rightarrow> expr_context_t \<Rightarrow> (text_t \<times> addrtype_t) option"
and compile_unary_expr ::
  "cparams \<Rightarrow> text_t \<Rightarrow> optype_t \<Rightarrow> expr_t \<Rightarrow> expr_context_t \<Rightarrow> (text_t \<times> addrtype_t) option"
and compile_dot_expr :: "cparams \<Rightarrow> text_t \<Rightarrow> expr_t \<Rightarrow> var_t \<Rightarrow> expr_context_t \<Rightarrow> (text_t \<times> addrtype_t) option"
and compile_multi_arrow_expr ::
  "cparams \<Rightarrow> text_t \<Rightarrow> expr_t \<Rightarrow> expr_t \<Rightarrow> var_t \<Rightarrow> expr_context_t \<Rightarrow> (text_t \<times> addrtype_t) option"
and compile_args :: "cparams \<Rightarrow> text_t \<Rightarrow> expr_t list \<Rightarrow> (text_t \<times> int) option"
and compile_func_call_expr ::
  "cparams \<Rightarrow> text_t \<Rightarrow> expr_t \<Rightarrow> expr_t list \<Rightarrow> typecode_t \<Rightarrow> expr_context_t \<Rightarrow> text_t option"
where
  "ci_compile_expression cp tx e context =
     do { (sp, context) \<leftarrow> expected_sp tx e context;
          folded \<leftarrow> is_folded e;
          if folded then do {
            tx \<leftarrow> compile_constant cp tx e context;
            check_expected sp (tx, AT_CI_ADDR) }
          else do {
            r \<leftarrow> compile_kind cp tx e context;
            check_expected sp r } }"

| "compile_kind cp tx (Expr t c (ET_CAST op a)) context = compile_conversion cp tx op a context"
| "compile_kind cp tx (Expr t c (ET_PROMOTION op a)) context = compile_conversion cp tx op a context"
| "compile_kind cp tx (Expr t c (ET_ASSIGNMENT_CONVERSION op a)) context = compile_conversion cp tx op a context"
| "compile_kind cp tx (Expr t c (ET_VAR v)) context = ci_compile_var_reference cp tx v context"
| "compile_kind cp tx (Expr t c (ET_FUNCNAME name)) context =
     do { tx \<leftarrow> compile_funcname tx name context; Some (tx, AT_CI_ADDR) }"
| "compile_kind cp tx (Expr t c (ET_FUNC_CALL f args)) context =
     do { tx \<leftarrow> compile_func_call_expr cp tx f args (case t of Some t \<Rightarrow> ty_code t | None \<Rightarrow> TY_INT) context;
          Some (tx, AT_CI_ADDR) }"
| "compile_kind cp tx (Expr t c (ET_MULTI_ARROW idx aggr member)) context =
     compile_multi_arrow_expr cp tx idx aggr member context"
| "compile_kind cp tx (Expr t c (ET_DOT aggr member)) context = compile_dot_expr cp tx aggr member context"
| "compile_kind cp tx (Expr t c (ET_FLOATING_CONST dval fval)) context =
     do { tx \<leftarrow> compile_floating_const tx (Expr t c (ET_FLOATING_CONST dval fval)) dval fval context;
          Some (tx, AT_CI_ADDR) }"
| "compile_kind cp tx (Expr t c (ET_STRING_CONST sc)) context =
     do { tx \<leftarrow> compile_string_const tx sc context; Some (tx, AT_CI_ADDR) }"
| "compile_kind cp tx (Expr t c (ET_SCALE op a factor)) context =
     do { tx \<leftarrow> compile_scale_expr cp tx op a factor context; Some (tx, AT_CI_ADDR) }"
| "compile_kind cp tx (Expr t c (ET_BINARY op l r)) context = compile_binary_expr cp tx op l r context"
| "compile_kind cp tx (Expr t c (ET_UNARY op a)) context = compile_unary_expr cp tx op a context"
| "compile_kind cp tx (Expr t c (ET_CONDITIONAL b l r)) context = compile_conditional_expr cp tx b l r context"
| "compile_kind cp tx e context = None"

| "compile_conversion cp tx op a context =
     do { (tx, addrtype) \<leftarrow> ci_compile_expression cp tx a context;
          if context = EC_EFFECT then Some (tx, addrtype)
          else do { tc \<leftarrow> ty a; code_conversion tx addrtype op tc } }"

| "compile_expr_for_jump cp tx a =
     do { (tx, _) \<leftarrow> ci_compile_expression cp tx a EC_VALUE;
          tc \<leftarrow> ty a;
          code_condition tx tc }"

| "compile_logical_expression cp tx l r op context =
     do { let opc = (if op = OP_LOGICAL_AND then OC_JUMP_IF_ZERO else OC_JUMP_IF_NON_ZERO);
          tx \<leftarrow> compile_expr_for_jump cp tx l;
          tx \<leftarrow> (if context = EC_VALUE then ci_code_opcode tx OC_DUP else Some tx);
          (tx, endlabel) \<leftarrow> ci_code_jump_to_label tx opc NO_LABELDESC;
          tx \<leftarrow> (if context = EC_VALUE then ci_code_opcode tx OC_POP else Some tx);
          tx \<leftarrow> (if context = EC_VALUE then compile_expr_for_jump cp tx r
                 else do { (tx, _) \<leftarrow> ci_compile_expression cp tx r context; Some tx });
          tx \<leftarrow> ci_resolve_and_free_label tx endlabel;
          if context = EC_VALUE then ci_code_opcode tx OC_CVT_TO_BOOL else Some tx }"

| "compile_scale_expr cp tx op a factor context =
     do { (tx, _) \<leftarrow> ci_compile_expression cp tx a context;
          if context = EC_EFFECT then Some tx
          else if context \<noteq> EC_VALUE then None
          else do {
            tx \<leftarrow> ci_code_constpush tx factor;
            tc \<leftarrow> ty a;
            is_signed \<leftarrow> ci_is_signed_type tc;
            opc \<leftarrow> operator_to_opcode tx op tc (if is_signed then TY_INT else TY_UINT);
            ci_code_opcode tx opc } }"

| "compile_conditional_expr cp tx b l r context =
     do { tx \<leftarrow> compile_expr_for_jump cp tx b;
          (tx, false_label) \<leftarrow> ci_code_jump_to_label tx OC_JUMP_IF_ZERO NO_LABELDESC;
          let save_sp = tx_sp tx;
          (tx, left_at) \<leftarrow> ci_compile_expression cp tx l context;
          (tx, end_label) \<leftarrow> ci_code_jump_to_label tx OC_JUMP NO_LABELDESC;
          let tx = tx\<lparr>tx_sp := save_sp\<rparr>;
          tx \<leftarrow> ci_resolve_and_free_label tx false_label;
          (tx, right_at) \<leftarrow> ci_compile_expression cp tx r context;
          tx \<leftarrow> ci_resolve_and_free_label tx end_label;
          Some (tx, join_addrtype tx left_at right_at) }"

| "compile_binary_expr cp tx op l r context =
     (if context = EC_ADDRESS \<and> op \<noteq> OP_ASSIGN then None
      else if op = OP_ASSIGN then do {
        (tx, left_at) \<leftarrow> ci_compile_expression cp tx l EC_ADDRESS;
        lt \<leftarrow> ex_type l;
        if ty_code lt = TY_STRUCT \<or> ty_code lt = TY_UNION then do {
          tx \<leftarrow> (if context = EC_VALUE \<or> context = EC_ADDRESS then ci_code_opcode tx OC_DUP else Some tx);
          (tx, right_at) \<leftarrow> ci_compile_expression cp tx r EC_ADDRESS;
          let addrtype = join_addrtype tx left_at right_at;
          tx \<leftarrow> (case ex_kind r of
                   ET_FUNC_CALL _ _ \<Rightarrow> ci_code_opcode tx OC_POP
                 | _ \<Rightarrow> do {
                     n \<leftarrow> ci_typesize (cp_bool_type cp) lt;
                     ci_code_generic_opcode tx
                       (if addrtype = AT_PROC_ADDR then OC_PROC_MEMCPY SZ_B else OC_MEMCPY SZ_B) (of_int n) });
          Some (tx, addrtype) }
        else do {
          tx \<leftarrow> (if ty_code lt = TY_BITFIELD then do {
                   tx \<leftarrow> ci_code_opcode tx OC_DUP; code_get_whole_bitfield tx left_at }
                 else Some tx);
          (tx, right_at) \<leftarrow> ci_compile_expression cp tx r EC_VALUE;
          tx \<leftarrow> ci_code_assign cp tx lt (context = EC_VALUE) left_at;
          Some (tx, right_at) } }
      else if assign_op op then do {
        (tx, left_at) \<leftarrow> ci_compile_expression cp tx (strip_promotions l) EC_ADDRESS;
        tx \<leftarrow> ci_code_opcode tx OC_DUP;
        at \<leftarrow> ex_type (strip_promotions l);
        lt \<leftarrow> ex_type l;
        tx \<leftarrow> code_load_for_update cp tx at (ty_bitfield lt) left_at;
        tx \<leftarrow> (case ex_kind l of
                 ET_PROMOTION cvt _ \<Rightarrow> do { (tx, _) \<leftarrow> code_conversion tx left_at cvt (ty_code at); Some tx }
               | _ \<Rightarrow> Some tx);
        (tx, _) \<leftarrow> ci_compile_expression cp tx r EC_VALUE;
        rt \<leftarrow> ty r;
        opc \<leftarrow> operator_to_opcode tx op (ty_code lt) rt;
        tx \<leftarrow> ci_code_opcode tx opc;
        tx \<leftarrow> (case ex_kind l of
                 ET_PROMOTION _ _ \<Rightarrow> do {
                   cvt \<leftarrow> ci_typecode_to_cvt_op (cp_bool_type cp) (ty_code at);
                   (tx, _) \<leftarrow> code_conversion tx left_at cvt (ty_code lt); Some tx }
               | _ \<Rightarrow> Some tx);
        tx \<leftarrow> ci_code_assign cp tx at (context = EC_VALUE) left_at;
        Some (tx, left_at) }
      else if op = OP_COMMA then do {
        (tx, _) \<leftarrow> ci_compile_expression cp tx l EC_EFFECT;
        ci_compile_expression cp tx r context }
      else if op = OP_LOGICAL_OR \<or> op = OP_LOGICAL_AND then do {
        tx \<leftarrow> compile_logical_expression cp tx l r op context;
        Some (tx, AT_CI_ADDR) }
      else if value_op op \<or> relational_op op then do {
        (tx, left_at) \<leftarrow> ci_compile_expression cp tx l context;
        (tx, right_at) \<leftarrow> ci_compile_expression cp tx r context;
        tx \<leftarrow> (if context = EC_VALUE then do {
                 lt \<leftarrow> ty l;
                 rt \<leftarrow> ty r;
                 opc \<leftarrow> operator_to_opcode tx op lt rt;
                 ci_code_opcode tx opc }
               else Some tx);
        Some (tx, if relational_op op then AT_CI_ADDR else join_addrtype tx left_at right_at) }
      else None)"

| "compile_unary_expr cp tx op a context =
     (if context = EC_ADDRESS \<and> op \<noteq> OP_DEREF then None
      else if op = OP_ADDRESS_OF then
        ci_compile_expression cp tx a (if context = EC_EFFECT then EC_EFFECT else EC_ADDRESS)
      else if op = OP_DEREF then do {
        (tx, expr_at) \<leftarrow> ci_compile_expression cp tx a (if context = EC_EFFECT then EC_EFFECT else EC_VALUE);
        at \<leftarrow> ex_type a;
        base \<leftarrow> ty_base at;
        if context = EC_VALUE \<and> \<not> is_aggregate base \<and> ty_code base \<noteq> DT_FUNC_RETURNING then do {
          n \<leftarrow> ci_typesize (cp_bool_type cp) base;
          tx \<leftarrow> code_deref cp tx (ty_code base) n expr_at;
          Some (tx, unknown_addrtype tx) }
        else Some (tx, expr_at) }
      else if op \<in> {OP_PREINC, OP_PREDEC, OP_POSTINC, OP_POSTDEC} then do {
        let is_preop = (op = OP_PREINC \<or> op = OP_PREDEC);
        tx \<leftarrow> (if context = EC_VALUE \<and> \<not> is_preop then ci_code_opcode tx OC_RESERVE_SLOT else Some tx);
        (tx, expr_at) \<leftarrow> ci_compile_expression cp tx a EC_ADDRESS;
        tx \<leftarrow> ci_code_opcode tx OC_DUP;
        at \<leftarrow> ex_type a;
        tx \<leftarrow> code_load_for_update cp tx at (ty_bitfield at) expr_at;
        tx \<leftarrow> (if context = EC_VALUE \<and> \<not> is_preop then ci_code_opcode tx OC_DUP_BACK_ONE else Some tx);
        n \<leftarrow> (if ty_code at = DT_PTR_TO then do { b \<leftarrow> ty_base at; ci_typesize (cp_bool_type cp) b }
              else Some 1);
        tx \<leftarrow> ci_code_constpush tx (signed_take_bit 31 (of_int n));
        tx \<leftarrow> ci_code_opcode tx
               (if op = OP_PREDEC \<or> op = OP_POSTDEC then OC_ARITH AR_SUB N_WORD else OC_ARITH AR_ADD N_WORD);
        tx \<leftarrow> ci_code_assign cp tx at (is_preop \<and> context = EC_VALUE) expr_at;
        Some (tx, unknown_addrtype tx) }
      else if op = OP_LOGICAL_NOT \<or> op = OP_BITWISE_NOT then do {
        (tx, _) \<leftarrow> ci_compile_expression cp tx a context;
        tx \<leftarrow> (if context = EC_VALUE
               then ci_code_opcode tx (if op = OP_LOGICAL_NOT then OC_LOGICAL_NOT else OC_BITWISE_NOT I_WORD)
               else Some tx);
        Some (tx, AT_CI_ADDR) }
      else if op = OP_UNARY_MINUS then do {
        (tx, addrtype) \<leftarrow> ci_compile_expression cp tx a context;
        tx \<leftarrow> (if context = EC_VALUE then do {
                 tc \<leftarrow> ty a;
                 ci_code_opcode tx (OC_UNARY_MINUS
                   (if tc = TY_DOUBLE then N_DOUBLE else if tc = TY_FLOAT then N_FLOAT
                    else if tc = TY_LONGLONG \<or> tc = TY_ULONGLONG then N_LL else N_WORD)) }
               else Some tx);
        Some (tx, addrtype) }
      else if op = OP_UNARY_PLUS then ci_compile_expression cp tx a context
      else None)"

| "compile_dot_expr cp tx aggr v context =
     do { (tx, expr_at) \<leftarrow> ci_compile_expression cp tx aggr EC_ADDRESS;
          if context = EC_EFFECT then do { tx \<leftarrow> ci_code_opcode tx OC_POP; Some (tx, AT_CI_ADDR) }
          else do {
            tx \<leftarrow> (if va_addr v \<noteq> 0 then do {
                     tx \<leftarrow> ci_code_constpush tx (va_addr v);
                     ci_code_opcode tx (OC_ARITH AR_ADD N_WORD) }
                   else Some tx);
            if context = EC_VALUE \<and> \<not> is_aggregate (va_type v) then do {
              tx \<leftarrow> (if ty_code (va_type v) = TY_BITFIELD then do {
                       bf \<leftarrow> ty_bitfield (va_type v);
                       tx \<leftarrow> code_deref cp tx (ty_code (fst bf)) (ty_size (fst bf)) expr_at;
                       code_bitfield_op tx bf OC_EXTRACT_SIGNED_BITFIELD }
                     else code_deref cp tx (ty_code (va_type v)) (ty_size (va_type v)) expr_at);
              Some (tx, unknown_addrtype tx) }
            else Some (tx, expr_at) } }"

| "compile_multi_arrow_expr cp tx idx aggr v context =
     (if context \<noteq> EC_VALUE \<and> context \<noteq> EC_EFFECT then None
      else do {
        (tx, _) \<leftarrow> ci_compile_expression cp tx idx context;
        (tx, _) \<leftarrow> ci_compile_expression cp tx aggr context;
        tx \<leftarrow> (if context = EC_VALUE then do {
                 tx \<leftarrow> ci_code_constpush tx (va_addr v);
                 ci_code_opcode tx OC_MULTI_ARROW }
               else Some tx);
        Some (tx, AT_PROC_ADDR) })"

| "compile_args cp tx [] = Some (tx, 0)"
| "compile_args cp tx (e # es) =
     do { (tx, excess) \<leftarrow> compile_args cp tx es;
          t \<leftarrow> ex_type e;
          if ty_code t = TY_STRUCT \<or> ty_code t = TY_UNION then do {
            n \<leftarrow> ci_typesize (cp_bool_type cp) t;
            let nbytes = round_to_slot (of_int n);
            tx \<leftarrow> (case ex_kind e of
                     ET_FUNC_CALL _ _ \<Rightarrow> do {
                       tx \<leftarrow> code_struct_arg_call tx nbytes;
                       (tx, _) \<leftarrow> ci_compile_expression cp tx e EC_ADDRESS;
                       ci_code_opcode tx OC_POP }
                   | _ \<Rightarrow> do {
                       (tx, addrtype) \<leftarrow> ci_compile_expression cp tx e EC_ADDRESS;
                       code_struct_arg_push tx addrtype nbytes });
            Some (tx, excess + sint (nbytes div 8) - 1) }
          else do {
            (tx, _) \<leftarrow> ci_compile_expression cp tx e EC_VALUE;
            Some (tx, excess + arg_excess (ty_code t)) } }"

| "compile_func_call_expr cp tx f args tc context =
     do { let (tx, func_index, is_direct_call) =
            (case ex_kind f of
               ET_FUNCNAME name \<Rightarrow> (case ci_funcname_to_index tx name of (tx, i) \<Rightarrow> (tx, i, True))
             | _ \<Rightarrow> (tx, 0, False));
          let save_sp = tx_sp tx;
          tx \<leftarrow> (case tx_checkarg_proc tx of
                   Some p \<Rightarrow> if func_index \<le> 0 \<or> func_index \<ge> int (tx_num_funcs tx)
                             then code_checkargs p (length args) 0 tx (rev args) else Some tx
                 | None \<Rightarrow> Some tx);
          let before_args_sp = tx_sp tx;
          (tx, excess) \<leftarrow> compile_args cp tx args;
          let excess = (if tc = TY_STRUCT \<or> tc = TY_UNION then excess + 1 else excess);
          let nslots = int (length args) + excess;
          tx \<leftarrow> (if tc = TY_STRUCT \<or> tc = TY_UNION
                 then ci_code_constpush tx (if context = EC_VALUE then of_int nslots else 0) else Some tx);
          if of_int nslots * 8 \<noteq> tx_sp tx - before_args_sp then None
          else do {
            tx \<leftarrow> (if is_direct_call then ci_code_generic_opcode tx (OC_CALL SZ_B) (of_int func_index)
                   else do {
                     (tx, _) \<leftarrow> ci_compile_expression cp tx f EC_VALUE;
                     ci_code_opcode tx OC_CALL_INDIRECT });
            tx \<leftarrow> ci_code_byte tx (of_int nslots);
            tx \<leftarrow> ci_code_byte tx (of_nat (typecode_num tc));
            code_after_call tx save_sp tc context } }"
  by pat_completeness auto

text \<open>The recursion descends in the expression; the functions between two levels come in a fixed order.\<close>

termination
proof (relation "measure (case_sum
    (case_sum
      (case_sum (\<lambda>(cp, tx, e, c). 5 * size e + 3)
        (case_sum (\<lambda>(cp, tx, e, c). 5 * size e + 2) (\<lambda>(cp, tx, op, e, c). 5 * size e + 4)))
      (case_sum (\<lambda>(cp, tx, e). 5 * size e + 4)
        (case_sum (\<lambda>(cp, tx, l, r, op, c). 5 * (size l + size r) + 6) (\<lambda>(cp, tx, op, e, k, c). 5 * size e + 4))))
    (case_sum
      (case_sum (\<lambda>(cp, tx, b, l, r, c). 5 * (size b + size l + size r) + 6)
        (case_sum (\<lambda>(cp, tx, op, l, r, c). 5 * (size l + size r) + 8) (\<lambda>(cp, tx, op, e, c). 5 * size e + 4)))
      (case_sum
        (case_sum (\<lambda>(cp, tx, e, v, c). 5 * size e + 4) (\<lambda>(cp, tx, i, e, v, c). 5 * (size i + size e) + 4))
        (case_sum (\<lambda>(cp, tx, es). 5 * size_list size es + 4)
          (\<lambda>(cp, tx, f, es, tc, c). 5 * (size f + size_list size es) + 6)))))", goal_cases)
  case 1
  show ?case by (rule wf_measure)
qed (auto simp: strip_promotions_bound)

declare ci_compile_expression.simps [simp del]

end
