(* ===== verification/Ups_Compile_Props.thy ===== *)
theory Ups_Compile_Props
  imports Ups_Compile_Expr
begin

text \<open>
  The expression compiler only appends to the code buffer: \<open>ext a b\<close> says that the buffer \<open>b\<close> continues \<open>a\<close>,
  and every function of \<open>src/ups/ci_compile_expr.c\<close> that writes code gives a buffer that continues the
  one it got.  The rules in the collection \<open>growing\<close> follow the structure of the code; only the two
  functions that use labels, for logical and conditional expressions, need more.
\<close>

section \<open>Code is only appended\<close>

text \<open>
  \<open>ext a b\<close>: the buffer \<open>b\<close> continues \<open>a\<close>.  What was written is still there, everything after it up
  to the new position has been written, and the labels in use are as they were.
\<close>

definition ext :: "text_t \<Rightarrow> text_t \<Rightarrow> bool" where
  "ext a b \<longleftrightarrow> text_ok b \<and> tx_pc a \<le> tx_pc b \<and> (\<forall>i < tx_pc a. cells b i = cells a i)
     \<and> (\<forall>i. tx_pc a \<le> i \<and> i < tx_pc b \<longrightarrow> cells b i \<noteq> None) \<and> tx_flags b = tx_flags a
     \<and> (\<forall>ld lb. labeldesc_to_label a ld = Some lb \<longrightarrow> labeldesc_to_label b ld = Some lb)"

lemma ext_refl: "text_ok a \<Longrightarrow> ext a a"
  by (auto simp: ext_def)

lemma ext_trans: "ext a b \<Longrightarrow> ext b c \<Longrightarrow> ext a c"
proof -
  assume ab: "ext a b" and bc: "ext b c"
  have "cells c i \<noteq> None" if "tx_pc a \<le> i" "i < tx_pc c" for i
    using that ab bc by (cases "i < tx_pc b") (auto simp: ext_def)
  with ab bc show "ext a c" by (auto simp: ext_def)
qed

lemma ext_ok: "ext a b \<Longrightarrow> text_ok b"
  by (simp add: ext_def)

text \<open>Changes of the other fields do not matter.\<close>

lemma ext_update [simp]:
  "ext a (b\<lparr>tx_sp := sp\<rparr>) = ext a b" "ext a (b\<lparr>tx_max_sp := sp\<rparr>) = ext a b"
  "ext a (b\<lparr>tx_var_relocs := v\<rparr>) = ext a b" "ext a (b\<lparr>tx_string_relocs := sr\<rparr>) = ext a b"
  "ext a (b\<lparr>tx_func_relocs := fr\<rparr>) = ext a b" "ext a (b\<lparr>tx_reg_relocs := rr\<rparr>) = ext a b"
  "ext a (b\<lparr>tx_vlist := vl\<rparr>) = ext a b" "ext a (b\<lparr>tx_undef_funcs := uf\<rparr>) = ext a b"
  "ext a (b\<lparr>tx_num_undef_funcs := nf\<rparr>) = ext a b" "ext a (track_sp opc b) = ext a b"
  by (simp_all add: ext_def text_ok_def cells_def labeldesc_to_label_def track_sp_def Let_def)

lemma labels_of_frame:
  assumes "text_frame b = text_frame a"
  shows "tx_labels b = tx_labels a \<and> tx_labellim b = tx_labellim a \<and> tx_flags b = tx_flags a"
  using arg_cong[OF assms, of tx_labels] arg_cong[OF assms, of tx_labellim] arg_cong[OF assms, of tx_flags]
  by (simp add: text_frame_def)

lemma emits_ext:
  assumes "emits a bs b" and "text_frame b = text_frame a"
  shows "ext a b"
  using assms(1) labels_of_frame[OF assms(2)]
  by (auto simp: ext_def emits_def labeldesc_to_label_def overlay_def)

text \<open>\<open>lext\<close>: moreover exactly the same labels are in use.\<close>

definition lext :: "text_t \<Rightarrow> text_t \<Rightarrow> bool" where
  "lext a b \<longleftrightarrow> ext a b \<and> labeldesc_to_label b = labeldesc_to_label a"

lemma lextD: "lext a b \<Longrightarrow> ext a b" by (simp add: lext_def)

lemma lext_refl: "text_ok a \<Longrightarrow> lext a a" by (simp add: lext_def ext_refl)

lemma lext_trans: "lext a b \<Longrightarrow> lext b c \<Longrightarrow> lext a c" by (auto simp: lext_def intro: ext_trans)

lemma lext_ok: "lext a b \<Longrightarrow> text_ok b" by (simp add: lext_def ext_def)

lemma labels_update [simp]:
  "labeldesc_to_label (b\<lparr>tx_sp := sp\<rparr>) = labeldesc_to_label b" "labeldesc_to_label (b\<lparr>tx_max_sp := sp\<rparr>) = labeldesc_to_label b"
  "labeldesc_to_label (b\<lparr>tx_var_relocs := v\<rparr>) = labeldesc_to_label b" "labeldesc_to_label (b\<lparr>tx_string_relocs := sr\<rparr>) = labeldesc_to_label b"
  "labeldesc_to_label (b\<lparr>tx_func_relocs := fr\<rparr>) = labeldesc_to_label b" "labeldesc_to_label (b\<lparr>tx_reg_relocs := rr\<rparr>) = labeldesc_to_label b"
  "labeldesc_to_label (b\<lparr>tx_vlist := vl\<rparr>) = labeldesc_to_label b" "labeldesc_to_label (b\<lparr>tx_undef_funcs := uf\<rparr>) = labeldesc_to_label b"
  "labeldesc_to_label (b\<lparr>tx_num_undef_funcs := nf\<rparr>) = labeldesc_to_label b" "labeldesc_to_label (track_sp opc b) = labeldesc_to_label b"
  by (simp_all add: labeldesc_to_label_def track_sp_def Let_def fun_eq_iff)

lemma lext_update [simp]:
  "lext a (b\<lparr>tx_sp := sp\<rparr>) = lext a b" "lext a (b\<lparr>tx_max_sp := sp\<rparr>) = lext a b"
  "lext a (b\<lparr>tx_var_relocs := v\<rparr>) = lext a b" "lext a (b\<lparr>tx_string_relocs := sr\<rparr>) = lext a b"
  "lext a (b\<lparr>tx_func_relocs := fr\<rparr>) = lext a b" "lext a (b\<lparr>tx_reg_relocs := rr\<rparr>) = lext a b"
  "lext a (b\<lparr>tx_vlist := vl\<rparr>) = lext a b" "lext a (b\<lparr>tx_undef_funcs := uf\<rparr>) = lext a b"
  "lext a (b\<lparr>tx_num_undef_funcs := nf\<rparr>) = lext a b" "lext a (track_sp opc b) = lext a b"
  by (simp_all add: lext_def)

lemma code_seq_lext: "text_ok a \<Longrightarrow> code_seq ci_code_byte a bs = Some b \<Longrightarrow> lext a b"
proof -
  assume "text_ok a" and "code_seq ci_code_byte a bs = Some b"
  then have "emits a bs b" and f: "text_frame b = text_frame a" using code_seq_emits by blast+
  then show ?thesis using emits_ext labels_of_frame[OF f] by (simp add: lext_def labeldesc_to_label_def fun_eq_iff)
qed

section \<open>Growing\<close>

definition grows :: "text_t \<Rightarrow> text_t option \<Rightarrow> bool" where
  "grows a r \<longleftrightarrow> (\<forall>b. r = Some b \<longrightarrow> lext a b)"

definition growsp :: "text_t \<Rightarrow> (text_t \<times> 'x) option \<Rightarrow> bool" where
  "growsp a r \<longleftrightarrow> (\<forall>b x. r = Some (b, x) \<longrightarrow> lext a b)"

named_theorems growing

lemma grows_Some [growing]: "lext a b \<Longrightarrow> grows a (Some b)" "grows a None" "lext a b \<Longrightarrow> growsp a (Some (b, x))" "growsp a None"
  by (simp_all add: grows_def growsp_def)

lemma grows_bind [growing]:
  "grows a r \<Longrightarrow> (\<And>b. lext a b \<Longrightarrow> grows a (f b)) \<Longrightarrow> grows a (Option.bind r f)"
  "grows a r \<Longrightarrow> (\<And>b. lext a b \<Longrightarrow> growsp a (g b)) \<Longrightarrow> growsp a (Option.bind r g)"
  "growsp a q \<Longrightarrow> (\<And>b x. lext a b \<Longrightarrow> grows a (h b x)) \<Longrightarrow> grows a (Option.bind q (case_prod h))"
  "growsp a q \<Longrightarrow> (\<And>b x. lext a b \<Longrightarrow> growsp a (k b x)) \<Longrightarrow> growsp a (Option.bind q (case_prod k))"
  unfolding grows_def growsp_def bind_Some_iff by auto blast

lemma grows_skip:
  "(\<And>x. grows a (f x)) \<Longrightarrow> grows a (Option.bind r f)" "(\<And>x. growsp a (g x)) \<Longrightarrow> growsp a (Option.bind r g)"
  by (auto simp: grows_def growsp_def bind_Some_iff)

lemmas [growing] =
  grows_skip[where 'a = bool] grows_skip[where 'a = typecode_t] grows_skip[where 'a = type_t] grows_skip[where 'a = opcode]
  grows_skip[where 'a = int] grows_skip[where 'a = word64] grows_skip[where 'a = optype_t] grows_skip[where 'a = unit]
  grows_skip[where 'a = "type_t \<times> word64 \<times> word64"] grows_skip[where 'a = "word64 \<times> expr_context_t"]
  grows_skip[where 'a = "word64 \<Rightarrow> word64"] grows_skip[where 'a = "opcode \<times> bool \<times> addrtype_t"]

lemma grows_if [growing]:
  "(c \<Longrightarrow> grows a r) \<Longrightarrow> (\<not> c \<Longrightarrow> grows a q) \<Longrightarrow> grows a (if c then r else q)"
  "(c \<Longrightarrow> growsp a s) \<Longrightarrow> (\<not> c \<Longrightarrow> growsp a t) \<Longrightarrow> growsp a (if c then s else t)"
  by simp_all

lemma grows_Let [growing]:
  "grows a (f x) \<Longrightarrow> grows a (Let x f)" "growsp a (g x) \<Longrightarrow> growsp a (Let x g)"
  by simp_all

lemma grows_case [growing]:
  "(\<And>x y. grows a (f x y)) \<Longrightarrow> grows a (case_prod f p)" "(\<And>x y. growsp a (g x y)) \<Longrightarrow> growsp a (case_prod g p)"
  "grows a r \<Longrightarrow> (\<And>z. grows a (h z)) \<Longrightarrow> grows a (case_option r h q)"
  by (simp_all split: prod.split option.split)

lemma grows_ext: "grows b r \<Longrightarrow> lext a b \<Longrightarrow> grows a r" "growsp b q \<Longrightarrow> lext a b \<Longrightarrow> growsp a q"
  unfolding grows_def growsp_def by (blast intro: lext_trans)+

lemma grows_code_seq [growing]: "lext a b \<Longrightarrow> grows a (code_seq ci_code_byte b bs)"
  unfolding grows_def by (blast intro: lext_trans code_seq_lext lext_ok)

lemma code_byte_fits: "ci_code_byte tx b = Some tx' \<Longrightarrow> ci_code_byte tx b = code_seq ci_code_byte tx [ucast b]"
  by (auto simp: ci_code_byte_def)

lemma grows_byte [growing]: "lext a b \<Longrightarrow> grows a (ci_code_byte b v)"
  using grows_code_seq[of a b "[ucast v]"] code_byte_fits by (fastforce simp: grows_def)

lemma grows_word [growing]: "lext a b \<Longrightarrow> grows a (ci_code_word b v)"
  by (simp add: ci_code_seqs grows_code_seq)

lemma grows_long [growing]: "lext a b \<Longrightarrow> grows a (ci_code_long b v)"
  by (simp add: ci_code_seqs grows_code_seq)

lemma grows_quad [growing]: "lext a b \<Longrightarrow> grows a (ci_code_quad b v)"
  by (simp add: ci_code_seqs grows_code_seq)

lemma grows_opcode [growing]: "lext a b \<Longrightarrow> grows a (ci_code_opcode b opc)"
  by (simp add: ci_code_opcode_eq grows_code_seq check_track_def)

lemma grows_generic [growing]: "lext a b \<Longrightarrow> grows a (ci_code_generic_opcode b opc v)"
  unfolding ci_code_generic_opcode_def code_generic_def by (intro growing)

lemma grows_constpush [growing]: "lext a b \<Longrightarrow> grows a (ci_code_constpush b v)"
  unfolding ci_code_constpush_def by (intro growing)

section \<open>Instructions without stack checks\<close>

abbreviation no_checks :: "text_t \<Rightarrow> bool" where
  "no_checks tx \<equiv> tx_flags tx AND CI_CP_CHECKSP = 0"

lemma opcode_emits:
  assumes "text_ok tx" and "no_checks tx" and "ci_code_opcode tx opc = Some tx'"
  shows "emits tx (opcode_bytes opc) tx'"
proof -
  have "code_seq ci_code_byte (track_sp opc tx) (opcode_bytes opc) = Some tx'"
    using assms(2,3) by (simp add: ci_code_opcode_eq check_track_def check_bytes_def)
  from code_seq_emits(1)[OF _ this] assms(1) show ?thesis by (simp add: emits_def)
qed

lemma generic_emits:
  assumes "sized f" and "text_ok tx" and "no_checks tx" and "ci_code_generic_opcode tx (f SZ_B) arg = Some tx'"
  shows "emits tx (opcode_bytes (f (form_of arg)) @ operand_bytes arg) tx'"
proof -
  have "code_seq ci_code_byte (track_sp (f (form_of arg)) tx) (opcode_bytes (f (form_of arg)) @ operand_bytes arg) = Some tx'"
    using assms(3,4) by (simp add: ci_code_generic_opcode_eq[OF assms(1)] Let_def check_track_def check_bytes_def)
  from code_seq_emits(1)[OF _ this] assms(2) show ?thesis by (simp add: emits_def)
qed

section \<open>Labels\<close>

text \<open>A label that is known to have one reference, at \<open>r\<close>, and no address yet.\<close>

definition one_ref :: "text_t \<Rightarrow> nat \<Rightarrow> nat \<Rightarrow> bool" where
  "one_ref tx ld r \<longleftrightarrow> labeldesc_to_label tx ld = Some \<lparr>lb_addr = 0, lb_refs = [r]\<rparr>"

lemma cells_labels [simp]: "cells (t\<lparr>tx_labels := l\<rparr>) = cells t" "cells (t\<lparr>tx_sp := sp\<rparr>) = cells t"
  by (simp_all add: cells_def fun_eq_iff)

lemma one_ref_ext: "one_ref a ld r \<Longrightarrow> ext a b \<Longrightarrow> one_ref b ld r"
  by (simp add: one_ref_def ext_def)

lemma make_label_ext:
  assumes "text_ok a" and "make_label a = (b, ld)"
  shows "ext a b" and "labeldesc_to_label a ld = None" and "tx_pc b = tx_pc a" and "tx_sp b = tx_sp a"
    and "\<And>k. k \<noteq> ld \<Longrightarrow> labeldesc_to_label b k = labeldesc_to_label a k"
proof -
  have l: "ld < tx_labellim a \<Longrightarrow> tx_labels a ! ld = None" using make_label_fresh[OF assms] by simp
  then show n: "labeldesc_to_label a ld = None" by (simp add: labeldesc_to_label_def)
  show pc: "tx_pc b = tx_pc a" "tx_sp b = tx_sp a" using assms(2) by (auto simp: make_label_def Let_def split: if_split_asm)
  have c: "cells b = cells a" "tx_flags b = tx_flags a" "text_ok b"
    using assms(2) make_label_fresh(1)[OF assms] by (auto simp: make_label_def Let_def cells_def fun_eq_iff split: if_split_asm)
  show k: "labeldesc_to_label b k = labeldesc_to_label a k" if "k \<noteq> ld" for k
    using that assms free_label_le[of "tx_labels a"]
    by (auto simp: make_label_def Let_def labeldesc_to_label_def text_ok_def nth_append nth_list_update split: if_split_asm)
  have "labeldesc_to_label b k = Some lb" if "labeldesc_to_label a k = Some lb" for k lb
    using that n k[of k] by (cases "k = ld") auto
  with pc c show "ext a b" by (auto simp: ext_def)
qed

lemma jump_to_new_label:
  assumes "text_ok a" and "ci_code_jump_to_label a opc NO_LABELDESC = Some (b, ld)"
  shows "ext a b \<and> labeldesc_to_label a ld = None \<and> (\<exists>r. one_ref b ld r \<and> tx_pc a \<le> r \<and> r + 2 \<le> tx_pc b)"
    and "no_checks a \<Longrightarrow> one_ref b ld (tx_pc a + 2) \<and> emits a (opcode_bytes opc @ bytes_of 2 (of_nat ld)) b"
    and "\<And>k. k \<noteq> ld \<Longrightarrow> labeldesc_to_label b k = labeldesc_to_label a k"
proof -
  obtain t1 where m: "make_label a = (t1, ld)" using assms(2) by (auto simp: ci_code_jump_to_label_def bind_Some_iff split: prod.split_asm)
  obtain t2 lb where o: "ci_code_opcode t1 opc = Some t2" and l: "labeldesc_to_label t2 ld = Some lb"
    and w: "ci_code_word (t2\<lparr>tx_labels := (tx_labels t2)[ld := Some (lb\<lparr>lb_refs := tx_pc t2 # lb_refs lb\<rparr>)]\<rparr>) (of_nat ld) = Some b"
    using assms(2) m by (auto simp: ci_code_jump_to_label_def add_label_reference_def bind_Some_iff)
  note me = make_label_ext[OF assms(1) m]
  let ?t = "t2\<lparr>tx_labels := (tx_labels t2)[ld := Some (lb\<lparr>lb_refs := tx_pc t2 # lb_refs lb\<rparr>)]\<rparr>"
  have s2: "lext t1 t2" using grows_opcode[OF lext_refl[OF ext_ok[OF me(1)]]] o by (auto simp: grows_def)
  note e2 = lextD[OF s2]
  have ld: "ld < tx_labellim t2" "ld \<le> MAX_LABELDESC" "text_ok t2" using l ext_ok[OF e2] by (auto simp: labeldesc_to_label_def split: if_split_asm)
  have "labeldesc_to_label t1 ld = Some \<lparr>lb_addr = 0, lb_refs = []\<rparr>"
    using make_label_fresh(2,3)[OF assms(1) m] ld by (simp add: labeldesc_to_label_def)
  with e2 l have lb: "lb = \<lparr>lb_addr = 0, lb_refs = []\<rparr>" by (auto simp: ext_def)
  have t: "text_ok ?t" "one_ref ?t ld (tx_pc t2)" using ld by (simp_all add: text_ok_def one_ref_def labeldesc_to_label_def lb)
  have s3: "lext ?t b" using grows_word[OF lext_refl[OF t(1)]] w by (auto simp: grows_def)
  note e3 = lextD[OF s3]
  have e1: "ext a t2" using ext_trans[OF me(1) e2] .
  have ea: "ext a ?t" using e1 me(2) t(1) by (auto simp: ext_def cells_def labeldesc_to_label_def split: if_split_asm) (metis nth_list_update_neq option.distinct(1))
  have eb: "emits ?t (bytes_of 2 (of_nat ld)) b" using code_seq_emits(1)[OF t(1)] w by (simp add: ci_code_word_seq)
  note one = one_ref_ext[OF t(2) e3]
  show "labeldesc_to_label b k = labeldesc_to_label a k" if "k \<noteq> ld" for k
  proof -
    have "labeldesc_to_label ?t k = labeldesc_to_label t2 k" using that by (simp add: labeldesc_to_label_def)
    with s2 s3 me(5)[OF that] show ?thesis by (simp add: lext_def)
  qed
  show "ext a b \<and> labeldesc_to_label a ld = None \<and> (\<exists>r. one_ref b ld r \<and> tx_pc a \<le> r \<and> r + 2 \<le> tx_pc b)"
    using one ext_trans[OF ea e3] me(2) e1 eb by (auto simp: ext_def emits_def)
  assume "no_checks a"
  then have "emits t1 (opcode_bytes opc) t2" using opcode_emits[OF _ _ o] me(1) by (simp add: ext_def)
  then have "emits a (opcode_bytes opc) ?t"
    using me(3) make_label_fresh(6)[OF assms(1) m] t(1) by (simp add: emits_def)
  from emits_trans[OF this eb] this one show "one_ref b ld (tx_pc a + 2) \<and> emits a (opcode_bytes opc @ bytes_of 2 (of_nat ld)) b"
    by (simp add: emits_def)
qed

lemma resolve_one_ref:
  assumes "text_ok b" and "one_ref b ld r" and "cells b (r + 1) \<noteq> None" and "ci_resolve_and_free_label b ld = Some c"
  shows "tx_pc c = tx_pc b" and "cells c = overlay (cells b) r (bytes_of 2 (branch_offset (tx_pc b) r))"
    and "fits_short (branch_offset (tx_pc b) r)" and "text_ok c" and "tx_sp c = tx_sp b"
    and "\<And>k. k \<noteq> ld \<Longrightarrow> labeldesc_to_label c k = labeldesc_to_label b k" and "tx_flags c = tx_flags b"
    and "labeldesc_to_label c ld = None"
proof -
  have r: "refs_ok (tx_pclim b) [r]" using assms(1,3) by (auto simp: refs_ok_def cells_def text_ok_def split: if_split_asm)
  obtain t where t: "patch_refs b (tx_pc b) [r] = Some t" and c: "c = t\<lparr>tx_pc := tx_pc b, tx_labels := (tx_labels b)[ld := None]\<rparr>"
    using assms(2,4) by (auto simp: ci_resolve_and_free_label_def one_ref_def bind_Some_iff simp del: patch_refs.simps)
  show f: "fits_short (branch_offset (tx_pc b) r)" using patch_refs_misfit[of r "[r]"] t by fastforce
  have w: "text_ok t" "cells t = overlay (cells b) r (bytes_of 2 (branch_offset (tx_pc b) r))" "text_frame t = text_frame b"
    using patch_refs_written[OF assms(1) r, of "tx_pc b"] f t by auto
  have l: "tx_labellim t = tx_labellim b" "tx_flags t = tx_flags b" "tx_sp t = tx_sp b"
    using labels_of_frame[OF w(3)] arg_cong[OF w(3), of tx_sp] by (simp_all add: text_frame_def)
  show "tx_pc c = tx_pc b" "tx_sp c = tx_sp b" "tx_flags c = tx_flags b" using l by (simp_all add: c)
  have "cells c = cells t" by (auto simp: c cells_def fun_eq_iff)
  with w(2) show "cells c = overlay (cells b) r (bytes_of 2 (branch_offset (tx_pc b) r))" by simp
  show "text_ok c" using w(1) assms(1) l by (simp add: c text_ok_def)
  show "labeldesc_to_label c k = labeldesc_to_label b k" if "k \<noteq> ld" for k using that l by (simp add: c labeldesc_to_label_def)
  show "labeldesc_to_label c ld = None" using l assms(1) by (simp add: c labeldesc_to_label_def text_ok_def)
qed

text \<open>A label made after \<open>a\<close>, whose reference lies after \<open>a\<close>'s code, is resolved.\<close>

lemma resolve_ext:
  assumes "ext a b" and "one_ref b ld r" and "labeldesc_to_label a ld = None" and "tx_pc a \<le> r" and "r + 2 \<le> tx_pc b"
    and "ci_resolve_and_free_label b ld = Some c"
  shows "ext a c"
proof -
  have "tx_pc a \<le> r + 1" "r + 1 < tx_pc b" using assms(4,5) by simp_all
  with assms(1) have "cells b (r + 1) \<noteq> None" by (auto simp: ext_def)
  note c = resolve_one_ref[OF ext_ok[OF assms(1)] assms(2) this assms(6)]
  have "labeldesc_to_label c k = Some lb" if "labeldesc_to_label a k = Some lb" for k lb
    using that assms(1,3) c(6)[of k] by (cases "k = ld") (auto simp: ext_def)
  with assms c show ?thesis by (auto simp: ext_def overlay_def)
qed

section \<open>The parts of the compiler\<close>

lemma grows_var_reloc [growing]: "lext a b \<Longrightarrow> grows a (ci_add_var_reloc b lt loc v off)"
  by (auto simp: grows_def ci_add_var_reloc_def add_to_vlist_def bind_Some_iff Let_def split: if_split_asm option.split_asm)

lemma lext_relocs [simp]:
  "lext a (ci_add_func_reloc b lt loc) = lext a b" "lext a (ci_add_string_reloc b lt loc sc off) = lext a b"
  by (simp_all add: ci_add_func_reloc_def ci_add_string_reloc_def)

lemma lext_funcname: "ci_funcname_to_index b name = (c, i) \<Longrightarrow> lext a c = lext a b"
  by (auto simp: ci_funcname_to_index_def Let_def split: option.split_asm)

lemma grows_code_deref [growing]: "lext a b \<Longrightarrow> grows a (code_deref cp b tc n at)"
  unfolding code_deref_def by (intro growing)

lemma grows_bitfield_op [growing]: "lext a b \<Longrightarrow> grows a (code_bitfield_op b bf opc)"
  unfolding code_bitfield_op_def by (intro growing)

lemma grows_whole_bitfield [growing]: "lext a b \<Longrightarrow> grows a (code_get_whole_bitfield b at)"
  unfolding code_get_whole_bitfield_def by (intro growing)

lemma grows_code_assign [growing]: "lext a b \<Longrightarrow> grows a (ci_code_assign cp b t w at)"
  unfolding ci_code_assign_def by (intro growing)

lemma grows_var_reference [growing]: "lext a b \<Longrightarrow> growsp a (ci_compile_var_reference cp b v c)"
  unfolding ci_compile_var_reference_def
  by (intro growing; simp)

lemma grows_cvt_integral [growing]: "lext a b \<Longrightarrow> grows a (cvt_from_integral b tc x y)"
  unfolding cvt_from_integral_def by (intro growing)

lemma grows_conversion [growing]: "lext a b \<Longrightarrow> growsp a (code_conversion b at op tc)"
  unfolding code_conversion_def by (intro growing)

lemma grows_condition [growing]: "lext a b \<Longrightarrow> grows a (code_condition b tc)"
  unfolding code_condition_def by (intro growing)

lemma grows_check_expected [growing]:
  "growsp a (Some r) \<Longrightarrow> growsp a (check_expected sp r)" "growsp a q \<Longrightarrow> growsp a (Option.bind q (check_expected sp))"
  by (auto simp: check_expected_def growsp_def bind_Some_iff)

lemma grows_constant [growing]: "lext a b \<Longrightarrow> grows a (compile_constant cp b e c)"
  unfolding compile_constant_def by (intro growing)

lemma grows_floating_const [growing]: "lext a b \<Longrightarrow> grows a (compile_floating_const b e d f c)"
  unfolding compile_floating_const_def by (intro growing)

lemma grows_string_const [growing]: "lext a b \<Longrightarrow> grows a (compile_string_const b sc c)"
  unfolding compile_string_const_def by (intro growing) (simp_all)

lemma grows_funcname [growing]: "lext a b \<Longrightarrow> grows a (compile_funcname b name c)"
proof -
  assume "lext a b"
  moreover obtain d i where i: "ci_funcname_to_index b name = (d, i)" by fastforce
  ultimately have d: "lext a d" using lext_funcname by blast
  show ?thesis unfolding compile_funcname_def Let_def i prod.case
    using d \<open>lext a b\<close> by (intro growing) simp_all
qed

lemma grows_load_for_update [growing]: "lext a b \<Longrightarrow> grows a (code_load_for_update cp b t bf at)"
  unfolding code_load_for_update_def by (intro growing)

lemma grows_struct_arg [growing]:
  "lext a b \<Longrightarrow> grows a (code_struct_arg_call b n)" "lext a b \<Longrightarrow> grows a (code_struct_arg_push b at n)"
  unfolding code_struct_arg_call_def code_struct_arg_push_def by (intro growing; simp)+

lemma grows_checkargs [growing]: "lext a b \<Longrightarrow> grows a (code_checkargs f nargs argn b es)"
proof (induction es arbitrary: argn b)
  case (Cons e es)
  show ?case unfolding code_checkargs.simps
    by (intro growing Cons.IH) (simp_all add: Cons.prems)
qed (simp add: growing)

lemma grows_after_call [growing]: "lext a b \<Longrightarrow> grows a (code_after_call b sp tc c)"
  unfolding code_after_call_def by (intro growing; simp)

section \<open>The compiler only appends\<close>

definition cgrows :: "cparams \<Rightarrow> expr_t \<Rightarrow> bool" where
  "cgrows cp e \<longleftrightarrow> (\<forall>a b c. lext a b \<longrightarrow> growsp a (ci_compile_expression cp b e c))"

lemma cgrowsD: "cgrows cp e \<Longrightarrow> lext a b \<Longrightarrow> growsp a (ci_compile_expression cp b e c)"
  by (simp add: cgrows_def)

lemma cgrows_lext: "cgrows cp e \<Longrightarrow> text_ok b \<Longrightarrow> ci_compile_expression cp b e c = Some (b', at) \<Longrightarrow> lext b b'"
  using cgrowsD[OF _ lext_refl] by (fastforce simp: growsp_def)

lemmas cgrows_ext = lextD[OF cgrows_lext]

lemma grows_for_jump: "cgrows cp e \<Longrightarrow> lext a b \<Longrightarrow> grows a (compile_expr_for_jump cp b e)"
  unfolding compile_expr_for_jump.simps by (intro growing cgrowsD)

lemma no_label_before: "ext a b \<Longrightarrow> labeldesc_to_label b ld = None \<Longrightarrow> labeldesc_to_label a ld = None"
  unfolding ext_def by (metis option.exhaust)

lemma code_if_value_lext:
  "text_ok a \<Longrightarrow> (if c = EC_VALUE then ci_code_opcode a opc else Some a) = Some b \<Longrightarrow> lext a b"
  using grows_opcode[OF lext_refl] by (auto simp: grows_def lext_refl split: if_split_asm)

text \<open>The code of a logical expression: the first operand, a jump over the second to the end.\<close>

lemma logical_parts:
  assumes "cgrows cp l" and "cgrows cp r" and "text_ok b" and "compile_logical_expression cp b l r op c = Some t"
  obtains t1 t2 t3 ld i t4 t5 t6 where
    "compile_expr_for_jump cp b l = Some t1" and "(if c = EC_VALUE then ci_code_opcode t1 OC_DUP else Some t1) = Some t2"
    and "ci_code_jump_to_label t2 (if op = OP_LOGICAL_AND then OC_JUMP_IF_ZERO else OC_JUMP_IF_NON_ZERO) NO_LABELDESC = Some (t3, ld)"
    and "(if c = EC_VALUE then ci_code_opcode t3 OC_POP else Some t3) = Some t4"
    and "(if c = EC_VALUE then compile_expr_for_jump cp t4 r else do { (tx, _) \<leftarrow> ci_compile_expression cp t4 r c; Some tx }) = Some t5"
    and "(if c = EC_VALUE then ci_code_opcode t6 OC_CVT_TO_BOOL else Some t6) = Some t"
    and "ext b t1" and "ext t1 t2" and "ext t2 t3" and "ext t3 t4" and "ext t4 t5" and "ext t2 t6" and "ext t6 t"
    and "one_ref t3 ld i" and "tx_pc t2 \<le> i" and "i + 2 \<le> tx_pc t3" and "tx_pc t6 = tx_pc t5"
    and "cells t6 = overlay (cells t5) i (bytes_of 2 (branch_offset (tx_pc t5) i))" and "fits_short (branch_offset (tx_pc t5) i)"
    and "labeldesc_to_label t = labeldesc_to_label b"
proof -
  let ?v = "\<lambda>opc tx. if c = EC_VALUE then ci_code_opcode tx opc else Some tx"
  obtain t1 t2 t3 ld t4 t5 t6 where
    t1: "compile_expr_for_jump cp b l = Some t1" and t2: "?v OC_DUP t1 = Some t2"
    and t3: "ci_code_jump_to_label t2 (if op = OP_LOGICAL_AND then OC_JUMP_IF_ZERO else OC_JUMP_IF_NON_ZERO) NO_LABELDESC = Some (t3, ld)"
    and t4: "?v OC_POP t3 = Some t4"
    and t5: "(if c = EC_VALUE then compile_expr_for_jump cp t4 r
             else do { (tx, _) \<leftarrow> ci_compile_expression cp t4 r c; Some tx }) = Some t5"
    and t6: "ci_resolve_and_free_label t5 ld = Some t6" and t7: "?v OC_CVT_TO_BOOL t6 = Some t"
    using assms(4) unfolding compile_logical_expression.simps Let_def bind_Some_iff split_paired_Ex prod.case by blast
  have s1: "lext b t1" using grows_for_jump[OF assms(1) lext_refl[OF assms(3)]] t1 by (simp add: grows_def)
  note e1 = lextD[OF s1]
  note s2 = code_if_value_lext[OF ext_ok[OF e1] t2] and e2 = lextD[OF code_if_value_lext[OF ext_ok[OF e1] t2]]
  obtain i where j: "ext t2 t3" "labeldesc_to_label t2 ld = None" "one_ref t3 ld i" "tx_pc t2 \<le> i" "i + 2 \<le> tx_pc t3"
    using jump_to_new_label(1)[OF ext_ok[OF e2] t3] by blast
  note s4 = code_if_value_lext[OF ext_ok[OF j(1)] t4] and e4 = lextD[OF code_if_value_lext[OF ext_ok[OF j(1)] t4]]
  have "grows t4 (if c = EC_VALUE then compile_expr_for_jump cp t4 r
             else do { (tx, _) \<leftarrow> ci_compile_expression cp t4 r c; Some tx })"
    using assms(2) lext_refl[OF ext_ok[OF e4]] by (intro growing grows_for_jump cgrowsD)
  with t5 have s5: "lext t4 t5" by (simp add: grows_def)
  note e5 = lextD[OF s5]
  note e35 = ext_trans[OF e4 e5] and one = one_ref_ext[OF j(3) ext_trans[OF e4 e5]]
  have i5: "i + 2 \<le> tx_pc t5" using j(5) e35 by (simp add: ext_def)
  have e6: "ext t2 t6" using resolve_ext[OF ext_trans[OF j(1) e35] one j(2) j(4) i5 t6] .
  have "cells t5 (i + 1) \<noteq> None" using ext_trans[OF j(1) e35] j(4) i5 by (auto simp: ext_def)
  note r6 = resolve_one_ref[OF ext_ok[OF e5] one this t6]
  note s7 = code_if_value_lext[OF ext_ok[OF e6] t7]
  have "labeldesc_to_label t6 k = labeldesc_to_label t2 k" for k
    using r6(6,8) j(2) jump_to_new_label(3)[OF ext_ok[OF e2] t3, of k] s4 s5 by (cases "k = ld") (simp_all add: lext_def)
  with s1 s2 s7 have l: "labeldesc_to_label t = labeldesc_to_label b" by (simp add: lext_def fun_eq_iff)
  show ?thesis using that[OF t1 t2 t3 t4 t5 t7 e1 e2 j(1) e4 e5 e6 lextD[OF s7] j(3-5) r6(1-3) l] .
qed

lemma grows_logical:
  assumes "cgrows cp l" and "cgrows cp r" and "lext a b"
  shows "grows a (compile_logical_expression cp b l r op c)"
  unfolding grows_def
proof (intro allI impI)
  fix t assume "compile_logical_expression cp b l r op c = Some t"
  then have "ext b t" and "labeldesc_to_label t = labeldesc_to_label b"
    using logical_parts[OF assms(1,2) lext_ok[OF assms(3)]] by (metis ext_trans)+
  then have "lext b t" by (simp add: lext_def)
  with assms(3) show "lext a t" by (rule lext_trans)
qed

text \<open>The code of a conditional expression: the condition, a jump to the second alternative, the first one, a
  jump to the end, and the second one.\<close>

lemma conditional_parts:
  assumes "cgrows cp q" and "cgrows cp l" and "cgrows cp r" and "text_ok b" and "compile_conditional_expr cp b q l r c = Some (t, at)"
  obtains t1 t2 fl i t3 la t4 el j t5 t6 ra where
    "compile_expr_for_jump cp b q = Some t1" and "ci_code_jump_to_label t1 OC_JUMP_IF_ZERO NO_LABELDESC = Some (t2, fl)"
    and "ci_compile_expression cp t2 l c = Some (t3, la)" and "ci_code_jump_to_label t3 OC_JUMP NO_LABELDESC = Some (t4, el)"
    and "ci_compile_expression cp t5 r c = Some (t6, ra)"
    and "ext b t1" and "ext t1 t2" and "ext t2 t3" and "ext t3 t4" and "ext t1 t5" and "ext t5 t6" and "ext t1 t"
    and "one_ref t2 fl i" and "tx_pc t1 \<le> i" and "i + 2 \<le> tx_pc t2" and "one_ref t4 el j" and "tx_pc t3 \<le> j" and "j + 2 \<le> tx_pc t4"
    and "tx_pc t5 = tx_pc t4" and "tx_pc t = tx_pc t6"
    and "cells t5 = overlay (cells t4) i (bytes_of 2 (branch_offset (tx_pc t4) i))" and "fits_short (branch_offset (tx_pc t4) i)"
    and "cells t = overlay (cells t6) j (bytes_of 2 (branch_offset (tx_pc t6) j))" and "fits_short (branch_offset (tx_pc t6) j)"
    and "labeldesc_to_label t = labeldesc_to_label b"
proof -
  obtain t1 t2 fl t3 la t4 el t5 t6 ra where
    t1: "compile_expr_for_jump cp b q = Some t1"
    and t2: "ci_code_jump_to_label t1 OC_JUMP_IF_ZERO NO_LABELDESC = Some (t2, fl)"
    and t3: "ci_compile_expression cp t2 l c = Some (t3, la)"
    and t4: "ci_code_jump_to_label t3 OC_JUMP NO_LABELDESC = Some (t4, el)"
    and t5: "ci_resolve_and_free_label (t4\<lparr>tx_sp := tx_sp t2\<rparr>) fl = Some t5"
    and t6: "ci_compile_expression cp t5 r c = Some (t6, ra)" and t7: "ci_resolve_and_free_label t6 el = Some t"
    using assms(5) unfolding compile_conditional_expr.simps Let_def bind_Some_iff split_paired_Ex prod.case option.inject prod.inject by blast
  let ?t4 = "t4\<lparr>tx_sp := tx_sp t2\<rparr>"
  have s1: "lext b t1" using grows_for_jump[OF assms(1) lext_refl[OF assms(4)]] t1 by (simp add: grows_def)
  note e1 = lextD[OF s1]
  obtain i where i: "ext t1 t2" "labeldesc_to_label t1 fl = None" "one_ref t2 fl i" "tx_pc t1 \<le> i" "i + 2 \<le> tx_pc t2"
    using jump_to_new_label(1)[OF ext_ok[OF e1] t2] by blast
  have e3: "ext t2 t3" using cgrows_ext[OF assms(2) ext_ok[OF i(1)] t3] .
  obtain j where j: "ext t3 t4" "labeldesc_to_label t3 el = None" "one_ref t4 el j" "tx_pc t3 \<le> j" "j + 2 \<le> tx_pc t4"
    using jump_to_new_label(1)[OF ext_ok[OF e3] t4] by blast
  have e24: "ext t2 ?t4" and e14: "ext t1 ?t4" using ext_trans[OF e3 j(1)] ext_trans[OF i(1) ext_trans[OF e3 j(1)]] by simp_all
  have one: "one_ref ?t4 fl i" "one_ref ?t4 el j" "i + 2 \<le> tx_pc ?t4"
    using one_ref_ext[OF i(3) e24] j(3) i(5) e24 by (simp_all add: one_ref_def labeldesc_to_label_def ext_def)
  have e5: "ext t1 t5" using resolve_ext[OF e14 one(1) i(2,4) one(3) t5] .
  have ne: "el \<noteq> fl" using j(2) one_ref_ext[OF i(3) e3] by (auto simp: one_ref_def)
  have w: "cells ?t4 (i + 1) \<noteq> None" using e14 i(4) one(3) by (auto simp: ext_def)
  note r5 = resolve_one_ref[OF ext_ok[OF e14] one(1) w t5, simplified]
  have one5: "one_ref t5 el j" "j + 2 \<le> tx_pc t5"
    using one(2) resolve_one_ref(6)[OF ext_ok[OF e14] one(1) w t5 ne] j(5) r5(1) by (simp_all add: one_ref_def)
  have e6: "ext t5 t6" using cgrows_ext[OF assms(3) ext_ok[OF e5] t6] .
  have j6: "tx_pc t1 \<le> j" "j + 2 \<le> tx_pc t6" using i(1) e3 j(4) one5(2) e6 by (simp_all add: ext_def)
  note one6 = one_ref_ext[OF one5(1) e6] and e16 = ext_trans[OF e5 e6]
  have "labeldesc_to_label t1 el = None" using no_label_before[OF ext_trans[OF i(1) e3] j(2)] .
  from resolve_ext[OF e16 one6 this j6 t7] have e: "ext t1 t" .
  have "cells t6 (j + 1) \<noteq> None" using e16 j6 by (auto simp: ext_def)
  note r7 = resolve_one_ref[OF ext_ok[OF e6] one6 this t7]
  have l5: "labeldesc_to_label t5 k = labeldesc_to_label t4 k" if "k \<noteq> fl" for k
    using resolve_one_ref(6)[OF ext_ok[OF e14] one(1) w t5 that] by simp
  have n5: "labeldesc_to_label t5 fl = None" using resolve_one_ref(8)[OF ext_ok[OF e14] one(1) w t5] .
  have s3: "labeldesc_to_label t3 = labeldesc_to_label t2" "labeldesc_to_label t6 = labeldesc_to_label t5"
    using cgrows_lext[OF assms(2) ext_ok[OF i(1)] t3] cgrows_lext[OF assms(3) ext_ok[OF e5] t6] by (simp_all add: lext_def)
  note j2 = jump_to_new_label(3)[OF ext_ok[OF e1] t2] and j4 = jump_to_new_label(3)[OF ext_ok[OF e3] t4]
  have "labeldesc_to_label t k = labeldesc_to_label t1 k" for k
  proof -
    consider "k = el" | "k = fl" | "k \<noteq> el" "k \<noteq> fl" by blast
    then show ?thesis
    proof cases
      case 1
      with r7(8) \<open>labeldesc_to_label t1 el = None\<close> show ?thesis by simp
    next
      case 2
      with r7(6)[of fl] ne s3 n5 i(2) show ?thesis by simp
    next
      case 3
      with r7(6)[of k] s3 l5[of k] j4[of k] j2[of k] show ?thesis by simp
    qed
  qed
  with s1 have l: "labeldesc_to_label t = labeldesc_to_label b" by (simp add: lext_def fun_eq_iff)
  show ?thesis using that[OF t1 t2 t3 t4 t6 e1 i(1) e3 j(1) e5 e6 e i(3-5) j(3-5) r5(1) r7(1) r5(2,3) r7(2,3) l] .
qed

lemma grows_conditional:
  assumes "cgrows cp q" and "cgrows cp l" and "cgrows cp r" and "lext a b"
  shows "growsp a (compile_conditional_expr cp b q l r c)"
  unfolding growsp_def
proof (intro allI impI)
  fix t at assume "compile_conditional_expr cp b q l r c = Some (t, at)"
  then have "ext b t" and "labeldesc_to_label t = labeldesc_to_label b"
    using conditional_parts[OF assms(1-3) lext_ok[OF assms(4)]] by (metis ext_trans)+
  then have "lext b t" by (simp add: lext_def)
  with assms(4) show "lext a t" by (rule lext_trans)
qed

lemma grows_binary:
  assumes "cgrows cp l" and "cgrows cp r" and "cgrows cp (strip_promotions l)" and "lext a b"
  shows "growsp a (compile_binary_expr cp b op l r c)"
  unfolding compile_binary_expr.simps
  by (intro growing cgrowsD[OF assms(1)] cgrowsD[OF assms(2)] cgrowsD[OF assms(3)] grows_logical[OF assms(1,2)] assms(4);
      (simp split: ekind.split, (intro growing conjI allI impI)?)?)

declare compile_conversion.simps [simp del] compile_expr_for_jump.simps [simp del] compile_logical_expression.simps [simp del]
  compile_scale_expr.simps [simp del] compile_conditional_expr.simps [simp del] compile_binary_expr.simps [simp del]
  compile_unary_expr.simps [simp del] compile_dot_expr.simps [simp del] compile_multi_arrow_expr.simps [simp del]
  compile_args.simps(2) [simp del] compile_func_call_expr.simps [simp del]

lemma grows_unary: "cgrows cp e \<Longrightarrow> lext a b \<Longrightarrow> growsp a (compile_unary_expr cp b op e c)"
  unfolding compile_unary_expr.simps by (intro growing cgrowsD)

lemma grows_dot: "cgrows cp e \<Longrightarrow> lext a b \<Longrightarrow> growsp a (compile_dot_expr cp b e v c)"
  unfolding compile_dot_expr.simps by (intro growing cgrowsD)

lemma grows_multi_arrow: "cgrows cp i \<Longrightarrow> cgrows cp e \<Longrightarrow> lext a b \<Longrightarrow> growsp a (compile_multi_arrow_expr cp b i e v c)"
  unfolding compile_multi_arrow_expr.simps by (intro growing cgrowsD)

lemma grows_scale: "cgrows cp e \<Longrightarrow> lext a b \<Longrightarrow> grows a (compile_scale_expr cp b op e k c)"
  unfolding compile_scale_expr.simps by (intro growing cgrowsD)

lemma grows_compile_conversion: "cgrows cp e \<Longrightarrow> lext a b \<Longrightarrow> growsp a (compile_conversion cp b op e c)"
  unfolding compile_conversion.simps by (intro growing cgrowsD)

lemma grows_args: "(\<And>e. e \<in> set es \<Longrightarrow> cgrows cp e) \<Longrightarrow> lext a b \<Longrightarrow> growsp a (compile_args cp b es)"
proof (induction es)
  case (Cons e es)
  have "growsp a (compile_args cp b es)" using Cons by simp
  moreover have e: "cgrows cp e" using Cons.prems by simp
  ultimately show ?case unfolding compile_args.simps
    by (intro growing cgrowsD[OF e]; (simp split: ekind.split, (intro growing cgrowsD[OF e] conjI allI impI)?)?)
qed (simp add: growing)

lemma grows_func_call:
  assumes "cgrows cp f" and "\<And>e. e \<in> set es \<Longrightarrow> cgrows cp e" and "lext a b"
  shows "grows a (compile_func_call_expr cp b f es tc c)"
proof -
  obtain t i d where t: "(case ex_kind f of ET_FUNCNAME name \<Rightarrow> (case ci_funcname_to_index b name of (tx, i) \<Rightarrow> (tx, i, True))
      | _ \<Rightarrow> (b, 0, False)) = (t, i, d)" using prod_cases3 by blast
  have e: "lext a t" using t assms(3) by (auto simp: lext_funcname split: ekind.split_asm prod.split_asm)
  show ?thesis unfolding compile_func_call_expr.simps t Let_def prod.case
    by (intro growing cgrowsD[OF assms(1)] grows_args[OF assms(2)] e) (simp split: option.split add: growing e)
qed

lemma size_in_args: "e \<in> set es \<Longrightarrow> size e \<le> size_list size es"
  by (simp add: size_list_estimation')

lemma grows_kind:
  assumes "\<And>x. size x < size e \<Longrightarrow> cgrows cp x" and "lext a b"
  shows "growsp a (compile_kind cp b e c)"
proof -
  obtain t k kd where e: "e = Expr t k kd" by (cases e)
  note i = grows_binary grows_unary grows_dot grows_multi_arrow grows_scale grows_compile_conversion grows_conditional grows_func_call
  have s: "size (strip_promotions l) < size e" if "kd = ET_BINARY op l r" for op l r
    using size_strip_promotions[of l] that e by simp
  show ?thesis
  proof (cases kd)
    case (ET_FUNC_CALL f es)
    have x: "size x < size (Expr t k (ET_FUNC_CALL f es))" if "x \<in> set es" for x using size_in_args[OF that] by simp
    show ?thesis unfolding e ET_FUNC_CALL compile_kind.simps
      using x by (intro growing grows_func_call assms) (simp_all add: e ET_FUNC_CALL)
  next
    case (ET_BINARY op l r)
    show ?thesis unfolding e ET_BINARY compile_kind.simps
      using s[OF ET_BINARY] by (intro grows_binary assms) (simp_all add: e ET_BINARY)
  qed (simp_all add: e growing assms i)
qed

lemma compiler_grows: "cgrows cp e"
proof (induction e rule: measure_induct_rule[of size])
  case (less e)
  have "growsp a (compile_kind cp b e c)" if "lext a b" for a b c using grows_kind[OF less that] .
  then show ?case unfolding cgrows_def ci_compile_expression.simps by (intro allI impI growing)
qed

lemmas compile_lext = cgrows_lext[OF compiler_grows]
lemmas compile_ext = cgrows_ext[OF compiler_grows]

text \<open>C4.  The expression compiler only appends.  Whatever expression is compiled in whatever context, if the compiler does
  not give up then the buffer is consistent, all the code that was in it before is still there
  unchanged, every byte from the old position to the new one has been written, and exactly the labels
  that were in use before are in use after, with the references they had: every label the expression
  needed has been resolved.\<close>

theorem compiler_only_appends:
  assumes "text_ok tx" and "ci_compile_expression cp tx e context = Some (tx', addrtype)"
  shows "text_ok tx' \<and> tx_pc tx \<le> tx_pc tx' \<and> (\<forall>i < tx_pc tx. cells tx' i = cells tx i)
    \<and> (\<forall>i. tx_pc tx \<le> i \<and> i < tx_pc tx' \<longrightarrow> cells tx' i \<noteq> None)
    \<and> (\<forall>ld. labeldesc_to_label tx' ld = labeldesc_to_label tx ld)"
  using compile_lext[OF assms] by (simp add: lext_def ext_def)

end
