(* ===== verification/Ups_Compile_Sem.thy ===== *)
theory Ups_Compile_Sem
  imports Ups_Compile_Props Ups_Exec_Props
begin

text \<open>
  The expression compiler against the machine.  The first part says what an integer expression without side
  effects means, as a function of memory and the frame pointer; the second that the machine, run on the
  code that \<open>ci_compile_expression\<close> wrote, pushes that value.  \<open>runs_right\<close> is the induction statement,
  and there is one lemma for each kind of expression.
\<close>

section \<open>Integer expressions\<close>

text \<open>The types whose values are one stack word.\<close>

definition word_type :: "typecode_t \<Rightarrow> bool" where
  "word_type tc \<longleftrightarrow> tc \<in> {TY_CHAR, TY_UCHAR, TY_SHORT, TY_USHORT, TY_INT, TY_UINT, TY_LONG, TY_ULONG, TY_ENUM, DT_PTR_TO}"

definition signed_type :: "typecode_t \<Rightarrow> bool" where
  "signed_type tc \<longleftrightarrow> tc \<in> {TY_CHAR, TY_SHORT, TY_INT, TY_LONG, TY_ENUM}"

definition int_cvt :: "optype_t \<Rightarrow> bool" where
  "int_cvt op \<longleftrightarrow> op \<in> {OP_CVT_TO_PTR, OP_CVT_TO_LONG, OP_CVT_TO_ULONG, OP_CVT_TO_INT, OP_CVT_TO_UINT,
     OP_CVT_TO_SHORT, OP_CVT_TO_USHORT, OP_CVT_TO_CHAR, OP_CVT_TO_UCHAR}"

definition word_expr :: "expr_t \<Rightarrow> bool" where
  "word_expr e \<longleftrightarrow> (case ty e of None \<Rightarrow> False | Some tc \<Rightarrow> word_type tc)"

definition local_var :: "var_t \<Rightarrow> bool" where
  "local_var v \<longleftrightarrow> va_is_ci_var v \<and> IS_LOCAL_CLASS (va_class v) \<and> word_type (ty_code (va_type v))
     \<and> (ty_code (va_type v) \<in> {TY_CHAR, TY_UCHAR, TY_SHORT, TY_USHORT} \<or> ty_size (va_type v) \<in> {4, 8})"

text \<open>Integer expressions without side effects: constants, local variables, conversions between integer
  types, scaling of pointer offsets, and all the operators on them.\<close>

fun pure_expr :: "expr_t \<Rightarrow> bool" where
  "pure_expr (Expr t c k) \<longleftrightarrow> word_expr (Expr t c k) \<and> (is_folded (Expr t c k) = Some True \<or>
     (case k of
        ET_VAR v \<Rightarrow> local_var v
      | ET_PROMOTION op e \<Rightarrow> int_cvt op \<and> pure_expr e
      | ET_CAST op e \<Rightarrow> int_cvt op \<and> pure_expr e
      | ET_ASSIGNMENT_CONVERSION op e \<Rightarrow> int_cvt op \<and> pure_expr e
      | ET_SCALE op e n \<Rightarrow> op \<in> {OP_MUL, OP_DIV} \<and> pure_expr e
      | ET_UNARY op e \<Rightarrow> op \<in> {OP_UNARY_MINUS, OP_UNARY_PLUS, OP_BITWISE_NOT, OP_LOGICAL_NOT} \<and> pure_expr e
      | ET_BINARY op l r \<Rightarrow> (value_op op \<or> relational_op op \<or> op = OP_LOGICAL_AND \<or> op = OP_LOGICAL_OR) \<and> pure_expr l \<and> pure_expr r
      | ET_CONDITIONAL b l r \<Rightarrow> pure_expr b \<and> pure_expr l \<and> pure_expr r
      | _ \<Rightarrow> False))"

section \<open>What an expression means\<close>

text \<open>The value of \<open>a op b\<close> where the operands are signed or not; \<open>None\<close> where it has none: signed overflow of
  a product, division by zero, an overflowing quotient, and a shift by 64 or more.  Remainders and
  right shifts are those of unsigned numbers.\<close>

definition binop_value :: "bool \<Rightarrow> optype_t \<Rightarrow> word64 \<Rightarrow> word64 \<Rightarrow> word64 option" where
  "binop_value is_signed op a b =
     (case op of
        OP_PLUS \<Rightarrow> Some (a + b)
      | OP_MINUS \<Rightarrow> Some (a - b)
      | OP_MUL \<Rightarrow> if is_signed \<and> \<not> fits_long (sint a * sint b) then None else Some (a * b)
      | OP_DIV \<Rightarrow> if b = 0 \<or> is_signed \<and> \<not> fits_long (c_quot (sint a) (sint b)) then None
                  else Some (if is_signed then word_of_int (c_quot (sint a) (sint b)) else a div b)
      | OP_MOD \<Rightarrow> if b = 0 then None else Some (a mod b)
      | OP_BITWISE_AND \<Rightarrow> Some (a AND b)
      | OP_BITWISE_OR \<Rightarrow> Some (a OR b)
      | OP_BITWISE_XOR \<Rightarrow> Some (a XOR b)
      | OP_LSHIFT \<Rightarrow> if b < 64 then Some (push_bit (unat b) a) else None
      | OP_RSHIFT \<Rightarrow> if b < 64 then Some (drop_bit (unat b) a) else None
      | OP_IS_EQUAL \<Rightarrow> Some (of_bool (a = b))
      | OP_NOT_EQUAL \<Rightarrow> Some (of_bool (a \<noteq> b))
      | OP_LESS \<Rightarrow> Some (of_bool (if is_signed then sint a < sint b else a < b))
      | OP_GREATER \<Rightarrow> Some (of_bool (if is_signed then sint b < sint a else b < a))
      | OP_LESS_OR_EQUAL \<Rightarrow> Some (of_bool (if is_signed then sint a \<le> sint b else a \<le> b))
      | OP_GREATER_OR_EQUAL \<Rightarrow> Some (of_bool (if is_signed then sint b \<le> sint a else b \<le> a))
      | _ \<Rightarrow> None)"

definition unop_value :: "optype_t \<Rightarrow> word64 \<Rightarrow> word64" where
  "unop_value op a = (if op = OP_UNARY_MINUS then - a else if op = OP_BITWISE_NOT then NOT a
     else if op = OP_LOGICAL_NOT then of_bool (a = 0) else a)"

text \<open>The value of a local variable; everything wider than a \<open>short\<close> takes a whole stack word.\<close>

definition var_value :: "mem \<Rightarrow> addr \<Rightarrow> var_t \<Rightarrow> word64 option" where
  "var_value m fp v =
     (let a = fp + va_addr v; tc = ty_code (va_type v) in
      if tc = TY_CHAR then rd_sword 1 m a else if tc = TY_UCHAR then rd_word 1 m a
      else if tc = TY_SHORT then rd_sword 2 m a else if tc = TY_USHORT then rd_word 2 m a
      else rd_word 8 m a)"

definition expr_signed :: "expr_t \<Rightarrow> bool" where
  "expr_signed e = (case ty e of None \<Rightarrow> False | Some tc \<Rightarrow> signed_type tc)"

fun eval :: "cparams \<Rightarrow> mem \<Rightarrow> addr \<Rightarrow> expr_t \<Rightarrow> word64 option" where
  "eval cp m fp (Expr t c k) =
     (if is_folded (Expr t c k) = Some True then map_option (signed_take_bit 31) (cp_evalconst cp (Expr t c k))
      else case k of
        ET_VAR v \<Rightarrow> var_value m fp v
      | ET_PROMOTION op e \<Rightarrow> eval cp m fp e
      | ET_CAST op e \<Rightarrow> eval cp m fp e
      | ET_ASSIGNMENT_CONVERSION op e \<Rightarrow> eval cp m fp e
      | ET_SCALE op e n \<Rightarrow> do { a \<leftarrow> eval cp m fp e; binop_value (expr_signed e) op a n }
      | ET_UNARY op e \<Rightarrow> map_option (unop_value op) (eval cp m fp e)
      | ET_BINARY op l r \<Rightarrow>
          (if op = OP_LOGICAL_AND then do {
             a \<leftarrow> eval cp m fp l;
             if a = 0 then Some 0 else map_option (\<lambda>b. of_bool (b \<noteq> 0)) (eval cp m fp r) }
           else if op = OP_LOGICAL_OR then do {
             a \<leftarrow> eval cp m fp l;
             if a \<noteq> 0 then Some 1 else map_option (\<lambda>b. of_bool (b \<noteq> 0)) (eval cp m fp r) }
           else do { a \<leftarrow> eval cp m fp l; b \<leftarrow> eval cp m fp r; binop_value (expr_signed l) op a b })
      | ET_CONDITIONAL b l r \<Rightarrow> do { a \<leftarrow> eval cp m fp b; if a \<noteq> 0 then eval cp m fp l else eval cp m fp r }
      | _ \<Rightarrow> None)"

text \<open>The number of stack words its evaluation takes, and the variables it looks at.\<close>

fun need :: "expr_t \<Rightarrow> nat" where
  "need (Expr t c k) =
     (if is_folded (Expr t c k) = Some True then 1
      else case k of
        ET_PROMOTION op e \<Rightarrow> need e
      | ET_CAST op e \<Rightarrow> need e
      | ET_ASSIGNMENT_CONVERSION op e \<Rightarrow> need e
      | ET_SCALE op e n \<Rightarrow> max (need e) 2
      | ET_UNARY op e \<Rightarrow> need e
      | ET_BINARY op l r \<Rightarrow>
          (if op = OP_LOGICAL_AND \<or> op = OP_LOGICAL_OR then Max {need l, 2, need r} else max (need l) (Suc (need r)))
      | ET_CONDITIONAL b l r \<Rightarrow> Max {need b, need l, need r}
      | _ \<Rightarrow> 1)"

fun vars_of :: "expr_t \<Rightarrow> var_t list" where
  "vars_of (Expr t c k) =
     (if is_folded (Expr t c k) = Some True then []
      else case k of
        ET_VAR v \<Rightarrow> [v]
      | ET_PROMOTION op e \<Rightarrow> vars_of e
      | ET_CAST op e \<Rightarrow> vars_of e
      | ET_ASSIGNMENT_CONVERSION op e \<Rightarrow> vars_of e
      | ET_SCALE op e n \<Rightarrow> vars_of e
      | ET_UNARY op e \<Rightarrow> vars_of e
      | ET_BINARY op l r \<Rightarrow> vars_of l @ vars_of r
      | ET_CONDITIONAL b l r \<Rightarrow> vars_of b @ vars_of l @ vars_of r
      | _ \<Rightarrow> [])"

section \<open>Pieces of a run\<close>

text \<open>The \<open>n\<close> words below the stack pointer.\<close>

definition stack_bytes :: "addr \<Rightarrow> nat \<Rightarrow> addr set" where
  "stack_bytes sp n = region (sp - of_nat (8 * n)) (8 * n)"

lemma stack_bytes_iff: "8 * n \<le> unat sp \<Longrightarrow> x \<in> stack_bytes sp n \<longleftrightarrow> unat sp - 8 * n \<le> unat x \<and> unat x < unat sp"
  using stack_region[of "8 * n" sp x] by (simp add: stack_bytes_def)

lemma stack_bytes_sub:
  assumes "8 * n \<le> unat sp" and "k + j \<le> n"
  shows "stack_bytes (sp - of_nat (8 * k)) j \<subseteq> stack_bytes sp n"
proof -
  have "unat (sp - of_nat (8 * k)) = unat sp - 8 * k" using unat_minus_no_wrap[of "8 * k" sp] assms by simp
  then show ?thesis using assms by (auto simp: stack_bytes_iff)
qed

text \<open>\<open>keeps R s s'\<close>: nothing but the bytes in \<open>R\<close>, the position, the stack pointer, the scratch variables and the opcode
  counts may be different.\<close>

definition keeps :: "addr set \<Rightarrow> 'w mstate \<Rightarrow> 'w mstate \<Rightarrow> bool" where
  "keeps R s s' \<longleftrightarrow> x_fp s' = x_fp s \<and> x_cf s' = x_cf s \<and> x_cfs s' = x_cfs s \<and> x_retval s' = x_retval s
     \<and> x_stopres s' = x_stopres s \<and> x_world s' = x_world s \<and> dom (x_mem s') = dom (x_mem s)
     \<and> (\<forall>x. x \<notin> R \<longrightarrow> x_mem s' x = x_mem s x)"

lemma keeps_refl: "keeps R s s" by (simp add: keeps_def)

lemma keeps_trans: "keeps R s s' \<Longrightarrow> keeps R s' s'' \<Longrightarrow> keeps R s s''" by (simp add: keeps_def)

lemma keeps_mono: "keeps R s s' \<Longrightarrow> R \<subseteq> Q \<Longrightarrow> keeps Q s s'" by (auto simp: keeps_def)

definition top_is :: "word64 \<Rightarrow> 'w mstate \<Rightarrow> bool" where
  "top_is v s \<longleftrightarrow> rd_word 8 (x_mem s) (x_sp s) = Some v"

text \<open>From \<open>s\<close> the machine gets to position \<open>pc\<close> with \<open>v\<close> pushed, using at most \<open>n\<close> words of stack.\<close>

definition pushes :: "'w env \<Rightarrow> nat \<Rightarrow> word64 \<Rightarrow> addr \<Rightarrow> 'w mstate \<Rightarrow> 'w mstate \<Rightarrow> bool" where
  "pushes e n v pc s s' \<longleftrightarrow> steps e s s' \<and> x_pc s' = pc \<and> x_sp s' = x_sp s - 8 \<and> top_is v s'
     \<and> keeps (stack_bytes (x_sp s) n) s s'"

text \<open>The code from \<open>lo\<close> to \<open>hi\<close> is in memory, out of the way of \<open>n\<close> words of stack, which can be written.\<close>

definition code_ready :: "(nat \<Rightarrow> byte option) \<Rightarrow> addr \<Rightarrow> nat \<Rightarrow> nat \<Rightarrow> nat \<Rightarrow> 'w mstate \<Rightarrow> bool" where
  "code_ready f base lo hi n s \<longleftrightarrow> stack_space s (8 * n) \<and>
     (\<forall>i. lo \<le> i \<and> i < hi \<longrightarrow> f i \<noteq> None \<and> x_mem s (base + of_nat i) = f i \<and> base + of_nat i \<notin> stack_bytes (x_sp s) n)"

lemma code_ready_part:
  assumes "code_ready f base lo hi n s" and "lo \<le> lo'" and "hi' \<le> hi" and "\<And>i. lo' \<le> i \<Longrightarrow> i < hi' \<Longrightarrow> g i = f i"
  shows "code_ready g base lo' hi' n s"
  using assms by (simp add: code_ready_def)

lemma code_ready_mono:
  assumes "code_ready f base lo hi n s" and "k \<le> n"
  shows "code_ready f base lo hi k s"
proof -
  have "stack_bytes (x_sp s) k \<subseteq> stack_bytes (x_sp s) n"
    using stack_bytes_sub[of n "x_sp s" 0 k] assms by (simp add: code_ready_def stack_space_def)
  moreover have "stack_space s (8 * k)" using assms stack_space_mono[of s "8 * n" "8 * k"] by (simp add: code_ready_def)
  ultimately show ?thesis using assms by (auto simp: code_ready_def)
qed

lemma code_ready_after:
  assumes "code_ready f base lo hi n s" and "keeps (stack_bytes (x_sp s) n) s s'" and "x_sp s' = x_sp s - of_nat (8 * k)" and "k + j \<le> n"
  shows "code_ready f base lo hi j s'" and "stack_bytes (x_sp s') j \<subseteq> stack_bytes (x_sp s) n"
proof -
  have n: "8 * n \<le> unat (x_sp s)" "region (x_sp s - of_nat (8 * n)) (8 * n) \<subseteq> dom (x_mem s)"
    using assms(1) by (simp_all add: code_ready_def stack_space_def)
  show sub: "stack_bytes (x_sp s') j \<subseteq> stack_bytes (x_sp s) n" using stack_bytes_sub[OF n(1) assms(4)] assms(3) by simp
  have "unat (x_sp s') = unat (x_sp s) - 8 * k" using unat_minus_no_wrap[of "8 * k" "x_sp s"] n(1) assms(3,4) by simp
  moreover have "stack_bytes (x_sp s') j \<subseteq> dom (x_mem s')" using sub n(2) assms(2) by (auto simp: keeps_def stack_bytes_def)
  ultimately have "stack_space s' (8 * j)" using n(1) assms(4) by (simp add: stack_space_def stack_bytes_def)
  with sub show "code_ready f base lo hi j s'" using assms(1,2) by (auto simp: code_ready_def keeps_def)
qed

lemma code_ready_at:
  assumes "code_ready f base lo hi n s" and "emits tx bs tx'" and "\<And>i. tx_pc tx \<le> i \<Longrightarrow> i < tx_pc tx' \<Longrightarrow> cells tx' i = f i"
    and "lo \<le> tx_pc tx" and "tx_pc tx' \<le> hi"
  shows "code_at (x_mem s) (base + of_nat (tx_pc tx)) bs"
  unfolding code_at_pointwise
proof (intro allI impI)
  fix i assume i: "i < length bs"
  let ?j = "tx_pc tx + i"
  have j: "lo \<le> ?j" "?j < hi" "tx_pc tx \<le> ?j" "?j < tx_pc tx'" using assms(2,4,5) i by (simp_all add: emits_def)
  have "cells tx' ?j = Some (bs ! i)" using assms(2) i by (simp add: emits_def overlay_inside)
  moreover have "x_mem s (base + of_nat ?j) = f ?j" using assms(1) j(1,2) unfolding code_ready_def by blast
  ultimately have "x_mem s (base + of_nat ?j) = Some (bs ! i)" using assms(3) j(3,4) by simp
  then show "x_mem s (base + of_nat (tx_pc tx) + of_nat i) = Some (bs ! i)" by (simp add: algebra_simps)
qed

section \<open>Single instructions\<close>

lemma stack_top_word: "8 \<le> unat (sp :: addr) \<Longrightarrow> region (sp - 8) 8 = stack_bytes sp 1"
  by (simp add: stack_bytes_def)

lemma push_keeps:
  assumes "stack_space s 8"
  shows "\<exists>s'. push v s = Some s' \<and> x_sp s' = x_sp s - 8 \<and> x_pc s' = x_pc s \<and> top_is v s' \<and> keeps (stack_bytes (x_sp s) 1) s s'"
proof -
  obtain m where m: "wr_word 8 (x_mem s) (x_sp s - 8) v = Some m" "push v s = Some (s\<lparr>x_mem := m, x_sp := x_sp s - 8\<rparr>)"
    using push_total[OF assms] by auto
  have "m x = x_mem s x" if "x \<notin> stack_bytes (x_sp s) 1" for x
    using that wr_bytes_other[of "x_mem s" "x_sp s - 8" "bytes_of 8 v" m x] m(1) by (simp add: stack_bytes_def wr_word_def)
  with m show ?thesis by (auto simp: top_is_def keeps_def rd_word_same_8 wr_word_dom)
qed

lemma rd_word_mapped: "rd_word n m a = Some w \<Longrightarrow> region a n \<subseteq> dom m"
  using rd_word_defined[of n m a] by simp

lemma unop_step:
  assumes "code_at (x_mem s) (x_pc s) (opcode_bytes opc)" and "\<And>s :: 'w mstate. exec e opc s = exec_word_unop f s" and "top_is a s"
  shows "\<exists>s'. step e (s :: 'w mstate) = Some (Next s') \<and> x_pc s' = x_pc s + 2 \<and> x_sp s' = x_sp s \<and> top_is (f a) s' \<and> keeps (region (x_sp s) 8) s s'"
proof -
  have "region (x_sp s) 8 \<subseteq> dom (x_mem s)" using assms(3) rd_word_mapped by (simp add: top_is_def)
  then obtain m where m: "wr_word 8 (x_mem s) (x_sp s) (f a) = Some m" using wr_word_defined by blast
  have "m x = x_mem s x" if "x \<notin> region (x_sp s) 8" for x
    using that wr_bytes_other[of "x_mem s" "x_sp s" "bytes_of 8 (f a)" m x] m by (simp add: wr_word_def)
  moreover have "step e s = Some (Next ((count_opcode opc (skip_text 2 s))\<lparr>x_mem := m\<rparr>))"
    using step_at[OF assms(1), of e] assms(2,3) m by (simp add: exec_word_unop_def stk_def set_stk_def top_is_def)
  ultimately show ?thesis using m by (simp add: top_is_def keeps_def rd_word_same_8 wr_word_dom)
qed

lemma binop_step:
  assumes "code_at (x_mem s) (x_pc s) (opcode_bytes opc)" and "\<And>s :: 'w mstate. exec e opc s = exec_word_binop f s"
    and "top_is b s" and "rd_word 8 (x_mem s) (x_sp s + 8) = Some a" and "f a b = Some (Val v)"
  shows "\<exists>s'. step e (s :: 'w mstate) = Some (Next s') \<and> x_pc s' = x_pc s + 2 \<and> x_sp s' = x_sp s + 8 \<and> top_is v s' \<and> keeps (region (x_sp s + 8) 8) s s'"
proof -
  have "region (x_sp s + 8) 8 \<subseteq> dom (x_mem s)" using assms(4) by (rule rd_word_mapped)
  then obtain m where m: "wr_word 8 (x_mem s) (x_sp s + 8) v = Some m" using wr_word_defined by blast
  have "m x = x_mem s x" if "x \<notin> region (x_sp s + 8) 8" for x
    using that wr_bytes_other[of "x_mem s" "x_sp s + 8" "bytes_of 8 v" m x] m by (simp add: wr_word_def)
  moreover have "step e s = Some (Next (drop_stk 1 ((count_opcode opc (skip_text 2 s))\<lparr>x_mem := m\<rparr>)))"
    using step_at[OF assms(1), of e] assms(2-5) m by (simp add: exec_word_binop_def stk_def set_stk_def top_is_def)
  ultimately show ?thesis using m by (simp add: top_is_def keeps_def rd_word_same_8 wr_word_dom)
qed

lemma operand_fetch:
  assumes "code_at (x_mem s) (x_pc s) (opcode_bytes opc @ operand_bytes arg)"
  shows "step e s = exec e opc (count_opcode opc (skip_text 2 s))"
    and "fetch (form_of arg) (count_opcode opc (skip_text 2 s)) = Some (arg, skip_text (length (operand_bytes arg)) (count_opcode opc (skip_text 2 s)))"
proof -
  have c: "code_at (x_mem s) (x_pc s) (opcode_bytes opc)" "code_at (x_mem s) (x_pc s + 2) (operand_bytes arg)"
    using assms by (simp_all add: code_at_append)
  show "step e s = exec e opc (count_opcode opc (skip_text 2 s))" using c(1) by (rule step_at)
  have "length (operand_bytes arg) = isz_nbytes (form_of arg)" by (simp add: length_operand_bytes split: isz.split)
  with fetch_at[of "count_opcode opc (skip_text 2 s)" "operand_bytes arg" "form_of arg"] c(2)
  show "fetch (form_of arg) (count_opcode opc (skip_text 2 s)) = Some (arg, skip_text (length (operand_bytes arg)) (count_opcode opc (skip_text 2 s)))"
    by (simp add: word_of_operand_bytes)
qed

text \<open>An instruction that pushes a value.\<close>

lemma push_instruction:
  assumes "step e s = (do { s \<leftarrow> push v t; Some (Next s) })" and "x_mem t = x_mem s" "x_sp t = x_sp s" "keeps {} s t"
    and "stack_space s (8 * n)" and "1 \<le> n"
  shows "\<exists>s'. pushes e n v (x_pc t) s s'"
proof -
  have "stack_space t 8" using assms(2,3,5,6) stack_space_mono[of s "8 * n" 8] by (simp add: stack_space_def)
  then obtain s' where s': "push v t = Some s'" "x_sp s' = x_sp t - 8" "x_pc s' = x_pc t" "top_is v s'" "keeps (stack_bytes (x_sp t) 1) t s'"
    using push_keeps by blast
  have "stack_bytes (x_sp s) 1 \<subseteq> stack_bytes (x_sp s) n"
    using stack_bytes_sub[of n "x_sp s" 0 1] assms(5,6) by (simp add: stack_space_def)
  with s'(5) assms(3,4) have "keeps (stack_bytes (x_sp s) n) s s'" by (auto simp: keeps_def)
  moreover have "steps e s s'" using assms(1) s'(1) by (intro steps_one) simp
  ultimately show ?thesis using s' assms(3) by (auto simp: pushes_def)
qed

lemma keeps_skip: "keeps {} s (skip_text k (count_opcode opc (skip_text j s)))"
  by (simp add: keeps_def)

lemma constpush_runs:
  assumes "text_ok tx" and "no_checks tx" and "ci_code_constpush tx v = Some tx'"
    and "code_ready f base lo hi n s" and "1 \<le> n" and "x_pc s = base + of_nat (tx_pc tx)"
    and "\<And>i. tx_pc tx \<le> i \<Longrightarrow> i < tx_pc tx' \<Longrightarrow> cells tx' i = f i" and "lo \<le> tx_pc tx" and "tx_pc tx' \<le> hi"
  shows "\<exists>s'. pushes e n v (base + of_nat (tx_pc tx')) s s'"
proof -
  let ?arg = "if sint v < 0 then - v else v"
  let ?f = "if sint v < 0 then OC_NEG_CONSTPUSH else OC_CONSTPUSH"
  let ?opc = "?f (form_of ?arg)"
  have em: "emits tx (opcode_bytes ?opc @ operand_bytes ?arg) tx'"
    using assms(1-3) generic_emits[of OC_NEG_CONSTPUSH tx "- v" tx'] generic_emits[of OC_CONSTPUSH tx v tx']
    by (auto simp: ci_code_constpush_def split: if_split_asm)
  note c = code_ready_at[OF assms(4) em assms(7-9), folded assms(6)]
  let ?t = "skip_text (length (operand_bytes ?arg)) (count_opcode ?opc (skip_text 2 s))"
  have "step e s = (do { s \<leftarrow> push v ?t; Some (Next s) })"
    using operand_fetch(1)[OF c, of e] operand_fetch(2)[OF c] by (auto simp: exec_neg_constpush_def exec_constpush_def)
  from push_instruction[OF this _ _ keeps_skip _ assms(5)] assms(4)
  have "\<exists>s'. pushes e n v (x_pc ?t) s s'" by (simp add: code_ready_def)
  moreover have "x_pc ?t = base + of_nat (tx_pc tx')" using em assms(6) by (simp add: emits_def algebra_simps)
  ultimately show ?thesis by simp
qed

section \<open>Variables and operators\<close>

lemma signed_word_type: "word_type tc \<Longrightarrow> ci_is_signed_type tc = Some (signed_type tc)"
  by (auto simp: word_type_def signed_type_def ci_is_signed_type_def)

lemma rd_sword_8: "rd_sword 8 m a = rd_word 8 m a"
proof -
  have "signed_take_bit 63 (w :: word64) = w" for w
  proof (rule bit_word_eqI)
    fix n :: nat assume n: "n < LENGTH(64)"
    then have "min n 63 = n" by simp
    with n show "bit (signed_take_bit 63 w) n = bit w n" by (simp add: bit_signed_take_bit_iff)
  qed
  then show ?thesis by (simp add: rd_sword_def rd_word_def)
qed

text \<open>The type code that the load of a variable has.\<close>

definition var_lty :: "var_t \<Rightarrow> lty" where
  "var_lty v =
     (let tc = ty_code (va_type v) in
      if tc = TY_CHAR then LT_SB else if tc = TY_UCHAR then LT_UB else if tc = TY_SHORT then LT_SW else if tc = TY_USHORT then LT_UW
      else if ty_size (va_type v) = 4 then (if signed_type tc then LT_SL else LT_UL)
      else (if signed_type tc then LT_SLL else LT_ULL))"

lemma stackaddr_forms:
  "opcode_plus (OC_PUSH_AT_STACKADDR LT_SB SZ_B) 0 = Some (OC_PUSH_AT_STACKADDR LT_SB SZ_B)"
  "opcode_plus (OC_PUSH_AT_STACKADDR LT_SB SZ_B) 4 = Some (OC_PUSH_AT_STACKADDR LT_SW SZ_B)"
  "opcode_plus (OC_PUSH_AT_STACKADDR LT_SB SZ_B) 8 = Some (OC_PUSH_AT_STACKADDR LT_SL SZ_B)"
  "opcode_plus (OC_PUSH_AT_STACKADDR LT_SB SZ_B) (- 4) = Some (OC_PUSH_AT_STACKADDR LT_SLL SZ_B)"
  "opcode_plus (OC_PUSH_AT_STACKADDR LT_UB SZ_B) 0 = Some (OC_PUSH_AT_STACKADDR LT_UB SZ_B)"
  "opcode_plus (OC_PUSH_AT_STACKADDR LT_UB SZ_B) 4 = Some (OC_PUSH_AT_STACKADDR LT_UW SZ_B)"
  "opcode_plus (OC_PUSH_AT_STACKADDR LT_UB SZ_B) 8 = Some (OC_PUSH_AT_STACKADDR LT_UL SZ_B)"
  "opcode_plus (OC_PUSH_AT_STACKADDR LT_UB SZ_B) (- 4) = Some (OC_PUSH_AT_STACKADDR LT_ULL SZ_B)"
  by (simp_all add: opcode_plus_def opcode_of_Some_iff)

lemma var_reference_code:
  assumes "local_var v" and "ci_compile_var_reference cp tx v EC_VALUE = Some (tx', at)"
  shows "ci_code_generic_opcode tx (OC_PUSH_AT_STACKADDR (var_lty v) SZ_B) (va_addr v) = Some tx'"
proof -
  have w: "word_type (ty_code (va_type v))" "va_is_ci_var v" "IS_LOCAL_CLASS (va_class v)" using assms(1) by (simp_all add: local_var_def)
  have n: "\<not> is_aggregate (va_type v)" "va_class v \<noteq> CL_REG" "ty_code (va_type v) \<noteq> TY_BOOLEAN"
    using w by (auto simp: is_aggregate_def word_type_def IS_LOCAL_CLASS_def)
  have o: "var_opcode cp tx v EC_VALUE = Some (OC_PUSH_AT_STACKADDR (var_lty v) SZ_B, False, unknown_addrtype tx)"
    using w n assms(1) signed_word_type[OF w(1)]
    by (auto simp: var_opcode_def local_var_def opcode_offset_def ci_effective_typecode_def var_lty_def Let_def word_type_def
        signed_type_def LONG_FORM_OFFSET_def LONGLONG_FORM_OFFSET_def SHORT_FORM_OFFSET_def BYTE_FORM_OFFSET_def stackaddr_forms)
  show ?thesis using assms(2) w n by (auto simp: ci_compile_var_reference_def o bind_Some_iff)
qed

lemma load_var:
  assumes "local_var v" and "var_value (x_mem s) fp v = Some a"
  shows "\<exists>t. load (var_lty v) s (fp + va_addr v) = Some (a, t) \<and> keeps {} s t \<and> x_mem t = x_mem s \<and> x_sp t = x_sp s \<and> x_pc t = x_pc s"
  using assms
  by (auto simp: load_def var_lty_def var_value_def Let_def local_var_def word_type_def signed_type_def rd_sword_8 keeps_def split: if_split_asm)

lemma exec_load_var: "exec e (OC_PUSH_AT_STACKADDR t sz) s = (do { (a, s) \<leftarrow> fetch sz s; (v, s) \<leftarrow> load t s (x_fp s + a); s \<leftarrow> push v s; Some (Next s) })"
  by (simp add: load_def exec_push_unsigned_at_stackaddr_def exec_push_signed_at_stackaddr_def)

lemma operator_code:
  assumes "operator_to_opcode tx op lt rt = Some opc" and "word_type lt" and "value_op op \<or> relational_op op"
    and "binop_value (signed_type lt) op a b = Some v"
  shows "\<exists>f. (\<forall>s. exec e opc s = exec_word_binop f s) \<and> f a b = Some (Val v)"
proof -
  have n: "lt \<noteq> TY_LONGLONG" "lt \<noteq> TY_ULONGLONG" "lt \<noteq> TY_FLOAT" "lt \<noteq> TY_DOUBLE" using assms(2) by (auto simp: word_type_def)
  have "operator_base (tx_flags tx AND CI_CP_CHECK_DIV \<noteq> 0) (signed_type lt) op = Some opc"
    using assms(1) n signed_word_type[OF assms(2)] by (auto simp: operator_to_opcode_def bind_Some_iff split: if_split_asm)
  with assms(3,4) show ?thesis
    by (cases op) (auto simp: operator_base_def binop_value_def value_op_def relational_op_def of_bool_word_def of_bool_def mul_signed_def
        div_signed_def div_unsigned_def split: if_split_asm)
qed

section \<open>Correct code\<close>

definition vars_clear :: "expr_t \<Rightarrow> 'w mstate \<Rightarrow> nat \<Rightarrow> bool" where
  "vars_clear e s n \<longleftrightarrow> (\<forall>v\<in>set (vars_of e). region (x_fp s + va_addr v) 8 \<inter> stack_bytes (x_sp s) n = {})"

lemma var_value_cong: "(\<And>x. x \<in> region (fp + va_addr v) 8 \<Longrightarrow> m' x = m x) \<Longrightarrow> var_value m' fp v = var_value m fp v"
proof -
  assume c: "\<And>x. x \<in> region (fp + va_addr v) 8 \<Longrightarrow> m' x = m x"
  have "rd_bytes m' (fp + va_addr v) n = rd_bytes m (fp + va_addr v) n" if "n \<le> 8" for n
    using c region_mono[OF that] by (intro rd_bytes_cong) blast
  from this[of 1] this[of 2] this[of 8] show ?thesis by (simp add: var_value_def Let_def rd_word_def rd_sword_def)
qed

lemma eval_cong:
  "(\<And>v x. v \<in> set (vars_of e) \<Longrightarrow> x \<in> region (fp + va_addr v) 8 \<Longrightarrow> m' x = m x) \<Longrightarrow> eval cp m' fp e = eval cp m fp e"
proof (induction e rule: measure_induct_rule[of size])
  case (less e)
  obtain t c k where e: "e = Expr t c k" by (cases e)
  have v: "m' x = m x" if "v \<in> set (vars_of e)" "x \<in> region (fp + va_addr v) 8" for v x using less.prems that .
  show ?case
  proof (cases "is_folded e = Some True")
    case False
    have IH: "eval cp m' fp a = eval cp m fp a" if "size a < size e" "set (vars_of a) \<subseteq> set (vars_of e)" for a
      using less.IH[OF that(1)] v that(2) by blast
    show ?thesis
    proof (cases k)
      case (ET_VAR w)
      then have "var_value m' fp w = var_value m fp w" using v False e by (intro var_value_cong) simp
      with ET_VAR e False show ?thesis by simp
    next
      case (ET_BINARY op l r)
      then have "eval cp m' fp l = eval cp m fp l" "eval cp m' fp r = eval cp m fp r" using False e by (simp_all add: IH)
      with ET_BINARY e False show ?thesis by (simp cong: if_cong)
    next
      case (ET_CONDITIONAL b l r)
      then have "eval cp m' fp b = eval cp m fp b" "eval cp m' fp l = eval cp m fp l" "eval cp m' fp r = eval cp m fp r"
        using False e by (simp_all add: IH subset_iff)
      with ET_CONDITIONAL e False show ?thesis by (simp cong: if_cong)
    qed (use False e IH in \<open>simp_all add: Let_def\<close>)
  qed (simp add: e)
qed

definition runs_right :: "'w env \<Rightarrow> cparams \<Rightarrow> expr_t \<Rightarrow> bool" where
  "runs_right env cp e \<longleftrightarrow> (\<forall>tx tx' at base n s v. text_ok tx \<longrightarrow> no_checks tx \<longrightarrow>
     ci_compile_expression cp tx e EC_VALUE = Some (tx', at) \<longrightarrow> need e \<le> n \<longrightarrow>
     code_ready (cells tx') base (tx_pc tx) (tx_pc tx') n s \<longrightarrow> x_pc s = base + of_nat (tx_pc tx) \<longrightarrow> vars_clear e s n \<longrightarrow>
     eval cp (x_mem s) (x_fp s) e = Some v \<longrightarrow> (\<exists>s'. pushes env n v (base + of_nat (tx_pc tx')) s s'))"

lemma runs_rightD:
  assumes "runs_right env cp e" and "text_ok tx" and "no_checks tx" and "ci_compile_expression cp tx e EC_VALUE = Some (tx', at)" and "need e \<le> n"
    and "code_ready (cells tx') base (tx_pc tx) (tx_pc tx') n s" and "x_pc s = base + of_nat (tx_pc tx)" and "vars_clear e s n"
    and "eval cp (x_mem s) (x_fp s) e = Some v"
  shows "\<exists>s'. pushes env n v (base + of_nat (tx_pc tx')) s s'"
  using assms unfolding runs_right_def by blast

lemma compile_value_inv:
  assumes "word_expr e" and "ci_compile_expression cp tx e EC_VALUE = Some (tx', at)"
  shows "if is_folded e = Some True then compile_constant cp tx e EC_VALUE = Some tx'
         else compile_kind cp tx e EC_VALUE = Some (tx', at)"
  using assms
  by (auto simp: ci_compile_expression.simps word_expr_def expected_sp_def check_expected_def word_type_def bind_Some_iff
      split: if_split_asm option.split_asm)

lemma need_pos: "1 \<le> need e"
proof (induction e rule: measure_induct_rule[of size])
  case (less e)
  obtain t c k where e: "e = Expr t c k" by (cases e)
  have "1 \<le> need a" if "size a < size e" for a using less that .
  then show ?case by (cases k) (auto simp: e le_max_iff_disj)
qed

lemma const_runs:
  assumes "word_expr e" and "is_folded e = Some True"
  shows "runs_right (env :: 'w env) cp e"
  unfolding runs_right_def
proof (intro allI impI)
  fix tx tx' at base n v and s :: "'w mstate"
  assume a: "text_ok tx" "no_checks tx" "ci_compile_expression cp tx e EC_VALUE = Some (tx', at)" "need e \<le> n"
    "code_ready (cells tx') base (tx_pc tx) (tx_pc tx') n s" "x_pc s = base + of_nat (tx_pc tx)" "eval cp (x_mem s) (x_fp s) e = Some v"
  obtain t c k where e: "e = Expr t c k" by (cases e)
  have "compile_constant cp tx e EC_VALUE = Some tx'" using compile_value_inv[OF assms(1) a(3)] assms(2) by simp
  moreover have "v = signed_take_bit 31 (the (cp_evalconst cp e))" "cp_evalconst cp e \<noteq> None" using a(7) assms(2) e by auto
  ultimately have c: "ci_code_constpush tx v = Some tx'" using assms(1) by (auto simp: compile_constant_def bind_Some_iff word_expr_def word_type_def split: if_split_asm)
  have "1 \<le> n" using need_pos[of e] a(4) by linarith
  from constpush_runs[OF a(1,2) c a(5) this a(6) HOL.refl order_refl order_refl]
  show "\<exists>s'. pushes env n v (base + of_nat (tx_pc tx')) s s'" .
qed

lemma var_runs:
  assumes "word_expr (Expr t c (ET_VAR w))" and "local_var w" and "is_folded (Expr t c (ET_VAR w)) \<noteq> Some True"
  shows "runs_right (env :: 'w env) cp (Expr t c (ET_VAR w))"
  unfolding runs_right_def
proof (intro allI impI)
  fix tx tx' at base n v and s :: "'w mstate"
  let ?e = "Expr t c (ET_VAR w)"
  assume a: "text_ok tx" "no_checks tx" "ci_compile_expression cp tx ?e EC_VALUE = Some (tx', at)" "need ?e \<le> n"
    "code_ready (cells tx') base (tx_pc tx) (tx_pc tx') n s" "x_pc s = base + of_nat (tx_pc tx)" "eval cp (x_mem s) (x_fp s) ?e = Some v"
  have "ci_compile_var_reference cp tx w EC_VALUE = Some (tx', at)" using compile_value_inv[OF assms(1) a(3)] assms(3) by simp
  note code = var_reference_code[OF assms(2) this]
  have em: "emits tx (opcode_bytes (OC_PUSH_AT_STACKADDR (var_lty w) (form_of (va_addr w))) @ operand_bytes (va_addr w)) tx'"
    using generic_emits[of "OC_PUSH_AT_STACKADDR (var_lty w)", OF _ a(1,2) code] by simp
  note c = code_ready_at[OF a(5) em HOL.refl order_refl order_refl, folded a(6)]
  let ?u = "skip_text (length (operand_bytes (va_addr w))) (count_opcode (OC_PUSH_AT_STACKADDR (var_lty w) (form_of (va_addr w))) (skip_text 2 s))"
  obtain t where t: "load (var_lty w) ?u (x_fp s + va_addr w) = Some (v, t)" "keeps {} ?u t" "x_mem t = x_mem ?u" "x_sp t = x_sp ?u" "x_pc t = x_pc ?u"
    using load_var[OF assms(2), of ?u "x_fp s" v] a(7) assms(3) by auto
  have "step env s = (do { s \<leftarrow> push v t; Some (Next s) })"
    using operand_fetch(1)[OF c, of env] operand_fetch(2)[OF c] t(1) by (simp add: exec_load_var del: exec.simps)
  moreover have "keeps {} s t" using keeps_trans[OF keeps_skip t(2)] .
  ultimately have "\<exists>s'. pushes env n v (x_pc t) s s'"
    using push_instruction[of env s v t n] t(3,4) a(4,5) need_pos[of ?e] by (simp add: code_ready_def)
  moreover have "x_pc t = base + of_nat (tx_pc tx')" using em a(6) t(5) by (simp add: emits_def algebra_simps)
  ultimately show "\<exists>s'. pushes env n v (base + of_nat (tx_pc tx')) s s'" by simp
qed

section \<open>Operators\<close>

lemma word_expr_ty: "word_expr e \<Longrightarrow> \<exists>tc. ty e = Some tc \<and> word_type tc"
  by (auto simp: word_expr_def split: option.split_asm)

lemma runs_conversion:
  assumes "runs_right env cp a" and "word_expr a" and "int_cvt op"
    and "word_expr e" and "is_folded e \<noteq> Some True"
    and "\<And>tx. compile_kind cp tx e EC_VALUE = compile_conversion cp tx op a EC_VALUE"
    and "\<And>m fp. eval cp m fp e = eval cp m fp a" and "need e = need a" and "vars_of e = vars_of a"
  shows "runs_right env cp e"
proof -
  obtain tc where tc: "ty a = Some tc" "word_type tc" using word_expr_ty[OF assms(2)] by blast
  have "ci_compile_expression cp tx a EC_VALUE = Some (tx', at') \<or> (\<exists>at. ci_compile_expression cp tx a EC_VALUE = Some (tx', at))"
    if "ci_compile_expression cp tx e EC_VALUE = Some (tx', at')" for tx tx' at'
    using compile_value_inv[OF assms(4) that] assms(3,5,6) tc
    by (auto simp: compile_conversion.simps bind_Some_iff code_conversion_def int_cvt_def word_type_def ci_is_integral_def Let_def split: if_split_asm)
  then show ?thesis using assms(1,7-9) unfolding runs_right_def vars_clear_def by (metis (no_types, lifting))
qed

lemma pushes_then:
  assumes "pushes e n a pc s s1" and "1 \<le> n" and "8 * n \<le> unat (x_sp s)"
    and "step e s1 = Some (Next s2)" and "x_sp s2 = x_sp s1" and "top_is v s2" and "keeps (region (x_sp s1) 8) s1 s2"
  shows "pushes e n v (x_pc s2) s s2"
proof -
  have "region (x_sp s1) 8 = stack_bytes (x_sp s) 1" using assms(1) by (simp add: pushes_def stack_bytes_def)
  also have "\<dots> \<subseteq> stack_bytes (x_sp s) n" using stack_bytes_sub[of n "x_sp s" 0 1] assms(2,3) by simp
  finally have "keeps (stack_bytes (x_sp s) n) s1 s2" using keeps_mono[OF assms(7)] by blast
  with assms show ?thesis using keeps_trans steps_trans[OF _ steps_one] by (auto simp: pushes_def)
qed

text \<open>A second operand: the first one stays below it.\<close>

lemma second_operand:
  assumes "pushes e n a pc s s1" and "pushes e k b pc' s1 s2" and "Suc k \<le> n" and "8 * n \<le> unat (x_sp s)"
  shows "rd_word 8 (x_mem s2) (x_sp s2 + 8) = Some a" and "keeps (stack_bytes (x_sp s) n) s s2" and "steps e s s2"
    and "x_sp s2 = x_sp s - 16" and "region (x_sp s2 + 8) 8 \<subseteq> stack_bytes (x_sp s) n"
proof -
  have sp: "x_sp s1 = x_sp s - 8" "x_sp s2 = x_sp s1 - 8" using assms(1,2) by (simp_all add: pushes_def)
  have u: "unat (x_sp s1) = unat (x_sp s) - 8" using unat_minus_no_wrap[of 8 "x_sp s"] assms(3,4) sp(1) by simp
  have k: "8 * k \<le> unat (x_sp s1)" using u assms(3,4) by simp
  have "region (x_sp s1) 8 = stack_bytes (x_sp s) (Suc 0)" using sp(1) by (simp add: stack_bytes_def)
  moreover have "8 * Suc 0 \<le> unat (x_sp s)" using assms(3,4) by simp
  ultimately have d: "region (x_sp s1) 8 \<inter> stack_bytes (x_sp s1) k = {}"
    using u by (auto simp: stack_bytes_iff[OF k] stack_bytes_iff)
  have "rd_word 8 (x_mem s2) (x_sp s1) = rd_word 8 (x_mem s1) (x_sp s1)"
    using assms(2) d by (intro rd_word_cong) (auto simp: pushes_def keeps_def)
  then show "rd_word 8 (x_mem s2) (x_sp s2 + 8) = Some a" using assms(1) sp by (simp add: pushes_def top_is_def)
  have "stack_bytes (x_sp s1) k \<subseteq> stack_bytes (x_sp s) n" using stack_bytes_sub[of n "x_sp s" 1 k] assms(3,4) sp(1) by simp
  then show "keeps (stack_bytes (x_sp s) n) s s2"
    using assms(1,2) keeps_trans keeps_mono unfolding pushes_def by blast
  show "steps e s s2" using assms(1,2) steps_trans by (auto simp: pushes_def)
  show "x_sp s2 = x_sp s - 16" using sp by simp
  show "region (x_sp s2 + 8) 8 \<subseteq> stack_bytes (x_sp s) n"
    using stack_bytes_sub[of n "x_sp s" 0 1] assms(3,4) sp by (simp add: stack_bytes_def)
qed

lemma runs_unary:
  assumes "runs_right (env :: 'w env) cp a" and "word_expr a" and "op \<in> {OP_UNARY_MINUS, OP_UNARY_PLUS, OP_BITWISE_NOT, OP_LOGICAL_NOT}"
    and "word_expr (Expr t c (ET_UNARY op a))" and "is_folded (Expr t c (ET_UNARY op a)) \<noteq> Some True"
  shows "runs_right env cp (Expr t c (ET_UNARY op a))"
  unfolding runs_right_def
proof (intro allI impI)
  fix tx tx' at base n v and s :: "'w mstate"
  let ?e = "Expr t c (ET_UNARY op a)"
  assume h: "text_ok tx" "no_checks tx" "ci_compile_expression cp tx ?e EC_VALUE = Some (tx', at)" "need ?e \<le> n"
    "code_ready (cells tx') base (tx_pc tx) (tx_pc tx') n s" "x_pc s = base + of_nat (tx_pc tx)" "vars_clear ?e s n"
    "eval cp (x_mem s) (x_fp s) ?e = Some v"
  obtain tc where tc: "ty a = Some tc" "word_type tc" using word_expr_ty[OF assms(2)] by blast
  have ck: "compile_unary_expr cp tx op a EC_VALUE = Some (tx', at)" using compile_value_inv[OF assms(4) h(3)] assms(5) by simp
  obtain va where va: "eval cp (x_mem s) (x_fp s) a = Some va" "v = unop_value op va" using h(8) assms(5) by auto
  have na: "need a \<le> n" "vars_clear a s n" using h(4,7) assms(5) by (simp_all add: vars_clear_def)
  show "\<exists>s'. pushes env n v (base + of_nat (tx_pc tx')) s s'"
  proof (cases "op = OP_UNARY_PLUS")
    case True
    then have "ci_compile_expression cp tx a EC_VALUE = Some (tx', at)" using ck by (simp add: compile_unary_expr.simps)
    from runs_rightD[OF assms(1) h(1,2) this na(1) h(5,6) na(2) va(1)] va(2) True show ?thesis by (simp add: unop_value_def)
  next
    case False
    let ?opc = "if op = OP_UNARY_MINUS then OC_UNARY_MINUS N_WORD else if op = OP_LOGICAL_NOT then OC_LOGICAL_NOT else OC_BITWISE_NOT I_WORD"
    obtain t1 at1 where t1: "ci_compile_expression cp tx a EC_VALUE = Some (t1, at1)" and o: "ci_code_opcode t1 ?opc = Some tx'"
      using ck assms(3) False tc by (auto simp: compile_unary_expr.simps bind_Some_iff word_type_def)
    have x: "ext tx t1" using compile_ext[OF h(1) t1] .
    have em: "emits t1 (opcode_bytes ?opc) tx'" using opcode_emits[OF ext_ok[OF x] _ o] x h(2) by (simp add: ext_def)
    have pc: "tx_pc tx \<le> tx_pc t1" "tx_pc tx' = tx_pc t1 + 2" and cl: "\<And>i. i < tx_pc t1 \<Longrightarrow> cells t1 i = cells tx' i"
      using x em by (simp_all add: ext_def emits_def overlay_def)
    have "code_ready (cells t1) base (tx_pc tx) (tx_pc t1) n s" using code_ready_part[OF h(5)] pc cl by simp
    from runs_rightD[OF assms(1) h(1,2) t1 na(1) this h(6) na(2) va(1)]
    obtain s1 where s1: "pushes env n va (base + of_nat (tx_pc t1)) s s1" by blast
    have "code_ready (cells tx') base (tx_pc tx) (tx_pc tx') (n - 1) s1"
      using code_ready_after(1)[OF h(5), of s1 1 "n - 1"] s1 need_pos[of a] na(1) by (simp add: pushes_def)
    from code_ready_at[OF this em HOL.refl pc(1) order_refl] s1
    have c: "code_at (x_mem s1) (x_pc s1) (opcode_bytes ?opc)" by (simp add: pushes_def)
    have ex: "exec env ?opc s = exec_word_unop (unop_value op) s" for s
      using assms(3) False by (auto simp: exec_logical_not_def unop_value_def[abs_def] of_bool_word_def of_bool_def)
    obtain s2 where s2: "step env s1 = Some (Next s2)" "x_pc s2 = x_pc s1 + 2" "x_sp s2 = x_sp s1" "top_is v s2" "keeps (region (x_sp s1) 8) s1 s2"
      using unop_step[OF c ex, of va] s1 va(2) by (auto simp: pushes_def)
    have "8 * n \<le> unat (x_sp s)" using h(5) by (simp add: code_ready_def stack_space_def)
    from pushes_then[OF s1 _ this s2(1,3,4,5)] need_pos[of a] na(1) s2(2) s1 pc(2) show ?thesis by (auto simp: pushes_def algebra_simps)
  qed
qed

lemma finish_binop:
  assumes "pushes (e :: 'w env) n a pc s s1" and "pushes e k b (base + of_nat (tx_pc t2)) s1 s2" and "Suc k = n" and "1 \<le> k"
    and "code_ready (cells tx') base lo (tx_pc tx') n s" and "emits t2 (opcode_bytes opc) tx'" and "lo \<le> tx_pc t2"
    and "\<And>s :: 'w mstate. exec e opc s = exec_word_binop f s" and "f a b = Some (Val v)"
  shows "\<exists>s3. pushes e n v (base + of_nat (tx_pc tx')) s s3"
proof -
  have u: "8 * n \<le> unat (x_sp s)" using assms(5) by (simp add: code_ready_def stack_space_def)
  have k: "Suc k \<le> n" using assms(3) by simp
  note so = second_operand[OF assms(1,2) k u]
  have s2: "x_pc s2 = base + of_nat (tx_pc t2)" "top_is b s2" using assms(2) by (simp_all add: pushes_def)
  have "code_ready (cells tx') base lo (tx_pc tx') 0 s2"
    using code_ready_after(1)[OF assms(5) so(2), of 2 0] so(4) assms(3,4) by simp
  from code_ready_at[OF this assms(6) HOL.refl assms(7) order_refl]
  obtain s3 where s3: "step e s2 = Some (Next s3)" "x_pc s3 = x_pc s2 + 2" "x_sp s3 = x_sp s2 + 8" "top_is v s3" "keeps (region (x_sp s2 + 8) 8) s2 s3"
    using binop_step[OF _ assms(8) s2(2) so(1) assms(9)] s2(1) by auto
  have "keeps (stack_bytes (x_sp s) n) s s3" using keeps_trans[OF so(2) keeps_mono[OF s3(5) so(5)]] .
  moreover have "x_pc s3 = base + of_nat (tx_pc tx')" using s3(2) s2(1) assms(6) by (simp add: emits_def algebra_simps)
  ultimately show ?thesis using s3 so(3,4) by (auto simp: pushes_def intro: steps_trans steps_one)
qed

text \<open>After the first operand the code of the second is as ready as the first one's was.\<close>

lemma after_first:
  assumes "pushes e n a pc s s1" and "code_ready f base lo hi n s" and "Suc k = n"
  shows "code_ready f base lo hi k s1" and "x_fp s1 = x_fp s" and "x_pc s1 = pc" and "stack_bytes (x_sp s1) k \<subseteq> stack_bytes (x_sp s) n"
  using code_ready_after[OF assms(2), of s1 1 k] assms(1,3) by (simp_all add: pushes_def keeps_def)

lemma eval_after:
  assumes "keeps (stack_bytes (x_sp s) n) s s1" and "vars_clear e s n"
  shows "eval cp (x_mem s1) (x_fp s1) e = eval cp (x_mem s) (x_fp s) e"
proof -
  have "x_fp s1 = x_fp s" using assms(1) by (simp add: keeps_def)
  moreover have "eval cp (x_mem s1) (x_fp s) e = eval cp (x_mem s) (x_fp s) e"
  proof (rule eval_cong)
    fix v x assume "v \<in> set (vars_of e)" "x \<in> region (x_fp s + va_addr v) 8"
    then have "x \<notin> stack_bytes (x_sp s) n" using assms(2) unfolding vars_clear_def by blast
    then show "x_mem s1 x = x_mem s x" using assms(1) by (simp add: keeps_def)
  qed
  ultimately show ?thesis by simp
qed

lemma runs_binary:
  assumes "runs_right (env :: 'w env) cp l" and "runs_right env cp r" and "word_expr l" and "value_op op \<or> relational_op op"
    and "word_expr (Expr t c (ET_BINARY op l r))" and "is_folded (Expr t c (ET_BINARY op l r)) \<noteq> Some True"
  shows "runs_right env cp (Expr t c (ET_BINARY op l r))"
  unfolding runs_right_def
proof (intro allI impI)
  fix tx tx' at base n v and s :: "'w mstate"
  let ?e = "Expr t c (ET_BINARY op l r)"
  assume h: "text_ok tx" "no_checks tx" "ci_compile_expression cp tx ?e EC_VALUE = Some (tx', at)" "need ?e \<le> n"
    "code_ready (cells tx') base (tx_pc tx) (tx_pc tx') n s" "x_pc s = base + of_nat (tx_pc tx)" "vars_clear ?e s n"
    "eval cp (x_mem s) (x_fp s) ?e = Some v"
  have op: "op \<noteq> OP_LOGICAL_AND" "op \<noteq> OP_LOGICAL_OR" "op \<noteq> OP_ASSIGN" "\<not> assign_op op" "op \<noteq> OP_COMMA"
    using assms(4) by (auto simp: value_op_def relational_op_def assign_op_def)
  obtain tc where tc: "ty l = Some tc" "word_type tc" using word_expr_ty[OF assms(3)] by blast
  have ck: "compile_binary_expr cp tx op l r EC_VALUE = Some (tx', at)" using compile_value_inv[OF assms(5) h(3)] assms(6) by simp
  obtain a b where ev: "eval cp (x_mem s) (x_fp s) l = Some a" "eval cp (x_mem s) (x_fp s) r = Some b"
      "binop_value (signed_type tc) op a b = Some v"
    using h(8) assms(6) op tc by (auto simp: bind_Some_iff expr_signed_def)
  obtain k where k: "Suc k = n" "need l \<le> n" "need r \<le> k" using h(4) assms(6) op need_pos[of r] by (cases n) auto
  have vc: "vars_clear l s n" "vars_clear r s n" using h(7) assms(6) by (auto simp: vars_clear_def)
  obtain t1 at1 t2 at2 rt opc where t1: "ci_compile_expression cp tx l EC_VALUE = Some (t1, at1)"
    and t2: "ci_compile_expression cp t1 r EC_VALUE = Some (t2, at2)"
    and oc: "operator_to_opcode t2 op tc rt = Some opc" and o: "ci_code_opcode t2 opc = Some tx'"
    using ck op assms(4) tc by (auto simp: compile_binary_expr.simps bind_Some_iff)
  have x1: "ext tx t1" using compile_ext[OF h(1) t1] .
  have x2: "ext t1 t2" using compile_ext[OF ext_ok[OF x1] t2] .
  have nc: "no_checks t1" "no_checks t2" using x1 x2 h(2) by (simp_all add: ext_def)
  have em: "emits t2 (opcode_bytes opc) tx'" using opcode_emits[OF ext_ok[OF x2] nc(2) o] .
  have pc: "tx_pc tx \<le> tx_pc t1" "tx_pc t1 \<le> tx_pc t2" "tx_pc tx' = tx_pc t2 + 2"
    and cl: "\<And>i. i < tx_pc t1 \<Longrightarrow> cells t1 i = cells tx' i" "\<And>i. i < tx_pc t2 \<Longrightarrow> cells t2 i = cells tx' i"
    using x1 x2 em by (simp_all add: ext_def emits_def overlay_def)
  have "code_ready (cells t1) base (tx_pc tx) (tx_pc t1) n s" using code_ready_part[OF h(5)] pc cl by simp
  from runs_rightD[OF assms(1) h(1,2) t1 k(2) this h(6) vc(1) ev(1)]
  obtain s1 where s1: "pushes env n a (base + of_nat (tx_pc t1)) s s1" by blast
  note af = after_first[OF s1 h(5) k(1)]
  have "code_ready (cells t2) base (tx_pc t1) (tx_pc t2) k s1" using code_ready_part[OF af(1)] pc cl by simp
  moreover have "eval cp (x_mem s1) (x_fp s1) r = Some b" using eval_after[OF _ vc(2), of s1 cp] s1 ev(2) by (simp add: pushes_def)
  moreover have "vars_clear r s1 k" using vc(2) af(2,4) by (auto simp: vars_clear_def)
  ultimately obtain s2 where s2: "pushes env k b (base + of_nat (tx_pc t2)) s1 s2"
    using runs_rightD[OF assms(2) ext_ok[OF x1] nc(1) t2 k(3) _ af(3)] by blast
  obtain f where f: "\<And>s :: 'w mstate. exec env opc s = exec_word_binop f s" "f a b = Some (Val v)"
    using operator_code[OF oc tc(2) assms(4) ev(3), of env] by blast
  have "1 \<le> k" "tx_pc tx \<le> tx_pc t2" using need_pos[of r] k(3) pc by linarith+
  from finish_binop[OF s1 s2 k(1) this(1) h(5) em this(2) f] show "\<exists>s'. pushes env n v (base + of_nat (tx_pc tx')) s s'" .
qed

lemma runs_scale:
  assumes "runs_right (env :: 'w env) cp a" and "word_expr a" and "op \<in> {OP_MUL, OP_DIV}"
    and "word_expr (Expr t c (ET_SCALE op a factor))" and "is_folded (Expr t c (ET_SCALE op a factor)) \<noteq> Some True"
  shows "runs_right env cp (Expr t c (ET_SCALE op a factor))"
  unfolding runs_right_def
proof (intro allI impI)
  fix tx tx' at base n v and s :: "'w mstate"
  let ?e = "Expr t c (ET_SCALE op a factor)"
  assume h: "text_ok tx" "no_checks tx" "ci_compile_expression cp tx ?e EC_VALUE = Some (tx', at)" "need ?e \<le> n"
    "code_ready (cells tx') base (tx_pc tx) (tx_pc tx') n s" "x_pc s = base + of_nat (tx_pc tx)" "vars_clear ?e s n"
    "eval cp (x_mem s) (x_fp s) ?e = Some v"
  have vop: "value_op op \<or> relational_op op" using assms(3) by (auto simp: value_op_def)
  obtain tc where tc: "ty a = Some tc" "word_type tc" using word_expr_ty[OF assms(2)] by blast
  have ck: "\<exists>at. compile_scale_expr cp tx op a factor EC_VALUE = Some tx'"
    using compile_value_inv[OF assms(4) h(3)] assms(5) by (simp add: bind_Some_iff)
  obtain x where ev: "eval cp (x_mem s) (x_fp s) a = Some x" "binop_value (signed_type tc) op x factor = Some v"
    using h(8) assms(5) tc by (auto simp: bind_Some_iff expr_signed_def)
  obtain k where k: "Suc k = n" "need a \<le> n" "1 \<le> k" using h(4) assms(5) by (cases n) auto
  have vc: "vars_clear a s n" using h(7) assms(5) by (auto simp: vars_clear_def)
  obtain t1 at1 t2 rt opc where t1: "ci_compile_expression cp tx a EC_VALUE = Some (t1, at1)"
    and t2: "ci_code_constpush t1 factor = Some t2"
    and oc: "operator_to_opcode t2 op tc rt = Some opc" and o: "ci_code_opcode t2 opc = Some tx'"
    using ck tc by (auto simp: compile_scale_expr.simps bind_Some_iff)
  have x1: "ext tx t1" using compile_ext[OF h(1) t1] .
  have x2: "ext t1 t2" using grows_constpush[OF lext_refl[OF ext_ok[OF x1]]] t2 by (simp add: grows_def lextD)
  have nc: "no_checks t1" "no_checks t2" using x1 x2 h(2) by (simp_all add: ext_def)
  have em: "emits t2 (opcode_bytes opc) tx'" using opcode_emits[OF ext_ok[OF x2] nc(2) o] .
  have pc: "tx_pc tx \<le> tx_pc t1" "tx_pc t1 \<le> tx_pc t2" "tx_pc tx' = tx_pc t2 + 2"
    and cl: "\<And>i. i < tx_pc t1 \<Longrightarrow> cells t1 i = cells tx' i" "\<And>i. i < tx_pc t2 \<Longrightarrow> cells t2 i = cells tx' i"
    using x1 x2 em by (simp_all add: ext_def emits_def overlay_def)
  have "code_ready (cells t1) base (tx_pc tx) (tx_pc t1) n s" using code_ready_part[OF h(5)] pc cl by simp
  from runs_rightD[OF assms(1) h(1,2) t1 k(2) this h(6) vc ev(1)]
  obtain s1 where s1: "pushes env n x (base + of_nat (tx_pc t1)) s s1" by blast
  note af = after_first[OF s1 h(5) k(1)]
  obtain s2 where s2: "pushes env k factor (base + of_nat (tx_pc t2)) s1 s2"
    using constpush_runs[OF ext_ok[OF x1] nc(1) t2 af(1) k(3) af(3) cl(2) pc(1)] pc by auto
  obtain f where f: "\<And>s :: 'w mstate. exec env opc s = exec_word_binop f s" "f x factor = Some (Val v)"
    using operator_code[OF oc tc(2) vop ev(2), of env] by blast
  have "tx_pc tx \<le> tx_pc t2" using pc by linarith
  from finish_binop[OF s1 s2 k(1,3) h(5) em this f] show "\<exists>s'. pushes env n v (base + of_nat (tx_pc tx')) s s'" .
qed

section \<open>Jumps\<close>

text \<open>From \<open>s\<close> the machine gets to position \<open>pc\<close> with the stack as it was.\<close>

definition arrives :: "'w env \<Rightarrow> nat \<Rightarrow> addr \<Rightarrow> 'w mstate \<Rightarrow> 'w mstate \<Rightarrow> bool" where
  "arrives e n pc s s' \<longleftrightarrow> steps e s s' \<and> x_pc s' = pc \<and> x_sp s' = x_sp s \<and> keeps (stack_bytes (x_sp s) n) s s'"

lemma arrives_pushes: "arrives e n pc s s1 \<Longrightarrow> pushes e n v pc' s1 s2 \<Longrightarrow> pushes e n v pc' s s2"
  unfolding arrives_def pushes_def using keeps_trans steps_trans by fastforce

lemma arrives_ready:
  assumes "arrives e n pc s s1" and "code_ready f base lo hi n s"
  shows "code_ready f base lo hi n s1"
  using code_ready_after(1)[OF assms(2), of s1 0 n] assms(1) by (simp add: arrives_def)

lemma arrives_eval:
  assumes "arrives e n pc s s1" and "vars_clear a s n"
  shows "eval cp (x_mem s1) (x_fp s1) a = eval cp (x_mem s) (x_fp s) a" and "vars_clear a s1 n"
  using eval_after[OF _ assms(2), of s1 cp] assms by (auto simp: arrives_def vars_clear_def keeps_def)

text \<open>Bytes in the buffer.\<close>

definition has_code :: "(nat \<Rightarrow> byte option) \<Rightarrow> nat \<Rightarrow> byte list \<Rightarrow> bool" where
  "has_code f p bs \<longleftrightarrow> (\<forall>k < length bs. f (p + k) = Some (bs ! k))"

lemma code_ready_has:
  assumes "code_ready f base lo hi n s" and "has_code f p bs" and "lo \<le> p" and "p + length bs \<le> hi"
  shows "code_at (x_mem s) (base + of_nat p) bs"
  unfolding code_at_pointwise
proof (intro allI impI)
  fix i assume i: "i < length bs"
  have "lo \<le> p + i" "p + i < hi" using assms(3,4) i by simp_all
  with assms(1) have "x_mem s (base + of_nat (p + i)) = f (p + i)" unfolding code_ready_def by blast
  with assms(2) i show "x_mem s (base + of_nat p + of_nat i) = Some (bs ! i)" by (simp add: has_code_def algebra_simps)
qed

lemma has_code_emits: "emits a bs b \<Longrightarrow> (\<And>i. tx_pc a \<le> i \<Longrightarrow> i < tx_pc b \<Longrightarrow> f i = cells b i) \<Longrightarrow> has_code f (tx_pc a) bs"
  by (simp add: has_code_def emits_def overlay_inside)

lemma jump_at_offset:
  assumes "code_at (x_mem s) (x_pc s) (bytes_of 2 off)" and "fits_short off"
  shows "jump s = Some (Next (s\<lparr>x_pc := x_pc s + off\<rparr>))"
proof -
  have "to_short (take_bit 16 off) = off" using assms(2) to_short_take_bit[of off] by (simp add: fits_short_def to_short_def)
  with assms(1) show ?thesis by (simp add: jump_def text_at_def code_at_def rd_word_def word_of_bytes_of)
qed

lemma jump_step:
  assumes "code_at (x_mem s) (x_pc s) (opcode_bytes OC_JUMP @ bytes_of 2 off)" and "fits_short off"
  shows "\<exists>s'. step e s = Some (Next s') \<and> x_pc s' = x_pc s + 2 + off \<and> x_sp s' = x_sp s \<and> keeps {} s s' \<and> x_mem s' = x_mem s"
proof -
  have c: "code_at (x_mem s) (x_pc s) (opcode_bytes OC_JUMP)" "code_at (x_mem s) (x_pc s + 2) (bytes_of 2 off)"
    using assms(1) by (simp_all add: code_at_append)
  show ?thesis using step_at[OF c(1), of e] jump_at_offset[of "count_opcode OC_JUMP (skip_text 2 s)" off] c(2) assms(2) by (simp add: keeps_def)
qed

lemma jump_if_step:
  assumes "code_at (x_mem s) (x_pc s) (opcode_bytes (if zero then OC_JUMP_IF_ZERO else OC_JUMP_IF_NON_ZERO) @ bytes_of 2 off)"
    and "fits_short off" and "top_is v s"
  shows "\<exists>s'. step e s = Some (Next s') \<and> x_pc s' = (if (v = 0) = zero then x_pc s + 2 + off else x_pc s + 4) \<and> x_sp s' = x_sp s + 8
     \<and> keeps {} s s' \<and> x_mem s' = x_mem s"
proof -
  let ?opc = "if zero then OC_JUMP_IF_ZERO else OC_JUMP_IF_NON_ZERO"
  have c: "code_at (x_mem s) (x_pc s) (opcode_bytes ?opc)" "code_at (x_mem s) (x_pc s + 2) (bytes_of 2 off)"
    using assms(1) by (simp_all add: code_at_append)
  let ?s = "count_opcode ?opc (skip_text 2 s)"
  have "step e s = exec_jump_if zero ?s" using step_at[OF c(1), of e] by simp
  then show ?thesis using jump_at_offset[of "?s\<lparr>x_sp := x_sp s + 8\<rparr>" off] c(2) assms(2,3)
    by (cases "(v = 0) = zero") (simp_all add: exec_jump_if_def pop_def top_is_def keeps_def skip_text_def)
qed

lemma offset_lands: "base + of_nat p + 2 + branch_offset a (p + 2) = base + of_nat a"
  by (simp add: branch_offset_def)

lemma pushes_jump_if:
  assumes "pushes e n v (base + of_nat p) s s1" and "code_ready f base lo hi n s" and "lo \<le> p" and "p + 4 \<le> hi" and "1 \<le> n"
    and "has_code f p (opcode_bytes (if zero then OC_JUMP_IF_ZERO else OC_JUMP_IF_NON_ZERO) @ bytes_of 2 (branch_offset a (p + 2)))"
    and "fits_short (branch_offset a (p + 2))"
  shows "\<exists>s2. arrives e n (base + of_nat (if (v = 0) = zero then a else p + 4)) s s2 \<and> x_mem s2 = x_mem s1"
proof -
  have "code_ready f base lo hi (n - 1) s1" using after_first(1)[OF assms(1,2), of "n - 1"] assms(5) by simp
  from code_ready_has[OF this assms(6,3)] assms(1,4)
  have "code_at (x_mem s1) (x_pc s1) (opcode_bytes (if zero then OC_JUMP_IF_ZERO else OC_JUMP_IF_NON_ZERO) @ bytes_of 2 (branch_offset a (p + 2)))"
    by (simp add: pushes_def)
  from jump_if_step[OF this assms(7), of v e] assms(1)
  obtain s2 where s2: "step e s1 = Some (Next s2)" "x_pc s2 = (if (v = 0) = zero then x_pc s1 + 2 + branch_offset a (p + 2) else x_pc s1 + 4)"
      "x_sp s2 = x_sp s1 + 8" "keeps {} s1 s2" "x_mem s2 = x_mem s1" by (auto simp: pushes_def)
  have "keeps (stack_bytes (x_sp s) n) s s2" using assms(1) keeps_trans keeps_mono[OF s2(4), of "stack_bytes (x_sp s) n"] by (auto simp: pushes_def)
  moreover have "x_pc s2 = base + of_nat (if (v = 0) = zero then a else p + 4)"
    using s2(2) assms(1) offset_lands[of base p a] by (simp add: pushes_def)
  moreover have "steps e s s2" using assms(1) s2(1) steps_trans steps_one by (fastforce simp: pushes_def)
  ultimately have "arrives e n (base + of_nat (if (v = 0) = zero then a else p + 4)) s s2"
    using s2(3) assms(1) by (simp add: arrives_def pushes_def)
  with s2(5) show ?thesis by blast
qed

lemma for_jump_value:
  assumes "word_expr e" and "compile_expr_for_jump cp tx e = Some t"
  shows "\<exists>at. ci_compile_expression cp tx e EC_VALUE = Some (t, at)"
  using assms word_expr_ty[OF assms(1)]
  by (auto simp: compile_expr_for_jump.simps bind_Some_iff code_condition_def word_type_def split: if_split_asm)

lemma one_ref_unique: "one_ref t ld i \<Longrightarrow> one_ref t ld j \<Longrightarrow> i = j"
  by (simp add: one_ref_def)

lemma has_code_cong: "has_code f p bs \<Longrightarrow> (\<And>i. p \<le> i \<Longrightarrow> i < p + length bs \<Longrightarrow> g i = f i) \<Longrightarrow> has_code g p bs"
  by (simp add: has_code_def)

lemma patched_jump:
  assumes "emits a (opcode_bytes opc @ bytes_of 2 w) b"
  shows "has_code (overlay (cells b) (tx_pc a + 2) (bytes_of 2 off)) (tx_pc a) (opcode_bytes opc @ bytes_of 2 off)"
proof -
  have "cells b (tx_pc a + k) = Some (opcode_bytes opc ! k)" if "k < 2" for k
    using assms that overlay_inside[of k "opcode_bytes opc @ bytes_of 2 w" "cells a" "tx_pc a"] by (simp add: emits_def nth_append)
  then show ?thesis by (auto simp: has_code_def overlay_def nth_append)
qed

text \<open>Where the parts of a conditional expression are.\<close>

lemma conditional_code:
  assumes "text_ok tx" and "no_checks tx" and "word_expr q" and "compile_conditional_expr cp tx q l r EC_VALUE = Some (tx', at)"
  obtains qa t1 t2 la t3 t5 ra t6 where
    "ci_compile_expression cp tx q EC_VALUE = Some (t1, qa)" and "ci_compile_expression cp t2 l EC_VALUE = Some (t3, la)"
    and "ci_compile_expression cp t5 r EC_VALUE = Some (t6, ra)"
    and "text_ok t2" and "no_checks t2" and "text_ok t5" and "no_checks t5"
    and "tx_pc tx \<le> tx_pc t1" and "tx_pc t2 = tx_pc t1 + 4" and "tx_pc t2 \<le> tx_pc t3" and "tx_pc t5 = tx_pc t3 + 4" and "tx_pc t5 \<le> tx_pc t6"
    and "tx_pc tx' = tx_pc t6"
    and "\<And>m. m < tx_pc t1 \<Longrightarrow> cells t1 m = cells tx' m" and "\<And>m. tx_pc t2 \<le> m \<Longrightarrow> m < tx_pc t3 \<Longrightarrow> cells t3 m = cells tx' m"
    and "\<And>m. tx_pc t5 \<le> m \<Longrightarrow> cells t6 m = cells tx' m"
    and "has_code (cells tx') (tx_pc t1) (opcode_bytes OC_JUMP_IF_ZERO @ bytes_of 2 (branch_offset (tx_pc t5) (tx_pc t1 + 2)))"
    and "fits_short (branch_offset (tx_pc t5) (tx_pc t1 + 2))"
    and "has_code (cells tx') (tx_pc t3) (opcode_bytes OC_JUMP @ bytes_of 2 (branch_offset (tx_pc tx') (tx_pc t3 + 2)))"
    and "fits_short (branch_offset (tx_pc tx') (tx_pc t3 + 2))"
proof (rule conditional_parts[OF compiler_grows compiler_grows compiler_grows assms(1,4)])
  fix t1 t2 fl i t3 la t4 el j t5 t6 ra
  assume p: "compile_expr_for_jump cp tx q = Some t1" "ci_code_jump_to_label t1 OC_JUMP_IF_ZERO NO_LABELDESC = Some (t2, fl)"
    "ci_compile_expression cp t2 l EC_VALUE = Some (t3, la)" "ci_code_jump_to_label t3 OC_JUMP NO_LABELDESC = Some (t4, el)"
    "ci_compile_expression cp t5 r EC_VALUE = Some (t6, ra)"
    and x: "ext tx t1" "ext t1 t2" "ext t2 t3" "ext t3 t4" "ext t1 t5" "ext t5 t6" "ext t1 tx'"
    and o: "one_ref t2 fl i" "one_ref t4 el j" and pc: "tx_pc t5 = tx_pc t4" "tx_pc tx' = tx_pc t6"
    and cl: "cells t5 = overlay (cells t4) i (bytes_of 2 (branch_offset (tx_pc t4) i))" "fits_short (branch_offset (tx_pc t4) i)"
      "cells tx' = overlay (cells t6) j (bytes_of 2 (branch_offset (tx_pc t6) j))" "fits_short (branch_offset (tx_pc t6) j)"
  obtain qa where q: "ci_compile_expression cp tx q EC_VALUE = Some (t1, qa)" using for_jump_value[OF assms(3) p(1)] by blast
  have nc: "no_checks t1" "no_checks t2" "no_checks t3" "no_checks t5" using x(1,2,3,5) assms(2) by (simp_all add: ext_def)
  note j1 = jump_to_new_label(2)[OF ext_ok[OF x(1)] p(2) nc(1)] and j3 = jump_to_new_label(2)[OF ext_ok[OF x(3)] p(4) nc(3)]
  have ij: "i = tx_pc t1 + 2" "j = tx_pc t3 + 2" using one_ref_unique[OF o(1)] one_ref_unique[OF o(2)] j1 j3 by blast+
  have lt: "tx_pc tx \<le> tx_pc t1" "tx_pc t2 = tx_pc t1 + 4" "tx_pc t2 \<le> tx_pc t3" "tx_pc t4 = tx_pc t3 + 4" "tx_pc t5 \<le> tx_pc t6"
    using x j1 j3 by (simp_all add: ext_def emits_def)
  have c5: "cells tx' m = cells t5 m" if "m < tx_pc t3 + 2" for m
    using that x(6) pc lt by (simp add: cl(3) ij overlay_def ext_def)
  have cl3: "cells t3 m = cells tx' m" if "tx_pc t2 \<le> m" "m < tx_pc t3" for m
    using that x(4) c5[of m] lt by (simp add: cl(1) ij overlay_def ext_def)
  have cl6: "cells t6 m = cells tx' m" if "tx_pc t5 \<le> m" for m using that pc lt by (simp add: cl(3) ij overlay_def)
  have cl1: "cells t1 m = cells tx' m" if "m < tx_pc t1" for m using that x(7) by (simp add: ext_def)
  have "has_code (overlay (cells t2) i (bytes_of 2 (branch_offset (tx_pc t4) i))) (tx_pc t1) (opcode_bytes OC_JUMP_IF_ZERO @ bytes_of 2 (branch_offset (tx_pc t4) i))"
    unfolding ij(1) by (rule patched_jump[OF conjunct2[OF j1]])
  moreover have "cells tx' m = overlay (cells t2) i (bytes_of 2 (branch_offset (tx_pc t4) i)) m" if "m < tx_pc t1 + 4" for m
    using that c5[of m] x(3,4) lt by (simp add: cl(1) overlay_def ext_def)
  ultimately have k1: "has_code (cells tx') (tx_pc t1) (opcode_bytes OC_JUMP_IF_ZERO @ bytes_of 2 (branch_offset (tx_pc t5) (tx_pc t1 + 2)))"
    using ij(1) pc(1) by (auto elim!: has_code_cong)
  have "has_code (overlay (cells t4) j (bytes_of 2 (branch_offset (tx_pc t6) j))) (tx_pc t3) (opcode_bytes OC_JUMP @ bytes_of 2 (branch_offset (tx_pc t6) j))"
    unfolding ij(2) by (rule patched_jump[OF conjunct2[OF j3]])
  moreover have "cells tx' m = overlay (cells t4) j (bytes_of 2 (branch_offset (tx_pc t6) j)) m" if "tx_pc t3 \<le> m" "m < tx_pc t3 + 4" for m
    using that x(6) lt pc by (simp add: cl(1,3) ij overlay_def ext_def)
  ultimately have k3: "has_code (cells tx') (tx_pc t3) (opcode_bytes OC_JUMP @ bytes_of 2 (branch_offset (tx_pc tx') (tx_pc t3 + 2)))"
    using ij(2) pc(2) by (auto elim!: has_code_cong)
  show thesis
    using that[OF q p(3,5) ext_ok[OF x(2)] nc(2) ext_ok[OF x(5)] nc(4) lt(1-3) _ lt(5) pc(2) cl1 cl3 cl6 k1 _ k3] cl(2,4) ij pc lt(4) by simp
qed

lemma runs_conditional:
  assumes "runs_right (env :: 'w env) cp q" and "runs_right env cp l" and "runs_right env cp r" and "word_expr q"
    and "word_expr (Expr t c (ET_CONDITIONAL q l r))" and "is_folded (Expr t c (ET_CONDITIONAL q l r)) \<noteq> Some True"
  shows "runs_right env cp (Expr t c (ET_CONDITIONAL q l r))"
  unfolding runs_right_def
proof (intro allI impI)
  fix tx tx' at base n v and s :: "'w mstate"
  let ?e = "Expr t c (ET_CONDITIONAL q l r)"
  assume h: "text_ok tx" "no_checks tx" "ci_compile_expression cp tx ?e EC_VALUE = Some (tx', at)" "need ?e \<le> n"
    "code_ready (cells tx') base (tx_pc tx) (tx_pc tx') n s" "x_pc s = base + of_nat (tx_pc tx)" "vars_clear ?e s n"
    "eval cp (x_mem s) (x_fp s) ?e = Some v"
  have ck: "compile_conditional_expr cp tx q l r EC_VALUE = Some (tx', at)" using compile_value_inv[OF assms(5) h(3)] assms(6) by simp
  have nd: "need q \<le> n" "need l \<le> n" "need r \<le> n" "1 \<le> n" using h(4) assms(6) need_pos[of q] by auto
  have vc: "vars_clear q s n" "vars_clear l s n" "vars_clear r s n" using h(7) assms(6) by (auto simp: vars_clear_def)
  obtain a where ev: "eval cp (x_mem s) (x_fp s) q = Some a" "eval cp (x_mem s) (x_fp s) (if a \<noteq> 0 then l else r) = Some v"
    using h(8) assms(6) by (auto simp: bind_Some_iff split: if_split_asm)
  show "\<exists>s'. pushes env n v (base + of_nat (tx_pc tx')) s s'"
  proof (rule conditional_code[OF h(1,2) assms(4) ck])
    fix qa t1 t2 la t3 t5 ra t6
    assume cq: "ci_compile_expression cp tx q EC_VALUE = Some (t1, qa)" and cl: "ci_compile_expression cp t2 l EC_VALUE = Some (t3, la)"
      and cr: "ci_compile_expression cp t5 r EC_VALUE = Some (t6, ra)" and ok: "text_ok t2" "no_checks t2" "text_ok t5" "no_checks t5"
      and lt: "tx_pc tx \<le> tx_pc t1" "tx_pc t2 = tx_pc t1 + 4" "tx_pc t2 \<le> tx_pc t3" "tx_pc t5 = tx_pc t3 + 4" "tx_pc t5 \<le> tx_pc t6" "tx_pc tx' = tx_pc t6"
      and c1: "\<And>m. m < tx_pc t1 \<Longrightarrow> cells t1 m = cells tx' m" and c3: "\<And>m. tx_pc t2 \<le> m \<Longrightarrow> m < tx_pc t3 \<Longrightarrow> cells t3 m = cells tx' m"
      and c6: "\<And>m. tx_pc t5 \<le> m \<Longrightarrow> cells t6 m = cells tx' m"
      and k1: "has_code (cells tx') (tx_pc t1) (opcode_bytes OC_JUMP_IF_ZERO @ bytes_of 2 (branch_offset (tx_pc t5) (tx_pc t1 + 2)))"
      and f1: "fits_short (branch_offset (tx_pc t5) (tx_pc t1 + 2))"
      and k3: "has_code (cells tx') (tx_pc t3) (opcode_bytes OC_JUMP @ bytes_of 2 (branch_offset (tx_pc tx') (tx_pc t3 + 2)))"
      and f3: "fits_short (branch_offset (tx_pc tx') (tx_pc t3 + 2))"
    have "code_ready (cells t1) base (tx_pc tx) (tx_pc t1) n s" using code_ready_part[OF h(5)] lt c1 by simp
    from runs_rightD[OF assms(1) h(1,2) cq nd(1) this h(6) vc(1) ev(1)]
    obtain s1 where s1: "pushes env n a (base + of_nat (tx_pc t1)) s s1" by blast
    obtain s2 where s2: "arrives env n (base + of_nat (if (a = 0) = True then tx_pc t5 else tx_pc t1 + 4)) s s2"
      using pushes_jump_if[OF s1 h(5) lt(1) _ nd(4), of True "tx_pc t5"] k1 f1 lt by auto
    note r2 = arrives_ready[OF s2 h(5)]
    show ?thesis
    proof (cases "a = 0")
      case True
      have "code_ready (cells t6) base (tx_pc t5) (tx_pc t6) n s2" using code_ready_part[OF r2] lt c6 by simp
      with runs_rightD[OF assms(3) ok(3,4) cr nd(3), of base s2 v] arrives_eval[OF s2 vc(3)] ev(2) True s2
      obtain s3 where "pushes env n v (base + of_nat (tx_pc t6)) s2 s3" by (auto simp: arrives_def)
      with arrives_pushes[OF s2] lt(6) show ?thesis by auto
    next
      case False
      have "code_ready (cells t3) base (tx_pc t2) (tx_pc t3) n s2" using code_ready_part[OF r2] lt c3 by simp
      with runs_rightD[OF assms(2) ok(1,2) cl nd(2), of base s2 v] arrives_eval[OF s2 vc(2)] ev(2) False s2 lt(2)
      obtain s3 where s3: "pushes env n v (base + of_nat (tx_pc t3)) s2 s3" by (auto simp: arrives_def)
      have "code_ready (cells tx') base (tx_pc tx) (tx_pc tx') (n - 1) s3" using after_first(1)[OF s3 r2, of "n - 1"] nd(4) by simp
      from code_ready_has[OF this k3] lt s3 have "code_at (x_mem s3) (x_pc s3) (opcode_bytes OC_JUMP @ bytes_of 2 (branch_offset (tx_pc tx') (tx_pc t3 + 2)))"
        by (simp add: pushes_def)
      from jump_step[OF this f3, of env] obtain s4 where s4: "step env s3 = Some (Next s4)" "x_pc s4 = x_pc s3 + 2 + branch_offset (tx_pc tx') (tx_pc t3 + 2)"
          "x_sp s4 = x_sp s3" "keeps {} s3 s4" "x_mem s4 = x_mem s3" by blast
      have "top_is v s4" using s3 unfolding pushes_def top_is_def s4(3,5) by blast
      moreover have "8 * n \<le> unat (x_sp s2)" using r2 by (simp add: code_ready_def stack_space_def)
      ultimately have "pushes env n v (x_pc s4) s2 s4" using pushes_then[OF s3 nd(4) _ s4(1,3)] keeps_mono[OF s4(4)] by blast
      then have "pushes env n v (base + of_nat (tx_pc tx')) s2 s4" using s4(2) s3 offset_lands[of base "tx_pc t3" "tx_pc tx'"] by (simp add: pushes_def)
      with arrives_pushes[OF s2] show ?thesis by blast
    qed
  qed
qed

text \<open>Where the parts of a logical expression are.\<close>

lemma has_emits_ext:
  assumes "emits a bs b" and "ext b c"
  shows "has_code (cells c) (tx_pc a) bs"
  by (rule has_code_emits[OF assms(1)]) (use assms(2) in \<open>simp add: ext_def\<close>)

lemma logical_code:
  assumes "text_ok tx" and "no_checks tx" and "word_expr l" and "word_expr r" and "compile_logical_expression cp tx l r op EC_VALUE = Some tx'"
  obtains la t1 t4 ra t5 where
    "ci_compile_expression cp tx l EC_VALUE = Some (t1, la)" and "ci_compile_expression cp t4 r EC_VALUE = Some (t5, ra)"
    and "text_ok t4" and "no_checks t4" and "tx_pc tx \<le> tx_pc t1" and "tx_pc t4 = tx_pc t1 + 8" and "tx_pc t4 \<le> tx_pc t5" and "tx_pc tx' = tx_pc t5 + 2"
    and "\<And>m. m < tx_pc t1 \<Longrightarrow> cells t1 m = cells tx' m" and "\<And>m. tx_pc t4 \<le> m \<Longrightarrow> m < tx_pc t5 \<Longrightarrow> cells t5 m = cells tx' m"
    and "has_code (cells tx') (tx_pc t1) (opcode_bytes OC_DUP)"
    and "has_code (cells tx') (tx_pc t1 + 2) (opcode_bytes (if op = OP_LOGICAL_AND then OC_JUMP_IF_ZERO else OC_JUMP_IF_NON_ZERO)
           @ bytes_of 2 (branch_offset (tx_pc t5) (tx_pc t1 + 2 + 2)))"
    and "fits_short (branch_offset (tx_pc t5) (tx_pc t1 + 2 + 2))"
    and "has_code (cells tx') (tx_pc t1 + 6) (opcode_bytes OC_POP)" and "has_code (cells tx') (tx_pc t5) (opcode_bytes OC_CVT_TO_BOOL)"
proof (rule logical_parts[OF compiler_grows compiler_grows assms(1,5)])
  fix t1 t2 t3 ld i t4 t5 t6
  let ?j = "if op = OP_LOGICAL_AND then OC_JUMP_IF_ZERO else OC_JUMP_IF_NON_ZERO"
  assume p: "compile_expr_for_jump cp tx l = Some t1" "(if EC_VALUE = EC_VALUE then ci_code_opcode t1 OC_DUP else Some t1) = Some t2"
    "ci_code_jump_to_label t2 ?j NO_LABELDESC = Some (t3, ld)" "(if EC_VALUE = EC_VALUE then ci_code_opcode t3 OC_POP else Some t3) = Some t4"
    "(if EC_VALUE = EC_VALUE then compile_expr_for_jump cp t4 r else do { (tx, _) \<leftarrow> ci_compile_expression cp t4 r EC_VALUE; Some tx }) = Some t5"
    "(if EC_VALUE = EC_VALUE then ci_code_opcode t6 OC_CVT_TO_BOOL else Some t6) = Some tx'"
    and x: "ext tx t1" "ext t1 t2" "ext t2 t3" "ext t3 t4" "ext t4 t5" "ext t2 t6" "ext t6 tx'"
    and o: "one_ref t3 ld i" and pc: "tx_pc t6 = tx_pc t5"
    and cl: "cells t6 = overlay (cells t5) i (bytes_of 2 (branch_offset (tx_pc t5) i))" "fits_short (branch_offset (tx_pc t5) i)"
  obtain la where l: "ci_compile_expression cp tx l EC_VALUE = Some (t1, la)" using for_jump_value[OF assms(3) p(1)] by blast
  obtain ra where r: "ci_compile_expression cp t4 r EC_VALUE = Some (t5, ra)" using for_jump_value[OF assms(4), of cp t4 t5] p(5) by auto
  have nc: "no_checks t1" "no_checks t2" "no_checks t3" "no_checks t4" "no_checks t6" using x assms(2) by (simp_all add: ext_def)
  have em: "emits t1 (opcode_bytes OC_DUP) t2" "emits t3 (opcode_bytes OC_POP) t4" "emits t6 (opcode_bytes OC_CVT_TO_BOOL) tx'"
    using p(2,4,6) nc x by (simp_all add: opcode_emits ext_ok)
  note j = jump_to_new_label(2)[OF ext_ok[OF x(2)] p(3) nc(2)]
  have i: "i = tx_pc t2 + 2" using one_ref_unique[OF o] j by blast
  have lt: "tx_pc tx \<le> tx_pc t1" "tx_pc t2 = tx_pc t1 + 2" "tx_pc t3 = tx_pc t2 + 4" "tx_pc t4 = tx_pc t3 + 2" "tx_pc t4 \<le> tx_pc t5" "tx_pc tx' = tx_pc t5 + 2"
    using x em j pc by (simp_all add: ext_def emits_def)
  have c6: "cells tx' m = overlay (cells t5) i (bytes_of 2 (branch_offset (tx_pc t5) i)) m" if "m < tx_pc t5" for m
    using that x(7) pc by (simp add: cl(1) ext_def)
  have c1: "cells t1 m = cells tx' m" if "m < tx_pc t1" for m using that ext_trans[OF x(2) ext_trans[OF x(6,7)]] by (simp add: ext_def)
  have c5: "cells t5 m = cells tx' m" if "tx_pc t3 \<le> m" "m < tx_pc t5" for m using that c6[of m] lt by (simp add: i overlay_def)
  have "has_code (overlay (cells t3) i (bytes_of 2 (branch_offset (tx_pc t5) i))) (tx_pc t2) (opcode_bytes ?j @ bytes_of 2 (branch_offset (tx_pc t5) i))"
    unfolding i by (rule patched_jump[OF conjunct2[OF j]])
  moreover have "cells tx' m = overlay (cells t3) i (bytes_of 2 (branch_offset (tx_pc t5) i)) m" if "m < tx_pc t2 + 4" for m
    using that c6[of m] lt x(4,5) by (simp add: overlay_def ext_def)
  ultimately have k2: "has_code (cells tx') (tx_pc t1 + 2) (opcode_bytes ?j @ bytes_of 2 (branch_offset (tx_pc t5) (tx_pc t1 + 2 + 2)))"
    using i lt by (auto elim!: has_code_cong)
  have k1: "has_code (cells tx') (tx_pc t1) (opcode_bytes OC_DUP)" using has_emits_ext[OF em(1) ext_trans[OF x(6,7)]] .
  have "has_code (cells tx') (tx_pc t3) (opcode_bytes OC_POP)"
    using has_emits_ext[OF em(2) x(5)] by (rule has_code_cong) (use c5 lt in simp)
  then have k3: "has_code (cells tx') (tx_pc t1 + 6) (opcode_bytes OC_POP)" using lt by (simp add: eval_nat_numeral)
  have "has_code (cells tx') (tx_pc t6) (opcode_bytes OC_CVT_TO_BOOL)" using has_code_emits[OF em(3)] by simp
  then have k6: "has_code (cells tx') (tx_pc t5) (opcode_bytes OC_CVT_TO_BOOL)" by (simp add: pc)
  show thesis
    using that[OF l r ext_ok[OF x(4)] nc(4) lt(1) _ lt(5,6) c1 _ k1 k2 _ k3 k6] c5 cl(2) i lt by simp
qed

lemma dup_step:
  assumes "code_at (x_mem s) (x_pc s) (opcode_bytes OC_DUP)" and "top_is v s" and "stack_space s (8 * n)" and "1 \<le> n"
  shows "\<exists>s'. pushes e n v (x_pc s + 2) s s'"
proof -
  let ?t = "count_opcode OC_DUP (skip_text 2 s)"
  have "step e s = (do { s \<leftarrow> push v ?t; Some (Next s) })"
    using step_at[OF assms(1), of e] assms(2) by (simp add: exec_dup_def stk_def top_is_def)
  moreover have "keeps {} s ?t" by (simp add: keeps_def)
  ultimately show ?thesis using push_instruction[OF _ _ _ _ assms(3,4), of e v ?t] by simp
qed

lemma cvt_to_bool_end:
  assumes "pushes e n a (base + of_nat p) s s1" and "code_ready f base lo hi n s" and "has_code f p (opcode_bytes OC_CVT_TO_BOOL)"
    and "lo \<le> p" and "p + 2 \<le> hi" and "1 \<le> n"
  shows "\<exists>s'. pushes e n (of_bool (a \<noteq> 0)) (base + of_nat (p + 2)) s s'"
proof -
  have "code_ready f base lo hi (n - 1) s1" using after_first(1)[OF assms(1,2), of "n - 1"] assms(6) by simp
  from code_ready_has[OF this assms(3,4)] assms(1,5) have c: "code_at (x_mem s1) (x_pc s1) (opcode_bytes OC_CVT_TO_BOOL)" by (simp add: pushes_def)
  have ex: "exec e OC_CVT_TO_BOOL s = exec_word_unop (\<lambda>v. of_bool (v \<noteq> 0)) s" for s by (simp add: exec_cvt_to_bool_def of_bool_word_def of_bool_def)
  obtain s2 where s2: "step e s1 = Some (Next s2)" "x_pc s2 = x_pc s1 + 2" "x_sp s2 = x_sp s1" "top_is (of_bool (a \<noteq> 0)) s2" "keeps (region (x_sp s1) 8) s1 s2"
    using unop_step[OF c ex, of a] assms(1) by (auto simp: pushes_def)
  have "8 * n \<le> unat (x_sp s)" using assms(2) by (simp add: code_ready_def stack_space_def)
  from pushes_then[OF assms(1,6) this s2(1,3,4,5)] s2(2) assms(1) show ?thesis by (auto simp: pushes_def algebra_simps)
qed

lemma pop_step:
  assumes "pushes e n a pc s s1" and "code_at (x_mem s1) pc (opcode_bytes OC_POP)"
  shows "\<exists>s'. arrives e n (pc + 2) s s'"
proof -
  have "step e s1 = Some (Next ((count_opcode OC_POP (skip_text 2 s1))\<lparr>x_sp := x_sp s1 + 8\<rparr>))" (is "_ = Some (Next ?s2)")
    using step_at[of s1 OC_POP e] assms by (simp add: exec_pop_def pushes_def)
  moreover have "keeps (stack_bytes (x_sp s) n) s ?s2" using assms(1) by (simp add: pushes_def keeps_def)
  ultimately have "arrives e n (pc + 2) s ?s2" using assms(1) steps_trans[OF _ steps_one] by (auto simp: pushes_def arrives_def)
  then show ?thesis by blast
qed

text \<open>What the copy of the first operand leaves when it has been tested.\<close>

lemma tested_operand:
  assumes "pushes e n a pc s s1" and "arrives e k pc' s1 s3" and "Suc k = n" and "8 * n \<le> unat (x_sp s)"
  shows "pushes e n a pc' s s3"
proof -
  have sp: "x_sp s1 = x_sp s - 8" "x_sp s3 = x_sp s1" using assms(1,2) by (simp_all add: pushes_def arrives_def)
  have u: "unat (x_sp s1) = unat (x_sp s) - 8" using unat_minus_no_wrap[of 8 "x_sp s"] assms(3,4) sp(1) by simp
  have k: "8 * k \<le> unat (x_sp s1)" "8 * Suc 0 \<le> unat (x_sp s)" using u assms(3,4) by simp_all
  have "region (x_sp s1) 8 = stack_bytes (x_sp s) (Suc 0)" using sp(1) by (simp add: stack_bytes_def)
  then have d: "region (x_sp s1) 8 \<inter> stack_bytes (x_sp s1) k = {}" using u by (auto simp: stack_bytes_iff[OF k(1)] stack_bytes_iff[OF k(2)])
  have "rd_word 8 (x_mem s3) (x_sp s1) = rd_word 8 (x_mem s1) (x_sp s1)"
    using assms(2) d by (intro rd_word_cong) (auto simp: arrives_def keeps_def)
  then have "top_is a s3" using assms(1) sp(2) by (auto simp: pushes_def top_is_def)
  moreover have "stack_bytes (x_sp s1) k \<subseteq> stack_bytes (x_sp s) n" using stack_bytes_sub[of n "x_sp s" 1 k] assms(3,4) sp(1) by simp
  then have "keeps (stack_bytes (x_sp s) n) s s3" using assms(1,2) keeps_trans keeps_mono unfolding pushes_def arrives_def by blast
  ultimately show ?thesis using assms(1,2) sp steps_trans by (auto simp: pushes_def arrives_def)
qed

lemma runs_logical:
  assumes "runs_right (env :: 'w env) cp l" and "runs_right env cp r" and "word_expr l" and "word_expr r"
    and "op = OP_LOGICAL_AND \<or> op = OP_LOGICAL_OR"
    and "word_expr (Expr t c (ET_BINARY op l r))" and "is_folded (Expr t c (ET_BINARY op l r)) \<noteq> Some True"
  shows "runs_right env cp (Expr t c (ET_BINARY op l r))"
  unfolding runs_right_def
proof (intro allI impI)
  fix tx tx' at base n v and s :: "'w mstate"
  let ?e = "Expr t c (ET_BINARY op l r)" and ?z = "op = OP_LOGICAL_AND"
  assume h: "text_ok tx" "no_checks tx" "ci_compile_expression cp tx ?e EC_VALUE = Some (tx', at)" "need ?e \<le> n"
    "code_ready (cells tx') base (tx_pc tx) (tx_pc tx') n s" "x_pc s = base + of_nat (tx_pc tx)" "vars_clear ?e s n"
    "eval cp (x_mem s) (x_fp s) ?e = Some v"
  have ck: "compile_logical_expression cp tx l r op EC_VALUE = Some tx'"
    using compile_value_inv[OF assms(6) h(3)] assms(5,7) by (auto simp: compile_binary_expr.simps assign_op_def bind_Some_iff)
  obtain k where k: "Suc k = n" "1 \<le> k" "need l \<le> n" "need r \<le> n" "1 \<le> n" using h(4) assms(5,7) by (cases n) auto
  have vc: "vars_clear l s n" "vars_clear r s n" using h(7) assms(7) by (auto simp: vars_clear_def)
  obtain a where ev: "eval cp (x_mem s) (x_fp s) l = Some a" "(a = 0) = ?z \<Longrightarrow> v = of_bool (a \<noteq> 0)"
      "(a = 0) \<noteq> ?z \<Longrightarrow> \<exists>b. eval cp (x_mem s) (x_fp s) r = Some b \<and> v = of_bool (b \<noteq> 0)"
    using h(8) assms(5,7) by (auto simp: bind_Some_iff split: if_split_asm)
  have u: "8 * n \<le> unat (x_sp s)" using h(5) by (simp add: code_ready_def stack_space_def)
  show "\<exists>s'. pushes env n v (base + of_nat (tx_pc tx')) s s'"
  proof (rule logical_code[OF h(1,2) assms(3,4) ck])
    fix la t1 t4 ra t5
    assume cl: "ci_compile_expression cp tx l EC_VALUE = Some (t1, la)" and cr: "ci_compile_expression cp t4 r EC_VALUE = Some (t5, ra)"
      and ok: "text_ok t4" "no_checks t4" and lt: "tx_pc tx \<le> tx_pc t1" "tx_pc t4 = tx_pc t1 + 8" "tx_pc t4 \<le> tx_pc t5" "tx_pc tx' = tx_pc t5 + 2"
      and c1: "\<And>m. m < tx_pc t1 \<Longrightarrow> cells t1 m = cells tx' m" and c5: "\<And>m. tx_pc t4 \<le> m \<Longrightarrow> m < tx_pc t5 \<Longrightarrow> cells t5 m = cells tx' m"
      and kd: "has_code (cells tx') (tx_pc t1) (opcode_bytes OC_DUP)"
      and kj: "has_code (cells tx') (tx_pc t1 + 2) (opcode_bytes (if ?z then OC_JUMP_IF_ZERO else OC_JUMP_IF_NON_ZERO)
           @ bytes_of 2 (branch_offset (tx_pc t5) (tx_pc t1 + 2 + 2)))"
      and fj: "fits_short (branch_offset (tx_pc t5) (tx_pc t1 + 2 + 2))"
      and kp: "has_code (cells tx') (tx_pc t1 + 6) (opcode_bytes OC_POP)" and kc: "has_code (cells tx') (tx_pc t5) (opcode_bytes OC_CVT_TO_BOOL)"
    have "code_ready (cells t1) base (tx_pc tx) (tx_pc t1) n s" using code_ready_part[OF h(5)] lt c1 by simp
    from runs_rightD[OF assms(1) h(1,2) cl k(3) this h(6) vc(1) ev(1)]
    obtain s1 where s1: "pushes env n a (base + of_nat (tx_pc t1)) s s1" by blast
    note r1 = after_first(1)[OF s1 h(5) k(1)]
    have "code_at (x_mem s1) (x_pc s1) (opcode_bytes OC_DUP)" using code_ready_has[OF r1 kd lt(1)] lt s1 by (simp add: pushes_def)
    with dup_step[of s1 a k env] s1 r1 k(2) obtain s2 where s2: "pushes env k a (base + of_nat (tx_pc t1 + 2)) s1 s2"
      by (auto simp: pushes_def code_ready_def algebra_simps)
    obtain s3 where s3: "arrives env k (base + of_nat (if (a = 0) = ?z then tx_pc t5 else tx_pc t1 + 2 + 4)) s1 s3"
      using pushes_jump_if[OF s2 r1 _ _ k(2) kj fj] lt by auto
    note s3' = tested_operand[OF s1 s3 k(1) u]
    show ?thesis
    proof (cases "(a = 0) = ?z")
      case True
      have "pushes env n a (base + of_nat (tx_pc t5)) s s3" using s3' unfolding if_P[OF True] .
      from cvt_to_bool_end[OF this h(5) kc _ _ k(5)] lt ev(2)[OF True] show ?thesis by simp
    next
      case False
      then obtain b where b: "eval cp (x_mem s) (x_fp s) r = Some b" "v = of_bool (b \<noteq> 0)" using ev(3) by blast
      have p3: "pushes env n a (base + of_nat (tx_pc t1 + 6)) s s3" using s3' False by (simp add: add.commute)
      have "code_at (x_mem s3) (base + of_nat (tx_pc t1 + 6)) (opcode_bytes OC_POP)"
        using code_ready_has[OF after_first(1)[OF p3 h(5) k(1)] kp] lt by simp
      from pop_step[OF p3 this] obtain s4 where s4: "arrives env n (base + of_nat (tx_pc t4)) s s4" using lt(2) by (auto simp: algebra_simps)
      have "code_ready (cells t5) base (tx_pc t4) (tx_pc t5) n s4" using code_ready_part[OF arrives_ready[OF s4 h(5)]] lt c5 by simp
      with runs_rightD[OF assms(2) ok cr k(4), of base s4 b] arrives_eval[OF s4 vc(2)] b(1) s4
      obtain s5 where "pushes env n b (base + of_nat (tx_pc t5)) s4 s5" by (auto simp: arrives_def)
      note s5 = arrives_pushes[OF s4 this]
      from cvt_to_bool_end[OF s5 h(5) kc _ _ k(5)] lt b(2) show ?thesis by simp
    qed
  qed
qed

section \<open>The compiler is correct\<close>

lemma pure_word: "pure_expr e \<Longrightarrow> word_expr e"
  by (cases e) simp

lemma runs_kind:
  assumes "pure_expr (Expr t c kd)" and "\<And>x. size x < size (Expr t c kd) \<Longrightarrow> pure_expr x \<Longrightarrow> runs_right env cp x"
  shows "runs_right env cp (Expr t c kd)"
proof (cases "is_folded (Expr t c kd) = Some True")
  case True
  then show ?thesis using const_runs assms(1) by simp
next
  case False
  note w = pure_word[OF assms(1)]
  have r: "runs_right env cp x" "word_expr x" if "size x < size (Expr t c kd)" "pure_expr x" for x
    using assms(2) that pure_word by blast+
  note conv = runs_conversion[OF _ _ _ w False]
  show ?thesis
  proof (cases kd)
    case (ET_VAR v)
    then show ?thesis using var_runs w False assms(1) by simp
  next
    case (ET_PROMOTION op a)
    have "pure_expr a" "int_cvt op" using assms(1) False by (simp_all add: ET_PROMOTION)
    then show ?thesis using False by (intro conv[of env cp a op] r) (simp_all add: ET_PROMOTION)
  next
    case (ET_CAST op a)
    have "pure_expr a" "int_cvt op" using assms(1) False by (simp_all add: ET_CAST)
    then show ?thesis using False by (intro conv[of env cp a op] r) (simp_all add: ET_CAST)
  next
    case (ET_ASSIGNMENT_CONVERSION op a)
    have "pure_expr a" "int_cvt op" using assms(1) False by (simp_all add: ET_ASSIGNMENT_CONVERSION)
    then show ?thesis using False by (intro conv[of env cp a op] r) (simp_all add: ET_ASSIGNMENT_CONVERSION)
  next
    case (ET_SCALE op a k)
    have "pure_expr a" "op \<in> {OP_MUL, OP_DIV}" using assms(1) False by (simp_all add: ET_SCALE)
    then show ?thesis unfolding ET_SCALE by (intro runs_scale r w[unfolded ET_SCALE] False[unfolded ET_SCALE]) (simp_all add: ET_SCALE)
  next
    case (ET_UNARY op a)
    have "pure_expr a" "op \<in> {OP_UNARY_MINUS, OP_UNARY_PLUS, OP_BITWISE_NOT, OP_LOGICAL_NOT}" using assms(1) False by (simp_all add: ET_UNARY)
    then show ?thesis unfolding ET_UNARY by (intro runs_unary r w[unfolded ET_UNARY] False[unfolded ET_UNARY]) (simp_all add: ET_UNARY)
  next
    case (ET_BINARY op a b)
    have p: "pure_expr a" "pure_expr b" and op: "(value_op op \<or> relational_op op) \<or> (op = OP_LOGICAL_AND \<or> op = OP_LOGICAL_OR)"
      using assms(1) False by (auto simp: ET_BINARY)
    from p have s: "runs_right env cp a" "runs_right env cp b" "word_expr a" "word_expr b" by (intro r; simp add: ET_BINARY)+
    from op show ?thesis unfolding ET_BINARY
      using runs_binary[OF s(1-3) _ w[unfolded ET_BINARY] False[unfolded ET_BINARY]] runs_logical[OF s _ w[unfolded ET_BINARY] False[unfolded ET_BINARY]] by blast
  next
    case (ET_CONDITIONAL q a b)
    have "pure_expr q" "pure_expr a" "pure_expr b" using assms(1) False by (simp_all add: ET_CONDITIONAL)
    then show ?thesis unfolding ET_CONDITIONAL
      by (intro runs_conditional r w[unfolded ET_CONDITIONAL] False[unfolded ET_CONDITIONAL]) (simp_all add: ET_CONDITIONAL)
  qed (use False assms(1) in simp_all)
qed

lemma pure_runs_right: "pure_expr e \<Longrightarrow> runs_right env cp e"
proof (induction e rule: measure_induct_rule[of size])
  case (less e)
  obtain t c k where e: "e = Expr t c k" by (cases e)
  show ?case using runs_kind[of t c k env cp] less unfolding e by blast
qed

text \<open>C3.  The expression compiler is correct.  Take an integer expression without side effects, built from constants, local
  variables, conversions between integer types and all the arithmetic, comparison, logical and conditional
  operators, that has a value in the current frame.  If the compiler accepts it, then the machine, started
  at its code with enough stack, gets to the end of the code with exactly that value pushed, and with the
  frame and all memory outside the stack words it needs unchanged.\<close>

theorem compiled_expression_computes_value:
  assumes "pure_expr e" and "ci_compile_expression cp tx e EC_VALUE = Some (tx', at)" and "text_ok tx" and "no_checks tx"
    and "loaded tx' base (tx_pc tx) (tx_pc tx') (x_mem s)" and "x_pc s = base + of_nat (tx_pc tx)"
    and "stack_space s (8 * need e)"
    and "\<And>i. tx_pc tx \<le> i \<Longrightarrow> i < tx_pc tx' \<Longrightarrow> base + of_nat i \<notin> stack_bytes (x_sp s) (need e)"
    and "\<And>v. v \<in> set (vars_of e) \<Longrightarrow> region (x_fp s + va_addr v) 8 \<inter> stack_bytes (x_sp s) (need e) = {}"
    and "eval cp (x_mem s) (x_fp s) e = Some v"
  shows "\<exists>s'. steps env s s' \<and> x_pc s' = base + of_nat (tx_pc tx') \<and> x_sp s' = x_sp s - 8
    \<and> rd_word 8 (x_mem s') (x_sp s') = Some v \<and> keeps (stack_bytes (x_sp s) (need e)) s s'"
proof -
  have "code_ready (cells tx') base (tx_pc tx) (tx_pc tx') (need e) s" using assms(5,7,8) by (simp add: code_ready_def loaded_def)
  from runs_rightD[OF pure_runs_right[OF assms(1)] assms(3,4,2) order_refl this assms(6) _ assms(10), of env]
  show ?thesis using assms(9) by (simp add: vars_clear_def pushes_def top_is_def)
qed

section \<open>Instances\<close>

text \<open>Evaluation without the large natural numbers that mark a missing label.\<close>

definition code_jump_to_new_label :: "text_t \<Rightarrow> opcode \<Rightarrow> (text_t \<times> nat) option" where
  "code_jump_to_new_label tx opc = ci_code_jump_to_label tx opc NO_LABELDESC"

lemma code_jump_to_new_label_unfold [code_unfold]: "ci_code_jump_to_label tx opc NO_LABELDESC = code_jump_to_new_label tx opc"
  by (simp add: code_jump_to_new_label_def)

lemma code_jump_to_new_label_code [code]:
  "code_jump_to_new_label tx opc = (case make_label tx of (tx, ld) \<Rightarrow> do {
     tx \<leftarrow> ci_code_opcode tx opc; tx \<leftarrow> add_label_reference tx ld (tx_pc tx); tx \<leftarrow> ci_code_word tx (of_nat ld); Some (tx, ld) })"
  by (simp add: code_jump_to_new_label_def ci_code_jump_to_label_def)

lemma labeldesc_to_label_code [code]:
  "labeldesc_to_label tx ld = (if int ld > 0xfffe \<or> ld \<ge> tx_labellim tx then None else tx_labels tx ! ld)"
  by (auto simp: labeldesc_to_label_def MAX_LABELDESC_def)

text \<open>The expression \<open>x ? 5 : 7\<close> where \<open>x\<close> is a local variable of type \<open>long\<close>.\<close>

definition demo_cparams :: cparams where
  "demo_cparams = \<lparr>cp_bool_type = TY_VOID, cp_evalconst = (\<lambda>e. case ex_kind e of ET_INT_CONST w \<Rightarrow> Some w | _ \<Rightarrow> None)\<rparr>"

definition demo_long :: type_t where "demo_long = Type TY_LONG 8 None 0 0 0 None"

definition demo_var :: var_t where
  "demo_var = \<lparr>va_id = 1, va_name = ''x'', va_class = CL_AUTO, va_is_ci_var = True, va_location = None, va_addr = 0, va_type = demo_long\<rparr>"

definition demo_expr :: expr_t where
  "demo_expr = Expr (Some demo_long) False (ET_CONDITIONAL (Expr (Some demo_long) False (ET_VAR demo_var))
     (Expr (Some demo_long) True (ET_INT_CONST 5)) (Expr (Some demo_long) True (ET_INT_CONST 7)))"

definition demo_text :: text_t where "demo_text = initial_text 0 False [] [] None None"

definition demo_bytes :: "byte list" where
  "demo_bytes = opcode_bytes (OC_PUSH_AT_STACKADDR LT_SLL SZ_B) @ [0] @ opcode_bytes OC_JUMP_IF_ZERO @ [9, 0]
     @ opcode_bytes (OC_CONSTPUSH SZ_B) @ [5] @ opcode_bytes OC_JUMP @ [5, 0] @ opcode_bytes (OC_CONSTPUSH SZ_B) @ [7]"

lemma demo_compiles:
  "case ci_compile_expression demo_cparams demo_text demo_expr EC_VALUE of
     Some (tx', at) \<Rightarrow> tx_pc tx' = length demo_bytes \<and> take (tx_pc tx') (tx_text tx') = map Some demo_bytes | None \<Rightarrow> False"
  by code_simp

lemma demo_loaded:
  assumes "take (length bs) (tx_text tx) = map Some bs" and "length bs \<le> 0x800"
  shows "loaded tx 0x2800 0 (length bs) (demo_mem bs)"
  unfolding loaded_def
proof (intro allI impI)
  fix i assume i: "0 \<le> i \<and> i < length bs"
  have l: "length bs \<le> length (tx_text tx)" using arg_cong[OF assms(1), of length] by simp
  have "tx_text tx ! i = Some (bs ! i)" using i arg_cong[OF assms(1), of "\<lambda>xs. xs ! i"] by simp
  then have "cells tx i = Some (bs ! i)" using i l by (simp add: cells_def)
  moreover have "demo_mem bs (0x2800 + of_nat i) = Some (bs ! i)" using demo_code[OF assms(2)] i by (simp add: code_at_pointwise)
  ultimately show "demo_mem bs (0x2800 + of_nat i) = cells tx i \<and> cells tx i \<noteq> None" by simp
qed

theorem compiled_expression_computes_value_witness:
  "\<exists>tx' at s'. ci_compile_expression demo_cparams demo_text demo_expr EC_VALUE = Some (tx', at)
     \<and> steps demo_env (demo_state demo_bytes) s' \<and> x_pc s' = 0x2811 \<and> rd_word 8 (x_mem s') (x_sp s') = Some 7"
proof -
  obtain tx' at where c: "ci_compile_expression demo_cparams demo_text demo_expr EC_VALUE = Some (tx', at)"
    and t: "tx_pc tx' = length demo_bytes" "take (length demo_bytes) (tx_text tx') = map Some demo_bytes"
    using demo_compiles by (auto split: option.split_asm)
  have 17: "length demo_bytes = 17" by (simp add: demo_bytes_def)
  have l: "loaded tx' 0x2800 (tx_pc demo_text) (tx_pc tx') (x_mem (demo_state demo_bytes))"
    using demo_loaded[OF t(2)] 17 t(1) by (simp add: demo_text_def initial_text_def demo_state_def)
  have n: "need demo_expr = 1" "vars_of demo_expr = [demo_var]" "pure_expr demo_expr" by code_simp+
  have e: "eval demo_cparams (x_mem (demo_state demo_bytes)) (x_fp (demo_state demo_bytes)) demo_expr = Some 7" by code_simp
  have k: "text_ok demo_text" "no_checks demo_text" by (simp_all add: demo_text_def initial_text_def text_ok_def)
  have sp: "x_sp (demo_state demo_bytes) = 0x2000" "x_fp (demo_state demo_bytes) = 0x2100" "x_pc (demo_state demo_bytes) = 0x2800 + of_nat (tx_pc demo_text)"
    by (simp_all add: demo_state_def demo_text_def initial_text_def)
  have sb: "x \<in> stack_bytes 0x2000 (Suc 0) \<longleftrightarrow> 0x1ff8 \<le> unat x \<and> unat x < 0x2000" for x using stack_bytes_iff[of "Suc 0" "0x2000" x] by simp
  have "0x2800 + of_nat i \<notin> stack_bytes 0x2000 1" if "i < tx_pc tx'" for i
    using that unat_plus_no_wrap[of "0x2800" i] 17 t(1) by (simp add: sb)
  moreover have "region (0x2100 + va_addr demo_var) 8 \<inter> stack_bytes 0x2000 1 = {}"
    using region_iff[of "0x2100" 8] by (auto simp: sb demo_var_def)
  ultimately obtain s' where "steps demo_env (demo_state demo_bytes) s'" "x_pc s' = 0x2800 + of_nat (tx_pc tx')" "rd_word 8 (x_mem s') (x_sp s') = Some 7"
    using compiled_expression_computes_value[OF n(3) c k l sp(3) _ _ _ e, of demo_env] demo_space[of 8 demo_bytes] by (auto simp: n sp)
  with c 17 t(1) show ?thesis by auto
qed

theorem compiler_only_appends_witness:
  "\<exists>tx' at. ci_compile_expression demo_cparams demo_text demo_expr EC_VALUE = Some (tx', at) \<and> text_ok tx' \<and> cells tx' 16 \<noteq> None"
proof -
  obtain tx' at where c: "ci_compile_expression demo_cparams demo_text demo_expr EC_VALUE = Some (tx', at)" and t: "tx_pc tx' = 17"
    using demo_compiles by (auto simp: demo_bytes_def split: option.split_asm)
  have "text_ok demo_text" by (simp add: demo_text_def initial_text_def text_ok_def)
  from compiler_only_appends[OF this c] t have "text_ok tx' \<and> cells tx' 16 \<noteq> None" by (simp add: demo_text_def initial_text_def)
  with c show ?thesis by blast
qed

section \<open>Floats\<close>

lemma opcode_sp: "text_ok tx \<Longrightarrow> ci_code_opcode tx opc = Some tx' \<Longrightarrow> tx_sp tx' = tx_sp tx + of_int (op_effect opc)"
proof -
  assume ok: "text_ok tx" and c: "ci_code_opcode tx opc = Some tx'"
  let ?t = "track_sp opc (check_track tx opc)"
  have "text_frame tx' = text_frame ?t" using code_seq_emits(2)[of ?t] ok c by (simp add: ci_code_opcode_eq)
  from arg_cong[OF this, of tx_sp] show ?thesis by (simp add: text_frame_def)
qed

lemma code_seq_sp: "text_ok tx \<Longrightarrow> code_seq ci_code_byte tx bs = Some tx' \<Longrightarrow> tx_sp tx' = tx_sp tx"
  using arg_cong[OF code_seq_emits(2), of tx bs tx' tx_sp] by (simp add: text_frame_def)

lemma opcode_ok: "text_ok tx \<Longrightarrow> ci_code_opcode tx opc = Some tx' \<Longrightarrow> text_ok tx'"
  using grows_opcode[OF lext_refl] by (auto simp: grows_def lext_def ext_def)

lemma generic_sp:
  assumes "sized f" and "text_ok tx" and "ci_code_generic_opcode tx (f SZ_B) arg = Some tx'"
  shows "tx_sp tx' = tx_sp tx + of_int (op_effect (f (form_of arg)))"
proof -
  let ?o = "f (form_of arg)"
  let ?t = "track_sp ?o (check_track tx ?o)"
  have "code_seq ci_code_byte ?t (check_bytes tx ?o @ opcode_bytes ?o @ operand_bytes arg) = Some tx'"
    using assms(3) by (simp add: ci_code_generic_opcode_eq[OF assms(1)] Let_def)
  from code_seq_sp[OF _ this] assms(2) show ?thesis by simp
qed

lemma ci_code_generic_opcode_total:
  assumes "sized f" and "text_ok tx" and "room tx 20"
  shows "\<exists>tx'. ci_code_generic_opcode tx (f SZ_B) arg = Some tx'"
proof -
  let ?opc = "f (form_of arg)" and ?t = "track_sp (f (form_of arg)) (check_track tx (f (form_of arg)))"
  let ?bs = "check_bytes tx ?opc @ opcode_bytes ?opc @ operand_bytes arg"
  have "length ?bs \<le> 20"
    using length_operand_bytes_le[of arg] length_operand_bytes_le[of "tx_sp tx"] by (simp add: check_bytes_def)
  then have "text_ok ?t" and "room ?t (length ?bs)" using assms(2) room_mono[OF assms(3)] by simp_all
  then show ?thesis using code_seq_total by (auto simp: ci_code_generic_opcode_eq[OF assms(1)] Let_def)
qed

text \<open>What the compiler makes of a \<open>float\<close> literal and of a local \<open>float\<close> variable, up to its final check.\<close>

lemma float_const_code:
  assumes "text_ok tx" and "room tx 20" and "ty_code t = TY_FLOAT"
  shows "\<exists>tx'. compile_floating_const tx (Expr (Some t) c (ET_FLOATING_CONST d f)) d f EC_VALUE = Some tx' \<and> tx_sp tx' = tx_sp tx + 4"
proof -
  let ?t = "track_sp OC_PUSH_FLOAT_CONST (check_track tx OC_PUSH_FLOAT_CONST)"
  let ?bs = "check_bytes tx OC_PUSH_FLOAT_CONST @ opcode_bytes OC_PUSH_FLOAT_CONST" and ?fs = "bytes_of 4 (ucast f) :: byte list"
  have "length (?bs @ ?fs) \<le> 20" using length_operand_bytes_le[of "tx_sp tx"] by (simp add: check_bytes_def)
  then have t: "text_ok ?t" "room ?t (length (?bs @ ?fs))" using assms(1) room_mono[OF assms(2)] by simp_all
  obtain t' where "code_seq ci_code_byte ?t (?bs @ ?fs) = Some t'" using code_seq_total[OF t] by blast
  then obtain t1 where t1: "ci_code_opcode tx OC_PUSH_FLOAT_CONST = Some t1" "code_seq ci_code_byte t1 ?fs = Some t'"
    by (auto simp: ci_code_opcode_eq Let_def code_seq_append bind_Some_iff)
  have "tx_sp t' = tx_sp tx + 4"
    using opcode_sp[OF assms(1) t1(1)] code_seq_sp[OF opcode_ok[OF assms(1) t1(1)] t1(2)] by simp
  with t1 assms(3) show ?thesis by (auto simp: compile_floating_const_def ty_def)
qed

lemma float_var_code:
  assumes "text_ok tx" and "room tx 20" and "ty_code (va_type v) = TY_FLOAT" and "va_is_ci_var v" and "IS_LOCAL_CLASS (va_class v)"
  shows "\<exists>tx' at. ci_compile_var_reference cp tx v EC_VALUE = Some (tx', at) \<and> tx_sp tx' = tx_sp tx + 4"
proof -
  have "opcode_plus (OC_PUSH_AT_STACKADDR LT_SB SZ_B) 12 = Some (OC_PUSH_AT_STACKADDR LT_F SZ_B)" by (simp add: opcode_plus_def opcode_of_Some_iff)
  then have o: "var_opcode cp tx v EC_VALUE = Some (OC_PUSH_AT_STACKADDR LT_F SZ_B, False, unknown_addrtype tx)"
    using assms by (simp add: var_opcode_def is_aggregate_def ci_is_signed_type_def opcode_offset_def ci_effective_typecode_def FLOAT_FORM_OFFSET_def)
  obtain tx' where tx': "ci_code_generic_opcode tx (OC_PUSH_AT_STACKADDR LT_F SZ_B) (va_addr v) = Some tx'"
    using ci_code_generic_opcode_total[of "OC_PUSH_AT_STACKADDR LT_F", OF _ assms(1,2)] by auto
  from generic_sp[of "OC_PUSH_AT_STACKADDR LT_F", OF _ assms(1) this] have "tx_sp tx' = tx_sp tx + 4" by simp
  with tx' assms(4,5) show ?thesis by (auto simp: ci_compile_var_reference_def o IS_LOCAL_CLASS_def)
qed

text \<open>C22.  No \<open>float\<close> literal or local variable can be compiled for its value.  The code for it is emitted, and the opcode
  table counts the four bytes of a \<open>float\<close> for it.  But the compiler expects such an expression to take no stack, because
  it divides the four bytes of a \<open>float\<close> by the eight of a stack word, so its final check of the stack count
  always stops it.\<close>

theorem float_operand_fails_stack_check:
  assumes "text_ok tx" and "room tx 20" and "e = Expr (Some t) c k" and "ty_code t = TY_FLOAT"
    and "k = ET_FLOATING_CONST d f \<or> k = ET_VAR v \<and> va_type v = t \<and> va_is_ci_var v \<and> IS_LOCAL_CLASS (va_class v)"
  shows "\<exists>tx' at. compile_kind cp tx e EC_VALUE = Some (tx', at) \<and> tx_sp tx' = tx_sp tx + 4
    \<and> expected_sp tx e EC_VALUE = Some (tx_sp tx, EC_VALUE) \<and> check_expected (tx_sp tx) (tx', at) = None
    \<and> ci_compile_expression cp tx e EC_VALUE = None"
proof -
  have e: "expected_sp tx e EC_VALUE = Some (tx_sp tx, EC_VALUE)" "is_folded e = Some False"
    using assms(3,4) by (simp_all add: expected_sp_def ty_def FLOAT_NSLOTS_def is_folded_def ci_is_integral_def)
  have "\<exists>tx' at. compile_kind cp tx e EC_VALUE = Some (tx', at) \<and> tx_sp tx' = tx_sp tx + 4"
    using assms(5) float_const_code[OF assms(1,2,4), of c d f] float_var_code[OF assms(1,2), of v cp] assms(3,4)
    by (elim disjE) auto
  then obtain tx' at where k: "compile_kind cp tx e EC_VALUE = Some (tx', at)" "tx_sp tx' = tx_sp tx + 4" by blast
  then have "check_expected (tx_sp tx) (tx', at) = None" by (simp add: check_expected_def)
  moreover from this have "ci_compile_expression cp tx e EC_VALUE = None"
    using e k by (simp add: assms(3) ci_compile_expression.simps)
  ultimately show ?thesis using k e(1) by blast
qed

theorem float_operand_fails_stack_check_witness:
  "ci_compile_expression demo_cparams demo_text (Expr (Some (Type TY_FLOAT 4 None 0 0 0 None)) False (ET_FLOATING_CONST 0 0)) EC_VALUE = None"
proof -
  let ?t = "Type TY_FLOAT 4 None 0 0 0 None"
  have "text_ok demo_text" "room demo_text 20" by (simp_all add: demo_text_def initial_text_def text_ok_def room_def)
  from float_operand_fails_stack_check[OF this HOL.refl, where t = ?t and c = False and k = "ET_FLOATING_CONST 0 0" and d = 0 and f = 0
    and v = demo_var and cp = demo_cparams] show ?thesis by auto
qed

end
