(* ===== verification/Ups_Compile_Stmt.thy ===== *)
theory Ups_Compile_Stmt
  imports Ups_Compile_Expr
begin

text \<open>
  The statement and function compiler (\<open>src/ups/ci_compile.c\<close>).  Its state adds to the code buffer the
  stacks of \<open>break\<close>, \<open>continue\<close> and \<open>goto\<close> labels, the line number table, the list of static
  initialisers, and the label descriptors that the code keeps in the statement tree.  A statement is a
  tree; \<open>goto\<close> labels and \<open>case\<close> labels are identified by numbers, which stand for pointers to
  them.  \<open>None\<close> is a panic, or a step without defined meaning; diagnostics are left out.
\<close>

section \<open>Statements\<close>

datatype (plugins only: code size) initialiser_t =
    IT_INTVAL word64 | IT_FLOATVAL word64
  | IT_STRINGADDR "byte list" word64 | IT_STRINGBYTES "byte list" word64
  | IT_VARADDR var_t word64 | IT_FUNCADDR string | IT_EXPR expr_t | IT_LIST "initialiser_t list"

text \<open>A statement with the line number of its \<open>st_lexinfo\<close>.  A case label has its identity, its expression
  (none for \<open>default\<close>) and its value; a switch has the sorted table of its case labels and the default one;
  a compound statement has the initialisers of its block.\<close>

datatype (plugins only: code size) statement_t = Statement (st_lexinfo: "int option") (st_kind: skind)
and skind =
    STT_LABELED nat statement_t
  | STT_CASE_LABELED nat "expr_t option" int statement_t
  | STT_EXPR "expr_t option"
  | STT_COMPOUND "(var_t \<times> initialiser_t) list" "statement_t list"
  | STT_IF expr_t statement_t "statement_t option"
  | STT_SWITCH expr_t statement_t "(nat \<times> int) list" "nat option"
  | STT_WHILE expr_t statement_t
  | STT_DO expr_t statement_t
  | STT_FOR "expr_t option" "expr_t option" "expr_t option" statement_t
  | STT_GOTO nat
  | STT_CONTINUE
  | STT_BREAK
  | STT_RETURN "expr_t option"

datatype label_type_t = LT_GOTO | LT_BREAK | LT_CONTINUE

text \<open>The part of \<open>text_t\<close> that only this component uses, and \<open>gl_labeldesc\<close> and \<open>cs_labeldesc\<close> of the
  labels, \<open>None\<close> for \<open>NO_LABELDESC\<close>.\<close>

record stext_t =
  st_tx :: text_t
  tx_label_lists :: "label_type_t \<Rightarrow> nat list"
  tx_lnos :: "(nat \<times> int) list"
  tx_initlist :: "(var_t \<times> initialiser_t) list"
  gl_labeldesc :: "nat \<Rightarrow> nat option"
  cs_labeldesc :: "nat \<Rightarrow> nat option"

text \<open>A step that only writes code.\<close>

definition coding :: "stext_t \<Rightarrow> (text_t \<Rightarrow> text_t option) \<Rightarrow> stext_t option" where
  "coding st f = do { tx \<leftarrow> f (st_tx st); Some (st\<lparr>st_tx := tx\<rparr>) }"

definition code_value :: "cparams \<Rightarrow> stext_t \<Rightarrow> expr_t \<Rightarrow> expr_context_t \<Rightarrow> stext_t option" where
  "code_value cp st e context =
     coding st (\<lambda>tx. do { (tx, _) \<leftarrow> ci_compile_expression cp tx e context; Some tx })"

abbreviation st_pc :: "stext_t \<Rightarrow> nat" where "st_pc st \<equiv> tx_pc (st_tx st)"

section \<open>Label lists\<close>

definition push_label :: "stext_t \<Rightarrow> label_type_t \<Rightarrow> stext_t" where
  "push_label st lt =
     (let (tx, ld) = make_label (st_tx st) in
      st\<lparr>st_tx := tx, tx_label_lists := (tx_label_lists st)(lt := ld # tx_label_lists st lt)\<rparr>)"

definition pop_label :: "stext_t \<Rightarrow> label_type_t \<Rightarrow> stext_t option" where
  "pop_label st lt =
     (case tx_label_lists st lt of
        [] \<Rightarrow> None
      | ld # lds \<Rightarrow>
          coding (st\<lparr>tx_label_lists := (tx_label_lists st)(lt := lds)\<rparr>)
            (\<lambda>tx. ci_resolve_and_free_label tx ld))"

section \<open>Addresses of variables\<close>

datatype (plugins only: code size) block_t = Block (bl_vars: "var_t list") (bl_blocks: "block_t list")

text \<open>\<open>set_var_addrs\<close> gives back the variables with their addresses, the next free address, and the code
  buffer with the static variables on its list.  The comparison of a size with \<open>sizeof(stackword_t)\<close>
  is one of unsigned numbers.\<close>

fun set_var_addrs ::
  "typecode_t \<Rightarrow> text_t \<Rightarrow> var_t list \<Rightarrow> word64 \<Rightarrow> bool \<Rightarrow> (var_t list \<times> word64 \<times> text_t) option" where
  "set_var_addrs bt tx [] stack_addr doing_params = Some ([], stack_addr, tx)"
| "set_var_addrs bt tx (v # vs) stack_addr doing_params =
     (if doing_params \<noteq> (va_class v = CL_ARG) then do {
        (vs, a, tx) \<leftarrow> set_var_addrs bt tx vs stack_addr doing_params;
        Some (v # vs, a, tx) }
      else if \<not> IS_LOCAL_CLASS (va_class v) then do {
        tx \<leftarrow> add_to_vlist tx v;
        (vs, a, tx) \<leftarrow> set_var_addrs bt tx vs stack_addr doing_params;
        Some (v # vs, a, tx) }
      else do {
        n \<leftarrow> ci_typesize bt (va_type v);
        let tsize = (of_int n :: word64);
        a \<leftarrow> ci_align_addr_for_type bt stack_addr (va_type v);
        let stack_addr = a + tsize;
        let stack_addr = (if doing_params \<and> tsize < 8 then stack_addr + (8 - tsize) else stack_addr);
        (vs, b, tx) \<leftarrow> set_var_addrs bt tx vs stack_addr doing_params;
        Some (v\<lparr>va_addr := a\<rparr> # vs, b, tx) })"

text \<open>Blocks side by side start at the same address; the result is the highest address any of them uses.\<close>

fun assign_local_addrs :: "typecode_t \<Rightarrow> text_t \<Rightarrow> block_t list \<Rightarrow> word64 \<Rightarrow> word64 \<Rightarrow> (block_t list \<times> word64 \<times> text_t) option" where
  "assign_local_addrs bt tx [] base_addr max_addr = Some ([], max_addr, tx)"
| "assign_local_addrs bt tx (Block vs bs # bls) base_addr max_addr =
     do { (vs, a, tx) \<leftarrow> set_var_addrs bt tx vs base_addr False;
          (bs, a, tx) \<leftarrow> assign_local_addrs bt tx bs a a;
          (bls, m, tx) \<leftarrow> assign_local_addrs bt tx bls base_addr (if a > max_addr then a else max_addr);
          Some (Block vs bs # bls, m, tx) }"

definition set_parameter_addrs :: "typecode_t \<Rightarrow> text_t \<Rightarrow> type_t \<Rightarrow> block_t \<Rightarrow> block_t option" where
  "set_parameter_addrs bt tx fu_type b =
     do { t \<leftarrow> ty_base fu_type;
          let stack_addr = 3 * 8 + (if ty_code t = TY_UNION \<or> ty_code t = TY_STRUCT then 8 else 0);
          (vs, _, _) \<leftarrow> set_var_addrs bt tx (bl_vars b) stack_addr True;
          Some (Block vs (bl_blocks b)) }"

primrec adjust_local_addrs :: "word64 \<Rightarrow> block_t \<Rightarrow> block_t" where
  "adjust_local_addrs delta (Block vs bs) =
     Block (map (\<lambda>v. if va_class v = CL_AUTO then v\<lparr>va_addr := va_addr v + delta\<rparr> else v) vs)
           (map (adjust_local_addrs delta) bs)"

definition set_local_addrs :: "typecode_t \<Rightarrow> text_t \<Rightarrow> block_t \<Rightarrow> (block_t \<times> text_t) option" where
  "set_local_addrs bt tx b =
     do { (bs, stack_addr, tx) \<leftarrow> assign_local_addrs bt tx [b] 0 0;
          let stack_addr = (if stack_addr mod 8 \<noteq> 0 then stack_addr + (8 - stack_addr mod 8) else stack_addr);
          Some (adjust_local_addrs (- stack_addr) (hd bs), tx\<lparr>tx_sp := stack_addr\<rparr>) }"

text \<open>Expressions point to the variables, so they see the addresses that were set: \<open>place\<close> puts them into
  the copies of the variables in a tree.\<close>

primrec block_vars :: "block_t \<Rightarrow> var_t list" where
  "block_vars (Block vs bs) = vs @ concat (map block_vars bs)"

definition place :: "var_t list \<Rightarrow> var_t \<Rightarrow> var_t" where
  "place vs v = (case find (\<lambda>w. va_id w = va_id v) vs of None \<Rightarrow> v | Some w \<Rightarrow> v\<lparr>va_addr := va_addr w\<rparr>)"

primrec place_expr :: "(var_t \<Rightarrow> var_t) \<Rightarrow> expr_t \<Rightarrow> expr_t"
  and place_ekind :: "(var_t \<Rightarrow> var_t) \<Rightarrow> ekind \<Rightarrow> ekind" where
  "place_expr g (Expr t c k) = Expr t c (place_ekind g k)"
| "place_ekind g (ET_INT_CONST w) = ET_INT_CONST w"
| "place_ekind g (ET_CHAR_CONST w) = ET_CHAR_CONST w"
| "place_ekind g (ET_ENUM_CONST w) = ET_ENUM_CONST w"
| "place_ekind g (ET_SIZEOF w) = ET_SIZEOF w"
| "place_ekind g ET_UNDEF_VAR = ET_UNDEF_VAR"
| "place_ekind g (ET_FLOATING_CONST d f) = ET_FLOATING_CONST d f"
| "place_ekind g (ET_STRING_CONST s) = ET_STRING_CONST s"
| "place_ekind g (ET_VAR v) = ET_VAR (g v)"
| "place_ekind g (ET_FUNCNAME n) = ET_FUNCNAME n"
| "place_ekind g (ET_FUNC_CALL f es) = ET_FUNC_CALL (place_expr g f) (map (place_expr g) es)"
| "place_ekind g (ET_DOT e v) = ET_DOT (place_expr g e) v"
| "place_ekind g (ET_MULTI_ARROW i e v) = ET_MULTI_ARROW (place_expr g i) (place_expr g e) v"
| "place_ekind g (ET_BINARY op l r) = ET_BINARY op (place_expr g l) (place_expr g r)"
| "place_ekind g (ET_UNARY op e) = ET_UNARY op (place_expr g e)"
| "place_ekind g (ET_PROMOTION op e) = ET_PROMOTION op (place_expr g e)"
| "place_ekind g (ET_CAST op e) = ET_CAST op (place_expr g e)"
| "place_ekind g (ET_ASSIGNMENT_CONVERSION op e) = ET_ASSIGNMENT_CONVERSION op (place_expr g e)"
| "place_ekind g (ET_SCALE op e n) = ET_SCALE op (place_expr g e) n"
| "place_ekind g (ET_CONDITIONAL b l r) = ET_CONDITIONAL (place_expr g b) (place_expr g l) (place_expr g r)"

primrec place_init :: "(var_t \<Rightarrow> var_t) \<Rightarrow> initialiser_t \<Rightarrow> initialiser_t" where
  "place_init g (IT_INTVAL w) = IT_INTVAL w"
| "place_init g (IT_FLOATVAL w) = IT_FLOATVAL w"
| "place_init g (IT_STRINGADDR s off) = IT_STRINGADDR s off"
| "place_init g (IT_STRINGBYTES s off) = IT_STRINGBYTES s off"
| "place_init g (IT_VARADDR v off) = IT_VARADDR (g v) off"
| "place_init g (IT_FUNCADDR n) = IT_FUNCADDR n"
| "place_init g (IT_EXPR e) = IT_EXPR (place_expr g e)"
| "place_init g (IT_LIST is) = IT_LIST (map (place_init g) is)"

primrec place_stm :: "(var_t \<Rightarrow> var_t) \<Rightarrow> statement_t \<Rightarrow> statement_t"
  and place_skind :: "(var_t \<Rightarrow> var_t) \<Rightarrow> skind \<Rightarrow> skind" where
  "place_stm g (Statement lx k) = Statement lx (place_skind g k)"
| "place_skind g (STT_LABELED gl s) = STT_LABELED gl (place_stm g s)"
| "place_skind g (STT_CASE_LABELED i e v s) = STT_CASE_LABELED i (map_option (place_expr g) e) v (place_stm g s)"
| "place_skind g (STT_EXPR e) = STT_EXPR (map_option (place_expr g) e)"
| "place_skind g (STT_COMPOUND il ss) = STT_COMPOUND (map (map_prod g (place_init g)) il) (map (place_stm g) ss)"
| "place_skind g (STT_IF e s t) = STT_IF (place_expr g e) (place_stm g s) (map_option (place_stm g) t)"
| "place_skind g (STT_SWITCH e s cs d) = STT_SWITCH (place_expr g e) (place_stm g s) cs d"
| "place_skind g (STT_WHILE e s) = STT_WHILE (place_expr g e) (place_stm g s)"
| "place_skind g (STT_DO e s) = STT_DO (place_expr g e) (place_stm g s)"
| "place_skind g (STT_FOR a b c s) = STT_FOR (map_option (place_expr g) a) (map_option (place_expr g) b) (map_option (place_expr g) c) (place_stm g s)"
| "place_skind g (STT_GOTO gl) = STT_GOTO gl"
| "place_skind g STT_CONTINUE = STT_CONTINUE"
| "place_skind g STT_BREAK = STT_BREAK"
| "place_skind g (STT_RETURN e) = STT_RETURN (map_option (place_expr g) e)"

section \<open>Simple statements\<close>

definition add_lno_entry :: "stext_t \<Rightarrow> nat \<Rightarrow> int \<Rightarrow> stext_t" where
  "add_lno_entry st a lnum = st\<lparr>tx_lnos := tx_lnos st @ [(a, lnum)]\<rparr>"

definition compile_expression_statement :: "cparams \<Rightarrow> stext_t \<Rightarrow> expr_t option \<Rightarrow> stext_t option" where
  "compile_expression_statement cp st eo =
     (case eo of None \<Rightarrow> Some st | Some e \<Rightarrow> code_value cp st e EC_EFFECT)"

text \<open>The loop over the initialisers of a block.\<close>

fun compile_initlist :: "cparams \<Rightarrow> stext_t \<Rightarrow> (var_t \<times> initialiser_t) list \<Rightarrow> stext_t option" where
  "compile_initlist cp st [] = Some st"
| "compile_initlist cp st ((v, ini) # il) =
     (if IS_LOCAL_CLASS (va_class v) then
        (case ini of
           IT_EXPR e \<Rightarrow> do {
             st \<leftarrow> coding st (\<lambda>tx. do {
               (tx, _) \<leftarrow> ci_compile_var_reference cp tx v EC_ADDRESS;
               (tx, _) \<leftarrow> ci_compile_expression cp tx e EC_VALUE;
               ci_code_assign cp tx (va_type v) False AT_CI_ADDR });
             compile_initlist cp st il }
         | _ \<Rightarrow> compile_initlist cp st il)
      else compile_initlist cp (st\<lparr>tx_initlist := (v, ini) # tx_initlist st\<rparr>) il)"

definition goto_labeldesc :: "stext_t \<Rightarrow> nat \<Rightarrow> stext_t \<times> nat" where
  "goto_labeldesc st gl =
     (case gl_labeldesc st gl of
        Some ld \<Rightarrow> (st, ld)
      | None \<Rightarrow>
          let st = push_label st LT_GOTO; ld = hd (tx_label_lists st LT_GOTO)
          in (st\<lparr>gl_labeldesc := (gl_labeldesc st)(gl := Some ld)\<rparr>, ld))"

definition code_jump :: "stext_t \<Rightarrow> opcode \<Rightarrow> nat \<Rightarrow> stext_t option" where
  "code_jump st opc ld = coding st (\<lambda>tx. map_option fst (ci_code_jump_to_label tx opc ld))"

definition compile_goto_statement :: "stext_t \<Rightarrow> nat \<Rightarrow> stext_t option" where
  "compile_goto_statement st gl = (let (st, ld) = goto_labeldesc st gl in code_jump st OC_JUMP ld)"

definition compile_continue_or_break_statement :: "stext_t \<Rightarrow> label_type_t \<Rightarrow> stext_t option" where
  "compile_continue_or_break_statement st lt =
     (case tx_label_lists st lt of [] \<Rightarrow> None | ld # _ \<Rightarrow> code_jump st OC_JUMP ld)"

definition return_opcode :: "typecode_t \<Rightarrow> opcode" where
  "return_opcode tc =
     (if tc = TY_FLOAT then OC_RET_FLOAT
      else if tc = TY_DOUBLE then OC_RET_DOUBLE
      else if tc = TY_LONGLONG \<or> tc = TY_ULONGLONG then OC_RET_LONG_LONG
      else OC_RET_WORD)"

fun is_func_call :: "expr_t \<Rightarrow> bool" where
  "is_func_call (Expr _ _ (ET_FUNC_CALL _ _)) = True"
| "is_func_call _ = False"

definition compile_return_statement :: "cparams \<Rightarrow> stext_t \<Rightarrow> expr_t option \<Rightarrow> stext_t option" where
  "compile_return_statement cp st eo = coding st (\<lambda>tx.
     case eo of
       None \<Rightarrow> ci_code_opcode tx OC_RET
     | Some e \<Rightarrow> do {
         t \<leftarrow> ex_type e;
         if ty_code t = TY_STRUCT \<or> ty_code t = TY_UNION then
           (if is_func_call e then do {
              tx \<leftarrow> ci_code_opcode tx OC_PUSH_STRUCTRET_ADDR;
              (tx, _) \<leftarrow> ci_compile_expression cp tx e EC_ADDRESS;
              ci_code_opcode tx OC_RET }
            else do {
              (tx, _) \<leftarrow> ci_compile_expression cp tx e EC_ADDRESS;
              tx \<leftarrow> ci_code_opcode tx OC_RET_STRUCT;
              n \<leftarrow> ci_typesize (cp_bool_type cp) t;
              ci_code_long tx (of_int n) })
         else do {
           (tx, _) \<leftarrow> ci_compile_expression cp tx e EC_VALUE;
           ci_code_opcode tx (return_opcode (ty_code t)) } })"

section \<open>Switch tables\<close>

definition MIN_JUMP_DENSITY :: int where "MIN_JUMP_DENSITY = 80"

text \<open>Assignment to an \<open>int\<close>.\<close>

definition to_int :: "int \<Rightarrow> int" where "to_int n = signed_take_bit 31 n"

fun make_case_labels :: "stext_t \<Rightarrow> (nat \<times> int) list \<Rightarrow> stext_t" where
  "make_case_labels st [] = st"
| "make_case_labels st ((i, v) # cs) =
     (let (tx, ld) = make_label (st_tx st) in
      make_case_labels (st\<lparr>st_tx := tx, cs_labeldesc := (cs_labeldesc st)(i := Some ld)\<rparr>) cs)"

text \<open>A reference to a label at the current position, to be filled in when it is resolved.\<close>

definition code_label_slot :: "stext_t \<Rightarrow> nat \<Rightarrow> stext_t option" where
  "code_label_slot st ld =
     coding st (\<lambda>tx. do { tx \<leftarrow> add_label_reference tx ld (tx_pc tx); Some (tx\<lparr>tx_pc := tx_pc tx + 2\<rparr>) })"

text \<open>The entries of a jump table from \<open>val\<close> on, \<open>k\<close> of them, with the cases still to come.\<close>

fun code_jump_table ::
  "stext_t \<Rightarrow> (nat \<times> int) list \<Rightarrow> nat \<Rightarrow> int \<Rightarrow> int \<Rightarrow> nat \<Rightarrow> (stext_t \<times> (nat \<times> int) list) option" where
  "code_jump_table st cs default_ld minval val 0 = Some (st, cs)"
| "code_jump_table st [] default_ld minval val (Suc k) = None"
| "code_jump_table st ((i, v) # cs) default_ld minval val (Suc k) =
     (if to_int (val + minval) = v then do {
        ld \<leftarrow> cs_labeldesc st i;
        st \<leftarrow> code_label_slot st ld;
        code_jump_table st cs default_ld minval (val + 1) k }
      else do {
        st \<leftarrow> code_label_slot st default_ld;
        code_jump_table st ((i, v) # cs) default_ld minval (val + 1) k })"

fun code_jump_chain ::
  "stext_t \<Rightarrow> (text_t \<Rightarrow> word64 \<Rightarrow> text_t option) \<Rightarrow> (nat \<times> int) list \<Rightarrow> int \<Rightarrow> stext_t option" where
  "code_jump_chain st codefunc [] minval = Some st"
| "code_jump_chain st codefunc ((i, v) # cs) minval =
     do { st \<leftarrow> coding st (\<lambda>tx. codefunc tx (of_int (v - minval)));
          ld \<leftarrow> cs_labeldesc st i;
          st \<leftarrow> code_label_slot st ld;
          code_jump_chain st codefunc cs minval }"

text \<open>The distance of the last label from the first, an \<open>int\<close> that wraps around.\<close>

definition switch_dist :: "(nat \<times> int) list \<Rightarrow> int" where
  "switch_dist cs = to_int (to_int (snd (last cs)) - to_int (snd (hd cs)))"

text \<open>The part of \<open>compile_switch_statement\<close> between the label definitions and the body.  The table of a switch
  without cases is a null pointer.  A negative distance is the panic \<open>val botch in css\<close>, labels left over at the end
  of the table are the panic \<open>case botch in css\<close>.\<close>

definition code_switch :: "stext_t \<Rightarrow> (nat \<times> int) list \<Rightarrow> nat \<Rightarrow> stext_t option" where
  "code_switch st cs default_ld =
     (if cs = [] then None
      else let ncase = to_int (int (length cs));
               minval = to_int (snd (hd cs));
               dist = switch_dist cs in
        if dist < 0 then None
        else do {
          st \<leftarrow> (if dist = 0 \<or> to_int (ncase * 100) div dist > MIN_JUMP_DENSITY then do {
                   st \<leftarrow> coding st (\<lambda>tx. do {
                     tx \<leftarrow> ci_code_opcode tx OC_SWITCH_ON_TABLE;
                     tx \<leftarrow> ci_code_word tx (of_int (dist + 1));
                     ci_code_long tx (of_int minval) });
                   (st, rest) \<leftarrow> code_jump_table st cs default_ld minval 0 (nat (dist + 1));
                   if rest \<noteq> [] then None else Some st }
                 else do {
                   let (sz, codefunc) =
                     (if dist \<le> 0xff then (SZ_B, ci_code_byte)
                      else if dist \<le> 0xffff then (SZ_W, ci_code_word)
                      else (SZ_L, ci_code_long));
                   st \<leftarrow> coding st (\<lambda>tx. do {
                     tx \<leftarrow> ci_code_opcode tx (OC_SWITCH_ON_CHAIN sz);
                     tx \<leftarrow> ci_code_word tx (of_int ncase);
                     ci_code_long tx (of_int minval) });
                   code_jump_chain st codefunc cs minval });
          code_label_slot st default_ld })"

fun resolve_case_labels :: "stext_t \<Rightarrow> (nat \<times> int) list \<Rightarrow> stext_t option" where
  "resolve_case_labels st [] = Some st"
| "resolve_case_labels st ((i, v) # cs) =
     do { ld \<leftarrow> cs_labeldesc st i;
          st \<leftarrow> coding st (\<lambda>tx. ci_resolve_and_free_label tx ld);
          resolve_case_labels st cs }"

section \<open>Statements\<close>

function (sequential)
  compile_statement :: "cparams \<Rightarrow> stext_t \<Rightarrow> statement_t \<Rightarrow> stext_t option"
and compile_statements :: "cparams \<Rightarrow> stext_t \<Rightarrow> statement_t list \<Rightarrow> stext_t option"
and compile_labeled_statement :: "cparams \<Rightarrow> stext_t \<Rightarrow> nat \<Rightarrow> statement_t \<Rightarrow> stext_t option"
and compile_case_labeled_statement :: "cparams \<Rightarrow> stext_t \<Rightarrow> nat \<Rightarrow> statement_t \<Rightarrow> stext_t option"
and compile_compound_statement ::
      "cparams \<Rightarrow> stext_t \<Rightarrow> (var_t \<times> initialiser_t) list \<Rightarrow> statement_t list \<Rightarrow> stext_t option"
and compile_if_statement :: "cparams \<Rightarrow> stext_t \<Rightarrow> expr_t \<Rightarrow> statement_t \<Rightarrow> statement_t option \<Rightarrow> stext_t option"
and compile_switch_statement ::
      "cparams \<Rightarrow> stext_t \<Rightarrow> expr_t \<Rightarrow> statement_t \<Rightarrow> (nat \<times> int) list \<Rightarrow> nat option \<Rightarrow> stext_t option"
and compile_while_or_do_statement :: "cparams \<Rightarrow> stext_t \<Rightarrow> expr_t \<Rightarrow> statement_t \<Rightarrow> bool \<Rightarrow> stext_t option"
and compile_for_statement ::
      "cparams \<Rightarrow> stext_t \<Rightarrow> expr_t option \<Rightarrow> expr_t option \<Rightarrow> expr_t option \<Rightarrow> statement_t \<Rightarrow> stext_t option"
where
  "compile_statement cp st (Statement lx k) =
     (let st = (case lx of None \<Rightarrow> st | Some lnum \<Rightarrow> add_lno_entry st (st_pc st) lnum) in
      case k of
        STT_LABELED gl s \<Rightarrow> compile_labeled_statement cp st gl s
      | STT_CASE_LABELED i e v s \<Rightarrow> compile_case_labeled_statement cp st i s
      | STT_EXPR e \<Rightarrow> compile_expression_statement cp st e
      | STT_COMPOUND il ss \<Rightarrow> compile_compound_statement cp st il ss
      | STT_IF e s t \<Rightarrow> compile_if_statement cp st e s t
      | STT_SWITCH e s cs d \<Rightarrow> compile_switch_statement cp st e s cs d
      | STT_WHILE e s \<Rightarrow> compile_while_or_do_statement cp st e s True
      | STT_DO e s \<Rightarrow> compile_while_or_do_statement cp st e s False
      | STT_FOR a b c s \<Rightarrow> compile_for_statement cp st a b c s
      | STT_GOTO gl \<Rightarrow> compile_goto_statement st gl
      | STT_CONTINUE \<Rightarrow> compile_continue_or_break_statement st LT_CONTINUE
      | STT_BREAK \<Rightarrow> compile_continue_or_break_statement st LT_BREAK
      | STT_RETURN e \<Rightarrow> compile_return_statement cp st e)"

| "compile_statements cp st [] = Some st"
| "compile_statements cp st (s # ss) = do { st \<leftarrow> compile_statement cp st s; compile_statements cp st ss }"

| "compile_labeled_statement cp st gl s =
     (let (st, ld) = goto_labeldesc st gl in
      do { st \<leftarrow> coding st (\<lambda>tx. set_label_addr tx ld (tx_pc tx));
           compile_statement cp st s })"

| "compile_case_labeled_statement cp st i s =
     do { ld \<leftarrow> cs_labeldesc st i;
          st \<leftarrow> coding st (\<lambda>tx. set_label_addr tx ld (tx_pc tx));
          compile_statement cp st s }"

| "compile_compound_statement cp st il ss =
     do { st \<leftarrow> compile_initlist cp st il; compile_statements cp st ss }"

| "compile_if_statement cp st e s t =
     do { st \<leftarrow> code_value cp st e EC_VALUE;
          (tx, elselabel) \<leftarrow> ci_code_jump_to_label (st_tx st) OC_JUMP_IF_ZERO NO_LABELDESC;
          st \<leftarrow> compile_statement cp (st\<lparr>st_tx := tx\<rparr>) s;
          case t of
            None \<Rightarrow> coding st (\<lambda>tx. ci_resolve_and_free_label tx elselabel)
          | Some t \<Rightarrow> do {
              (tx, nextlabel) \<leftarrow> ci_code_jump_to_label (st_tx st) OC_JUMP NO_LABELDESC;
              st \<leftarrow> coding (st\<lparr>st_tx := tx\<rparr>) (\<lambda>tx. ci_resolve_and_free_label tx elselabel);
              st \<leftarrow> compile_statement cp st t;
              coding st (\<lambda>tx. ci_resolve_and_free_label tx nextlabel) } }"

| "compile_switch_statement cp st e s cs d =
     do { st \<leftarrow> code_value cp st e EC_VALUE;
          let st = make_case_labels st cs;
          let (tx, default_ld) = make_label (st_tx st);
          let st = st\<lparr>st_tx := tx\<rparr>;
          let st = (case d of None \<Rightarrow> st | Some i \<Rightarrow> st\<lparr>cs_labeldesc := (cs_labeldesc st)(i := Some default_ld)\<rparr>);
          st \<leftarrow> code_switch st cs default_ld;
          let st = push_label st LT_BREAK;
          st \<leftarrow> compile_statement cp st s;
          st \<leftarrow> pop_label st LT_BREAK;
          st \<leftarrow> coding st (\<lambda>tx. ci_resolve_and_free_label tx default_ld);
          resolve_case_labels st cs }"

| "compile_while_or_do_statement cp st e s is_while_statement =
     do { let st = push_label st LT_BREAK;
          let st = push_label st LT_CONTINUE;
          st \<leftarrow> (if is_while_statement then compile_continue_or_break_statement st LT_CONTINUE else Some st);
          let (tx, loop_label) = make_label (st_tx st);
          st \<leftarrow> coding (st\<lparr>st_tx := tx\<rparr>) (\<lambda>tx. set_label_addr tx loop_label (tx_pc tx));
          st \<leftarrow> compile_statement cp st s;
          st \<leftarrow> pop_label st LT_CONTINUE;
          st \<leftarrow> code_value cp st e EC_VALUE;
          st \<leftarrow> code_jump st OC_JUMP_IF_NON_ZERO loop_label;
          st \<leftarrow> pop_label st LT_BREAK;
          coding st (\<lambda>tx. ci_resolve_and_free_label tx loop_label) }"

| "compile_for_statement cp st a b c s =
     do { let st = push_label st LT_BREAK;
          let st = push_label st LT_CONTINUE;
          st \<leftarrow> compile_expression_statement cp st a;
          (tx, test_label) \<leftarrow> ci_code_jump_to_label (st_tx st) OC_JUMP NO_LABELDESC;
          let (tx, loop_label) = make_label tx;
          st \<leftarrow> coding (st\<lparr>st_tx := tx\<rparr>) (\<lambda>tx. set_label_addr tx loop_label (tx_pc tx));
          st \<leftarrow> compile_statement cp st s;
          st \<leftarrow> pop_label st LT_CONTINUE;
          st \<leftarrow> compile_expression_statement cp st c;
          st \<leftarrow> coding st (\<lambda>tx. ci_resolve_and_free_label tx test_label);
          st \<leftarrow> (case b of
                   Some e \<Rightarrow> do { st \<leftarrow> code_value cp st e EC_VALUE; code_jump st OC_JUMP_IF_NON_ZERO loop_label }
                 | None \<Rightarrow> code_jump st OC_JUMP loop_label);
          st \<leftarrow> pop_label st LT_BREAK;
          coding st (\<lambda>tx. ci_resolve_and_free_label tx loop_label) }"
  by pat_completeness auto

termination
  by (relation "measure (case_sum
      (case_sum
        (case_sum (\<lambda>(cp, st, s). 3 * size s) (\<lambda>(cp, st, ss). 3 * size_list size ss))
        (case_sum (\<lambda>(cp, st, gl, s). 3 * size s + 1) (\<lambda>(cp, st, i, s). 3 * size s + 1)))
      (case_sum
        (case_sum (\<lambda>(cp, st, il, ss). 3 * size_list size ss + 1) (\<lambda>(cp, st, e, s, t). 3 * (size s + size_option size t) + 1))
        (case_sum (\<lambda>(cp, st, e, s, cs, d). 3 * size s + 1)
          (case_sum (\<lambda>(cp, st, e, s, w). 3 * size s + 1) (\<lambda>(cp, st, a, b, c, s). 3 * size s + 1)))))") auto

declare compile_statement.simps [simp del]

section \<open>Functions\<close>

record func_t =
  fu_name :: string
  fu_type :: type_t
  fu_addr :: nat
  fu_blocks :: "block_t list"
  fu_statement :: statement_t
  fu_lnos :: "(nat \<times> int) list"
  fu_static :: bool

fun pop_goto_labels :: "nat \<Rightarrow> stext_t \<Rightarrow> stext_t option" where
  "pop_goto_labels 0 st = Some st"
| "pop_goto_labels (Suc n) st = do { st \<leftarrow> pop_label st LT_GOTO; pop_goto_labels n st }"

text \<open>The code of a function starts with \<open>OC_LINK\<close>, whose second operand, the stack that expressions need, is
  known only at the end.  \<open>fu_lnos\<close> is \<open>fu__lnos\<close>, \<open>fu_static\<close> the bit \<open>FU_STATIC\<close> of
  \<open>fu_flags\<close>.\<close>

definition compile_func :: "cparams \<Rightarrow> stext_t \<Rightarrow> func_t \<Rightarrow> (stext_t \<times> func_t) option" where
  "compile_func cp st f =
     (case fu_blocks f of
        [b] \<Rightarrow> do {
          b \<leftarrow> set_parameter_addrs (cp_bool_type cp) (st_tx st) (fu_type f) b;
          (b, tx) \<leftarrow> set_local_addrs (cp_bool_type cp) (st_tx st) b;
          let tx = tx\<lparr>tx_max_sp := tx_sp tx\<rparr>;
          tx \<leftarrow> ci_code_generic_opcode tx (OC_LINK SZ_B) (tx_sp tx);
          let savesp = tx_sp tx;
          let checkpc = tx_pc tx;
          let tx = tx\<lparr>tx_pc := tx_pc tx + 4\<rparr>;
          st \<leftarrow> compile_statement cp (st\<lparr>st_tx := tx\<rparr>) (place_stm (place (block_vars b)) (fu_statement f));
          let savepc = st_pc st;
          tx \<leftarrow> ci_code_long ((st_tx st)\<lparr>tx_pc := checkpc\<rparr>) (tx_max_sp (st_tx st) - savesp);
          let tx = tx\<lparr>tx_pc := savepc\<rparr>;
          let f = f\<lparr>fu_blocks := [b], fu_lnos := tx_lnos st\<rparr>;
          let st = st\<lparr>st_tx := tx, tx_lnos := []\<rparr>;
          st \<leftarrow> pop_goto_labels (length (tx_label_lists st LT_GOTO)) st;
          Some (st, f) }
      | _ \<Rightarrow> None)"

fun is_return :: "statement_t \<Rightarrow> bool" where
  "is_return (Statement _ (STT_RETURN _)) = True"
| "is_return _ = False"

fun need_final_return :: "statement_t \<Rightarrow> bool option" where
  "need_final_return (Statement _ (STT_COMPOUND _ ss)) = Some (ss = [] \<or> \<not> is_return (last ss))"
| "need_final_return _ = None"

fun compile_funcs :: "cparams \<Rightarrow> stext_t \<Rightarrow> func_t list \<Rightarrow> word64 \<Rightarrow> (stext_t \<times> func_t list \<times> word64) option" where
  "compile_funcs cp st [] max_sp = Some (st, [], max_sp)"
| "compile_funcs cp st (f # fs) max_sp =
     do { (st, f) \<leftarrow> compile_func cp st (f\<lparr>fu_addr := st_pc st\<rparr>);
          final_return \<leftarrow> need_final_return (fu_statement f);
          st \<leftarrow> (if final_return then coding st (\<lambda>tx. ci_code_opcode tx OC_RET) else Some st);
          (st, fs, max_sp) \<leftarrow> compile_funcs cp st fs
            (if tx_max_sp (st_tx st) > max_sp then tx_max_sp (st_tx st) else max_sp);
          Some (st, f # fs, max_sp) }"

text \<open>What the parser gives: the functions, and of the outermost block the variables, the initialisers and
  whether it has a parent.\<close>

record parse_res_t =
  pr_funcs :: "func_t list"
  pr_vars :: "var_t list"
  pr_initlist :: "(var_t \<times> initialiser_t) list"
  pr_has_parent :: bool

definition compile ::
  "cparams \<Rightarrow> parse_res_t \<Rightarrow> (type_t \<Rightarrow> nat \<Rightarrow> nat \<Rightarrow> word64 option) option \<Rightarrow> (word64 \<Rightarrow> word64) option \<Rightarrow> word64
     \<Rightarrow> (stext_t \<times> func_t list) option" where
  "compile cp pr checkarg_proc regno_to_addr_proc flags =
     do { tx \<leftarrow> ci_code_opcode
            (initial_text flags (pr_has_parent pr) (map fu_name (pr_funcs pr)) (pr_vars pr) checkarg_proc regno_to_addr_proc)
            OC_TRAP;
          let st = \<lparr>st_tx = tx, tx_label_lists = (\<lambda>_. []), tx_lnos = [], tx_initlist = pr_initlist pr,
                    gl_labeldesc = (\<lambda>_. None), cs_labeldesc = (\<lambda>_. None)\<rparr>;
          (st, fs, max_sp) \<leftarrow> compile_funcs cp st (pr_funcs pr) 0;
          Some (st\<lparr>st_tx := (st_tx st)\<lparr>tx_sp := max_sp + 8\<rparr>\<rparr>, fs) }"

end
