(* ===== verification/Ups_Labels.thy ===== *)
theory Ups_Labels
  imports Ups_Compile_Sem Ups_Compile_Stmt
begin

text \<open>
  Labels with any number of references.  While a statement is compiled the buffer holds jumps whose
  distances are not known yet.  \<open>agrees f T a b\<close> says that the code \<open>f\<close> is what the buffer \<open>b\<close> will have become, from
  the position of \<open>a\<close> on, once every label \<open>ld\<close> in use is resolved to the position \<open>T ld\<close>.  Each
  operation on the buffer has a rule that takes \<open>agrees\<close> from the buffer after it to the buffer before
  it, so that what is known at the end of a statement is known for each of its parts.
\<close>

section \<open>References\<close>

abbreviation labs :: "text_t \<Rightarrow> nat \<Rightarrow> branch_label option" where "labs \<equiv> labeldesc_to_label"

text \<open>The labels and places of all the references that wait for an address.\<close>

definition refs_in :: "text_t \<Rightarrow> (nat \<times> nat) set" where
  "refs_in tx = {(ld, r). \<exists>lb. labs tx ld = Some lb \<and> r \<in> set (lb_refs lb)}"

definition pending :: "text_t \<Rightarrow> nat set" where
  "pending tx = {i. \<exists>ld r. (ld, r) \<in> refs_in tx \<and> r \<le> i \<and> i < r + 2}"

text \<open>They lie in the code written so far and do not overlap.\<close>

definition refs_apart :: "text_t \<Rightarrow> bool" where
  "refs_apart tx \<longleftrightarrow> (\<forall>ld lb. labs tx ld = Some lb \<longrightarrow> distinct (lb_refs lb))
     \<and> (\<forall>ld r. (ld, r) \<in> refs_in tx \<longrightarrow> r + 2 \<le> tx_pc tx)
     \<and> (\<forall>ld r ld' r'. (ld, r) \<in> refs_in tx \<longrightarrow> (ld', r') \<in> refs_in tx \<longrightarrow> (ld, r) \<noteq> (ld', r') \<longrightarrow> r + 2 \<le> r' \<or> r' + 2 \<le> r)"

definition tidy :: "text_t \<Rightarrow> bool" where
  "tidy tx \<longleftrightarrow> text_ok tx \<and> refs_apart tx"

lemma tidy_ok: "tidy tx \<Longrightarrow> text_ok tx" by (simp add: tidy_def)

lemma label_max: "labs a ld = Some lb \<Longrightarrow> ld \<le> MAX_LABELDESC"
  by (simp add: labeldesc_to_label_def split: if_split_asm)

lemma refs_in_cong: "labs b = labs a \<Longrightarrow> refs_in b = refs_in a"
  by (simp add: refs_in_def)

lemma pendingI: "(ld, r) \<in> refs_in tx \<Longrightarrow> r \<le> i \<Longrightarrow> i < r + 2 \<Longrightarrow> i \<in> pending tx"
  unfolding pending_def by blast

lemma pending_less: "tidy tx \<Longrightarrow> i \<in> pending tx \<Longrightarrow> i < tx_pc tx"
  by (fastforce simp: tidy_def refs_apart_def pending_def)

lemma tidy_apart:
  assumes "tidy tx" and "(ld, r) \<in> refs_in tx" and "(ld', r') \<in> refs_in tx" and "ld = ld' \<Longrightarrow> r \<noteq> r'"
  shows "r + 2 \<le> r' \<or> r' + 2 \<le> r"
  using assms unfolding tidy_def refs_apart_def by blast

lemma apart_refs_ok:
  assumes "tidy tx" and "labs tx ld = Some lb"
  shows "refs_ok (tx_pc tx) (lb_refs lb)"
proof -
  let ?rs = "lb_refs lb"
  have d: "distinct ?rs" using assms by (auto simp: tidy_def refs_apart_def)
  have m: "(ld, r) \<in> refs_in tx" if "r \<in> set ?rs" for r using that assms(2) by (auto simp: refs_in_def)
  have lim: "r + 2 \<le> tx_pc tx" if "r \<in> set ?rs" for r
    using m[OF that] assms(1) by (auto simp: tidy_def refs_apart_def)
  have "?rs ! i + 2 \<le> ?rs ! j \<or> ?rs ! j + 2 \<le> ?rs ! i" if "i < j" "j < length ?rs" for i j
  proof -
    have "?rs ! i \<noteq> ?rs ! j" using d that by (simp add: nth_eq_iff_index_eq)
    moreover have "(ld, ?rs ! i) \<in> refs_in tx" "(ld, ?rs ! j) \<in> refs_in tx" using that by (auto intro!: m)
    ultimately show ?thesis using tidy_apart[OF assms(1)] by blast
  qed
  with lim show ?thesis by (auto simp: refs_ok_def sorted_wrt_iff_nth_less)
qed

section \<open>Code that a buffer becomes\<close>

lemma has_code_append: "has_code f p (xs @ ys) \<longleftrightarrow> has_code f p xs \<and> has_code f (p + length xs) ys"
proof -
  have "f (p + k) = Some ((xs @ ys) ! k)" if "has_code f p xs" "has_code f (p + length xs) ys" "k < length (xs @ ys)" for k
  proof (cases "k < length xs")
    case False
    then obtain j where "k = length xs + j" using le_Suc_ex not_less by blast
    with that show ?thesis by (auto simp: has_code_def nth_append add.assoc)
  qed (use that in \<open>simp add: has_code_def nth_append\<close>)
  moreover have "has_code f p xs \<and> has_code f (p + length xs) ys" if "has_code f p (xs @ ys)"
  proof -
    have "f (p + k) = Some (xs ! k)" if "k < length xs" for k using \<open>has_code f p (xs @ ys)\<close> that by (auto simp: has_code_def nth_append)
    moreover have "f (p + length xs + j) = Some (ys ! j)" if "j < length ys" for j
      using \<open>has_code f p (xs @ ys)\<close>[unfolded has_code_def, rule_format, of "length xs + j"] that by (simp add: nth_append add.assoc)
    ultimately show ?thesis by (simp add: has_code_def)
  qed
  ultimately show ?thesis unfolding has_code_def[of f p "xs @ ys"] by blast
qed

definition jumps_to :: "(nat \<Rightarrow> byte option) \<Rightarrow> nat \<Rightarrow> nat \<Rightarrow> bool" where
  "jumps_to f r t \<longleftrightarrow> fits_short (branch_offset t r) \<and> has_code f r (bytes_of 2 (branch_offset t r))"

definition agrees :: "(nat \<Rightarrow> byte option) \<Rightarrow> (nat \<Rightarrow> nat) \<Rightarrow> nat \<Rightarrow> text_t \<Rightarrow> bool" where
  "agrees f T lo b \<longleftrightarrow> (\<forall>i. lo \<le> i \<and> i < tx_pc b \<and> i \<notin> pending b \<longrightarrow> f i = cells b i)
     \<and> (\<forall>ld r. (ld, r) \<in> refs_in b \<and> lo \<le> r \<longrightarrow> jumps_to f r (T ld))"

lemma agrees_from: "agrees f T lo b \<Longrightarrow> lo \<le> lo' \<Longrightarrow> agrees f T lo' b"
  by (auto simp: agrees_def)

lemma agrees_targets:
  assumes "agrees f T lo b" and "\<And>ld. labs b ld \<noteq> None \<Longrightarrow> T' ld = T ld"
  shows "agrees f T' lo b"
proof -
  have "T' ld = T ld" if "(ld, r) \<in> refs_in b" for ld r using that assms(2)[of ld] by (auto simp: refs_in_def)
  with assms(1) show ?thesis unfolding agrees_def by metis
qed

text \<open>What \<open>a\<close> had fixed is as it was in \<open>b\<close>, and its references still wait.\<close>

lemma agrees_back:
  assumes "agrees f T lo b" and "tx_pc a \<le> tx_pc b"
    and "\<And>i. i < tx_pc a \<Longrightarrow> i \<notin> pending a \<Longrightarrow> i \<notin> pending b \<and> cells b i = cells a i"
    and "\<And>ld r. (ld, r) \<in> refs_in a \<Longrightarrow> (ld, r) \<in> refs_in b"
  shows "agrees f T lo a"
  using assms unfolding agrees_def by (metis less_le_trans)

section \<open>Operations\<close>

text \<open>Code without labels of its own.\<close>

lemma tidy_same_refs:
  assumes "tidy a" and "text_ok b" and "tx_pc a \<le> tx_pc b" and "labs b = labs a"
  shows "tidy b"
  using assms refs_in_cong[OF assms(4)] by (fastforce simp: tidy_def refs_apart_def)

lemma lext_tidy: "lext a b \<Longrightarrow> tidy a \<Longrightarrow> tidy b"
  by (rule tidy_same_refs) (simp_all add: lext_def ext_def)

lemma lext_agrees:
  assumes "lext a b" and "tidy a" and "agrees f T lo b"
  shows "agrees f T lo a" and "\<And>i. lo \<le> tx_pc a \<Longrightarrow> tx_pc a \<le> i \<Longrightarrow> i < tx_pc b \<Longrightarrow> f i = cells b i"
proof -
  have r: "refs_in b = refs_in a" and p: "pending b = pending a"
    using assms(1) refs_in_cong[of b a] by (auto simp: lext_def pending_def)
  show "agrees f T lo a"
    by (rule agrees_back[OF assms(3)]) (use assms(1) r p in \<open>auto simp: lext_def ext_def\<close>)
  fix i assume "lo \<le> tx_pc a" "tx_pc a \<le> i" "i < tx_pc b"
  moreover have "i \<notin> pending b" using pending_less[OF assms(2), of i] p \<open>tx_pc a \<le> i\<close> by auto
  ultimately show "f i = cells b i" using assms(3) by (simp add: agrees_def)
qed

text \<open>Making a label, and giving it an address.\<close>

lemma make_label_labs:
  assumes "text_ok a" and "make_label a = (b, ld)"
  shows "labs a ld = None" and "ld \<le> MAX_LABELDESC \<Longrightarrow> labs b ld = Some \<lparr>lb_addr = 0, lb_refs = []\<rparr>"
    and "refs_in b = refs_in a" and "cells b = cells a" and "tx_pc b = tx_pc a" and "tx_flags b = tx_flags a" and "text_ok b"
    and "\<And>k. k \<noteq> ld \<Longrightarrow> labs b k = labs a k"
proof -
  note m = make_label_ext[OF assms] and f = make_label_fresh[OF assms]
  show n: "labs a ld = None" "tx_pc b = tx_pc a" "cells b = cells a" "text_ok b" "tx_flags b = tx_flags a"
    using m f by (simp_all add: ext_def)
  show l: "labs b ld = Some \<lparr>lb_addr = 0, lb_refs = []\<rparr>" if "ld \<le> MAX_LABELDESC"
    using that f(2,3) by (simp add: labeldesc_to_label_def)
  have big: "labs b ld = None" if "\<not> ld \<le> MAX_LABELDESC" using that by (simp add: labeldesc_to_label_def)
  show k: "labs b k = labs a k" if "k \<noteq> ld" for k using m(5)[OF that] .
  have "(k, r) \<in> refs_in b \<longleftrightarrow> (k, r) \<in> refs_in a" for k r
    using n(1) k[of k] l big by (cases "k = ld"; cases "ld \<le> MAX_LABELDESC") (auto simp: refs_in_def)
  then show "refs_in b = refs_in a" by auto
qed

lemma tidy_refs:
  assumes "tidy a" and "text_ok b" and "tx_pc a \<le> tx_pc b" and "refs_in b \<subseteq> refs_in a"
    and "\<And>ld lb. labs b ld = Some lb \<Longrightarrow> distinct (lb_refs lb)"
  shows "tidy b"
proof -
  have "r + 2 \<le> tx_pc b" if "(ld, r) \<in> refs_in b" for ld r
    using that assms(1,3,4) by (fastforce simp: tidy_def refs_apart_def)
  moreover have "r + 2 \<le> r' \<or> r' + 2 \<le> r" if "(ld, r) \<in> refs_in b" "(ld', r') \<in> refs_in b" "(ld, r) \<noteq> (ld', r')" for ld r ld' r'
    using that assms(4) by (intro tidy_apart[OF assms(1), of ld _ ld']) auto
  ultimately show ?thesis using assms(2,5) by (simp add: tidy_def refs_apart_def)
qed

lemma make_label_tidy:
  assumes "make_label a = (b, ld)" and "tidy a"
  shows "tidy b" and "agrees f T lo b = agrees f T lo a"
proof -
  note m = make_label_labs[OF tidy_ok[OF assms(2)] assms(1)]
  have "distinct (lb_refs lb)" if "labs b k = Some lb" for k lb
    using that m(2,8) assms(2) label_max[OF that] by (cases "k = ld") (auto simp: tidy_def refs_apart_def)
  with m assms(2) show "tidy b" by (intro tidy_refs[of a b]) auto
  have "pending b = pending a" using m(3) by (simp add: pending_def)
  with m show "agrees f T lo b = agrees f T lo a" by (simp add: agrees_def)
qed

lemma set_label_addr_labs:
  assumes "set_label_addr a ld p = Some b" and "text_ok a"
  obtains lb where "labs a ld = Some lb" and "lb_addr lb = 0" and "labs b = (labs a)(ld := Some (lb\<lparr>lb_addr := p\<rparr>))"
    and "refs_in b = refs_in a" and "cells b = cells a" and "tx_pc b = tx_pc a" and "tx_flags b = tx_flags a" and "text_ok b"
proof -
  obtain lb where lb: "labs a ld = Some lb" "lb_addr lb = 0" "b = a\<lparr>tx_labels := (tx_labels a)[ld := Some (lb\<lparr>lb_addr := p\<rparr>)]\<rparr>"
    using assms(1) by (auto simp: set_label_addr_def bind_Some_iff split: if_split_asm)
  have ld: "ld < length (tx_labels a)" "\<not> MAX_LABELDESC < ld" "\<not> tx_labellim a \<le> ld"
    using lb(1) assms(2) by (auto simp: labeldesc_to_label_def text_ok_def split: if_split_asm)
  have l: "labs b = (labs a)(ld := Some (lb\<lparr>lb_addr := p\<rparr>))"
    using ld by (auto simp: lb(3) labeldesc_to_label_def fun_eq_iff)
  have r: "refs_in b = refs_in a" using l lb(1) by (auto simp: refs_in_def split: if_split_asm)
  show ?thesis using that[OF lb(1,2) l r] assms(2) by (simp add: lb(3) text_ok_def)
qed

lemma set_label_addr_tidy:
  assumes "set_label_addr a ld p = Some b" and "tidy a"
  shows "tidy b" and "agrees f T lo b = agrees f T lo a"
proof -
  obtain lb where m: "labs a ld = Some lb" "labs b = (labs a)(ld := Some (lb\<lparr>lb_addr := p\<rparr>))" "refs_in b = refs_in a"
      "cells b = cells a" "tx_pc b = tx_pc a" "text_ok b"
    using set_label_addr_labs[OF assms(1) tidy_ok[OF assms(2)]] by metis
  have "distinct (lb_refs l)" if "labs b k = Some l" for k l
    using that m(1,2) assms(2) by (cases "k = ld") (auto simp: tidy_def refs_apart_def)
  with m assms(2) show "tidy b" by (intro tidy_refs[of a b]) auto
  have "pending b = pending a" using m(3) by (simp add: pending_def)
  with m show "agrees f T lo b = agrees f T lo a" by (simp add: agrees_def)
qed

text \<open>A new reference to a label, in code that was not there before.\<close>

definition new_reference :: "text_t \<Rightarrow> text_t \<Rightarrow> nat \<Rightarrow> nat \<Rightarrow> branch_label \<Rightarrow> bool" where
  "new_reference a b ld r lb \<longleftrightarrow> tidy a \<and> labs a ld = Some lb
     \<and> labs b = (labs a)(ld := Some (lb\<lparr>lb_refs := r # lb_refs lb\<rparr>))
     \<and> tx_pc a \<le> r \<and> r + 2 \<le> tx_pc b \<and> text_ok b \<and> (\<forall>i < tx_pc a. cells b i = cells a i)"

lemma new_reference_refs: "new_reference a b ld r lb \<Longrightarrow> refs_in b = insert (ld, r) (refs_in a)"
  by (auto simp: refs_in_def new_reference_def split: if_split_asm)

lemma ref_inside: "tidy a \<Longrightarrow> (k, q) \<in> refs_in a \<Longrightarrow> q + 2 \<le> tx_pc a"
  by (auto simp: tidy_def refs_apart_def)

lemma new_reference_tidy:
  assumes "new_reference a b ld r lb"
  shows "tidy b"
proof -
  note n = assms[unfolded new_reference_def] and refs = new_reference_refs[OF assms]
  have tidy: "tidy a" and pc: "tx_pc a \<le> r" "r + 2 \<le> tx_pc b" and lb: "labs a ld = Some lb" using n by simp_all
  have "r \<notin> set (lb_refs lb)" using ref_inside[OF tidy, of ld r] lb pc(1) by (auto simp: refs_in_def)
  then have "distinct (lb_refs l)" if "labs b k = Some l" for k l
    using that n by (auto simp: tidy_def refs_apart_def split: if_split_asm)
  moreover have "q + 2 \<le> tx_pc b" if "(k, q) \<in> refs_in b" for k q
    using that ref_inside[OF tidy, of k q] pc by (auto simp: refs)
  moreover have "q + 2 \<le> q' \<or> q' + 2 \<le> q" if "(k, q) \<in> refs_in b" "(k', q') \<in> refs_in b" "(k, q) \<noteq> (k', q')" for k q k' q'
    using that ref_inside[OF tidy, of k q] ref_inside[OF tidy, of k' q'] pc(1) tidy_apart[OF tidy, of k q k' q'] by (auto simp: refs)
  ultimately show ?thesis using n by (auto simp: tidy_def refs_apart_def)
qed

lemma new_reference_pending:
  "new_reference a b ld r lb \<Longrightarrow> i \<in> pending b \<longleftrightarrow> i \<in> pending a \<or> (r \<le> i \<and> i < r + 2)"
  by (auto simp: pending_def new_reference_refs)

lemma new_reference_agrees:
  assumes "new_reference a b ld r lb" and "agrees f T lo b"
  shows "agrees f T lo a" and "lo \<le> r \<Longrightarrow> jumps_to f r (T ld)"
    and "\<And>i. lo \<le> tx_pc a \<Longrightarrow> tx_pc a \<le> i \<Longrightarrow> i < tx_pc b \<Longrightarrow> i < r \<or> r + 2 \<le> i \<Longrightarrow> f i = cells b i"
proof -
  note n = assms(1)[unfolded new_reference_def] and p = new_reference_pending[OF assms(1)] and refs = new_reference_refs[OF assms(1)]
  show "agrees f T lo a"
    by (rule agrees_back[OF assms(2)]) (use n in \<open>auto simp: p refs\<close>)
  show "jumps_to f r (T ld)" if "lo \<le> r" using assms(2) that by (simp add: agrees_def refs)
  fix i assume i: "lo \<le> tx_pc a" "tx_pc a \<le> i" "i < tx_pc b" "i < r \<or> r + 2 \<le> i"
  have "i \<notin> pending b" using pending_less[of a i] n i(2,4) by (auto simp: p)
  with assms(2) i show "f i = cells b i" by (simp add: agrees_def)
qed

text \<open>Jumps to a label.\<close>

lemma add_reference_labs:
  assumes "add_label_reference a ld p = Some b" and "text_ok a"
  obtains lb where "labs a ld = Some lb" and "labs b = (labs a)(ld := Some (lb\<lparr>lb_refs := p # lb_refs lb\<rparr>))"
    and "cells b = cells a" and "tx_pc b = tx_pc a" and "tx_flags b = tx_flags a" and "text_ok b"
proof -
  obtain lb where lb: "labs a ld = Some lb" "b = a\<lparr>tx_labels := (tx_labels a)[ld := Some (lb\<lparr>lb_refs := p # lb_refs lb\<rparr>)]\<rparr>"
    using assms(1) by (auto simp: add_label_reference_def bind_Some_iff split: if_split_asm)
  have ld: "ld < length (tx_labels a)" "\<not> MAX_LABELDESC < ld" "\<not> tx_labellim a \<le> ld"
    using lb(1) assms(2) by (auto simp: labeldesc_to_label_def text_ok_def split: if_split_asm)
  have l: "labs b = (labs a)(ld := Some (lb\<lparr>lb_refs := p # lb_refs lb\<rparr>))"
    using ld by (auto simp: lb(2) labeldesc_to_label_def fun_eq_iff)
  show ?thesis using that[OF lb(1) l] assms(2) by (simp add: lb(2) text_ok_def)
qed

lemma label_in_range: "labs a ld = Some lb \<Longrightarrow> ld \<noteq> NO_LABELDESC"
  by (auto simp: labeldesc_to_label_def MAX_LABELDESC_def NO_LABELDESC_def split: if_split_asm)

lemma jump_to_label:
  assumes "ci_code_jump_to_label a opc ld = Some (b, ld')" and "labs a ld = Some lb" and "tidy a" and "no_checks a"
  shows "ld' = ld" and "emits a (opcode_bytes opc @ bytes_of 2 (of_nat ld)) b" and "new_reference a b ld (tx_pc a + 2) lb"
    and "tx_flags b = tx_flags a"
proof -
  note ok = tidy_ok[OF assms(3)]
  obtain t1 t2 where t1: "ci_code_opcode a opc = Some t1" and t2: "add_label_reference t1 ld (tx_pc t1) = Some t2"
    and b: "ci_code_word t2 (of_nat ld) = Some b" and ld: "ld' = ld"
    using assms(1) label_in_range[OF assms(2)] by (auto simp: ci_code_jump_to_label_def bind_Some_iff)
  show "ld' = ld" by (rule ld)
  have l1: "lext a t1" using grows_opcode[OF lext_refl[OF ok]] t1 by (simp add: grows_def)
  have e1: "emits a (opcode_bytes opc) t1" using opcode_emits[OF ok assms(4) t1] .
  obtain lb' where r: "labs t1 ld = Some lb'" "labs t2 = (labs t1)(ld := Some (lb'\<lparr>lb_refs := tx_pc t1 # lb_refs lb'\<rparr>))"
      "cells t2 = cells t1" "tx_pc t2 = tx_pc t1" "tx_flags t2 = tx_flags t1" "text_ok t2"
    using add_reference_labs[OF t2 lext_ok[OF l1]] by metis
  have lb': "lb' = lb" using r(1) l1 assms(2) by (simp add: lext_def)
  have l2: "lext t2 b" using grows_word[OF lext_refl[OF r(6)]] b by (simp add: grows_def)
  have e2: "emits t2 (bytes_of 2 (of_nat ld)) b" using code_seq_emits(1)[OF r(6)] b by (simp add: ci_code_word_seq)
  have "emits a (opcode_bytes opc) t2" using e1 r(3,4,6) by (simp add: emits_def)
  from emits_trans[OF this e2] show e: "emits a (opcode_bytes opc @ bytes_of 2 (of_nat ld)) b" .
  have pc: "tx_pc t1 = tx_pc a + 2" using e1 by (simp add: emits_def)
  show "tx_flags b = tx_flags a" using l1 l2 r(5) by (simp add: lext_def ext_def)
  have "labs b = (labs a)(ld := Some (lb\<lparr>lb_refs := (tx_pc a + 2) # lb_refs lb\<rparr>))"
    using l1 l2 r(2) lb' pc by (simp add: lext_def)
  then show "new_reference a b ld (tx_pc a + 2) lb"
    using e assms(2,3) by (auto simp: new_reference_def emits_def overlay_def)
qed

lemma jump_new_split:
  assumes "ci_code_jump_to_label a opc NO_LABELDESC = Some (b, ld)" and "text_ok a"
  obtains t where "make_label a = (t, ld)" and "labs t ld = Some \<lparr>lb_addr = 0, lb_refs = []\<rparr>" and "ci_code_jump_to_label t opc ld = Some (b, ld)"
proof -
  obtain t where t: "make_label a = (t, ld)"
    using assms(1) by (auto simp: ci_code_jump_to_label_def bind_Some_iff split: prod.split_asm)
  obtain t1 t2 where c: "ci_code_opcode t opc = Some t1" "add_label_reference t1 ld (tx_pc t1) = Some t2" "ci_code_word t2 (of_nat ld) = Some b"
    using assms(1) t by (auto simp: ci_code_jump_to_label_def bind_Some_iff)
  note m = make_label_labs[OF assms(2) t]
  have "lext t t1" using grows_opcode[OF lext_refl[OF m(7)]] c(1) by (simp add: grows_def)
  moreover obtain lb where "labs t1 ld = Some lb" using c(2) by (auto simp: add_label_reference_def bind_Some_iff)
  ultimately have l: "labs t ld = Some \<lparr>lb_addr = 0, lb_refs = []\<rparr>" using m(2) label_max[of t1 ld] by simp
  show ?thesis using that[OF t l] c label_in_range[OF l] by (simp add: ci_code_jump_to_label_def)
qed

text \<open>Resolving a label.\<close>

lemma patch_refs_done:
  assumes "patch_refs tx a rs = Some t" and "text_ok tx"
  shows "text_ok t \<and> cells t = patched (cells tx) a rs \<and> text_frame t = text_frame tx \<and> (\<forall>r\<in>set rs. fits_short (branch_offset a r))"
  using assms
proof (induction rs arbitrary: tx)
  case (Cons r rs)
  obtain u where f: "fits_short (branch_offset a r)" and u: "ci_code_word (tx\<lparr>tx_pc := r\<rparr>) (take_bit 16 (branch_offset a r)) = Some u"
    and t: "patch_refs u a rs = Some t"
    using Cons.prems(1) by (auto simp: Let_def branch_offset_def fits_short_def bind_Some_iff split: if_split_asm)
  have ok: "text_ok (tx\<lparr>tx_pc := r\<rparr>)" using Cons.prems(2) by (simp add: text_ok_def)
  have "emits (tx\<lparr>tx_pc := r\<rparr>) (bytes_of 2 (branch_offset a r)) u" "text_frame u = text_frame (tx\<lparr>tx_pc := r\<rparr>)"
    using code_seq_emits[OF ok, of "bytes_of 2 (branch_offset a r)" u] u by (simp_all add: ci_code_word_seq)
  moreover have "cells (tx\<lparr>tx_pc := r\<rparr>) = cells tx" "text_frame (tx\<lparr>tx_pc := r\<rparr>) = text_frame tx"
    by (auto simp: cells_def text_frame_def fun_eq_iff)
  ultimately have "text_ok u" "cells u = overlay (cells tx) r (bytes_of 2 (branch_offset a r))" "text_frame u = text_frame tx"
    by (simp_all add: emits_def)
  with Cons.IH[OF t] f show ?case by simp
qed simp

lemma resolve_has_label: "ci_resolve_and_free_label b ld = Some c \<Longrightarrow> \<exists>lb. labs b ld = Some lb"
  by (auto simp: ci_resolve_and_free_label_def bind_Some_iff)

abbreviation target :: "text_t \<Rightarrow> branch_label \<Rightarrow> nat" where
  "target b lb \<equiv> if lb_addr lb = 0 then tx_pc b else lb_addr lb"

lemma resolve_label:
  assumes "ci_resolve_and_free_label b ld = Some c" and "tidy b" and "labs b ld = Some lb"
  shows "tidy c" and "tx_pc c = tx_pc b" and "tx_flags c = tx_flags b" and "labs c = (labs b)(ld := None)"
    and "\<And>r. r \<in> set (lb_refs lb) \<Longrightarrow> jumps_to (cells c) r (target b lb)"
    and "\<And>i. (\<And>r. r \<in> set (lb_refs lb) \<Longrightarrow> i < r \<or> r + 2 \<le> i) \<Longrightarrow> cells c i = cells b i"
proof -
  note lb = assms(3)
  let ?a = "target b lb"
  obtain t where t: "patch_refs b ?a (lb_refs lb) = Some t"
    and c: "c = t\<lparr>tx_pc := tx_pc b, tx_labels := (tx_labels b)[ld := None]\<rparr>"
    using assms(1,3) by (auto simp: ci_resolve_and_free_label_def bind_Some_iff)
  note p = patch_refs_done[OF t tidy_ok[OF assms(2)]] and ro = apart_refs_ok[OF assms(2) lb]
  have fr: "tx_labellim t = tx_labellim b" "tx_flags t = tx_flags b" using p labels_of_frame[of t b] by simp_all
  have "cells c = cells t" by (auto simp: c cells_def fun_eq_iff)
  then have cc: "cells c = patched (cells b) ?a (lb_refs lb)" using p by simp
  have ld: "ld < length (tx_labels b)" using lb tidy_ok[OF assms(2)] by (auto simp: labeldesc_to_label_def text_ok_def split: if_split_asm)
  show l: "labs c = (labs b)(ld := None)" using fr ld by (auto simp: c labeldesc_to_label_def fun_eq_iff)
  have ok: "text_ok c" using p fr tidy_ok[OF assms(2)] by (simp add: c text_ok_def)
  have rc: "refs_in c \<subseteq> refs_in b" by (auto simp: refs_in_def l split: if_split_asm)
  have "distinct (lb_refs x)" if "labs c k = Some x" for k x
    using that assms(2) by (auto simp: l tidy_def refs_apart_def split: if_split_asm)
  then show "tidy c" using tidy_refs[OF assms(2) ok _ rc] by (simp add: c)
  show "jumps_to (cells c) r ?a" if "r \<in> set (lb_refs lb)" for r
    using p that patched_at[OF ro that] by (simp add: jumps_to_def has_code_def cc)
  show "cells c i = cells b i" if "\<And>r. r \<in> set (lb_refs lb) \<Longrightarrow> i < r \<or> r + 2 \<le> i" for i
    using patched_other[OF that, of "lb_refs lb"] by (simp add: cc)
  show "tx_pc c = tx_pc b" "tx_flags c = tx_flags b" using fr by (simp_all add: c)
qed

lemma resolve_agrees:
  assumes "ci_resolve_and_free_label b ld = Some c" and "tidy b" and "labs b ld = Some lb"
    and "agrees f T lo c"
  shows "agrees f (T(ld := target b lb)) lo b"
proof -
  let ?a = "target b lb"
  note pc = resolve_label(2)[OF assms(1-3)] and l = resolve_label(4)[OF assms(1-3)]
    and j = resolve_label(5)[OF assms(1-3)] and o = resolve_label(6)[OF assms(1-3)]
  have rc: "(k, r) \<in> refs_in c \<longleftrightarrow> (k, r) \<in> refs_in b \<and> k \<noteq> ld" for k r by (auto simp: refs_in_def l)
  have pend: "i \<in> pending b" if "i \<in> pending c" for i using that by (auto simp: pending_def rc)
  have 1: "f i = cells b i" if i: "lo \<le> i" "i < tx_pc b" "i \<notin> pending b" for i
  proof -
    have "i < r \<or> r + 2 \<le> i" if "r \<in> set (lb_refs lb)" for r
    proof -
      have "(ld, r) \<in> refs_in b" using that assms(3) by (simp add: refs_in_def)
      then show ?thesis using pendingI[of ld r b i] i(3) by (meson not_le)
    qed
    then have "cells c i = cells b i" by (rule o)
    moreover have "f i = cells c i" using assms(4) i pend pc by (auto simp: agrees_def)
    ultimately show ?thesis by simp
  qed
  have 2: "jumps_to f r ?a" if r: "(ld, r) \<in> refs_in b" "lo \<le> r" for r
  proof -
    have "f (r + k) = cells c (r + k)" if "k < 2" for k
    proof -
      have "r + 2 \<le> tx_pc b" using r(1) assms(2) by (auto simp: tidy_def refs_apart_def)
      moreover have "r + k \<notin> pending c"
      proof
        assume "r + k \<in> pending c"
        then obtain k' q where "(k', q) \<in> refs_in b" "k' \<noteq> ld" "q \<le> r + k" "r + k < q + 2" by (auto simp: pending_def rc)
        then show False using tidy_apart[OF assms(2) r(1), of k' q] \<open>k < 2\<close> by auto
      qed
      ultimately show ?thesis using assms(4) r(2) that pc by (simp add: agrees_def)
    qed
    moreover have "r \<in> set (lb_refs lb)" using r(1) assms(3) by (simp add: refs_in_def)
    ultimately show ?thesis using j[of r] by (simp add: jumps_to_def has_code_def)
  qed
  show ?thesis using 1 2 assms(4) rc by (auto simp: agrees_def)
qed

section \<open>Statements between labels\<close>

text \<open>The labels in use with their addresses.\<close>

definition addrs :: "text_t \<Rightarrow> nat \<Rightarrow> nat option" where
  "addrs tx ld = map_option lb_addr (labs tx ld)"

lemma addrs_None: "addrs tx ld = None \<longleftrightarrow> labs tx ld = None" by (simp add: addrs_def)

text \<open>\<open>grown a b\<close>: from \<open>a\<close> to \<open>b\<close> code was added, with more references to the labels in use, but no
  label was made or resolved for good.\<close>

definition grown :: "text_t \<Rightarrow> text_t \<Rightarrow> bool" where
  "grown a b \<longleftrightarrow> tidy b \<and> tx_pc a \<le> tx_pc b \<and> tx_flags b = tx_flags a
     \<and> addrs b = addrs a \<and> (\<forall>f T lo. agrees f T lo b \<longrightarrow> agrees f T lo a)"

lemma grown_refl: "tidy a \<Longrightarrow> grown a a" by (simp add: grown_def)

lemma grown_trans: "grown a b \<Longrightarrow> grown b c \<Longrightarrow> grown a c" by (simp add: grown_def)

lemma lext_grown: "lext a b \<Longrightarrow> tidy a \<Longrightarrow> grown a b"
  using lext_tidy[of a b] lext_agrees(1)[of a b] by (simp add: grown_def) (simp add: lext_def ext_def addrs_def fun_eq_iff)

lemma grown_label:
  assumes "grown a b" and "labs a ld = Some lb"
  shows "\<exists>lb'. labs b ld = Some lb' \<and> lb_addr lb' = lb_addr lb"
proof -
  have "addrs b ld = Some (lb_addr lb)" using assms by (simp add: grown_def addrs_def)
  then show ?thesis by (auto simp: addrs_def)
qed

lemma grown_agrees: "grown a b \<Longrightarrow> agrees f T lo b \<Longrightarrow> agrees f T lo a" by (simp add: grown_def)

lemma new_reference_grown:
  assumes "new_reference a b ld r lb" and "tx_flags b = tx_flags a"
  shows "grown a b"
  using assms new_reference_tidy[OF assms(1)] new_reference_agrees(1)[OF assms(1)] by (auto simp: grown_def new_reference_def addrs_def fun_eq_iff)

end
