(* ===== verification/Ups_Stmt_Props.thy ===== *)
theory Ups_Stmt_Props
  imports Ups_Labels
begin

text \<open>
  The statement compiler and its labels: which code each statement without \<open>goto\<close> and \<open>switch\<close> gets.  For
  every kind of statement a lemma takes its compilation apart into the buffers between the
  steps, with the rules that say what the finished code has in each part.
\<close>

declare compile_labeled_statement.simps [simp del] compile_case_labeled_statement.simps [simp del]
  compile_if_statement.simps [simp del] compile_switch_statement.simps [simp del]
  compile_while_or_do_statement.simps [simp del] compile_for_statement.simps [simp del]

section \<open>The compiler's state between statements\<close>

text \<open>The labels on the stacks of \<open>break\<close> and \<open>continue\<close> labels are in use, and there is code before the
  statement, at least the \<open>OC_TRAP\<close> that every text starts with: address 0 stands for a label
  without address.\<close>

definition ready :: "stext_t \<Rightarrow> bool" where
  "ready st \<longleftrightarrow> tidy (st_tx st) \<and> no_checks (st_tx st) \<and> 0 < st_pc st
     \<and> (\<forall>lt ld. ld \<in> set (tx_label_lists st lt) \<longrightarrow> addrs (st_tx st) ld \<noteq> None)"

definition well_compiled :: "cparams \<Rightarrow> statement_t \<Rightarrow> bool" where
  "well_compiled cp s \<longleftrightarrow> (\<forall>u u'. compile_statement cp u s = Some u' \<longrightarrow> ready u \<longrightarrow>
     grown (st_tx u) (st_tx u') \<and> tx_label_lists u' = tx_label_lists u)"

lemma grown_addrs: "grown a b \<Longrightarrow> addrs b = addrs a" by (simp add: grown_def)

lemma ready_grown:
  assumes "ready st" and "grown (st_tx st) (st_tx st')" and "tx_label_lists st' = tx_label_lists st"
  shows "ready st'"
  using assms by (simp add: ready_def grown_def)

lemma well_compiledD:
  assumes "well_compiled cp s" and "compile_statement cp u s = Some u'" and "ready u"
  shows "grown (st_tx u) (st_tx u')" and "tx_label_lists u' = tx_label_lists u" and "ready u'"
  using assms ready_grown[of u u'] by (auto simp: well_compiled_def)

lemma codingD: "coding st f = Some st' \<Longrightarrow> \<exists>tx. f (st_tx st) = Some tx \<and> st' = st\<lparr>st_tx := tx\<rparr>"
  by (auto simp: coding_def bind_Some_iff)

lemma code_valueD:
  assumes "code_value cp st e c = Some st'" and "tidy (st_tx st)"
  obtains tx at where "ci_compile_expression cp (st_tx st) e c = Some (tx, at)" and "st' = st\<lparr>st_tx := tx\<rparr>"
    and "lext (st_tx st) tx" and "grown (st_tx st) tx"
proof -
  obtain tx at where t: "ci_compile_expression cp (st_tx st) e c = Some (tx, at)" "st' = st\<lparr>st_tx := tx\<rparr>"
    using assms(1) codingD by (fastforce simp: code_value_def bind_Some_iff)
  have l: "lext (st_tx st) tx" using compile_lext[OF tidy_ok[OF assms(2)] t(1)] .
  show ?thesis using that[OF t l lext_grown[OF l assms(2)]] .
qed

text \<open>Steps that make or resolve a label, on the addresses of the labels.\<close>

lemma make_addrs:
  assumes "make_label a = (b, ld)" and "text_ok a"
  shows "addrs b = (addrs a)(ld := if ld \<le> MAX_LABELDESC then Some 0 else None)" and "addrs a ld = None"
proof -
  note m = make_label_labs[OF assms(2,1)]
  have "labs b ld = None" if "\<not> ld \<le> MAX_LABELDESC" using that by (simp add: labeldesc_to_label_def)
  with m(2,8) show "addrs b = (addrs a)(ld := if ld \<le> MAX_LABELDESC then Some 0 else None)" by (auto simp: addrs_def fun_eq_iff)
  show "addrs a ld = None" using m(1) by (simp add: addrs_def)
qed

lemma resolve_addrs:
  assumes "ci_resolve_and_free_label b ld = Some c" and "tidy b"
  shows "tidy c" and "tx_pc c = tx_pc b" and "tx_flags c = tx_flags b" and "addrs c = (addrs b)(ld := None)"
    and "addrs b ld = Some a \<Longrightarrow> agrees f T lo c \<Longrightarrow> agrees f (T(ld := if a = 0 then tx_pc b else a)) lo b"
proof -
  obtain lb where lb: "labs b ld = Some lb" using resolve_has_label[OF assms(1)] by blast
  note r = resolve_label[OF assms lb]
  show "tidy c" "tx_pc c = tx_pc b" "tx_flags c = tx_flags b" using r by simp_all
  show "addrs c = (addrs b)(ld := None)" using r(4) by (auto simp: addrs_def fun_eq_iff)
  assume "addrs b ld = Some a" and "agrees f T lo c"
  with lb have "lb_addr lb = a" by (simp add: addrs_def)
  then show "agrees f (T(ld := if a = 0 then tx_pc b else a)) lo b"
    using resolve_agrees[OF assms lb \<open>agrees f T lo c\<close>] by (simp cong: if_cong)
qed

lemma agrees_addrs: "agrees f T lo b \<Longrightarrow> (\<And>ld. addrs b ld \<noteq> None \<Longrightarrow> T' ld = T ld) \<Longrightarrow> agrees f T' lo b"
  by (rule agrees_targets) (auto simp: addrs_None)

text \<open>A jump to \<open>t\<close> at position \<open>p\<close>.\<close>

definition jump_code :: "(nat \<Rightarrow> byte option) \<Rightarrow> nat \<Rightarrow> opcode \<Rightarrow> nat \<Rightarrow> bool" where
  "jump_code f p opc t \<longleftrightarrow>
     has_code f p (opcode_bytes opc @ bytes_of 2 (branch_offset t (p + 2))) \<and> fits_short (branch_offset t (p + 2))"

lemma new_reference_jump:
  assumes "new_reference a b ld (tx_pc a + 2) lb" and "emits a (opcode_bytes opc @ bytes_of 2 w) b" and "agrees f T lo b" and "lo \<le> tx_pc a"
  shows "jump_code f (tx_pc a) opc (T ld)"
proof -
  have "jumps_to f (tx_pc a + 2) (T ld)" using new_reference_agrees(2)[OF assms(1,3)] assms(4) by simp
  moreover have "f (tx_pc a + k) = Some (opcode_bytes opc ! k)" if "k < 2" for k
  proof -
    have "f (tx_pc a + k) = cells b (tx_pc a + k)"
      using new_reference_agrees(3)[OF assms(1,3), of "tx_pc a + k"] assms(2,4) that by (simp add: emits_def)
    also have "\<dots> = Some ((opcode_bytes opc @ bytes_of 2 w) ! k)"
      using overlay_inside[of k "opcode_bytes opc @ bytes_of 2 w" "cells a" "tx_pc a"] assms(2) that by (simp add: emits_def)
    finally show ?thesis using that by (simp add: nth_append)
  qed
  ultimately show ?thesis by (simp add: jump_code_def jumps_to_def has_code_append) (simp add: has_code_def)
qed

text \<open>A jump to a label that is made for it.\<close>

lemma jump_new:
  assumes "ci_code_jump_to_label a opc NO_LABELDESC = Some (b, ld)" and "tidy a" and "no_checks a"
  shows "tidy b" and "tx_pc b = tx_pc a + 4" and "tx_flags b = tx_flags a" and "addrs b = (addrs a)(ld := Some 0)" and "addrs a ld = None"
    and "agrees f T lo b \<Longrightarrow> agrees f T lo a"
    and "agrees f T lo b \<Longrightarrow> lo \<le> tx_pc a \<Longrightarrow> jump_code f (tx_pc a) opc (T ld)"
proof -
  obtain t where t: "make_label a = (t, ld)" "labs t ld = Some \<lparr>lb_addr = 0, lb_refs = []\<rparr>" "ci_code_jump_to_label t opc ld = Some (b, ld)"
    using jump_new_split[OF assms(1) tidy_ok[OF assms(2)]] by blast
  note m = make_label_labs[OF tidy_ok[OF assms(2)] t(1)] and mt = make_label_tidy[OF t(1) assms(2)]
  have nc: "no_checks t" using assms(3) m(6) by simp
  note j = jump_to_label[OF t(3,2) mt(1) nc]
  show "tidy b" using new_reference_tidy[OF j(3)] .
  show pc: "tx_pc b = tx_pc a + 4" using j(2) m(5) by (simp add: emits_def)
  show "tx_flags b = tx_flags a" using j(4) m(6) by simp
  have "addrs b = addrs t" using grown_addrs[OF new_reference_grown[OF j(3,4)]] .
  then show "addrs b = (addrs a)(ld := Some 0)" "addrs a ld = None"
    using make_addrs[OF t(1) tidy_ok[OF assms(2)]] label_max[OF t(2)] by simp_all
  show "agrees f T lo a" if "agrees f T lo b" using new_reference_agrees(1)[OF j(3) that] mt(2) by simp
  assume "agrees f T lo b" "lo \<le> tx_pc a"
  then show "jump_code f (tx_pc a) opc (T ld)" using new_reference_jump[OF j(3,2)] m(5) by simp
qed

lemma jump_old:
  assumes "code_jump st opc ld = Some st'" and "addrs (st_tx st) ld \<noteq> None" and "tidy (st_tx st)" and "no_checks (st_tx st)"
  shows "grown (st_tx st) (st_tx st')" and "st_pc st' = st_pc st + 4"
    and "\<And>f T lo. agrees f T lo (st_tx st') \<Longrightarrow> lo \<le> st_pc st \<Longrightarrow> jump_code f (st_pc st) opc (T ld)"
proof -
  let ?a = "st_tx st"
  obtain b ld' where b: "ci_code_jump_to_label ?a opc ld = Some (b, ld')" "st' = st\<lparr>st_tx := b\<rparr>"
    using assms(1) by (auto simp: code_jump_def coding_def bind_Some_iff)
  obtain lb where lb: "labs ?a ld = Some lb" using assms(2) by (auto simp: addrs_None)
  note j = jump_to_label[OF b(1) lb assms(3,4)]
  show "grown (st_tx st) (st_tx st')" using new_reference_grown[OF j(3,4)] by (simp add: b(2))
  show "st_pc st' = st_pc st + 4" using j(2) by (simp add: emits_def b(2))
  show "jump_code f (st_pc st) opc (T ld)" if "agrees f T lo (st_tx st')" "lo \<le> st_pc st" for f T lo
    using new_reference_jump[OF j(3,2)] that by (simp add: b(2))
qed

section \<open>Code in place\<close>

text \<open>
  What the finished code \<open>f\<close> has between two positions: the code of an expression, of an expression for its
  effect only, or of a statement whose \<open>break\<close> and \<open>continue\<close> go to \<open>brk\<close> and \<open>cont\<close>.
\<close>

definition code_of :: "(nat \<Rightarrow> byte option) \<Rightarrow> text_t \<Rightarrow> text_t \<Rightarrow> nat \<Rightarrow> nat \<Rightarrow> bool" where
  "code_of f a b p q \<longleftrightarrow> text_ok a \<and> no_checks a \<and> tx_pc a = p \<and> tx_pc b = q \<and> p \<le> q \<and> (\<forall>i. p \<le> i \<and> i < q \<longrightarrow> cells b i = f i)"

definition value_code :: "cparams \<Rightarrow> (nat \<Rightarrow> byte option) \<Rightarrow> expr_t \<Rightarrow> nat \<Rightarrow> nat \<Rightarrow> bool" where
  "value_code cp f e p q \<longleftrightarrow> (\<exists>a b at. ci_compile_expression cp a e EC_VALUE = Some (b, at) \<and> code_of f a b p q)"

definition effect_code :: "cparams \<Rightarrow> (nat \<Rightarrow> byte option) \<Rightarrow> expr_t option \<Rightarrow> nat \<Rightarrow> nat \<Rightarrow> bool" where
  "effect_code cp f eo p q \<longleftrightarrow> (case eo of None \<Rightarrow> p = q
     | Some e \<Rightarrow> \<exists>a b at. ci_compile_expression cp a e EC_EFFECT = Some (b, at) \<and> code_of f a b p q)"

definition exits :: "stext_t \<Rightarrow> (nat \<Rightarrow> nat) \<Rightarrow> nat \<Rightarrow> nat \<Rightarrow> bool" where
  "exits st T brk cont \<longleftrightarrow> (\<forall>ld lds. tx_label_lists st LT_BREAK = ld # lds \<longrightarrow> T ld = brk)
     \<and> (\<forall>ld lds. tx_label_lists st LT_CONTINUE = ld # lds \<longrightarrow> T ld = cont)"

definition stm_code :: "cparams \<Rightarrow> (nat \<Rightarrow> byte option) \<Rightarrow> statement_t \<Rightarrow> nat \<Rightarrow> nat \<Rightarrow> nat \<Rightarrow> nat \<Rightarrow> bool" where
  "stm_code cp f s p q brk cont \<longleftrightarrow> (\<exists>u u' T. compile_statement cp u s = Some u' \<and> ready u \<and> st_pc u = p \<and> st_pc u' = q
     \<and> agrees f T p (st_tx u') \<and> exits u T brk cont)"

lemma lext_code_of:
  assumes "lext a b" and "tidy a" and "no_checks a" and "agrees f T lo b" and "lo \<le> tx_pc a"
  shows "code_of f a b (tx_pc a) (tx_pc b)"
  using assms lext_agrees(2)[OF assms(1,2,4,5)] by (auto simp: code_of_def lext_def ext_def tidy_def)

lemma exits_cong:
  assumes "exits st T brk cont" and "tx_label_lists st' = tx_label_lists st"
    and "\<And>lt ld. ld \<in> set (tx_label_lists st lt) \<Longrightarrow> T' ld = T ld"
  shows "exits st' T' brk cont"
  using assms(1,2) assms(3)[of _ LT_BREAK] assms(3)[of _ LT_CONTINUE] by (auto simp: exits_def)

text \<open>New targets for labels that are not in use do not matter.\<close>

lemma exits_new:
  assumes "exits st T brk cont" and "ready st" and "addrs (st_tx st) ld = None"
  shows "exits st (T(ld := t)) brk cont"
proof (rule exits_cong[OF assms(1) HOL.refl])
  fix lt k assume "k \<in> set (tx_label_lists st lt)"
  then have "addrs (st_tx st) k \<noteq> None" using assms(2) unfolding ready_def by blast
  with assms(3) show "(T(ld := t)) k = T k" by auto
qed

lemma exits_lists: "exits st T brk cont \<Longrightarrow> tx_label_lists st' = tx_label_lists st \<Longrightarrow> exits st' T brk cont"
  by (simp add: exits_def)

section \<open>Conditions\<close>

lemma if_parts:
  assumes "compile_if_statement cp st e s None = Some st'" and "ready st" and "well_compiled cp s"
  shows "grown (st_tx st) (st_tx st')" and "tx_label_lists st' = tx_label_lists st"
    and "\<And>f T brk cont. agrees f T (st_pc st) (st_tx st') \<Longrightarrow> exits st T brk cont \<Longrightarrow>
      \<exists>p. value_code cp f e (st_pc st) p \<and> jump_code f p OC_JUMP_IF_ZERO (st_pc st') \<and> stm_code cp f s (p + 4) (st_pc st') brk cont"
proof -
  have st: "tidy (st_tx st)" "no_checks (st_tx st)" using assms(2) by (simp_all add: ready_def)
  obtain st1 t2 fl u b where c1: "code_value cp st e EC_VALUE = Some st1"
    and c2: "ci_code_jump_to_label (st_tx st1) OC_JUMP_IF_ZERO NO_LABELDESC = Some (t2, fl)"
    and c3: "compile_statement cp (st1\<lparr>st_tx := t2\<rparr>) s = Some u"
    and c4: "ci_resolve_and_free_label (st_tx u) fl = Some b" "st' = u\<lparr>st_tx := b\<rparr>"
    using assms(1) unfolding compile_if_statement.simps bind_Some_iff split_paired_Ex prod.case option.case coding_def option.inject by blast
  obtain t1 at where t1: "ci_compile_expression cp (st_tx st) e EC_VALUE = Some (t1, at)" "st1 = st\<lparr>st_tx := t1\<rparr>"
      "lext (st_tx st) t1" "grown (st_tx st) t1"
    using code_valueD[OF c1 st(1)] by blast
  have t1': "tidy t1" "no_checks t1" "addrs t1 = addrs (st_tx st)" "st_pc st \<le> tx_pc t1" using t1(4) st(2) by (simp_all add: grown_def)
  note j = jump_new[OF c2[unfolded t1(2), simplified] t1'(1,2)]
  let ?u = "st\<lparr>st_tx := t2\<rparr>"
  have c3': "compile_statement cp ?u s = Some u" using c3 by (simp add: t1(2))
  have r2: "ready ?u" using assms(2) j(1-4) t1'(2,3) by (simp add: ready_def)
  note g = well_compiledD[OF assms(3) c3' r2, simplified]
  have tu: "tidy (st_tx u)" using g(1) by (simp add: grown_def)
  note v = resolve_addrs[OF c4(1) tu]
  have au: "addrs (st_tx u) = (addrs (st_tx st))(fl := Some 0)" using grown_addrs[OF g(1)] j(4) t1'(3) by simp
  have n: "addrs (st_tx st) fl = None" using j(5) t1'(3) by simp
  have q: "st_pc st' = st_pc u" using v(2) c4(2) by simp
  have a1: "agrees f (T(fl := st_pc u)) lo (st_tx u)" if "agrees f T lo (st_tx st')" for f T lo
    using v(5)[of 0 f T lo] au that by (simp add: c4(2) fun_eq_iff)
  have a2: "agrees f (T(fl := st_pc u)) lo t2" if "agrees f T lo (st_tx st')" for f T lo
    using grown_agrees[OF g(1) a1[OF that]] .
  show "tx_label_lists st' = tx_label_lists st" using g(2) by (simp add: c4(2))
  show "grown (st_tx st) (st_tx st')"
    unfolding grown_def
  proof (intro conjI allI impI)
    show "tidy (st_tx st')" "tx_flags (st_tx st') = tx_flags (st_tx st)" "st_pc st \<le> st_pc st'"
      using v c4(2) g(1) j(2,3) t1(4) by (simp_all add: grown_def)
    show "addrs (st_tx st') = addrs (st_tx st)" using v(4) au n c4(2) by (auto simp: fun_eq_iff)
    fix f T lo assume "agrees f T lo (st_tx st')"
    from grown_agrees[OF t1(4) j(6)[OF a2[OF this]]] show "agrees f T lo (st_tx st)" by (rule agrees_addrs) (use n in auto)
  qed
  fix f T brk cont assume a: "agrees f T (st_pc st) (st_tx st')" "exits st T brk cont"
  let ?T = "T(fl := st_pc u)"
  have "value_code cp f e (st_pc st) (tx_pc t1)"
    using lext_code_of[OF t1(3) st j(6)[OF a2[OF a(1)]] order_refl] t1(1) unfolding value_code_def by blast
  moreover have "jump_code f (tx_pc t1) OC_JUMP_IF_ZERO (st_pc st')"
    using j(7)[OF a2[OF a(1)]] t1'(4) q by simp
  moreover have "stm_code cp f s (tx_pc t1 + 4) (st_pc st') brk cont"
    unfolding stm_code_def
    by (intro exI[of _ ?u] exI[of _ u] exI[of _ ?T] conjI c3' r2 exits_lists[OF exits_new[OF a(2) assms(2) n]])
      (use j(2) q t1'(4) agrees_from[OF a1[OF a(1)]] in simp_all)
  ultimately show "\<exists>p. value_code cp f e (st_pc st) p \<and> jump_code f p OC_JUMP_IF_ZERO (st_pc st') \<and> stm_code cp f s (p + 4) (st_pc st') brk cont"
    by blast
qed

lemma if_else_parts:
  assumes "compile_if_statement cp st e s (Some t) = Some st'" and "ready st" and "well_compiled cp s" and "well_compiled cp t"
  shows "grown (st_tx st) (st_tx st')" and "tx_label_lists st' = tx_label_lists st"
    and "\<And>f T brk cont. agrees f T (st_pc st) (st_tx st') \<Longrightarrow> exits st T brk cont \<Longrightarrow>
      \<exists>p r. value_code cp f e (st_pc st) p \<and> jump_code f p OC_JUMP_IF_ZERO (r + 4) \<and> stm_code cp f s (p + 4) r brk cont
        \<and> jump_code f r OC_JUMP (st_pc st') \<and> stm_code cp f t (r + 4) (st_pc st') brk cont"
proof -
  have st: "tidy (st_tx st)" "no_checks (st_tx st)" using assms(2) by (simp_all add: ready_def)
  obtain st1 t2 fl u t5 nl t6 w b where c1: "code_value cp st e EC_VALUE = Some st1"
    and c2: "ci_code_jump_to_label (st_tx st1) OC_JUMP_IF_ZERO NO_LABELDESC = Some (t2, fl)"
    and c3: "compile_statement cp (st1\<lparr>st_tx := t2\<rparr>) s = Some u"
    and c4: "ci_code_jump_to_label (st_tx u) OC_JUMP NO_LABELDESC = Some (t5, nl)"
    and c5: "ci_resolve_and_free_label t5 fl = Some t6" and c6: "compile_statement cp (u\<lparr>st_tx := t6\<rparr>) t = Some w"
    and c7: "ci_resolve_and_free_label (st_tx w) nl = Some b" "st' = w\<lparr>st_tx := b\<rparr>"
    using assms(1) unfolding compile_if_statement.simps bind_Some_iff split_paired_Ex prod.case option.case coding_def option.inject
    by (auto simp: bind_Some_iff)
  obtain t1 at where t1: "ci_compile_expression cp (st_tx st) e EC_VALUE = Some (t1, at)" "st1 = st\<lparr>st_tx := t1\<rparr>"
      "lext (st_tx st) t1" "grown (st_tx st) t1"
    using code_valueD[OF c1 st(1)] by blast
  have t1': "tidy t1" "no_checks t1" "addrs t1 = addrs (st_tx st)" "st_pc st \<le> tx_pc t1" using t1(4) st(2) by (simp_all add: grown_def)
  note j = jump_new[OF c2[unfolded t1(2), simplified] t1'(1,2)]
  let ?u = "st\<lparr>st_tx := t2\<rparr>" and ?w = "u\<lparr>st_tx := t6\<rparr>"
  have c3': "compile_statement cp ?u s = Some u" using c3 by (simp add: t1(2))
  have r2: "ready ?u" using assms(2) j(1-4) t1'(2,3) by (simp add: ready_def)
  note g = well_compiledD[OF assms(3) c3' r2, simplified]
  have tu: "tidy (st_tx u)" "no_checks (st_tx u)" using g(3) by (simp_all add: ready_def)
  note k = jump_new[OF c4 tu] and v = resolve_addrs[OF c5]
  have au: "addrs (st_tx u) = (addrs (st_tx st))(fl := Some 0)" using grown_addrs[OF g(1)] j(4) t1'(3) by simp
  have n: "addrs (st_tx st) fl = None" "nl \<noteq> fl" "addrs (st_tx st) nl = None"
    using j(5) t1'(3) k(5) au by (auto split: if_split_asm)
  have a5: "addrs t5 = (addrs (st_tx st))(fl := Some 0, nl := Some 0)" using k(4) au by simp
  have v6: "tidy t6" "tx_pc t6 = tx_pc t5" "tx_flags t6 = tx_flags t5" "addrs t6 = (addrs (st_tx st))(nl := Some 0)"
    using v(1-4)[OF k(1)] a5 n(1,2) by (auto simp: fun_eq_iff)
  have r6: "ready ?w" using assms(2) g v6 k(2,3) n(1,3) tu(2) by (auto simp: ready_def)
  note h = well_compiledD[OF assms(4) c6 r6, simplified]
  have tw: "tidy (st_tx w)" using h(1) by (simp add: grown_def)
  note z = resolve_addrs[OF c7(1) tw]
  have aw: "addrs (st_tx w) = (addrs (st_tx st))(nl := Some 0)" using grown_addrs[OF h(1)] v6(4) by simp
  have q: "st_pc st' = st_pc w" using z(2) c7(2) by simp
  let ?T1 = "\<lambda>T. T(nl := st_pc w)" and ?T2 = "\<lambda>T. T(nl := st_pc w, fl := tx_pc t5)"
  have b1: "agrees f (?T1 T) lo (st_tx w)" if "agrees f T lo (st_tx st')" for f T lo
    using z(5)[of 0 f T lo] aw that by (simp add: c7(2) fun_eq_iff)
  have b2: "agrees f (?T2 T) lo t5" if "agrees f T lo (st_tx st')" for f T lo
    using v(5)[OF k(1), of 0 f "?T1 T" lo] a5 n(2) grown_agrees[OF h(1) b1[OF that]] by simp
  note b3 = k(6)[OF b2] and b4 = grown_agrees[OF g(1) k(6)[OF b2]]
  show "tx_label_lists st' = tx_label_lists st" using g(2) h(2) by (simp add: c7(2))
  show "grown (st_tx st) (st_tx st')"
    unfolding grown_def
  proof (intro conjI allI impI)
    show "tidy (st_tx st')" "tx_flags (st_tx st') = tx_flags (st_tx st)" "st_pc st \<le> st_pc st'"
      using z c7(2) h(1) v6 k(2,3) g(1) j(2,3) t1(4) by (simp_all add: grown_def)
    show "addrs (st_tx st') = addrs (st_tx st)" using z(4) aw n c7(2) by (auto simp: fun_eq_iff)
    fix f T lo assume "agrees f T lo (st_tx st')"
    from grown_agrees[OF t1(4) j(6)[OF b4[OF this]]] show "agrees f T lo (st_tx st)" by (rule agrees_addrs) (use n in auto)
  qed
  fix f T brk cont assume a: "agrees f T (st_pc st) (st_tx st')" "exits st T brk cont"
  have pcs: "tx_pc t2 \<le> st_pc u" "st_pc u + 4 \<le> st_pc w" using g(1) h(1) v6(2) k(2) by (simp_all add: grown_def)
  have "value_code cp f e (st_pc st) (tx_pc t1)"
    using lext_code_of[OF t1(3) st j(6)[OF b4[OF a(1)]] order_refl] t1(1) unfolding value_code_def by blast
  moreover have "jump_code f (tx_pc t1) OC_JUMP_IF_ZERO (st_pc u + 4)"
    using j(7)[OF b4[OF a(1)]] t1'(4) k(2) by simp
  moreover have "stm_code cp f s (tx_pc t1 + 4) (st_pc u) brk cont"
  proof -
    have x: "exits ?u (?T2 T) brk cont"
      using exits_lists[OF exits_new[OF exits_new[OF a(2) assms(2) n(3)] assms(2) n(1)]] by simp
    show ?thesis unfolding stm_code_def
      by (intro exI[of _ ?u] exI[of _ u] exI[of _ "?T2 T"] conjI c3' r2 x) (use j(2) t1'(4) agrees_from[OF b3[OF a(1)]] in simp_all)
  qed
  moreover have "jump_code f (st_pc u) OC_JUMP (st_pc st')"
    using k(7)[OF b2[OF a(1)]] j(2) pcs(1) t1'(4) q n(2) by simp
  moreover have "stm_code cp f t (st_pc u + 4) (st_pc st') brk cont"
  proof -
    have x: "exits ?w (?T1 T) brk cont" using exits_lists[OF exits_new[OF a(2) assms(2) n(3)], of ?w] g(2) by simp
    show ?thesis unfolding stm_code_def
      by (intro exI[of _ ?w] exI[of _ w] exI[of _ "?T1 T"] conjI c6 r6 x)
        (use v6(2) k(2) q j(2) pcs t1'(4) agrees_from[OF b1[OF a(1)]] in simp_all)
  qed
  ultimately show "\<exists>p r. value_code cp f e (st_pc st) p \<and> jump_code f p OC_JUMP_IF_ZERO (r + 4) \<and> stm_code cp f s (p + 4) r brk cont
        \<and> jump_code f r OC_JUMP (st_pc st') \<and> stm_code cp f t (r + 4) (st_pc st') brk cont"
    by blast
qed

section \<open>Statements without \<open>goto\<close> and \<open>switch\<close>\<close>

fun flow_stm :: "statement_t \<Rightarrow> bool" where
  "flow_stm (Statement lx k) \<longleftrightarrow>
     (case k of
        STT_COMPOUND il ss \<Rightarrow> list_all flow_stm ss
      | STT_IF e s t \<Rightarrow> flow_stm s \<and> (case t of None \<Rightarrow> True | Some t \<Rightarrow> flow_stm t)
      | STT_WHILE e s \<Rightarrow> flow_stm s
      | STT_DO e s \<Rightarrow> flow_stm s
      | STT_FOR a b c s \<Rightarrow> flow_stm s
      | STT_EXPR e \<Rightarrow> True
      | STT_CONTINUE \<Rightarrow> True
      | STT_BREAK \<Rightarrow> True
      | STT_RETURN e \<Rightarrow> True
      | _ \<Rightarrow> False)"

text \<open>The stacks of labels come back as they were.\<close>

definition keeps_lists :: "cparams \<Rightarrow> statement_t \<Rightarrow> bool" where
  "keeps_lists cp s \<longleftrightarrow> (\<forall>u u'. compile_statement cp u s = Some u' \<longrightarrow> tx_label_lists u' = tx_label_lists u)"

lemma coding_lists: "coding st f = Some st' \<Longrightarrow> tx_label_lists st' = tx_label_lists st"
  by (auto simp: coding_def bind_Some_iff)

lemma code_value_lists: "code_value cp st e c = Some st' \<Longrightarrow> tx_label_lists st' = tx_label_lists st"
  by (auto simp: code_value_def dest: coding_lists)

lemma code_jump_lists: "code_jump st opc ld = Some st' \<Longrightarrow> tx_label_lists st' = tx_label_lists st"
  by (auto simp: code_jump_def dest: coding_lists)

lemma expression_statement_lists: "compile_expression_statement cp st e = Some st' \<Longrightarrow> tx_label_lists st' = tx_label_lists st"
  by (auto simp: compile_expression_statement_def dest: code_value_lists split: option.split_asm)

lemma continue_or_break_lists: "compile_continue_or_break_statement st lt = Some st' \<Longrightarrow> tx_label_lists st' = tx_label_lists st"
  by (auto simp: compile_continue_or_break_statement_def dest: code_jump_lists split: list.split_asm)

lemma return_lists: "compile_return_statement cp st e = Some st' \<Longrightarrow> tx_label_lists st' = tx_label_lists st"
  by (auto simp: compile_return_statement_def dest: coding_lists)

lemma initlist_lists: "compile_initlist cp st il = Some st' \<Longrightarrow> tx_label_lists st' = tx_label_lists st"
  by (induction cp st il rule: compile_initlist.induct)
    (auto simp: bind_Some_iff dest: coding_lists split: if_split_asm initialiser_t.split_asm)

lemma pop_label_lists:
  "pop_label st lt = Some st' \<Longrightarrow> \<exists>ld lds. tx_label_lists st lt = ld # lds \<and> tx_label_lists st' = (tx_label_lists st)(lt := lds)"
  by (auto simp: pop_label_def dest: coding_lists split: list.split_asm)

lemma push_label_lists: "\<exists>ld. tx_label_lists (push_label st lt) = (tx_label_lists st)(lt := ld # tx_label_lists st lt)"
  by (cases "make_label (st_tx st)") (auto simp: push_label_def)

lemma keeps_listsD: "keeps_lists cp s \<Longrightarrow> compile_statement cp u s = Some u' \<Longrightarrow> tx_label_lists u' = tx_label_lists u"
  by (simp add: keeps_lists_def)

text \<open>The steps of a \<open>while\<close> or \<open>do\<close> statement.\<close>

lemma while_steps:
  assumes "compile_while_or_do_statement cp st e s w = Some st'"
  obtains u3 tx L u5 u6 u7 u8 u9 u10 where
    "(if w then compile_continue_or_break_statement (push_label (push_label st LT_BREAK) LT_CONTINUE) LT_CONTINUE
      else Some (push_label (push_label st LT_BREAK) LT_CONTINUE)) = Some u3"
    "make_label (st_tx u3) = (tx, L)" "coding (u3\<lparr>st_tx := tx\<rparr>) (\<lambda>tx. set_label_addr tx L (tx_pc tx)) = Some u5"
    "compile_statement cp u5 s = Some u6" "pop_label u6 LT_CONTINUE = Some u7" "code_value cp u7 e EC_VALUE = Some u8"
    "code_jump u8 OC_JUMP_IF_NON_ZERO L = Some u9" "pop_label u9 LT_BREAK = Some u10"
    "coding u10 (\<lambda>tx. ci_resolve_and_free_label tx L) = Some st'"
proof -
  obtain u3 where u3: "(if w then compile_continue_or_break_statement (push_label (push_label st LT_BREAK) LT_CONTINUE) LT_CONTINUE
      else Some (push_label (push_label st LT_BREAK) LT_CONTINUE)) = Some u3"
    using assms unfolding compile_while_or_do_statement.simps Let_def bind_Some_iff by blast
  obtain tx L where m: "make_label (st_tx u3) = (tx, L)" by fastforce
  show ?thesis using that[OF u3 m] assms u3 m unfolding compile_while_or_do_statement.simps Let_def
    by (auto simp: bind_Some_iff)
qed

lemma while_lists:
  assumes "compile_while_or_do_statement cp st e s w = Some st'" and "keeps_lists cp s"
  shows "tx_label_lists st' = tx_label_lists st"
proof (rule while_steps[OF assms(1)])
  let ?u1 = "push_label st LT_BREAK"
  let ?u2 = "push_label ?u1 LT_CONTINUE"
  fix u3 tx L u5 u6 u7 u8 u9 u10
  assume a: "(if w then compile_continue_or_break_statement ?u2 LT_CONTINUE else Some ?u2) = Some u3"
    "coding (u3\<lparr>st_tx := tx\<rparr>) (\<lambda>tx. set_label_addr tx L (tx_pc tx)) = Some u5" "compile_statement cp u5 s = Some u6"
    "pop_label u6 LT_CONTINUE = Some u7" "code_value cp u7 e EC_VALUE = Some u8" "code_jump u8 OC_JUMP_IF_NON_ZERO L = Some u9"
    "pop_label u9 LT_BREAK = Some u10" "coding u10 (\<lambda>tx. ci_resolve_and_free_label tx L) = Some st'"
  obtain B C where "tx_label_lists ?u1 = (tx_label_lists st)(LT_BREAK := B # tx_label_lists st LT_BREAK)"
      "tx_label_lists ?u2 = (tx_label_lists ?u1)(LT_CONTINUE := C # tx_label_lists ?u1 LT_CONTINUE)"
    using push_label_lists by meson
  moreover have "tx_label_lists u3 = tx_label_lists ?u2" using a(1) continue_or_break_lists by (cases w) fastforce+
  moreover have "tx_label_lists u6 = tx_label_lists u3" using keeps_listsD[OF assms(2) a(3)] coding_lists[OF a(2)] by simp
  moreover have "tx_label_lists u9 = tx_label_lists u7" using code_value_lists[OF a(5)] code_jump_lists[OF a(6)] by simp
  ultimately show ?thesis
    using pop_label_lists[OF a(4)] pop_label_lists[OF a(7)] coding_lists[OF a(8)] by (auto simp: fun_upd_twist)
qed

lemma for_steps:
  assumes "compile_for_statement cp st a b c s = Some st'"
  obtains u3 t4 X t5 L u5 u6 u7 u8 u9 u10 u11 where
    "compile_expression_statement cp (push_label (push_label st LT_BREAK) LT_CONTINUE) a = Some u3"
    "ci_code_jump_to_label (st_tx u3) OC_JUMP NO_LABELDESC = Some (t4, X)" "make_label t4 = (t5, L)"
    "coding (u3\<lparr>st_tx := t5\<rparr>) (\<lambda>tx. set_label_addr tx L (tx_pc tx)) = Some u5"
    "compile_statement cp u5 s = Some u6" "pop_label u6 LT_CONTINUE = Some u7" "compile_expression_statement cp u7 c = Some u8"
    "coding u8 (\<lambda>tx. ci_resolve_and_free_label tx X) = Some u9"
    "(case b of Some e \<Rightarrow> do { st \<leftarrow> code_value cp u9 e EC_VALUE; code_jump st OC_JUMP_IF_NON_ZERO L }
      | None \<Rightarrow> code_jump u9 OC_JUMP L) = Some u10"
    "pop_label u10 LT_BREAK = Some u11" "coding u11 (\<lambda>tx. ci_resolve_and_free_label tx L) = Some st'"
proof -
  obtain u3 t4 X where u3: "compile_expression_statement cp (push_label (push_label st LT_BREAK) LT_CONTINUE) a = Some u3"
    "ci_code_jump_to_label (st_tx u3) OC_JUMP NO_LABELDESC = Some (t4, X)"
    using assms unfolding compile_for_statement.simps Let_def bind_Some_iff by fastforce
  obtain t5 L where m: "make_label t4 = (t5, L)" by fastforce
  show ?thesis using that[OF u3 m] assms u3 m unfolding compile_for_statement.simps Let_def
    by (auto simp: bind_Some_iff)
qed

lemma for_lists:
  assumes "compile_for_statement cp st a b c s = Some st'" and "keeps_lists cp s"
  shows "tx_label_lists st' = tx_label_lists st"
proof (rule for_steps[OF assms(1)])
  let ?u1 = "push_label st LT_BREAK"
  let ?u2 = "push_label ?u1 LT_CONTINUE"
  fix u3 t5 X L u5 u6 u7 u8 u9 u10 u11
  assume a: "compile_expression_statement cp ?u2 a = Some u3"
    "coding (u3\<lparr>st_tx := t5\<rparr>) (\<lambda>tx. set_label_addr tx L (tx_pc tx)) = Some u5"
    "compile_statement cp u5 s = Some u6" "pop_label u6 LT_CONTINUE = Some u7" "compile_expression_statement cp u7 c = Some u8"
    "coding u8 (\<lambda>tx. ci_resolve_and_free_label tx X) = Some u9"
    "(case b of Some e \<Rightarrow> do { st \<leftarrow> code_value cp u9 e EC_VALUE; code_jump st OC_JUMP_IF_NON_ZERO L }
      | None \<Rightarrow> code_jump u9 OC_JUMP L) = Some u10"
    "pop_label u10 LT_BREAK = Some u11" "coding u11 (\<lambda>tx. ci_resolve_and_free_label tx L) = Some st'"
  obtain B C where "tx_label_lists ?u1 = (tx_label_lists st)(LT_BREAK := B # tx_label_lists st LT_BREAK)"
      "tx_label_lists ?u2 = (tx_label_lists ?u1)(LT_CONTINUE := C # tx_label_lists ?u1 LT_CONTINUE)"
    using push_label_lists by meson
  moreover have "tx_label_lists u6 = tx_label_lists ?u2"
    using expression_statement_lists[OF a(1)] keeps_listsD[OF assms(2) a(3)] coding_lists[OF a(2)] by simp
  moreover have "tx_label_lists u9 = tx_label_lists u7" using expression_statement_lists[OF a(5)] coding_lists[OF a(6)] by simp
  moreover have "tx_label_lists u10 = tx_label_lists u9"
    using a(7) by (auto simp: bind_Some_iff dest!: code_value_lists code_jump_lists split: option.split_asm)
  ultimately show ?thesis
    using pop_label_lists[OF a(4)] pop_label_lists[OF a(8)] coding_lists[OF a(9)] by (auto simp: fun_upd_twist)
qed

lemma if_lists:
  assumes "compile_if_statement cp st e s t = Some st'" and "keeps_lists cp s" and "\<And>t'. t = Some t' \<Longrightarrow> keeps_lists cp t'"
  shows "tx_label_lists st' = tx_label_lists st"
proof (cases t)
  case None
  with assms(1) show ?thesis unfolding compile_if_statement.simps
    by (auto simp: bind_Some_iff dest!: code_value_lists coding_lists keeps_listsD[OF assms(2)])
next
  case (Some t')
  with assms(1) show ?thesis unfolding compile_if_statement.simps
    by (auto simp: bind_Some_iff dest!: code_value_lists coding_lists keeps_listsD[OF assms(2)] keeps_listsD[OF assms(3)[OF Some]])
qed

lemma statements_lists:
  assumes "\<And>s. s \<in> set ss \<Longrightarrow> keeps_lists cp s" and "compile_statements cp st ss = Some st'"
  shows "tx_label_lists st' = tx_label_lists st"
  using assms
proof (induction ss arbitrary: st)
  case (Cons s ss)
  then obtain u where "compile_statement cp st s = Some u" "compile_statements cp u ss = Some st'" by (auto simp: bind_Some_iff)
  with Cons show ?case using keeps_listsD[of cp s st u] by simp
qed simp

lemma size_in_statements: "s \<in> set ss \<Longrightarrow> size s \<le> size_list size ss"
  by (simp add: size_list_estimation')

lemma add_lno_lists [simp]: "tx_label_lists (add_lno_entry st a l) = tx_label_lists st" "st_tx (add_lno_entry st a l) = st_tx st"
  by (simp_all add: add_lno_entry_def)

lemma flow_keeps_lists: "flow_stm s \<Longrightarrow> keeps_lists cp s"
proof (induction s rule: measure_induct_rule[of size])
  case (less s)
  obtain lx k where s: "s = Statement lx k" by (cases s)
  show ?case unfolding keeps_lists_def
  proof (intro allI impI)
    fix u u' assume c: "compile_statement cp u s = Some u'"
    let ?u = "case lx of None \<Rightarrow> u | Some lnum \<Rightarrow> add_lno_entry u (st_pc u) lnum"
    have l: "tx_label_lists ?u = tx_label_lists u" by (simp split: option.split)
    have "tx_label_lists u' = tx_label_lists ?u"
    proof (cases k)
      case (STT_COMPOUND il ss)
      have "keeps_lists cp x" if "x \<in> set ss" for x
        using that less size_in_statements[OF that] by (simp add: s STT_COMPOUND list_all_iff)
      with c show ?thesis
        by (auto simp: s STT_COMPOUND compile_statement.simps bind_Some_iff dest!: initlist_lists statements_lists[rotated])
    next
      case (STT_IF e a t)
      have "keeps_lists cp a" "\<And>t'. t = Some t' \<Longrightarrow> keeps_lists cp t'" using less by (auto simp: s STT_IF)
      with c show ?thesis using if_lists by (auto simp: s STT_IF compile_statement.simps)
    next
      case (STT_WHILE e a)
      with c less show ?thesis using while_lists by (auto simp: s compile_statement.simps)
    next
      case (STT_DO e a)
      with c less show ?thesis using while_lists by (auto simp: s compile_statement.simps)
    next
      case (STT_FOR i b r a)
      with c less show ?thesis using for_lists by (auto simp: s compile_statement.simps)
    qed (use c less.prems in \<open>auto simp: s compile_statement.simps dest: expression_statement_lists continue_or_break_lists return_lists\<close>)
    with l show "tx_label_lists u' = tx_label_lists u" by simp
  qed
qed

section \<open>Loops\<close>

lemma push_parts:
  assumes "ready st" and "tx_label_lists (push_label st lt) lt = ld # lds" and "ld \<le> MAX_LABELDESC"
  shows "ready (push_label st lt)" and "tx_label_lists (push_label st lt) = (tx_label_lists st)(lt := ld # tx_label_lists st lt)"
    and "addrs (st_tx (push_label st lt)) = (addrs (st_tx st))(ld := Some 0)" and "addrs (st_tx st) ld = None"
    and "st_pc (push_label st lt) = st_pc st" and "tx_flags (st_tx (push_label st lt)) = tx_flags (st_tx st)"
    and "agrees f T lo (st_tx (push_label st lt)) = agrees f T lo (st_tx st)"
proof -
  obtain b where m: "make_label (st_tx st) = (b, ld)" and p: "push_label st lt = st\<lparr>st_tx := b, tx_label_lists := (tx_label_lists st)(lt := ld # tx_label_lists st lt)\<rparr>"
    using assms(2) by (cases "make_label (st_tx st)") (auto simp: push_label_def)
  have t: "tidy (st_tx st)" using assms(1) by (simp add: ready_def)
  note l = make_label_labs[OF tidy_ok[OF t] m] and d = make_label_tidy[OF m t] and a = make_addrs[OF m tidy_ok[OF t]]
  show "tx_label_lists (push_label st lt) = (tx_label_lists st)(lt := ld # tx_label_lists st lt)" by (simp add: p)
  show a': "addrs (st_tx (push_label st lt)) = (addrs (st_tx st))(ld := Some 0)" "addrs (st_tx st) ld = None" using a assms(3) by (simp_all add: p)
  show "st_pc (push_label st lt) = st_pc st" "tx_flags (st_tx (push_label st lt)) = tx_flags (st_tx st)"
    "agrees f T lo (st_tx (push_label st lt)) = agrees f T lo (st_tx st)" using l d by (simp_all add: p)
  have "addrs b k \<noteq> None" if "k \<in> set (((tx_label_lists st)(lt := ld # tx_label_lists st lt)) lt')" for k lt'
  proof (cases "k = ld")
    case True
    then show ?thesis using a' by (simp add: p)
  next
    case False
    then have "k \<in> set (tx_label_lists st lt')" using that by (auto split: if_split_asm)
    then have "addrs (st_tx st) k \<noteq> None" using assms(1) unfolding ready_def by blast
    then show ?thesis using a' False by (simp add: p)
  qed
  then show "ready (push_label st lt)" using assms(1) d(1) l(5,6) by (simp add: ready_def p)
qed

lemma pop_parts:
  assumes "pop_label u lt = Some u'" and "tx_label_lists u lt = ld # lds"
  shows "\<exists>c. ci_resolve_and_free_label (st_tx u) ld = Some c \<and> u' = u\<lparr>st_tx := c, tx_label_lists := (tx_label_lists u)(lt := lds)\<rparr>"
  using assms by (auto simp: pop_label_def coding_def bind_Some_iff)

lemma head_parts:
  assumes "make_label (st_tx u) = (tx, L)" and "coding (u\<lparr>st_tx := tx\<rparr>) (\<lambda>tx. set_label_addr tx L (tx_pc tx)) = Some u'" and "ready u"
  shows "ready u'" and "st_pc u' = st_pc u" and "addrs (st_tx u') = (addrs (st_tx u))(L := Some (st_pc u))" and "addrs (st_tx u) L = None"
    and "tx_label_lists u' = tx_label_lists u" and "tx_flags (st_tx u') = tx_flags (st_tx u)"
    and "agrees f T lo (st_tx u') = agrees f T lo (st_tx u)"
proof -
  have t: "tidy (st_tx u)" using assms(3) by (simp add: ready_def)
  note l = make_label_labs[OF tidy_ok[OF t] assms(1)] and d = make_label_tidy[OF assms(1) t] and a = make_addrs[OF assms(1) tidy_ok[OF t]]
  obtain b where b: "set_label_addr tx L (tx_pc tx) = Some b" "u' = u\<lparr>st_tx := b\<rparr>" using codingD[OF assms(2)] by auto
  obtain lb where s: "labs tx L = Some lb" "labs b = (labs tx)(L := Some (lb\<lparr>lb_addr := tx_pc tx\<rparr>))" "tx_pc b = tx_pc tx" "tx_flags b = tx_flags tx"
    using set_label_addr_labs[OF b(1) l(7)] by metis
  note e = set_label_addr_tidy[OF b(1) d(1)]
  show pc: "st_pc u' = st_pc u" "tx_flags (st_tx u') = tx_flags (st_tx u)" "tx_label_lists u' = tx_label_lists u"
    "agrees f T lo (st_tx u') = agrees f T lo (st_tx u)"
    using s(3,4) l(5,6) d(2) e(2) by (simp_all add: b(2))
  have "addrs b = (addrs tx)(L := Some (tx_pc tx))" using s(2) by (auto simp: addrs_def fun_eq_iff)
  then show ad: "addrs (st_tx u') = (addrs (st_tx u))(L := Some (st_pc u))" "addrs (st_tx u) L = None"
    using a l(5) by (simp_all add: b(2))
  show "ready u'" using assms(3) e(1) pc ad(1) by (auto simp: ready_def b(2))
qed

text \<open>From the start of the body to the place that \<open>continue\<close> goes to.\<close>

lemma loop_front:
  assumes "make_label (st_tx u3) = (tx, L)" and "coding (u3\<lparr>st_tx := tx\<rparr>) (\<lambda>tx. set_label_addr tx L (tx_pc tx)) = Some u5"
    and "compile_statement cp u5 s = Some u6" and "pop_label u6 LT_CONTINUE = Some u7"
    and "ready u3" and "tx_label_lists u3 LT_CONTINUE = C # cs" and "addrs (st_tx u3) C = Some 0" and "well_compiled cp s"
  shows "tidy (st_tx u7)" and "tx_flags (st_tx u7) = tx_flags (st_tx u3)" and "st_pc u7 = st_pc u6" and "st_pc u3 \<le> st_pc u6"
    and "tx_label_lists u7 = (tx_label_lists u3)(LT_CONTINUE := cs)" and "addrs (st_tx u3) L = None"
    and "addrs (st_tx u7) = (addrs (st_tx u3))(L := Some (st_pc u3), C := None)"
    and "\<And>f T lo. agrees f T lo (st_tx u7) \<Longrightarrow> agrees f (T(C := st_pc u6)) lo (st_tx u3)"
    and "\<And>f T lo brk. agrees f T lo (st_tx u7) \<Longrightarrow> lo \<le> st_pc u3 \<Longrightarrow> exits u3 (T(C := st_pc u6)) brk (st_pc u6) \<Longrightarrow>
           stm_code cp f s (st_pc u3) (st_pc u6) brk (st_pc u6)"
proof -
  note h = head_parts[OF assms(1,2,5)]
  note g = well_compiledD[OF assms(8,3) h(1)]
  have t6: "tidy (st_tx u6)" using g(3) by (simp add: ready_def)
  obtain c where c: "ci_resolve_and_free_label (st_tx u6) C = Some c" "u7 = u6\<lparr>st_tx := c, tx_label_lists := (tx_label_lists u6)(LT_CONTINUE := cs)\<rparr>"
    using pop_parts[OF assms(4), of C cs] g(2) h(5) assms(6) by auto
  note r = resolve_addrs[OF c(1) t6]
  have ne: "L \<noteq> C" using h(4) assms(7) by auto
  have a6: "addrs (st_tx u6) = (addrs (st_tx u3))(L := Some (st_pc u3))" using grown_addrs[OF g(1)] h(3) by simp
  show "tidy (st_tx u7)" "tx_flags (st_tx u7) = tx_flags (st_tx u3)" "st_pc u7 = st_pc u6" "st_pc u3 \<le> st_pc u6"
    using r h(2,6) g(1) by (simp_all add: c(2) grown_def)
  show "tx_label_lists u7 = (tx_label_lists u3)(LT_CONTINUE := cs)" using g(2) h(5) by (simp add: c(2))
  show "addrs (st_tx u3) L = None" by (rule h(4))
  show "addrs (st_tx u7) = (addrs (st_tx u3))(L := Some (st_pc u3), C := None)" using r(4) a6 by (simp add: c(2))
  have a: "agrees f (T(C := st_pc u6)) lo (st_tx u6)" if "agrees f T lo (st_tx u7)" for f T lo
    using r(5)[of 0 f T lo] a6 ne assms(7) that by (simp add: c(2))
  then show "agrees f (T(C := st_pc u6)) lo (st_tx u3)" if "agrees f T lo (st_tx u7)" for f T lo
    using grown_agrees[OF g(1)] h(7) that by blast
  show "stm_code cp f s (st_pc u3) (st_pc u6) brk (st_pc u6)"
    if "agrees f T lo (st_tx u7)" "lo \<le> st_pc u3" "exits u3 (T(C := st_pc u6)) brk (st_pc u6)" for f T lo brk
    unfolding stm_code_def
    by (intro exI[of _ u5] exI[of _ u6] exI[of _ "T(C := st_pc u6)"] conjI assms(3) h(1,2) exits_lists[OF that(3) h(5)]
        agrees_from[OF a[OF that(1)] that(2)]) simp
qed

definition test_code :: "cparams \<Rightarrow> (nat \<Rightarrow> byte option) \<Rightarrow> expr_t option \<Rightarrow> nat \<Rightarrow> nat \<Rightarrow> nat \<Rightarrow> bool" where
  "test_code cp f b t p q \<longleftrightarrow> (case b of
     Some e \<Rightarrow> \<exists>r. value_code cp f e t r \<and> jump_code f r OC_JUMP_IF_NON_ZERO p \<and> q = r + 4
   | None \<Rightarrow> jump_code f t OC_JUMP p \<and> q = t + 4)"

lemma test_parts:
  assumes "(case b of Some e \<Rightarrow> do { st \<leftarrow> code_value cp u e EC_VALUE; code_jump st OC_JUMP_IF_NON_ZERO L }
      | None \<Rightarrow> code_jump u OC_JUMP L) = Some u'" and "tidy (st_tx u)" and "no_checks (st_tx u)" and "addrs (st_tx u) L \<noteq> None"
  shows "grown (st_tx u) (st_tx u')" and "tx_label_lists u' = tx_label_lists u"
    and "\<And>f T lo. agrees f T lo (st_tx u') \<Longrightarrow> lo \<le> st_pc u \<Longrightarrow> test_code cp f b (st_pc u) (T L) (st_pc u')"
proof -
  show l: "tx_label_lists u' = tx_label_lists u"
    using assms(1) by (auto simp: bind_Some_iff dest!: code_value_lists code_jump_lists split: option.split_asm)
  have "grown (st_tx u) (st_tx u') \<and> (\<forall>f T lo. agrees f T lo (st_tx u') \<longrightarrow> lo \<le> st_pc u \<longrightarrow> test_code cp f b (st_pc u) (T L) (st_pc u'))"
  proof (cases b)
    case None
    then have "code_jump u OC_JUMP L = Some u'" using assms(1) by simp
    from jump_old[OF this assms(4,2,3)] show ?thesis by (simp add: None test_code_def)
  next
    case (Some e)
    then obtain v where v: "code_value cp u e EC_VALUE = Some v" "code_jump v OC_JUMP_IF_NON_ZERO L = Some u'"
      using assms(1) by (auto simp: bind_Some_iff)
    obtain t at where t: "ci_compile_expression cp (st_tx u) e EC_VALUE = Some (t, at)" "v = u\<lparr>st_tx := t\<rparr>" "lext (st_tx u) t" "grown (st_tx u) t"
      using code_valueD[OF v(1) assms(2)] by blast
    have t': "tidy (st_tx v)" "no_checks (st_tx v)" "addrs (st_tx v) L \<noteq> None" using t(2,4) assms(3,4) by (simp_all add: grown_def)
    note j = jump_old[OF v(2) t'(3,1,2)]
    have "test_code cp f b (st_pc u) (T L) (st_pc u')" if a: "agrees f T lo (st_tx u')" "lo \<le> st_pc u" for f T lo
    proof -
      have "agrees f T lo t" using grown_agrees[OF j(1) a(1)] by (simp add: t(2))
      from lext_code_of[OF t(3) assms(2,3) this a(2)] t(1) have "value_code cp f e (st_pc u) (tx_pc t)" unfolding value_code_def by blast
      moreover have "jump_code f (tx_pc t) OC_JUMP_IF_NON_ZERO (T L)" using j(3)[OF a(1)] a(2) t(2,4) by (simp add: grown_def)
      ultimately show ?thesis using j(2) by (auto simp: Some test_code_def t(2))
    qed
    with grown_trans[OF t(4)] j(1) t(2) show ?thesis by simp
  qed
  then show "grown (st_tx u) (st_tx u')"
    "\<And>f T lo. agrees f T lo (st_tx u') \<Longrightarrow> lo \<le> st_pc u \<Longrightarrow> test_code cp f b (st_pc u) (T L) (st_pc u')" by blast+
qed

text \<open>From the test to the end.\<close>

lemma loop_tail:
  assumes "(case b of Some e \<Rightarrow> do { st \<leftarrow> code_value cp u9 e EC_VALUE; code_jump st OC_JUMP_IF_NON_ZERO L }
      | None \<Rightarrow> code_jump u9 OC_JUMP L) = Some u10"
    and "pop_label u10 LT_BREAK = Some u11" and "coding u11 (\<lambda>tx. ci_resolve_and_free_label tx L) = Some st'"
    and "tidy (st_tx u9)" and "no_checks (st_tx u9)" and "tx_label_lists u9 LT_BREAK = B # bs"
    and "addrs (st_tx u9) B = Some 0" and "addrs (st_tx u9) L = Some p" and "0 < p" and "B \<noteq> L"
  shows "tidy (st_tx st')" and "tx_flags (st_tx st') = tx_flags (st_tx u9)" and "st_pc u9 \<le> st_pc st'"
    and "tx_label_lists st' = (tx_label_lists u9)(LT_BREAK := bs)" and "addrs (st_tx st') = (addrs (st_tx u9))(B := None, L := None)"
    and "\<And>f T lo. agrees f T lo (st_tx st') \<Longrightarrow> agrees f (T(L := p, B := st_pc st')) lo (st_tx u9)"
    and "\<And>f T lo. agrees f T lo (st_tx st') \<Longrightarrow> lo \<le> st_pc u9 \<Longrightarrow> test_code cp f b (st_pc u9) p (st_pc st')"
proof -
  note t = test_parts[OF assms(1,4,5)]
  have g: "grown (st_tx u9) (st_tx u10)" "tx_label_lists u10 = tx_label_lists u9" using t(1,2) assms(8) by simp_all
  obtain c where c: "ci_resolve_and_free_label (st_tx u10) B = Some c" "u11 = u10\<lparr>st_tx := c, tx_label_lists := (tx_label_lists u10)(LT_BREAK := bs)\<rparr>"
    using pop_parts[OF assms(2), of B bs] g(2) assms(6) by auto
  have t10: "tidy (st_tx u10)" using g(1) by (simp add: grown_def)
  note r = resolve_addrs[OF c(1) t10]
  obtain d where d: "ci_resolve_and_free_label c L = Some d" "st' = u11\<lparr>st_tx := d\<rparr>" using codingD[OF assms(3)] by (auto simp: c(2))
  note z = resolve_addrs[OF d(1) r(1)]
  have a10: "addrs (st_tx u10) = addrs (st_tx u9)" using grown_addrs[OF g(1)] .
  show "tidy (st_tx st')" "tx_flags (st_tx st') = tx_flags (st_tx u9)" "st_pc u9 \<le> st_pc st'"
    using z r g(1) by (simp_all add: d(2) grown_def)
  show "tx_label_lists st' = (tx_label_lists u9)(LT_BREAK := bs)" using g(2) by (simp add: d(2) c(2))
  show "addrs (st_tx st') = (addrs (st_tx u9))(B := None, L := None)" using z(4) r(4) a10 by (simp add: d(2))
  have pc: "st_pc st' = st_pc u10" using z(2) r(2) by (simp add: d(2))
  have a: "agrees f (T(L := p, B := st_pc st')) lo (st_tx u10)" if "agrees f T lo (st_tx st')" for f T lo
  proof -
    have "agrees f (T(L := p)) lo c" using z(5)[of p f T lo] r(4) a10 assms(8-10) that by (simp add: d(2))
    from r(5)[of 0, OF _ this] a10 assms(7) pc show ?thesis by simp
  qed
  then show "agrees f (T(L := p, B := st_pc st')) lo (st_tx u9)" if "agrees f T lo (st_tx st')" for f T lo
    using grown_agrees[OF g(1)] that by blast
  show "test_code cp f b (st_pc u9) p (st_pc st')" if "agrees f T lo (st_tx st')" "lo \<le> st_pc u9" for f T lo
    using t(3)[OF _ a[OF that(1)] that(2)] assms(8,10) pc by simp
qed

text \<open>A whole loop: body from \<open>p\<close> to \<open>r\<close>, where \<open>continue\<close> goes, what follows each round up to \<open>t\<close>, the test up to \<open>q\<close>, where
  \<open>break\<close> goes.\<close>

definition loop_code :: "cparams \<Rightarrow> (nat \<Rightarrow> byte option) \<Rightarrow> expr_t option \<Rightarrow> expr_t option \<Rightarrow> statement_t \<Rightarrow> nat \<Rightarrow> nat \<Rightarrow> nat \<Rightarrow> nat \<Rightarrow> bool" where
  "loop_code cp f b c s p r t q \<longleftrightarrow> stm_code cp f s p r q r \<and> effect_code cp f c r t \<and> test_code cp f b t p q"

lemma two_labels:
  assumes "ready st" and "tx_label_lists (push_label st LT_BREAK) LT_BREAK = B # bs" and "B \<le> MAX_LABELDESC"
    and "tx_label_lists (push_label (push_label st LT_BREAK) LT_CONTINUE) LT_CONTINUE = C # cs" and "C \<le> MAX_LABELDESC"
  defines "u \<equiv> push_label (push_label st LT_BREAK) LT_CONTINUE"
  shows "ready u" and "addrs (st_tx u) = (addrs (st_tx st))(B := Some 0, C := Some 0)" and "addrs (st_tx st) B = None"
    and "addrs (st_tx st) C = None" and "B \<noteq> C" and "st_pc u = st_pc st" and "tx_flags (st_tx u) = tx_flags (st_tx st)"
    and "tx_label_lists u = (tx_label_lists st)(LT_BREAK := B # tx_label_lists st LT_BREAK, LT_CONTINUE := C # tx_label_lists st LT_CONTINUE)"
    and "agrees f T lo (st_tx u) = agrees f T lo (st_tx st)"
proof -
  note x = push_parts[OF assms(1-3)]
  note y = push_parts[OF x(1) assms(4,5)]
  show "ready u" "addrs (st_tx u) = (addrs (st_tx st))(B := Some 0, C := Some 0)" "addrs (st_tx st) B = None"
    "st_pc u = st_pc st" "tx_flags (st_tx u) = tx_flags (st_tx st)"
    "tx_label_lists u = (tx_label_lists st)(LT_BREAK := B # tx_label_lists st LT_BREAK, LT_CONTINUE := C # tx_label_lists st LT_CONTINUE)"
    "agrees f T lo (st_tx u) = agrees f T lo (st_tx st)"
    using x y by (simp_all add: u_def)
  show "addrs (st_tx st) C = None" "B \<noteq> C" using y(4) x(3) by (auto split: if_split_asm)
qed

lemma pop_max: "pop_label u lt = Some u' \<Longrightarrow> tx_label_lists u lt = ld # lds \<Longrightarrow> ld \<le> MAX_LABELDESC"
  using pop_parts resolve_has_label label_max by blast

lemma grown_scope:
  assumes "tidy b" and "tx_pc a \<le> tx_pc b" and "tx_flags b = tx_flags a" and "addrs b = addrs a"
    and "\<And>f T lo. agrees f T lo b \<Longrightarrow> \<exists>T'. agrees f T' lo a \<and> (\<forall>ld. addrs a ld \<noteq> None \<longrightarrow> T' ld = T ld)"
  shows "grown a b"
  unfolding grown_def
proof (intro conjI allI impI)
  fix f T lo assume "agrees f T lo b"
  with assms(5) obtain T' where "agrees f T' lo a" "\<And>ld. addrs a ld \<noteq> None \<Longrightarrow> T' ld = T ld" by blast
  then show "agrees f T lo a" using agrees_addrs[of f T' lo a T] by simp
qed (fact assms)+

text \<open>What is known of a loop once its front and its tail are taken together: \<open>u3\<close> is the state before the body,
  \<open>u7\<close> the one after \<open>continue\<close> and \<open>u9\<close> the one before the test.\<close>

lemma while_parts:
  assumes "compile_while_or_do_statement cp st e s w = Some st'" and "ready st" and "well_compiled cp s" and "keeps_lists cp s"
  shows "grown (st_tx st) (st_tx st')"
    and "\<And>f T. agrees f T (st_pc st) (st_tx st') \<Longrightarrow>
      \<exists>r. (w \<longrightarrow> jump_code f (st_pc st) OC_JUMP r) \<and> loop_code cp f (Some e) None s (if w then st_pc st + 4 else st_pc st) r r (st_pc st')"
proof -
  let ?u1 = "push_label st LT_BREAK"
  let ?u2 = "push_label ?u1 LT_CONTINUE"
  obtain u3 tx L u5 u6 u7 u8 u9 u10 where
    c3: "(if w then compile_continue_or_break_statement ?u2 LT_CONTINUE else Some ?u2) = Some u3"
    and c4: "make_label (st_tx u3) = (tx, L)" "coding (u3\<lparr>st_tx := tx\<rparr>) (\<lambda>tx. set_label_addr tx L (tx_pc tx)) = Some u5"
      "compile_statement cp u5 s = Some u6" "pop_label u6 LT_CONTINUE = Some u7"
    and c8: "code_value cp u7 e EC_VALUE = Some u8" "code_jump u8 OC_JUMP_IF_NON_ZERO L = Some u9" "pop_label u9 LT_BREAK = Some u10"
    "coding u10 (\<lambda>tx. ci_resolve_and_free_label tx L) = Some st'"
    by (rule while_steps[OF assms(1)]) (rule that; assumption)
  obtain B C where l1: "tx_label_lists ?u1 = (tx_label_lists st)(LT_BREAK := B # tx_label_lists st LT_BREAK)"
      and l2: "tx_label_lists ?u2 = (tx_label_lists ?u1)(LT_CONTINUE := C # tx_label_lists ?u1 LT_CONTINUE)"
    using push_label_lists by meson
  have l3: "tx_label_lists u3 = tx_label_lists ?u2" using c3 continue_or_break_lists by (cases w) fastforce+
  have l6: "tx_label_lists u6 = tx_label_lists u3" using keeps_listsD[OF assms(4) c4(3)] coding_lists[OF c4(2)] by simp
  have C: "C \<le> MAX_LABELDESC" using pop_max[OF c4(4)] l6 l3 l2 by simp
  have "tx_label_lists u9 LT_BREAK = B # tx_label_lists st LT_BREAK"
    using code_value_lists[OF c8(1)] code_jump_lists[OF c8(2)] pop_label_lists[OF c4(4)] l6 l3 l2 l1 by auto
  then have B: "B \<le> MAX_LABELDESC" using pop_max[OF c8(3)] by blast
  note p = two_labels[OF assms(2) _ B _ C, simplified l1 l2, OF fun_upd_same fun_upd_same]
  have e3: "grown (st_tx ?u2) (st_tx u3)" "st_pc u3 = (if w then st_pc st + 4 else st_pc st)"
    "agrees f T lo (st_tx u3) \<Longrightarrow> w \<Longrightarrow> lo \<le> st_pc st \<Longrightarrow> jump_code f (st_pc st) OC_JUMP (T C)" for f T lo
  proof -
    have t2: "tidy (st_tx ?u2)" "no_checks (st_tx ?u2)" "addrs (st_tx ?u2) C \<noteq> None" using p(1,2) by (simp_all add: ready_def)
    have j: "code_jump ?u2 OC_JUMP C = Some u3" if w using c3 that l2 by (simp add: compile_continue_or_break_statement_def)
    show "grown (st_tx ?u2) (st_tx u3)" using jump_old(1)[OF j t2(3,1,2)] grown_refl[OF t2(1)] c3 by (cases w) auto
    show "st_pc u3 = (if w then st_pc st + 4 else st_pc st)" using jump_old(2)[OF j t2(3,1,2)] c3 p(6) by (cases w) auto
    show "jump_code f (st_pc st) OC_JUMP (T C)" if "agrees f T lo (st_tx u3)" w "lo \<le> st_pc st"
      using jump_old(3)[OF j[OF that(2)] t2(3,1,2) that(1)] that(3) p(6) by simp
  qed
  have r3: "ready u3" using ready_grown[OF p(1) e3(1) l3] .
  have a3: "addrs (st_tx u3) = (addrs (st_tx st))(B := Some 0, C := Some 0)" using grown_addrs[OF e3(1)] p(2) by simp
  have L3: "tx_label_lists u3 LT_CONTINUE = C # tx_label_lists st LT_CONTINUE" using l3 l2 l1 by simp
  note f = loop_front[OF c4 r3 L3 _ assms(3)]
  have fa: "addrs (st_tx u3) C = Some 0" using a3 by simp
  have n7: "no_checks (st_tx u7)" using f(2)[OF fa] r3 by (simp add: ready_def)
  have a7: "addrs (st_tx u7) = (addrs (st_tx st))(B := Some 0, L := Some (st_pc u3))"
    using f(7)[OF fa] a3 p(4,5) f(6)[OF fa] by (auto simp: fun_eq_iff)
  have LB: "B \<noteq> L" "L \<noteq> C" "addrs (st_tx st) L = None" using f(6)[OF fa] a3 by (auto split: if_split_asm)
  have tail: "(case Some e of Some e \<Rightarrow> do { st \<leftarrow> code_value cp u7 e EC_VALUE; code_jump st OC_JUMP_IF_NON_ZERO L }
      | None \<Rightarrow> code_jump u7 OC_JUMP L) = Some u9" using c8(1,2) by simp
  have L7: "tx_label_lists u7 LT_BREAK = B # tx_label_lists st LT_BREAK" using f(5)[OF fa] l3 l2 l1 by simp
  have pos: "0 < st_pc u3" using r3 by (simp add: ready_def)
  have ad: "addrs (st_tx u7) B = Some 0" "addrs (st_tx u7) L = Some (st_pc u3)" using a7 LB by simp_all
  note t = loop_tail[OF tail c8(3,4) f(1)[OF fa] n7 L7 ad pos LB(1)]
  let ?T = "\<lambda>T. T(L := st_pc u3, B := st_pc st', C := st_pc u6)"
  have ag: "agrees f (?T T) lo (st_tx u3)" if "agrees f T lo (st_tx st')" for f T lo using f(8)[OF fa t(6)[OF that]] .
  show "grown (st_tx st) (st_tx st')"
  proof (rule grown_scope)
    show "tidy (st_tx st')" "tx_flags (st_tx st') = tx_flags (st_tx st)" "tx_pc (st_tx st) \<le> tx_pc (st_tx st')"
      using t(1-3) f(2-4)[OF fa] e3(1,2) p(7) by (auto simp: grown_def split: if_split_asm)
    show "addrs (st_tx st') = addrs (st_tx st)" using t(5) a7 p(3) LB by (auto simp: fun_eq_iff)
    fix f T lo assume "agrees f T lo (st_tx st')"
    from grown_agrees[OF e3(1) ag[OF this]] have "agrees f (?T T) lo (st_tx st)" using p(9) by simp
    moreover have "(?T T) ld = T ld" if "addrs (st_tx st) ld \<noteq> None" for ld using that LB(3) p(3,4) by auto
    ultimately show "\<exists>T'. agrees f T' lo (st_tx st) \<and> (\<forall>ld. addrs (st_tx st) ld \<noteq> None \<longrightarrow> T' ld = T ld)" by blast
  qed
  fix f T assume a: "agrees f T (st_pc st) (st_tx st')"
  have le: "st_pc st \<le> st_pc u3" "st_pc st \<le> st_pc u7" using e3(2) f(3,4)[OF fa] by (auto split: if_split_asm)
  have x: "exits u3 (?T T) (st_pc st') (st_pc u6)" using l3 l2 l1 p(5) LB by (auto simp: exits_def)
  have "stm_code cp f s (st_pc u3) (st_pc u6) (st_pc st') (st_pc u6)" using f(9)[OF fa t(6)[OF a] le(1) x] .
  moreover have "test_code cp f (Some e) (st_pc u6) (st_pc u3) (st_pc st')" using t(7)[OF a le(2)] f(3)[OF fa] by simp
  moreover have "w \<longrightarrow> jump_code f (st_pc st) OC_JUMP (st_pc u6)" using e3(3)[OF ag[OF a]] by simp
  ultimately show "\<exists>r. (w \<longrightarrow> jump_code f (st_pc st) OC_JUMP r) \<and> loop_code cp f (Some e) None s (if w then st_pc st + 4 else st_pc st) r r (st_pc st')"
    unfolding loop_code_def effect_code_def e3(2)[symmetric] option.case by blast
qed

lemma effect_parts:
  assumes "compile_expression_statement cp u eo = Some u'" and "tidy (st_tx u)" and "no_checks (st_tx u)"
  shows "grown (st_tx u) (st_tx u')" and "u' = u\<lparr>st_tx := st_tx u'\<rparr>"
    and "\<And>f T lo. agrees f T lo (st_tx u') \<Longrightarrow> lo \<le> st_pc u \<Longrightarrow> effect_code cp f eo (st_pc u) (st_pc u')"
proof -
  have "grown (st_tx u) (st_tx u') \<and> u' = u\<lparr>st_tx := st_tx u'\<rparr>
    \<and> (\<forall>f T lo. agrees f T lo (st_tx u') \<longrightarrow> lo \<le> st_pc u \<longrightarrow> effect_code cp f eo (st_pc u) (st_pc u'))"
  proof (cases eo)
    case None
    then have "u' = u" using assms(1) by (simp add: compile_expression_statement_def)
    then show ?thesis using grown_refl[OF assms(2)] by (simp add: None effect_code_def)
  next
    case (Some e)
    then have "code_value cp u e EC_EFFECT = Some u'" using assms(1) by (simp add: compile_expression_statement_def)
    from code_valueD[OF this assms(2)] obtain t at where
      t: "ci_compile_expression cp (st_tx u) e EC_EFFECT = Some (t, at)" "u' = u\<lparr>st_tx := t\<rparr>" "lext (st_tx u) t" "grown (st_tx u) t" by blast
    have "effect_code cp f eo (st_pc u) (st_pc u')" if "agrees f T lo t" "lo \<le> st_pc u" for f T lo
      using lext_code_of[OF t(3) assms(2,3) that] t(1,2) unfolding effect_code_def Some option.case by fastforce
    with t show ?thesis by simp
  qed
  then show "grown (st_tx u) (st_tx u')" "u' = u\<lparr>st_tx := st_tx u'\<rparr>"
    "\<And>f T lo. agrees f T lo (st_tx u') \<Longrightarrow> lo \<le> st_pc u \<Longrightarrow> effect_code cp f eo (st_pc u) (st_pc u')" by blast+
qed

lemma for_parts:
  assumes "compile_for_statement cp st a b c s = Some st'" and "ready st" and "well_compiled cp s" and "keeps_lists cp s"
  shows "grown (st_tx st) (st_tx st')"
    and "\<And>f T. agrees f T (st_pc st) (st_tx st') \<Longrightarrow>
      \<exists>p r t. effect_code cp f a (st_pc st) p \<and> jump_code f p OC_JUMP t \<and> loop_code cp f b c s (p + 4) r t (st_pc st')"
proof -
  let ?u1 = "push_label st LT_BREAK"
  let ?u2 = "push_label ?u1 LT_CONTINUE"
  obtain u3 t4 X t5 L u5 u6 u7 u8 u9 u10 u11 where
    c3: "compile_expression_statement cp ?u2 a = Some u3" "ci_code_jump_to_label (st_tx u3) OC_JUMP NO_LABELDESC = Some (t4, X)"
    and c4: "make_label t4 = (t5, L)" "coding (u3\<lparr>st_tx := t5\<rparr>) (\<lambda>tx. set_label_addr tx L (tx_pc tx)) = Some u5"
      "compile_statement cp u5 s = Some u6" "pop_label u6 LT_CONTINUE = Some u7"
    and c8: "compile_expression_statement cp u7 c = Some u8" "coding u8 (\<lambda>tx. ci_resolve_and_free_label tx X) = Some u9"
    and c10: "(case b of Some e \<Rightarrow> do { st \<leftarrow> code_value cp u9 e EC_VALUE; code_jump st OC_JUMP_IF_NON_ZERO L }
        | None \<Rightarrow> code_jump u9 OC_JUMP L) = Some u10"
      "pop_label u10 LT_BREAK = Some u11" "coding u11 (\<lambda>tx. ci_resolve_and_free_label tx L) = Some st'"
    by (rule for_steps[OF assms(1)]) (rule that; assumption)
  obtain B C where l1: "tx_label_lists ?u1 = (tx_label_lists st)(LT_BREAK := B # tx_label_lists st LT_BREAK)"
      and l2: "tx_label_lists ?u2 = (tx_label_lists ?u1)(LT_CONTINUE := C # tx_label_lists ?u1 LT_CONTINUE)"
    using push_label_lists by meson
  have l3: "tx_label_lists u3 = tx_label_lists ?u2" using expression_statement_lists[OF c3(1)] .
  have l6: "tx_label_lists u6 = tx_label_lists u3" using keeps_listsD[OF assms(4) c4(3)] coding_lists[OF c4(2)] by simp
  have C: "C \<le> MAX_LABELDESC" using pop_max[OF c4(4)] l6 l3 l2 by simp
  have "tx_label_lists u10 = tx_label_lists u7"
    using c10(1) expression_statement_lists[OF c8(1)] coding_lists[OF c8(2)]
    by (auto simp: bind_Some_iff dest!: code_value_lists code_jump_lists split: option.split_asm)
  then have "tx_label_lists u10 LT_BREAK = B # tx_label_lists st LT_BREAK" using pop_label_lists[OF c4(4)] l6 l3 l2 l1 by auto
  then have B: "B \<le> MAX_LABELDESC" using pop_max[OF c10(2)] by blast
  note p = two_labels[OF assms(2) _ B _ C, simplified l1 l2, OF fun_upd_same fun_upd_same]
  have t2: "tidy (st_tx ?u2)" "no_checks (st_tx ?u2)" using p(1) by (simp_all add: ready_def)
  note i = effect_parts[OF c3(1) t2]
  have t3: "tidy (st_tx u3)" "no_checks (st_tx u3)" using i(1) t2(2) by (simp_all add: grown_def)
  note j = jump_new[OF c3(2) t3]
  let ?v = "u3\<lparr>st_tx := t4\<rparr>"
  have a3: "addrs (st_tx u3) = (addrs (st_tx st))(B := Some 0, C := Some 0)" using grown_addrs[OF i(1)] p(2) by simp
  have X: "X \<noteq> B" "X \<noteq> C" "addrs (st_tx st) X = None" using j(5) a3 by (auto split: if_split_asm)
  have av: "addrs t4 = (addrs (st_tx st))(B := Some 0, C := Some 0, X := Some 0)" using j(4) a3 by simp
  have rv: "ready ?v" using ready_grown[OF p(1) i(1) l3] j(1-4) by (simp add: ready_def)
  have Lv: "tx_label_lists ?v LT_CONTINUE = C # tx_label_lists st LT_CONTINUE" using l3 l2 l1 by simp
  have av': "addrs (st_tx ?v) C = Some 0" using av X by simp
  have d4: "make_label (st_tx ?v) = (t5, L)" "coding (?v\<lparr>st_tx := t5\<rparr>) (\<lambda>tx. set_label_addr tx L (tx_pc tx)) = Some u5" using c4(1,2) by simp_all
  note f = loop_front[OF d4 c4(3,4) rv Lv av' assms(3)]
  have n7: "no_checks (st_tx u7)" using f(2) rv by (simp add: ready_def)
  note r = effect_parts[OF c8(1) f(1) n7]
  obtain t9 where t9: "ci_resolve_and_free_label (st_tx u8) X = Some t9" "u9 = u8\<lparr>st_tx := t9\<rparr>" using codingD[OF c8(2)] by auto
  have t8: "tidy (st_tx u8)" using r(1) by (simp add: grown_def)
  note z = resolve_addrs[OF t9(1) t8]
  have LB: "L \<noteq> B" "L \<noteq> C" "L \<noteq> X" "addrs (st_tx st) L = None" using f(6) av by (auto split: if_split_asm)
  have a8: "addrs (st_tx u8) = (addrs (st_tx st))(B := Some 0, X := Some 0, L := Some (st_pc ?v))"
    using grown_addrs[OF r(1)] f(7) av p(4,5) X LB by (auto simp: fun_eq_iff)
  have a9: "addrs (st_tx u9) = (addrs (st_tx st))(B := Some 0, L := Some (st_pc ?v))" using z(4) a8 X LB by (auto simp: t9(2) fun_eq_iff)
  have t9': "tidy (st_tx u9)" "no_checks (st_tx u9)" "st_pc u9 = st_pc u8" using z(1-3) r(1) n7 by (simp_all add: t9(2) grown_def)
  have l8: "tx_label_lists u8 = tx_label_lists u7" using arg_cong[OF r(2), of tx_label_lists] by simp
  have L9: "tx_label_lists u9 LT_BREAK = B # tx_label_lists st LT_BREAK" using l8 f(5) l3 l2 l1 by (simp add: t9(2))
  have pos: "0 < st_pc ?v" using rv by (simp add: ready_def)
  have ad: "addrs (st_tx u9) B = Some 0" "addrs (st_tx u9) L = Some (st_pc ?v)" "B \<noteq> L" using a9 LB by simp_all
  note t = loop_tail[OF c10 t9'(1,2) L9 ad(1,2) pos ad(3)]
  let ?T2 = "\<lambda>T. T(L := st_pc ?v, B := st_pc st', X := st_pc u8)" and ?T = "\<lambda>T. T(L := st_pc ?v, B := st_pc st', X := st_pc u8, C := st_pc u6)"
  have g8: "agrees f (?T2 T) lo (st_tx u8)" if "agrees f T lo (st_tx st')" for f T lo
    using z(5)[of 0 f "T(L := st_pc ?v, B := st_pc st')" lo] a8 X LB t(6)[OF that] by (simp add: t9(2))
  have g7: "agrees f (?T2 T) lo (st_tx u7)" if "agrees f T lo (st_tx st')" for f T lo using grown_agrees[OF r(1) g8[OF that]] .
  have gv: "agrees f (?T T) lo t4" if "agrees f T lo (st_tx st')" for f T lo using f(8)[OF g7[OF that]] by simp
  have lists: "tx_label_lists ?v = (tx_label_lists st)(LT_BREAK := B # tx_label_lists st LT_BREAK, LT_CONTINUE := C # tx_label_lists st LT_CONTINUE)"
    using l3 l2 l1 by simp
  have pc: "st_pc st \<le> st_pc u3" "st_pc ?v = st_pc u3 + 4" "st_pc ?v \<le> st_pc u6" "st_pc u6 \<le> st_pc u8"
    using i(1) p(6) j(2) f(3,4) r(1) by (simp_all add: grown_def)
  show "grown (st_tx st) (st_tx st')"
  proof (rule grown_scope)
    show "tidy (st_tx st')" "tx_flags (st_tx st') = tx_flags (st_tx st)" "tx_pc (st_tx st) \<le> tx_pc (st_tx st')"
      using t(1-3) z(3) f(2) j(3) i(1) r(1) p(7) pc t9'(3) by (simp_all add: t9(2) grown_def)
    show "addrs (st_tx st') = addrs (st_tx st)" using t(5) a9 p(3) LB by (auto simp: fun_eq_iff)
    fix f T lo assume "agrees f T lo (st_tx st')"
    from grown_agrees[OF i(1) j(6)[OF gv[OF this]]] have "agrees f (?T T) lo (st_tx st)" using p(9) by simp
    moreover have "(?T T) ld = T ld" if "addrs (st_tx st) ld \<noteq> None" for ld using that LB(4) X(3) p(3,4) by auto
    ultimately show "\<exists>T'. agrees f T' lo (st_tx st) \<and> (\<forall>ld. addrs (st_tx st) ld \<noteq> None \<longrightarrow> T' ld = T ld)" by blast
  qed
  fix f T assume ag: "agrees f T (st_pc st) (st_tx st')"
  have x: "exits ?v (?T T) (st_pc st') (st_pc u6)" using lists p(5) LB X by (auto simp: exits_def)
  have "stm_code cp f s (st_pc ?v) (st_pc u6) (st_pc st') (st_pc u6)" using f(9)[OF g7[OF ag] _ x] pc by simp
  moreover have "effect_code cp f c (st_pc u6) (st_pc u8)" using r(3)[OF g8[OF ag]] f(3) pc by simp
  moreover have "test_code cp f b (st_pc u8) (st_pc ?v) (st_pc st')" using t(7)[OF ag] t9'(3) pc by simp
  moreover have "jump_code f (st_pc u3) OC_JUMP (st_pc u8)" using j(7)[OF gv[OF ag] pc(1)] X LB by simp
  moreover have "effect_code cp f a (st_pc st) (st_pc u3)" using i(3)[OF j(6)[OF gv[OF ag]]] p(6) by simp
  ultimately show "\<exists>p r t. effect_code cp f a (st_pc st) p \<and> jump_code f p OC_JUMP t \<and> loop_code cp f b c s (p + 4) r t (st_pc st')"
    unfolding loop_code_def pc(2) by blast
qed

end
