(* ===== verification/Ups_Stmt_Code.thy ===== *)
theory Ups_Stmt_Code
  imports Ups_Stmt_Props
begin

text \<open>
  The code of whole statements.  Every statement without \<open>goto\<close> and \<open>switch\<close> leaves the labels in use as they
  were, and for each kind of statement a lemma says which parts the finished code has and where they
  are, with all the jumps resolved.
\<close>

section \<open>Simple statements and blocks\<close>

lemma initialiser_lext:
  assumes "text_ok tx" and "ci_compile_var_reference cp tx v EC_ADDRESS = Some (t1, a1)" and "ci_compile_expression cp t1 e EC_VALUE = Some (t2, a2)"
    and "ci_code_assign cp t2 (va_type v) False AT_CI_ADDR = Some t3"
  shows "lext tx t1" and "lext tx t2" and "lext tx t3"
proof -
  show 1: "lext tx t1" using grows_var_reference[OF lext_refl[OF assms(1)]] assms(2) unfolding growsp_def by blast
  show 2: "lext tx t2" using lext_trans[OF 1 compile_lext[OF lext_ok[OF 1] assms(3)]] .
  show "lext tx t3" using grows_code_assign[OF 2] assms(4) unfolding grows_def by blast
qed

lemma initlist_grown:
  assumes "compile_initlist cp st il = Some st'" and "tidy (st_tx st)"
  shows "grown (st_tx st) (st_tx st')"
  using assms
proof (induction il arbitrary: st)
  case (Cons vi il)
  obtain v ini where vi: "vi = (v, ini)" by (cases vi)
  show ?case
  proof (cases "IS_LOCAL_CLASS (va_class v) \<and> (\<exists>e. ini = IT_EXPR e)")
    case True
    then obtain e where e: "ini = IT_EXPR e" by blast
    obtain u where u: "coding st (\<lambda>tx. do { (tx, _) \<leftarrow> ci_compile_var_reference cp tx v EC_ADDRESS;
               (tx, _) \<leftarrow> ci_compile_expression cp tx e EC_VALUE; ci_code_assign cp tx (va_type v) False AT_CI_ADDR }) = Some u"
        "compile_initlist cp u il = Some st'"
      using Cons.prems(1) True e vi by (auto simp: bind_Some_iff)
    obtain tx where tx: "lext (st_tx st) tx" "u = st\<lparr>st_tx := tx\<rparr>"
      using codingD[OF u(1)] initialiser_lext(3)[OF tidy_ok[OF Cons.prems(2)]]
      unfolding bind_Some_iff split_paired_Ex prod.case by blast
    note g = lext_grown[OF tx(1) Cons.prems(2)]
    have "grown (st_tx u) (st_tx st')" using Cons.IH[OF u(2)] g tx(2) by (simp add: grown_def)
    with g tx(2) show ?thesis using grown_trans by fastforce
  next
    case False
    then obtain u where "compile_initlist cp u il = Some st'" "st_tx u = st_tx st"
      using Cons.prems(1) vi by (auto split: if_split_asm initialiser_t.split_asm)
    then show ?thesis using Cons.IH[of u] Cons.prems(2) by simp
  qed
qed (simp add: grown_refl)

lemma statements_grown:
  assumes "\<And>s. s \<in> set ss \<Longrightarrow> well_compiled cp s" and "compile_statements cp st ss = Some st'" and "ready st"
  shows "grown (st_tx st) (st_tx st')"
  using assms
proof (induction ss arbitrary: st)
  case Nil
  then show ?case by (simp add: grown_refl ready_def)
next
  case (Cons s ss)
  then obtain u where u: "compile_statement cp st s = Some u" "compile_statements cp u ss = Some st'" by (auto simp: bind_Some_iff)
  have "well_compiled cp s" using Cons.prems(1) by simp
  note w = well_compiledD[OF this u(1) Cons.prems(3)]
  from Cons.IH[OF _ u(2) w(3)] Cons.prems(1) w(1) show ?case by (auto intro: grown_trans)
qed

lemma continue_or_break_parts:
  assumes "compile_continue_or_break_statement st lt = Some st'" and "ready st"
  obtains ld lds where "tx_label_lists st lt = ld # lds" and "grown (st_tx st) (st_tx st')" and "st_pc st' = st_pc st + 4"
    and "\<And>f T lo. agrees f T lo (st_tx st') \<Longrightarrow> lo \<le> st_pc st \<Longrightarrow> jump_code f (st_pc st) OC_JUMP (T ld)"
proof -
  obtain ld lds where l: "tx_label_lists st lt = ld # lds" "code_jump st OC_JUMP ld = Some st'"
    using assms(1) by (auto simp: compile_continue_or_break_statement_def split: list.split_asm)
  have "ld \<in> set (tx_label_lists st lt)" using l(1) by simp
  with assms(2) have "addrs (st_tx st) ld \<noteq> None" "tidy (st_tx st)" "no_checks (st_tx st)" unfolding ready_def by blast+
  from that[OF l(1)] jump_old[OF l(2) this] show ?thesis by blast
qed

lemma return_lext:
  assumes "compile_return_statement cp st eo = Some st'" and "text_ok (st_tx st)"
  shows "lext (st_tx st) (st_tx st')" and "st' = st\<lparr>st_tx := st_tx st'\<rparr>"
proof -
  let ?r = "case eo of None \<Rightarrow> ci_code_opcode (st_tx st) OC_RET
     | Some e \<Rightarrow> do {
         t \<leftarrow> ex_type e;
         if ty_code t = TY_STRUCT \<or> ty_code t = TY_UNION then
           (if is_func_call e then do {
              tx \<leftarrow> ci_code_opcode (st_tx st) OC_PUSH_STRUCTRET_ADDR;
              (tx, _) \<leftarrow> ci_compile_expression cp tx e EC_ADDRESS;
              ci_code_opcode tx OC_RET }
            else do {
              (tx, _) \<leftarrow> ci_compile_expression cp (st_tx st) e EC_ADDRESS;
              tx \<leftarrow> ci_code_opcode tx OC_RET_STRUCT;
              n \<leftarrow> ci_typesize (cp_bool_type cp) t;
              ci_code_long tx (of_int n) })
         else do {
           (tx, _) \<leftarrow> ci_compile_expression cp (st_tx st) e EC_VALUE;
           ci_code_opcode tx (return_opcode (ty_code t)) } }"
  have "grows (st_tx st) ?r"
    by (intro growing cgrowsD[OF compiler_grows] lext_refl assms(2))
  moreover have "?r = Some (st_tx st') \<and> st' = st\<lparr>st_tx := st_tx st'\<rparr>"
    using assms(1) by (auto simp: compile_return_statement_def coding_def bind_Some_iff)
  ultimately show "lext (st_tx st) (st_tx st')" "st' = st\<lparr>st_tx := st_tx st'\<rparr>" by (simp_all add: grows_def)
qed

text \<open>The entry in the line number table does not matter.\<close>

definition lined :: "stext_t \<Rightarrow> int option \<Rightarrow> stext_t" where
  "lined u lx = (case lx of None \<Rightarrow> u | Some lnum \<Rightarrow> add_lno_entry u (st_pc u) lnum)"

lemma lined_simps [simp]: "st_tx (lined u lx) = st_tx u" "tx_label_lists (lined u lx) = tx_label_lists u"
  "ready (lined u lx) = ready u" "exits (lined u lx) = exits u"
  by (simp_all add: lined_def ready_def exits_def fun_eq_iff split: option.split)

lemma compile_lined: "compile_statement cp u (Statement lx k) = (case k of
        STT_LABELED gl s \<Rightarrow> compile_labeled_statement cp (lined u lx) gl s
      | STT_CASE_LABELED i e v s \<Rightarrow> compile_case_labeled_statement cp (lined u lx) i s
      | STT_EXPR e \<Rightarrow> compile_expression_statement cp (lined u lx) e
      | STT_COMPOUND il ss \<Rightarrow> compile_compound_statement cp (lined u lx) il ss
      | STT_IF e s t \<Rightarrow> compile_if_statement cp (lined u lx) e s t
      | STT_SWITCH e s cs d \<Rightarrow> compile_switch_statement cp (lined u lx) e s cs d
      | STT_WHILE e s \<Rightarrow> compile_while_or_do_statement cp (lined u lx) e s True
      | STT_DO e s \<Rightarrow> compile_while_or_do_statement cp (lined u lx) e s False
      | STT_FOR a b c s \<Rightarrow> compile_for_statement cp (lined u lx) a b c s
      | STT_GOTO gl \<Rightarrow> compile_goto_statement (lined u lx) gl
      | STT_CONTINUE \<Rightarrow> compile_continue_or_break_statement (lined u lx) LT_CONTINUE
      | STT_BREAK \<Rightarrow> compile_continue_or_break_statement (lined u lx) LT_BREAK
      | STT_RETURN e \<Rightarrow> compile_return_statement cp (lined u lx) e)"
  unfolding compile_statement.simps Let_def lined_def by (rule HOL.refl)

lemma flow_well_compiled: "flow_stm s \<Longrightarrow> well_compiled cp s"
proof (induction s rule: measure_induct_rule[of size])
  case (less s)
  obtain lx k where s: "s = Statement lx k" by (cases s)
  show ?case unfolding well_compiled_def
  proof (intro allI impI)
    fix u u' assume c: "compile_statement cp u s = Some u'" and "ready u"
    let ?u = "lined u lx"
    have r: "ready ?u" and t: "tidy (st_tx ?u)" "no_checks (st_tx ?u)" using \<open>ready u\<close> by (simp_all add: ready_def)
    have "grown (st_tx ?u) (st_tx u')"
    proof (cases k)
      case (STT_COMPOUND il ss)
      obtain w where w: "compile_initlist cp ?u il = Some w" "compile_statements cp w ss = Some u'"
        using c by (auto simp: s STT_COMPOUND compile_lined bind_Some_iff)
      note g = initlist_grown[OF w(1) t(1)]
      have "well_compiled cp x" if "x \<in> set ss" for x
        using that less size_in_statements[OF that] by (simp add: s STT_COMPOUND list_all_iff)
      from statements_grown[OF this w(2) ready_grown[OF r g initlist_lists[OF w(1)]]] g show ?thesis by (blast intro: grown_trans)
    next
      case (STT_IF e a b)
      have wa: "well_compiled cp a" "\<And>b'. b = Some b' \<Longrightarrow> well_compiled cp b'" using less by (auto simp: s STT_IF)
      show ?thesis using c wa if_parts(1)[of cp ?u e a u', OF _ r] if_else_parts(1)[of cp ?u e a _ u', OF _ r]
        by (cases b) (auto simp: s STT_IF compile_lined)
    next
      case (STT_WHILE e a)
      then have "well_compiled cp a" "keeps_lists cp a" using less flow_keeps_lists by (auto simp: s)
      with c STT_WHILE show ?thesis using while_parts(1)[of cp ?u e a True u', OF _ r] by (simp add: s compile_lined)
    next
      case (STT_DO e a)
      then have "well_compiled cp a" "keeps_lists cp a" using less flow_keeps_lists by (auto simp: s)
      with c STT_DO show ?thesis using while_parts(1)[of cp ?u e a False u', OF _ r] by (simp add: s compile_lined)
    next
      case (STT_FOR i b j a)
      then have "well_compiled cp a" "keeps_lists cp a" using less flow_keeps_lists by (auto simp: s)
      with c STT_FOR show ?thesis using for_parts(1)[of cp ?u i b j a u', OF _ r] by (simp add: s compile_lined)
    next
      case STT_CONTINUE
      with c have "compile_continue_or_break_statement ?u LT_CONTINUE = Some u'" by (simp add: s compile_lined)
      then show ?thesis using r by (rule continue_or_break_parts)
    next
      case STT_BREAK
      with c have "compile_continue_or_break_statement ?u LT_BREAK = Some u'" by (simp add: s compile_lined)
      then show ?thesis using r by (rule continue_or_break_parts)
    next
      case (STT_RETURN e)
      with c show ?thesis using return_lext(1)[of cp ?u e u'] lext_grown[OF _ t(1)] tidy_ok[OF t(1)] by (simp add: s compile_lined)
    next
      case (STT_EXPR e)
      with c show ?thesis using effect_parts(1)[of cp ?u e u', OF _ t] by (simp add: s compile_lined)
    qed (use less.prems in \<open>simp_all add: s\<close>)
    moreover have "tx_label_lists u' = tx_label_lists u" using keeps_listsD[OF flow_keeps_lists[OF less.prems] c] .
    ultimately show "grown (st_tx u) (st_tx u') \<and> tx_label_lists u' = tx_label_lists u" by simp
  qed
qed

section \<open>The code of each kind of statement\<close>

text \<open>The code of the initialisers of a block, and of statements one after the other.\<close>

definition init_code :: "cparams \<Rightarrow> (nat \<Rightarrow> byte option) \<Rightarrow> var_t \<Rightarrow> expr_t \<Rightarrow> nat \<Rightarrow> nat \<Rightarrow> bool" where
  "init_code cp f v e p q \<longleftrightarrow> (\<exists>a b c d a1 a2. ci_compile_var_reference cp a v EC_ADDRESS = Some (b, a1)
     \<and> ci_compile_expression cp b e EC_VALUE = Some (c, a2) \<and> ci_code_assign cp c (va_type v) False AT_CI_ADDR = Some d \<and> code_of f a d p q)"

fun inits_code :: "cparams \<Rightarrow> (nat \<Rightarrow> byte option) \<Rightarrow> (var_t \<times> initialiser_t) list \<Rightarrow> nat \<Rightarrow> nat \<Rightarrow> bool" where
  "inits_code cp f [] p q \<longleftrightarrow> p = q"
| "inits_code cp f ((v, ini) # il) p q \<longleftrightarrow> (\<exists>r. inits_code cp f il r q \<and> p \<le> r \<and>
     (case ini of IT_EXPR e \<Rightarrow> if IS_LOCAL_CLASS (va_class v) then init_code cp f v e p r else r = p | _ \<Rightarrow> r = p))"

fun stms_code :: "cparams \<Rightarrow> (nat \<Rightarrow> byte option) \<Rightarrow> statement_t list \<Rightarrow> nat \<Rightarrow> nat \<Rightarrow> nat \<Rightarrow> nat \<Rightarrow> bool" where
  "stms_code cp f [] p q brk cont \<longleftrightarrow> p = q"
| "stms_code cp f (s # ss) p q brk cont \<longleftrightarrow> (\<exists>r. stm_code cp f s p r brk cont \<and> stms_code cp f ss r q brk cont)"

definition return_code :: "cparams \<Rightarrow> (nat \<Rightarrow> byte option) \<Rightarrow> expr_t option \<Rightarrow> nat \<Rightarrow> nat \<Rightarrow> bool" where
  "return_code cp f eo p q \<longleftrightarrow> (\<exists>u u'. compile_return_statement cp u eo = Some u' \<and> code_of f (st_tx u) (st_tx u') p q)"

lemma inits_parts:
  assumes "compile_initlist cp st il = Some st'" and "tidy (st_tx st)" and "no_checks (st_tx st)" and "agrees f T lo (st_tx st')" and "lo \<le> st_pc st"
  shows "inits_code cp f il (st_pc st) (st_pc st')"
  using assms
proof (induction il arbitrary: st)
  case (Cons vi il)
  obtain v ini where vi: "vi = (v, ini)" by (cases vi)
  show ?case
  proof (cases "IS_LOCAL_CLASS (va_class v) \<and> (\<exists>e. ini = IT_EXPR e)")
    case True
    then obtain e where e: "ini = IT_EXPR e" by blast
    obtain u where u: "coding st (\<lambda>tx. do { (tx, _) \<leftarrow> ci_compile_var_reference cp tx v EC_ADDRESS;
               (tx, _) \<leftarrow> ci_compile_expression cp tx e EC_VALUE; ci_code_assign cp tx (va_type v) False AT_CI_ADDR }) = Some u"
        "compile_initlist cp u il = Some st'"
      using Cons.prems(1) True e vi by (auto simp: bind_Some_iff)
    obtain b a1 c a2 d where c: "ci_compile_var_reference cp (st_tx st) v EC_ADDRESS = Some (b, a1)" "ci_compile_expression cp b e EC_VALUE = Some (c, a2)"
        "ci_code_assign cp c (va_type v) False AT_CI_ADDR = Some d" "u = st\<lparr>st_tx := d\<rparr>"
      using codingD[OF u(1)] unfolding bind_Some_iff split_paired_Ex prod.case by blast
    note l = initialiser_lext(3)[OF tidy_ok[OF Cons.prems(2)] c(1-3)] and g = lext_grown[OF l Cons.prems(2)]
    have d: "tidy d" "no_checks d" "st_pc st \<le> tx_pc d" using g Cons.prems(3) by (simp_all add: grown_def)
    have "grown d (st_tx st')" using initlist_grown[OF u(2)] c(4) d(1) by simp
    from lext_code_of[OF l Cons.prems(2,3) grown_agrees[OF this Cons.prems(4)] Cons.prems(5)]
    have "init_code cp f v e (st_pc st) (tx_pc d)" using c(1-3) unfolding init_code_def by blast
    moreover have "inits_code cp f il (tx_pc d) (st_pc st')" using Cons.IH[OF u(2)] c(4) d Cons.prems(4,5) by simp
    ultimately show ?thesis using True e d(3) by (auto simp: vi)
  next
    case False
    then obtain u where u: "compile_initlist cp u il = Some st'" "st_tx u = st_tx st"
      using Cons.prems(1) vi by (auto split: if_split_asm initialiser_t.split_asm)
    then show ?thesis using Cons.IH[of u] Cons.prems(2-5) False by (auto simp: vi split: initialiser_t.split)
  qed
qed simp

lemma stms_parts:
  assumes "\<And>s. s \<in> set ss \<Longrightarrow> well_compiled cp s" and "compile_statements cp st ss = Some st'" and "ready st"
    and "agrees f T lo (st_tx st')" and "lo \<le> st_pc st" and "exits st T brk cont"
  shows "stms_code cp f ss (st_pc st) (st_pc st') brk cont"
  using assms
proof (induction ss arbitrary: st)
  case (Cons s ss)
  then obtain u where u: "compile_statement cp st s = Some u" "compile_statements cp u ss = Some st'" by (auto simp: bind_Some_iff)
  have "well_compiled cp s" using Cons.prems(1) by simp
  note w = well_compiledD[OF this u(1) Cons.prems(3)]
  have pc: "st_pc st \<le> st_pc u" using w(1) by (simp add: grown_def)
  have "agrees f T (st_pc st) (st_tx u)"
    using grown_agrees[OF statements_grown[OF _ u(2) w(3)] Cons.prems(4)] agrees_from Cons.prems(1,5) by simp
  then have "stm_code cp f s (st_pc st) (st_pc u) brk cont" using u(1) Cons.prems(3,6) unfolding stm_code_def by blast
  moreover have "stms_code cp f ss (st_pc u) (st_pc st') brk cont"
    using Cons.IH[OF _ u(2) w(3) Cons.prems(4)] Cons.prems(1,5) exits_lists[OF Cons.prems(6) w(2)] pc by simp
  ultimately show ?case by auto
qed simp

lemma stm_code_lined:
  assumes "stm_code cp f (Statement lx k) p q brk cont"
  obtains u u' T where "compile_statement cp u (Statement lx k) = Some u'" and "ready (lined u lx)" and "tidy (st_tx (lined u lx))"
    and "no_checks (st_tx (lined u lx))" and "st_pc (lined u lx) = p" and "st_pc u' = q"
    and "agrees f T (st_pc (lined u lx)) (st_tx u')" and "exits (lined u lx) T brk cont"
proof -
  obtain u u' T where u: "compile_statement cp u (Statement lx k) = Some u'" "ready u" "st_pc u = p" "st_pc u' = q"
      "agrees f T p (st_tx u')" "exits u T brk cont"
    using assms unfolding stm_code_def by blast
  show ?thesis by (rule that[OF u(1)]) (use u in \<open>simp_all add: ready_def\<close>)
qed

lemma stm_code_le: "stm_code cp f s p q brk cont \<Longrightarrow> flow_stm s \<Longrightarrow> p \<le> q"
  using flow_well_compiled[of s cp] unfolding stm_code_def well_compiled_def grown_def by blast

lemma stms_code_le: "stms_code cp f ss p q brk cont \<Longrightarrow> list_all flow_stm ss \<Longrightarrow> p \<le> q"
proof (induction ss arbitrary: p)
  case (Cons s ss)
  then obtain r where "stm_code cp f s p r brk cont" "stms_code cp f ss r q brk cont" by auto
  with Cons stm_code_le[of cp f s p r brk cont] show ?case by fastforce
qed simp

lemma expr_code: "stm_code cp f (Statement lx (STT_EXPR e)) p q brk cont \<Longrightarrow> effect_code cp f e p q"
proof (erule stm_code_lined)
  fix u u' T
  assume a: "compile_statement cp u (Statement lx (STT_EXPR e)) = Some u'" "tidy (st_tx (lined u lx))" "no_checks (st_tx (lined u lx))"
    "st_pc (lined u lx) = p" "st_pc u' = q" "agrees f T (st_pc (lined u lx)) (st_tx u')"
  have "compile_expression_statement cp (lined u lx) e = Some u'" using a(1) by (simp add: compile_lined)
  from effect_parts(3)[OF this a(2,3,6)] a(4,5) show "effect_code cp f e p q" by simp
qed

lemma compound_code:
  assumes "stm_code cp f (Statement lx (STT_COMPOUND il ss)) p q brk cont" and "list_all flow_stm ss"
  shows "\<exists>r. inits_code cp f il p r \<and> stms_code cp f ss r q brk cont \<and> p \<le> r"
  using assms(1)
proof (rule stm_code_lined)
  fix u u' T
  let ?u = "lined u lx"
  assume a: "compile_statement cp u (Statement lx (STT_COMPOUND il ss)) = Some u'" "ready ?u" "tidy (st_tx ?u)" "no_checks (st_tx ?u)"
    "st_pc ?u = p" "st_pc u' = q" "agrees f T (st_pc ?u) (st_tx u')" "exits ?u T brk cont"
  obtain w where w: "compile_initlist cp ?u il = Some w" "compile_statements cp w ss = Some u'"
    using a(1) by (auto simp: compile_lined bind_Some_iff)
  note g = initlist_grown[OF w(1) a(3)] and l = initlist_lists[OF w(1)]
  have r: "ready w" using ready_grown[OF a(2) g l] .
  have wc: "well_compiled cp s" if "s \<in> set ss" for s using that assms(2) flow_well_compiled by (auto simp: list_all_iff)
  have pc: "st_pc ?u \<le> st_pc w" using g by (simp add: grown_def)
  have "inits_code cp f il p (st_pc w)"
    using inits_parts[OF w(1) a(3,4) grown_agrees[OF statements_grown[OF wc w(2) r] a(7)]] a(5) by simp
  moreover have "stms_code cp f ss (st_pc w) q brk cont"
    using stms_parts[OF wc w(2) r a(7) _ exits_lists[OF a(8) l]] pc a(6) by simp
  ultimately show ?thesis using pc a(5) by auto
qed

lemma if_code:
  assumes "stm_code cp f (Statement lx (STT_IF e s None)) p q brk cont" and "flow_stm s"
  shows "\<exists>r. value_code cp f e p r \<and> jump_code f r OC_JUMP_IF_ZERO q \<and> stm_code cp f s (r + 4) q brk cont"
  using assms(1)
proof (rule stm_code_lined)
  fix u u' T
  assume a: "compile_statement cp u (Statement lx (STT_IF e s None)) = Some u'" "ready (lined u lx)" "st_pc (lined u lx) = p" "st_pc u' = q"
    "agrees f T (st_pc (lined u lx)) (st_tx u')" "exits (lined u lx) T brk cont"
  have "compile_if_statement cp (lined u lx) e s None = Some u'" using a(1) by (simp add: compile_lined)
  from if_parts(3)[OF this a(2) flow_well_compiled[OF assms(2)] a(5,6)] a(3,4) show ?thesis by simp
qed

lemma if_else_code:
  assumes "stm_code cp f (Statement lx (STT_IF e s (Some t))) p q brk cont" and "flow_stm s" and "flow_stm t"
  shows "\<exists>r i. value_code cp f e p r \<and> jump_code f r OC_JUMP_IF_ZERO (i + 4) \<and> stm_code cp f s (r + 4) i brk cont
    \<and> jump_code f i OC_JUMP q \<and> stm_code cp f t (i + 4) q brk cont"
  using assms(1)
proof (rule stm_code_lined)
  fix u u' T
  assume a: "compile_statement cp u (Statement lx (STT_IF e s (Some t))) = Some u'" "ready (lined u lx)" "st_pc (lined u lx) = p" "st_pc u' = q"
    "agrees f T (st_pc (lined u lx)) (st_tx u')" "exits (lined u lx) T brk cont"
  have "compile_if_statement cp (lined u lx) e s (Some t) = Some u'" using a(1) by (simp add: compile_lined)
  from if_else_parts(3)[OF this a(2) flow_well_compiled[OF assms(2)] flow_well_compiled[OF assms(3)] a(5,6)] a(3,4) show ?thesis by simp
qed

lemma while_code:
  assumes "stm_code cp f (Statement lx (if w then STT_WHILE e s else STT_DO e s)) p q brk cont" and "flow_stm s"
  shows "\<exists>r. (w \<longrightarrow> jump_code f p OC_JUMP r) \<and> loop_code cp f (Some e) None s (if w then p + 4 else p) r r q"
  using assms(1)
proof (rule stm_code_lined)
  fix u u' T
  assume a: "compile_statement cp u (Statement lx (if w then STT_WHILE e s else STT_DO e s)) = Some u'" "ready (lined u lx)"
    "st_pc (lined u lx) = p" "st_pc u' = q" "agrees f T (st_pc (lined u lx)) (st_tx u')"
  have "compile_while_or_do_statement cp (lined u lx) e s w = Some u'" using a(1) by (cases w) (simp_all add: compile_lined)
  from while_parts(2)[OF this a(2) flow_well_compiled[OF assms(2)] flow_keeps_lists[OF assms(2)] a(5)]
  show ?thesis unfolding a(3,4) .
qed

lemma for_code:
  assumes "stm_code cp f (Statement lx (STT_FOR a b c s)) p q brk cont" and "flow_stm s"
  shows "\<exists>i r t. effect_code cp f a p i \<and> jump_code f i OC_JUMP t \<and> loop_code cp f b c s (i + 4) r t q"
  using assms(1)
proof (rule stm_code_lined)
  fix u u' T
  assume x: "compile_statement cp u (Statement lx (STT_FOR a b c s)) = Some u'" "ready (lined u lx)" "st_pc (lined u lx) = p" "st_pc u' = q"
    "agrees f T (st_pc (lined u lx)) (st_tx u')"
  have "compile_for_statement cp (lined u lx) a b c s = Some u'" using x(1) by (simp add: compile_lined)
  from for_parts(2)[OF this x(2) flow_well_compiled[OF assms(2)] flow_keeps_lists[OF assms(2)] x(5)] x(3,4) show ?thesis by simp
qed

lemma break_code:
  "stm_code cp f (Statement lx STT_BREAK) p q brk cont \<Longrightarrow> jump_code f p OC_JUMP brk \<and> q = p + 4"
  "stm_code cp f (Statement lx STT_CONTINUE) p q brk cont \<Longrightarrow> jump_code f p OC_JUMP cont \<and> q = p + 4"
proof -
  have g: "jump_code f p OC_JUMP (if lt = LT_BREAK then brk else cont) \<and> q = p + 4"
    if "compile_continue_or_break_statement u lt = Some u'" "ready u" "st_pc u = p" "st_pc u' = q"
      "agrees f T (st_pc u) (st_tx u')" "exits u T brk cont" "lt = LT_BREAK \<or> lt = LT_CONTINUE" for u u' T lt
    using that(1,2)
  proof (rule continue_or_break_parts)
    fix ld lds assume l: "tx_label_lists u lt = ld # lds" "st_pc u' = st_pc u + 4"
      "\<And>f T lo. agrees f T lo (st_tx u') \<Longrightarrow> lo \<le> st_pc u \<Longrightarrow> jump_code f (st_pc u) OC_JUMP (T ld)"
    from l(3)[OF that(5)] that(3) have "jump_code f p OC_JUMP (T ld)" by simp
    moreover have "T ld = (if lt = LT_BREAK then brk else cont)" using that(6,7) l(1) by (auto simp: exits_def)
    ultimately show ?thesis using l(2) that(3,4) by simp
  qed
  show "jump_code f p OC_JUMP brk \<and> q = p + 4" if "stm_code cp f (Statement lx STT_BREAK) p q brk cont"
    using that by (rule stm_code_lined) (use g[where lt = LT_BREAK] in \<open>fastforce simp: compile_lined\<close>)
  show "jump_code f p OC_JUMP cont \<and> q = p + 4" if "stm_code cp f (Statement lx STT_CONTINUE) p q brk cont"
    using that by (rule stm_code_lined) (use g[where lt = LT_CONTINUE] in \<open>fastforce simp: compile_lined\<close>)
qed

lemma return_stm_code: "stm_code cp f (Statement lx (STT_RETURN e)) p q brk cont \<Longrightarrow> return_code cp f e p q"
proof (erule stm_code_lined)
  fix u u' T
  assume a: "compile_statement cp u (Statement lx (STT_RETURN e)) = Some u'" "tidy (st_tx (lined u lx))" "no_checks (st_tx (lined u lx))"
    "st_pc (lined u lx) = p" "st_pc u' = q" "agrees f T (st_pc (lined u lx)) (st_tx u')"
  have c: "compile_return_statement cp (lined u lx) e = Some u'" using a(1) by (simp add: compile_lined)
  from lext_code_of[OF return_lext(1)[OF c tidy_ok[OF a(2)]] a(2,3,6) order_refl] c show "return_code cp f e p q"
    unfolding return_code_def a(4,5) by blast
qed

lemma loop_code_le: "loop_code cp f b c s p r t q \<Longrightarrow> flow_stm s \<Longrightarrow> p \<le> r \<and> r \<le> t \<and> t \<le> q"
  using stm_code_le[of cp f s p r q r]
  by (auto simp: loop_code_def effect_code_def test_code_def value_code_def code_of_def split: option.split_asm)

end
