(* ===== verification/Ups_Stmt_Sem.thy ===== *)
theory Ups_Stmt_Sem
  imports Ups_Stmt_Code
begin

text \<open>
  What statements mean, and the machine on the code of their parts.  \<open>run_stm\<close> is an interpreter with fuel for
  statements over local integer variables; a run of compiled code is described by a record that says
  where the code is and what it may use, and for assignments, initialisers, tests, jumps and returns a lemma
  takes the machine from the start of their code to its end.
\<close>

section \<open>Meaning of statements\<close>

text \<open>How many bytes a variable of a type gets.\<close>

definition store_nbytes :: "typecode_t \<Rightarrow> nat" where
  "store_nbytes tc = (if tc \<in> {TY_CHAR, TY_UCHAR} then 1 else if tc \<in> {TY_SHORT, TY_USHORT} then 2 else 8)"

definition var_store :: "typecode_t \<Rightarrow> mem \<Rightarrow> addr \<Rightarrow> var_t \<Rightarrow> word64 \<Rightarrow> mem option" where
  "var_store tc m fp v w = wr_word (store_nbytes tc) m (fp + va_addr v) w"

text \<open>A variable of the frame that an integer can be assigned to, through a type of its own.\<close>

definition target_var :: "type_t \<Rightarrow> var_t \<Rightarrow> bool" where
  "target_var t v \<longleftrightarrow> va_is_ci_var v \<and> IS_LOCAL_CLASS (va_class v) \<and> word_type (ty_code t)"

text \<open>Expressions for their effect: assignments to local variables, and several of them with commas.\<close>

fun lvalue_var :: "expr_t \<Rightarrow> (type_t \<times> var_t) option" where
  "lvalue_var (Expr (Some t) c (ET_VAR v)) = Some (t, v)"
| "lvalue_var _ = None"

fun run_effect :: "cparams \<Rightarrow> addr \<Rightarrow> expr_t \<Rightarrow> mem \<Rightarrow> mem option" where
  "run_effect cp fp (Expr t c k) m =
     (case k of
        ET_BINARY op l r \<Rightarrow>
          (if op = OP_ASSIGN then do {
             (lt, v) \<leftarrow> lvalue_var l;
             w \<leftarrow> eval cp m fp r;
             var_store (ty_code lt) m fp v w }
           else if op = OP_COMMA then do { m \<leftarrow> run_effect cp fp l m; run_effect cp fp r m }
           else None)
      | _ \<Rightarrow> None)"

fun plain_effect :: "expr_t \<Rightarrow> bool" where
  "plain_effect (Expr t c k) \<longleftrightarrow> is_folded (Expr t c k) \<noteq> Some True \<and>
     (case k of
        ET_BINARY op l r \<Rightarrow>
          (if op = OP_ASSIGN then is_folded l \<noteq> Some True \<and> pure_expr r
             \<and> (case lvalue_var l of None \<Rightarrow> False | Some (lt, v) \<Rightarrow> target_var lt v)
           else op = OP_COMMA \<and> plain_effect l \<and> plain_effect r)
      | _ \<Rightarrow> False)"

fun effect_need :: "expr_t \<Rightarrow> nat" where
  "effect_need (Expr t c k) =
     (case k of ET_BINARY op l r \<Rightarrow> if op = OP_ASSIGN then Suc (need r) else max (effect_need l) (effect_need r) | _ \<Rightarrow> 0)"

fun effect_vars :: "expr_t \<Rightarrow> var_t list" where
  "effect_vars (Expr t c k) =
     (case k of
        ET_BINARY op l r \<Rightarrow>
          if op = OP_ASSIGN then (case lvalue_var l of None \<Rightarrow> [] | Some (lt, v) \<Rightarrow> [v]) @ vars_of r
          else effect_vars l @ effect_vars r
      | _ \<Rightarrow> [])"

definition run_opt :: "cparams \<Rightarrow> addr \<Rightarrow> expr_t option \<Rightarrow> mem \<Rightarrow> mem option" where
  "run_opt cp fp eo m = (case eo of None \<Rightarrow> Some m | Some e \<Rightarrow> run_effect cp fp e m)"

text \<open>The initialisers of the local variables of a block; the static ones are set up before the program runs.\<close>

fun run_inits :: "cparams \<Rightarrow> addr \<Rightarrow> (var_t \<times> initialiser_t) list \<Rightarrow> mem \<Rightarrow> mem option" where
  "run_inits cp fp [] m = Some m"
| "run_inits cp fp ((v, ini) # il) m =
     (if IS_LOCAL_CLASS (va_class v) then
        (case ini of
           IT_EXPR e \<Rightarrow> do { w \<leftarrow> eval cp m fp e; m \<leftarrow> var_store (ty_code (va_type v)) m fp v w; run_inits cp fp il m }
         | _ \<Rightarrow> None)
      else run_inits cp fp il m)"

datatype outcome = Normal | Broke | Continued | Returned "word64 option"

text \<open>A statement in a frame, with fuel: how it ends and what is in memory then.  \<open>run_loop\<close> starts at the test or at the
  body.\<close>

fun run_stm :: "nat \<Rightarrow> cparams \<Rightarrow> addr \<Rightarrow> statement_t \<Rightarrow> mem \<Rightarrow> (outcome \<times> mem) option"
and run_stms :: "nat \<Rightarrow> cparams \<Rightarrow> addr \<Rightarrow> statement_t list \<Rightarrow> mem \<Rightarrow> (outcome \<times> mem) option"
and run_loop :: "nat \<Rightarrow> cparams \<Rightarrow> addr \<Rightarrow> expr_t option \<Rightarrow> expr_t option \<Rightarrow> statement_t \<Rightarrow> bool \<Rightarrow> mem \<Rightarrow> (outcome \<times> mem) option"
where
  "run_stm 0 cp fp s m = None"
| "run_stm (Suc n) cp fp (Statement lx k) m =
     (case k of
        STT_EXPR e \<Rightarrow> do { m \<leftarrow> run_opt cp fp e m; Some (Normal, m) }
      | STT_COMPOUND il ss \<Rightarrow> do { m \<leftarrow> run_inits cp fp il m; run_stms n cp fp ss m }
      | STT_IF e s t \<Rightarrow> do {
          v \<leftarrow> eval cp m fp e;
          if v \<noteq> 0 then run_stm n cp fp s m
          else (case t of None \<Rightarrow> Some (Normal, m) | Some t \<Rightarrow> run_stm n cp fp t m) }
      | STT_WHILE e s \<Rightarrow> run_loop n cp fp (Some e) None s True m
      | STT_DO e s \<Rightarrow> run_loop n cp fp (Some e) None s False m
      | STT_FOR a b c s \<Rightarrow> do { m \<leftarrow> run_opt cp fp a m; run_loop n cp fp b c s True m }
      | STT_BREAK \<Rightarrow> Some (Broke, m)
      | STT_CONTINUE \<Rightarrow> Some (Continued, m)
      | STT_RETURN e \<Rightarrow>
          (case e of None \<Rightarrow> Some (Returned None, m)
           | Some e \<Rightarrow> do { v \<leftarrow> eval cp m fp e; Some (Returned (Some v), m) })
      | _ \<Rightarrow> None)"
| "run_stms n cp fp [] m = Some (Normal, m)"
| "run_stms 0 cp fp (s # ss) m = None"
| "run_stms (Suc n) cp fp (s # ss) m =
     do { (out, m) \<leftarrow> run_stm n cp fp s m;
          if out = Normal then run_stms n cp fp ss m else Some (out, m) }"
| "run_loop 0 cp fp b c s at_test m = None"
| "run_loop (Suc n) cp fp b c s True m =
     do { v \<leftarrow> (case b of None \<Rightarrow> Some 1 | Some e \<Rightarrow> eval cp m fp e);
          if v = 0 then Some (Normal, m) else run_loop n cp fp b c s False m }"
| "run_loop (Suc n) cp fp b c s False m =
     do { (out, m) \<leftarrow> run_stm n cp fp s m;
          case out of
            Broke \<Rightarrow> Some (Normal, m)
          | Returned v \<Rightarrow> Some (Returned v, m)
          | _ \<Rightarrow> do { m \<leftarrow> run_opt cp fp c m; run_loop n cp fp b c s True m } }"

text \<open>Statements built from these.  \<open>opt z g\<close> applies \<open>g\<close> to what may be left out, \<open>z\<close> is for nothing.\<close>

definition opt :: "'b \<Rightarrow> ('a \<Rightarrow> 'b) \<Rightarrow> 'a option \<Rightarrow> 'b" where
  "opt z g x = (case x of None \<Rightarrow> z | Some y \<Rightarrow> g y)"

lemma opt_simps [simp]: "opt z g None = z" "opt z g (Some y) = g y"
  by (simp_all add: opt_def)

definition plain_init :: "var_t \<times> initialiser_t \<Rightarrow> bool" where
  "plain_init vi = (case vi of (v, IT_EXPR e) \<Rightarrow> IS_LOCAL_CLASS (va_class v) \<longrightarrow> target_var (va_type v) v \<and> pure_expr e | _ \<Rightarrow> True)"

fun plain_stm :: "statement_t \<Rightarrow> bool" where
  "plain_stm (Statement lx k) \<longleftrightarrow>
     (case k of
        STT_EXPR e \<Rightarrow> opt True plain_effect e
      | STT_COMPOUND il ss \<Rightarrow> list_all plain_init il \<and> list_all plain_stm ss
      | STT_IF e s t \<Rightarrow> pure_expr e \<and> plain_stm s \<and> (case t of None \<Rightarrow> True | Some t \<Rightarrow> plain_stm t)
      | STT_WHILE e s \<Rightarrow> pure_expr e \<and> plain_stm s
      | STT_DO e s \<Rightarrow> pure_expr e \<and> plain_stm s
      | STT_FOR a b c s \<Rightarrow> opt True plain_effect a \<and> opt True pure_expr b \<and> opt True plain_effect c \<and> plain_stm s
      | STT_BREAK \<Rightarrow> True
      | STT_CONTINUE \<Rightarrow> True
      | STT_RETURN e \<Rightarrow> opt True pure_expr e
      | _ \<Rightarrow> False)"

lemma plain_flow: "plain_stm s \<Longrightarrow> flow_stm s"
proof (induction s rule: measure_induct_rule[of size])
  case (less s)
  obtain lx k where s: "s = Statement lx k" by (cases s)
  show ?case
  proof (cases k)
    case (STT_COMPOUND il ss)
    have "flow_stm x" if "x \<in> set ss" for x
      using that less size_in_statements[OF that] by (simp add: s STT_COMPOUND list_all_iff)
    then show ?thesis by (simp add: s STT_COMPOUND list_all_iff)
  next
    case (STT_IF e a t)
    then show ?thesis using less by (cases t) (simp_all add: s)
  qed (use less in \<open>simp_all add: s\<close>)
qed

text \<open>The stack words a statement needs for its expressions, and the variables it uses.\<close>

definition init_need :: "var_t \<times> initialiser_t \<Rightarrow> nat" where
  "init_need vi = (case snd vi of IT_EXPR e \<Rightarrow> Suc (need e) | _ \<Rightarrow> 0)"

definition init_vars :: "var_t \<times> initialiser_t \<Rightarrow> var_t list" where
  "init_vars vi = (case snd vi of IT_EXPR e \<Rightarrow> fst vi # vars_of e | _ \<Rightarrow> [])"

fun stm_need :: "statement_t \<Rightarrow> nat" where
  "stm_need (Statement lx k) =
     (case k of
        STT_EXPR e \<Rightarrow> opt 0 effect_need e
      | STT_COMPOUND il ss \<Rightarrow> max (foldr max (map init_need il) 0) (foldr max (map stm_need ss) 0)
      | STT_IF e s t \<Rightarrow> max (need e) (max (stm_need s) (case t of None \<Rightarrow> 0 | Some t \<Rightarrow> stm_need t))
      | STT_WHILE e s \<Rightarrow> max (need e) (stm_need s)
      | STT_DO e s \<Rightarrow> max (need e) (stm_need s)
      | STT_FOR a b c s \<Rightarrow> max (max (opt 0 effect_need a) (opt 0 need b)) (max (opt 0 effect_need c) (stm_need s))
      | STT_RETURN e \<Rightarrow> opt 0 need e
      | _ \<Rightarrow> 0)"

fun stm_vars :: "statement_t \<Rightarrow> var_t list" where
  "stm_vars (Statement lx k) =
     (case k of
        STT_EXPR e \<Rightarrow> opt [] effect_vars e
      | STT_COMPOUND il ss \<Rightarrow> concat (map init_vars il) @ concat (map stm_vars ss)
      | STT_IF e s t \<Rightarrow> vars_of e @ stm_vars s @ (case t of None \<Rightarrow> [] | Some t \<Rightarrow> stm_vars t)
      | STT_WHILE e s \<Rightarrow> vars_of e @ stm_vars s
      | STT_DO e s \<Rightarrow> vars_of e @ stm_vars s
      | STT_FOR a b c s \<Rightarrow> opt [] effect_vars a @ opt [] vars_of b @ opt [] effect_vars c @ stm_vars s
      | STT_RETURN e \<Rightarrow> opt [] vars_of e
      | _ \<Rightarrow> [])"

section \<open>A run of compiled code\<close>

text \<open>
  Where a run takes place: the code, where it is loaded and which part of it matters, the
  number of stack words that may be used, a state with the registers of the frame, and memory that is not
  to change.
\<close>

record 'w run_t =
  r_env :: "'w env"
  r_code :: "nat \<Rightarrow> byte option"
  r_base :: addr
  r_lo :: nat
  r_hi :: nat
  r_room :: nat
  r_start :: "'w mstate"
  r_safe :: "addr set"

definition scratch :: "'w run_t \<Rightarrow> addr set" where
  "scratch R = stack_bytes (x_sp (r_start R)) (r_room R)"

abbreviation r_fp :: "'w run_t \<Rightarrow> addr" where "r_fp R \<equiv> x_fp (r_start R)"

abbreviation pos :: "'w run_t \<Rightarrow> nat \<Rightarrow> addr" where "pos R p \<equiv> r_base R + of_nat p"

text \<open>The state \<open>s\<close> is that of the frame with \<open>m\<close> in memory, up to the scratch words, and the code is there.\<close>

definition holds_mem :: "'w run_t \<Rightarrow> mem \<Rightarrow> 'w mstate \<Rightarrow> bool" where
  "holds_mem R m s \<longleftrightarrow> x_sp s = x_sp (r_start R) \<and> keeps (scratch R) ((r_start R)\<lparr>x_mem := m\<rparr>) s
     \<and> code_ready (r_code R) (r_base R) (r_lo R) (r_hi R) (r_room R) ((r_start R)\<lparr>x_mem := m\<rparr>)
     \<and> (\<forall>x \<in> r_safe R. m x = x_mem (r_start R) x)"

definition var_apart :: "'w run_t \<Rightarrow> var_t \<Rightarrow> bool" where
  "var_apart R v \<longleftrightarrow> region (r_fp R + va_addr v) 8 \<inter> scratch R = {} \<and> region (r_fp R + va_addr v) 8 \<inter> r_safe R = {}
     \<and> (\<forall>i. r_lo R \<le> i \<and> i < r_hi R \<longrightarrow> pos R i \<notin> region (r_fp R + va_addr v) 8)"

definition inside :: "'w run_t \<Rightarrow> nat \<Rightarrow> nat \<Rightarrow> bool" where
  "inside R p q \<longleftrightarrow> r_lo R \<le> p \<and> q \<le> r_hi R"

lemma holds_fp: "holds_mem R m s \<Longrightarrow> x_fp s = r_fp R" by (simp add: holds_mem_def keeps_def)

lemma holds_ready:
  assumes "holds_mem R m s"
  shows "code_ready (r_code R) (r_base R) (r_lo R) (r_hi R) (r_room R) s"
  using assms code_ready_after(1)[of "r_code R" "r_base R" "r_lo R" "r_hi R" "r_room R" "(r_start R)\<lparr>x_mem := m\<rparr>" s 0 "r_room R"]
  by (simp add: holds_mem_def scratch_def)

lemma holds_scratch: "holds_mem R m s \<Longrightarrow> stack_bytes (x_sp s) (r_room R) = scratch R"
  by (simp add: holds_mem_def scratch_def)

lemma holds_keeps: "holds_mem R m s \<Longrightarrow> keeps (scratch R) s s' \<Longrightarrow> x_sp s' = x_sp s \<Longrightarrow> holds_mem R m s'"
  using keeps_trans by (auto simp: holds_mem_def)

lemma holds_arrives: "holds_mem R m s \<Longrightarrow> arrives e (r_room R) pc s s' \<Longrightarrow> holds_mem R m s'"
  using holds_keeps[of R m s s'] holds_scratch[of R m s] by (simp add: arrives_def)

lemma holds_code:
  assumes "holds_mem R m s" and "has_code (r_code R) p bs" and "inside R p (p + length bs)"
  shows "code_at (x_mem s) (pos R p) bs"
  using code_ready_has[OF holds_ready[OF assms(1)] assms(2)] assms(3) by (simp add: inside_def)

lemma holds_eval:
  assumes "holds_mem R m s" and "\<And>v. v \<in> set (vars_of e) \<Longrightarrow> var_apart R v"
  shows "eval cp (x_mem s) (x_fp s) e = eval cp m (r_fp R) e" and "vars_clear e s (r_room R)"
proof -
  have "eval cp (x_mem s) (r_fp R) e = eval cp m (r_fp R) e"
  proof (rule eval_cong)
    fix v x assume "v \<in> set (vars_of e)" "x \<in> region (r_fp R + va_addr v) 8"
    then have "x \<notin> scratch R" using assms(2) unfolding var_apart_def by blast
    then show "x_mem s x = m x" using assms(1) by (simp add: holds_mem_def keeps_def)
  qed
  then show "eval cp (x_mem s) (x_fp s) e = eval cp m (r_fp R) e" using holds_fp[OF assms(1)] by simp
  show "vars_clear e s (r_room R)"
    using assms holds_fp[OF assms(1)] holds_scratch[OF assms(1)] by (simp add: vars_clear_def var_apart_def)
qed

text \<open>An expression in its place.\<close>

lemma value_runs:
  assumes "value_code cp (r_code R) e p q" and "pure_expr e" and "need e \<le> r_room R" and "inside R p q"
    and "holds_mem R m s" and "x_pc s = pos R p" and "\<And>v. v \<in> set (vars_of e) \<Longrightarrow> var_apart R v" and "eval cp m (r_fp R) e = Some w"
  shows "\<exists>s'. pushes (r_env R) (r_room R) w (pos R q) s s'" and "p \<le> q"
proof -
  obtain a b at where c: "ci_compile_expression cp a e EC_VALUE = Some (b, at)" "text_ok a" "no_checks a" "tx_pc a = p" "tx_pc b = q" "p \<le> q"
      "\<And>i. p \<le> i \<Longrightarrow> i < q \<Longrightarrow> cells b i = r_code R i"
    using assms(1) by (auto simp: value_code_def code_of_def)
  have r: "code_ready (cells b) (r_base R) (tx_pc a) (tx_pc b) (r_room R) s"
    using code_ready_part[OF holds_ready[OF assms(5)]] assms(4) c by (simp add: inside_def)
  have h: "eval cp (x_mem s) (x_fp s) e = Some w" "vars_clear e s (r_room R)" using holds_eval[OF assms(5), of e] assms(7,8) by simp_all
  from runs_rightD[OF pure_runs_right[OF assms(2)] c(2,3,1) assms(3) r _ h(2,1), of "r_env R"] assms(6) c(4,5)
  show "\<exists>s'. pushes (r_env R) (r_room R) w (pos R q) s s'" by simp
  show "p \<le> q" by (rule c(6))
qed

lemma jump_runs:
  assumes "jump_code (r_code R) p OC_JUMP t" and "inside R p (p + 4)" and "holds_mem R m s" and "x_pc s = pos R p"
  shows "\<exists>s'. steps (r_env R) s s' \<and> holds_mem R m s' \<and> x_pc s' = pos R t"
proof -
  have "code_at (x_mem s) (x_pc s) (opcode_bytes OC_JUMP @ bytes_of 2 (branch_offset t (p + 2)))"
    using holds_code[OF assms(3)] assms(1,2,4) by (simp add: jump_code_def)
  from jump_step[OF this, of "r_env R"] assms(1) obtain s' where s': "step (r_env R) s = Some (Next s')"
      "x_pc s' = x_pc s + 2 + branch_offset t (p + 2)" "x_sp s' = x_sp s" "keeps {} s s'" by (auto simp: jump_code_def)
  have "holds_mem R m s'" using holds_keeps[OF assms(3) keeps_mono[OF s'(4)] s'(3)] by simp
  with s'(1,2) assms(4) offset_lands[of "r_base R" p t] show ?thesis by (auto intro: steps_one)
qed

text \<open>A test and the jump that depends on it.\<close>

lemma test_runs:
  assumes "value_code cp (r_code R) e p q" and "jump_code (r_code R) q (if zero then OC_JUMP_IF_ZERO else OC_JUMP_IF_NON_ZERO) t"
    and "pure_expr e" and "need e \<le> r_room R" and "inside R p (q + 4)"
    and "holds_mem R m s" and "x_pc s = pos R p" and "\<And>v. v \<in> set (vars_of e) \<Longrightarrow> var_apart R v" and "eval cp m (r_fp R) e = Some w"
  shows "\<exists>s'. steps (r_env R) s s' \<and> holds_mem R m s' \<and> x_pc s' = pos R (if (w = 0) = zero then t else q + 4)"
proof -
  have i: "inside R p q" using assms(5) by (simp add: inside_def)
  obtain s1 where s1: "pushes (r_env R) (r_room R) w (pos R q) s s1" using value_runs(1)[OF assms(1,3,4) i assms(6-9)] by blast
  have "p \<le> q" using value_runs(2)[OF assms(1,3,4) i assms(6-9)] .
  moreover have "1 \<le> r_room R" using need_pos[of e] assms(4) by linarith
  ultimately obtain s2 where s2: "arrives (r_env R) (r_room R) (pos R (if (w = 0) = zero then t else q + 4)) s s2"
    using pushes_jump_if[OF s1 holds_ready[OF assms(6)], of zero t] assms(2,5) by (auto simp: jump_code_def inside_def)
  then show ?thesis using holds_arrives[OF assms(6) s2] by (auto simp: arrives_def)
qed

section \<open>Assignments\<close>

lemma target_address_code:
  assumes "target_var t v" and "ci_compile_var_reference cp tx v EC_ADDRESS = Some (tx', at)"
  shows "ci_code_generic_opcode tx (OC_PUSH_STACKADDR SZ_B) (va_addr v) = Some tx' \<and> at = AT_CI_ADDR"
  using assms by (auto simp: target_var_def ci_compile_var_reference_def var_opcode_def bind_Some_iff IS_LOCAL_CLASS_def split: if_split_asm)

lemma assign_forms:
  "opcode_plus (OC_ASSIGN A_BYTE) 0 = Some (OC_ASSIGN A_BYTE)" "opcode_plus (OC_ASSIGN A_BYTE) 1 = Some (OC_ASSIGN A_WORD)"
  "opcode_plus (OC_ASSIGN A_BYTE) 2 = Some (OC_ASSIGN A_LONG)" "opcode_plus (OC_ASSIGN A_BYTE) (- 1) = Some (OC_ASSIGN A_LONG_LONG)"
  by (simp_all add: opcode_plus_def opcode_of_Some_iff)

lemma word_offset:
  assumes "word_type tc" and "opcode_offset cp tc n = Some k"
  shows "k = (if tc \<in> {TY_CHAR, TY_UCHAR} then 0 else if tc \<in> {TY_SHORT, TY_USHORT} then 1 else if n = 4 then 2 else - 1)"
  using assms
  by (cases tc) (simp_all add: opcode_offset_def ci_effective_typecode_def word_type_def LONG_FORM_OFFSET_def LONGLONG_FORM_OFFSET_def
      SHORT_FORM_OFFSET_def BYTE_FORM_OFFSET_def split: if_split_asm)

lemma target_assign_code:
  assumes "word_type (ty_code t)" and "ci_code_assign cp tx t False AT_CI_ADDR = Some tx'"
  shows "\<exists>a. ci_code_opcode tx (OC_ASSIGN a) = Some tx' \<and> aty_ptr_nbytes a = store_nbytes (ty_code t)"
proof -
  have n: "ty_code t \<noteq> TY_BITFIELD" using assms(1) by (auto simp: word_type_def)
  obtain k opc where k: "opcode_offset cp (ty_code t) (ty_size t) = Some k" "opcode_plus (OC_ASSIGN A_BYTE) k = Some opc" "ci_code_opcode tx opc = Some tx'"
    using assms(2) n by (auto simp: ci_code_assign_def bind_Some_iff)
  show ?thesis using word_offset[OF assms(1) k(1)] k(2,3) by (auto simp: assign_forms store_nbytes_def split: if_split_asm)
qed

lemma store_nbytes_le: "store_nbytes tc \<le> 8" by (simp add: store_nbytes_def)

text \<open>The same store in two memories.\<close>

lemma wr_bytes_both:
  assumes "wr_bytes m a bs = Some m'" and "wr_bytes k a bs = Some k'" and "k x = m x"
  shows "k' x = m' x"
  using assms
proof (induction bs arbitrary: m k a)
  case (Cons b bs)
  then show ?case using Cons.IH[of "m(a \<mapsto> b)" "a + 1" "k(a \<mapsto> b)"] by (auto simp: bind_Some_iff)
qed simp

lemma var_apart_bytes: "var_apart R v \<Longrightarrow> x \<in> region (r_fp R + va_addr v) (store_nbytes tc) \<Longrightarrow> x \<notin> scratch R"
  using region_mono[OF store_nbytes_le, of "r_fp R + va_addr v" tc] unfolding var_apart_def by blast

lemma store_keeps_safe:
  assumes "var_store tc m (r_fp R) v w = Some m'" and "var_apart R v" and "x \<in> r_safe R"
  shows "m' x = m x"
proof (rule wr_word_elsewhere)
  show "wr_word (store_nbytes tc) m (r_fp R + va_addr v) w = Some m'" using assms(1) by (simp add: var_store_def)
  show "x \<notin> region (r_fp R + va_addr v) (store_nbytes tc)"
    using assms(2,3) region_mono[OF store_nbytes_le, of "r_fp R + va_addr v" tc] unfolding var_apart_def by blast
qed

lemma store_keeps_ready:
  assumes "var_store tc m (r_fp R) v w = Some m'" and "var_apart R v"
    and "code_ready (r_code R) (r_base R) (r_lo R) (r_hi R) (r_room R) ((r_start R)\<lparr>x_mem := m\<rparr>)"
  shows "code_ready (r_code R) (r_base R) (r_lo R) (r_hi R) (r_room R) ((r_start R)\<lparr>x_mem := m'\<rparr>)"
proof -
  have d: "dom m' = dom m" using wr_word_dom assms(1) by (simp add: var_store_def)
  have "m' (pos R i) = m (pos R i)" if "r_lo R \<le> i" "i < r_hi R" for i
  proof (rule wr_word_elsewhere)
    show "wr_word (store_nbytes tc) m (r_fp R + va_addr v) w = Some m'" using assms(1) by (simp add: var_store_def)
    show "pos R i \<notin> region (r_fp R + va_addr v) (store_nbytes tc)"
      using assms(2) that region_mono[OF store_nbytes_le, of "r_fp R + va_addr v" tc] unfolding var_apart_def by blast
  qed
  with assms(3) d show ?thesis by (simp add: code_ready_def stack_space_def)
qed

lemma store_holds:
  assumes "holds_mem R m s" and "var_store tc m (r_fp R) v w = Some m'" and "var_apart R v"
    and "keeps (scratch R) s s2" and "wr_word (store_nbytes tc) (x_mem s2) (r_fp R + va_addr v) w = Some m2"
    and "keeps {} (s2\<lparr>x_mem := m2\<rparr>) s3" and "x_sp s3 = x_sp s"
  shows "holds_mem R m' s3"
proof -
  have k: "keeps (scratch R) ((r_start R)\<lparr>x_mem := m\<rparr>) s2" using keeps_trans assms(1,4) by (auto simp: holds_mem_def)
  have w: "wr_bytes m (r_fp R + va_addr v) (bytes_of (store_nbytes tc) w) = Some m'" "wr_bytes (x_mem s2) (r_fp R + va_addr v) (bytes_of (store_nbytes tc) w) = Some m2"
    using assms(2,5) by (simp_all add: var_store_def wr_word_def)
  have "m2 x = m' x" if "x \<notin> scratch R" for x using wr_bytes_both[OF w] k that by (simp add: keeps_def)
  moreover have "dom m2 = dom m'" using wr_bytes_dom[OF w(1)] wr_bytes_dom[OF w(2)] k by (simp add: keeps_def)
  ultimately have "keeps (scratch R) ((r_start R)\<lparr>x_mem := m'\<rparr>) s3" using assms(6) k by (auto simp: keeps_def)
  moreover have "code_ready (r_code R) (r_base R) (r_lo R) (r_hi R) (r_room R) ((r_start R)\<lparr>x_mem := m'\<rparr>)"
    using store_keeps_ready[OF assms(2,3)] assms(1) by (simp add: holds_mem_def)
  moreover have "m' x = x_mem (r_start R) x" if "x \<in> r_safe R" for x
    using store_keeps_safe[OF assms(2,3) that] assms(1) that by (simp add: holds_mem_def)
  ultimately show ?thesis using assms(1,7) by (simp add: holds_mem_def)
qed

lemma assign_step:
  assumes "code_at (x_mem s) (x_pc s) (opcode_bytes (OC_ASSIGN t))" and "top_is w s" and "rd_word 8 (x_mem s) (x_sp s + 8) = Some a"
    and "wr_word (aty_ptr_nbytes t) (x_mem s) a w = Some m2"
  shows "\<exists>s'. step e s = Some (Next s') \<and> x_pc s' = x_pc s + 2 \<and> x_sp s' = x_sp s + 16 \<and> keeps {} (s\<lparr>x_mem := m2\<rparr>) s'"
  using step_at[OF assms(1), of e] assms(2-4)
  by (simp add: exec_assign_def store_def stk_def top_is_def Let_def keeps_def)

text \<open>The code of an assignment: the address, the value, the store.\<close>

definition store_code :: "cparams \<Rightarrow> (nat \<Rightarrow> byte option) \<Rightarrow> typecode_t \<Rightarrow> var_t \<Rightarrow> expr_t \<Rightarrow> nat \<Rightarrow> nat \<Rightarrow> bool" where
  "store_code cp f tc v e p q \<longleftrightarrow> (\<exists>a b c d at ty. ci_code_generic_opcode a (OC_PUSH_STACKADDR SZ_B) (va_addr v) = Some b
     \<and> ci_compile_expression cp b e EC_VALUE = Some (c, at) \<and> ci_code_opcode c (OC_ASSIGN ty) = Some d
     \<and> aty_ptr_nbytes ty = store_nbytes tc \<and> code_of f a d p q)"

lemma init_is_store:
  assumes "init_code cp f v e p q" and "target_var (va_type v) v"
  shows "store_code cp f (ty_code (va_type v)) v e p q"
  using assms target_address_code[OF assms(2), of cp] target_assign_code[of "va_type v" cp]
  unfolding init_code_def store_code_def target_var_def by meson

lemma store_runs:
  assumes "store_code cp (r_code R) tc v e p q" and "pure_expr e" and "Suc (need e) \<le> r_room R" and "inside R p q"
    and "holds_mem R m s" and "x_pc s = pos R p" and "\<And>u. u \<in> set (v # vars_of e) \<Longrightarrow> var_apart R u"
    and "eval cp m (r_fp R) e = Some w" and "var_store tc m (r_fp R) v w = Some m'"
  shows "\<exists>s'. steps (r_env R) s s' \<and> holds_mem R m' s' \<and> x_pc s' = pos R q"
proof -
  let ?n = "r_room R" and ?a = "r_fp R + va_addr v"
  obtain a b c d at ty where c: "ci_code_generic_opcode a (OC_PUSH_STACKADDR SZ_B) (va_addr v) = Some b"
      "ci_compile_expression cp b e EC_VALUE = Some (c, at)" "ci_code_opcode c (OC_ASSIGN ty) = Some d" "aty_ptr_nbytes ty = store_nbytes tc"
      "text_ok a" "no_checks a" "tx_pc a = p" "tx_pc d = q" "\<And>i. p \<le> i \<Longrightarrow> i < q \<Longrightarrow> cells d i = r_code R i"
    using assms(1) unfolding store_code_def code_of_def by blast
  have x1: "ext a b" using grows_generic[OF lext_refl[OF c(5)]] c(1) by (simp add: grows_def lextD)
  have x2: "ext b c" using compile_ext[OF ext_ok[OF x1] c(2)] .
  have nc: "no_checks b" "no_checks c" using x1 x2 c(6) by (simp_all add: ext_def)
  have e1: "emits a (opcode_bytes (OC_PUSH_STACKADDR (form_of (va_addr v))) @ operand_bytes (va_addr v)) b"
    using generic_emits[of OC_PUSH_STACKADDR a "va_addr v" b] c(1,5,6) by simp
  have e3: "emits c (opcode_bytes (OC_ASSIGN ty)) d" using opcode_emits[OF ext_ok[OF x2] nc(2) c(3)] .
  have pc: "tx_pc a \<le> tx_pc b" "tx_pc b \<le> tx_pc c" "tx_pc d = tx_pc c + 2" using x1 x2 e3 by (simp_all add: ext_def emits_def)
  have cl: "cells b i = cells d i" if "i < tx_pc b" for i using that x2 e3 pc by (simp add: ext_def emits_def overlay_def)
  have cl2: "cells c i = cells d i" if "i < tx_pc c" for i using that e3 by (simp add: emits_def overlay_def)
  have rd: "code_ready (cells d) (r_base R) p q ?n s" using code_ready_part[OF holds_ready[OF assms(5)]] assms(4) c(9) by (simp add: inside_def)
  have fp: "x_fp s = r_fp R" using holds_fp[OF assms(5)] .
  have n: "1 \<le> ?n" "need e \<le> ?n - 1" "1 \<le> ?n - 1" "Suc (?n - 1) = ?n" using assms(3) need_pos[of e] by linarith+
  have u: "8 * ?n \<le> unat (x_sp s)" using rd by (simp add: code_ready_def stack_space_def)
  obtain s1 where s1: "pushes (r_env R) ?n ?a (pos R (tx_pc b)) s s1"
  proof -
    have at: "code_at (x_mem s) (x_pc s) (opcode_bytes (OC_PUSH_STACKADDR (form_of (va_addr v))) @ operand_bytes (va_addr v))"
      using code_ready_at[OF rd e1 cl] c(7,8) pc assms(6) by simp
    let ?t = "skip_text (length (operand_bytes (va_addr v))) (count_opcode (OC_PUSH_STACKADDR (form_of (va_addr v))) (skip_text 2 s))"
    have "step (r_env R) s = (do { s \<leftarrow> push ?a ?t; Some (Next s) })"
      using operand_fetch(1)[OF at, of "r_env R"] operand_fetch(2)[OF at] fp by (simp add: exec_push_stackaddr_def)
    from push_instruction[OF this _ _ keeps_skip _ n(1)] rd obtain s1 where "pushes (r_env R) ?n ?a (x_pc ?t) s s1" by (auto simp: code_ready_def)
    moreover have "x_pc ?t = pos R (tx_pc b)" using e1 assms(6) c(7) by (simp add: emits_def algebra_simps)
    ultimately show ?thesis using that by simp
  qed
  note af = after_first[OF s1 rd n(4)]
  have vc: "vars_clear e s ?n" "eval cp (x_mem s) (x_fp s) e = Some w" using holds_eval[OF assms(5), of e] assms(7,8) by simp_all
  have r2: "code_ready (cells c) (r_base R) (tx_pc b) (tx_pc c) (?n - 1) s1" using code_ready_part[OF af(1)] pc c(7,8) cl2 by simp
  have "vars_clear e s1 (?n - 1)" using vc(1) af(2,4) by (auto simp: vars_clear_def)
  moreover have "eval cp (x_mem s1) (x_fp s1) e = Some w" using eval_after[OF _ vc(1), of s1 cp] s1 vc(2) by (simp add: pushes_def)
  ultimately obtain s2 where s2: "pushes (r_env R) (?n - 1) w (pos R (tx_pc c)) s1 s2"
    using runs_rightD[OF pure_runs_right[OF assms(2)] ext_ok[OF x1] nc(1) c(2) n(2) r2 af(3)] by blast
  have le: "Suc (?n - 1) \<le> ?n" using n(4) by simp
  note so = second_operand[OF s1 s2 le u]
  have sc: "keeps (scratch R) s s2" using so(2) holds_scratch[OF assms(5)] by simp
  have "region ?a (store_nbytes tc) \<subseteq> dom (x_mem s2)"
  proof -
    have "region ?a (store_nbytes tc) \<subseteq> dom m" using assms(9) wr_word_defined unfolding var_store_def by blast
    also have "dom m = dom (x_mem s2)" using assms(5) sc by (simp add: holds_mem_def keeps_def)
    finally show ?thesis .
  qed
  then obtain m2 where m2: "wr_word (store_nbytes tc) (x_mem s2) ?a w = Some m2" using wr_word_defined by blast
  have "code_ready (cells d) (r_base R) p q 0 s2" using code_ready_after(1)[OF rd so(2), of 2 0] so(4) n(3) by simp
  from code_ready_at[OF this e3 HOL.refl] s2 c(7,8) pc have "code_at (x_mem s2) (x_pc s2) (opcode_bytes (OC_ASSIGN ty))" by (simp add: pushes_def)
  from assign_step[OF this _ so(1), of w m2 "r_env R"] s2 m2 c(4)
  obtain s3 where s3: "step (r_env R) s2 = Some (Next s3)" "x_pc s3 = x_pc s2 + 2" "x_sp s3 = x_sp s2 + 16" "keeps {} (s2\<lparr>x_mem := m2\<rparr>) s3"
    by (auto simp: pushes_def)
  have "holds_mem R m' s3" using store_holds[OF assms(5,9) _ sc m2 s3(4)] assms(7) s3(3) so(4) by simp
  moreover have "x_pc s3 = pos R q" using s3(2) s2 pc(3) c(8) by (simp add: pushes_def algebra_simps)
  moreover have "steps (r_env R) s s3" using steps_trans[OF so(3) steps_one[OF s3(1)]] .
  ultimately show ?thesis by blast
qed

lemma compile_kind_inv:
  assumes "ci_compile_expression cp tx e ctx = Some (tx', at)" and "is_folded e \<noteq> Some True" and "expected_sp tx e ctx = Some (sp, ctx)"
  shows "compile_kind cp tx e ctx = Some (tx', at)"
  using assms unfolding ci_compile_expression.simps[of cp tx e]
  by (auto simp: check_expected_def bind_Some_iff split: if_split_asm)

lemma compile_effect_inv:
  assumes "ci_compile_expression cp tx (Expr t c (ET_BINARY op l r)) EC_EFFECT = Some (tx', at)" and "is_folded (Expr t c (ET_BINARY op l r)) \<noteq> Some True"
  shows "compile_binary_expr cp tx op l r EC_EFFECT = Some (tx', at)"
proof -
  have "compile_kind cp tx (Expr t c (ET_BINARY op l r)) EC_EFFECT = Some (tx', at)"
    by (rule compile_kind_inv[OF assms, of "tx_sp tx"]) (simp add: expected_sp_def)
  then show ?thesis unfolding compile_kind.simps .
qed

lemma compile_address_inv:
  assumes "ci_compile_expression cp tx (Expr t c (ET_VAR v)) EC_ADDRESS = Some (tx', at)" and "is_folded (Expr t c (ET_VAR v)) \<noteq> Some True"
  shows "ci_compile_var_reference cp tx v EC_ADDRESS = Some (tx', at)"
proof -
  have "compile_kind cp tx (Expr t c (ET_VAR v)) EC_ADDRESS = Some (tx', at)"
    by (rule compile_kind_inv[OF assms, of "tx_sp tx + 8"]) (simp add: expected_sp_def)
  then show ?thesis unfolding compile_kind.simps .
qed

lemma lvalue_var_SomeD: "lvalue_var l = Some (t, v) \<Longrightarrow> \<exists>c. l = Expr (Some t) c (ET_VAR v)"
  by (induction l rule: lvalue_var.induct) auto

lemma assignment_is_store:
  assumes "ci_compile_expression cp a (Expr t c (ET_BINARY OP_ASSIGN l r)) EC_EFFECT = Some (b, at)" and "code_of f a b p q"
    and "plain_effect (Expr t c (ET_BINARY OP_ASSIGN l r))" and "lvalue_var l = Some (lt, v)"
  shows "store_code cp f (ty_code lt) v r p q"
proof -
  obtain lc where l: "l = Expr (Some lt) lc (ET_VAR v)" using lvalue_var_SomeD[OF assms(4)] by blast
  have tv: "target_var lt v" and nf: "is_folded l \<noteq> Some True" "is_folded (Expr t c (ET_BINARY OP_ASSIGN l r)) \<noteq> Some True"
    using assms(3,4) by simp_all
  have wt: "word_type (ty_code lt)" using tv by (simp add: target_var_def)
  then have ns: "ty_code lt \<noteq> TY_STRUCT" "ty_code lt \<noteq> TY_UNION" "ty_code lt \<noteq> TY_BITFIELD" by (auto simp: word_type_def)
  obtain t1 la t2 ra where s: "ci_compile_expression cp a l EC_ADDRESS = Some (t1, la)" "ci_compile_expression cp t1 r EC_VALUE = Some (t2, ra)"
      "ci_code_assign cp t2 lt False la = Some b"
    using compile_effect_inv[OF assms(1) nf(2)] ns l by (auto simp: compile_binary_expr.simps bind_Some_iff)
  note g = target_address_code[OF tv compile_address_inv[OF s(1)[unfolded l]]]
  have g': "ci_code_generic_opcode a (OC_PUSH_STACKADDR SZ_B) (va_addr v) = Some t1" "la = AT_CI_ADDR" using g nf(1) l by simp_all
  from target_assign_code[OF wt, of cp t2 b] s(3) g'(2)
  obtain ty where "ci_code_opcode t2 (OC_ASSIGN ty) = Some b" "aty_ptr_nbytes ty = store_nbytes (ty_code lt)" by auto
  with g'(1) s(2) assms(2) show ?thesis unfolding store_code_def by blast
qed

lemma comma_parts:
  assumes "ci_compile_expression cp a (Expr t c (ET_BINARY OP_COMMA l r)) EC_EFFECT = Some (b, at)" and "code_of f a b p q"
    and "is_folded (Expr t c (ET_BINARY OP_COMMA l r)) \<noteq> Some True"
  shows "\<exists>i. effect_code cp f (Some l) p i \<and> effect_code cp f (Some r) i q \<and> p \<le> i \<and> i \<le> q"
proof -
  obtain t1 la where s: "ci_compile_expression cp a l EC_EFFECT = Some (t1, la)" "ci_compile_expression cp t1 r EC_EFFECT = Some (b, at)"
    using compile_effect_inv[OF assms(1,3)] by (auto simp: compile_binary_expr.simps bind_Some_iff assign_op_def)
  have ok: "text_ok a" "no_checks a" "tx_pc a = p" "tx_pc b = q" "\<And>i. p \<le> i \<Longrightarrow> i < q \<Longrightarrow> cells b i = f i"
    using assms(2) by (simp_all add: code_of_def)
  have x1: "ext a t1" using compile_ext[OF ok(1) s(1)] .
  have x2: "ext t1 b" using compile_ext[OF ext_ok[OF x1] s(2)] .
  have "code_of f a t1 p (tx_pc t1)" "code_of f t1 b (tx_pc t1) q" "p \<le> tx_pc t1" "tx_pc t1 \<le> q"
    using x1 x2 ok by (auto simp: code_of_def ext_def)
  with s show ?thesis unfolding effect_code_def option.case by blast
qed

lemma effect_runs:
  assumes "effect_code cp (r_code R) (Some e) p q" and "plain_effect e" and "effect_need e \<le> r_room R" and "inside R p q"
    and "holds_mem R m s" and "x_pc s = pos R p" and "\<And>v. v \<in> set (effect_vars e) \<Longrightarrow> var_apart R v" and "run_effect cp (r_fp R) e m = Some m'"
  shows "\<exists>s'. steps (r_env R) s s' \<and> holds_mem R m' s' \<and> x_pc s' = pos R q"
  using assms
proof (induction e arbitrary: p q m s m' rule: measure_induct_rule[of size])
  case (less e)
  obtain t c k where e: "e = Expr t c k" by (cases e)
  obtain op l r where k: "k = ET_BINARY op l r" and op: "op = OP_ASSIGN \<or> op = OP_COMMA \<and> op \<noteq> OP_ASSIGN"
    using less.prems(2) by (cases k) (auto simp: e split: if_split_asm)
  obtain a b at where ab: "ci_compile_expression cp a e EC_EFFECT = Some (b, at)" "code_of (r_code R) a b p q"
    using less.prems(1) by (auto simp: effect_code_def)
  from op show ?case
  proof
    assume as: "op = OP_ASSIGN"
    obtain lt v w where v: "lvalue_var l = Some (lt, v)" "eval cp m (r_fp R) r = Some w" "var_store (ty_code lt) m (r_fp R) v w = Some m'"
      using less.prems(8) by (auto simp: e k as bind_Some_iff)
    have c: "store_code cp (r_code R) (ty_code lt) v r p q"
      using assignment_is_store[OF _ ab(2) _ v(1)] ab(1) less.prems(2) unfolding e k as by blast
    show ?thesis
      by (rule store_runs[OF c _ _ less.prems(4-6) _ v(2,3)]) (use less.prems(2,3,7) v(1) in \<open>simp_all add: e k as\<close>)
  next
    assume co: "op = OP_COMMA \<and> op \<noteq> OP_ASSIGN"
    have nf: "is_folded (Expr t c (ET_BINARY OP_COMMA l r)) \<noteq> Some True" using less.prems(2) co by (simp add: e k)
    obtain i where i: "effect_code cp (r_code R) (Some l) p i" "effect_code cp (r_code R) (Some r) i q" "p \<le> i" "i \<le> q"
      using comma_parts[OF _ ab(2) nf, of cp at] ab(1) co unfolding e k by blast
    have ins: "inside R p i" "inside R i q" using less.prems(4) i(3,4) by (simp_all add: inside_def)
    obtain m1 where m1: "run_effect cp (r_fp R) l m = Some m1" "run_effect cp (r_fp R) r m1 = Some m'"
      using less.prems(8) co by (auto simp: e k bind_Some_iff)
    have pl: "plain_effect l" "plain_effect r" "effect_need l \<le> r_room R" "effect_need r \<le> r_room R" "size l < size e" "size r < size e"
      using less.prems(2,3) co by (simp_all add: e k)
    have va: "var_apart R v" if "v \<in> set (effect_vars l) \<union> set (effect_vars r)" for v using less.prems(7) that co by (auto simp: e k)
    obtain s1 where s1: "steps (r_env R) s s1" "holds_mem R m1 s1" "x_pc s1 = pos R i"
      using less.IH[OF pl(5) i(1) pl(1,3) ins(1) less.prems(5,6) _ m1(1)] va by blast
    obtain s2 where "steps (r_env R) s1 s2" "holds_mem R m' s2" "x_pc s2 = pos R q"
      using less.IH[OF pl(6) i(2) pl(2,4) ins(2) s1(2,3) _ m1(2)] va by blast
    with s1(1) show ?thesis using steps_trans by blast
  qed
qed

lemma opt_effect_runs:
  assumes "effect_code cp (r_code R) eo p q" and "opt True plain_effect eo" and "opt 0 effect_need eo \<le> r_room R" and "inside R p q"
    and "holds_mem R m s" and "x_pc s = pos R p" and "\<And>v. v \<in> set (opt [] effect_vars eo) \<Longrightarrow> var_apart R v" and "run_opt cp (r_fp R) eo m = Some m'"
  shows "\<exists>s'. steps (r_env R) s s' \<and> holds_mem R m' s' \<and> x_pc s' = pos R q"
proof (cases eo)
  case None
  then show ?thesis using assms(1,5,6,8) steps.refl by (auto simp: run_opt_def effect_code_def)
next
  case (Some e)
  then show ?thesis using effect_runs[of cp R e p q m s m'] assms by (simp add: run_opt_def opt_def)
qed

lemma inits_code_le: "inits_code cp f il p q \<Longrightarrow> p \<le> q"
  by (induction il arbitrary: p) (force split: prod.splits)+

lemma inits_run:
  assumes "inits_code cp (r_code R) il p q" and "list_all plain_init il" and "foldr max (map init_need il) 0 \<le> r_room R" and "inside R p q"
    and "holds_mem R m s" and "x_pc s = pos R p" and "\<And>v. v \<in> set (concat (map init_vars il)) \<Longrightarrow> var_apart R v"
    and "run_inits cp (r_fp R) il m = Some m'"
  shows "\<exists>s'. steps (r_env R) s s' \<and> holds_mem R m' s' \<and> x_pc s' = pos R q"
  using assms
proof (induction il arbitrary: p m s)
  case Nil
  then show ?case using steps.refl by auto
next
  case (Cons vi il)
  obtain v ini where vi: "vi = (v, ini)" by (cases vi)
  obtain i where i: "inits_code cp (r_code R) il i q" "p \<le> i"
      "case ini of IT_EXPR e \<Rightarrow> if IS_LOCAL_CLASS (va_class v) then init_code cp (r_code R) v e p i else i = p | _ \<Rightarrow> i = p"
    using Cons.prems(1) by (auto simp: vi)
  have iq: "i \<le> q" using inits_code_le[OF i(1)] .
  have pl: "list_all plain_init il" "foldr max (map init_need il) 0 \<le> r_room R" "\<And>v. v \<in> set (concat (map init_vars il)) \<Longrightarrow> var_apart R v"
    using Cons.prems(2,3,7) by auto
  have ins: "inside R p i" "inside R i q" using Cons.prems(4) i(2) iq by (simp_all add: inside_def)
  show ?case
  proof (cases "IS_LOCAL_CLASS (va_class v)")
    case True
    then obtain e w m1 where e: "ini = IT_EXPR e" "eval cp m (r_fp R) e = Some w" "var_store (ty_code (va_type v)) m (r_fp R) v w = Some m1"
        "run_inits cp (r_fp R) il m1 = Some m'"
      using Cons.prems(8) by (auto simp: vi bind_Some_iff split: initialiser_t.split_asm)
    have pe: "target_var (va_type v) v" "pure_expr e" "Suc (need e) \<le> r_room R" "\<And>u. u \<in> set (v # vars_of e) \<Longrightarrow> var_apart R u"
      using Cons.prems(2,3,7) True by (auto simp: vi e(1) plain_init_def init_need_def init_vars_def)
    have "store_code cp (r_code R) (ty_code (va_type v)) v e p i" using init_is_store[OF _ pe(1)] i(3) True e(1) by simp
    from store_runs[OF this pe(2,3) ins(1) Cons.prems(5,6) pe(4) e(2,3)]
    obtain s1 where s1: "steps (r_env R) s s1" "holds_mem R m1 s1" "x_pc s1 = pos R i" by blast
    from Cons.IH[OF i(1) pl(1,2) ins(2) s1(2,3) pl(3) e(4)] steps_trans[OF s1(1)] show ?thesis by blast
  next
    case False
    then have "i = p" using i(3) by (auto split: initialiser_t.split_asm)
    with Cons.IH[OF i(1) pl(1,2) ins(2) Cons.prems(5) _ pl(3)] Cons.prems(6,8) False show ?thesis by (simp add: vi)
  qed
qed

text \<open>What a \<open>return\<close> leads to: the return instruction, with the value pushed.\<close>

definition returning :: "'w run_t \<Rightarrow> word64 option \<Rightarrow> mem \<Rightarrow> 'w mstate \<Rightarrow> bool" where
  "returning R vo m s \<longleftrightarrow> (case vo of
     None \<Rightarrow> holds_mem R m s \<and> code_at (x_mem s) (x_pc s) (opcode_bytes OC_RET)
   | Some v \<Rightarrow> keeps (scratch R) ((r_start R)\<lparr>x_mem := m\<rparr>) s \<and> x_sp s = x_sp (r_start R) - 8 \<and> top_is v s
       \<and> (\<forall>x \<in> r_safe R. m x = x_mem (r_start R) x)
       \<and> code_at (x_mem s) (x_pc s) (opcode_bytes OC_RET_WORD))"

lemma return_none_runs:
  assumes "return_code cp (r_code R) None p q" and "inside R p q" and "holds_mem R m s" and "x_pc s = pos R p"
  shows "returning R None m s"
proof -
  obtain u u' where u: "compile_return_statement cp u None = Some u'" "code_of (r_code R) (st_tx u) (st_tx u') p q"
    using assms(1) by (auto simp: return_code_def)
  have c: "ci_code_opcode (st_tx u) OC_RET = Some (st_tx u')" using u(1) by (auto simp: compile_return_statement_def coding_def bind_Some_iff)
  have ok: "text_ok (st_tx u)" "no_checks (st_tx u)" "tx_pc (st_tx u) = p" "tx_pc (st_tx u') = q" "\<And>i. p \<le> i \<Longrightarrow> i < q \<Longrightarrow> cells (st_tx u') i = r_code R i"
    using u(2) by (simp_all add: code_of_def)
  have "code_at (x_mem s) (pos R p) (opcode_bytes OC_RET)"
    using code_ready_at[OF holds_ready[OF assms(3)] opcode_emits[OF ok(1,2) c]] ok(3-5) assms(2) by (simp add: inside_def)
  with assms(3,4) show ?thesis by (simp add: returning_def)
qed

lemma return_value_runs:
  assumes "return_code cp (r_code R) (Some e) p q" and "pure_expr e" and "need e \<le> r_room R" and "inside R p q" and "holds_mem R m s"
    and "x_pc s = pos R p" and "\<And>v. v \<in> set (vars_of e) \<Longrightarrow> var_apart R v" and "eval cp m (r_fp R) e = Some w"
  shows "\<exists>s'. steps (r_env R) s s' \<and> returning R (Some w) m s'"
proof -
  obtain u u' where u: "compile_return_statement cp u (Some e) = Some u'" "code_of (r_code R) (st_tx u) (st_tx u') p q"
    using assms(1) by (auto simp: return_code_def)
  have "word_expr e" using assms(2) by (cases e) simp
  then obtain t where t: "ex_type e = Some t" "word_type (ty_code t)" by (auto simp: word_expr_def ty_def split: option.split_asm)
  have nt: "\<not> (ty_code t = TY_STRUCT \<or> ty_code t = TY_UNION)" "return_opcode (ty_code t) = OC_RET_WORD" using t(2) by (auto simp: word_type_def return_opcode_def)
  obtain t1 at where c: "ci_compile_expression cp (st_tx u) e EC_VALUE = Some (t1, at)" "ci_code_opcode t1 OC_RET_WORD = Some (st_tx u')"
    using u(1) t nt by (auto simp: compile_return_statement_def coding_def bind_Some_iff)
  have ok: "text_ok (st_tx u)" "no_checks (st_tx u)" "tx_pc (st_tx u) = p" "tx_pc (st_tx u') = q" "\<And>i. p \<le> i \<Longrightarrow> i < q \<Longrightarrow> cells (st_tx u') i = r_code R i"
    using u(2) by (simp_all add: code_of_def)
  have x: "ext (st_tx u) t1" using compile_ext[OF ok(1) c(1)] .
  have "no_checks t1" using x ok(2) by (simp add: ext_def)
  note em = opcode_emits[OF ext_ok[OF x] this c(2)]
  have pc: "p \<le> tx_pc t1" "q = tx_pc t1 + 2" using x em ok(3,4) by (simp_all add: ext_def emits_def)
  have "cells t1 i = r_code R i" if "p \<le> i" "i < tx_pc t1" for i using ok(5)[of i] that em pc by (simp add: emits_def overlay_def)
  then have v: "value_code cp (r_code R) e p (tx_pc t1)" using c(1) ok pc unfolding value_code_def code_of_def by blast
  have "inside R p (tx_pc t1)" using assms(4) pc by (simp add: inside_def)
  from value_runs(1)[OF v assms(2,3) this assms(5-8)] obtain s1 where s1: "pushes (r_env R) (r_room R) w (pos R (tx_pc t1)) s s1" by blast
  have "1 \<le> r_room R" using need_pos[of e] assms(3) by linarith
  then have "code_ready (r_code R) (r_base R) (r_lo R) (r_hi R) (r_room R - 1) s1" using after_first(1)[OF s1 holds_ready[OF assms(5)], of "r_room R - 1"] by simp
  from code_ready_at[OF this em] ok(4,5) pc assms(4) s1 have "code_at (x_mem s1) (x_pc s1) (opcode_bytes OC_RET_WORD)" by (simp add: pushes_def inside_def)
  moreover have "keeps (scratch R) ((r_start R)\<lparr>x_mem := m\<rparr>) s1"
    using assms(5) s1 holds_scratch[OF assms(5)] keeps_trans by (auto simp: holds_mem_def pushes_def)
  ultimately show ?thesis using s1 assms(5) by (auto simp: pushes_def returning_def holds_mem_def)
qed

end
