(* ===== verification/Ups_Stmt_Correct.thy ===== *)
theory Ups_Stmt_Correct
  imports Ups_Stmt_Sem
begin

text \<open>
  The statement compiler is correct: the machine on the code of a statement does what \<open>run_stm\<close> says.  The
  proof is by induction on the fuel, with one lemma for each kind of statement.
\<close>

section \<open>Statements\<close>

definition fits_in :: "'w run_t \<Rightarrow> nat \<Rightarrow> var_t list \<Rightarrow> bool" where
  "fits_in R k vs \<longleftrightarrow> k \<le> r_room R \<and> (\<forall>v\<in>set vs. var_apart R v)"

lemma fits_in_max [simp]: "fits_in R (max j k) (us @ vs) \<longleftrightarrow> fits_in R j us \<and> fits_in R k vs"
  by (auto simp: fits_in_def)

lemma fits_in_foldr: "fits_in R (foldr max (map f xs) 0) (concat (map g xs)) \<longleftrightarrow> (\<forall>x\<in>set xs. fits_in R (f x) (g x))"
proof (induction xs)
  case (Cons x xs)
  then show ?case using fits_in_max[of R "f x" "foldr max (map f xs) 0" "g x" "concat (map g xs)"] by simp
qed (simp add: fits_in_def)

lemma fits_inD: "fits_in R k vs \<Longrightarrow> k \<le> r_room R" "fits_in R k vs \<Longrightarrow> v \<in> set vs \<Longrightarrow> var_apart R v"
  by (simp_all add: fits_in_def)

abbreviation fits :: "'w run_t \<Rightarrow> statement_t \<Rightarrow> bool" where "fits R s \<equiv> fits_in R (stm_need s) (stm_vars s)"

definition ends :: "'w run_t \<Rightarrow> outcome \<Rightarrow> mem \<Rightarrow> nat \<Rightarrow> nat \<Rightarrow> nat \<Rightarrow> 'w mstate \<Rightarrow> bool" where
  "ends R out m q brk cont s \<longleftrightarrow> (case out of
     Normal \<Rightarrow> holds_mem R m s \<and> x_pc s = pos R q
   | Broke \<Rightarrow> holds_mem R m s \<and> x_pc s = pos R brk
   | Continued \<Rightarrow> holds_mem R m s \<and> x_pc s = pos R cont
   | Returned v \<Rightarrow> returning R v m s)"

definition goes :: "'w run_t \<Rightarrow> 'w mstate \<Rightarrow> outcome \<Rightarrow> mem \<Rightarrow> nat \<Rightarrow> nat \<Rightarrow> nat \<Rightarrow> bool" where
  "goes R s out m q brk cont \<longleftrightarrow> (\<exists>s'. steps (r_env R) s s' \<and> ends R out m q brk cont s')"

lemma goes_trans: "steps (r_env R) s s1 \<Longrightarrow> goes R s1 out m q brk cont \<Longrightarrow> goes R s out m q brk cont"
  using steps_trans unfolding goes_def by blast

lemma goes_here: "ends R out m q brk cont s \<Longrightarrow> goes R s out m q brk cont"
  using steps.refl unfolding goes_def by blast

text \<open>Correctness of the code for runs with a given fuel.\<close>

definition right_stm :: "'w run_t \<Rightarrow> cparams \<Rightarrow> nat \<Rightarrow> bool" where
  "right_stm R cp n \<longleftrightarrow> (\<forall>s m out m' p q brk cont s1. run_stm n cp (r_fp R) s m = Some (out, m') \<longrightarrow> stm_code cp (r_code R) s p q brk cont \<longrightarrow>
     plain_stm s \<longrightarrow> fits R s \<longrightarrow> inside R p q \<longrightarrow> holds_mem R m s1 \<longrightarrow> x_pc s1 = pos R p \<longrightarrow> goes R s1 out m' q brk cont)"

definition right_stms :: "'w run_t \<Rightarrow> cparams \<Rightarrow> nat \<Rightarrow> bool" where
  "right_stms R cp n \<longleftrightarrow> (\<forall>ss m out m' p q brk cont s1. run_stms n cp (r_fp R) ss m = Some (out, m') \<longrightarrow> stms_code cp (r_code R) ss p q brk cont \<longrightarrow>
     list_all plain_stm ss \<longrightarrow> (\<forall>s\<in>set ss. fits R s) \<longrightarrow> inside R p q \<longrightarrow> holds_mem R m s1 \<longrightarrow> x_pc s1 = pos R p \<longrightarrow> goes R s1 out m' q brk cont)"

definition plain_loop :: "'w run_t \<Rightarrow> expr_t option \<Rightarrow> expr_t option \<Rightarrow> statement_t \<Rightarrow> bool" where
  "plain_loop R b c s \<longleftrightarrow> plain_stm s \<and> fits R s \<and> opt True pure_expr b \<and> fits_in R (opt 0 need b) (opt [] vars_of b)
     \<and> opt True plain_effect c \<and> fits_in R (opt 0 effect_need c) (opt [] effect_vars c)"

definition right_loop :: "'w run_t \<Rightarrow> cparams \<Rightarrow> nat \<Rightarrow> bool" where
  "right_loop R cp n \<longleftrightarrow> (\<forall>b c s at_test m out m' p r t q brk cont s1. run_loop n cp (r_fp R) b c s at_test m = Some (out, m') \<longrightarrow>
     loop_code cp (r_code R) b c s p r t q \<longrightarrow> plain_loop R b c s \<longrightarrow> inside R p q \<longrightarrow> holds_mem R m s1 \<longrightarrow>
     x_pc s1 = pos R (if at_test then t else p) \<longrightarrow> goes R s1 out m' q brk cont)"

lemma right_stmD:
  assumes "right_stm R cp n" and "run_stm n cp (r_fp R) s m = Some (out, m')" and "stm_code cp (r_code R) s p q brk cont"
    and "plain_stm s" and "fits R s" and "inside R p q" and "holds_mem R m s1" and "x_pc s1 = pos R p"
  shows "goes R s1 out m' q brk cont"
  using assms unfolding right_stm_def by blast

lemma right_stmsD:
  assumes "right_stms R cp n" and "run_stms n cp (r_fp R) ss m = Some (out, m')" and "stms_code cp (r_code R) ss p q brk cont"
    and "list_all plain_stm ss" and "\<And>s. s \<in> set ss \<Longrightarrow> fits R s" and "inside R p q" and "holds_mem R m s1" and "x_pc s1 = pos R p"
  shows "goes R s1 out m' q brk cont"
  using assms unfolding right_stms_def by blast

lemma right_loopD:
  assumes "right_loop R cp n" and "run_loop n cp (r_fp R) b c s at_test m = Some (out, m')" and "loop_code cp (r_code R) b c s p r t q"
    and "plain_loop R b c s" and "inside R p q" and "holds_mem R m s1" and "x_pc s1 = pos R (if at_test then t else p)"
  shows "goes R s1 out m' q brk cont"
  using assms unfolding right_loop_def by blast

lemma right_stms_Suc:
  assumes "right_stm R cp n" and "right_stms R cp n"
  shows "right_stms R cp (Suc n)"
  unfolding right_stms_def
proof (intro allI impI)
  fix ss m out m' p q brk cont s1
  assume a: "run_stms (Suc n) cp (r_fp R) ss m = Some (out, m')" "stms_code cp (r_code R) ss p q brk cont" "list_all plain_stm ss"
    "\<forall>s\<in>set ss. fits R s" "inside R p q" "holds_mem R m s1" "x_pc s1 = pos R p"
  show "goes R s1 out m' q brk cont"
  proof (cases ss)
    case Nil
    with a show ?thesis by (intro goes_here) (auto simp: ends_def)
  next
    case (Cons s rest)
    obtain i where i: "stm_code cp (r_code R) s p i brk cont" "stms_code cp (r_code R) rest i q brk cont" using a(2) by (auto simp: Cons)
    obtain o1 m1 where o: "run_stm n cp (r_fp R) s m = Some (o1, m1)"
        "if o1 = Normal then run_stms n cp (r_fp R) rest m1 = Some (out, m') else o1 = out \<and> m1 = m'"
      using a(1) by (auto simp: Cons bind_Some_iff split: if_split_asm)
    have pl: "plain_stm s" "list_all plain_stm rest" "list_all flow_stm rest" using a(3) plain_flow by (auto simp: Cons list_all_iff)
    have le: "p \<le> i" "i \<le> q" using stm_code_le[OF i(1) plain_flow[OF pl(1)]] stms_code_le[OF i(2) pl(3)] .
    then have ins: "inside R p i" "inside R i q" using a(5) by (simp_all add: inside_def)
    have g: "goes R s1 o1 m1 i brk cont" by (rule right_stmD[OF assms(1) o(1) i(1) pl(1) _ ins(1) a(6,7)]) (use a(4) Cons in simp)
    show ?thesis
    proof (cases "o1 = Normal")
      case True
      obtain s2 where s2: "steps (r_env R) s1 s2" "holds_mem R m1 s2" "x_pc s2 = pos R i"
        using g True by (auto simp: goes_def ends_def)
      have r: "run_stms n cp (r_fp R) rest m1 = Some (out, m')" using o(2) True by simp
      have "goes R s2 out m' q brk cont" by (rule right_stmsD[OF assms(2) r i(2) pl(2) _ ins(2) s2(2,3)]) (use a(4) Cons in simp)
      with goes_trans[OF s2(1)] show ?thesis by blast
    next
      case False
      with o(2) g show ?thesis by (cases out) (auto simp: goes_def ends_def)
    qed
  qed
qed

lemma loop_test_runs:
  assumes "test_code cp (r_code R) b t p q" and "opt True pure_expr b" and "fits_in R (opt 0 need b) (opt [] vars_of b)" and "inside R t q"
    and "holds_mem R m s" and "x_pc s = pos R t" and "(case b of None \<Rightarrow> Some 1 | Some e \<Rightarrow> eval cp m (r_fp R) e) = Some v"
  shows "\<exists>s'. steps (r_env R) s s' \<and> holds_mem R m s' \<and> x_pc s' = pos R (if v = 0 then q else p)"
proof (cases b)
  case None
  then have j: "jump_code (r_code R) t OC_JUMP p" "q = t + 4" "v = 1" using assms(1,7) by (simp_all add: test_code_def)
  with jump_runs[OF j(1) _ assms(5,6)] assms(4) show ?thesis by simp
next
  case (Some e)
  then obtain r where r: "value_code cp (r_code R) e t r" "jump_code (r_code R) r OC_JUMP_IF_NON_ZERO p" "q = r + 4"
    using assms(1) by (auto simp: test_code_def)
  have "need e \<le> r_room R" "\<And>u. u \<in> set (vars_of e) \<Longrightarrow> var_apart R u" using assms(3) Some by (simp_all add: fits_in_def opt_def)
  from test_runs[OF r(1), of False p, OF _ _ this(1) _ assms(5,6) this(2)] assms(2,4,7) Some r(2,3) show ?thesis
    by (cases "v = 0") simp_all
qed

lemma right_loop_Suc:
  assumes "right_stm R cp n" and "right_loop R cp n"
  shows "right_loop R cp (Suc n)"
  unfolding right_loop_def
proof (intro allI impI)
  fix b c s at_test m out m' p r t q brk cont s1
  assume a: "run_loop (Suc n) cp (r_fp R) b c s at_test m = Some (out, m')" "loop_code cp (r_code R) b c s p r t q" "plain_loop R b c s"
    "inside R p q" "holds_mem R m s1" "x_pc s1 = pos R (if at_test then t else p)"
  note pl = a(3)[unfolded plain_loop_def] and lc = a(2)[unfolded loop_code_def]
  have le: "p \<le> r" "r \<le> t" "t \<le> q" using loop_code_le[OF a(2)] plain_flow pl by blast+
  have ins: "inside R p r" "inside R r t" "inside R t q" using a(4) le by (simp_all add: inside_def)
  show "goes R s1 out m' q brk cont"
  proof (cases at_test)
    case True
    obtain v where v: "(case b of None \<Rightarrow> Some 1 | Some e \<Rightarrow> eval cp m (r_fp R) e) = Some v"
        "if v = 0 then out = Normal \<and> m' = m else run_loop n cp (r_fp R) b c s False m = Some (out, m')"
      using a(1) True by (auto simp: bind_Some_iff split: if_split_asm)
    obtain s2 where s2: "steps (r_env R) s1 s2" "holds_mem R m s2" "x_pc s2 = pos R (if v = 0 then q else p)"
      using loop_test_runs[OF _ _ _ ins(3) a(5) _ v(1), of p] lc pl a(6) True by auto
    have "goes R s2 out m' q brk cont"
    proof (cases "v = 0")
      case True
      with v(2) s2 show ?thesis by (intro goes_here) (simp add: ends_def)
    next
      case False
      with v(2) s2 show ?thesis by (intro right_loopD[OF assms(2) _ a(2-4) s2(2)]) auto
    qed
    with goes_trans[OF s2(1)] show ?thesis .
  next
    case False
    obtain o1 m1 where o1: "run_stm n cp (r_fp R) s m = Some (o1, m1)" using a(1) False by (auto simp: bind_Some_iff)
    then have o: "run_stm n cp (r_fp R) s m = Some (o1, m1)"
        "case o1 of Broke \<Rightarrow> out = Normal \<and> m' = m1 | Returned v \<Rightarrow> out = Returned v \<and> m' = m1
          | _ \<Rightarrow> \<exists>m2. run_opt cp (r_fp R) c m1 = Some m2 \<and> run_loop n cp (r_fp R) b c s True m2 = Some (out, m')"
      using a(1) False by (cases o1; auto simp: bind_Some_iff)+
    have g: "goes R s1 o1 m1 r q r" using right_stmD[OF assms(1) o(1) _ _ _ ins(1) a(5)] lc pl a(6) False by simp
    have next_round: ?thesis if nc: "o1 = Normal \<or> o1 = Continued"
    proof -
      obtain m2 where m2: "run_opt cp (r_fp R) c m1 = Some m2" "run_loop n cp (r_fp R) b c s True m2 = Some (out, m')"
        using o(2) nc by auto
      obtain s2 where s2: "steps (r_env R) s1 s2" "holds_mem R m1 s2" "x_pc s2 = pos R r" using g nc by (auto simp: goes_def ends_def)
      obtain s3 where s3: "steps (r_env R) s2 s3" "holds_mem R m2 s3" "x_pc s3 = pos R t"
        using opt_effect_runs[OF _ _ _ ins(2) s2(2,3) _ m2(1)] lc pl by (auto simp: fits_in_def)
      have "goes R s3 out m' q brk cont" by (rule right_loopD[OF assms(2) m2(2) a(2-4) s3(2)]) (simp add: s3(3))
      with goes_trans[OF s2(1)] goes_trans[OF s3(1)] show ?thesis by blast
    qed
    show ?thesis
    proof (cases o1)
      case Broke
      with g o(2) show ?thesis by (auto simp: goes_def ends_def)
    next
      case (Returned v)
      with g o(2) show ?thesis by (auto simp: goes_def ends_def)
    qed (use next_round in simp_all)
  qed
qed

lemma if_runs:
  assumes "right_stm R cp n" and "stm_code cp (r_code R) (Statement lx (STT_IF e s t)) p q brk cont" and "plain_stm (Statement lx (STT_IF e s t))"
    and "fits R (Statement lx (STT_IF e s t))" and "inside R p q" and "holds_mem R m s1" and "x_pc s1 = pos R p"
    and "run_stm (Suc n) cp (r_fp R) (Statement lx (STT_IF e s t)) m = Some (out, m')"
  shows "goes R s1 out m' q brk cont"
proof -
  obtain v where v: "eval cp m (r_fp R) e = Some v"
      "if v \<noteq> 0 then run_stm n cp (r_fp R) s m = Some (out, m')
       else case t of None \<Rightarrow> out = Normal \<and> m' = m | Some t \<Rightarrow> run_stm n cp (r_fp R) t m = Some (out, m')"
    using assms(8) by (auto simp: bind_Some_iff split: if_split_asm option.split_asm)
  have pl: "pure_expr e" "plain_stm s" "flow_stm s" "need e \<le> r_room R" "\<And>u. u \<in> set (vars_of e) \<Longrightarrow> var_apart R u" "fits R s"
    using assms(3,4) plain_flow by (auto simp: fits_in_def)
  show ?thesis
  proof (cases t)
    case None
    obtain r where r: "value_code cp (r_code R) e p r" "jump_code (r_code R) r OC_JUMP_IF_ZERO q" "stm_code cp (r_code R) s (r + 4) q brk cont"
      using if_code[OF assms(2)[unfolded None] pl(3)] by blast
    have le: "r + 4 \<le> q" "p \<le> r" using stm_code_le[OF r(3) pl(3)] r(1) by (auto simp: value_code_def code_of_def)
    have ins: "inside R p (r + 4)" "inside R (r + 4) q" using assms(5) le by (simp_all add: inside_def)
    obtain s2 where s2: "steps (r_env R) s1 s2" "holds_mem R m s2" "x_pc s2 = pos R (if v = 0 then q else r + 4)"
      using test_runs[OF r(1), of True q, OF _ pl(1,4) ins(1) assms(6,7) pl(5) v(1)] r(2) by auto
    have "goes R s2 out m' q brk cont"
    proof (cases "v = 0")
      case True
      with v(2) None s2 show ?thesis by (intro goes_here) (simp add: ends_def)
    next
      case False
      with v(2) s2 show ?thesis by (intro right_stmD[OF assms(1) _ r(3) pl(2,6) ins(2) s2(2)]) simp_all
    qed
    with goes_trans[OF s2(1)] show ?thesis .
  next
    case (Some t')
    have pt: "plain_stm t'" "flow_stm t'" "fits R t'" using assms(3,4) plain_flow by (auto simp: Some)
    obtain r i where r: "value_code cp (r_code R) e p r" "jump_code (r_code R) r OC_JUMP_IF_ZERO (i + 4)" "stm_code cp (r_code R) s (r + 4) i brk cont"
        "jump_code (r_code R) i OC_JUMP q" "stm_code cp (r_code R) t' (i + 4) q brk cont"
      using if_else_code[OF assms(2)[unfolded Some] pl(3) pt(2)] by blast
    have le: "r + 4 \<le> i" "p \<le> r" "i + 4 \<le> q" using stm_code_le[OF r(3) pl(3)] stm_code_le[OF r(5) pt(2)] r(1) by (auto simp: value_code_def code_of_def)
    have ins: "inside R p (r + 4)" "inside R (r + 4) i" "inside R i (i + 4)" "inside R (i + 4) q" using assms(5) le by (simp_all add: inside_def)
    obtain s2 where s2: "steps (r_env R) s1 s2" "holds_mem R m s2" "x_pc s2 = pos R (if v = 0 then i + 4 else r + 4)"
      using test_runs[OF r(1), of True "i + 4", OF _ pl(1,4) ins(1) assms(6,7) pl(5) v(1)] r(2) by auto
    have "goes R s2 out m' q brk cont"
    proof (cases "v = 0")
      case True
      with v(2) Some s2 show ?thesis by (intro right_stmD[OF assms(1) _ r(5) pt(1,3) ins(4) s2(2)]) simp_all
    next
      case False
      have g: "goes R s2 out m' i brk cont"
        by (rule right_stmD[OF assms(1) _ r(3) pl(2,6) ins(2) s2(2)]) (use False v(2) s2(3) in simp_all)
      show ?thesis
      proof (cases "out = Normal")
        case True
        then obtain s3 where s3: "steps (r_env R) s2 s3" "holds_mem R m' s3" "x_pc s3 = pos R i" using g by (auto simp: goes_def ends_def)
        obtain s4 where "steps (r_env R) s3 s4" "holds_mem R m' s4" "x_pc s4 = pos R q" using jump_runs[OF r(4) ins(3) s3(2,3)] by blast
        then have "goes R s3 out m' q brk cont" using True by (auto simp: goes_def ends_def)
        with goes_trans[OF s3(1)] show ?thesis .
      next
        case False
        with g show ?thesis by (cases out) (auto simp: goes_def ends_def)
      qed
    qed
    with goes_trans[OF s2(1)] show ?thesis .
  qed
qed

lemma loop_stm_runs:
  assumes "right_loop R cp n" and "stm_code cp (r_code R) (Statement lx (if w then STT_WHILE e s else STT_DO e s)) p q brk cont"
    and "plain_stm (Statement lx (STT_WHILE e s))" and "fits R (Statement lx (STT_WHILE e s))"
    and "inside R p q" and "holds_mem R m s1" and "x_pc s1 = pos R p" and "run_loop n cp (r_fp R) (Some e) None s w m = Some (out, m')"
  shows "goes R s1 out m' q brk cont"
proof -
  have pl: "plain_stm s" "flow_stm s" using assms(3) plain_flow by auto
  have lp: "plain_loop R (Some e) None s" using assms(3,4) by (simp add: plain_loop_def opt_def fits_in_def)
  obtain r where r: "w \<longrightarrow> jump_code (r_code R) p OC_JUMP r" "loop_code cp (r_code R) (Some e) None s (if w then p + 4 else p) r r q"
    using while_code[OF assms(2) pl(2)] by blast
  note le = loop_code_le[OF r(2) pl(2)]
  have ins: "inside R (if w then p + 4 else p) q" using assms(5) by (simp add: inside_def)
  show ?thesis
  proof (cases w)
    case True
    have "inside R p (p + 4)" using assms(5) le True by (simp add: inside_def)
    then obtain s2 where s2: "steps (r_env R) s1 s2" "holds_mem R m s2" "x_pc s2 = pos R r"
      using jump_runs[OF _ _ assms(6,7)] r(1) True by blast
    have "goes R s2 out m' q brk cont" by (rule right_loopD[OF assms(1,8) r(2) lp ins s2(2)]) (simp add: s2(3) True)
    with goes_trans[OF s2(1)] show ?thesis .
  next
    case False
    show ?thesis by (rule right_loopD[OF assms(1,8) r(2) lp ins assms(6)]) (simp add: assms(7) False)
  qed
qed

lemma for_runs:
  assumes "right_loop R cp n" and "stm_code cp (r_code R) (Statement lx (STT_FOR a b c s)) p q brk cont"
    and "plain_stm (Statement lx (STT_FOR a b c s))" and "fits R (Statement lx (STT_FOR a b c s))"
    and "inside R p q" and "holds_mem R m s1" and "x_pc s1 = pos R p" and "run_opt cp (r_fp R) a m = Some m1"
    and "run_loop n cp (r_fp R) b c s True m1 = Some (out, m')"
  shows "goes R s1 out m' q brk cont"
proof -
  have pl: "plain_stm s" "flow_stm s" "opt True plain_effect a" using assms(3) plain_flow by auto
  have fi: "opt 0 effect_need a \<le> r_room R" "\<And>v. v \<in> set (opt [] effect_vars a) \<Longrightarrow> var_apart R v" and lp: "plain_loop R b c s"
    using assms(3,4) by (auto simp: plain_loop_def fits_in_def)
  obtain i r t where r: "effect_code cp (r_code R) a p i" "jump_code (r_code R) i OC_JUMP t" "loop_code cp (r_code R) b c s (i + 4) r t q"
    using for_code[OF assms(2) pl(2)] by blast
  have le: "p \<le> i" "i + 4 \<le> q" using r(1) loop_code_le[OF r(3) pl(2)] by (auto simp: effect_code_def code_of_def split: option.split_asm)
  have ins: "inside R p i" "inside R i (i + 4)" "inside R (i + 4) q" using assms(5) le by (simp_all add: inside_def)
  obtain s2 where s2: "steps (r_env R) s1 s2" "holds_mem R m1 s2" "x_pc s2 = pos R i"
    using opt_effect_runs[OF r(1) pl(3) fi(1) ins(1) assms(6,7) fi(2) assms(8)] by blast
  obtain s3 where s3: "steps (r_env R) s2 s3" "holds_mem R m1 s3" "x_pc s3 = pos R t" using jump_runs[OF r(2) ins(2) s2(2,3)] by blast
  have "goes R s3 out m' q brk cont" by (rule right_loopD[OF assms(1,9) r(3) lp ins(3) s3(2)]) (simp add: s3(3))
  with goes_trans[OF s2(1)] goes_trans[OF s3(1)] show ?thesis by blast
qed

lemma right_stm_Suc:
  assumes "right_stm R cp n" and "right_stms R cp n" and "right_loop R cp n"
  shows "right_stm R cp (Suc n)"
  unfolding right_stm_def
proof (intro allI impI)
  fix s m out m' p q brk cont s1
  assume a: "run_stm (Suc n) cp (r_fp R) s m = Some (out, m')" "stm_code cp (r_code R) s p q brk cont" "plain_stm s" "fits R s"
    "inside R p q" "holds_mem R m s1" "x_pc s1 = pos R p"
  obtain lx k where s: "s = Statement lx k" by (cases s)
  show "goes R s1 out m' q brk cont"
  proof (cases k)
    case (STT_EXPR e)
    then have m': "run_opt cp (r_fp R) e m = Some m'" "out = Normal" using a(1) by (auto simp: s bind_Some_iff)
    have "effect_code cp (r_code R) e p q" using expr_code a(2) by (simp add: s STT_EXPR)
    from opt_effect_runs[OF this _ _ a(5-7) _ m'(1)] a(3,4) m'(2) show ?thesis by (auto simp: s STT_EXPR fits_in_def goes_def ends_def)
  next
    case (STT_COMPOUND il ss)
    have pl: "list_all plain_init il" "list_all plain_stm ss" "list_all flow_stm ss" using a(3) plain_flow by (auto simp: s STT_COMPOUND list_all_iff)
    have fi: "fits_in R (foldr max (map init_need il) 0) (concat (map init_vars il))" "\<And>x. x \<in> set ss \<Longrightarrow> fits R x"
      using a(4) by (simp_all add: s STT_COMPOUND fits_in_foldr)
    obtain r where r: "inits_code cp (r_code R) il p r" "stms_code cp (r_code R) ss r q brk cont" "p \<le> r"
      using compound_code[OF a(2)[unfolded s STT_COMPOUND] pl(3)] by blast
    have ins: "inside R p r" "inside R r q" using a(5) r(3) stms_code_le[OF r(2) pl(3)] by (simp_all add: inside_def)
    obtain m1 where m1: "run_inits cp (r_fp R) il m = Some m1" "run_stms n cp (r_fp R) ss m1 = Some (out, m')"
      using a(1) by (auto simp: s STT_COMPOUND bind_Some_iff)
    obtain s2 where s2: "steps (r_env R) s1 s2" "holds_mem R m1 s2" "x_pc s2 = pos R r"
      using inits_run[OF r(1) pl(1) fits_inD(1)[OF fi(1)] ins(1) a(6,7) fits_inD(2)[OF fi(1)] m1(1)] by blast
    from goes_trans[OF s2(1) right_stmsD[OF assms(2) m1(2) r(2) pl(2) fi(2) ins(2) s2(2,3)]] show ?thesis .
  next
    case (STT_IF e x t)
    with if_runs[OF assms(1)] a show ?thesis unfolding s by blast
  next
    case (STT_WHILE e x)
    with loop_stm_runs[OF assms(3), of lx True] a show ?thesis by (simp add: s)
  next
    case (STT_DO e x)
    with loop_stm_runs[OF assms(3), of lx False] a show ?thesis by (simp add: s)
  next
    case (STT_FOR i b c x)
    then obtain m1 where "run_opt cp (r_fp R) i m = Some m1" "run_loop n cp (r_fp R) b c x True m1 = Some (out, m')"
      using a(1) by (auto simp: s bind_Some_iff)
    with for_runs[OF assms(3) _ _ _ a(5-7)] a(2-4) show ?thesis unfolding s STT_FOR by blast
  next
    case STT_BREAK
    then have "jump_code (r_code R) p OC_JUMP brk" "q = p + 4" "out = Broke" "m' = m" using break_code(1) a(1,2) by (auto simp: s)
    with jump_runs[OF _ _ a(6,7), of brk] a(5) show ?thesis by (auto simp: goes_def ends_def)
  next
    case STT_CONTINUE
    then have "jump_code (r_code R) p OC_JUMP cont" "q = p + 4" "out = Continued" "m' = m" using break_code(2) a(1,2) by (auto simp: s)
    with jump_runs[OF _ _ a(6,7), of cont] a(5) show ?thesis by (auto simp: goes_def ends_def)
  next
    case (STT_RETURN e)
    then have c: "return_code cp (r_code R) e p q" using return_stm_code a(2) by (simp add: s)
    show ?thesis
    proof (cases e)
      case None
      then have o: "out = Returned None" "m' = m" using a(1) by (auto simp: s STT_RETURN)
      have "returning R None m s1" using return_none_runs[OF _ a(5-7)] c None by blast
      with o show ?thesis by (intro goes_here) (simp add: ends_def)
    next
      case (Some e')
      then obtain v where o: "out = Returned (Some v)" "m' = m" "eval cp m (r_fp R) e' = Some v" using a(1) by (auto simp: s STT_RETURN bind_Some_iff)
      have pe: "pure_expr e'" "need e' \<le> r_room R" "\<And>u. u \<in> set (vars_of e') \<Longrightarrow> var_apart R u"
        using a(3,4) by (auto simp: s STT_RETURN Some opt_def fits_in_def)
      from return_value_runs[OF c[unfolded Some] pe(1,2) a(5-7) pe(3) o(3)] o(1,2) show ?thesis by (auto simp: goes_def ends_def)
    qed
  qed (use a(3) in \<open>simp_all add: s\<close>)
qed

lemma right_all: "right_stm R cp n \<and> right_stms R cp n \<and> right_loop R cp n"
proof (induction n)
  case 0
  have "right_stms R cp 0" unfolding right_stms_def
  proof (intro allI impI)
    fix ss m out m' p q brk cont s1
    assume "run_stms 0 cp (r_fp R) ss m = Some (out, m')" "stms_code cp (r_code R) ss p q brk cont" "holds_mem R m s1" "x_pc s1 = pos R p"
    then show "goes R s1 out m' q brk cont" by (cases ss) (auto intro!: goes_here simp: ends_def)
  qed
  then show ?case by (simp add: right_stm_def right_loop_def)
next
  case (Suc n)
  then show ?case using right_stm_Suc right_stms_Suc right_loop_Suc by blast
qed

lemma agrees_closed:
  assumes "\<And>ld. labs b ld = None"
  shows "agrees (cells b) T lo b"
  using assms by (auto simp: agrees_def refs_in_def)

lemma no_labels_lists:
  assumes "ready st" and "\<And>ld. labs (st_tx st) ld = None"
  shows "tx_label_lists st lt = []"
proof (cases "tx_label_lists st lt")
  case (Cons ld lds)
  then have "addrs (st_tx st) ld \<noteq> None" using assms(1) unfolding ready_def by (metis list.set_intros(1))
  with assms(2) show ?thesis by (simp add: addrs_None)
qed simp

text \<open>The code of a statement compiled where no labels are in use.\<close>

lemma closed_stm_code:
  assumes "compile_statement cp st s = Some st'" and "flow_stm s" and "ready st" and "\<And>ld. labs (st_tx st) ld = None"
  shows "stm_code cp (cells (st_tx st')) s (st_pc st) (st_pc st') brk cont" and "\<And>ld. labs (st_tx st') ld = None"
proof -
  have g: "grown (st_tx st) (st_tx st')" using well_compiledD(1)[OF flow_well_compiled[OF assms(2)] assms(1,3)] .
  show n: "labs (st_tx st') ld = None" for ld using grown_addrs[OF g] assms(4)[of ld] unfolding addrs_None[symmetric] by simp
  have "exits st T brk cont" for T using no_labels_lists[OF assms(3,4)] by (simp add: exits_def)
  with agrees_closed[OF n] assms(1,3) show "stm_code cp (cells (st_tx st')) s (st_pc st) (st_pc st') brk cont" unfolding stm_code_def by blast
qed

text \<open>Which jumps leave a statement: a \<open>break\<close> or \<open>continue\<close> that is in no loop of it.  The compiler has no label for
  such a jump at the outermost level and panics.\<close>

fun jumps_out :: "label_type_t \<Rightarrow> statement_t \<Rightarrow> bool" where
  "jumps_out lt (Statement lx k) \<longleftrightarrow>
     (case k of
        STT_COMPOUND il ss \<Rightarrow> list_ex (jumps_out lt) ss
      | STT_IF e s t \<Rightarrow> jumps_out lt s \<or> (case t of None \<Rightarrow> False | Some t \<Rightarrow> jumps_out lt t)
      | STT_BREAK \<Rightarrow> lt = LT_BREAK
      | STT_CONTINUE \<Rightarrow> lt = LT_CONTINUE
      | _ \<Rightarrow> False)"

definition way_out :: "outcome \<Rightarrow> label_type_t option" where
  "way_out out = (case out of Broke \<Rightarrow> Some LT_BREAK | Continued \<Rightarrow> Some LT_CONTINUE | _ \<Rightarrow> None)"

lemma run_jumps_out:
  "run_stm n cp fp s m = Some (out, m') \<Longrightarrow> way_out out = Some lt \<Longrightarrow> jumps_out lt s"
  "run_stms n cp fp ss m = Some (out, m') \<Longrightarrow> way_out out = Some lt \<Longrightarrow> list_ex (jumps_out lt) ss"
  "run_loop n cp fp b c s at_test m = Some (out, m') \<Longrightarrow> way_out out = Some lt \<Longrightarrow> False"
proof (induction n cp fp s m and n cp fp ss m and n cp fp b c s at_test m arbitrary: out m' and out m' and out m'
    rule: run_stm_run_stms_run_loop.induct)
  case (2 n cp fp lx k m)
  then show ?case by (cases k) (auto simp: bind_Some_iff way_out_def split: if_split_asm option.split_asm)
next
  case (5 n cp fp s ss m)
  obtain o1 m1 where o1: "run_stm n cp fp s m = Some (o1, m1)"
      "if o1 = Normal then run_stms n cp fp ss m1 = Some (out, m') else o1 = out \<and> m1 = m'"
    using 5(3) by (auto simp: bind_Some_iff split: if_split_asm)
  show ?case
  proof (cases "o1 = Normal")
    case True
    with 5(2)[OF o1(1) HOL.refl True _ 5(4)] o1(2) show ?thesis by simp
  next
    case False
    with 5(1)[OF _ 5(4)] o1 show ?thesis by simp
  qed
next
  case (7 n cp fp b c s m)
  then show ?case by (auto simp: bind_Some_iff way_out_def split: if_split_asm)
next
  case (8 n cp fp b c s m)
  obtain o1 m1 where o1: "run_stm n cp fp s m = Some (o1, m1)" using 8(4) by (auto simp: bind_Some_iff)
  show ?case
  proof (cases o1)
    case Normal
    with 8(4) o1 obtain m2 where "run_opt cp fp c m1 = Some m2" "run_loop n cp fp b c s True m2 = Some (out, m')"
      by (auto simp: bind_Some_iff)
    with 8(2)[OF o1 HOL.refl Normal _ _ 8(5)] show ?thesis by blast
  next
    case Continued
    with 8(4) o1 obtain m2 where "run_opt cp fp c m1 = Some m2" "run_loop n cp fp b c s True m2 = Some (out, m')"
      by (auto simp: bind_Some_iff)
    with 8(3)[OF o1 HOL.refl Continued _ _ 8(5)] show ?thesis by blast
  qed (use 8(4,5) o1 in \<open>auto simp: way_out_def\<close>)
qed (auto simp: way_out_def)

lemma compiled_jumps_in:
  assumes "flow_stm s" and "compile_statement cp u s = Some u'" and "jumps_out lt s"
  shows "tx_label_lists u lt \<noteq> []"
  using assms
proof (induction s arbitrary: u u' rule: measure_induct_rule[of size])
  case (less s)
  obtain lx k where s: "s = Statement lx k" by (cases s)
  let ?u = "lined u lx"
  show ?case
  proof (cases k)
    case (STT_COMPOUND il ss)
    obtain v where v: "compile_initlist cp ?u il = Some v" "compile_statements cp v ss = Some u'"
      using less.prems(2) by (auto simp: s STT_COMPOUND compile_statement.simps bind_Some_iff lined_def)
    have sub: "tx_label_lists w lt \<noteq> []" if "x \<in> set ss" "compile_statement cp w x = Some w'" "jumps_out lt x" for x w w'
      using less.IH[of x] less.prems(1) that size_in_statements[OF that(1)] by (simp add: s STT_COMPOUND list_all_iff)
    have "list_all flow_stm ss" "list_ex (jumps_out lt) ss" using less.prems(1,3) by (simp_all add: s STT_COMPOUND)
    with v(2) sub have "tx_label_lists v lt \<noteq> []"
    proof (induction ss arbitrary: v)
      case (Cons x ss)
      obtain w where w: "compile_statement cp v x = Some w" "compile_statements cp w ss = Some u'"
        using Cons.prems(1) by (auto simp: bind_Some_iff)
      have kl: "tx_label_lists w = tx_label_lists v" using keeps_listsD[OF flow_keeps_lists w(1)] Cons.prems(3) by simp
      show ?case
      proof (cases "jumps_out lt x")
        case True
        with Cons.prems(2)[OF _ w(1)] show ?thesis by simp
      next
        case False
        have "tx_label_lists w lt \<noteq> []"
          by (rule Cons.IH[OF w(2)]) (use Cons.prems False in auto)
        with kl show ?thesis by simp
      qed
    qed simp
    with initlist_lists[OF v(1)] show ?thesis by simp
  next
    case (STT_IF e a t)
    have c: "compile_if_statement cp ?u e a t = Some u'" using less.prems(2) by (simp add: s STT_IF compile_statement.simps lined_def)
    obtain v tx ld w where v: "code_value cp ?u e EC_VALUE = Some v" "ci_code_jump_to_label (st_tx v) OC_JUMP_IF_ZERO NO_LABELDESC = Some (tx, ld)"
        "compile_statement cp (v\<lparr>st_tx := tx\<rparr>) a = Some w"
        "case t of None \<Rightarrow> True | Some t \<Rightarrow> \<exists>x x'. tx_label_lists x = tx_label_lists w \<and> compile_statement cp x t = Some x'"
      using c[unfolded compile_if_statement.simps] by (cases t) (auto simp: bind_Some_iff dest!: coding_lists, force)
    have f: "flow_stm a" "\<And>b. t = Some b \<Longrightarrow> flow_stm b" using less.prems(1) by (auto simp: s STT_IF)
    have l: "tx_label_lists (v\<lparr>st_tx := tx\<rparr>) = tx_label_lists u" "tx_label_lists w = tx_label_lists u"
      using code_value_lists[OF v(1)] keeps_listsD[OF flow_keeps_lists[OF f(1)] v(3)] by simp_all
    show ?thesis
    proof (cases "jumps_out lt a")
      case True
      with less.IH[OF _ f(1) v(3)] l show ?thesis by (simp add: s STT_IF)
    next
      case False
      then obtain b where b: "t = Some b" "jumps_out lt b" using less.prems(3) by (auto simp: s STT_IF split: option.split_asm)
      with v(4) obtain x x' where "tx_label_lists x = tx_label_lists w" "compile_statement cp x b = Some x'" by auto
      with less.IH[OF _ f(2)[OF b(1)] this(2) b(2)] l b(1) show ?thesis by (simp add: s STT_IF)
    qed
  qed (use less.prems in \<open>auto simp: s compile_statement.simps compile_continue_or_break_statement_def split: list.split_asm option.split_asm\<close>)
qed

text \<open>Where the machine is when it has run a statement that is in no loop.\<close>

definition finished :: "addr set \<Rightarrow> outcome \<Rightarrow> addr \<Rightarrow> mem \<Rightarrow> 'w mstate \<Rightarrow> 'w mstate \<Rightarrow> bool" where
  "finished scr out pc m s s' \<longleftrightarrow> keeps scr (s\<lparr>x_mem := m\<rparr>) s' \<and>
     (case out of
        Normal \<Rightarrow> x_pc s' = pc \<and> x_sp s' = x_sp s
      | Returned None \<Rightarrow> code_at (x_mem s') (x_pc s') (opcode_bytes OC_RET) \<and> x_sp s' = x_sp s
      | Returned (Some v) \<Rightarrow> code_at (x_mem s') (x_pc s') (opcode_bytes OC_RET_WORD) \<and> x_sp s' = x_sp s - 8 \<and> top_is v s'
      | _ \<Rightarrow> False)"

text \<open>C2.  Statements are compiled correctly.  Take a statement built from assignments to local variables, blocks with
  initialised variables, \<open>if\<close>, \<open>while\<close>, \<open>do\<close>, \<open>for\<close>, \<open>break\<close>, \<open>continue\<close> and \<open>return\<close>, with integer expressions, and
  compile it where no loop or other label is open.  If the compiler accepts it and the statement, run in the
  current frame, comes to an end with certain memory, then the machine, started at its code with enough stack,
  has that memory, up to the scratch words below the stack pointer, and the frame pointer as it was, when it is
  behind the code, with the stack pointer as it was, if the statement ran to its end, or at the \<open>OC_RET\<close> of a
  \<open>return\<close>, or at the \<open>OC_RET_WORD\<close> of a \<open>return\<close> with the value on the stack.  It does not end by a \<open>break\<close> or \<open>continue\<close>:
  those of its loops stay inside of it, and another one is not compiled.\<close>

theorem compiled_statement_runs:
  assumes "plain_stm s" and "compile_statement cp st s = Some st'" and "ready st" and "\<And>ld. labs (st_tx st) ld = None"
    and "loaded (st_tx st') base (st_pc st) (st_pc st') (x_mem \<sigma>)" and "x_pc \<sigma> = base + of_nat (st_pc st)"
    and "stack_space \<sigma> (8 * stm_need s)"
    and "\<And>i. st_pc st \<le> i \<Longrightarrow> i < st_pc st' \<Longrightarrow> base + of_nat i \<notin> stack_bytes (x_sp \<sigma>) (stm_need s)"
    and "\<And>v. v \<in> set (stm_vars s) \<Longrightarrow> region (x_fp \<sigma> + va_addr v) 8 \<inter> stack_bytes (x_sp \<sigma>) (stm_need s) = {}"
    and "\<And>v i. v \<in> set (stm_vars s) \<Longrightarrow> st_pc st \<le> i \<Longrightarrow> i < st_pc st' \<Longrightarrow> base + of_nat i \<notin> region (x_fp \<sigma> + va_addr v) 8"
    and "run_stm n cp (x_fp \<sigma>) s (x_mem \<sigma>) = Some (out, m')"
  shows "\<exists>\<sigma>'. steps env \<sigma> \<sigma>' \<and> finished (stack_bytes (x_sp \<sigma>) (stm_need s)) out (base + of_nat (st_pc st')) m' \<sigma> \<sigma>'"
proof -
  let ?R = "\<lparr>r_env = env, r_code = cells (st_tx st'), r_base = base, r_lo = st_pc st, r_hi = st_pc st', r_room = stm_need s,
    r_start = \<sigma>, r_safe = {}\<rparr>"
  note fl = plain_flow[OF assms(1)] and right = conjunct1[OF right_all]
  have "code_ready (cells (st_tx st')) base (st_pc st) (st_pc st') (stm_need s) \<sigma>"
    using assms(5,7,8) by (simp add: code_ready_def loaded_def)
  then have h: "holds_mem ?R (x_mem \<sigma>) \<sigma>" by (simp add: holds_mem_def keeps_refl)
  have f: "fits ?R s" using assms(9,10) by (simp add: fits_in_def var_apart_def scratch_def)
  have g: "goes ?R \<sigma> out m' (st_pc st') 0 0"
    by (rule right_stmD[OF right _ _ assms(1) f _ h]) (use assms(6,11) closed_stm_code(1)[OF assms(2) fl assms(3,4)] in \<open>simp_all add: inside_def\<close>)
  have "way_out out \<noteq> Some lt" for lt
    using compiled_jumps_in[OF fl assms(2) run_jumps_out(1)[OF assms(11)]] no_labels_lists[OF assms(3,4)] by blast
  from this[of LT_BREAK] this[of LT_CONTINUE] have "out \<noteq> Broke" "out \<noteq> Continued" by (auto simp: way_out_def)
  with g show ?thesis
    by (cases out) (auto simp: goes_def ends_def holds_mem_def scratch_def returning_def finished_def split: option.split_asm)
qed

section \<open>An instance\<close>

definition is_no_label :: "nat \<Rightarrow> bool" where "is_no_label ld \<longleftrightarrow> ld = NO_LABELDESC"

lemma is_no_label_code [code]: "is_no_label ld \<longleftrightarrow> int ld = 0xffff"
  by (auto simp: is_no_label_def NO_LABELDESC_def)

lemma ci_code_jump_to_label_code [code]:
  "ci_code_jump_to_label tx opc ld =
     (if is_no_label ld then code_jump_to_new_label tx opc
      else do { tx \<leftarrow> ci_code_opcode tx opc;
           tx \<leftarrow> add_label_reference tx ld (tx_pc tx);
           tx \<leftarrow> ci_code_word tx (of_nat ld);
           Some (tx, ld) })"
  by (simp add: is_no_label_def code_jump_to_new_label_def ci_code_jump_to_label_def)

text \<open>\<open>{ long x = 2; while (x > 1) x = x - 1; }\<close>, and the same with \<open>return x;\<close> at the end.\<close>

definition demo_x :: "var_t \<Rightarrow> expr_t" where "demo_x v = Expr (Some demo_long) False (ET_VAR v)"

definition demo_int :: "word64 \<Rightarrow> expr_t" where "demo_int w = Expr (Some demo_long) True (ET_INT_CONST w)"

definition demo_block :: "var_t \<Rightarrow> bool \<Rightarrow> statement_t" where
  "demo_block v ret = Statement None (STT_COMPOUND [(v, IT_EXPR (demo_int 2))]
     (Statement (Some 5) (STT_WHILE (Expr (Some demo_long) False (ET_BINARY OP_GREATER (demo_x v) (demo_int 1)))
        (Statement (Some 6) (STT_EXPR (Some (Expr (Some demo_long) False
           (ET_BINARY OP_ASSIGN (demo_x v) (Expr (Some demo_long) False (ET_BINARY OP_MINUS (demo_x v) (demo_int 1)))))))))
      # (if ret then [Statement (Some 7) (STT_RETURN (Some (demo_x v)))] else [])))"

abbreviation demo_count :: statement_t where "demo_count \<equiv> demo_block demo_var False"

text \<open>A text with nothing but the \<open>OC_TRAP\<close> at its start.\<close>

definition demo_stext :: stext_t where
  "demo_stext = \<lparr>st_tx = the (ci_code_opcode demo_text OC_TRAP), tx_label_lists = (\<lambda>_. []), tx_lnos = [], tx_initlist = [],
     gl_labeldesc = (\<lambda>_. None), cs_labeldesc = (\<lambda>_. None)\<rparr>"

lemma demo_stext_ready: "ready demo_stext" "labs (st_tx demo_stext) ld = None"
proof -
  have lim: "tx_labellim (st_tx demo_stext) = 0" by code_simp
  then show n: "labs (st_tx demo_stext) ld = None" for ld by (simp add: labeldesc_to_label_def)
  have "text_ok (st_tx demo_stext) \<and> no_checks (st_tx demo_stext) \<and> 0 < st_pc demo_stext" by code_simp
  moreover have "tx_label_lists demo_stext lt = []" for lt by (simp add: demo_stext_def)
  ultimately show "ready demo_stext" using n by (auto simp: ready_def tidy_def refs_apart_def refs_in_def)
qed

lemma demo_plain:
  assumes "target_var demo_long v" and "va_type v = demo_long" and "local_var v"
  shows "plain_stm (demo_block v ret)" and "stm_need (demo_block v ret) = 3" and "set (stm_vars (demo_block v ret)) = {v}"
  using assms
  by (auto simp: demo_block_def demo_x_def demo_int_def init_vars_def init_need_def plain_init_def is_folded_def ty_def word_expr_def
      word_type_def value_op_def relational_op_def demo_long_def ci_is_integral_def)

lemma demo_var_plain: "target_var demo_long demo_var" "va_type demo_var = demo_long" "local_var demo_var"
  by (simp_all add: target_var_def local_var_def demo_var_def demo_long_def IS_LOCAL_CLASS_def word_type_def)

lemmas demo_count_plain = demo_plain[OF demo_var_plain, of False]

definition demo_count_bytes :: "byte list" where
  "demo_count_bytes = opcode_bytes OC_TRAP
     @ opcode_bytes (OC_PUSH_STACKADDR SZ_B) @ [0] @ opcode_bytes (OC_CONSTPUSH SZ_B) @ [2] @ opcode_bytes (OC_ASSIGN A_LONG_LONG)
     @ opcode_bytes OC_JUMP @ [15, 0]
     @ opcode_bytes (OC_PUSH_STACKADDR SZ_B) @ [0] @ opcode_bytes (OC_PUSH_AT_STACKADDR LT_SLL SZ_B) @ [0]
     @ opcode_bytes (OC_CONSTPUSH SZ_B) @ [1] @ opcode_bytes (OC_ARITH AR_SUB N_WORD) @ opcode_bytes (OC_ASSIGN A_LONG_LONG)
     @ opcode_bytes (OC_PUSH_AT_STACKADDR LT_SLL SZ_B) @ [0] @ opcode_bytes (OC_CONSTPUSH SZ_B) @ [1]
     @ [12, 1]
     @ opcode_bytes OC_JUMP_IF_NON_ZERO @ [233, 255]"

lemma demo_count_compiles:
  "case compile_statement demo_cparams demo_stext demo_count of
     Some st \<Rightarrow> st_pc st = length demo_count_bytes \<and> take (st_pc st) (tx_text (st_tx st)) = map Some demo_count_bytes
   | None \<Rightarrow> False"
  by code_simp

text \<open>Writing and reading the variable.\<close>

lemma demo_store:
  assumes "region (fp + va_addr v) 8 \<subseteq> dom m" and "va_type v = demo_long"
  shows "\<exists>m'. var_store TY_LONG m fp v w = Some m' \<and> var_value m' fp v = Some w \<and> dom m' = dom m"
proof -
  obtain m' where m': "wr_word 8 m (fp + va_addr v) w = Some m'" using assms(1) wr_word_defined by blast
  show ?thesis using m' rd_word_same_8[OF m'] wr_word_dom[OF m'] assms(2)
    by (simp add: var_store_def store_nbytes_def var_value_def demo_long_def Let_def)
qed

lemmas demo_eval = is_folded_def ty_def ci_is_integral_def demo_cparams_def binop_value_def expr_signed_def signed_type_def

lemma demo_result:
  assumes "region (fp + va_addr v) 8 \<subseteq> dom m" and "va_type v = demo_long" and "IS_LOCAL_CLASS (va_class v)"
  shows "\<exists>m'. run_stm 9 demo_cparams fp (demo_block v ret) m = Some (if ret then Returned (Some 1) else Normal, m') \<and> rd_word 8 m' (fp + va_addr v) = Some 1"
proof -
  obtain m1 where m1: "var_store TY_LONG m fp v 2 = Some m1" "var_value m1 fp v = Some 2" "dom m1 = dom m"
    using demo_store[OF assms(1,2)] by blast
  obtain m2 where m2: "var_store TY_LONG m1 fp v 1 = Some m2" "var_value m2 fp v = Some 1"
    using demo_store[OF assms(1)[folded m1(3)] assms(2)] by blast
  have c: "ty_code demo_long = TY_LONG" by (simp add: demo_long_def)
  have k: "signed_take_bit 31 (2 :: word64) = 2" "signed_take_bit 31 (1 :: word64) = 1" by code_simp+
  have s: "sint (2 :: word64) = 2" "sint (1 :: word64) = 1" by code_simp+
  have "run_stm 9 demo_cparams fp (demo_block v ret) m = Some (if ret then Returned (Some 1) else Normal, m2)"
    using m1 m2 c assms(2,3) by (simp add: eval_nat_numeral demo_block_def demo_x_def demo_int_def run_opt_def demo_eval k s)
  moreover have "rd_word 8 m2 (fp + va_addr v) = Some 1" using m2(2) assms(2) by (simp add: var_value_def demo_long_def Let_def)
  ultimately show ?thesis by blast
qed

theorem compiled_statement_runs_witness:
  "\<exists>st' \<sigma>'. compile_statement demo_cparams demo_stext demo_count = Some st' \<and> steps demo_env ((demo_state demo_count_bytes)\<lparr>x_pc := 0x2802\<rparr>) \<sigma>'
     \<and> x_pc \<sigma>' = 0x2827 \<and> rd_word 8 (x_mem \<sigma>') 0x2100 = Some 1"
proof -
  let ?s = "(demo_state demo_count_bytes)\<lparr>x_pc := 0x2802\<rparr>"
  obtain st' where c: "compile_statement demo_cparams demo_stext demo_count = Some st'"
    and t: "st_pc st' = length demo_count_bytes" "take (length demo_count_bytes) (tx_text (st_tx st')) = map Some demo_count_bytes"
    using demo_count_compiles by (auto split: option.split_asm)
  have 39: "length demo_count_bytes = 39" by (simp add: demo_count_bytes_def)
  obtain m' where r: "run_stm 9 demo_cparams (x_fp ?s) demo_count (x_mem ?s) = Some (Normal, m')" "rd_word 8 m' 0x2100 = Some 1"
    using demo_result[of "x_fp ?s" demo_var "x_mem ?s" False] demo_var_plain demo_mapped[of "0x2100" 8 demo_count_bytes] by (auto simp: demo_state_def demo_var_def IS_LOCAL_CLASS_def)
  have pc: "st_pc demo_stext = 2" by code_simp
  have rd: "ready demo_stext" "labs (st_tx demo_stext) ld = None" for ld
    using demo_stext_ready by simp_all
  have l: "loaded (st_tx st') 0x2800 (st_pc demo_stext) (st_pc st') (x_mem ?s)"
    using demo_loaded[OF t(2)] 39 t(1) by (simp add: loaded_def demo_state_def)
  have sb: "x \<in> stack_bytes 0x2000 3 \<longleftrightarrow> 0x1fe8 \<le> unat x \<and> unat x < 0x2000" for x using stack_bytes_iff[of 3 "0x2000" x] by simp
  have vr: "x \<in> region (x_fp ?s + va_addr demo_var) 8 \<longleftrightarrow> 0x2100 \<le> unat x \<and> unat x < 0x2108" for x
    using region_iff[of "0x2100" 8 x] by (simp add: demo_state_def demo_var_def)
  have ad: "unat (0x2800 + of_nat i :: addr) = 0x2800 + i" if "i < st_pc st'" for i
    using that unat_plus_no_wrap[of "0x2800" i] 39 t(1) by simp
  have sp: "x_sp ?s = 0x2000" "x_pc ?s = 0x2800 + of_nat (st_pc demo_stext)" by (simp_all add: demo_state_def pc)
  have ss: "stack_space ?s (8 * stm_need demo_count)" using demo_space[of 24 demo_count_bytes] by (simp add: demo_count_plain(2) stack_space_def)
  have v: "i < st_pc st' \<Longrightarrow> 0x2800 + of_nat i \<notin> stack_bytes (x_sp ?s) (stm_need demo_count)"
      "w \<in> set (stm_vars demo_count) \<Longrightarrow> region (x_fp ?s + va_addr w) 8 \<inter> stack_bytes (x_sp ?s) (stm_need demo_count) = {}"
      "w \<in> set (stm_vars demo_count) \<Longrightarrow> i < st_pc st' \<Longrightarrow> 0x2800 + of_nat i \<notin> region (x_fp ?s + va_addr w) 8" for i w
    using vr ad[of i] unfolding demo_count_plain(2,3) sp(1) by (auto simp: sb)
  obtain s' where s': "steps demo_env ?s s'" "x_pc s' = 0x2800 + of_nat (st_pc st')" "keeps (stack_bytes 0x2000 3) (?s\<lparr>x_mem := m'\<rparr>) s'"
    using compiled_statement_runs[OF demo_count_plain(1) c rd l sp(2) ss v(1-3) r(1), of demo_env]
    unfolding demo_count_plain(2) sp(1) finished_def by auto
  have "rd_word 8 (x_mem s') 0x2100 = rd_word 8 m' 0x2100"
    using s'(3) region_iff[of "0x2100" 8] by (intro rd_word_cong) (auto simp: keeps_def sb)
  with c s' r(2) 39 t(1) show ?thesis by auto
qed

end
