(* ===== verification/Ups_Func_Correct.thy ===== *)
theory Ups_Func_Correct
  imports Ups_Stmt_Correct
begin

text \<open>
  Whole functions: what laying out the frame leaves of the code buffer, the parts of the code of a function, and the
  machine from its entry through \<open>OC_LINK\<close>, the body and \<open>OC_RET_WORD\<close> back to the caller.
\<close>

section \<open>What the layout of a frame does to the code buffer\<close>

text \<open>Nothing but the list of variables and the stack counters is different.\<close>

definition same_code :: "text_t \<Rightarrow> text_t \<Rightarrow> bool" where
  "same_code a b \<longleftrightarrow> tx_pc b = tx_pc a \<and> cells b = cells a \<and> labs b = labs a \<and> tx_flags b = tx_flags a \<and> (text_ok a \<longrightarrow> text_ok b)"

lemma same_code_refl: "same_code a a" by (simp add: same_code_def)

lemma same_code_trans: "same_code a b \<Longrightarrow> same_code b c \<Longrightarrow> same_code a c" by (simp add: same_code_def)

lemma same_code_sp: "same_code a (a\<lparr>tx_sp := x\<rparr>)" "same_code a (a\<lparr>tx_max_sp := x\<rparr>)"
  by (auto simp: same_code_def cells_def labeldesc_to_label_def text_ok_def fun_eq_iff)

lemma add_to_vlist_same: "add_to_vlist tx v = Some tx' \<Longrightarrow> same_code tx tx'"
  by (auto simp: add_to_vlist_def same_code_def cells_def labeldesc_to_label_def text_ok_def fun_eq_iff split: if_split_asm)

lemma set_var_addrs_same: "set_var_addrs bt tx vs a d = Some (vs', e, tx') \<Longrightarrow> same_code tx tx'"
proof (induction vs arbitrary: tx a vs' e)
  case (Cons v vs)
  show ?case
  proof (cases "d \<noteq> (va_class v = CL_ARG) \<or> IS_LOCAL_CLASS (va_class v)")
    case True
    then obtain vs'' a' where "set_var_addrs bt tx vs a' d = Some (vs'', e, tx')"
      using Cons.prems by (auto simp: bind_Some_iff Let_def split: if_split_asm)
    then show ?thesis by (rule Cons.IH)
  next
    case False
    then obtain t vs'' where t: "add_to_vlist tx v = Some t" "set_var_addrs bt t vs a d = Some (vs'', e, tx')"
      using Cons.prems by (auto simp: bind_Some_iff)
    then show ?thesis using same_code_trans[OF add_to_vlist_same[OF t(1)] Cons.IH[OF t(2)]] by simp
  qed
qed (simp add: same_code_refl)

lemma assign_local_addrs_same: "assign_local_addrs bt tx bls base mx = Some (bls', e, tx') \<Longrightarrow> same_code tx tx'"
proof (induction bt tx bls base mx arbitrary: bls' e tx' rule: assign_local_addrs.induct)
  case (2 bt tx vs bs bls base mx)
  obtain vs' a t1 bs' a2 t2 bls2 where s: "set_var_addrs bt tx vs base False = Some (vs', a, t1)" "assign_local_addrs bt t1 bs a a = Some (bs', a2, t2)"
      "assign_local_addrs bt t2 bls base (if a2 > mx then a2 else mx) = Some (bls2, e, tx')"
    using 2(3) by (auto simp: bind_Some_iff)
  note x = set_var_addrs_same[OF s(1)]
  have y: "same_code t1 t2" by (rule 2(1)[OF s(1) _ _ s(2)]) simp_all
  have z: "same_code t2 tx'" by (rule 2(2)[OF s(1) _ _ s(2) _ _ s(3)]) simp_all
  from x y z show ?case using same_code_trans by blast
qed (simp add: same_code_refl)

lemma set_local_addrs_same: "set_local_addrs bt tx b = Some (b', tx') \<Longrightarrow> same_code tx tx'"
  using same_code_trans[OF assign_local_addrs_same same_code_sp(1)] by (auto simp: set_local_addrs_def bind_Some_iff Let_def)

section \<open>Functions\<close>

text \<open>The blocks of a function with their addresses, and the size of its frame.\<close>

definition func_layout :: "cparams \<Rightarrow> stext_t \<Rightarrow> func_t \<Rightarrow> (block_t \<times> word64) option" where
  "func_layout cp st f =
     (case fu_blocks f of
        [b] \<Rightarrow> do {
          b \<leftarrow> set_parameter_addrs (cp_bool_type cp) (st_tx st) (fu_type f) b;
          (b, tx) \<leftarrow> set_local_addrs (cp_bool_type cp) (st_tx st) b;
          Some (b, tx_sp tx) }
      | _ \<Rightarrow> None)"

text \<open>The body of a function with the addresses of its variables.\<close>

definition func_body :: "block_t \<Rightarrow> func_t \<Rightarrow> statement_t" where
  "func_body b f = place_stm (place (block_vars b)) (fu_statement f)"

text \<open>Nothing has been compiled yet but whole functions.\<close>

definition between_functions :: "stext_t \<Rightarrow> bool" where
  "between_functions st \<longleftrightarrow> text_ok (st_tx st) \<and> no_checks (st_tx st) \<and> 0 < st_pc st
     \<and> (\<forall>ld. labs (st_tx st) ld = None) \<and> (\<forall>lt. tx_label_lists st lt = [])"

lemma stm_code_cong:
  assumes "stm_code cp f s p q brk cont" and "\<And>i. p \<le> i \<Longrightarrow> g i = f i"
  shows "stm_code cp g s p q brk cont"
proof -
  have "agrees g T p b" if "agrees f T p b" for T b
    using that assms(2) by (auto simp: agrees_def jumps_to_def has_code_def)
  with assms(1) show ?thesis unfolding stm_code_def by blast
qed

lemma pc_gap: "labs (tx\<lparr>tx_pc := p\<rparr>) = labs tx" "cells (tx\<lparr>tx_pc := p\<rparr>) = cells tx" "text_ok (tx\<lparr>tx_pc := p\<rparr>) = text_ok tx"
  by (auto simp: cells_def labeldesc_to_label_def text_ok_def fun_eq_iff)

lemma between_ready:
  assumes "text_ok tx" and "no_checks tx" and "0 < tx_pc tx" and "\<And>ld. labs tx ld = None" and "\<And>lt. tx_label_lists st lt = []" and "st_tx st = tx"
  shows "ready st"
  using assms by (auto simp: ready_def tidy_def refs_apart_def refs_in_def)

text \<open>The parts of the code of a function: \<open>OC_LINK\<close> with the size of the frame, the stack its expressions take, and the body.\<close>

lemma compile_func_code:
  assumes "compile_func cp st f = Some (st', f')" and "between_functions st" and "func_layout cp st f = Some (b, n)"
    and "flow_stm (func_body b f)"
  obtains q r extra where "stm_code cp (cells (st_tx st')) (func_body b f) q (st_pc st') brk cont"
    and "q = r + 4" and "st_pc st + 2 \<le> r" and "q \<le> st_pc st'"
    and "has_code (cells (st_tx st')) (st_pc st) (opcode_bytes (OC_LINK (form_of n)) @ operand_bytes n @ bytes_of 4 extra)"
    and "r = st_pc st + 2 + length (operand_bytes n)" and "extra = tx_max_sp (st_tx st') - n" and "between_functions st'"
proof -
  obtain b0 where b0: "fu_blocks f = [b0]" using assms(3) by (auto simp: func_layout_def split: list.split_asm)
  obtain b1 t1 where l: "set_parameter_addrs (cp_bool_type cp) (st_tx st) (fu_type f) b0 = Some b1"
      "set_local_addrs (cp_bool_type cp) (st_tx st) b1 = Some (b, t1)" "tx_sp t1 = n"
    using assms(3) by (auto simp: func_layout_def b0 bind_Some_iff)
  let ?t1 = "t1\<lparr>tx_max_sp := tx_sp t1\<rparr>"
  obtain t2 u t3 w where c: "ci_code_generic_opcode ?t1 (OC_LINK SZ_B) n = Some t2"
      "compile_statement cp (st\<lparr>st_tx := t2\<lparr>tx_pc := tx_pc t2 + 4\<rparr>\<rparr>) (func_body b f) = Some u"
      "ci_code_long ((st_tx u)\<lparr>tx_pc := tx_pc t2\<rparr>) (tx_max_sp (st_tx u) - tx_sp t2) = Some t3"
      "w = u\<lparr>st_tx := t3\<lparr>tx_pc := st_pc u\<rparr>, tx_lnos := []\<rparr>" "pop_goto_labels (length (tx_label_lists w LT_GOTO)) w = Some st'"
    using assms(1) l by (auto simp: compile_func_def b0 func_body_def bind_Some_iff Let_def)
  have sc: "same_code (st_tx st) ?t1" using same_code_trans[OF set_local_addrs_same[OF l(2)] same_code_sp(2)] .
  note bf = assms(2)[unfolded between_functions_def]
  have ok1: "text_ok ?t1" "no_checks ?t1" "\<And>ld. labs ?t1 ld = None" "tx_pc ?t1 = st_pc st" using sc bf by (simp_all add: same_code_def)
  have e2: "emits ?t1 (opcode_bytes (OC_LINK (form_of n)) @ operand_bytes n) t2" using generic_emits[of OC_LINK ?t1 n t2] c(1) ok1 by simp
  have l2: "lext ?t1 t2" using grows_generic[OF lext_refl[OF ok1(1)]] c(1) by (simp add: grows_def)
  let ?u = "st\<lparr>st_tx := t2\<lparr>tx_pc := tx_pc t2 + 4\<rparr>\<rparr>"
  have n2: "\<And>ld. labs t2 ld = None" "no_checks t2" "text_ok t2" using l2 ok1 by (simp_all add: lext_def ext_def)
  have r: "ready ?u" by (rule between_ready) (use n2 bf pc_gap in simp_all)
  have nl: "labs (st_tx ?u) ld = None" for ld using n2(1) by (simp add: pc_gap)
  note sm = closed_stm_code[OF c(2) assms(4) r nl]
  note w = well_compiledD[OF flow_well_compiled[OF assms(4)] c(2) r]
  have u: "text_ok (st_tx u)" "no_checks (st_tx u)" "tx_pc t2 + 4 \<le> st_pc u" "\<And>lt. tx_label_lists u lt = []"
    using w bf by (simp_all add: ready_def tidy_def grown_def)
  have e3: "emits ((st_tx u)\<lparr>tx_pc := tx_pc t2\<rparr>) (bytes_of 4 (tx_max_sp (st_tx u) - tx_sp t2)) t3" "text_frame t3 = text_frame ((st_tx u)\<lparr>tx_pc := tx_pc t2\<rparr>)"
    using code_seq_emits[of "(st_tx u)\<lparr>tx_pc := tx_pc t2\<rparr>" "bytes_of 4 (tx_max_sp (st_tx u) - tx_sp t2)" t3] c(3) u(1)
    by (simp_all add: ci_code_seqs pc_gap)
  have st': "st' = w" using c(4,5) u(4) by simp
  let ?extra = "tx_max_sp (st_tx st') - n"
  have sp: "tx_sp t2 = n" using generic_sp[of OC_LINK ?t1 n t2] c(1) ok1(1) l(3) by simp
  have fr: "labs t3 = labs (st_tx u)" "tx_flags t3 = tx_flags (st_tx u)" "tx_max_sp t3 = tx_max_sp (st_tx u)"
    using labels_of_frame[OF e3(2)] arg_cong[OF e3(2), of tx_max_sp] by (simp_all add: labeldesc_to_label_def fun_eq_iff text_frame_def)
  have tx': "st_tx st' = t3\<lparr>tx_pc := st_pc u\<rparr>" "\<And>lt. tx_label_lists st' lt = []" using c(4) u(4) by (simp_all add: st')
  have extra: "?extra = tx_max_sp (st_tx u) - tx_sp t2" using fr(3) sp tx' by simp
  have cl: "cells (st_tx st') = overlay (cells (st_tx u)) (tx_pc t2) (bytes_of 4 ?extra)"
    using e3(1) extra by (simp add: tx' pc_gap emits_def)
  have early: "cells (st_tx u) i = cells t2 i" if "i < tx_pc t2" for i
  proof -
    have "agrees (cells (st_tx u)) id 0 (st_tx ?u)" using grown_agrees[OF w(1) agrees_closed[OF sm(2)]] .
    moreover have "i \<notin> pending (st_tx ?u)" using n2(1) by (simp add: pending_def refs_in_def pc_gap)
    ultimately show ?thesis using that by (simp add: agrees_def pc_gap)
  qed
  let ?hd = "opcode_bytes (OC_LINK (form_of n)) @ operand_bytes n"
  have pc2: "tx_pc t2 = st_pc st + length ?hd" using e2 ok1(4) by (simp add: emits_def)
  have "has_code (cells (st_tx st')) (st_pc st) ?hd"
  proof (rule has_code_emits[OF e2, unfolded ok1(4)])
    fix i assume "st_pc st \<le> i" "i < tx_pc t2"
    then show "cells (st_tx st') i = cells t2 i" using early[of i] by (simp add: cl overlay_def)
  qed
  moreover have "has_code (cells (st_tx st')) (tx_pc t2) (bytes_of 4 ?extra)" by (simp add: has_code_def cl overlay_inside)
  ultimately have hc: "has_code (cells (st_tx st')) (st_pc st) (opcode_bytes (OC_LINK (form_of n)) @ operand_bytes n @ bytes_of 4 ?extra)"
    unfolding append_assoc[symmetric] by (simp only: has_code_append[of _ _ ?hd] pc2[symmetric])
  have bc: "stm_code cp (cells (st_tx st')) (func_body b f) (tx_pc t2 + 4) (st_pc st') brk cont"
  proof (rule stm_code_cong)
    show "stm_code cp (cells (st_tx u)) (func_body b f) (tx_pc t2 + 4) (st_pc st') brk cont" using sm(1)[of brk cont] by (simp add: tx')
  qed (simp add: cl overlay_def)
  have btw: "between_functions st'"
    using e3(1) fr u bf tx' sm(2) c(4) unfolding between_functions_def
    by (simp add: pc_gap emits_def)
  show thesis by (rule that[OF bc _ _ _ hc]) (use pc2 u(3) btw tx' in simp_all)
qed

lemma link_step:
  assumes "code_at (x_mem s) (x_pc s) (opcode_bytes (OC_LINK (form_of n)))" and "wr_word 8 (x_mem s) (x_sp s - 8) (x_fp s) = Some m"
    and "code_at m (x_pc s + 2) (operand_bytes n @ bytes_of 4 extra)" and "e_minsp e \<le> x_sp s - 8 - n - take_bit 32 extra"
  shows "\<exists>s'. step e s = Some (Next s') \<and> x_mem s' = m \<and> x_fp s' = x_sp s - 8 \<and> x_sp s' = x_sp s - 8 - n
    \<and> x_pc s' = x_pc s + 2 + of_nat (length (operand_bytes n)) + 4"
proof -
  let ?t = "count_opcode (OC_LINK (form_of n)) (skip_text 2 s)"
  let ?u = "?t\<lparr>x_mem := m, x_sp := x_sp s - 8, x_fp := x_sp s - 8\<rparr>"
  have p: "push (x_fp ?t) ?t = Some (?t\<lparr>x_mem := m, x_sp := x_sp s - 8\<rparr>)" using assms(2) by (simp add: push_def)
  have c: "code_at (x_mem ?u) (x_pc ?u) (operand_bytes n)" "code_at m (x_pc s + 2 + of_nat (length (operand_bytes n))) (bytes_of 4 extra)"
    using assms(3) by (simp_all add: code_at_append)
  have l: "length (operand_bytes n) = isz_nbytes (form_of n)" by (simp add: length_operand_bytes split: isz.split)
  have f: "fetch (form_of n) ?u = Some (n, skip_text (length (operand_bytes n)) ?u)"
    using fetch_at[OF c(1) l] by (simp add: word_of_operand_bytes l)
  have t: "text_at SZ_L (skip_text (length (operand_bytes n)) ?u\<lparr>x_sp := x_sp s - 8 - n\<rparr>) = Some (take_bit 32 extra)"
    using c(2) by (simp add: text_at_def code_at_def rd_word_def word_of_bytes_of algebra_simps)
  show ?thesis using step_at[OF assms(1), of e] p f t assms(4) by (simp add: exec_link_def Let_def)
qed

lemma ret_word_step:
  assumes "code_at (x_mem s) (x_pc s) (opcode_bytes OC_RET_WORD)" and "top_is v s" and "frame_at (x_mem s) (x_fp s) fp pc cf"
  shows "\<exists>s'. step e s = Some (Next s') \<and> x_pc s' = pc \<and> x_sp s' = x_fp s + 24 \<and> x_fp s' = fp \<and> x_cf s' = cf \<and> x_retval s' = v
    \<and> x_mem s' = x_mem s"
proof -
  let ?t = "(count_opcode OC_RET_WORD (skip_text 2 s))\<lparr>x_retval := v\<rparr>"
  have "unlink ?t = Some (?t\<lparr>x_sp := x_fp ?t + 24, x_fp := fp, x_pc := pc, x_cf := cf\<rparr>)" by (rule unlink_frame) (use assms(3) in simp)
  then show ?thesis using step_at[OF assms(1), of e] assms(2) by (simp add: exec_ret_word_def exec_ret_def stk_def top_is_def)
qed

lemma code_at_loaded:
  assumes "loaded tx base lo hi m" and "has_code (cells tx) p bs" and "lo \<le> p" and "p + length bs \<le> hi"
  shows "code_at m (base + of_nat p) bs"
  unfolding code_at_pointwise
proof (intro allI impI)
  fix i assume i: "i < length bs"
  then have "lo \<le> p + i \<and> p + i < hi" using assms(3,4) by simp
  then have "m (base + of_nat (p + i)) = cells tx (p + i)" using assms(1) unfolding loaded_def by blast
  moreover have "cells tx (p + i) = Some (bs ! i)" using assms(2) i by (simp add: has_code_def)
  ultimately show "m (base + of_nat p + of_nat i) = Some (bs ! i)" by (simp add: algebra_simps)
qed

text \<open>C1.  Functions are compiled correctly.  Take a function whose body is made of such statements, compiled and loaded,
  and a machine at its entry with the return address and the code file on the stack and enough room for the frame, for
  its expressions and for the check of \<open>OC_LINK\<close>.  If the body, run in the frame that \<open>OC_LINK\<close> makes, returns
  a value, then the machine gets back to the return address with that value as the result, the caller's frame
  pointer, code file and stack, and with the memory the body left, up to the scratch words below the frame.\<close>

theorem compiled_function_returns:
  assumes "compile_func cp st f = Some (st', f')" and "between_functions st" and "func_layout cp st f = Some (b, n)" and "plain_stm (func_body b f)"
    and "loaded (st_tx st') base (st_pc st) (st_pc st') (x_mem \<sigma>)" and "x_pc \<sigma> = base + of_nat (st_pc st)"
    and "rd_word 8 (x_mem \<sigma>) (x_sp \<sigma>) = Some ret" and "rd_word 8 (x_mem \<sigma>) (x_sp \<sigma> + 8) = Some cf" and "unat (x_sp \<sigma>) + 16 < 2 ^ 64"
    and "wr_word 8 (x_mem \<sigma>) (x_sp \<sigma> - 8) (x_fp \<sigma>) = Some m"
    and "stack_space \<sigma> (8 + unat n + 8 * stm_need (func_body b f))"
    and "e_minsp env \<le> x_sp \<sigma> - 8 - n - take_bit 32 (tx_max_sp (st_tx st') - n)"
    and "\<And>i. st_pc st \<le> i \<Longrightarrow> i < st_pc st' \<Longrightarrow>
      base + of_nat i \<notin> region (x_sp \<sigma> - 8) 8 \<and> base + of_nat i \<notin> stack_bytes (x_sp \<sigma> - 8 - n) (stm_need (func_body b f))"
    and "\<And>v. v \<in> set (stm_vars (func_body b f)) \<Longrightarrow> region (x_sp \<sigma> - 8 + va_addr v) 8 \<inter> region (x_sp \<sigma> - 8) 24 = {}
      \<and> region (x_sp \<sigma> - 8 + va_addr v) 8 \<inter> stack_bytes (x_sp \<sigma> - 8 - n) (stm_need (func_body b f)) = {}"
    and "\<And>v i. v \<in> set (stm_vars (func_body b f)) \<Longrightarrow> st_pc st \<le> i \<Longrightarrow> i < st_pc st' \<Longrightarrow> base + of_nat i \<notin> region (x_sp \<sigma> - 8 + va_addr v) 8"
    and "run_stm j cp (x_sp \<sigma> - 8) (func_body b f) m = Some (Returned (Some v), m')"
  shows "\<exists>\<sigma>'. steps env \<sigma> \<sigma>' \<and> x_pc \<sigma>' = ret \<and> x_sp \<sigma>' = x_sp \<sigma> + 16 \<and> x_fp \<sigma>' = x_fp \<sigma> \<and> x_cf \<sigma>' = cf \<and> x_retval \<sigma>' = v
    \<and> (\<forall>x. x \<notin> stack_bytes (x_sp \<sigma> - 8 - n) (stm_need (func_body b f)) \<longrightarrow> x_mem \<sigma>' x = m' x)"
proof -
  let ?body = "func_body b f" and ?fp = "x_sp \<sigma> - 8"
  let ?k = "stm_need ?body"
  let ?S = "stack_bytes (?fp - n) ?k"
  let ?F = "cells (st_tx st')"
  obtain q r extra where c: "stm_code cp ?F ?body q (st_pc st') 0 0" "q = r + 4" "st_pc st + 2 \<le> r" "q \<le> st_pc st'"
      "has_code ?F (st_pc st) (opcode_bytes (OC_LINK (form_of n)) @ operand_bytes n @ bytes_of 4 extra)"
      "r = st_pc st + 2 + length (operand_bytes n)" "extra = tx_max_sp (st_tx st') - n"
    by (rule compile_func_code[OF assms(1-3) plain_flow[OF assms(4)], of 0 0]) (rule that; assumption)
  have code_m: "m (base + of_nat i) = x_mem \<sigma> (base + of_nat i)" if "st_pc st \<le> i" "i < st_pc st'" for i
    using wr_word_elsewhere[OF assms(10)] assms(13)[OF that] by blast
  have lm: "loaded (st_tx st') base (st_pc st) (st_pc st') m" using assms(5) code_m by (simp add: loaded_def)
  have hd: "has_code ?F (st_pc st) (opcode_bytes (OC_LINK (form_of n)))" "has_code ?F (st_pc st + 2) (operand_bytes n @ bytes_of 4 extra)"
    using c(5) by (simp_all add: has_code_append)
  have a1: "code_at (x_mem \<sigma>) (x_pc \<sigma>) (opcode_bytes (OC_LINK (form_of n)))" "code_at m (x_pc \<sigma> + 2) (operand_bytes n @ bytes_of 4 extra)"
    using code_at_loaded[OF assms(5) hd(1)] code_at_loaded[OF lm hd(2)] c(2-4,6) assms(6) by (simp_all add: algebra_simps)
  have pq: "x_pc \<sigma> + 2 + of_nat (length (operand_bytes n)) + 4 = base + of_nat q" using assms(6) c(2,6) by simp
  obtain s1 where s1': "step env \<sigma> = Some (Next s1)" "x_mem s1 = m" "x_fp s1 = ?fp" "x_sp s1 = ?fp - n"
      "x_pc s1 = x_pc \<sigma> + 2 + of_nat (length (operand_bytes n)) + 4"
    using link_step[OF a1(1) assms(10) a1(2) assms(12)[folded c(7)]] by blast
  note s1 = s1'(1-4) s1'(5)[unfolded pq]
  let ?R = "\<lparr>r_env = env, r_code = ?F, r_base = base, r_lo = q, r_hi = st_pc st', r_room = ?k, r_start = s1, r_safe = region ?fp 24\<rparr>"
  have sp: "8 + unat n + 8 * ?k \<le> unat (x_sp \<sigma>)" using assms(11) by (simp add: stack_space_def)
  have u: "unat ?fp = unat (x_sp \<sigma>) - 8" "unat (?fp - n) = unat (x_sp \<sigma>) - 8 - unat n"
    using sp unat_minus_no_wrap[of 8 "x_sp \<sigma>"] unat_minus_no_wrap[of "unat n" ?fp] by simp_all
  have S: "x \<in> ?S \<longleftrightarrow> unat (x_sp \<sigma>) - 8 - unat n - 8 * ?k \<le> unat x \<and> unat x < unat (x_sp \<sigma>) - 8 - unat n" for x
    using stack_bytes_iff[of ?k "?fp - n" x] sp by (simp add: u)
  have "?S \<subseteq> region (x_sp \<sigma> - of_nat (8 + unat n + 8 * ?k)) (8 + unat n + 8 * ?k)"
  proof
    fix x assume "x \<in> ?S"
    then have "unat (x_sp \<sigma>) - (8 + unat n + 8 * ?k) \<le> unat x \<and> unat x < unat (x_sp \<sigma>)" by (auto simp: S)
    then show "x \<in> region (x_sp \<sigma> - of_nat (8 + unat n + 8 * ?k)) (8 + unat n + 8 * ?k)" by (rule stack_region[OF sp, THEN iffD2])
  qed
  then have dm: "?S \<subseteq> dom m" using assms(11) wr_word_dom[OF assms(10)] unfolding stack_space_def by blast
  have "code_ready ?F base q (st_pc st') ?k s1"
    unfolding code_ready_def stack_space_def
  proof (intro conjI allI impI)
    show "8 * ?k \<le> unat (x_sp s1)" using sp u by (simp add: s1)
    show "region (x_sp s1 - of_nat (8 * ?k)) (8 * ?k) \<subseteq> dom (x_mem s1)" using dm by (simp add: s1 stack_bytes_def)
    fix i assume i: "q \<le> i \<and> i < st_pc st'"
    then show "?F i \<noteq> None" "x_mem s1 (base + of_nat i) = ?F i" "base + of_nat i \<notin> stack_bytes (x_sp s1) ?k"
      using lm assms(13)[of i] c(2,3) by (simp_all add: s1 loaded_def)
  qed
  then have h: "holds_mem ?R (x_mem s1) s1" unfolding holds_mem_def by (simp add: keeps_refl)
  have ft: "fits ?R ?body" using assms(14,15) c(2,3) by (simp add: fits_in_def var_apart_def scratch_def s1)
  have "goes ?R s1 (Returned (Some v)) m' (st_pc st') 0 0"
    by (rule right_stmD[OF conjunct1[OF right_all] _ _ assms(4) ft _ h[unfolded s1(2)]]) (use assms(16) c(1) s1 in \<open>simp_all add: inside_def\<close>)
  then obtain s2 where s2: "steps env s1 s2" "keeps ?S (s1\<lparr>x_mem := m'\<rparr>) s2" "top_is v s2"
      "\<forall>x \<in> region ?fp 24. m' x = m x" "code_at (x_mem s2) (x_pc s2) (opcode_bytes OC_RET_WORD)"
    by (auto simp: goes_def ends_def returning_def scratch_def s1)
  have "region ?fp 24 \<inter> ?S = {}"
    using region_iff[of ?fp 24] assms(9) sp by (auto simp: S u)
  then have keep: "x_mem s2 x = m x" if "x \<in> region ?fp 24" for x using s2(2,4) that by (auto simp: keeps_def)
  have fm: "frame_at m ?fp (x_fp \<sigma>) ret cf"
    using rd_word_same_8[OF assms(10)] rd_word_other[OF assms(10) words_disjoint(1)] rd_word_other[OF assms(10) words_disjoint(2)] assms(7,8)
    by (simp add: frame_at_def add.commute)
  have "x_fp s2 = ?fp" using s2(2) by (simp add: keeps_def s1)
  then have "frame_at (x_mem s2) (x_fp s2) (x_fp \<sigma>) ret cf" using frame_at_cong[OF keep] fm by simp
  from ret_word_step[OF s2(5,3) this, of env] obtain s3 where s3: "step env s2 = Some (Next s3)" "x_pc s3 = ret" "x_sp s3 = x_fp s2 + 24"
      "x_fp s3 = x_fp \<sigma>" "x_cf s3 = cf" "x_retval s3 = v" "x_mem s3 = x_mem s2" by blast
  have "steps env \<sigma> s3" using steps_trans[OF steps_trans[OF steps_one[OF s1(1)] s2(1)] steps_one[OF s3(1)]] .
  moreover have "x_sp s3 = x_sp \<sigma> + 16" using s3(3) \<open>x_fp s2 = ?fp\<close> by simp
  moreover have "x_mem s3 x = m' x" if "x \<notin> ?S" for x using s2(2) s3(7) that by (simp add: keeps_def)
  ultimately show ?thesis using s3 by blast
qed

section \<open>An instance of a function\<close>

definition demo_func :: func_t where
  "demo_func = \<lparr>fu_name = ''f'', fu_type = Type DT_FUNC_RETURNING 0 (Some demo_long) 0 0 0 None, fu_addr = 2,
     fu_blocks = [Block [demo_var] []], fu_statement = demo_block demo_var True, fu_lnos = [], fu_static = False\<rparr>"

abbreviation demo_placed :: var_t where "demo_placed \<equiv> demo_var\<lparr>va_addr := - 8\<rparr>"

lemma demo_func_body: "func_layout demo_cparams demo_stext demo_func = Some (Block [demo_placed] [], 8)"
    "func_body (Block [demo_placed] []) demo_func = demo_block demo_placed True"
proof -
  show "func_layout demo_cparams demo_stext demo_func = Some (Block [demo_placed] [], 8)"
    by (simp add: func_layout_def demo_func_def set_parameter_addrs_def set_local_addrs_def demo_var_def demo_long_def demo_cparams_def
        IS_LOCAL_CLASS_def ci_align_addr_for_type_def ci_align_addr_def ci_effective_typecode_def)
  show "func_body (Block [demo_placed] []) demo_func = demo_block demo_placed True"
    by (simp add: func_body_def demo_func_def demo_block_def demo_x_def demo_int_def place_def demo_var_def)
qed

text \<open>The address \<open>-8\<close> takes all eight bytes of an operand.\<close>

definition demo_addr :: "byte list" where "demo_addr = [248, 255, 255, 255, 255, 255, 255, 255]"

definition demo_func_bytes :: "byte list" where
  "demo_func_bytes = opcode_bytes OC_TRAP @ opcode_bytes (OC_LINK SZ_B) @ [8] @ [24, 0, 0, 0]
     @ opcode_bytes (OC_PUSH_STACKADDR SZ_Q) @ demo_addr @ opcode_bytes (OC_CONSTPUSH SZ_B) @ [2] @ opcode_bytes (OC_ASSIGN A_LONG_LONG)
     @ opcode_bytes OC_JUMP @ [29, 0]
     @ opcode_bytes (OC_PUSH_STACKADDR SZ_Q) @ demo_addr @ opcode_bytes (OC_PUSH_AT_STACKADDR LT_SLL SZ_Q) @ demo_addr
     @ opcode_bytes (OC_CONSTPUSH SZ_B) @ [1] @ opcode_bytes (OC_ARITH AR_SUB N_WORD) @ opcode_bytes (OC_ASSIGN A_LONG_LONG)
     @ opcode_bytes (OC_PUSH_AT_STACKADDR LT_SLL SZ_Q) @ demo_addr @ opcode_bytes (OC_CONSTPUSH SZ_B) @ [1] @ [12, 1]
     @ opcode_bytes OC_JUMP_IF_NON_ZERO @ [212, 255]
     @ opcode_bytes (OC_PUSH_AT_STACKADDR LT_SLL SZ_Q) @ demo_addr @ opcode_bytes OC_RET_WORD"

lemma demo_func_compiles:
  "case compile_func demo_cparams demo_stext demo_func of
     Some (st, f) \<Rightarrow> st_pc st = length demo_func_bytes \<and> take (st_pc st) (tx_text (st_tx st)) = map Some demo_func_bytes
       \<and> tx_max_sp (st_tx st) = 32
   | None \<Rightarrow> False"
  by code_simp

lemma demo_between: "between_functions demo_stext"
proof -
  have "text_ok (st_tx demo_stext) \<and> no_checks (st_tx demo_stext) \<and> 0 < st_pc demo_stext" by code_simp
  then show ?thesis using demo_stext_ready(2) by (simp add: between_functions_def) (simp add: demo_stext_def)
qed

lemma demo_placed_plain: "target_var demo_long demo_placed" "va_type demo_placed = demo_long" "local_var demo_placed"
  using demo_var_plain by (simp_all add: target_var_def local_var_def)

lemmas demo_func_plain = demo_plain[OF demo_placed_plain, of True]

text \<open>The machine at the entry of the function, called from \<open>0x2900\<close>.\<close>

definition demo_entry :: "unit mstate" where
  "demo_entry = (demo_poke [(0x2000, 0x2900), (0x2008, 7)] (demo_state demo_func_bytes))\<lparr>x_pc := 0x2802\<rparr>"

lemma demo_entry_mem:
  "rd_word 8 (x_mem demo_entry) 0x2000 = Some 0x2900" "rd_word 8 (x_mem demo_entry) 0x2008 = Some 7"
  "dom (x_mem demo_entry) = dom (demo_mem demo_func_bytes)"
  "\<And>x. x \<notin> region 0x2000 8 \<Longrightarrow> x \<notin> region 0x2008 8 \<Longrightarrow> x_mem demo_entry x = demo_mem demo_func_bytes x"
  "x_sp demo_entry = 0x2000" "x_fp demo_entry = 0x2100" "x_pc demo_entry = 0x2802"
proof -
  let ?m = "demo_mem demo_func_bytes"
  have "region 0x2000 8 \<subseteq> dom ?m" by (rule demo_mapped) simp_all
  then obtain m1 where m1: "wr_word 8 ?m 0x2000 0x2900 = Some m1" using wr_word_defined by blast
  have "region 0x2008 8 \<subseteq> dom m1" unfolding wr_word_dom[OF m1] by (rule demo_mapped) simp_all
  then obtain m2 where m2: "wr_word 8 m1 0x2008 7 = Some m2" using wr_word_defined by blast
  have e: "x_mem demo_entry = m2" using m1 m2 by (simp add: demo_entry_def demo_state_def)
  show "rd_word 8 (x_mem demo_entry) 0x2008 = Some 7" using rd_word_same_8[OF m2] by (simp add: e)
  show "rd_word 8 (x_mem demo_entry) 0x2000 = Some 0x2900"
    using rd_word_same_8[OF m1] rd_word_other[OF m2, of "0x2000" 8] words_disjoint(1)[of "0x2000"] by (simp add: e Int_commute)
  show "dom (x_mem demo_entry) = dom ?m" using wr_word_dom[OF m1] wr_word_dom[OF m2] by (simp add: e)
  show "x_mem demo_entry x = ?m x" if "x \<notin> region 0x2000 8" "x \<notin> region 0x2008 8" for x
    using wr_word_elsewhere[OF m1 that(1)] wr_word_elsewhere[OF m2 that(2)] by (simp add: e)
  show "x_sp demo_entry = 0x2000" "x_fp demo_entry = 0x2100" "x_pc demo_entry = 0x2802" by (simp_all add: demo_entry_def demo_state_def)
qed

theorem compiled_function_returns_witness:
  "\<exists>st' f' \<sigma>'. compile_func demo_cparams demo_stext demo_func = Some (st', f') \<and> steps demo_env demo_entry \<sigma>'
     \<and> x_pc \<sigma>' = 0x2900 \<and> x_sp \<sigma>' = 0x2010 \<and> x_fp \<sigma>' = 0x2100 \<and> x_cf \<sigma>' = 7 \<and> x_retval \<sigma>' = 1"
proof -
  let ?s = demo_entry and ?b = "demo_block demo_placed True"
  obtain st' f' where c: "compile_func demo_cparams demo_stext demo_func = Some (st', f')"
    and t: "st_pc st' = length demo_func_bytes" "take (length demo_func_bytes) (tx_text (st_tx st')) = map Some demo_func_bytes"
      "tx_max_sp (st_tx st') = 32"
    using demo_func_compiles by (auto split: option.split_asm)
  have 86: "length demo_func_bytes = 86" by (simp add: demo_func_bytes_def demo_addr_def)
  have pc: "st_pc demo_stext = 2" by code_simp
  note e = demo_entry_mem(5-7)
  have "region 0x1ff8 8 \<subseteq> dom (x_mem ?s)" unfolding demo_entry_mem(3) by (rule demo_mapped) simp_all
  then obtain m where "wr_word 8 (x_mem ?s) 0x1ff8 0x2100 = Some m" using wr_word_defined by blast
  then have m: "wr_word 8 (x_mem ?s) (x_sp ?s - 8) (x_fp ?s) = Some m" by (simp add: e)
  have "region (x_sp ?s - 8 + va_addr demo_placed) 8 \<subseteq> dom m"
    unfolding wr_word_dom[OF m] demo_entry_mem(3) by (rule demo_mapped) (simp_all add: e)
  from demo_result[OF this demo_placed_plain(2), of True]
  obtain m' where r: "run_stm 9 demo_cparams (x_sp ?s - 8) ?b m = Some (Returned (Some 1), m')" by (auto simp: demo_var_def IS_LOCAL_CLASS_def)
  have ad: "unat (0x2800 + of_nat i :: addr) = 0x2800 + i" if "i < st_pc st'" for i
    using that unat_plus_no_wrap[of "0x2800" i] 86 t(1) by simp
  have reg: "x \<in> region 0x2000 8 \<longleftrightarrow> 0x2000 \<le> unat x \<and> unat x < 0x2008" "x \<in> region 0x2008 8 \<longleftrightarrow> 0x2008 \<le> unat x \<and> unat x < 0x2010"
      "x \<in> region 0x1ff8 8 \<longleftrightarrow> 0x1ff8 \<le> unat x \<and> unat x < 0x2000" "x \<in> region 0x1ff8 24 \<longleftrightarrow> 0x1ff8 \<le> unat x \<and> unat x < 0x2010"
      "x \<in> region 0x1ff0 8 \<longleftrightarrow> 0x1ff0 \<le> unat x \<and> unat x < 0x1ff8" "x \<in> stack_bytes 0x1ff0 3 \<longleftrightarrow> 0x1fd8 \<le> unat x \<and> unat x < 0x1ff0" for x :: addr
    using region_iff[of "0x2000" 8 x] region_iff[of "0x2008" 8 x] region_iff[of "0x1ff8" 8 x] region_iff[of "0x1ff8" 24 x]
      region_iff[of "0x1ff0" 8 x] stack_bytes_iff[of 3 "0x1ff0" x] by simp_all
  have l: "loaded (st_tx st') 0x2800 (st_pc demo_stext) (st_pc st') (x_mem ?s)"
    using demo_loaded[OF t(2)] 86 t(1) demo_entry_mem(4) ad unfolding loaded_def reg by simp
  have ss: "stack_space ?s (8 + unat (8 :: word64) + 8 * stm_need ?b)"
    using demo_space[of 40 demo_func_bytes] e(1) by (simp add: demo_func_plain(2) stack_space_def demo_entry_mem(3)) (simp add: demo_state_def)
  have code: "0x2800 + of_nat i \<notin> region (x_sp ?s - 8) 8 \<and> 0x2800 + of_nat i \<notin> stack_bytes (x_sp ?s - 8 - 8) (stm_need ?b)" if "i < st_pc st'" for i
    using ad[OF that] unfolding demo_func_plain(2) by (simp add: e reg)
  have vars: "region (x_sp ?s - 8 + va_addr w) 8 \<inter> region (x_sp ?s - 8) 24 = {}
      \<and> region (x_sp ?s - 8 + va_addr w) 8 \<inter> stack_bytes (x_sp ?s - 8 - 8) (stm_need ?b) = {}" if "w \<in> set (stm_vars ?b)" for w
    using that unfolding demo_func_plain(2,3) by (auto simp: e reg)
  have vcode: "0x2800 + of_nat i \<notin> region (x_sp ?s - 8 + va_addr w) 8" if "w \<in> set (stm_vars ?b)" "i < st_pc st'" for i w
    using that ad[OF that(2)] unfolding demo_func_plain(3) by (auto simp: e reg)
  note th = compiled_function_returns[OF c demo_between demo_func_body(1), unfolded demo_func_body(2), OF demo_func_plain(1) l _ _ _ _ m ss _ code vars vcode r, of "0x2900" 7 demo_env]
  show ?thesis using th c demo_entry_mem(1,2) e t(3) by (auto simp: pc demo_env_def)
qed

end
