(* ===== verification/Ups_Layout.thy ===== *)
theory Ups_Layout
  imports Ups_Exec_Props Ups_Compile_Stmt
begin

text \<open>The stack frame the compiler lays out, \<open>set_var_addrs\<close>, \<open>assign_local_addrs\<close>, \<open>set_local_addrs\<close> and
  \<open>set_parameter_addrs\<close> of \<open>ci_compile.c\<close>: the variables of a block follow one another without overlap (\<open>packed\<close>),
  nested blocks continue after the variables of the block around them and blocks side by side share their space,
  so two variables that are in scope together are apart and inside the frame that the link instruction reserves.
  The parameters are in the slots where the caller pushes its arguments.\<close>

section \<open>Alignment\<close>

text \<open>Variables whose type has a size and a usable alignment.\<close>

definition sized_var :: "typecode_t \<Rightarrow> var_t \<Rightarrow> bool" where
  "sized_var bt v \<longleftrightarrow> (\<exists>n al. ci_typesize bt (va_type v) = Some n \<and> 0 \<le> n \<and> n < 2 ^ 31
     \<and> ci_type_alignment bt (va_type v) = Some al \<and> 0 < al \<and> al < 2 ^ 31)"

definition var_size :: "typecode_t \<Rightarrow> var_t \<Rightarrow> nat" where
  "var_size bt v = nat (the (ci_typesize bt (va_type v)))"

definition var_align :: "typecode_t \<Rightarrow> var_t \<Rightarrow> nat" where
  "var_align bt v = nat (the (ci_type_alignment bt (va_type v)))"

lemma small_int: "k < 2 ^ 31 \<Longrightarrow> signed_take_bit 31 (of_nat k :: word64) = of_nat k"
proof -
  assume k: "k < 2 ^ 31"
  then have "k div 2 ^ 31 = 0" by simp
  then have "\<not> bit k 31" by (simp add: bit_iff_odd)
  then have "\<not> bit (of_nat k :: word64) 31" by (simp add: bit_simps)
  then have "signed_take_bit 31 (of_nat k :: word64) = take_bit 31 (of_nat k)" by (rule signed_take_bit_eq_if_positive)
  also have "\<dots> = of_nat k" using k by (simp add: take_bit_nat_eq_self flip: of_nat_take_bit)
  finally show ?thesis .
qed

lemma word_mod: "unat (of_nat al :: word64) = al \<Longrightarrow> a mod (of_nat al :: word64) = of_nat (unat a mod al)"
proof -
  assume u: "unat (of_nat al :: word64) = al"
  have "unat (a mod of_nat al) = unat a mod al" unfolding unat_mod_distrib u ..
  then have "(of_nat (unat (a mod of_nat al)) :: word64) = of_nat (unat a mod al)" by (rule arg_cong)
  then show ?thesis by simp
qed

lemma small_nat: "k < 2 ^ 32 \<Longrightarrow> unat (of_nat k :: word64) = k"
  by (simp add: unat_of_nat)

lemma align_up:
  assumes "0 < al" and "al < 2 ^ 31"
  shows "\<exists>p. ci_align_addr a (int al) = Some (a + of_nat p) \<and> p < al \<and> (unat a + p) mod al = 0"
proof -
  let ?r = "unat a mod al"
  have r: "?r < al" using assms(1) by simp
  have u: "unat (of_nat al :: word64) = al" using assms(2) by (intro small_nat) simp
  have d: "of_int (int al) - a mod of_int (int al) = (of_nat (al - ?r) :: word64)"
    using r word_mod[OF u, of a] by (simp add: of_nat_diff)
  have p: "signed_take_bit 31 (of_int (int al) - a mod of_int (int al)) = (of_nat (al - ?r) :: word64)"
    unfolding d using assms(2) by (intro small_int) simp
  have "unat (of_nat (al - ?r) :: word64) = al - ?r" using assms(2) by (intro small_nat) simp
  then have e: "(of_nat (al - ?r) :: word64) = of_nat al \<longleftrightarrow> ?r = 0" using r u by (metis diff_zero diff_diff_cancel less_imp_le diff_self_eq_0)
  show ?thesis
  proof (cases "?r = 0")
    case True
    then show ?thesis using p e assms(1) by (intro exI[of _ 0]) (simp add: ci_align_addr_def Let_def)
  next
    case False
    have "unat a + (al - ?r) = al * (unat a div al) + al" using r mult_div_mod_eq[of al "unat a"] by linarith
    then have "(unat a + (al - ?r)) mod al = 0" by simp
    moreover have "al - ?r < al" using False assms(1) by simp
    ultimately show ?thesis using p e False by (intro exI[of _ "al - ?r"]) (simp add: ci_align_addr_def Let_def)
  qed
qed

section \<open>Local variables\<close>

text \<open>The variables, one after the other from \<open>lo\<close>, each at a multiple of its alignment, end at or before \<open>hi\<close>; variables
  that have no place in the frame do not count.\<close>

definition framed :: "var_t \<Rightarrow> bool" where "framed v \<longleftrightarrow> IS_LOCAL_CLASS (va_class v) \<and> va_class v \<noteq> CL_ARG"

fun packed :: "typecode_t \<Rightarrow> nat \<Rightarrow> var_t list \<Rightarrow> nat \<Rightarrow> bool" where
  "packed bt lo [] hi \<longleftrightarrow> lo \<le> hi"
| "packed bt lo (v # vs) hi \<longleftrightarrow>
     (if framed v
      then lo \<le> unat (va_addr v) \<and> unat (va_addr v) mod var_align bt v = 0 \<and> packed bt (unat (va_addr v) + var_size bt v) vs hi
      else packed bt lo vs hi)"

text \<open>The most bytes that variables can take.\<close>

definition room_for :: "typecode_t \<Rightarrow> var_t list \<Rightarrow> nat" where
  "room_for bt vs = (\<Sum>v\<leftarrow>vs. if framed v then var_align bt v + var_size bt v else 0)"

lemma packed_le: "packed bt lo vs hi \<Longrightarrow> lo \<le> hi"
  by (induction vs arbitrary: lo) (fastforce split: if_split_asm)+

lemma packed_append: "packed bt lo us mid \<Longrightarrow> packed bt mid vs hi \<Longrightarrow> packed bt lo (us @ vs) hi"
proof (induction us arbitrary: lo)
  case Nil
  then have "lo \<le> mid" by simp
  with Nil(2) show ?case
  proof (induction vs arbitrary: mid)
    case (Cons v vs)
    then show ?case by (auto split: if_split_asm)
  qed simp
qed (auto split: if_split_asm)

lemma packed_mono: "packed bt lo vs mid \<Longrightarrow> mid \<le> hi \<Longrightarrow> packed bt lo vs hi"
  by (induction vs arbitrary: lo) (auto split: if_split_asm)

lemma sized_place:
  assumes "sized_var bt v"
  obtains p where "ci_align_addr_for_type bt a (va_type v) = Some (a + of_nat p)" and "p < var_align bt v" and "(unat a + p) mod var_align bt v = 0"
    and "ci_typesize bt (va_type v) = Some (int (var_size bt v))"
proof -
  obtain n al where s: "ci_typesize bt (va_type v) = Some n" "0 \<le> n" "ci_type_alignment bt (va_type v) = Some al" "0 < al" "al < 2 ^ 31"
    using assms unfolding sized_var_def by blast
  have "0 < nat al" "nat al < 2 ^ 31" "int (nat al) = al" using s(4,5) by auto
  from align_up[OF this(1,2), of a] this(3) s that show ?thesis
    by (auto simp: ci_align_addr_for_type_def var_align_def var_size_def)
qed

lemma set_var_addrs_packed:
  assumes "set_var_addrs bt tx vs a False = Some (vs', e, tx')" and "\<forall>v\<in>set vs. framed v \<longrightarrow> sized_var bt v"
    and "unat a + room_for bt vs < 2 ^ 64"
  shows "packed bt (unat a) vs' (unat e) \<and> unat e \<le> unat a + room_for bt vs
    \<and> list_all2 (\<lambda>v v'. v' = v\<lparr>va_addr := va_addr v'\<rparr> \<and> (\<not> framed v \<longrightarrow> v' = v)) vs vs'"
  using assms
proof (induction vs arbitrary: a tx vs' e)
  case (Cons v vs)
  show ?case
  proof (cases "framed v")
    case False
    then obtain t us where "set_var_addrs bt t vs a False = Some (us, e, tx')" "vs' = v # us"
      using Cons.prems(1) by (auto simp: framed_def bind_Some_iff split: if_split_asm)
    with Cons.IH[of t a us e] Cons.prems(2,3) False show ?thesis by (simp add: room_for_def)
  next
    case True
    then have c: "va_class v \<noteq> CL_ARG" "IS_LOCAL_CLASS (va_class v)" by (simp_all add: framed_def)
    have "sized_var bt v" using Cons.prems(2) True by simp
    then obtain p where p: "ci_align_addr_for_type bt a (va_type v) = Some (a + of_nat p)" "p < var_align bt v" "(unat a + p) mod var_align bt v = 0"
        "ci_typesize bt (va_type v) = Some (int (var_size bt v))"
      by (rule sized_place[where a = a])
    let ?b = "a + of_nat p + of_nat (var_size bt v)"
    obtain us where us: "set_var_addrs bt tx vs ?b False = Some (us, e, tx')" "vs' = v\<lparr>va_addr := a + of_nat p\<rparr> # us"
      using Cons.prems(1) c p(1,4) by (auto simp: bind_Some_iff Let_def)
    have lim: "unat a + (var_align bt v + var_size bt v) + room_for bt vs < 2 ^ 64" using Cons.prems(3) True by (simp add: room_for_def)
    have ub: "unat (a + of_nat p) = unat a + p" "unat ?b = unat a + p + var_size bt v"
      using unat_plus_no_wrap[of a p] unat_plus_no_wrap[of "a + of_nat p" "var_size bt v"] lim p(2) by simp_all
    have "unat ?b + room_for bt vs < 2 ^ 64" using lim p(2) by (simp add: ub)
    from Cons.IH[OF us(1) _ this] Cons.prems(2) have ih: "packed bt (unat ?b) us (unat e)" "unat e \<le> unat ?b + room_for bt vs"
      "list_all2 (\<lambda>v v'. v' = v\<lparr>va_addr := va_addr v'\<rparr> \<and> (\<not> framed v \<longrightarrow> v' = v)) vs us" by simp_all
    have "var_align bt (v\<lparr>va_addr := x\<rparr>) = var_align bt v" "var_size bt (v\<lparr>va_addr := x\<rparr>) = var_size bt v" "framed (v\<lparr>va_addr := x\<rparr>)" for x
      using True by (simp_all add: var_align_def var_size_def framed_def)
    with ih p(2,3) ub True show ?thesis by (simp add: us(2) room_for_def)
  qed
qed (simp add: room_for_def)

text \<open>Every way from the outermost block to an innermost one, with all the variables that are visible there.\<close>

fun scopes :: "block_t \<Rightarrow> var_t list list" where
  "scopes (Block vs bs) = (if bs = [] then [vs] else map ((@) vs) (concat (map scopes bs)))"

text \<open>All the variables have places, and there is room for them all.\<close>

fun block_room :: "typecode_t \<Rightarrow> block_t \<Rightarrow> nat" where
  "block_room bt (Block vs bs) = room_for bt vs + (\<Sum>b\<leftarrow>bs. block_room bt b)"

fun sized_block :: "typecode_t \<Rightarrow> block_t \<Rightarrow> bool" where
  "sized_block bt (Block vs bs) \<longleftrightarrow> (\<forall>v\<in>set vs. framed v \<longrightarrow> sized_var bt v) \<and> (\<forall>b\<in>set bs. sized_block bt b)"

lemma assign_local_addrs_packed:
  assumes "assign_local_addrs bt tx bls base mx = Some (bls', e, tx')" and "\<forall>b\<in>set bls. sized_block bt b"
    and "unat base + (\<Sum>b\<leftarrow>bls. block_room bt b) < 2 ^ 64"
  shows "mx \<le> e \<and> unat e \<le> max (unat mx) (unat base + (\<Sum>b\<leftarrow>bls. block_room bt b))
    \<and> (\<forall>b\<in>set bls'. \<forall>c\<in>set (scopes b). packed bt (unat base) c (unat e))"
  using assms
proof (induction bt tx bls base mx arbitrary: bls' e tx' rule: assign_local_addrs.induct)
  case (2 bt tx vs bs bls base mx)
  obtain us a t1 cs a2 t2 ds where s: "set_var_addrs bt tx vs base False = Some (us, a, t1)" "assign_local_addrs bt t1 bs a a = Some (cs, a2, t2)"
      "assign_local_addrs bt t2 bls base (if a2 > mx then a2 else mx) = Some (ds, e, tx')" "bls' = Block us cs # ds"
    using 2(3) by (auto simp: bind_Some_iff)
  have sz: "\<forall>v\<in>set vs. framed v \<longrightarrow> sized_var bt v" "\<forall>b\<in>set bs. sized_block bt b" "\<forall>b\<in>set bls. sized_block bt b" using 2(4) by simp_all
  let ?R = "\<Sum>b\<leftarrow>bs. block_room bt b" and ?S = "\<Sum>b\<leftarrow>bls. block_room bt b"
  have lim: "unat base + room_for bt vs + ?R + ?S < 2 ^ 64" using 2(5) by simp
  have p: "packed bt (unat base) us (unat a)" "unat a \<le> unat base + room_for bt vs"
    using set_var_addrs_packed[OF s(1) sz(1)] lim by simp_all
  have "unat a + ?R < 2 ^ 64" using p(2) lim by simp
  from 2(1)[OF s(1) _ _ s(2) sz(2) this]
  have q: "a \<le> a2" "unat a2 \<le> unat a + ?R" "\<forall>b\<in>set cs. \<forall>c\<in>set (scopes b). packed bt (unat a) c (unat a2)" by simp_all
  have "unat base + ?S < 2 ^ 64" using lim by simp
  from 2(2)[OF s(1) _ _ s(2) _ _ s(3) sz(3) this]
  have r: "(if a2 > mx then a2 else mx) \<le> e" "unat e \<le> max (unat (if a2 > mx then a2 else mx)) (unat base + ?S)"
    "\<forall>b\<in>set ds. \<forall>c\<in>set (scopes b). packed bt (unat base) c (unat e)" by simp_all
  have le: "mx \<le> e" "a2 \<le> e" using r(1) by (auto split: if_split_asm)
  have "packed bt (unat base) c (unat e)" if cin: "c \<in> set (scopes (Block us cs))" for c
  proof (cases "cs = []")
    case True
    then have "c = us" using cin by simp
    with packed_mono[OF p(1)] q(1) le(2) show ?thesis by (simp add: word_le_nat_alt)
  next
    case False
    then obtain b c' where "b \<in> set cs" "c' \<in> set (scopes b)" "c = us @ c'" using cin by auto
    with q(3) packed_append[OF p(1)] packed_mono[of bt "unat base" c "unat a2"] le(2) show ?thesis by (auto simp: word_le_nat_alt)
  qed
  moreover have "unat e \<le> max (unat mx) (unat base + (\<Sum>b\<leftarrow>Block vs bs # bls. block_room bt b))"
    using r(2) q(2) p(2) by (auto simp: max_def split: if_split_asm)
  ultimately show ?case using r(3) le(1) by (auto simp: s(4))
qed simp

lemma packed_apart:
  assumes "packed bt lo vs hi" and "i < j" and "j < length vs" and "framed (vs ! i)" and "framed (vs ! j)"
  shows "unat (va_addr (vs ! i)) + var_size bt (vs ! i) \<le> unat (va_addr (vs ! j))"
    and "unat (va_addr (vs ! j)) + var_size bt (vs ! j) \<le> hi"
proof -
  have 1: "lo \<le> unat (va_addr (us ! k)) \<and> unat (va_addr (us ! k)) + var_size bt (us ! k) \<le> hi"
    if "packed bt lo us hi" "k < length us" "framed (us ! k)" for lo us k
    using that
  proof (induction us arbitrary: lo k)
    case (Cons u us)
    show ?case
    proof (cases k)
      case 0
      then show ?thesis using Cons.prems packed_le[of bt _ us hi] by auto
    next
      case (Suc k')
      then show ?thesis using Cons.prems Cons.IH[of "if framed u then unat (va_addr u) + var_size bt u else lo" k']
        by (auto split: if_split_asm)
    qed
  qed simp
  from 1[OF assms(1,3,5)] show "unat (va_addr (vs ! j)) + var_size bt (vs ! j) \<le> hi" by simp
  show "unat (va_addr (vs ! i)) + var_size bt (vs ! i) \<le> unat (va_addr (vs ! j))"
    using assms
  proof (induction vs arbitrary: lo i j)
    case (Cons v vs)
    obtain j' where j': "j = Suc j'" using Cons.prems(2) by (cases j) auto
    show ?case
    proof (cases i)
      case 0
      then show ?thesis using 1[of _ vs j'] Cons.prems j' by auto
    next
      case (Suc i')
      then show ?thesis using Cons.IH[of "if framed v then unat (va_addr v) + var_size bt v else lo" i' j'] Cons.prems j'
        by (auto split: if_split_asm)
    qed
  qed simp
qed

definition adjust_var :: "word64 \<Rightarrow> var_t \<Rightarrow> var_t" where
  "adjust_var delta v = (if va_class v = CL_AUTO then v\<lparr>va_addr := va_addr v + delta\<rparr> else v)"

lemma scopes_adjust: "scopes (adjust_local_addrs d b) = map (map (adjust_var d)) (scopes b)"
proof (induction b rule: scopes.induct)
  case (1 vs bs)
  have f: "(\<lambda>v. if va_class v = CL_AUTO then v\<lparr>va_addr := va_addr v + d\<rparr> else v) = adjust_var d" by (simp add: adjust_var_def fun_eq_iff)
  show ?case
  proof (cases "bs = []")
    case False
    have "concat (map (scopes \<circ> adjust_local_addrs d) bs) = map (map (adjust_var d)) (concat (map scopes bs))"
      using 1[OF False] by (simp add: map_concat comp_def cong: map_cong)
    with False show ?thesis by (simp add: f comp_def)
  qed (simp add: f)
qed

text \<open>The size of the frame, a whole number of stack words.\<close>

lemma round_up:
  fixes e :: word64
  assumes "unat e < 2 ^ 63"
  defines "S \<equiv> (if e mod 8 \<noteq> 0 then e + (8 - e mod 8) else e)"
  shows "unat e \<le> unat S" and "8 dvd unat S" and "unat S < 2 ^ 63 + 8"
proof -
  have m: "unat (e mod 8) = unat e mod 8" by (simp add: unat_mod_distrib)
  have z: "e mod 8 = 0 \<longleftrightarrow> unat e mod 8 = 0" by (metis m unat_eq_zero)
  define pad :: nat where "pad = (if unat e mod 8 = 0 then 0 else 8 - unat e mod 8)"
  have pad: "pad < 8" by (simp add: pad_def)
  have "S = e + of_nat pad"
  proof (cases "unat e mod 8 = 0")
    case False
    have "e mod 8 = of_nat (unat e mod 8)" by (metis m of_nat_unat ucast_id)
    then have "8 - e mod 8 = (of_nat (8 - unat e mod 8) :: word64)" by (simp add: of_nat_diff less_imp_le)
    then show ?thesis using False z by (simp add: S_def pad_def)
  qed (use z in \<open>simp add: S_def pad_def\<close>)
  then have u: "unat S = unat e + pad" using unat_plus_no_wrap[of e pad] assms(1) pad by simp
  have "(unat e + pad) mod 8 = 0" unfolding pad_def by presburger
  then show "unat e \<le> unat S" "8 dvd unat S" "unat S < 2 ^ 63 + 8" using u pad assms(1) by (simp_all add: dvd_eq_mod_eq_0)
qed

text \<open>C9.  Local variables have places of their own.  As long as all the variables of a function together fit the address
  space, any two automatic variables that are visible at the same time, in one block or in nested ones, occupy disjoint
  bytes of the frame, and all of these bytes are among the \<open>tx_sp\<close> bytes below the frame pointer, a whole number of
  stack words.\<close>

theorem locals_do_not_overlap:
  assumes "set_local_addrs bt tx b = Some (b', tx')" and "sized_block bt b" and "block_room bt b < 2 ^ 63"
    and "c \<in> set (scopes b')" and "i < j" and "j < length c" and "va_class (c ! i) = CL_AUTO" and "va_class (c ! j) = CL_AUTO"
  shows "region (fp + va_addr (c ! i)) (var_size bt (c ! i)) \<inter> region (fp + va_addr (c ! j)) (var_size bt (c ! j)) = {}
    \<and> region (fp + va_addr (c ! i)) (var_size bt (c ! i)) \<subseteq> region (fp - tx_sp tx') (unat (tx_sp tx'))
    \<and> region (fp + va_addr (c ! j)) (var_size bt (c ! j)) \<subseteq> region (fp - tx_sp tx') (unat (tx_sp tx'))
    \<and> 8 dvd unat (tx_sp tx')"
proof -
  obtain bs e t where s: "assign_local_addrs bt tx [b] 0 0 = Some (bs, e, t)"
    and b': "b' = adjust_local_addrs (- tx_sp tx') (hd bs)" and sp: "tx_sp tx' = (if e mod 8 \<noteq> 0 then e + (8 - e mod 8) else e)"
    using assms(1) by (auto simp: set_local_addrs_def bind_Some_iff Let_def)
  have "bs \<noteq> []" using s by (cases b) (auto simp: bind_Some_iff)
  then have hd: "hd bs \<in> set bs" by simp
  from assign_local_addrs_packed[OF s] assms(2,3)
  have e: "unat e \<le> block_room bt b" and pk: "\<forall>c\<in>set (scopes (hd bs)). packed bt 0 c (unat e)" using hd by auto
  obtain d where d: "d \<in> set (scopes (hd bs))" "c = map (adjust_var (- tx_sp tx')) d" using assms(4) by (auto simp: b' scopes_adjust)
  note r = round_up[of e, folded sp]
  let ?S = "tx_sp tx'"
  have S: "unat e \<le> unat ?S" "8 dvd unat ?S" using r e assms(3) by simp_all
  have at: "framed (d ! k) \<and> var_size bt (c ! k) = var_size bt (d ! k) \<and> fp + va_addr (c ! k) = (fp - ?S) + of_nat (unat (va_addr (d ! k)))"
    if "k < length c" "va_class (c ! k) = CL_AUTO" for k
    using that by (auto simp: d(2) adjust_var_def framed_def IS_LOCAL_CLASS_def var_size_def split: if_split_asm)
  have i: "i < length c" using assms(5,6) by simp
  let ?ai = "unat (va_addr (d ! i))" and ?aj = "unat (va_addr (d ! j))"
  have len: "length c = length d" by (simp add: d(2))
  have ap: "?ai + var_size bt (d ! i) \<le> ?aj" "?aj + var_size bt (d ! j) \<le> unat e"
    using packed_apart[OF pk[rule_format, OF d(1)] assms(5) _] at[OF i assms(7)] at[OF assms(6,8)] assms(6) len by simp_all
  have dj: "region (fp - ?S + of_nat ?ai) (var_size bt (d ! i)) \<inter> region (fp - ?S + of_nat ?aj) (var_size bt (d ! j)) = {}"
    by (rule region_offset) (use ap e assms(3) in simp_all)
  have sub: "region (fp - ?S + of_nat a) k \<subseteq> region (fp - ?S) (unat ?S)" if "a + k \<le> unat ?S" for a k
  proof -
    have "region (fp - ?S) (a + k) \<subseteq> region (fp - ?S) (unat ?S)" using that by (rule region_mono)
    then show ?thesis by (simp add: region_split)
  qed
  have q: "fp + va_addr (c ! i) = fp - ?S + of_nat ?ai" "var_size bt (c ! i) = var_size bt (d ! i)"
      "fp + va_addr (c ! j) = fp - ?S + of_nat ?aj" "var_size bt (c ! j) = var_size bt (d ! j)"
    using at[OF i assms(7)] at[OF assms(6,8)] by blast+
  have "?ai + var_size bt (d ! i) \<le> unat ?S" "?aj + var_size bt (d ! j) \<le> unat ?S" using ap S(1) by linarith+
  from dj sub[OF this(1)] sub[OF this(2)] S(2) show ?thesis unfolding q by blast
qed

text \<open>\<open>{ long x; { char c; long y; } { short z; } }\<close>\<close>

definition demo_local :: "nat \<Rightarrow> typecode_t \<Rightarrow> int \<Rightarrow> var_t" where
  "demo_local k tc n = \<lparr>va_id = k, va_name = ''v'', va_class = CL_AUTO, va_is_ci_var = True, va_location = None, va_addr = 0,
     va_type = Type tc n None 0 0 0 None\<rparr>"

definition demo_nest :: block_t where
  "demo_nest = Block [demo_local 1 TY_LONG 8]
     [Block [demo_local 2 TY_CHAR 1, demo_local 3 TY_LONG 8] [], Block [demo_local 4 TY_SHORT 2] []]"

definition demo_layout_text :: text_t where "demo_layout_text = initial_text 0 False [] [] None None"

theorem locals_do_not_overlap_witness:
  "\<exists>b' tx'. set_local_addrs TY_VOID demo_layout_text demo_nest = Some (b', tx') \<and> tx_sp tx' = 24
     \<and> map (map va_addr) (scopes b') = [[-24, -16, -8], [-24, -16]]
     \<and> region (0x2000 + va_addr (scopes b' ! 0 ! 1)) (var_size TY_VOID (scopes b' ! 0 ! 1))
         \<inter> region (0x2000 + va_addr (scopes b' ! 0 ! 2)) (var_size TY_VOID (scopes b' ! 0 ! 2)) = {}"
proof -
  have "case set_local_addrs TY_VOID demo_layout_text demo_nest of None \<Rightarrow> False
    | Some (b', tx') \<Rightarrow> tx_sp tx' = 24 \<and> map (map va_addr) (scopes b') = [[-24, -16, -8], [-24, -16]]
       \<and> map (map va_class) (scopes b') = [[CL_AUTO, CL_AUTO, CL_AUTO], [CL_AUTO, CL_AUTO]]"
    by code_simp
  then obtain b' tx' where s: "set_local_addrs TY_VOID demo_layout_text demo_nest = Some (b', tx')" "tx_sp tx' = 24"
      "map (map va_addr) (scopes b') = [[-24, -16, -8], [-24, -16]]"
      "map (map va_class) (scopes b') = [[CL_AUTO, CL_AUTO, CL_AUTO], [CL_AUTO, CL_AUTO]]"
    by (auto split: option.split_asm)
  obtain c cs where c: "scopes b' = c # cs" "map va_class c = [CL_AUTO, CL_AUTO, CL_AUTO]" using s(4) by auto
  have z: "sized_block TY_VOID demo_nest" "block_room TY_VOID demo_nest < 2 ^ 63"
    by (simp_all add: demo_nest_def demo_local_def sized_var_def framed_def IS_LOCAL_CLASS_def ci_effective_typecode_def room_for_def
        var_size_def var_align_def)
  have "length c = 3" "va_class (c ! 1) = CL_AUTO" "va_class (c ! 2) = CL_AUTO" using c(2) by auto
  with locals_do_not_overlap[OF s(1) z, of c 1 2 "0x2000"] c(1) s show ?thesis by auto
qed

section \<open>Parameters\<close>

text \<open>Parameters that take one argument slot.\<close>

definition slot_var :: "typecode_t \<Rightarrow> var_t \<Rightarrow> bool" where
  "slot_var bt v \<longleftrightarrow> (\<exists>n. ci_typesize bt (va_type v) = Some n \<and> 0 < n \<and> n \<le> 8)
     \<and> (\<exists>al \<in> {1, 2, 4, 8}. ci_type_alignment bt (va_type v) = Some al)"

lemma slot_mod: "k \<le> 3 \<Longrightarrow> (8 * w :: word64) mod 2 ^ k = 0"
proof -
  assume k: "k \<le> 3"
  have "(8 * w) mod 2 ^ k = take_bit k (push_bit 3 w)" by (simp add: take_bit_eq_mod push_bit_eq_mult mult.commute)
  also have "\<dots> = 0" using k by (simp add: take_bit_push_bit)
  finally show ?thesis .
qed

lemma slot_aligned:
  assumes "slot_var bt v"
  shows "ci_align_addr_for_type bt (8 * w) (va_type v) = Some (8 * w)"
proof -
  obtain al where al: "ci_type_alignment bt (va_type v) = Some al" "al \<in> {1, 2, 4, 8}" using assms unfolding slot_var_def by blast
  obtain k where k: "k \<le> 3" "al = 2 ^ k" using al(2) by (auto intro: that[of 0] that[of 1] that[of 2] that[of 3])
  have "signed_take_bit 31 (1 :: word64) = 1" "signed_take_bit 31 (2 :: word64) = 2" "signed_take_bit 31 (4 :: word64) = 4"
    "signed_take_bit 31 (8 :: word64) = 8" by code_simp+
  then have s: "signed_take_bit 31 (of_int al :: word64) = of_int al" using al(2) by auto
  have "(8 * w) mod of_int al = 0" using slot_mod[OF k(1), of w] by (simp only: k(2) of_int_power of_int_numeral)
  moreover have "al \<noteq> 0" using al(2) by auto
  ultimately show ?thesis by (simp only: ci_align_addr_for_type_def ci_align_addr_def al(1) bind.bind_lunit diff_zero s Let_def) simp
qed

abbreviation is_param :: "var_t \<Rightarrow> bool" where "is_param v \<equiv> va_class v = CL_ARG"

lemma set_var_addrs_slots:
  assumes "set_var_addrs bt tx vs (8 * w) True = Some (vs', e, tx')" and "\<forall>v\<in>set vs. is_param v \<longrightarrow> slot_var bt v"
  shows "map va_addr (filter is_param vs') = map (\<lambda>k. 8 * (w + of_nat k)) [0..<length (filter is_param vs)]"
  using assms
proof (induction vs arbitrary: w tx vs' e)
  case (Cons v vs)
  show ?case
  proof (cases "is_param v")
    case False
    then obtain us t where "set_var_addrs bt t vs (8 * w) True = Some (us, e, tx')" "vs' = v # us"
      using Cons.prems(1) by (auto simp: bind_Some_iff)
    with Cons.IH[of t w us e] Cons.prems(2) False show ?thesis by simp
  next
    case True
    have sv: "slot_var bt v" using Cons.prems(2) True by simp
    then obtain n where n: "ci_typesize bt (va_type v) = Some n" "0 < n" "n \<le> 8" unfolding slot_var_def by blast
    have lt: "(of_int n :: word64) < 8 \<longleftrightarrow> n \<noteq> 8"
    proof -
      have "uint (of_int n :: word64) = n" using n(2,3) by (simp add: uint_word_of_int_eq take_bit_int_eq_self)
      then show ?thesis using n(3) by (auto simp: word_less_def)
    qed
    have "8 * w + of_int n + (8 - of_int n) = 8 * (w + 1)" "n = 8 \<Longrightarrow> 8 * w + of_int n = 8 * (w + 1)" by (simp_all add: algebra_simps)
    then obtain us where us: "set_var_addrs bt tx vs (8 * (w + 1)) True = Some (us, e, tx')" "vs' = v\<lparr>va_addr := 8 * w\<rparr> # us"
      using Cons.prems(1) True n(1) slot_aligned[OF sv, of w] lt
      by (auto simp: IS_LOCAL_CLASS_def bind_Some_iff Let_def algebra_simps split: if_split_asm)
    have "map (\<lambda>k. 8 * (w + of_nat k)) [0..<Suc k] = 8 * w # map (\<lambda>k. 8 * (w + 1 + of_nat k)) [0..<k]" for k
      by (simp only: upt_conv_Cons[of 0 "Suc k"] zero_less_Suc) (simp add: map_Suc_upt[symmetric] comp_def add.assoc del: upt_Suc)
    with Cons.IH[OF us(1)] Cons.prems(2) True show ?thesis by (simp add: us(2))
  qed
qed simp

text \<open>C10.  Parameters are where the caller pushes the arguments.  If every parameter fits a stack word, the first one is
  at 24 bytes from the frame pointer, after the saved frame pointer, the return address and the code file, one word
  further in a function that returns a structure, and each following one is one word further.\<close>

theorem parameters_at_argument_slots:
  assumes "set_parameter_addrs bt tx ft b = Some b'" and "\<forall>v\<in>set (bl_vars b). is_param v \<longrightarrow> slot_var bt v"
    and "ty_base ft = Some t"
  shows "map va_addr (filter is_param (bl_vars b'))
     = map (\<lambda>k. 8 * ((if ty_code t = TY_UNION \<or> ty_code t = TY_STRUCT then 4 else 3) + of_nat k)) [0..<length (filter is_param (bl_vars b))]"
proof -
  let ?w = "if ty_code t = TY_UNION \<or> ty_code t = TY_STRUCT then 4 else 3 :: word64"
  have "3 * 8 + (if ty_code t = TY_UNION \<or> ty_code t = TY_STRUCT then 8 else 0) = 8 * ?w" by simp
  with assms(1,3) obtain vs e tx' where "set_var_addrs bt tx (bl_vars b) (8 * ?w) True = Some (vs, e, tx')" "b' = Block vs (bl_blocks b)"
    by (auto simp: set_parameter_addrs_def bind_Some_iff Let_def simp del: mult_numeral_left_semiring_numeral split: if_split_asm)
  with set_var_addrs_slots[OF _ assms(2)] show ?thesis by simp
qed

theorem parameters_at_argument_slots_witness:
  "\<exists>b'. set_parameter_addrs TY_VOID demo_layout_text (Type DT_FUNC_RETURNING 0 (Some (Type TY_LONG 8 None 0 0 0 None)) 0 0 0 None)
       (Block [(demo_local 1 TY_LONG 8)\<lparr>va_class := CL_ARG\<rparr>, (demo_local 2 TY_CHAR 1)\<lparr>va_class := CL_ARG\<rparr>] []) = Some b'
     \<and> map va_addr (filter is_param (bl_vars b')) = [24, 32]"
proof -
  let ?b = "Block [(demo_local 1 TY_LONG 8)\<lparr>va_class := CL_ARG\<rparr>, (demo_local 2 TY_CHAR 1)\<lparr>va_class := CL_ARG\<rparr>] []"
  let ?t = "Type DT_FUNC_RETURNING 0 (Some (Type TY_LONG 8 None 0 0 0 None)) 0 0 0 None"
  have "set_parameter_addrs TY_VOID demo_layout_text ?t ?b \<noteq> None" by code_simp
  then obtain b' where b': "set_parameter_addrs TY_VOID demo_layout_text ?t ?b = Some b'" by auto
  have "\<forall>v\<in>set (bl_vars ?b). is_param v \<longrightarrow> slot_var TY_VOID v" by (simp add: slot_var_def demo_local_def ci_effective_typecode_def)
  from parameters_at_argument_slots[OF b' this] b' show ?thesis by (auto simp: demo_local_def)
qed

end
