(* ===== verification/Ups_Const.thy ===== *)
theory Ups_Const
  imports Ups_Compile_Expr Ups_Exec_Arith
begin

text \<open>
  The evaluator of constant expressions (\<open>src/ups/ci_constexpr.c\<close>): it folds what the compiler pushes as a
  constant and gives the values of case labels, array bounds and enumerators.  An evaluation has a value, finds
  that the expression is no constant (after a diagnostic, which is left out), stops in \<open>panic\<close>, or has no defined
  meaning: a signed overflow, a division that traps, a shift by the width or more, a conversion of a floating
  value that does not fit, or the use of memory that was never written.
\<close>

section \<open>Values\<close>

datatype 'a cres = Value 'a | Not_Constant | Panics | Undefined

text \<open>\<open>seq\<close> runs an evaluation and goes on in both cases in which it comes back, \<open>None\<close> for the result \<open>FALSE\<close>.\<close>

definition seq :: "'a cres \<Rightarrow> ('a option \<Rightarrow> 'b cres) \<Rightarrow> 'b cres" where
  "seq r f = (case r of Value v \<Rightarrow> f (Some v) | Not_Constant \<Rightarrow> f None | Panics \<Rightarrow> Panics | Undefined \<Rightarrow> Undefined)"

definition seq_ok :: "'a cres \<Rightarrow> ('a \<Rightarrow> 'b cres) \<Rightarrow> 'b cres" where
  "seq_ok r f = seq r (\<lambda>v. case v of None \<Rightarrow> Not_Constant | Some v \<Rightarrow> f v)"

definition defined :: "'a option \<Rightarrow> ('a \<Rightarrow> 'b cres) \<Rightarrow> 'b cres" where
  "defined x f = (case x of None \<Rightarrow> Undefined | Some x \<Rightarrow> f x)"

text \<open>The union \<open>constval_t\<close>, 8 bytes: the half that \<open>cv_int\<close>, \<open>cv_unsigned\<close> and \<open>cv_float\<close> share, and the rest
  of \<open>cv_long_long\<close>, \<open>cv_ulong_long\<close> and \<open>cv_double\<close>, which has no value while only the first half was
  written.\<close>

record constval_t =
  cv_low :: "32 word"
  cv_high :: "32 word option"

definition cv4 :: "32 word \<Rightarrow> constval_t" where "cv4 w = \<lparr>cv_low = w, cv_high = None\<rparr>"

definition cv8 :: "word64 \<Rightarrow> constval_t" where
  "cv8 w = \<lparr>cv_low = ucast w, cv_high = Some (ucast (drop_bit 32 w))\<rparr>"

definition cv_wide :: "constval_t \<Rightarrow> word64 option" where
  "cv_wide v = map_option (\<lambda>h. ucast (cv_low v) OR push_bit 32 (ucast h)) (cv_high v)"

definition fits_int :: "int \<Rightarrow> bool" where "fits_int i \<longleftrightarrow> - (2 ^ 31) \<le> i \<and> i < 2 ^ 31"

section \<open>Operand types\<close>

text \<open>A null type pointer is dereferenced.\<close>

definition operand_typecode :: "typecode_t \<Rightarrow> expr_t \<Rightarrow> bool \<Rightarrow> typecode_t cres" where
  "operand_typecode bt e allow_short_types =
     (case ty e of
        None \<Rightarrow> Undefined
      | Some tc \<Rightarrow>
          (let c = ci_effective_typecode bt tc in
           if c \<in> {TY_CHAR, TY_SHORT} then (if allow_short_types then Value TY_INT else Panics)
           else if c \<in> {TY_UCHAR, TY_USHORT} then (if allow_short_types then Value TY_UINT else Panics)
           else if c \<in> {TY_LONG, TY_INT, TY_ENUM, TY_U_ENUM, TY_BOOLEAN} then Value TY_INT
           else if c \<in> {TY_ULONG, TY_UINT, DT_PTR_TO} then Value TY_UINT
           else if c = TY_FLOAT then Value TY_FLOAT
           else if c = TY_DOUBLE then Value TY_DOUBLE
           else if c = TY_LONGLONG then Value TY_LONGLONG
           else if c = TY_ULONGLONG then Value TY_ULONGLONG
           else Panics))"

section \<open>Operators\<close>

text \<open>\<open>INTOP\<close>: \<open>& | ^ << >> %\<close> on \<open>int\<close> and \<open>unsigned\<close>.  The signed right shift copies the sign.\<close>

definition c_rem :: "int \<Rightarrow> int \<Rightarrow> int" where "c_rem a b = a - b * c_quot a b"

definition INTOP :: "typecode_t \<Rightarrow> optype_t \<Rightarrow> 32 word \<Rightarrow> 32 word \<Rightarrow> 32 word option" where
  "INTOP ot op l r =
     (case op of
        OP_BITWISE_OR \<Rightarrow> Some (l OR r)
      | OP_BITWISE_XOR \<Rightarrow> Some (l XOR r)
      | OP_BITWISE_AND \<Rightarrow> Some (l AND r)
      | OP_LSHIFT \<Rightarrow> if r < 32 then Some (push_bit (unat r) l) else None
      | OP_RSHIFT \<Rightarrow> if r < 32 then Some (if ot = TY_INT then signed_drop_bit (unat r) l else drop_bit (unat r) l) else None
      | OP_MOD \<Rightarrow> if ot = TY_INT then
            (if fits_int (c_quot (sint l) (sint r)) then Some (word_of_int (c_rem (sint l) (sint r))) else None)
          else Some (l mod r)
      | _ \<Rightarrow> None)"

text \<open>\<open>RELOP\<close> on integers by the order of the type, \<open>BINOP\<close> by the mathematical result; \<open>w\<close> is the width.\<close>

definition truth :: "bool \<Rightarrow> 32 word" where "truth b = (if b then 1 else 0)"

definition RELOP_int :: "optype_t \<Rightarrow> int \<Rightarrow> int \<Rightarrow> bool option" where
  "RELOP_int op l r =
     (case op of
        OP_LOGICAL_OR \<Rightarrow> Some (l \<noteq> 0 \<or> r \<noteq> 0)
      | OP_LOGICAL_AND \<Rightarrow> Some (l \<noteq> 0 \<and> r \<noteq> 0)
      | OP_IS_EQUAL \<Rightarrow> Some (l = r)
      | OP_NOT_EQUAL \<Rightarrow> Some (l \<noteq> r)
      | OP_LESS \<Rightarrow> Some (l < r)
      | OP_GREATER \<Rightarrow> Some (l > r)
      | OP_LESS_OR_EQUAL \<Rightarrow> Some (l \<le> r)
      | OP_GREATER_OR_EQUAL \<Rightarrow> Some (l \<ge> r)
      | _ \<Rightarrow> None)"

definition BINOP_int :: "optype_t \<Rightarrow> int \<Rightarrow> int \<Rightarrow> int option" where
  "BINOP_int op l r =
     (case op of OP_PLUS \<Rightarrow> Some (l + r) | OP_MINUS \<Rightarrow> Some (l - r) | OP_MUL \<Rightarrow> Some (l * r) | OP_DIV \<Rightarrow> Some (c_quot l r)
      | _ \<Rightarrow> None)"

definition RELOP_float :: "optype_t \<Rightarrow> ('f \<Rightarrow> 'f \<Rightarrow> bool) \<Rightarrow> ('f \<Rightarrow> 'f \<Rightarrow> bool) \<Rightarrow> ('f \<Rightarrow> 'f \<Rightarrow> bool) \<Rightarrow> 'f \<Rightarrow> 'f \<Rightarrow> 'f \<Rightarrow> bool option" where
  "RELOP_float op eq lt le zero l r =
     (case op of
        OP_LOGICAL_OR \<Rightarrow> Some (\<not> eq l zero \<or> \<not> eq r zero)
      | OP_LOGICAL_AND \<Rightarrow> Some (\<not> eq l zero \<and> \<not> eq r zero)
      | OP_IS_EQUAL \<Rightarrow> Some (eq l r)
      | OP_NOT_EQUAL \<Rightarrow> Some (\<not> eq l r)
      | OP_LESS \<Rightarrow> Some (lt l r)
      | OP_GREATER \<Rightarrow> Some (lt r l)
      | OP_LESS_OR_EQUAL \<Rightarrow> Some (le l r)
      | OP_GREATER_OR_EQUAL \<Rightarrow> Some (le r l)
      | _ \<Rightarrow> None)"

definition BINOP_float :: "optype_t \<Rightarrow> ('f \<Rightarrow> 'f \<Rightarrow> 'f) \<Rightarrow> ('f \<Rightarrow> 'f \<Rightarrow> 'f) \<Rightarrow> ('f \<Rightarrow> 'f \<Rightarrow> 'f) \<Rightarrow> ('f \<Rightarrow> 'f \<Rightarrow> 'f) \<Rightarrow> 'f \<Rightarrow> 'f \<Rightarrow> 'f option" where
  "BINOP_float op add sub mul dv l r =
     (case op of OP_PLUS \<Rightarrow> Some (add l r) | OP_MINUS \<Rightarrow> Some (sub l r) | OP_MUL \<Rightarrow> Some (mul l r) | OP_DIV \<Rightarrow> Some (dv l r)
      | _ \<Rightarrow> None)"

definition RELOP :: "typecode_t \<Rightarrow> optype_t \<Rightarrow> constval_t \<Rightarrow> constval_t \<Rightarrow> constval_t cres" where
  "RELOP ot op l r =
     (let result = (\<lambda>b. defined b (\<lambda>b. Value (cv4 (truth b)))) in
      case ot of
        TY_INT \<Rightarrow> result (RELOP_int op (sint (cv_low l)) (sint (cv_low r)))
      | TY_UINT \<Rightarrow> result (RELOP_int op (uint (cv_low l)) (uint (cv_low r)))
      | TY_FLOAT \<Rightarrow> result (RELOP_float op f_eq f_lt f_le 0 (cv_low l) (cv_low r))
      | TY_LONGLONG \<Rightarrow> defined (cv_wide l) (\<lambda>a. defined (cv_wide r) (\<lambda>b. result (RELOP_int op (sint a) (sint b))))
      | TY_ULONGLONG \<Rightarrow> defined (cv_wide l) (\<lambda>a. defined (cv_wide r) (\<lambda>b. result (RELOP_int op (uint a) (uint b))))
      | TY_DOUBLE \<Rightarrow> defined (cv_wide l) (\<lambda>a. defined (cv_wide r) (\<lambda>b. result (RELOP_float op d_eq d_lt d_le 0 a b)))
      | _ \<Rightarrow> Panics)"

definition BINOP :: "fpu \<Rightarrow> typecode_t \<Rightarrow> optype_t \<Rightarrow> constval_t \<Rightarrow> constval_t \<Rightarrow> constval_t cres" where
  "BINOP u ot op l r =
     (case ot of
        TY_INT \<Rightarrow> defined (BINOP_int op (sint (cv_low l)) (sint (cv_low r)))
          (\<lambda>i. if fits_int i then Value (cv4 (word_of_int i)) else Undefined)
      | TY_UINT \<Rightarrow> defined (BINOP_int op (uint (cv_low l)) (uint (cv_low r))) (\<lambda>i. Value (cv4 (word_of_int i)))
      | TY_FLOAT \<Rightarrow> defined (BINOP_float op (f_add u) (f_sub u) (f_mul u) (f_div u) (cv_low l) (cv_low r)) (\<lambda>f. Value (cv4 f))
      | TY_LONGLONG \<Rightarrow> defined (cv_wide l) (\<lambda>a. defined (cv_wide r) (\<lambda>b.
          defined (BINOP_int op (sint a) (sint b)) (\<lambda>i. if fits_long i then Value (cv8 (word_of_int i)) else Undefined)))
      | TY_ULONGLONG \<Rightarrow> defined (cv_wide l) (\<lambda>a. defined (cv_wide r) (\<lambda>b.
          defined (BINOP_int op (uint a) (uint b)) (\<lambda>i. Value (cv8 (word_of_int i)))))
      | TY_DOUBLE \<Rightarrow> defined (cv_wide l) (\<lambda>a. defined (cv_wide r) (\<lambda>b.
          defined (BINOP_float op (d_add u) (d_sub u) (d_mul u) (d_div u) a b) (\<lambda>d. Value (cv8 d))))
      | _ \<Rightarrow> Panics)"

definition is_zero :: "typecode_t \<Rightarrow> constval_t \<Rightarrow> bool option" where
  "is_zero ot v =
     (case ot of
        TY_INT \<Rightarrow> Some (cv_low v = 0)
      | TY_UINT \<Rightarrow> Some (cv_low v = 0)
      | TY_FLOAT \<Rightarrow> Some (f_is_zero (cv_low v))
      | TY_DOUBLE \<Rightarrow> map_option d_is_zero (cv_wide v)
      | _ \<Rightarrow> map_option (\<lambda>w. w = 0) (cv_wide v))"

section \<open>Evaluation\<close>

text \<open>\<open>eval_unary_const_expr\<close> after the operand.  What it computes from an operand that is no constant is thrown
  away.\<close>

definition unary_value :: "optype_t \<Rightarrow> typecode_t \<Rightarrow> constval_t \<Rightarrow> constval_t cres" where
  "unary_value op ot v =
     (case op of
        OP_LOGICAL_NOT \<Rightarrow> if ot \<in> {TY_INT, TY_UINT} then Value (cv4 (truth (cv_low v = 0))) else Panics
      | OP_BITWISE_NOT \<Rightarrow> if ot \<in> {TY_INT, TY_UINT} then Value (cv4 (NOT (cv_low v))) else Panics
      | OP_UNARY_PLUS \<Rightarrow> Value v
      | OP_UNARY_MINUS \<Rightarrow>
          (if ot = TY_INT then
             (if fits_int (- sint (cv_low v)) then Value (cv4 (- cv_low v)) else Undefined)
           else if ot = TY_UINT then Value (cv4 (- cv_low v))
           else if ot = TY_FLOAT then Value (cv4 (f_neg (cv_low v)))
           else if ot = TY_DOUBLE then defined (cv_wide v) (\<lambda>d. Value (cv8 (d_neg d)))
           else if ot = TY_LONGLONG then
             defined (cv_wide v) (\<lambda>w. if fits_long (- sint w) then Value (cv8 (- w)) else Undefined)
           else if ot = TY_ULONGLONG then defined (cv_wide v) (\<lambda>w. Value (cv8 (- w)))
           else Panics)
      | _ \<Rightarrow> Panics)"

definition bad_unary :: "optype_t \<Rightarrow> bool" where
  "bad_unary op \<longleftrightarrow> op \<in> {OP_PREINC, OP_PREDEC, OP_POSTINC, OP_POSTDEC, OP_ADDRESS_OF, OP_DEREF}"

definition eval_unary :: "optype_t \<Rightarrow> typecode_t cres \<Rightarrow> constval_t cres \<Rightarrow> constval_t cres" where
  "eval_unary op ot v =
     seq v (\<lambda>v. seq_ok ot (\<lambda>ot.
       if bad_unary op then Not_Constant
       else case v of
         Some v \<Rightarrow> unary_value op ot v
       | None \<Rightarrow> if unary_value op ot (cv8 0) = Panics then Panics else Not_Constant))"

text \<open>\<open>eval_scale_const_expr\<close>; the factor is a \<open>long\<close> and so is the product.\<close>

definition scale_value :: "optype_t \<Rightarrow> word64 \<Rightarrow> constval_t \<Rightarrow> constval_t cres" where
  "scale_value op factor v =
     (let i = sint (cv_low v); n = sint factor in
      case op of
        OP_MUL \<Rightarrow> if fits_long (i * n) then Value (cv4 (word_of_int (i * n))) else Undefined
      | OP_DIV \<Rightarrow> if n = 0 \<or> c_rem i n \<noteq> 0 then Panics else Value (cv4 (word_of_int (c_quot i n)))
      | _ \<Rightarrow> Panics)"

text \<open>\<open>eval_binary_const_expr\<close> after its operands.  A division by an operand that is no constant works on
  memory that was not written, and so does the division of such an operand by -1.\<close>

definition bad_binary :: "optype_t \<Rightarrow> bool" where
  "bad_binary op \<longleftrightarrow> op \<in> {OP_ASSIGN, OP_MUL_ASSIGN, OP_DIV_ASSIGN, OP_MOD_ASSIGN, OP_PLUS_ASSIGN, OP_MINUS_ASSIGN,
     OP_LSHIFT_ASSIGN, OP_RSHIFT_ASSIGN, OP_BITWISE_AND_ASSIGN, OP_BITWISE_XOR_ASSIGN, OP_BITWISE_OR_ASSIGN, OP_COMMA}"

definition const_relational :: "optype_t \<Rightarrow> bool" where
  "const_relational op \<longleftrightarrow> op \<in> {OP_LOGICAL_OR, OP_LOGICAL_AND, OP_IS_EQUAL, OP_NOT_EQUAL, OP_LESS, OP_GREATER, OP_LESS_OR_EQUAL,
     OP_GREATER_OR_EQUAL}"

definition binary_value :: "fpu \<Rightarrow> optype_t \<Rightarrow> typecode_t \<Rightarrow> constval_t option \<Rightarrow> constval_t option \<Rightarrow> constval_t cres" where
  "binary_value u op ot l r =
     (let both = (\<lambda>f. case (l, r) of (Some l, Some r) \<Rightarrow> f l r | _ \<Rightarrow> Not_Constant);
          intop = (\<lambda>l r. defined (INTOP ot op (cv_low l) (cv_low r)) (\<lambda>w. Value (cv4 w))) in
      if bad_binary op then Not_Constant
      else if op \<in> {OP_BITWISE_OR, OP_BITWISE_XOR, OP_BITWISE_AND, OP_LSHIFT, OP_RSHIFT} then
        (if ot \<in> {TY_INT, TY_UINT} then both intop else Panics)
      else if const_relational op then both (RELOP ot op)
      else if op \<in> {OP_PLUS, OP_MINUS, OP_MUL} then both (BINOP u ot op)
      else if op \<in> {OP_DIV, OP_MOD} then
        (case r of
           Some rv \<Rightarrow> defined (is_zero ot rv) (\<lambda>z.
             if z then Not_Constant
             else if op = OP_MOD \<and> ot \<notin> {TY_INT, TY_UINT} then Panics
             else if l = None \<and> (ot = TY_INT \<and> cv_low rv = -1 \<or> ot = TY_LONGLONG \<and> cv_wide rv = Some (-1)) then Undefined
             else both (if op = OP_MOD then intop else BINOP u ot op))
         | None \<Rightarrow>
             (if op = OP_MOD \<and> ot \<notin> {TY_INT, TY_UINT} then Panics
              else if ot \<in> {TY_FLOAT, TY_DOUBLE} then Not_Constant else Undefined))
      else Panics)"

definition eval_binary :: "fpu \<Rightarrow> optype_t \<Rightarrow> typecode_t cres \<Rightarrow> typecode_t cres \<Rightarrow> constval_t cres \<Rightarrow> constval_t cres \<Rightarrow> constval_t cres" where
  "eval_binary u op ot rt l r =
     seq l (\<lambda>l. seq r (\<lambda>r. seq_ok ot (\<lambda>ot.
       if l \<noteq> None \<and> r \<noteq> None \<and> op \<noteq> OP_LSHIFT \<and> op \<noteq> OP_RSHIFT
       then seq_ok rt (\<lambda>rt. if rt \<noteq> ot then Panics else binary_value u op ot l r)
       else binary_value u op ot l r)))"

text \<open>\<open>eval_conditional_const_expr\<close>: all three parts are evaluated, and the condition is read as an \<open>int\<close>.\<close>

definition eval_conditional :: "constval_t cres \<Rightarrow> constval_t cres \<Rightarrow> constval_t cres \<Rightarrow> constval_t cres" where
  "eval_conditional c l r =
     seq c (\<lambda>c. seq l (\<lambda>l. seq r (\<lambda>r.
       case (c, l, r) of
         (Some c, Some l, Some r) \<Rightarrow> Value (if cv_low c \<noteq> 0 then l else r)
       | _ \<Rightarrow> Not_Constant)))"

text \<open>\<open>do_unary_conversion\<close>.  A floating value converts to an integer it fits.\<close>

definition to_int32 :: "word64 option \<Rightarrow> constval_t cres" where
  "to_int32 w = defined w (\<lambda>w. if fits_int (sint w) then Value (cv4 (ucast w)) else Undefined)"

definition to_uint32 :: "word64 option \<Rightarrow> constval_t cres" where
  "to_uint32 w = defined w (\<lambda>w. if w < 2 ^ 32 then Value (cv4 (ucast w)) else Undefined)"

definition of_int_value :: "fpu \<Rightarrow> typecode_t \<Rightarrow> int \<Rightarrow> constval_t cres" where
  "of_int_value u newot i =
     (case newot of
        TY_DOUBLE \<Rightarrow> Value (cv8 (d_of_int u i))
      | TY_FLOAT \<Rightarrow> Value (cv4 (f_of_int u i))
      | TY_LONGLONG \<Rightarrow> Value (cv8 (word_of_int i))
      | TY_ULONGLONG \<Rightarrow> Value (cv8 (word_of_int i))
      | TY_INT \<Rightarrow> Value (cv4 (word_of_int i))
      | TY_UINT \<Rightarrow> Value (cv4 (word_of_int i))
      | _ \<Rightarrow> Panics)"

definition convert :: "fpu \<Rightarrow> typecode_t \<Rightarrow> typecode_t \<Rightarrow> constval_t \<Rightarrow> constval_t cres" where
  "convert u oldot newot v =
     (case oldot of
        TY_DOUBLE \<Rightarrow> defined (cv_wide v) (\<lambda>d.
          case newot of
            TY_DOUBLE \<Rightarrow> Value (cv8 d)
          | TY_FLOAT \<Rightarrow> Value (cv4 (f_of_d u d))
          | TY_INT \<Rightarrow> to_int32 (d_to_longlong u d)
          | TY_UINT \<Rightarrow> to_uint32 (d_to_ulong u d)
          | _ \<Rightarrow> Panics)
      | TY_FLOAT \<Rightarrow>
          (let f = cv_low v in
           case newot of
             TY_DOUBLE \<Rightarrow> Value (cv8 (d_of_f u f))
           | TY_FLOAT \<Rightarrow> Value (cv4 f)
           | TY_INT \<Rightarrow> to_int32 (f_to_longlong u f)
           | TY_UINT \<Rightarrow> to_uint32 (f_to_ulong u f)
           | _ \<Rightarrow> Panics)
      | TY_INT \<Rightarrow> of_int_value u newot (sint (cv_low v))
      | TY_UINT \<Rightarrow> of_int_value u newot (uint (cv_low v))
      | TY_LONGLONG \<Rightarrow> defined (cv_wide v) (\<lambda>w. of_int_value u newot (sint w))
      | TY_ULONGLONG \<Rightarrow> defined (cv_wide v) (\<lambda>w. of_int_value u newot (uint w))
      | _ \<Rightarrow> Panics)"

definition do_unary_conversion :: "fpu \<Rightarrow> typecode_t \<Rightarrow> typecode_t cres \<Rightarrow> typecode_t cres \<Rightarrow> constval_t \<Rightarrow> constval_t cres" where
  "do_unary_conversion u tc oldot newot v =
     seq_ok oldot (\<lambda>oldot. seq_ok newot (\<lambda>newot. seq_ok (convert u oldot newot v) (\<lambda>n.
       Value (if tc = TY_CHAR then v\<lparr>cv_low := signed_take_bit 7 (cv_low n)\<rparr>
              else if tc = TY_SHORT then v\<lparr>cv_low := signed_take_bit 15 (cv_low n)\<rparr>
              else if tc = TY_UCHAR then v\<lparr>cv_low := take_bit 8 (cv_low n)\<rparr>
              else if tc = TY_USHORT then v\<lparr>cv_low := take_bit 16 (cv_low n)\<rparr>
              else n))))"

definition IS_ARITHMETIC_OR_PTR_TYPE :: "typecode_t \<Rightarrow> bool" where
  "IS_ARITHMETIC_OR_PTR_TYPE tc \<longleftrightarrow> ci_is_integral tc \<or> tc = TY_FLOAT \<or> tc = TY_DOUBLE \<or> tc = DT_PTR_TO"

text \<open>\<open>ET_UNDEF_VAR\<close> is reported with the name of a variable it does not have.\<close>

fun eval_const_expr :: "typecode_t \<Rightarrow> fpu \<Rightarrow> expr_t \<Rightarrow> constval_t cres" where
  "eval_const_expr bt u (Expr t c k) =
     (case k of
        ET_FUNCNAME _ \<Rightarrow> Not_Constant
      | ET_VAR _ \<Rightarrow> Not_Constant
      | ET_UNDEF_VAR \<Rightarrow> Undefined
      | ET_FUNC_CALL _ _ \<Rightarrow> Not_Constant
      | ET_DOT _ _ \<Rightarrow> Not_Constant
      | ET_STRING_CONST _ \<Rightarrow> Not_Constant
      | ET_SIZEOF w \<Rightarrow> Value (cv4 (ucast w))
      | ET_ENUM_CONST w \<Rightarrow> Value (cv4 (ucast w))
      | ET_CHAR_CONST w \<Rightarrow> defined t (\<lambda>t. Value (if ty_code t \<in> {TY_LONGLONG, TY_ULONGLONG} then cv8 w else cv4 (ucast w)))
      | ET_INT_CONST w \<Rightarrow> defined t (\<lambda>t. Value (if ty_code t \<in> {TY_LONGLONG, TY_ULONGLONG} then cv8 w else cv4 (ucast w)))
      | ET_FLOATING_CONST d f \<Rightarrow> Value (cv8 d)
      | ET_PROMOTION op e \<Rightarrow> seq_ok (eval_const_expr bt u e) (\<lambda>v. defined t (\<lambda>t'.
          do_unary_conversion u (ty_code t') (operand_typecode bt e True) (operand_typecode bt (Expr t c k) True) v))
      | ET_ASSIGNMENT_CONVERSION op e \<Rightarrow> seq_ok (eval_const_expr bt u e) (\<lambda>v. defined t (\<lambda>t'.
          do_unary_conversion u (ty_code t') (operand_typecode bt e True) (operand_typecode bt (Expr t c k) True) v))
      | ET_SCALE op e n \<Rightarrow> seq_ok (eval_const_expr bt u e) (scale_value op n)
      | ET_BINARY op l r \<Rightarrow>
          eval_binary u op (operand_typecode bt l False) (operand_typecode bt r False) (eval_const_expr bt u l) (eval_const_expr bt u r)
      | ET_UNARY op e \<Rightarrow> eval_unary op (operand_typecode bt e False) (eval_const_expr bt u e)
      | ET_CAST op e \<Rightarrow> defined t (\<lambda>t'.
          if \<not> IS_ARITHMETIC_OR_PTR_TYPE (ty_code t') \<and> ty_code t' \<noteq> TY_ENUM then Not_Constant
          else seq_ok (eval_const_expr bt u e) (\<lambda>v.
            do_unary_conversion u (ty_code t') (operand_typecode bt e True) (operand_typecode bt (Expr t c k) True) v))
      | ET_CONDITIONAL b l r \<Rightarrow> eval_conditional (eval_const_expr bt u b) (eval_const_expr bt u l) (eval_const_expr bt u r)
      | ET_MULTI_ARROW _ _ _ \<Rightarrow> Panics)"

declare eval_const_expr.simps [simp del]

definition ci_evaluate_constant_expression :: "typecode_t \<Rightarrow> fpu \<Rightarrow> expr_t \<Rightarrow> bool \<Rightarrow> constval_t cres" where
  "ci_evaluate_constant_expression bt u e must_be_integral =
     (case ty e of
        None \<Rightarrow> Not_Constant
      | Some tc \<Rightarrow>
          if must_be_integral \<and> tc \<noteq> TY_ENUM \<and> \<not> ci_is_integral tc then Not_Constant
          else eval_const_expr bt u e)"

text \<open>What the expression compiler reads of the value: it looks at \<open>cv_long_long\<close> for the \<open>long long\<close> types and at
  \<open>cv_int\<close> for the others, whatever the evaluation returns.\<close>

definition folded_value :: "typecode_t \<Rightarrow> fpu \<Rightarrow> expr_t \<Rightarrow> word64 option" where
  "folded_value bt u e =
     (case ci_evaluate_constant_expression bt u e True of
        Value v \<Rightarrow> if ty e = Some TY_LONGLONG \<or> ty e = Some TY_ULONGLONG then cv_wide v else Some (ucast (cv_low v))
      | _ \<Rightarrow> None)"

definition ups_cparams :: "typecode_t \<Rightarrow> fpu \<Rightarrow> cparams" where
  "ups_cparams bt u = \<lparr>cp_bool_type = bt, cp_evalconst = folded_value bt u\<rparr>"

end
