(* ===== verification/Ups_Const_Props.thy ===== *)
theory Ups_Const_Props
  imports Ups_Const Ups_Compile_Sem
begin

text \<open>
  Constant folding against the meaning of C: \<open>c_value\<close> gives the value that C defines for an integer constant
  expression, \<open>no_error\<close> asks for a value of every part.  The evaluator of \<open>Ups_Const\<close> computes this
  value.
\<close>

section \<open>The meaning of C\<close>

text \<open>The integer types that the evaluator represents without loss; \<open>long\<close> is not one of them on LP64.\<close>

definition in_type :: "typecode_t \<Rightarrow> int \<Rightarrow> bool" where
  "in_type tc v \<longleftrightarrow>
     (if tc = TY_CHAR then - 128 \<le> v \<and> v < 128
      else if tc = TY_UCHAR then 0 \<le> v \<and> v < 256
      else if tc = TY_SHORT then - 32768 \<le> v \<and> v < 32768
      else if tc = TY_USHORT then 0 \<le> v \<and> v < 65536
      else if tc = TY_INT \<or> tc = TY_ENUM then fits_int v
      else tc = TY_UINT \<and> 0 \<le> v \<and> v < 2 ^ 32)"

text \<open>Conversion to a type: modulo its range.\<close>

definition c_convert :: "typecode_t \<Rightarrow> int \<Rightarrow> int option" where
  "c_convert tc v =
     (if tc = TY_CHAR then Some (signed_take_bit 7 v)
      else if tc = TY_UCHAR then Some (take_bit 8 v)
      else if tc = TY_SHORT then Some (signed_take_bit 15 v)
      else if tc = TY_USHORT then Some (take_bit 16 v)
      else if tc = TY_INT \<or> tc = TY_ENUM then Some (signed_take_bit 31 v)
      else if tc = TY_UINT then Some (take_bit 32 v)
      else None)"

text \<open>A result of an arithmetic operator: an \<open>int\<close> must not overflow, an \<open>unsigned\<close> is taken modulo \<open>2 ^ 32\<close>.\<close>

definition c_result :: "typecode_t \<Rightarrow> int \<Rightarrow> int option" where
  "c_result ot v = (if ot = TY_UINT then Some (v mod 2 ^ 32) else if fits_int v then Some v else None)"

definition c_binary :: "typecode_t \<Rightarrow> optype_t \<Rightarrow> int \<Rightarrow> int \<Rightarrow> int option" where
  "c_binary ot op a b =
     (case op of
        OP_PLUS \<Rightarrow> c_result ot (a + b)
      | OP_MINUS \<Rightarrow> c_result ot (a - b)
      | OP_MUL \<Rightarrow> c_result ot (a * b)
      | OP_DIV \<Rightarrow> if b = 0 then None else c_result ot (c_quot a b)
      | OP_MOD \<Rightarrow> if b = 0 \<or> c_result ot (c_quot a b) = None then None else Some (c_rem a b)
      | OP_BITWISE_AND \<Rightarrow> Some (a AND b)
      | OP_BITWISE_OR \<Rightarrow> Some (a OR b)
      | OP_BITWISE_XOR \<Rightarrow> Some (a XOR b)
      | OP_LSHIFT \<Rightarrow> if 0 \<le> b \<and> b < 32 \<and> 0 \<le> a then c_result ot (a * 2 ^ nat b) else None
      | OP_RSHIFT \<Rightarrow> if 0 \<le> b \<and> b < 32 then Some (a div 2 ^ nat b) else None
      | OP_IS_EQUAL \<Rightarrow> Some (of_bool (a = b))
      | OP_NOT_EQUAL \<Rightarrow> Some (of_bool (a \<noteq> b))
      | OP_LESS \<Rightarrow> Some (of_bool (a < b))
      | OP_GREATER \<Rightarrow> Some (of_bool (a > b))
      | OP_LESS_OR_EQUAL \<Rightarrow> Some (of_bool (a \<le> b))
      | OP_GREATER_OR_EQUAL \<Rightarrow> Some (of_bool (a \<ge> b))
      | _ \<Rightarrow> None)"

definition c_unary :: "typecode_t \<Rightarrow> optype_t \<Rightarrow> int \<Rightarrow> int option" where
  "c_unary ot op a =
     (case op of
        OP_LOGICAL_NOT \<Rightarrow> Some (of_bool (a = 0))
      | OP_BITWISE_NOT \<Rightarrow> c_result ot (- a - 1)
      | OP_UNARY_PLUS \<Rightarrow> Some a
      | OP_UNARY_MINUS \<Rightarrow> c_result ot (- a)
      | _ \<Rightarrow> None)"

text \<open>Operands of arithmetic operators are \<open>int\<close> or \<open>unsigned\<close> after the promotions; the result of a comparison or
  a logical operator is an \<open>int\<close>, any other result has the type of the left operand.\<close>

definition operand_type :: "typecode_t option \<Rightarrow> bool" where
  "operand_type t \<longleftrightarrow> t = Some TY_INT \<or> t = Some TY_UINT"

definition op_typed :: "optype_t \<Rightarrow> typecode_t option \<Rightarrow> typecode_t option \<Rightarrow> typecode_t option \<Rightarrow> bool" where
  "op_typed op t l r \<longleftrightarrow> operand_type l \<and> operand_type r
     \<and> (op \<noteq> OP_LSHIFT \<and> op \<noteq> OP_RSHIFT \<longrightarrow> r = l) \<and> t = (if const_relational op \<or> op = OP_LOGICAL_NOT then Some TY_INT else l)"

fun c_value :: "expr_t \<Rightarrow> int option" where
  "c_value (Expr t c k) =
     (case map_option ty_code t of
        None \<Rightarrow> None
      | Some tc \<Rightarrow>
          (case k of
             ET_INT_CONST w \<Rightarrow> if in_type tc (sint w) then Some (sint w) else None
           | ET_CHAR_CONST w \<Rightarrow> if in_type tc (sint w) then Some (sint w) else None
           | ET_ENUM_CONST w \<Rightarrow> if in_type tc (sint w) then Some (sint w) else None
           | ET_PROMOTION op e \<Rightarrow> do { v \<leftarrow> c_value e; c_convert tc v }
           | ET_CAST op e \<Rightarrow> do { v \<leftarrow> c_value e; c_convert tc v }
           | ET_ASSIGNMENT_CONVERSION op e \<Rightarrow> do { v \<leftarrow> c_value e; c_convert tc v }
           | ET_UNARY op e \<Rightarrow>
               (if op_typed op (Some tc) (ty e) (ty e) then do { v \<leftarrow> c_value e; c_unary (the (ty e)) op v } else None)
           | ET_BINARY op l r \<Rightarrow>
               (if \<not> op_typed op (Some tc) (ty l) (ty r) then None
                else if op = OP_LOGICAL_AND then do {
                  a \<leftarrow> c_value l;
                  if a = 0 then Some 0 else do { b \<leftarrow> c_value r; Some (of_bool (b \<noteq> 0)) } }
                else if op = OP_LOGICAL_OR then do {
                  a \<leftarrow> c_value l;
                  if a \<noteq> 0 then Some 1 else do { b \<leftarrow> c_value r; Some (of_bool (b \<noteq> 0)) } }
                else do { a \<leftarrow> c_value l; b \<leftarrow> c_value r; c_binary (the (ty l)) op a b })
           | ET_CONDITIONAL b l r \<Rightarrow>
               (if ty l = Some tc \<and> ty r = Some tc
                then do { x \<leftarrow> c_value b; if x \<noteq> 0 then c_value l else c_value r } else None)
           | _ \<Rightarrow> None))"

declare c_value.simps [simp del]

fun no_error :: "expr_t \<Rightarrow> bool" where
  "no_error (Expr t c k) \<longleftrightarrow> c_value (Expr t c k) \<noteq> None \<and>
     (case k of
        ET_PROMOTION op e \<Rightarrow> no_error e
      | ET_CAST op e \<Rightarrow> no_error e
      | ET_ASSIGNMENT_CONVERSION op e \<Rightarrow> no_error e
      | ET_UNARY op e \<Rightarrow> no_error e
      | ET_BINARY op l r \<Rightarrow> no_error l \<and> no_error r
      | ET_CONDITIONAL b l r \<Rightarrow> no_error b \<and> no_error l \<and> no_error r
      | _ \<Rightarrow> True)"

section \<open>Folding is right\<close>

text \<open>A value of a type in the union.\<close>

definition holds_value :: "typecode_t \<Rightarrow> int \<Rightarrow> constval_t \<Rightarrow> bool" where
  "holds_value tc v cv \<longleftrightarrow> in_type tc v \<and> cv_low cv = word_of_int v"

lemma sint_of_fits_int: "fits_int v \<Longrightarrow> sint (word_of_int v :: 32 word) = v"
  by (simp add: fits_int_def sint_sbintrunc' signed_take_bit_int_eq_self)

lemma uint_of_unsigned: "0 \<le> v \<Longrightarrow> v < 2 ^ 32 \<Longrightarrow> uint (word_of_int v :: 32 word) = v"
  by (simp add: uint_word_of_int_eq take_bit_int_eq_self)

lemma holds_valueD:
  "holds_value TY_INT v cv \<Longrightarrow> sint (cv_low cv) = v"
  "holds_value TY_UINT v cv \<Longrightarrow> uint (cv_low cv) = v"
  by (simp_all add: holds_value_def in_type_def sint_of_fits_int uint_of_unsigned)

lemma in_typeD:
  "in_type TY_INT v \<Longrightarrow> fits_int v"
  "in_type TY_UINT v \<Longrightarrow> 0 \<le> v \<and> v < 2 ^ 32"
  by (simp_all add: in_type_def)

lemma truth_word: "truth b = word_of_int (of_bool b)" by (simp add: truth_def)

lemma c_result_word:
  assumes "c_result ot i = Some v" and "operand_type (Some ot)"
  shows "in_type ot v \<and> word_of_int v = (word_of_int i :: 32 word) \<and> (ot = TY_INT \<longrightarrow> v = i \<and> fits_int i)"
proof (cases "ot = TY_UINT")
  case True
  then have v: "v = take_bit 32 i" using assms(1) by (simp add: c_result_def take_bit_eq_mod)
  have "(word_of_int v :: 32 word) = word_of_int i" by (simp add: v word_of_int_eq_iff)
  with True v take_bit_int_less_exp[of 32 i] show ?thesis by (simp add: in_type_def)
qed (use assms in \<open>auto simp: c_result_def in_type_def operand_type_def split: if_split_asm\<close>)

lemma binop_result:
  assumes "holds_value ot a l" and "holds_value ot b r" and "operand_type (Some ot)"
    and "BINOP_int op a b = Some i" and "c_result ot i = Some v"
  shows "\<exists>cv. BINOP u ot op l r = Value cv \<and> holds_value ot v cv"
proof -
  have "ot = TY_INT \<or> ot = TY_UINT" using assms(3) by (simp add: operand_type_def)
  then show ?thesis
  proof
    assume o: "ot = TY_INT"
    then show ?thesis using c_result_word[OF assms(5,3)] assms(4) holds_valueD(1)[OF assms(1)[unfolded o]] holds_valueD(1)[OF assms(2)[unfolded o]]
      by (auto simp: BINOP_def defined_def holds_value_def cv4_def)
  next
    assume o: "ot = TY_UINT"
    then show ?thesis using c_result_word[OF assms(5,3)] assms(4) holds_valueD(2)[OF assms(1)[unfolded o]] holds_valueD(2)[OF assms(2)[unfolded o]]
      by (simp add: BINOP_def defined_def holds_value_def cv4_def)
  qed
qed

lemma relop_result:
  assumes "holds_value ot a l" and "holds_value ot b r" and "operand_type (Some ot)" and "RELOP_int op a b = Some x"
  shows "\<exists>cv. RELOP ot op l r = Value cv \<and> holds_value TY_INT (of_bool x) cv"
proof -
  have "ot = TY_INT \<or> ot = TY_UINT" using assms(3) by (simp add: operand_type_def)
  then have "RELOP ot op l r = Value (cv4 (truth x))"
    using assms(1,2,4) holds_valueD by (auto simp: RELOP_def defined_def Let_def)
  then show ?thesis by (simp add: holds_value_def cv4_def truth_word in_type_def fits_int_def)
qed

text \<open>Bitwise operators, shifts and the remainder.\<close>

lemma signed_bits:
  fixes a b :: int
  assumes "fits_int a" and "fits_int b"
  shows "fits_int (a AND b)" "fits_int (a OR b)" "fits_int (a XOR b)"
proof -
  have s: "signed_take_bit 31 a = a" "signed_take_bit 31 b = b" using assms by (simp_all add: fits_int_def signed_take_bit_int_eq_self)
  have f: "fits_int (signed_take_bit 31 x)" for x :: int
    using signed_take_bit_int_greater_eq_minus_exp[of 31 x] signed_take_bit_int_less_exp[of 31 x] by (simp add: fits_int_def)
  have "signed_take_bit 31 (a AND b) = signed_take_bit 31 a AND signed_take_bit 31 b"
    "signed_take_bit 31 (a OR b) = signed_take_bit 31 a OR signed_take_bit 31 b"
    "signed_take_bit 31 (a XOR b) = signed_take_bit 31 a XOR signed_take_bit 31 b"
    by (simp_all only: bit_eq_iff bit_signed_take_bit_iff bit_and_iff bit_or_iff bit_xor_iff) blast+
  then have "signed_take_bit 31 (a AND b) = a AND b" "signed_take_bit 31 (a OR b) = a OR b" "signed_take_bit 31 (a XOR b) = a XOR b"
    by (simp_all add: s)
  then show "fits_int (a AND b)" "fits_int (a OR b)" "fits_int (a XOR b)" using f by metis+
qed

lemma unsigned_bits:
  fixes a b :: int
  assumes "0 \<le> a" "a < 2 ^ 32" and "0 \<le> b" "b < 2 ^ 32"
  shows "a AND b < 2 ^ 32" "a OR b < 2 ^ 32" "a XOR b < 2 ^ 32"
proof -
  have s: "take_bit 32 a = a" "take_bit 32 b = b" using assms by (simp_all add: take_bit_int_eq_self)
  have "take_bit 32 (a AND b) = a AND b" "take_bit 32 (a OR b) = a OR b" "take_bit 32 (a XOR b) = a XOR b"
    by (simp_all add: s)
  then show "a AND b < 2 ^ 32" "a OR b < 2 ^ 32" "a XOR b < 2 ^ 32" using take_bit_int_less_exp[of 32] by metis+
qed

lemma bits_result:
  assumes "in_type ot a" and "in_type ot b" and "operand_type (Some ot)"
  shows "in_type ot (a AND b)" "in_type ot (a OR b)" "in_type ot (a XOR b)"
  using assms signed_bits[of a b] unsigned_bits[of a b] by (auto simp: operand_type_def in_type_def)

lemma c_rem_range: "c_rem a b = sgn a * (\<bar>a\<bar> mod \<bar>b\<bar>)" for a b :: int
proof -
  have "b * c_quot a b = sgn a * (\<bar>b\<bar> * (\<bar>a\<bar> div \<bar>b\<bar>))" by (cases "b = 0") (simp_all add: c_quot_def abs_sgn ac_simps)
  moreover have "a = sgn a * \<bar>a\<bar>" by (simp add: sgn_mult_abs)
  moreover have "\<bar>a\<bar> mod \<bar>b\<bar> = \<bar>a\<bar> - \<bar>b\<bar> * (\<bar>a\<bar> div \<bar>b\<bar>)" by (simp add: minus_mult_div_eq_mod)
  ultimately show ?thesis unfolding c_rem_def by (metis right_diff_distrib)
qed

lemma rem_result:
  assumes "in_type ot a" and "in_type ot b" and "b \<noteq> 0" and "operand_type (Some ot)"
  shows "in_type ot (c_rem a b)"
proof -
  have m: "0 \<le> \<bar>a\<bar> mod \<bar>b\<bar>" "\<bar>a\<bar> mod \<bar>b\<bar> < \<bar>b\<bar>" using assms(3) by simp_all
  consider "ot = TY_INT" | "ot = TY_UINT" using assms(4) by (auto simp: operand_type_def)
  then show ?thesis
  proof cases
    case 1
    then have "\<bar>b\<bar> \<le> 2 ^ 31" using assms(2) by (auto simp: in_type_def fits_int_def)
    then have "\<bar>c_rem a b\<bar> < 2 ^ 31" using m unfolding c_rem_range by (simp add: abs_mult abs_sgn_eq)
    then show ?thesis using 1 by (auto simp: in_type_def fits_int_def abs_less_iff)
  next
    case 2
    then have "0 \<le> c_rem a b" "c_rem a b < b" using assms(1-3) m unfolding c_rem_range by (auto simp: in_type_def sgn_if)
    then show ?thesis using 2 assms(2) by (simp add: in_type_def)
  qed
qed

lemma operand_cases: "operand_type (Some ot) \<Longrightarrow> ot = TY_INT \<or> ot = TY_UINT" by (simp add: operand_type_def)

lemma shift_count:
  assumes "holds_value rt b r" and "operand_type (Some rt)" and "0 \<le> b" and "b < 32"
  shows "cv_low r < 32" "unat (cv_low r) = nat b"
proof -
  have "uint (cv_low r) = b" using assms by (simp add: holds_value_def uint_of_unsigned)
  moreover have "unat (cv_low r) = nat (uint (cv_low r))" by simp
  ultimately show "cv_low r < 32" "unat (cv_low r) = nat b" using assms(4) by (simp_all add: word_less_def)
qed

lemma shifted_right:
  assumes "in_type ot a" and "operand_type (Some ot)"
  shows "in_type ot (a div 2 ^ n)"
proof -
  have p: "(0 :: int) < 2 ^ n" by simp
  have 1: "a div 2 ^ n \<le> a" if "0 \<le> a" using that p by (metis div_by_1 zdiv_mono2 zero_less_one one_le_power one_le_numeral)
  have 2: "a \<le> a div 2 ^ n" if "a < 0" using that p by (metis div_by_1 zdiv_mono2_neg zero_less_one one_le_power one_le_numeral)
  have 3: "a div 2 ^ n < 0" if "a < 0" using that p by (simp add: pos_imp_zdiv_neg_iff)
  have 4: "0 \<le> a div 2 ^ n" if "0 \<le> a" using that p by (simp add: pos_imp_zdiv_nonneg_iff)
  show ?thesis using operand_cases[OF assms(2)] assms(1) 1 2 3 4 by (cases "0 \<le> a") (auto simp: in_type_def fits_int_def)
qed

lemma word_of_its_int: "sint w = v \<Longrightarrow> w = word_of_int v" "uint w = v \<Longrightarrow> w = word_of_int v"
  by auto

lemma bits_word:
  "(word_of_int a :: 32 word) AND word_of_int b = word_of_int (a AND b)"
  "(word_of_int a :: 32 word) OR word_of_int b = word_of_int (a OR b)"
  "(word_of_int a :: 32 word) XOR word_of_int b = word_of_int (a XOR b)"
  by (rule bit_word_eqI, simp add: bit_word_of_int_iff bit_simps)+

lemma intop_result:
  assumes "holds_value ot a l" and "holds_value rt b r" and "operand_type (Some ot)" and "operand_type (Some rt)"
    and "op \<in> {OP_BITWISE_OR, OP_BITWISE_XOR, OP_BITWISE_AND, OP_LSHIFT, OP_RSHIFT, OP_MOD}"
    and "op \<noteq> OP_LSHIFT \<and> op \<noteq> OP_RSHIFT \<longrightarrow> rt = ot" and "c_binary ot op a b = Some v"
  shows "INTOP ot op (cv_low l) (cv_low r) = Some (word_of_int v) \<and> in_type ot v"
proof -
  have l: "in_type ot a" "cv_low l = word_of_int a" and r: "in_type rt b" "cv_low r = word_of_int b"
    using assms(1,2) by (simp_all add: holds_value_def)
  from assms(5) consider (bits) "op \<in> {OP_BITWISE_OR, OP_BITWISE_XOR, OP_BITWISE_AND}" | (left) "op = OP_LSHIFT"
    | (right) "op = OP_RSHIFT" | (rem) "op = OP_MOD" by blast
  then show ?thesis
  proof cases
    case bits
    then have "rt = ot" using assms(6) by auto
    with bits show ?thesis using assms(7) bits_result[OF l(1) _ assms(3), of b] r(1)
      by (auto simp: c_binary_def INTOP_def l(2) r(2) bits_word)
  next
    case left
    then have b: "0 \<le> b" "b < 32" and c: "c_result ot (a * 2 ^ nat b) = Some v"
      using assms(7) by (auto simp: c_binary_def split: if_split_asm)
    show ?thesis using c_result_word[OF c assms(3)] shift_count[OF assms(2,4) b] left
      by (simp add: INTOP_def l(2) push_bit_eq_mult)
  next
    case right
    then have b: "0 \<le> b" "b < 32" and v: "v = a div 2 ^ nat b"
      using assms(7) by (auto simp: c_binary_def split: if_split_asm)
    note n = shift_count[OF assms(2,4) b]
    have i: "in_type ot v" using shifted_right[OF l(1) assms(3)] v by simp
    from operand_cases[OF assms(3)] show ?thesis
    proof
      assume o: "ot = TY_INT"
      have "sint (signed_drop_bit (nat b) (cv_low l)) = v"
        using holds_valueD(1)[OF assms(1)[unfolded o]] v by (simp add: sint_signed_drop_bit_eq drop_bit_eq_div)
      then have "signed_drop_bit (nat b) (cv_low l) = word_of_int v" by (rule word_of_its_int)
      with i o n right show ?thesis by (simp add: INTOP_def)
    next
      assume o: "ot = TY_UINT"
      have "uint (drop_bit (nat b) (cv_low l)) = drop_bit (nat b) (uint (cv_low l))"
        using uint_lt2p[of "cv_low l"] by (simp add: unsigned_drop_bit_eq take_bit_int_eq_self)
      also have "\<dots> = v" using holds_valueD(2)[OF assms(1)[unfolded o]] v by (simp add: drop_bit_eq_div)
      finally have "uint (drop_bit (nat b) (cv_low l)) = v" .
      then have "drop_bit (nat b) (cv_low l) = word_of_int v" by (rule word_of_its_int)
      with i o n right show ?thesis by (simp add: INTOP_def)
    qed
  next
    case rem
    then have b: "b \<noteq> 0" "c_result ot (c_quot a b) \<noteq> None" and v: "v = c_rem a b" and t: "rt = ot"
      using assms(6,7) by (auto simp: c_binary_def split: if_split_asm)
    have i: "in_type ot v" using rem_result[OF l(1) _ b(1) assms(3)] r(1) t v by simp
    from operand_cases[OF assms(3)] show ?thesis
    proof
      assume o: "ot = TY_INT"
      then show ?thesis using i b(2) rem v holds_valueD(1)[OF assms(1)[unfolded o]] holds_valueD(1)[OF assms(2)[unfolded t o]]
        by (simp add: INTOP_def c_result_def split: if_split_asm)
    next
      assume o: "ot = TY_UINT"
      note u = holds_valueD(2)[OF assms(1)[unfolded o]] holds_valueD(2)[OF assms(2)[unfolded t o]]
      have ab: "0 \<le> a" "0 \<le> b" using l(1) r(1) by (simp_all add: o t in_type_def)
      have "c_rem a b = a mod b" using ab b(1) by (cases "a = 0") (simp_all add: c_rem_range)
      then have "uint (cv_low l mod cv_low r) = v" using u v by (simp add: uint_mod_distrib)
      then have "cv_low l mod cv_low r = word_of_int v" by (rule word_of_its_int)
      with i o rem show ?thesis by (simp add: INTOP_def)
    qed
  qed
qed

lemma c_binary_kinds:
  assumes "c_binary ot op a b = Some v"
  obtains (int) "op \<in> {OP_BITWISE_OR, OP_BITWISE_XOR, OP_BITWISE_AND, OP_LSHIFT, OP_RSHIFT}" "\<not> const_relational op"
    | (rel) x where "const_relational op" "RELOP_int op a b = Some x" "v = of_bool x"
    | (bin) i where "op \<in> {OP_PLUS, OP_MINUS, OP_MUL}" "\<not> const_relational op" "BINOP_int op a b = Some i" "c_result ot i = Some v"
    | (div) "op = OP_DIV" "b \<noteq> 0" "c_result ot (c_quot a b) = Some v"
    | (mod) "op = OP_MOD" "b \<noteq> 0"
proof (cases op)
qed (use assms that in \<open>auto simp: c_binary_def const_relational_def RELOP_int_def BINOP_int_def split: if_split_asm\<close>)

lemma holds_zero:
  assumes "holds_value tc v cv"
  shows "cv_low cv = 0 \<longleftrightarrow> v = 0"
proof -
  have "- (2 ^ 31) \<le> v" "v < 2 ^ 32" and "cv_low cv = word_of_int v"
    using assms by (auto simp: holds_value_def in_type_def fits_int_def split: if_split_asm)
  then show ?thesis using zdvd_imp_le[of "2 ^ 32" v] zdvd_imp_le[of "2 ^ 32" "- v"]
    by (auto simp: word_of_int_eq_0_iff)
qed

lemma zero_test: "holds_value ot v cv \<Longrightarrow> operand_type (Some ot) \<Longrightarrow> is_zero ot cv = Some (v = 0)"
  using holds_zero[of ot v cv] operand_cases[of ot] by (auto simp: is_zero_def)

lemma binary_result:
  assumes "holds_value ot a l" and "holds_value rt b r" and "op_typed op t (Some ot) (Some rt)" and "c_binary ot op a b = Some v"
  shows "\<exists>cv. binary_value u op ot (Some l) (Some r) = Value cv \<and> holds_value (the t) v cv"
proof -
  have ty: "operand_type (Some ot)" "operand_type (Some rt)" "op \<noteq> OP_LSHIFT \<and> op \<noteq> OP_RSHIFT \<longrightarrow> rt = ot"
    and t: "t = (if const_relational op \<or> op = OP_LOGICAL_NOT then Some TY_INT else Some ot)" using assms(3) by (auto simp: op_typed_def)
  have o2: "ot \<in> {TY_INT, TY_UINT}" using operand_cases[OF ty(1)] by auto
  have bb: "\<not> bad_binary op" using assms(4) by (cases op) (simp_all add: c_binary_def bad_binary_def)
  from assms(4) show ?thesis
  proof (cases rule: c_binary_kinds)
    case int
    have "INTOP ot op (cv_low l) (cv_low r) = Some (word_of_int v) \<and> in_type ot v"
      by (rule intop_result[OF assms(1,2) ty(1,2) _ ty(3) assms(4)]) (use int(1) in auto)
    then show ?thesis using int bb o2 t by (auto simp: binary_value_def defined_def holds_value_def cv4_def)
  next
    case (rel x)
    then have "rt = ot" using ty(3) by (auto simp: const_relational_def)
    from relop_result[OF assms(1) assms(2)[unfolded this] ty(1) rel(2)]
    show ?thesis using rel bb t by (auto simp: binary_value_def const_relational_def)
  next
    case (bin i)
    then have "rt = ot" using ty(3) by auto
    from binop_result[OF assms(1) assms(2)[unfolded this] ty(1) bin(3,4), of u]
    show ?thesis using bin bb t by (auto simp: binary_value_def)
  next
    case div
    then have r: "rt = ot" using ty(3) by auto
    have "BINOP_int op a b = Some (c_quot a b)" by (simp add: BINOP_int_def div)
    note bv = binop_result[OF assms(1) assms(2)[unfolded r] ty(1) this div(3), of u]
    have "is_zero ot r = Some False" using zero_test[OF assms(2)[unfolded r] ty(1)] div(2) by simp
    with bv show ?thesis using div bb t by (auto simp: binary_value_def defined_def const_relational_def)
  next
    case mod
    then have r: "rt = ot" using ty(3) by auto
    have "INTOP ot op (cv_low l) (cv_low r) = Some (word_of_int v) \<and> in_type ot v"
      by (rule intop_result[OF assms(1,2) ty(1,2) _ ty(3) assms(4)]) (use mod(1) in auto)
    moreover have "is_zero ot r = Some False" using zero_test[OF assms(2)[unfolded r] ty(1)] mod(2) by simp
    ultimately show ?thesis using mod bb t o2 by (auto simp: binary_value_def defined_def const_relational_def holds_value_def cv4_def)
  qed
qed

lemma unary_result:
  assumes "holds_value ot a cv" and "op_typed op t (Some ot) (Some ot)" and "c_unary ot op a = Some v"
  shows "\<not> bad_unary op \<and> (\<exists>cv'. unary_value op ot cv = Value cv' \<and> holds_value (the t) v cv')"
proof -
  have ty: "operand_type (Some ot)" and t: "t = (if const_relational op \<or> op = OP_LOGICAL_NOT then Some TY_INT else Some ot)"
    using assms(2) by (auto simp: op_typed_def)
  note o = operand_cases[OF ty] and z = holds_zero[OF assms(1)]
  have low: "cv_low cv = word_of_int a" using assms(1) by (simp add: holds_value_def)
  from assms(3) consider (lnot) "op = OP_LOGICAL_NOT" "v = of_bool (a = 0)" | (bnot) "op = OP_BITWISE_NOT" "c_result ot (- a - 1) = Some v"
    | (plus) "op = OP_UNARY_PLUS" "v = a" | (minus) "op = OP_UNARY_MINUS" "c_result ot (- a) = Some v"
    by (cases op) (simp_all add: c_unary_def)
  then show ?thesis
  proof cases
    case lnot
    then show ?thesis using o z t by (auto simp: unary_value_def bad_unary_def holds_value_def cv4_def truth_word in_type_def fits_int_def)
  next
    case bnot
    have "NOT (word_of_int a :: 32 word) = word_of_int (- a - 1)" by (simp add: not_eq_complement)
    then show ?thesis using bnot c_result_word[OF bnot(2) ty] o t low
      by (auto simp: unary_value_def bad_unary_def holds_value_def cv4_def const_relational_def)
  next
    case plus
    then show ?thesis using assms(1) t by (simp add: unary_value_def bad_unary_def const_relational_def)
  next
    case minus
    note w = c_result_word[OF minus(2) ty]
    from o show ?thesis
    proof
      assume i: "ot = TY_INT"
      then show ?thesis using minus w t low holds_valueD(1)[OF assms(1)[unfolded i]]
        by (auto simp: unary_value_def bad_unary_def holds_value_def cv4_def const_relational_def)
    next
      assume "ot = TY_UINT"
      then show ?thesis using minus w t low
        by (auto simp: unary_value_def bad_unary_def holds_value_def cv4_def const_relational_def)
    qed
  qed
qed

text \<open>Conversions.\<close>

definition small_type :: "typecode_t \<Rightarrow> bool" where
  "small_type tc \<longleftrightarrow> tc \<in> {TY_CHAR, TY_UCHAR, TY_SHORT, TY_USHORT, TY_INT, TY_ENUM, TY_UINT}"

definition promoted :: "typecode_t \<Rightarrow> typecode_t" where
  "promoted tc = (if tc \<in> {TY_CHAR, TY_SHORT, TY_INT, TY_ENUM} then TY_INT else TY_UINT)"

lemma operand_small: "ty e = Some tc \<Longrightarrow> small_type tc \<Longrightarrow> operand_typecode bt e True = Value (promoted tc)"
  by (auto simp: operand_typecode_def ci_effective_typecode_def small_type_def promoted_def)

lemma operand_operand: "operand_type (ty e) \<Longrightarrow> operand_typecode bt e b = Value (the (ty e))"
  by (auto simp: operand_typecode_def ci_effective_typecode_def operand_type_def)

lemma convert_small:
  assumes "holds_value tc v cv" and "small_type tc" and "small_type tc'"
  shows "convert u (promoted tc) (promoted tc') cv = Value (cv4 (word_of_int v))"
proof -
  have "(if promoted tc = TY_INT then sint (cv_low cv) else uint (cv_low cv)) = v"
    using assms(1,2) by (auto simp: holds_value_def in_type_def small_type_def promoted_def sint_of_fits_int uint_of_unsigned fits_int_def)
  then show ?thesis by (auto simp: convert_def of_int_value_def promoted_def)
qed

lemma in_type_signed: "in_type TY_CHAR (signed_take_bit 7 v)" "in_type TY_SHORT (signed_take_bit 15 v)" "fits_int (signed_take_bit 31 v)"
  "in_type TY_UCHAR (take_bit 8 v)" "in_type TY_USHORT (take_bit 16 v)" "in_type TY_UINT (take_bit 32 v)"
  using signed_take_bit_int_greater_eq_minus_exp[of 7 v] signed_take_bit_int_less_exp[of 7 v]
    signed_take_bit_int_greater_eq_minus_exp[of 15 v] signed_take_bit_int_less_exp[of 15 v]
    signed_take_bit_int_greater_eq_minus_exp[of 31 v] signed_take_bit_int_less_exp[of 31 v]
    take_bit_int_less_exp[of 8 v] take_bit_int_less_exp[of 16 v] take_bit_int_less_exp[of 32 v]
  by (simp_all add: in_type_def fits_int_def)

lemma cut_word:
  "signed_take_bit 7 (word_of_int v :: 32 word) = word_of_int (signed_take_bit 7 v)"
  "signed_take_bit 15 (word_of_int v :: 32 word) = word_of_int (signed_take_bit 15 v)"
  "take_bit 8 (word_of_int v :: 32 word) = word_of_int (take_bit 8 v)"
  "take_bit 16 (word_of_int v :: 32 word) = word_of_int (take_bit 16 v)"
  by (rule bit_word_eqI, auto simp: bit_signed_take_bit_iff bit_take_bit_iff bit_word_of_int_iff min_def)+

lemma full_word:
  "word_of_int (signed_take_bit 31 v) = (word_of_int v :: 32 word)" "word_of_int (take_bit 32 v) = (word_of_int v :: 32 word)"
  by (simp_all add: word_of_int_eq_iff take_bit_signed_take_bit)

lemma conversion_result:
  assumes "holds_value tc v cv" and "small_type tc" and "c_convert tc' v = Some v'"
  shows "\<exists>cv'. do_unary_conversion u tc' (Value (promoted tc)) (Value (promoted tc')) cv = Value cv' \<and> holds_value tc' v' cv'"
proof -
  have s: "small_type tc'" using assms(3) by (auto simp: c_convert_def small_type_def split: if_split_asm)
  have i: "in_type TY_INT (signed_take_bit 31 v)" "in_type TY_ENUM (signed_take_bit 31 v)" using in_type_signed(3)[of v] by (simp_all add: in_type_def)
  show ?thesis using convert_small[OF assms(1,2) s, of u] assms(3) s i in_type_signed[of v]
    by (auto simp: do_unary_conversion_def seq_ok_def seq_def c_convert_def small_type_def holds_value_def cv4_def cut_word full_word)
qed

lemma in_type_small: "in_type tc v \<Longrightarrow> small_type tc"
  by (auto simp: in_type_def small_type_def split: if_split_asm)

definition folds :: "typecode_t \<Rightarrow> fpu \<Rightarrow> expr_t \<Rightarrow> bool" where
  "folds bt u e \<longleftrightarrow> (\<exists>tc v cv. ty e = Some tc \<and> c_value e = Some v \<and> eval_const_expr bt u e = Value cv \<and> holds_value tc v cv)"

lemma foldsD:
  assumes "folds bt u e"
  obtains tc v cv where "ty e = Some tc" "c_value e = Some v" "eval_const_expr bt u e = Value cv" "holds_value tc v cv" "small_type tc"
  using assms in_type_small by (auto simp: folds_def holds_value_def)

lemma c_value_untyped: "c_value (Expr None c k) = None"
  by (simp add: c_value.simps)

lemma c_value_kinds:
  "c_value (Expr (Some x) c (ET_INT_CONST w)) = (if in_type (ty_code x) (sint w) then Some (sint w) else None)"
  "c_value (Expr (Some x) c (ET_CHAR_CONST w)) = (if in_type (ty_code x) (sint w) then Some (sint w) else None)"
  "c_value (Expr (Some x) c (ET_ENUM_CONST w)) = (if in_type (ty_code x) (sint w) then Some (sint w) else None)"
  "c_value (Expr (Some x) c (ET_PROMOTION op e)) = c_value e \<bind> c_convert (ty_code x)"
  "c_value (Expr (Some x) c (ET_CAST op e)) = c_value e \<bind> c_convert (ty_code x)"
  "c_value (Expr (Some x) c (ET_ASSIGNMENT_CONVERSION op e)) = c_value e \<bind> c_convert (ty_code x)"
  by (simp_all add: c_value.simps)

lemma eval_kinds:
  "eval_const_expr bt u (Expr (Some x) c (ET_INT_CONST w)) = Value (if ty_code x \<in> {TY_LONGLONG, TY_ULONGLONG} then cv8 w else cv4 (ucast w))"
  "eval_const_expr bt u (Expr (Some x) c (ET_CHAR_CONST w)) = Value (if ty_code x \<in> {TY_LONGLONG, TY_ULONGLONG} then cv8 w else cv4 (ucast w))"
  "eval_const_expr bt u (Expr t c (ET_ENUM_CONST w)) = Value (cv4 (ucast w))"
  "eval_const_expr bt u (Expr t c (ET_UNARY op e)) = eval_unary op (operand_typecode bt e False) (eval_const_expr bt u e)"
  "eval_const_expr bt u (Expr t c (ET_BINARY op l r)) =
     eval_binary u op (operand_typecode bt l False) (operand_typecode bt r False) (eval_const_expr bt u l) (eval_const_expr bt u r)"
  "eval_const_expr bt u (Expr t c (ET_CONDITIONAL e l r)) = eval_conditional (eval_const_expr bt u e) (eval_const_expr bt u l) (eval_const_expr bt u r)"
  by (simp_all add: eval_const_expr.simps defined_def)

lemma eval_conversions:
  assumes "eval_const_expr bt u e = Value v" and "IS_ARITHMETIC_OR_PTR_TYPE (ty_code x) \<or> ty_code x = TY_ENUM"
    and "k \<in> {ET_PROMOTION op e, ET_CAST op e, ET_ASSIGNMENT_CONVERSION op e}"
  shows "eval_const_expr bt u (Expr (Some x) c k) =
    do_unary_conversion u (ty_code x) (operand_typecode bt e True) (operand_typecode bt (Expr (Some x) c k) True) v"
  using assms(3) by (elim insertE; simp add: eval_const_expr.simps defined_def seq_ok_def seq_def assms(1)) (use assms(2) in auto)

lemma foldsI:
  "ty_code x = tc \<Longrightarrow> c_value (Expr (Some x) c k) = Some v \<Longrightarrow> eval_const_expr bt u (Expr (Some x) c k) = Value cv \<Longrightarrow> holds_value tc v cv
    \<Longrightarrow> folds bt u (Expr (Some x) c k)"
  by (simp add: folds_def ty_def)

lemma folds_constant:
  assumes "c_value (Expr t c k) = Some v" and "k \<in> {ET_INT_CONST w, ET_CHAR_CONST w, ET_ENUM_CONST w}"
  shows "folds bt u (Expr t c k)"
proof (cases t)
  case (Some x)
  have w: "in_type (ty_code x) (sint w)" "v = sint w"
    using assms by (auto simp: Some c_value_kinds split: if_split_asm)
  have n: "ty_code x \<notin> {TY_LONGLONG, TY_ULONGLONG}" using w(1) by (auto simp: in_type_def)
  have "(ucast w :: 32 word) = word_of_int (sint w)" by (rule bit_word_eqI) (auto simp: bit_simps min_def) 
  then have "holds_value (ty_code x) v (cv4 (ucast w))" using w by (simp add: holds_value_def cv4_def)
  moreover have "eval_const_expr bt u (Expr (Some x) c k) = Value (cv4 (ucast w))" using assms(2) n by (auto simp: eval_kinds)
  ultimately show ?thesis using assms(1) by (auto simp: Some intro: foldsI)
qed (use assms(1) in \<open>simp add: c_value_untyped\<close>)

lemma folds_conversion:
  assumes "folds bt u e" and "c_value (Expr t c k) = Some v" and "k \<in> {ET_PROMOTION op e, ET_CAST op e, ET_ASSIGNMENT_CONVERSION op e}"
  shows "folds bt u (Expr t c k)"
proof (cases t)
  case (Some x)
  obtain tc a cv where e: "ty e = Some tc" "c_value e = Some a" "eval_const_expr bt u e = Value cv" "holds_value tc a cv" "small_type tc"
    by (rule foldsD[OF assms(1)])
  have v: "c_convert (ty_code x) a = Some v" using assms(2,3) e(2) by (auto simp: Some c_value_kinds)
  obtain cv' where cv': "do_unary_conversion u (ty_code x) (Value (promoted tc)) (Value (promoted (ty_code x))) cv = Value cv'"
      "holds_value (ty_code x) v cv'" using conversion_result[OF e(4,5) v, of u] by blast
  have s: "small_type (ty_code x)" using cv'(2) in_type_small[of "ty_code x" v] by (simp add: holds_value_def)
  then have "IS_ARITHMETIC_OR_PTR_TYPE (ty_code x) \<or> ty_code x = TY_ENUM"
    by (auto simp: small_type_def IS_ARITHMETIC_OR_PTR_TYPE_def ci_is_integral_def)
  moreover have "operand_typecode bt (Expr (Some x) c k) True = Value (promoted (ty_code x))"
    by (rule operand_small[OF _ s]) (simp add: ty_def)
  ultimately have "eval_const_expr bt u (Expr (Some x) c k) = Value cv'"
    using eval_conversions[OF e(3) _ assms(3)] cv'(1) operand_small[OF e(1,5), of bt] by simp
  from foldsI[OF HOL.refl assms(2)[unfolded Some] this cv'(2)] show ?thesis by (simp add: Some)
qed (use assms(2) in \<open>simp add: c_value_untyped\<close>)

lemma folds_unary:
  assumes "folds bt u e" and "c_value (Expr t c (ET_UNARY op e)) = Some v"
  shows "folds bt u (Expr t c (ET_UNARY op e))"
proof (cases t)
  case (Some x)
  obtain tc a cv where e: "ty e = Some tc" "c_value e = Some a" "eval_const_expr bt u e = Value cv" "holds_value tc a cv"
    by (rule foldsD[OF assms(1)])
  have o: "op_typed op (Some (ty_code x)) (Some tc) (Some tc)" and v: "c_unary tc op a = Some v"
    using assms(2) e(1,2) by (auto simp: Some c_value.simps split: if_split_asm)
  have oc: "operand_typecode bt e False = Value tc" using operand_operand[of e bt False] o e(1) by (simp add: op_typed_def)
  obtain cv' where "\<not> bad_unary op" "unary_value op tc cv = Value cv'" "holds_value (ty_code x) v cv'"
    using unary_result[OF e(4) o v] by auto
  then have "eval_const_expr bt u (Expr (Some x) c (ET_UNARY op e)) = Value cv'"
    by (simp add: eval_kinds eval_unary_def seq_ok_def seq_def oc e(3))
  from foldsI[OF HOL.refl assms(2)[unfolded Some] this \<open>holds_value (ty_code x) v cv'\<close>] show ?thesis by (simp add: Some)
qed (use assms(2) in \<open>simp add: c_value_untyped\<close>)

lemma logical_value:
  assumes "op = OP_LOGICAL_AND \<or> op = OP_LOGICAL_OR" and "holds_value ot a l" and "holds_value ot b r" and "operand_type (Some ot)"
  shows "\<exists>cv. binary_value u op ot (Some l) (Some r) = Value cv
    \<and> holds_value TY_INT (if op = OP_LOGICAL_AND then of_bool (a \<noteq> 0 \<and> b \<noteq> 0) else of_bool (a \<noteq> 0 \<or> b \<noteq> 0)) cv"
  using assms(1) relop_result[OF assms(2-4), of op "if op = OP_LOGICAL_AND then a \<noteq> 0 \<and> b \<noteq> 0 else a \<noteq> 0 \<or> b \<noteq> 0"]
  by (auto simp: RELOP_int_def binary_value_def bad_binary_def const_relational_def)

lemma folds_binary:
  assumes "folds bt u l" and "folds bt u r" and "c_value (Expr t c (ET_BINARY op l r)) = Some v"
  shows "folds bt u (Expr t c (ET_BINARY op l r))"
proof (cases t)
  case (Some x)
  obtain ot a lv where l: "ty l = Some ot" "c_value l = Some a" "eval_const_expr bt u l = Value lv" "holds_value ot a lv"
    by (rule foldsD[OF assms(1)])
  obtain rt b rv where r: "ty r = Some rt" "c_value r = Some b" "eval_const_expr bt u r = Value rv" "holds_value rt b rv"
    by (rule foldsD[OF assms(2)])
  have o: "op_typed op (Some (ty_code x)) (Some ot) (Some rt)"
    using assms(3) l(1) r(1) by (cases "op_typed op (Some (ty_code x)) (Some ot) (Some rt)") (simp_all add: Some c_value.simps)
  have v: "(if op = OP_LOGICAL_AND then (if a = 0 then Some 0 else Some (of_bool (b \<noteq> 0)))
      else if op = OP_LOGICAL_OR then (if a \<noteq> 0 then Some 1 else Some (of_bool (b \<noteq> 0))) else c_binary ot op a b) = Some v"
    using assms(3) by (simp add: Some c_value.simps l(1,2) r(1,2) o cong: if_cong)
  have oc: "operand_typecode bt l False = Value ot" "operand_typecode bt r False = Value rt"
    using operand_operand[of l bt False] operand_operand[of r bt False] o l(1) r(1) by (simp_all add: op_typed_def)
  have "\<exists>cv. binary_value u op ot (Some lv) (Some rv) = Value cv \<and> holds_value (ty_code x) v cv"
  proof (cases "op = OP_LOGICAL_AND \<or> op = OP_LOGICAL_OR")
    case True
    then have "rt = ot" "ty_code x = TY_INT" "operand_type (Some ot)" using o by (auto simp: op_typed_def const_relational_def)
    moreover have "v = (if op = OP_LOGICAL_AND then of_bool (a \<noteq> 0 \<and> b \<noteq> 0) else of_bool (a \<noteq> 0 \<or> b \<noteq> 0))"
      using v True by (auto split: if_split_asm)
    ultimately show ?thesis using logical_value[OF True l(4), of b rv u] r(4) by simp
  next
    case False
    then have "c_binary ot op a b = Some v" using v by simp
    from binary_result[OF l(4) r(4) o this, of u] show ?thesis by simp
  qed
  then obtain cv where cv: "binary_value u op ot (Some lv) (Some rv) = Value cv" "holds_value (ty_code x) v cv" by blast
  have "op \<noteq> OP_LSHIFT \<and> op \<noteq> OP_RSHIFT \<longrightarrow> rt = ot" using o by (auto simp: op_typed_def)
  then have "eval_const_expr bt u (Expr (Some x) c (ET_BINARY op l r)) = Value cv"
    by (simp add: eval_kinds eval_binary_def seq_ok_def seq_def l(3) r(3) oc cv(1))
  from foldsI[OF HOL.refl assms(3)[unfolded Some] this cv(2)] show ?thesis by (simp add: Some)
qed (use assms(3) in \<open>simp add: c_value_untyped\<close>)

lemma folds_conditional:
  assumes "folds bt u b" and "folds bt u l" and "folds bt u r" and "c_value (Expr t c (ET_CONDITIONAL b l r)) = Some v"
  shows "folds bt u (Expr t c (ET_CONDITIONAL b l r))"
proof (cases t)
  case (Some y)
  obtain bt' x bv where b: "ty b = Some bt'" "c_value b = Some x" "eval_const_expr bt u b = Value bv" "holds_value bt' x bv"
    by (rule foldsD[OF assms(1)])
  obtain lt a lv where l: "ty l = Some lt" "c_value l = Some a" "eval_const_expr bt u l = Value lv" "holds_value lt a lv"
    by (rule foldsD[OF assms(2)])
  obtain rt d rv where r: "ty r = Some rt" "c_value r = Some d" "eval_const_expr bt u r = Value rv" "holds_value rt d rv"
    by (rule foldsD[OF assms(3)])
  have q: "lt = ty_code y \<and> rt = ty_code y \<and> v = (if x \<noteq> 0 then a else d)"
    using assms(4) by (simp add: Some c_value.simps b(2) l(1,2) r(1,2) split: if_split_asm)
  have "eval_const_expr bt u (Expr (Some y) c (ET_CONDITIONAL b l r)) = Value (if x \<noteq> 0 then lv else rv)"
    by (simp add: eval_kinds eval_conditional_def seq_def b(3) l(3) r(3) holds_zero[OF b(4)])
  moreover have "holds_value (ty_code y) v (if x \<noteq> 0 then lv else rv)" using l(4) r(4) q by simp
  ultimately show ?thesis using foldsI[OF HOL.refl assms(4)[unfolded Some]] by (simp add: Some)
qed (use assms(4) in \<open>simp add: c_value_untyped\<close>)

lemma folding_right: "no_error e \<Longrightarrow> folds bt u e"
proof (induction e rule: measure_induct_rule[of size])
  case (less e)
  obtain t c k where e: "e = Expr t c k" by (cases e)
  obtain v where v: "c_value (Expr t c k) = Some v" using less.prems by (auto simp: e)
  note IH = less.IH[unfolded e] and fold_const = folds_constant[OF v, of _ bt u] and fold_conv = folds_conversion[OF _ v, of bt u]
  note ne = less.prems[unfolded e no_error.simps]
  show ?case unfolding e
  proof (cases k)
    case (ET_BINARY op l r)
    have "folds bt u l" "folds bt u r" by (rule IH; use ne in \<open>simp add: ET_BINARY\<close>)+
    with v show "folds bt u (Expr t c k)" unfolding ET_BINARY by (rule folds_binary[rotated 2])
  next
    case (ET_UNARY op a)
    have "folds bt u a" by (rule IH; use ne in \<open>simp add: ET_UNARY\<close>)
    with v show "folds bt u (Expr t c k)" unfolding ET_UNARY by (rule folds_unary[rotated])
  next
    case (ET_CONDITIONAL a l r)
    have "folds bt u a" "folds bt u l" "folds bt u r" by (rule IH; use ne in \<open>simp add: ET_CONDITIONAL\<close>)+
    with v show "folds bt u (Expr t c k)" unfolding ET_CONDITIONAL by (rule folds_conditional[rotated 3])
  next
    case (ET_PROMOTION op a)
    show "folds bt u (Expr t c k)" by (rule fold_conv[of a op], rule IH; use ne in \<open>simp add: ET_PROMOTION\<close>)
  next
    case (ET_CAST op a)
    show "folds bt u (Expr t c k)" by (rule fold_conv[of a op], rule IH; use ne in \<open>simp add: ET_CAST\<close>)
  next
    case (ET_ASSIGNMENT_CONVERSION op a)
    show "folds bt u (Expr t c k)" by (rule fold_conv[of a op], rule IH; use ne in \<open>simp add: ET_ASSIGNMENT_CONVERSION\<close>)
  next
    case (ET_INT_CONST w) show "folds bt u (Expr t c k)" by (rule fold_const[of w]) (simp add: ET_INT_CONST)
  next
    case (ET_CHAR_CONST w) show "folds bt u (Expr t c k)" by (rule fold_const[of w]) (simp add: ET_CHAR_CONST)
  next
    case (ET_ENUM_CONST w) show "folds bt u (Expr t c k)" by (rule fold_const[of w]) (simp add: ET_ENUM_CONST)
  qed (use v in \<open>simp add: c_value.simps split: option.split_asm\<close>)+
qed

section \<open>The properties\<close>

text \<open>C5.  Constant folding is right for the types of up to 32 bits.  If every part of an integer constant expression is of a
  \<open>char\<close>, \<open>short\<close>, \<open>int\<close> or \<open>unsigned\<close> type or an enumeration, there is no \<open>sizeof\<close> in it, and every part has a value in C,
  without overflow or division by zero, then the evaluator returns the value that C gives the expression,
  represented in its type.  Parts of type \<open>long\<close>, \<open>unsigned long\<close> and \<open>long long\<close> are left out: the evaluator computes with 32 bits
  of a \<open>long\<close>.\<close>

theorem constant_folding_right:
  assumes "no_error e"
  shows "\<exists>tc v cv. ty e = Some tc \<and> c_value e = Some v \<and> in_type tc v
    \<and> ci_evaluate_constant_expression bt u e b = Value cv \<and> cv_low cv = word_of_int v"
proof -
  obtain tc v cv where e: "ty e = Some tc" "c_value e = Some v" "eval_const_expr bt u e = Value cv" "holds_value tc v cv" "small_type tc"
    by (rule foldsD[OF folding_right[OF assms]])
  have "tc = TY_ENUM \<or> ci_is_integral tc" using e(5) by (auto simp: small_type_def ci_is_integral_def)
  with e show ?thesis by (auto simp: ci_evaluate_constant_expression_def holds_value_def)
qed

text \<open>\<open>(7 - 10) / 2 ? 'a' : ~0u >> 28\<close> over \<open>unsigned\<close>, an expression with every kind of operator.\<close>

definition demo_const :: "typecode_t \<Rightarrow> word64 \<Rightarrow> expr_t" where
  "demo_const tc w = Expr (Some (Type tc 4 None 0 0 0 None)) True (ET_INT_CONST w)"

definition demo_op :: "typecode_t \<Rightarrow> optype_t \<Rightarrow> expr_t \<Rightarrow> expr_t \<Rightarrow> expr_t" where
  "demo_op tc op l r = Expr (Some (Type tc 4 None 0 0 0 None)) True (ET_BINARY op l r)"

definition demo_fold :: expr_t where
  "demo_fold = Expr (Some (Type TY_UINT 4 None 0 0 0 None)) True (ET_CONDITIONAL
     (demo_op TY_INT OP_DIV (demo_op TY_INT OP_MINUS (demo_const TY_INT 7) (demo_const TY_INT 10)) (demo_const TY_INT 2))
     (Expr (Some (Type TY_UINT 4 None 0 0 0 None)) True (ET_CAST OP_CVT_TO_UINT (demo_const TY_CHAR 97)))
     (demo_op TY_UINT OP_RSHIFT (Expr (Some (Type TY_UINT 4 None 0 0 0 None)) True (ET_UNARY OP_BITWISE_NOT (demo_const TY_UINT 0)))
       (demo_const TY_INT 28)))"

theorem constant_folding_right_witness:
  "\<exists>cv. ci_evaluate_constant_expression TY_VOID demo_fpu demo_fold True = Value cv \<and> cv_low cv = 97"
proof -
  have "no_error demo_fold" "c_value demo_fold = Some 97" by code_simp+
  with constant_folding_right[of demo_fold TY_VOID demo_fpu True] show ?thesis by auto
qed

lemma extended_low:
  assumes "- (2 ^ 31) \<le> v" and "v < 2 ^ 32"
  shows "signed_take_bit 31 (ucast (word_of_int v :: 32 word)) = (if v < 2 ^ 31 then word_of_int v else word_of_int (v - 2 ^ 32) :: word64)"
proof -
  have "signed_take_bit 31 (ucast (word_of_int v :: 32 word)) = (word_of_int (signed_take_bit 31 v) :: word64)"
    by (rule bit_word_eqI) (auto simp: bit_simps min_def)
  moreover have "signed_take_bit 31 v = (if v < 2 ^ 31 then v else v - 2 ^ 32)"
  proof (cases "v < 2 ^ 31")
    case False
    then have "signed_take_bit 31 (v - 2 ^ 32) = v - 2 ^ 32" using assms by (intro signed_take_bit_int_eq_self) simp_all
    moreover have "signed_take_bit 31 (v - 2 ^ 32) = signed_take_bit 31 v"
      by (rule signed_take_bit_eq_iff_take_bit_eq[THEN iffD2]) (simp add: take_bit_eq_mod mod_diff_right_eq)
    ultimately show ?thesis using False by simp
  qed (use assms in \<open>simp add: signed_take_bit_int_eq_self\<close>)
  ultimately show ?thesis by simp
qed

text \<open>C6.  Constants of the types of up to 32 bits are compiled right up to the largest \<open>int\<close>.  With this evaluator in the
  compiler, the code of an integer constant expression all of whose parts are of a \<open>char\<close>, \<open>short\<close>, \<open>int\<close> or \<open>unsigned\<close> type or an
  enumeration (no \<open>long\<close>, no \<open>long long\<close>, no \<open>sizeof\<close>) and have a value in C pushes its value \<open>v\<close> as a 64-bit word if it
  fits an \<open>int\<close>; an \<open>unsigned\<close> constant from \<open>2 ^ 31\<close> on is pushed as the negative number with the same 32 bits.\<close>

theorem folded_constant_pushes_value:
  assumes "no_error e" and "ex_is_constant e" and "c_value e = Some v"
    and "ci_compile_expression (ups_cparams bt u) tx e EC_VALUE = Some (tx', at)" and "text_ok tx" and "no_checks tx"
    and "loaded tx' base (tx_pc tx) (tx_pc tx') (x_mem s)" and "x_pc s = base + of_nat (tx_pc tx)" and "stack_space s 8"
    and "\<And>i. tx_pc tx \<le> i \<Longrightarrow> i < tx_pc tx' \<Longrightarrow> base + of_nat i \<notin> stack_bytes (x_sp s) 1"
  shows "\<exists>s'. steps env s s' \<and> x_pc s' = base + of_nat (tx_pc tx') \<and> x_sp s' = x_sp s - 8
    \<and> rd_word 8 (x_mem s') (x_sp s') = Some (if v < 2 ^ 31 then word_of_int v else word_of_int (v - 2 ^ 32))
    \<and> keeps (stack_bytes (x_sp s) 1) s s'"
proof -
  obtain tc cv where e: "ty e = Some tc" "eval_const_expr bt u e = Value cv" "holds_value tc v cv" "small_type tc"
    using foldsD[OF folding_right[OF assms(1)], of bt u] assms(3) by (metis option.inject)
  have int: "tc = TY_ENUM \<or> ci_is_integral tc" "word_type tc" "tc \<noteq> TY_LONGLONG" "tc \<noteq> TY_ULONGLONG"
    using e(4) by (auto simp: small_type_def ci_is_integral_def word_type_def)
  obtain t c k where x: "e = Expr t c k" by (cases e)
  have f: "is_folded e = Some True" using assms(2) e(1) int(1) by (auto simp: is_folded_def)
  have p: "pure_expr e" "need e = 1" "vars_of e = []" using f e(1) int(2) by (simp_all add: x word_expr_def)
  have r: "- (2 ^ 31) \<le> v" "v < 2 ^ 32" and low: "cv_low cv = word_of_int v"
    using e(3) by (auto simp: holds_value_def in_type_def fits_int_def split: if_split_asm)
  have "ci_evaluate_constant_expression bt u e True = Value cv" using e(1,2) int(1) by (simp add: ci_evaluate_constant_expression_def)
  then have "cp_evalconst (ups_cparams bt u) e = Some (ucast (cv_low cv))"
    using e(1) int(3,4) by (simp add: ups_cparams_def folded_value_def)
  then have ev: "eval (ups_cparams bt u) (x_mem s) (x_fp s) e = Some (signed_take_bit 31 (ucast (cv_low cv)))"
    using f by (simp add: x)
  have "code_ready (cells tx') base (tx_pc tx) (tx_pc tx') (need e) s" using assms(7,9,10) p(2) by (simp add: code_ready_def loaded_def)
  from runs_rightD[OF pure_runs_right[OF p(1)] assms(5,6,4) order_refl this assms(8) _ ev, of env]
  show ?thesis unfolding low extended_low[OF r, symmetric] by (simp add: p vars_clear_def pushes_def top_is_def)
qed

theorem folded_constant_pushes_value_witness:
  "\<exists>tx' at s'. ci_compile_expression (ups_cparams TY_VOID demo_fpu) demo_text (demo_const TY_UINT 0xffffffff) EC_VALUE = Some (tx', at)
     \<and> steps demo_env (demo_state [67, 0, 1]) s' \<and> x_pc s' = 0x2803 \<and> rd_word 8 (x_mem s') (x_sp s') = Some (-1)"
proof -
  let ?e = "demo_const TY_UINT 0xffffffff" and ?cp = "ups_cparams TY_VOID demo_fpu"
  have "case ci_compile_expression ?cp demo_text ?e EC_VALUE of
     Some (tx', at) \<Rightarrow> tx_pc tx' = 3 \<and> take 3 (tx_text tx') = map Some [67, 0, 1] | None \<Rightarrow> False" by code_simp
  then obtain tx' at where c: "ci_compile_expression ?cp demo_text ?e EC_VALUE = Some (tx', at)"
    and t: "tx_pc tx' = 3" "take 3 (tx_text tx') = map Some [67, 0, 1]" by (auto split: option.split_asm)
  have l: "loaded tx' 0x2800 (tx_pc demo_text) (tx_pc tx') (x_mem (demo_state [67, 0, 1]))"
    using demo_loaded[of "[67, 0, 1]" tx'] t by (simp add: numeral_3_eq_3 demo_text_def initial_text_def demo_state_def)
  have n: "no_error ?e" "ex_is_constant ?e" "c_value ?e = Some 4294967295" by code_simp+
  have k: "text_ok demo_text" "no_checks demo_text" by (simp_all add: demo_text_def initial_text_def text_ok_def)
  have sp: "x_sp (demo_state [67, 0, 1]) = 0x2000" "x_pc (demo_state [67, 0, 1]) = 0x2800 + of_nat (tx_pc demo_text)"
    by (simp_all add: demo_state_def demo_text_def initial_text_def)
  have "0x2800 + of_nat i \<notin> stack_bytes 0x2000 1" if "i < tx_pc tx'" for i
    using that unat_plus_no_wrap[of "0x2800" i] t(1) stack_bytes_iff[of 1 "0x2000" "0x2800 + of_nat i"] by simp
  then obtain s' where "steps demo_env (demo_state [67, 0, 1]) s'" "x_pc s' = 0x2800 + of_nat (tx_pc tx')" "rd_word 8 (x_mem s') (x_sp s') = Some (-1)"
    using folded_constant_pushes_value[OF n c k l sp(2) demo_space[of 8 "[67, 0, 1]"], of demo_env] by (auto simp: sp)
  with c t(1) show ?thesis by auto
qed

end
