(* ===== verification/Ups_Const_Types.thy ===== *)
theory Ups_Const_Types
  imports Ups_Const_Props
begin

text \<open>
  The panics of the constant evaluator: the operations and types (\<open>supported\<close>) on which \<open>eval_const_expr\<close> of
  \<open>Ups_Const\<close> comes back with a value or a diagnostic, and operations that C allows and that end in a panic.
\<close>

text \<open>The expressions on which the evaluator does not panic.  This is less than what C allows: \<open>!\<close>, \<open>~\<close>, \<open>%\<close>, the bitwise
  operators and the shifts are supported for words only.\<close>

definition arith_type :: "typecode_t \<Rightarrow> typecode_t option \<Rightarrow> bool" where
  "arith_type bt t \<longleftrightarrow> (case t of None \<Rightarrow> False | Some tc \<Rightarrow>
     ci_effective_typecode bt tc \<in> {TY_CHAR, TY_UCHAR, TY_SHORT, TY_USHORT, TY_INT, TY_UINT, TY_LONG, TY_ULONG, TY_ENUM, TY_U_ENUM,
       DT_PTR_TO, TY_FLOAT, TY_DOUBLE, TY_LONGLONG, TY_ULONGLONG})"

text \<open>How the evaluator computes with a type: the two kinds of words, the two of \<open>long long\<close>, \<open>float\<close> and \<open>double\<close>;
  an operand of an operator must not be shorter than an \<open>int\<close>.\<close>

definition promoted_type :: "typecode_t \<Rightarrow> typecode_t option \<Rightarrow> bool" where
  "promoted_type bt t \<longleftrightarrow> arith_type bt t \<and> ci_effective_typecode bt (the t) \<notin> {TY_CHAR, TY_UCHAR, TY_SHORT, TY_USHORT}"

definition arith_class :: "typecode_t \<Rightarrow> typecode_t option \<Rightarrow> typecode_t" where
  "arith_class bt t = (let c = ci_effective_typecode bt (the t) in
     if c \<in> {TY_CHAR, TY_SHORT, TY_INT, TY_LONG, TY_ENUM, TY_U_ENUM} then TY_INT
     else if c \<in> {TY_FLOAT, TY_DOUBLE, TY_LONGLONG, TY_ULONGLONG} then c else TY_UINT)"

definition word_class :: "typecode_t \<Rightarrow> typecode_t option \<Rightarrow> bool" where
  "word_class bt t \<longleftrightarrow> arith_class bt t \<in> {TY_INT, TY_UINT}"

definition convertible :: "typecode_t \<Rightarrow> typecode_t option \<Rightarrow> typecode_t option \<Rightarrow> bool" where
  "convertible bt from_t to_t \<longleftrightarrow> arith_type bt from_t \<and> arith_type bt to_t
     \<and> \<not> (arith_class bt from_t \<in> {TY_FLOAT, TY_DOUBLE} \<and> arith_class bt to_t \<in> {TY_LONGLONG, TY_ULONGLONG})"

fun supported :: "typecode_t \<Rightarrow> expr_t \<Rightarrow> bool" where
  "supported bt (Expr t c k) \<longleftrightarrow>
     (case k of
        ET_PROMOTION op e \<Rightarrow> supported bt e \<and> convertible bt (ty e) (map_option ty_code t)
      | ET_ASSIGNMENT_CONVERSION op e \<Rightarrow> supported bt e \<and> convertible bt (ty e) (map_option ty_code t)
      | ET_CAST op e \<Rightarrow> supported bt e \<and> convertible bt (ty e) (map_option ty_code t)
      | ET_SCALE op e n \<Rightarrow> supported bt e \<and> op = OP_MUL
      | ET_UNARY op e \<Rightarrow> supported bt e \<and> promoted_type bt (ty e)
          \<and> (bad_unary op \<or> op \<in> {OP_UNARY_PLUS, OP_UNARY_MINUS} \<or> op \<in> {OP_LOGICAL_NOT, OP_BITWISE_NOT} \<and> word_class bt (ty e))
      | ET_BINARY op l r \<Rightarrow> supported bt l \<and> supported bt r \<and> promoted_type bt (ty l) \<and> promoted_type bt (ty r)
          \<and> (op \<in> {OP_LSHIFT, OP_RSHIFT} \<or> arith_class bt (ty l) = arith_class bt (ty r))
          \<and> (bad_binary op \<or> const_relational op \<or> op \<in> {OP_PLUS, OP_MINUS, OP_MUL, OP_DIV}
             \<or> op \<in> {OP_BITWISE_OR, OP_BITWISE_XOR, OP_BITWISE_AND, OP_LSHIFT, OP_RSHIFT, OP_MOD} \<and> word_class bt (ty l))
      | ET_CONDITIONAL b l r \<Rightarrow> supported bt b \<and> supported bt l \<and> supported bt r
      | ET_MULTI_ARROW _ _ _ \<Rightarrow> False
      | _ \<Rightarrow> True)"

declare supported.simps [simp del]

lemma seq_panics: "seq r f = Panics \<longleftrightarrow> r = Panics \<or> (\<exists>v. r = Value v \<and> f (Some v) = Panics) \<or> r = Not_Constant \<and> f None = Panics"
  by (simp add: seq_def split: cres.split)

lemma seq_ok_panics: "seq_ok r f = Panics \<longleftrightarrow> r = Panics \<or> (\<exists>v. r = Value v \<and> f v = Panics)"
  by (auto simp: seq_ok_def seq_panics)

lemma defined_panics: "defined x f = Panics \<longleftrightarrow> (\<exists>v. x = Some v \<and> f v = Panics)"
  by (simp add: defined_def split: option.split)

lemma promoted_operand: "promoted_type bt (ty e) \<Longrightarrow> operand_typecode bt e b = Value (arith_class bt (ty e))"
  by (auto simp: promoted_type_def arith_type_def operand_typecode_def arith_class_def Let_def split: option.split_asm)

lemma arith_operand: "arith_type bt (ty e) \<Longrightarrow> operand_typecode bt e True = Value (arith_class bt (ty e))"
  by (auto simp: arith_type_def operand_typecode_def arith_class_def Let_def split: option.split_asm)

lemma arith_class_cases: "arith_class bt t \<in> {TY_INT, TY_UINT, TY_FLOAT, TY_DOUBLE, TY_LONGLONG, TY_ULONGLONG}"
  by (simp add: arith_class_def Let_def)

lemma unary_no_panic:
  assumes "ot \<in> {TY_INT, TY_UINT, TY_FLOAT, TY_DOUBLE, TY_LONGLONG, TY_ULONGLONG}"
    and "op \<in> {OP_UNARY_PLUS, OP_UNARY_MINUS} \<or> op \<in> {OP_LOGICAL_NOT, OP_BITWISE_NOT} \<and> ot \<in> {TY_INT, TY_UINT}"
  shows "unary_value op ot v \<noteq> Panics"
  using assms by (auto simp: unary_value_def defined_panics split: if_split_asm)

lemma RELOP_no_panic:
  "ot \<in> {TY_INT, TY_UINT, TY_FLOAT, TY_DOUBLE, TY_LONGLONG, TY_ULONGLONG} \<Longrightarrow> RELOP ot op l r \<noteq> Panics"
  by (auto simp: RELOP_def Let_def defined_panics)

lemma BINOP_no_panic:
  "ot \<in> {TY_INT, TY_UINT, TY_FLOAT, TY_DOUBLE, TY_LONGLONG, TY_ULONGLONG} \<Longrightarrow> BINOP u ot op l r \<noteq> Panics"
  by (auto simp: BINOP_def defined_panics split: if_split_asm)

lemma binary_no_panic:
  assumes "ot \<in> {TY_INT, TY_UINT, TY_FLOAT, TY_DOUBLE, TY_LONGLONG, TY_ULONGLONG}"
    and "bad_binary op \<or> const_relational op \<or> op \<in> {OP_PLUS, OP_MINUS, OP_MUL, OP_DIV}
      \<or> op \<in> {OP_BITWISE_OR, OP_BITWISE_XOR, OP_BITWISE_AND, OP_LSHIFT, OP_RSHIFT, OP_MOD} \<and> ot \<in> {TY_INT, TY_UINT}"
  shows "binary_value u op ot l r \<noteq> Panics"
proof -
  have b: "(case (l, r) of (Some l, Some r) \<Rightarrow> f l r | _ \<Rightarrow> Not_Constant) \<noteq> Panics" if "\<And>l r. f l r \<noteq> Panics" for f
    using that by (simp split: option.split)
  have i: "defined w (\<lambda>w. Value (cv4 w)) \<noteq> Panics" for w by (simp add: defined_def split: option.split)
  consider (bad) "bad_binary op" | (bits) "\<not> bad_binary op" "op \<in> {OP_BITWISE_OR, OP_BITWISE_XOR, OP_BITWISE_AND, OP_LSHIFT, OP_RSHIFT}"
      "ot \<in> {TY_INT, TY_UINT}"
    | (rel) "\<not> bad_binary op" "op \<notin> {OP_BITWISE_OR, OP_BITWISE_XOR, OP_BITWISE_AND, OP_LSHIFT, OP_RSHIFT}" "const_relational op"
    | (sum) "op \<in> {OP_PLUS, OP_MINUS, OP_MUL}" | (divide) "op = OP_DIV" | (rem) "op = OP_MOD" "ot \<in> {TY_INT, TY_UINT}"
    using assms(2) by (auto simp: const_relational_def)
  then show ?thesis
  proof cases
    case sum
    then have "binary_value u op ot l r = (case (l, r) of (Some l, Some r) \<Rightarrow> BINOP u ot op l r | _ \<Rightarrow> Not_Constant)"
      by (auto simp: binary_value_def bad_binary_def const_relational_def)
    then show ?thesis using b[of "BINOP u ot op"] BINOP_no_panic[OF assms(1)] by simp
  next
    case divide
    show ?thesis
    proof (cases r)
      case None then show ?thesis by (simp add: divide binary_value_def bad_binary_def const_relational_def)
    next
      case (Some rv)
      show ?thesis unfolding Some divide
        by (simp add: binary_value_def bad_binary_def const_relational_def BINOP_no_panic[OF assms(1)] defined_panics split: option.split)
    qed
  next
    case rem
    show ?thesis
    proof (cases r)
      case None then show ?thesis using rem(2) by (auto simp: rem(1) binary_value_def bad_binary_def const_relational_def)
    next
      case (Some rv)
      show ?thesis unfolding Some rem(1) using rem(2)
        by (simp add: binary_value_def bad_binary_def const_relational_def i defined_panics split: option.split)
    qed
  qed (use b[OF i] b[OF RELOP_no_panic[OF assms(1)]] in \<open>simp_all add: binary_value_def\<close>)
qed

lemma convert_no_panic:
  assumes "convertible bt f t"
  shows "convert u (arith_class bt f) (arith_class bt t) v \<noteq> Panics"
  using assms arith_class_cases[of bt f] arith_class_cases[of bt t]
  by (auto simp: convertible_def convert_def of_int_value_def to_int32_def to_uint32_def Let_def defined_panics split: if_split_asm)


lemma conversion_no_panic:
  assumes "convertible bt (ty e) (ty e')"
  shows "do_unary_conversion u tc (operand_typecode bt e True) (operand_typecode bt e' True) v \<noteq> Panics"
proof -
  have o: "operand_typecode bt e True = Value (arith_class bt (ty e))" "operand_typecode bt e' True = Value (arith_class bt (ty e'))"
    using assms arith_operand by (simp_all add: convertible_def)
  show ?thesis using convert_no_panic[OF assms, of u v] by (simp add: do_unary_conversion_def o seq_ok_panics)
qed

text \<open>C7.  The evaluator does not panic on what it supports: conversions between arithmetic types other than from a floating
  type to \<open>long long\<close>, arithmetic and comparisons on promoted operands of one kind, and \<open>!\<close>, \<open>~\<close>, \<open>%\<close>, the bitwise operators
  and the shifts on words (\<open>int\<close>, \<open>unsigned\<close>, \<open>long\<close>, \<open>unsigned long\<close>, enumerations and pointers).  An expression all of whose
  parts are of this kind gets a value or a diagnostic.  C allows more; see C34.\<close>

theorem evaluator_does_not_panic: "supported bt e \<Longrightarrow> eval_const_expr bt u e \<noteq> Panics"
proof (induction e rule: measure_induct_rule[of size])
  case (less e)
  obtain t c k where e: "e = Expr t c k" by (cases e)
  note IH = less.IH[unfolded e] and wt = less.prems[unfolded e supported.simps]
  have t: "ty (Expr t c k) = map_option ty_code t" by (simp add: ty_def)
  show ?case unfolding e
  proof (cases k)
    case (ET_BINARY op l r)
    have w: "eval_const_expr bt u l \<noteq> Panics" "eval_const_expr bt u r \<noteq> Panics" by (rule IH; use wt in \<open>simp add: ET_BINARY\<close>)+
    have p: "promoted_type bt (ty l)" "promoted_type bt (ty r)" using wt by (simp_all add: ET_BINARY)
    have "binary_value u op (arith_class bt (ty l)) x y \<noteq> Panics" for x y
      by (rule binary_no_panic[OF arith_class_cases]) (use wt in \<open>auto simp: ET_BINARY word_class_def\<close>)
    with w wt show "eval_const_expr bt u (Expr t c k) \<noteq> Panics"
      by (auto simp: ET_BINARY eval_kinds eval_binary_def promoted_operand[OF p(1)] promoted_operand[OF p(2)] seq_panics seq_ok_panics
        split: if_split_asm)
  next
    case (ET_UNARY op a)
    have w: "eval_const_expr bt u a \<noteq> Panics" by (rule IH; use wt in \<open>simp add: ET_UNARY\<close>)
    have p: "promoted_type bt (ty a)" using wt by (simp add: ET_UNARY)
    have "bad_unary op \<or> (\<forall>v. unary_value op (arith_class bt (ty a)) v \<noteq> Panics)"
      using unary_no_panic[OF arith_class_cases[of bt "ty a"], of op] wt by (auto simp: ET_UNARY word_class_def)
    with w show "eval_const_expr bt u (Expr t c k) \<noteq> Panics"
      by (auto simp: ET_UNARY eval_kinds eval_unary_def promoted_operand[OF p] seq_panics seq_ok_panics split: if_split_asm)
  next
    case (ET_CONDITIONAL a l r)
    have "eval_const_expr bt u a \<noteq> Panics" "eval_const_expr bt u l \<noteq> Panics" "eval_const_expr bt u r \<noteq> Panics"
      by (rule IH; use wt in \<open>simp add: ET_CONDITIONAL\<close>)+
    then show "eval_const_expr bt u (Expr t c k) \<noteq> Panics"
      by (auto simp: ET_CONDITIONAL eval_kinds eval_conditional_def seq_panics split: option.split_asm)
  next
    case (ET_SCALE op a n)
    have "eval_const_expr bt u a \<noteq> Panics" by (rule IH; use wt in \<open>simp add: ET_SCALE\<close>)
    moreover have "op = OP_MUL" using wt by (simp add: ET_SCALE)
    ultimately show "eval_const_expr bt u (Expr t c k) \<noteq> Panics"
      by (simp add: ET_SCALE eval_const_expr.simps seq_ok_panics scale_value_def Let_def)
  next
    case (ET_PROMOTION op a)
    have "eval_const_expr bt u a \<noteq> Panics" by (rule IH; use wt in \<open>simp add: ET_PROMOTION\<close>)
    moreover have "convertible bt (ty a) (ty (Expr t c k))" using wt by (simp add: ET_PROMOTION ty_def)
    ultimately show "eval_const_expr bt u (Expr t c k) \<noteq> Panics"
      using conversion_no_panic[of bt a "Expr t c k" u] by (auto simp: ET_PROMOTION eval_const_expr.simps seq_ok_panics defined_panics)
  next
    case (ET_CAST op a)
    have "eval_const_expr bt u a \<noteq> Panics" by (rule IH; use wt in \<open>simp add: ET_CAST\<close>)
    moreover have "convertible bt (ty a) (ty (Expr t c k))" using wt by (simp add: ET_CAST ty_def)
    ultimately show "eval_const_expr bt u (Expr t c k) \<noteq> Panics"
      using conversion_no_panic[of bt a "Expr t c k" u] by (auto simp: ET_CAST eval_const_expr.simps seq_ok_panics defined_panics split: if_split_asm)
  next
    case (ET_ASSIGNMENT_CONVERSION op a)
    have "eval_const_expr bt u a \<noteq> Panics" by (rule IH; use wt in \<open>simp add: ET_ASSIGNMENT_CONVERSION\<close>)
    moreover have "convertible bt (ty a) (ty (Expr t c k))" using wt by (simp add: ET_ASSIGNMENT_CONVERSION ty_def)
    ultimately show "eval_const_expr bt u (Expr t c k) \<noteq> Panics"
      using conversion_no_panic[of bt a "Expr t c k" u] by (auto simp: ET_ASSIGNMENT_CONVERSION eval_const_expr.simps seq_ok_panics defined_panics)
  qed (use wt in \<open>simp_all add: eval_const_expr.simps defined_panics\<close>)
qed

theorem evaluator_does_not_panic_witness: "eval_const_expr TY_VOID demo_fpu demo_fold \<noteq> Panics"
  by (rule evaluator_does_not_panic) code_simp

text \<open>C34.  The operators that the evaluator supports for words only panic on other operands: for constants \<open>l\<close> and \<open>r\<close> of
  the same promoted type, if the type is \<open>long long\<close> or \<open>unsigned long long\<close>, the evaluation of \<open>!l\<close>, \<open>~l\<close>, \<open>l & r\<close>, \<open>l | r\<close>,
  \<open>l ^ r\<close>, \<open>l << r\<close>, \<open>l >> r\<close> and, unless \<open>r\<close> is zero, \<open>l % r\<close>, which C allows, ends in a panic; if the type is
  \<open>float\<close> or \<open>double\<close>, that of \<open>!l\<close> does.\<close>

theorem wide_operators_panic:
  assumes "promoted_type bt (ty l)" and "promoted_type bt (ty r)" and "arith_class bt (ty r) = arith_class bt (ty l)"
    and "eval_const_expr bt u l = Value lv" and "eval_const_expr bt u r = Value rv"
  shows "(arith_class bt (ty l) \<in> {TY_LONGLONG, TY_ULONGLONG} \<longrightarrow>
      eval_const_expr bt u (Expr t c (ET_UNARY OP_BITWISE_NOT l)) = Panics
      \<and> (\<forall>op \<in> {OP_BITWISE_AND, OP_BITWISE_OR, OP_BITWISE_XOR, OP_LSHIFT, OP_RSHIFT}. eval_const_expr bt u (Expr t c (ET_BINARY op l r)) = Panics)
      \<and> (cv_wide rv \<noteq> None \<and> cv_wide rv \<noteq> Some 0 \<longrightarrow> eval_const_expr bt u (Expr t c (ET_BINARY OP_MOD l r)) = Panics))
    \<and> (arith_class bt (ty l) \<in> {TY_LONGLONG, TY_ULONGLONG, TY_FLOAT, TY_DOUBLE} \<longrightarrow>
      eval_const_expr bt u (Expr t c (ET_UNARY OP_LOGICAL_NOT l)) = Panics)"
proof -
  note o = promoted_operand[OF assms(1)] promoted_operand[OF assms(2)]
  have un: "eval_const_expr bt u (Expr t c (ET_UNARY op l)) = unary_value op (arith_class bt (ty l)) lv" if "\<not> bad_unary op" for op
    using assms(4) that by (simp add: eval_kinds eval_unary_def o seq_def seq_ok_def)
  have bin: "eval_const_expr bt u (Expr t c (ET_BINARY op l r)) = binary_value u op (arith_class bt (ty l)) (Some lv) (Some rv)" for op
    using assms(3-5) by (simp add: eval_kinds eval_binary_def o seq_def seq_ok_def)
  show ?thesis
    by (auto simp: un bin bad_unary_def bad_binary_def unary_value_def binary_value_def const_relational_def is_zero_def defined_def)
qed

definition demo_wide :: "word64 \<Rightarrow> expr_t" where
  "demo_wide w = Expr (Some (Type TY_LONGLONG 8 None 0 0 0 None)) True (ET_INT_CONST w)"

theorem wide_operators_panic_witness:
  "eval_const_expr TY_VOID demo_fpu (Expr None True (ET_BINARY OP_BITWISE_AND (demo_wide 6) (demo_wide 3))) = Panics"
proof -
  have v: "eval_const_expr TY_VOID demo_fpu (demo_wide w) = Value (cv8 w)" for w
    by (simp add: demo_wide_def eval_kinds)
  have p: "promoted_type TY_VOID (ty (demo_wide w))" "arith_class TY_VOID (ty (demo_wide w)) = TY_LONGLONG" for w
    by (simp_all add: demo_wide_def ty_def promoted_type_def arith_type_def arith_class_def ci_effective_typecode_def)
  show ?thesis using wide_operators_panic[OF p(1) p(1) _ v v, of 3 6 None True] p(2) by simp
qed

end
