(* ===== verification/Ups_Stm_Build.thy ===== *)
theory Ups_Stm_Build
  imports Ups_Compile_Stmt Ups_Const
begin

text \<open>
  The parser's statement builder (\<open>src/ups/ci_stm.c\<close>): it makes the trees that \<open>Ups_Compile_Stmt\<close> compiles, and
  for a \<open>switch\<close> it collects the case labels of the body, converts and sorts them.  The list is sorted by the macro
  \<open>GENERIC_MERGE_SORT\<close> of \<open>src/lib/libmtrprog/genmergesort.h\<close>; goto labels are found by \<open>ci_name_to_label\<close>
  (\<open>src/ups/ci_func.c\<close>), integral promotions are those of \<open>src/ups/ci_expr.c\<close>.  Every operation gives the statement
  and the diagnostics it reports; \<open>None\<close> is a panic.  The line numbers of expressions (\<open>lx\<close>), the enumerations
  that types point to (\<open>ae\<close>) and the contents of fresh memory (\<open>junk\<close>) are parameters.
\<close>

section \<open>Diagnostics\<close>

datatype diag_t =
    Bad_Condition string | Case_Outside_Switch | Case_Not_Integral | Case_Not_Constant | Duplicate_Default
  | Case_Type_Conflict | Duplicate_Case int | Switch_Not_Integral | No_Case_Labels | Only_Default
  | Label_Redefined string | Continue_Outside_Loop | Break_Outside

definition is_error :: "diag_t \<Rightarrow> bool" where
  "is_error d \<longleftrightarrow> d \<noteq> No_Case_Labels \<and> d \<noteq> Only_Default"

definition check_iteration_expr :: "expr_t \<Rightarrow> string \<Rightarrow> diag_t list" where
  "check_iteration_expr e what =
     (case ex_type e of
        Some t \<Rightarrow> if \<not> IS_ARITHMETIC_OR_PTR_TYPE (ty_code t) then [Bad_Condition what] else []
      | None \<Rightarrow> [])"

section \<open>Conversions\<close>

text \<open>\<open>ci_code_to_type\<close> for the codes that have a type.\<close>

definition ci_code_to_type :: "typecode_t \<Rightarrow> type_t option" where
  "ci_code_to_type tc =
     (if tc \<in> {TY_VOID, TY_CHAR, TY_UCHAR, TY_SHORT, TY_USHORT, TY_INT, TY_BOOLEAN, TY_UINT, TY_LONG, TY_LONGLONG, TY_ULONG,
        TY_ULONGLONG, TY_FLOAT, TY_DOUBLE, TY_ELLIPSIS, TY_SIGNED, TY_UNSIGNED}
      then Some (Type tc (-1) None 0 0 0 None)
      else if tc = TY_INT_ASSUMED then Some (Type TY_INT (-1) None 0 0 0 None)
      else None)"

text \<open>\<open>ci_push_conversion\<close> with \<open>ET_PROMOTION\<close>.\<close>

definition push_promotion :: "typecode_t \<Rightarrow> expr_t \<Rightarrow> typecode_t \<Rightarrow> expr_t option" where
  "push_promotion bt e tc =
     do { t \<leftarrow> ex_type e;
          if ty_code t \<noteq> tc then do {
            t \<leftarrow> ci_code_to_type tc;
            op \<leftarrow> ci_typecode_to_cvt_op bt tc;
            Some (Expr (Some t) (ex_is_constant e) (ET_PROMOTION op e)) }
          else Some e }"

definition ci_do_integral_promotions :: "typecode_t \<Rightarrow> expr_t \<Rightarrow> expr_t option" where
  "ci_do_integral_promotions bt e =
     (case ex_type e of
        None \<Rightarrow> Some e
      | Some t \<Rightarrow>
          if ty_code t = TY_BITFIELD then
            (case ty_bitfield t of None \<Rightarrow> None | Some (bf, _) \<Rightarrow> push_promotion bt e (ty_code bf))
          else if ty_code t \<in> {TY_CHAR, TY_UCHAR, TY_BOOLEAN, TY_SHORT, TY_USHORT} then push_promotion bt e TY_INT
          else Some e)"

section \<open>Case labels\<close>

text \<open>\<open>case_labeled_stm_t\<close> as the list of case labels sees it.\<close>

record case_t =
  cs_id :: nat
  cs_expr :: "expr_t option"
  cs_val :: int

fun build_case_stm_list :: "statement_t \<Rightarrow> case_t list \<Rightarrow> case_t list" where
  "build_case_stm_list (Statement lx k) cslist =
     (case k of
        STT_LABELED gl s \<Rightarrow> build_case_stm_list s cslist
      | STT_CASE_LABELED i e v s \<Rightarrow> build_case_stm_list s (\<lparr>cs_id = i, cs_expr = e, cs_val = v\<rparr> # cslist)
      | STT_COMPOUND il ss \<Rightarrow> fold build_case_stm_list ss cslist
      | STT_IF e s t \<Rightarrow> build_case_stm_list s (build_case_stm_list s cslist)
      | STT_WHILE e s \<Rightarrow> build_case_stm_list s cslist
      | STT_DO e s \<Rightarrow> build_case_stm_list s cslist
      | STT_FOR a b c s \<Rightarrow> build_case_stm_list s cslist
      | _ \<Rightarrow> cslist)"

declare build_case_stm_list.simps [simp del]

text \<open>The difference of two \<open>long\<close> values, returned as an \<open>int\<close>.\<close>

definition casecmp :: "case_t \<Rightarrow> case_t \<Rightarrow> int" where
  "casecmp a b = signed_take_bit 31 (cs_val a - cs_val b)"

text \<open>The merge sort of \<open>GENERIC_MERGE_SORT\<close>: \<open>split\<close> cuts the list after \<open>len div 2\<close> elements, \<open>merge\<close> takes the
  element of the first list only if it is smaller.\<close>

fun merge :: "('a \<Rightarrow> 'a \<Rightarrow> int) \<Rightarrow> 'a list \<Rightarrow> 'a list \<Rightarrow> 'a list" where
  "merge cmp (x # xs) (y # ys) = (if cmp x y < 0 then x # merge cmp xs (y # ys) else y # merge cmp (x # xs) ys)"
| "merge cmp [] ys = ys"
| "merge cmp xs [] = xs"

function sortcslist :: "('a \<Rightarrow> 'a \<Rightarrow> int) \<Rightarrow> 'a list \<Rightarrow> nat \<Rightarrow> 'a list" where
  "sortcslist cmp list len =
     (if len > 1
      then let list2 = drop (len div 2) list; list = take (len div 2) list in
        merge cmp (sortcslist cmp list (len div 2)) (sortcslist cmp list2 ((len + 1) div 2))
      else list)"
  by pat_completeness auto
termination by (relation "measure (\<lambda>(cmp, list, len). len)") auto

declare sortcslist.simps [simp del]

text \<open>\<open>ci_types_same\<close> where one of the types is an enumeration.\<close>

definition enum_types_same :: "(type_t \<Rightarrow> nat) \<Rightarrow> type_t option \<Rightarrow> type_t option \<Rightarrow> bool" where
  "enum_types_same ae t1 t2 =
     (case (t1, t2) of (Some a, Some b) \<Rightarrow> ty_code a = ty_code b \<and> ae a = ae b | _ \<Rightarrow> False)"

text \<open>Whether a case label goes into the table, and what is reported.\<close>

definition want_case :: "typecode_t \<Rightarrow> (type_t \<Rightarrow> nat) \<Rightarrow> type_t option \<Rightarrow> case_t \<Rightarrow> (bool \<times> diag_t list) option" where
  "want_case bt ae switchtype cs =
     (case cs_expr cs of
        None \<Rightarrow> Some (False, [])
      | Some e \<Rightarrow>
          (case ex_type e of
             None \<Rightarrow> Some (False, [])
           | Some _ \<Rightarrow> do {
               e \<leftarrow> ci_do_integral_promotions bt e;
               casetype \<leftarrow> ex_type e;
               let switchcode = (case switchtype of None \<Rightarrow> TY_NOTYPE | Some t \<Rightarrow> ty_code t);
               if ty_code casetype = TY_ENUM \<or> switchcode = TY_ENUM then
                 Some (if enum_types_same ae (Some casetype) switchtype then (True, []) else (False, [Case_Type_Conflict]))
               else if switchcode \<noteq> TY_NOTYPE then do { _ \<leftarrow> push_promotion bt e switchcode; Some (True, []) }
               else Some (False, []) }))"

fun select_cases ::
  "typecode_t \<Rightarrow> (type_t \<Rightarrow> nat) \<Rightarrow> type_t option \<Rightarrow> case_t list \<Rightarrow> nat option \<Rightarrow> case_t list
     \<Rightarrow> (case_t list \<times> nat option \<times> diag_t list) option" where
  "select_cases bt ae switchtype [] default_cs newlist = Some (newlist, default_cs, [])"
| "select_cases bt ae switchtype (cs # csl) default_cs newlist =
     (let is_default = (cs_expr cs = None);
          dd = (if is_default \<and> default_cs \<noteq> None then [Duplicate_Default] else []);
          default_cs = (if is_default then Some (cs_id cs) else default_cs) in
      do { (want, d) \<leftarrow> want_case bt ae switchtype cs;
           (newlist, default_cs, ds) \<leftarrow> select_cases bt ae switchtype csl default_cs (if want then cs # newlist else newlist);
           Some (newlist, default_cs, dd @ d @ ds) })"

fun duplicate_cases :: "case_t list \<Rightarrow> diag_t list" where
  "duplicate_cases (a # b # cs) = (if cs_val b = cs_val a then [Duplicate_Case (cs_val b)] else []) @ duplicate_cases (b # cs)"
| "duplicate_cases _ = []"

definition build_cstab ::
  "typecode_t \<Rightarrow> (type_t \<Rightarrow> nat) \<Rightarrow> type_t option \<Rightarrow> case_t list \<Rightarrow> (case_t list \<times> nat option \<times> diag_t list) option" where
  "build_cstab bt ae switchtype cslist =
     do { (newlist, default_cs, ds) \<leftarrow> select_cases bt ae switchtype cslist None [];
          let cstab = (if newlist = [] then [] else sortcslist casecmp newlist (length newlist));
          Some (cstab, default_cs, ds @ duplicate_cases cstab) }"

definition ci_make_switch_statement ::
  "typecode_t \<Rightarrow> (type_t \<Rightarrow> nat) \<Rightarrow> (expr_t \<Rightarrow> int option) \<Rightarrow> expr_t \<Rightarrow> statement_t \<Rightarrow> (statement_t \<times> diag_t list) option" where
  "ci_make_switch_statement bt ae lx e s =
     do { let d1 = (case ex_type e of
                      Some t \<Rightarrow> if ty_code t \<noteq> TY_ENUM \<and> \<not> ci_is_integral (ty_code t) then [Switch_Not_Integral] else []
                    | None \<Rightarrow> []);
          e' \<leftarrow> ci_do_integral_promotions bt e;
          let csl = build_case_stm_list s [];
          let d2 = (case csl of [] \<Rightarrow> [No_Case_Labels] | [cs] \<Rightarrow> if cs_expr cs = None then [Only_Default] else [] | _ \<Rightarrow> []);
          (cstab, default_cs, d3) \<leftarrow> build_cstab bt ae (ex_type e') csl;
          Some (Statement (lx e) (STT_SWITCH e' s (map (\<lambda>cs. (cs_id cs, cs_val cs)) cstab) default_cs), d1 @ d2 @ d3) }"

section \<open>The other statements\<close>

text \<open>The goto labels of a function; a label is known by its position from the end of the list.\<close>

record goto_label_t =
  gl_name :: string
  gl_used :: bool
  gl_defined :: bool

fun find_label :: "string \<Rightarrow> goto_label_t list \<Rightarrow> nat option" where
  "find_label n [] = None"
| "find_label n (gl # gls) = (if gl_name gl = n then Some (length gls) else find_label n gls)"

definition ci_name_to_label :: "goto_label_t list \<Rightarrow> string \<Rightarrow> bool \<Rightarrow> goto_label_t list \<times> nat \<times> diag_t list" where
  "ci_name_to_label Labels n is_definition =
     (let Labels = (if find_label n Labels = None
                    then \<lparr>gl_name = n, gl_used = \<not> is_definition, gl_defined = False\<rparr> # Labels else Labels);
          i = the (find_label n Labels);
          k = length Labels - Suc i;
          gl = Labels ! k;
          ds = (if is_definition \<and> gl_defined gl then [Label_Redefined n] else []);
          gl = (if is_definition then gl\<lparr>gl_defined := True\<rparr> else gl\<lparr>gl_used := True\<rparr>) in
      (Labels[k := gl], i, ds))"

definition ci_make_labeled_statement ::
  "goto_label_t list \<Rightarrow> string \<Rightarrow> statement_t \<Rightarrow> goto_label_t list \<times> statement_t \<times> diag_t list" where
  "ci_make_labeled_statement Labels n s =
     (let (Labels, i, ds) = ci_name_to_label Labels n True in (Labels, Statement None (STT_LABELED i s), ds))"

definition ci_make_goto_statement ::
  "goto_label_t list \<Rightarrow> string \<Rightarrow> int option \<Rightarrow> goto_label_t list \<times> statement_t \<times> diag_t list" where
  "ci_make_goto_statement Labels n l =
     (let (Labels, i, ds) = ci_name_to_label Labels n False in (Labels, Statement l (STT_GOTO i), ds))"

text \<open>A case label; \<open>i\<close> is the identity of the new structure.  The value is what the evaluator left in a local
  variable, whether it found a constant or not.\<close>

definition ci_make_case_labeled_statement ::
  "typecode_t \<Rightarrow> fpu \<Rightarrow> nat \<Rightarrow> int \<Rightarrow> bool \<Rightarrow> expr_t option \<Rightarrow> statement_t \<Rightarrow> (statement_t \<times> diag_t list) option" where
  "ci_make_case_labeled_statement bt u i junk in_switch e s =
     (let d1 = (if \<not> in_switch then [Case_Outside_Switch] else []) in
      case e of
        None \<Rightarrow> Some (Statement None (STT_CASE_LABELED i None junk s), d1)
      | Some e \<Rightarrow> do {
          tc \<leftarrow> ty e;
          if \<not> ci_is_integral tc \<and> tc \<noteq> TY_ENUM then
            Some (Statement None (STT_CASE_LABELED i (Some (Expr None (ex_is_constant e) (ex_kind e))) junk s), d1 @ [Case_Not_Integral])
          else (case ci_evaluate_constant_expression bt u e False of
                  Value v \<Rightarrow> Some (Statement None (STT_CASE_LABELED i (Some e) (sint (cv_low v)) s), d1)
                | Not_Constant \<Rightarrow> Some (Statement None (STT_CASE_LABELED i (Some e) junk s), d1 @ [Case_Not_Constant])
                | _ \<Rightarrow> None) })"

definition ci_make_expression_statement :: "(expr_t \<Rightarrow> int option) \<Rightarrow> expr_t option \<Rightarrow> statement_t" where
  "ci_make_expression_statement lx e = Statement (case e of None \<Rightarrow> None | Some e \<Rightarrow> lx e) (STT_EXPR e)"

definition ci_make_if_statement ::
  "(expr_t \<Rightarrow> int option) \<Rightarrow> expr_t \<Rightarrow> statement_t \<Rightarrow> statement_t option \<Rightarrow> statement_t \<times> diag_t list" where
  "ci_make_if_statement lx e s t = (Statement (lx e) (STT_IF e s t), check_iteration_expr e ''if'')"

definition ci_make_while_statement ::
  "(expr_t \<Rightarrow> int option) \<Rightarrow> bool \<Rightarrow> expr_t \<Rightarrow> statement_t \<Rightarrow> statement_t \<times> diag_t list" where
  "ci_make_while_statement lx is_while e s =
     (Statement (lx e) (if is_while then STT_WHILE e s else STT_DO e s), check_iteration_expr e ''while'')"

definition ci_make_for_statement ::
  "(expr_t \<Rightarrow> int option) \<Rightarrow> expr_t option \<Rightarrow> expr_t option \<Rightarrow> expr_t option \<Rightarrow> statement_t \<Rightarrow> int option \<Rightarrow> statement_t \<times> diag_t list" where
  "ci_make_for_statement lx a b c s l =
     (Statement (case a of Some e \<Rightarrow> lx e | None \<Rightarrow> (case b of Some e \<Rightarrow> lx e | None \<Rightarrow> (case c of Some e \<Rightarrow> lx e | None \<Rightarrow> l)))
        (STT_FOR a b c s),
      case b of Some e \<Rightarrow> check_iteration_expr e ''for'' | None \<Rightarrow> [])"

definition ci_make_continue_statement :: "bool \<Rightarrow> int option \<Rightarrow> statement_t \<times> diag_t list" where
  "ci_make_continue_statement in_loop l = (Statement l STT_CONTINUE, if \<not> in_loop then [Continue_Outside_Loop] else [])"

definition ci_make_break_statement :: "bool \<Rightarrow> int option \<Rightarrow> statement_t \<times> diag_t list" where
  "ci_make_break_statement in_loop_or_switch l = (Statement l STT_BREAK, if \<not> in_loop_or_switch then [Break_Outside] else [])"

end
