(* ===== verification/Ups_Stm_Build_Props.thy ===== *)
theory Ups_Stm_Build_Props
  imports Ups_Stm_Build Ups_Const_Props "HOL-Library.Multiset"
begin

text \<open>
  The table of case labels that \<open>Ups_Stm_Build\<close> makes for a \<open>switch\<close>: the merge sort keeps the elements and orders
  them, as long as the comparison, which subtracts two \<open>long\<close> values and returns an \<open>int\<close>, does not overflow.
\<close>

section \<open>The merge sort\<close>

lemma mset_merge: "mset (merge cmp xs ys) = mset xs + mset ys"
  by (induction cmp xs ys rule: merge.induct) simp_all

lemma set_merge: "set (merge cmp xs ys) = set xs \<union> set ys"
  by (metis mset_merge set_mset_mset set_mset_union)

lemma mset_sortcslist: "len = length xs \<Longrightarrow> mset (sortcslist cmp xs len) = mset xs"
proof (induction cmp xs len rule: sortcslist.induct)
  case (1 cmp xs len)
  show ?case
  proof (cases "len > 1")
    case True
    have "len - len div 2 = (len + 1) div 2" by presburger
    then have "mset (sortcslist cmp (take (len div 2) xs) (len div 2)) = mset (take (len div 2) xs)"
        "mset (sortcslist cmp (drop (len div 2) xs) ((len + 1) div 2)) = mset (drop (len div 2) xs)"
      using 1 True by auto
    then show ?thesis using True
      by (simp add: sortcslist.simps[of cmp xs len] Let_def mset_merge) (simp flip: mset_append)
  qed (simp add: sortcslist.simps[of cmp xs len])
qed

lemma set_sortcslist: "set (sortcslist cmp xs (length xs)) = set xs"
  by (metis mset_sortcslist set_mset_mset)

text \<open>A comparison that has the sign of a difference of keys.\<close>

definition compares :: "('a \<Rightarrow> 'a \<Rightarrow> int) \<Rightarrow> ('a \<Rightarrow> int) \<Rightarrow> 'a set \<Rightarrow> bool" where
  "compares cmp key A \<longleftrightarrow> (\<forall>x\<in>A. \<forall>y\<in>A. cmp x y < 0 \<longleftrightarrow> key x < key y)"

definition sorted_key :: "('a \<Rightarrow> int) \<Rightarrow> 'a list \<Rightarrow> bool" where
  "sorted_key key xs \<longleftrightarrow> sorted (map key xs)"

lemma sorted_merge:
  "compares cmp key (set xs \<union> set ys) \<Longrightarrow> sorted_key key xs \<Longrightarrow> sorted_key key ys \<Longrightarrow> sorted_key key (merge cmp xs ys)"
proof (induction cmp xs ys rule: merge.induct)
  case (1 cmp x xs y ys)
  have c: "cmp x y < 0 \<longleftrightarrow> key x < key y" using 1(3) by (simp add: compares_def)
  have sub: "compares cmp key (set xs \<union> set (y # ys))" "compares cmp key (set (x # xs) \<union> set ys)"
    using 1(3) by (auto simp: compares_def)
  show ?case
  proof (cases "cmp x y < 0")
    case True
    then show ?thesis using 1(1)[OF True sub(1)] 1(4,5) c by (auto simp: sorted_key_def set_merge)
  next
    case False
    then show ?thesis using 1(2)[OF False sub(2)] 1(4,5) c by (auto simp: sorted_key_def set_merge)
  qed
qed simp_all

lemma sorted_sortcslist:
  "len = length xs \<Longrightarrow> compares cmp key (set xs) \<Longrightarrow> sorted_key key (sortcslist cmp xs len)"
proof (induction cmp xs len rule: sortcslist.induct)
  case (1 cmp xs len)
  show ?case
  proof (cases "len > 1")
    case True
    let ?l = "take (len div 2) xs" and ?r = "drop (len div 2) xs"
    have r: "length ?l = len div 2" "length ?r = (len + 1) div 2" using 1(3) by auto
    have c: "compares cmp key (set ?l)" "compares cmp key (set ?r)"
      using 1(4) by (auto simp: compares_def dest: in_set_takeD in_set_dropD)
    have s: "sorted_key key (sortcslist cmp ?l (len div 2))" "sorted_key key (sortcslist cmp ?r ((len + 1) div 2))"
      using 1(1)[OF True _ _ r(1)[symmetric] c(1)] 1(2)[OF True _ _ r(2)[symmetric] c(2)] by auto
    have "set (sortcslist cmp ?l (len div 2)) = set ?l" "set (sortcslist cmp ?r ((len + 1) div 2)) = set ?r"
      using set_sortcslist[of cmp ?l] set_sortcslist[of cmp ?r] r by simp_all
    moreover have "set ?l \<union> set ?r = set xs" by (metis append_take_drop_id set_append)
    ultimately show ?thesis using sorted_merge[OF _ s] 1(4) True
      by (simp add: sortcslist.simps[of cmp xs len] Let_def)
  next
    case False
    then have "sortcslist cmp xs len = xs" "length xs \<le> 1" using 1(3) sortcslist.simps[of cmp xs len] by simp_all
    then show ?thesis by (cases xs) (simp_all add: sorted_key_def)
  qed
qed

section \<open>The table of case labels\<close>

text \<open>The labels that belong into the table, and labels whose values are less than \<open>2 ^ 31\<close> apart.\<close>

definition wanted :: "typecode_t \<Rightarrow> (type_t \<Rightarrow> nat) \<Rightarrow> type_t option \<Rightarrow> case_t \<Rightarrow> bool" where
  "wanted bt ae t cs \<longleftrightarrow> (\<exists>ds. want_case bt ae t cs = Some (True, ds))"

definition close_values :: "case_t set \<Rightarrow> bool" where
  "close_values A \<longleftrightarrow> (\<forall>a\<in>A. \<forall>b\<in>A. \<bar>cs_val a - cs_val b\<bar> < 2 ^ 31)"

lemma close_compares: "close_values A \<Longrightarrow> compares casecmp cs_val A"
proof -
  assume c: "close_values A"
  have "signed_take_bit 31 d = d" if "\<bar>d\<bar> < 2 ^ 31" for d :: int using that by (intro signed_take_bit_int_eq_self) auto
  then show ?thesis using c by (simp add: compares_def casecmp_def close_values_def)
qed

lemma want_case_diags: "want_case bt ae t cs = Some (w, ds) \<Longrightarrow> Duplicate_Case v \<notin> set ds"
  by (auto simp: want_case_def bind_Some_iff Let_def split: option.split_asm if_split_asm)

lemma select_cases_wanted:
  "select_cases bt ae t csl d0 nl = Some (nl', d, ds) \<Longrightarrow>
     mset nl' = mset nl + filter_mset (wanted bt ae t) (mset csl) \<and> (\<forall>v. Duplicate_Case v \<notin> set ds)"
proof (induction csl arbitrary: d0 nl d ds)
  case (Cons cs csl)
  let ?d0 = "if cs_expr cs = None then Some (cs_id cs) else d0"
  obtain want d1 ds' where w: "want_case bt ae t cs = Some (want, d1)"
    and s: "select_cases bt ae t csl ?d0 (if want then cs # nl else nl) = Some (nl', d, ds')"
    and ds: "ds = (if cs_expr cs = None \<and> d0 \<noteq> None then [Duplicate_Default] else []) @ d1 @ ds'"
    using Cons.prems by (auto simp: Let_def bind_Some_iff simp del: append_assoc)
  have "wanted bt ae t cs \<longleftrightarrow> want" using w by (auto simp: wanted_def)
  then show ?case using Cons.IH[OF s] want_case_diags[OF w] by (auto simp: ds)
qed simp

lemma duplicate_cases_sorted:
  assumes "sorted (map cs_val cs)"
  shows "Duplicate_Case v \<in> set (duplicate_cases cs) \<longleftrightarrow> 1 < count (mset (map cs_val cs)) v"
  using assms
proof (induction cs rule: duplicate_cases.induct)
  case (1 a b cs)
  have "v \<notin> set (map cs_val (b # cs))" if "v = cs_val a" "cs_val b \<noteq> cs_val a" using 1(2) that by fastforce
  then have "count (mset (map cs_val (b # cs))) v = 0" if "v = cs_val a" "cs_val b \<noteq> cs_val a" using that
    by (metis count_eq_zero_iff set_mset_mset)
  then show ?case using 1 by auto
qed simp_all

lemma switch_table:
  assumes "build_cstab bt ae t csl = Some (cstab, d, ds)" and "close_values (set csl)"
  shows "sorted (map cs_val cstab) \<and> mset cstab = filter_mset (wanted bt ae t) (mset csl)
    \<and> (\<forall>v. Duplicate_Case v \<in> set ds \<longleftrightarrow> 1 < count (mset (map cs_val cstab)) v)"
proof -
  obtain nl ds' where s: "select_cases bt ae t csl None [] = Some (nl, d, ds')"
    and tab: "cstab = sortcslist casecmp nl (length nl)" and ds: "ds = ds' @ duplicate_cases cstab"
    using assms(1) by (auto simp: build_cstab_def bind_Some_iff Let_def sortcslist.simps[of casecmp "[]"] split: if_split_asm)
  note sel = select_cases_wanted[OF s]
  then have "set nl \<subseteq> set csl" by (metis add.left_neutral filter_mset_eq_conv mset.simps(1) set_mset_mono set_mset_mset)
  then have "close_values (set nl)" using assms(2) by (auto simp: close_values_def)
  then have sd: "sorted (map cs_val cstab)"
    using sorted_sortcslist[OF HOL.refl close_compares, of nl] by (simp add: tab sorted_key_def)
  show ?thesis using sel sd duplicate_cases_sorted[OF sd] mset_sortcslist[OF HOL.refl, of casecmp nl] by (auto simp: ds tab)
qed

text \<open>The list of labels of a statement is put before the list that was there.\<close>

lemma build_kinds:
  "build_case_stm_list (Statement l (STT_LABELED gl s)) acc = build_case_stm_list s acc"
  "build_case_stm_list (Statement l (STT_CASE_LABELED i c v s)) acc = build_case_stm_list s (\<lparr>cs_id = i, cs_expr = c, cs_val = v\<rparr> # acc)"
  "build_case_stm_list (Statement l (STT_COMPOUND il ss)) acc = fold build_case_stm_list ss acc"
  "build_case_stm_list (Statement l (STT_IF e s s')) acc = build_case_stm_list s (build_case_stm_list s acc)"
  "build_case_stm_list (Statement l (STT_WHILE e s)) acc = build_case_stm_list s acc"
  "build_case_stm_list (Statement l (STT_DO e s)) acc = build_case_stm_list s acc"
  "build_case_stm_list (Statement l (STT_FOR x y z s)) acc = build_case_stm_list s acc"
  by (simp_all add: build_case_stm_list.simps)

lemma build_appends: "build_case_stm_list s acc = build_case_stm_list s [] @ acc"
proof (induction s arbitrary: acc rule: measure_induct_rule[of size])
  case (less s)
  obtain l k where s: "s = Statement l k" by (cases s)
  have one: "build_case_stm_list t acc = build_case_stm_list t [] @ acc" if "size t < size (Statement l k)" for t acc
    by (rule less.IH) (use that in \<open>simp add: s\<close>)
  have list: "fold build_case_stm_list ss acc = fold build_case_stm_list ss [] @ acc" if "size_list size ss < size (Statement l k)" for ss acc
    using that
  proof (induction ss arbitrary: acc)
    case (Cons t ss)
    then have z: "size t < size (Statement l k)" "size_list size ss < size (Statement l k)" by simp_all
    have "fold build_case_stm_list (t # ss) acc = fold build_case_stm_list ss [] @ build_case_stm_list t [] @ acc" for acc
      using one[OF z(1), of acc] Cons.IH[OF z(2), of "build_case_stm_list t [] @ acc"] by simp
    from this[of acc] this[of "[]"] show ?case by simp
  qed simp
  show ?case unfolding s
  proof (cases k)
    case (STT_CASE_LABELED i e v t)
    then have z: "size t < size (Statement l k)" by simp
    show "build_case_stm_list (Statement l k) acc = build_case_stm_list (Statement l k) [] @ acc" unfolding STT_CASE_LABELED build_kinds
      using one[OF z, of "\<lparr>cs_id = i, cs_expr = e, cs_val = v\<rparr> # acc"] one[OF z, of "[\<lparr>cs_id = i, cs_expr = e, cs_val = v\<rparr>]"] by simp
  next
    case (STT_IF e t t')
    then have z: "size t < size (Statement l k)" by simp
    show "build_case_stm_list (Statement l k) acc = build_case_stm_list (Statement l k) [] @ acc" unfolding STT_IF build_kinds
      using one[OF z, of acc] one[OF z, of "build_case_stm_list t [] @ acc"] one[OF z, of "build_case_stm_list t []"] by simp
  next
    case (STT_COMPOUND il ss)
    show "build_case_stm_list (Statement l k) acc = build_case_stm_list (Statement l k) [] @ acc" unfolding STT_COMPOUND build_kinds
      by (rule list) (simp add: STT_COMPOUND)
  next
    case (STT_LABELED gl t)
    show "build_case_stm_list (Statement l k) acc = build_case_stm_list (Statement l k) [] @ acc" unfolding STT_LABELED build_kinds
      by (rule one) (simp add: STT_LABELED)
  next
    case (STT_WHILE e t)
    show "build_case_stm_list (Statement l k) acc = build_case_stm_list (Statement l k) [] @ acc" unfolding STT_WHILE build_kinds
      by (rule one) (simp add: STT_WHILE)
  next
    case (STT_DO e t)
    show "build_case_stm_list (Statement l k) acc = build_case_stm_list (Statement l k) [] @ acc" unfolding STT_DO build_kinds
      by (rule one) (simp add: STT_DO)
  next
    case (STT_FOR x y z t)
    show "build_case_stm_list (Statement l k) acc = build_case_stm_list (Statement l k) [] @ acc" unfolding STT_FOR build_kinds
      by (rule one) (simp add: STT_FOR)
  qed (simp_all add: build_case_stm_list.simps)
qed

section \<open>The properties\<close>

text \<open>C8.  The switch table is right.  If the values of the case labels are less than \<open>2 ^ 31\<close> apart, the table has exactly
  the case labels of the body that fit the switch expression, in ascending order, and a value is reported as a
  duplicate exactly if it is in the table more than once.\<close>

theorem switch_table_sorted:
  assumes "build_cstab bt ae t csl = Some (cstab, d, ds)" and "close_values (set csl)"
  shows "sorted (map cs_val cstab) \<and> mset cstab = filter_mset (wanted bt ae t) (mset csl)
    \<and> (\<forall>v. Duplicate_Case v \<in> set ds \<longleftrightarrow> 1 < count (mset (map cs_val cstab)) v)"
  by (rule switch_table[OF assms])

lemma count_map: "count (mset xs) x \<le> count (mset (map f xs)) (f x)"
  by (induction xs) auto

text \<open>C32.  Case labels inside an \<open>if\<close> statement are mishandled.  A label in the \<open>if\<close> part that belongs into the table is
  reported as a duplicate of itself, so the program is rejected; the \<open>else\<close> part makes no difference to the table and
  to the reports, so a label in it is never reached.\<close>

theorem if_cases_mishandled:
  assumes "cs \<in> set (build_case_stm_list s [])" and "wanted bt ae t cs"
    and "build_cstab bt ae t (build_case_stm_list (Statement l (STT_IF e s (Some s'))) []) = Some (cstab, d, ds)"
    and "close_values (set (build_case_stm_list s []))"
  shows "Duplicate_Case (cs_val cs) \<in> set ds
    \<and> build_cstab bt ae t (build_case_stm_list (Statement l (STT_IF e s None)) []) = Some (cstab, d, ds)"
proof -
  let ?L = "build_case_stm_list s []"
  have two: "build_case_stm_list (Statement l (STT_IF e s s'')) [] = ?L @ ?L" for s''
    unfolding build_kinds by (rule build_appends)
  have "close_values (set (?L @ ?L))" using assms(4) by simp
  note tab = switch_table[OF assms(3)[unfolded two] this]
  have "count (mset ?L) cs \<ge> 1" using assms(1) by (simp add: Suc_le_eq)
  moreover have "count (mset cstab) cs = 2 * count (mset ?L) cs" using tab assms(2) by simp
  ultimately have "1 < count (mset cstab) cs" by linarith
  then have "1 < count (mset (map cs_val cstab)) (cs_val cs)" using count_map[of cstab cs cs_val] by linarith
  then show ?thesis using tab assms(3) by (simp add: two)
qed

definition demo_case :: "nat \<Rightarrow> int \<Rightarrow> case_t" where
  "demo_case i v = \<lparr>cs_id = i, cs_expr = Some (demo_const TY_INT (word_of_int v)), cs_val = v\<rparr>"

lemma sort_two: "sortcslist cmp [x, y] 2 = (if cmp x y < 0 then [x, y] else [y, x])"
  by (simp add: sortcslist.simps[of cmp "[x, y]"] sortcslist.simps[of cmp "[_]"])

lemma wrapped_difference:
  assumes "(2 :: int) ^ 31 \<le> d" and "d < 2 ^ 32"
  shows "signed_take_bit 31 d = d - 2 ^ 32" and "signed_take_bit 31 (- d) = (if d = 2 ^ 31 then - (2 ^ 31) else 2 ^ 32 - d)"
proof -
  have w: "signed_take_bit 31 (x + 2 ^ 32) = signed_take_bit 31 x" for x :: int
    by (rule signed_take_bit_eq_iff_take_bit_eq[THEN iffD2]) (simp add: take_bit_eq_mod)
  have "signed_take_bit 31 (d - 2 ^ 32) = d - 2 ^ 32" using assms by (intro signed_take_bit_int_eq_self) simp_all
  with w[of "d - 2 ^ 32"] show "signed_take_bit 31 d = d - 2 ^ 32" by simp
  show "signed_take_bit 31 (- d) = (if d = 2 ^ 31 then - (2 ^ 31) else 2 ^ 32 - d)"
  proof (cases "d = 2 ^ 31")
    case True
    have "signed_take_bit 31 (- (2 ^ 31)) = (- (2 ^ 31) :: int)" by (intro signed_take_bit_int_eq_self) simp_all
    with True show ?thesis by simp
  next
    case False
    then have "signed_take_bit 31 (2 ^ 32 - d) = 2 ^ 32 - d" using assms by (intro signed_take_bit_int_eq_self) simp_all
    with False w[of "- d"] show ?thesis by (simp add: add.commute)
  qed
qed

text \<open>The table of a switch over two labels whose values fit an \<open>int\<close> and are at least \<open>2 ^ 31\<close> apart.\<close>

lemma two_cases:
  assumes "wanted bt ae t a" and "wanted bt ae t b" and "build_cstab bt ae t [a, b] = Some (cstab, d, ds)"
  shows "cstab = (if casecmp b a < 0 then [b, a] else [a, b])"
proof -
  obtain da db where w: "want_case bt ae t a = Some (True, da)" "want_case bt ae t b = Some (True, db)"
    using assms(1,2) by (auto simp: wanted_def)
  with assms(3) show ?thesis
    by (auto simp: build_cstab_def Let_def sort_two numeral_2_eq_2[symmetric])
qed

text \<open>C33.  The values of case labels must be less than \<open>2 ^ 31\<close> apart.  In a switch over two labels that are exactly
  \<open>2 ^ 31\<close> apart, in either order, the compiler's \<open>int\<close> difference of the last and the first entry of the table is
  negative, and it stops with the panic \<open>val botch in css\<close>.  Of two labels that are farther apart the difference that \<open>casecmp\<close>
  returns wraps around, and the table is in descending order, which that check does not see.\<close>

theorem wide_switch_mishandled:
  assumes "wanted bt ae t a" and "wanted bt ae t b" and "- (2 ^ 31) \<le> cs_val a" and "cs_val b < 2 ^ 31"
    and "build_cstab bt ae t xs = Some (cstab, d, ds)" and "xs = [a, b] \<or> xs = [b, a]"
  shows "(cs_val b - cs_val a = 2 ^ 31 \<longrightarrow> switch_dist (map (\<lambda>cs. (cs_id cs, cs_val cs)) cstab) < 0
        \<and> code_switch st (map (\<lambda>cs. (cs_id cs, cs_val cs)) cstab) ld = None)
    \<and> (cs_val b - cs_val a > 2 ^ 31 \<longrightarrow> cstab = [b, a] \<and> 0 < switch_dist (map (\<lambda>cs. (cs_id cs, cs_val cs)) cstab))"
proof -
  let ?d = "cs_val b - cs_val a"
  have tab: "cstab = (if casecmp b a < 0 then [b, a] else [a, b]) \<and> xs = [a, b] \<or> cstab = (if casecmp a b < 0 then [a, b] else [b, a]) \<and> xs = [b, a]"
    using assms(6) two_cases[OF assms(1,2)] two_cases[OF assms(2,1)] assms(5) by auto
  have lt: "?d < 2 ^ 32" using assms(3,4) by simp
  have fit: "Ups_Compile_Stmt.to_int (cs_val a) = cs_val a" "Ups_Compile_Stmt.to_int (cs_val b) = cs_val b" if "2 ^ 31 \<le> ?d"
    using assms(3,4) that by (auto simp: Ups_Compile_Stmt.to_int_def intro!: signed_take_bit_int_eq_self)
  have cmp: "casecmp b a = ?d - 2 ^ 32" "casecmp a b = (if ?d = 2 ^ 31 then - (2 ^ 31) else 2 ^ 32 - ?d)" if "2 ^ 31 \<le> ?d"
    using wrapped_difference[OF that lt] by (simp_all add: casecmp_def)
  have dist: "switch_dist [(i, cs_val a), (j, cs_val b)] = ?d - 2 ^ 32" "switch_dist [(j, cs_val b), (i, cs_val a)] = (if ?d = 2 ^ 31 then - (2 ^ 31) else 2 ^ 32 - ?d)"
    if "2 ^ 31 \<le> ?d" for i j
    using wrapped_difference[OF that lt] fit[OF that] by (simp_all add: switch_dist_def) (simp_all add: Ups_Compile_Stmt.to_int_def)
  show ?thesis
  proof (intro conjI impI)
    assume e: "?d = 2 ^ 31"
    then have "2 ^ 31 \<le> ?d" by simp
    with tab dist e have "switch_dist (map (\<lambda>cs. (cs_id cs, cs_val cs)) cstab) < 0" by (auto split: if_split_asm)
    moreover from this show "switch_dist (map (\<lambda>cs. (cs_id cs, cs_val cs)) cstab) < 0" .
    ultimately show "code_switch st (map (\<lambda>cs. (cs_id cs, cs_val cs)) cstab) ld = None" by (simp add: code_switch_def Let_def)
  next
    assume g: "2 ^ 31 < ?d"
    then have ge: "2 ^ 31 \<le> ?d" by simp
    from tab cmp[OF ge] g lt show c: "cstab = [b, a]" by auto
    show "0 < switch_dist (map (\<lambda>cs. (cs_id cs, cs_val cs)) cstab)" using dist(2)[OF ge] g lt by (simp add: c)
  qed
qed

text \<open>\<open>switch (x) { if (x) case 7: ; else case 8: ; }\<close> and a switch over three values.\<close>

definition demo_empty :: statement_t where "demo_empty = Statement None (STT_EXPR None)"

definition demo_label :: "nat \<Rightarrow> word64 \<Rightarrow> statement_t" where
  "demo_label i w = Statement None (STT_CASE_LABELED i (Some (demo_const TY_INT w)) (sint w) demo_empty)"

lemma demo_wanted: "wanted TY_VOID ae (Some (Type TY_INT 4 None 0 0 0 None)) (demo_case i v)"
  by (simp add: wanted_def want_case_def demo_case_def demo_const_def ci_do_integral_promotions_def push_promotion_def)

theorem switch_table_sorted_witness:
  "\<exists>cstab. build_cstab TY_VOID (\<lambda>_. 0) (Some (Type TY_INT 4 None 0 0 0 None)) [demo_case 0 5, demo_case 1 (-3), demo_case 2 5]
       = Some (cstab, None, [Duplicate_Case 5])
     \<and> sorted (map cs_val cstab) \<and> mset cstab = {#demo_case 0 5, demo_case 1 (-3), demo_case 2 5#}"
proof -
  let ?b = "build_cstab TY_VOID (\<lambda>_. 0) (Some (Type TY_INT 4 None 0 0 0 None)) [demo_case 0 5, demo_case 1 (-3), demo_case 2 5]"
  have "case ?b of Some (cstab, d, ds) \<Rightarrow> d = None \<and> ds = [Duplicate_Case 5] | None \<Rightarrow> False" by code_simp
  then obtain cstab where b: "?b = Some (cstab, None, [Duplicate_Case 5])" by (auto split: option.split_asm)
  moreover have "close_values (set [demo_case 0 5, demo_case 1 (-3), demo_case 2 5])" by (simp add: close_values_def demo_case_def)
  ultimately show ?thesis using switch_table_sorted[OF b] demo_wanted by (simp add: demo_wanted)
qed

theorem if_cases_mishandled_witness:
  "\<exists>cstab d ds. build_cstab TY_VOID (\<lambda>_. 0) (Some (Type TY_INT 4 None 0 0 0 None))
      (build_case_stm_list (Statement None (STT_IF (demo_const TY_INT 1) (demo_label 7 7) (Some (demo_label 8 8)))) []) = Some (cstab, d, ds)
     \<and> Duplicate_Case 7 \<in> set ds \<and> 8 \<notin> cs_id ` set cstab"
proof -
  let ?b = "build_cstab TY_VOID (\<lambda>_. 0) (Some (Type TY_INT 4 None 0 0 0 None))
      (build_case_stm_list (Statement None (STT_IF (demo_const TY_INT 1) (demo_label 7 7) (Some (demo_label 8 8)))) [])"
  have "case ?b of Some (cstab, d, ds) \<Rightarrow> 8 \<notin> cs_id ` set cstab | None \<Rightarrow> False" by code_simp
  then obtain cstab d ds where b: "?b = Some (cstab, d, ds)" "8 \<notin> cs_id ` set cstab" by (auto split: option.split_asm)
  have "build_case_stm_list (demo_label 7 7) [] = [demo_case 7 7]"
    by (simp add: demo_label_def demo_empty_def build_kinds build_case_stm_list.simps[of _ "STT_EXPR _"] demo_case_def)
  then have "Duplicate_Case (cs_val (demo_case 7 7)) \<in> set ds"
    using if_cases_mishandled[OF _ demo_wanted[of _ 7 7] b(1)] by (simp add: close_values_def)
  then show ?thesis using b by (auto simp: demo_case_def)
qed

theorem wide_switch_mishandled_witness:
  "\<exists>cstab. build_cstab TY_VOID (\<lambda>_. 0) (Some (Type TY_INT 4 None 0 0 0 None)) [demo_case 1 (-1), demo_case 2 2147483647] = Some (cstab, None, [])
     \<and> (\<forall>st ld. code_switch st (map (\<lambda>cs. (cs_id cs, cs_val cs)) cstab) ld = None)"
proof -
  let ?xs = "[demo_case 1 (-1), demo_case 2 2147483647]"
  have "case build_cstab TY_VOID (\<lambda>_. 0) (Some (Type TY_INT 4 None 0 0 0 None)) ?xs of Some (cstab, d, ds) \<Rightarrow> d = None \<and> ds = [] | None \<Rightarrow> False"
    by code_simp
  then obtain cstab where b: "build_cstab TY_VOID (\<lambda>_. 0) (Some (Type TY_INT 4 None 0 0 0 None)) ?xs = Some (cstab, None, [])"
    by (auto split: option.split_asm)
  have v: "cs_val (demo_case 1 (-1)) = -1" "cs_val (demo_case 2 2147483647) = 2147483647" by (simp_all add: demo_case_def)
  have "code_switch st (map (\<lambda>cs. (cs_id cs, cs_val cs)) cstab) ld = None" for st ld
    using wide_switch_mishandled[OF demo_wanted demo_wanted _ _ b disjI1[OF HOL.refl], of st ld] unfolding v by simp
  with b show ?thesis by blast
qed

end
