(* ===== verification/Ups_Static_Init.thy ===== *)
theory Ups_Static_Init
  imports Ups_Compile_Stmt Ups_State
begin

text \<open>
  Static initialisation (\<open>ci_do_static_initialisations\<close> and what it calls, \<open>src/ups/ci_compile_expr.c\<close>): the
  initialisers of static variables are written into the images of the data and external data areas, and addresses
  are recorded for relocation.  An area is a list of bytes; a write outside of it has no meaning.
  \<open>None\<close> is a panic or such a write.
\<close>

section \<open>State\<close>

text \<open>What types point to: the boolean type, the members of structures and unions; and the arithmetic that rounds
  a \<open>double\<close> to a \<open>float\<close>.\<close>

record iparams =
  ip_bool_type :: typecode_t
  ip_members :: "type_t \<Rightarrow> var_t list"
  ip_fpu :: fpu

text \<open>The part of a variable that linking changes, by the identity of the variable: \<open>va_class\<close>, \<open>va_addr\<close> and of
  \<open>va_flags\<close> the bits \<open>VA_EXT_RELOC\<close>, \<open>VA_TODO\<close> and \<open>VA_HAS_INITIALISER\<close>.  \<open>VA_ON_VLIST\<close> is
  membership of \<open>tx_vlist\<close>.  \<open>current\<close> is the variable as it is now.\<close>

record vattr =
  at_class :: class_t
  at_addr :: word64
  at_ext_reloc :: bool
  at_todo :: bool
  at_has_initialiser :: bool

type_synonym vattrs = "nat \<Rightarrow> vattr"

definition current :: "vattrs \<Rightarrow> var_t \<Rightarrow> var_t" where
  "current at v = v\<lparr>va_class := at_class (at (va_id v)), va_addr := at_addr (at (va_id v))\<rparr>"

definition on_vlist :: "text_t \<Rightarrow> var_t \<Rightarrow> bool" where
  "on_vlist tx v \<longleftrightarrow> va_id v \<in> va_id ` set (tx_vlist tx)"

text \<open>The code buffer with the relocations and \<open>tx_had_error\<close>; the area; the variables.\<close>

record istate =
  is_tx :: text_t
  is_error :: bool
  is_attrs :: vattrs
  is_data :: "byte list"

text \<open>\<open>ci_add_var_reloc\<close> with its effect on the variable: a declared one without a definition becomes an external
  reference.\<close>

definition link_var_reloc :: "istate \<Rightarrow> loctype_t \<Rightarrow> nat \<Rightarrow> var_t \<Rightarrow> word64 \<Rightarrow> istate option" where
  "link_var_reloc st lt loc v offset =
     do { let at = is_attrs st;
          let vars = map (current at) (tx_varlist (is_tx st));
          tx \<leftarrow> ci_add_var_reloc ((is_tx st)\<lparr>tx_varlist := vars\<rparr>) lt loc (current at v) offset;
          let undefined_var = (at_class (at (va_id v)) = CL_DECL \<and> lookup_var_def vars (va_name v) = None);
          Some (st\<lparr>is_tx := tx,
                   is_attrs := (if undefined_var
                                then at(va_id v := (at (va_id v))\<lparr>at_class := CL_EXTREF, at_ext_reloc := True\<rparr>)
                                else at)\<rparr>) }"

fun put_bytes :: "byte list \<Rightarrow> nat \<Rightarrow> byte list \<Rightarrow> byte list option" where
  "put_bytes data i [] = Some data"
| "put_bytes data i (b # bs) = (if i < length data then put_bytes (data[i := b]) (Suc i) bs else None)"

definition get_bytes :: "byte list \<Rightarrow> nat \<Rightarrow> nat \<Rightarrow> byte list option" where
  "get_bytes data i n = (if i + n \<le> length data then Some (take n (drop i data)) else None)"

definition put_data :: "istate \<Rightarrow> word64 \<Rightarrow> byte list \<Rightarrow> istate option" where
  "put_data st a bs = do { data \<leftarrow> put_bytes (is_data st) (unat a) bs; Some (st\<lparr>is_data := data\<rparr>) }"

section \<open>Values\<close>

definition get_initialiser_value :: "istate \<Rightarrow> initialiser_t \<Rightarrow> (istate \<times> word64) option" where
  "get_initialiser_value st i =
     (case i of
        IT_INTVAL w \<Rightarrow> Some (st, w)
      | IT_STRINGADDR _ _ \<Rightarrow> Some (st\<lparr>is_error := True\<rparr>, 0)
      | IT_VARADDR _ _ \<Rightarrow> Some (st\<lparr>is_error := True\<rparr>, 0)
      | IT_FUNCADDR _ \<Rightarrow> Some (st\<lparr>is_error := True\<rparr>, 0)
      | _ \<Rightarrow> None)"

definition initialise_word :: "istate \<Rightarrow> initialiser_t \<Rightarrow> loctype_t \<Rightarrow> word64 \<Rightarrow> istate option" where
  "initialise_word st i lt a =
     do { (st, val) \<leftarrow>
            (case i of
               IT_STRINGADDR sc offset \<Rightarrow> Some (st\<lparr>is_tx := ci_add_string_reloc (is_tx st) lt (unat a) sc offset\<rparr>, 0)
             | IT_VARADDR v offset \<Rightarrow> do { st \<leftarrow> link_var_reloc st lt (unat a) v offset; Some (st, 0) }
             | IT_FUNCADDR f \<Rightarrow> do {
                 let (tx, k) = ci_funcname_to_index (ci_add_func_reloc (is_tx st) lt (unat a)) f;
                 val \<leftarrow> short_form k;
                 Some (st\<lparr>is_tx := tx\<rparr>, val) }
             | _ \<Rightarrow> get_initialiser_value st i);
          put_data st a (bytes_of 8 val) }"

text \<open>The value of an integer object of \<open>n\<close> bytes, and of a bit field in the \<open>long\<close> at the address; \<open>1 << bf_width\<close> is
  computed as an \<open>int\<close>.\<close>

definition initialise_integer :: "istate \<Rightarrow> initialiser_t \<Rightarrow> nat \<Rightarrow> word64 \<Rightarrow> istate option" where
  "initialise_integer st i n a =
     do { (st, val) \<leftarrow> get_initialiser_value st i; put_data st a (bytes_of n val) }"

definition initialise_bitfield :: "istate \<Rightarrow> initialiser_t \<Rightarrow> word64 \<Rightarrow> word64 \<Rightarrow> word64 \<Rightarrow> istate option" where
  "initialise_bitfield st i offset width a =
     (if width \<ge> 31 \<or> offset \<ge> 32 then None
      else do {
        let mask = signed_take_bit 31 (push_bit (unat offset) (2 ^ unat width - 1));
        (st, initval) \<leftarrow> get_initialiser_value st i;
        old \<leftarrow> get_bytes (is_data st) (unat a) 8;
        put_data st a (bytes_of 8 ((word_of old AND NOT mask) OR (push_bit (unat offset) initval AND mask))) })"

definition initialise_float :: "iparams \<Rightarrow> istate \<Rightarrow> initialiser_t \<Rightarrow> bool \<Rightarrow> word64 \<Rightarrow> istate option" where
  "initialise_float ip st i is_double a =
     (case i of
        IT_FLOATVAL d \<Rightarrow> put_data st a (if is_double then bytes_of 8 d else bytes_of 4 (ucast (f_of_d (ip_fpu ip) d)))
      | _ \<Rightarrow> None)"

section \<open>Objects\<close>

text \<open>Array bounds are constants.\<close>

function (sequential) initialise :: "iparams \<Rightarrow> istate \<Rightarrow> word64 \<Rightarrow> type_t \<Rightarrow> initialiser_t \<Rightarrow> loctype_t \<Rightarrow> istate option"
  and initialise_elements ::
    "iparams \<Rightarrow> istate \<Rightarrow> word64 \<Rightarrow> word64 \<Rightarrow> word64 \<Rightarrow> type_t \<Rightarrow> initialiser_t list \<Rightarrow> loctype_t \<Rightarrow> istate option"
  and initialise_members ::
    "iparams \<Rightarrow> istate \<Rightarrow> word64 \<Rightarrow> word64 \<Rightarrow> var_t list \<Rightarrow> initialiser_t list \<Rightarrow> loctype_t \<Rightarrow> istate option" where
  "initialise ip st a t i lt =
     (let c = ci_effective_typecode (ip_bool_type ip) (ty_code t) in
      if c = DT_ARRAY_OF then
        (case ty_base t of
           None \<Rightarrow> None
         | Some el \<Rightarrow> do {
             n \<leftarrow> ci_typesize (ip_bool_type ip) el;
             let elsize = of_int n; let addrlim = a + elsize * of_int (ty_dim_high t + 1);
             case i of
               IT_STRINGBYTES sc _ \<Rightarrow> if a + of_nat (length sc) > addrlim then None else put_data st a sc
             | IT_LIST is \<Rightarrow> initialise_elements ip st a addrlim elsize el is lt
             | _ \<Rightarrow> None })
      else if c = TY_STRUCT then
        (case i of
           IT_LIST is \<Rightarrow> do {
             n \<leftarrow> ci_typesize (ip_bool_type ip) t;
             initialise_members ip st a (a + of_int n) (ip_members ip t) is lt }
         | _ \<Rightarrow> None)
      else if c = TY_UNION then
        (case (ip_members ip t, i) of
           (v # _, IT_LIST (j # _)) \<Rightarrow> initialise ip st a (va_type v) j lt
         | _ \<Rightarrow> None)
      else if c = DT_PTR_TO then initialise_word st i lt a
      else if c \<in> {TY_CHAR, TY_UCHAR} then initialise_integer st i 1 a
      else if c \<in> {TY_SHORT, TY_USHORT} then initialise_integer st i 2 a
      else if c \<in> {TY_ENUM, TY_U_ENUM, TY_INT, TY_UINT, TY_BOOLEAN} then initialise_integer st i 4 a
      else if c \<in> {TY_LONG, TY_ULONG, TY_LONGLONG, TY_ULONGLONG} then initialise_integer st i 8 a
      else if c = TY_FLOAT then initialise_float ip st i False a
      else if c = TY_DOUBLE then initialise_float ip st i True a
      else if c = TY_BITFIELD then
        (case ty_bitfield t of None \<Rightarrow> None | Some (_, offset, width) \<Rightarrow> initialise_bitfield st i offset width a)
      else None)"
| "initialise_elements ip st a addrlim elsize el [] lt = Some st"
| "initialise_elements ip st a addrlim elsize el (i # is) lt =
     (if a \<ge> addrlim then None
      else do { st \<leftarrow> initialise ip st a el i lt; initialise_elements ip st (a + elsize) addrlim elsize el is lt })"
| "initialise_members ip st a maxaddr vs [] lt = Some st"
| "initialise_members ip st a maxaddr [] (i # is) lt = None"
| "initialise_members ip st a maxaddr (v # vs) (i # is) lt =
     (if a + va_addr v \<ge> maxaddr then None
      else do { st \<leftarrow> initialise ip st (a + va_addr v) (va_type v) i lt; initialise_members ip st a maxaddr vs is lt })"
  by pat_completeness auto

termination
  by (relation "measure (case_sum (\<lambda>(ip, st, a, t, i, lt). size i)
      (case_sum (\<lambda>(ip, st, a, addrlim, elsize, el, is, lt). size_list size is)
        (\<lambda>(ip, st, a, maxaddr, vs, is, lt). size_list size is)))") auto

declare initialise.simps [simp del]

section \<open>All initialisers\<close>

text \<open>Every initialised variable is written into the image of its area, that of external data if it has external
  relocation; the two images are returned.\<close>

fun ci_do_static_initialisations ::
  "iparams \<Rightarrow> istate \<Rightarrow> (var_t \<times> initialiser_t) list \<Rightarrow> byte list \<Rightarrow> byte list \<Rightarrow> (istate \<times> byte list \<times> byte list) option" where
  "ci_do_static_initialisations ip st [] data extdata = Some (st, data, extdata)"
| "ci_do_static_initialisations ip st ((v, i) # il) data extdata =
     (let ext = at_ext_reloc (is_attrs st (va_id v)) in
      do { st \<leftarrow> initialise ip (st\<lparr>is_data := (if ext then extdata else data)\<rparr>) (at_addr (is_attrs st (va_id v))) (va_type v) i
             (if ext then RT_EXTDATALOC else RT_DATALOC);
           ci_do_static_initialisations ip st il (if ext then data else is_data st) (if ext then is_data st else extdata) })"

end
