(* ===== verification/Ups_Link.thy ===== *)
theory Ups_Link
  imports Ups_Static_Init "HOL-Library.While_Combinator"
begin

text \<open>
  The last phase of \<open>ci_compile\<close> (\<open>src/ups/ci_compile.c\<close>): which variables are external, the addresses of the
  static variables, the images of the data areas, and the tables of names and relocations that the loader reads
  (\<open>linkinfo_t\<close> of \<open>src/ups/cx_link.h\<close>).  \<open>None\<close> is a panic, or a write outside of an area.
\<close>

record lstate =
  ls_tx :: text_t
  ls_attrs :: vattrs

abbreviation attr :: "lstate \<Rightarrow> var_t \<Rightarrow> vattr" where "attr st v \<equiv> ls_attrs st (va_id v)"

abbreviation set_attr :: "lstate \<Rightarrow> var_t \<Rightarrow> (vattr \<Rightarrow> vattr) \<Rightarrow> lstate" where
  "set_attr st v f \<equiv> st\<lparr>ls_attrs := (ls_attrs st)(va_id v := f (ls_attrs st (va_id v)))\<rparr>"

section \<open>The list of static variables\<close>

fun add_vars_to_vlist :: "text_t \<Rightarrow> vattrs \<Rightarrow> var_t list \<Rightarrow> text_t option" where
  "add_vars_to_vlist tx at [] = Some tx"
| "add_vars_to_vlist tx at (v # vs) = do { tx \<leftarrow> add_to_vlist tx (current at v); add_vars_to_vlist tx at vs }"

definition finish_vlist :: "lstate \<Rightarrow> lstate option" where
  "finish_vlist st =
     do { tx \<leftarrow> add_vars_to_vlist (ls_tx st) (ls_attrs st) (tx_varlist (ls_tx st));
          if \<forall>v\<in>set (tx_vlist tx). at_class (attr st v) \<in> {CL_EXTREF, CL_EXT, CL_STAT, CL_LSTAT}
          then Some (st\<lparr>ls_tx := tx\<rparr>) else None }"

text \<open>In a program of one file the external variables become static ones; the others are marked.\<close>

definition mark_external :: "bool \<Rightarrow> lstate \<Rightarrow> var_t \<Rightarrow> lstate" where
  "mark_external one_file st v =
     (let st = (if one_file \<and> at_class (attr st v) = CL_EXT then set_attr st v (at_class_update (\<lambda>_. CL_STAT)) else st) in
      if (at_class (attr st v) = CL_EXT \<or> at_class (attr st v) = CL_EXTREF) \<and> ty_code (va_type v) \<noteq> DT_FUNC_RETURNING
      then set_attr st v (at_todo_update (\<lambda>_. True)) else st)"

section \<open>External relocation\<close>

text \<open>A variable whose address is in the initialiser of an external variable is itself external.\<close>

function (sequential) set_var_extflags :: "lstate \<Rightarrow> initialiser_t \<Rightarrow> lstate option"
  and set_list_extflags :: "lstate \<Rightarrow> initialiser_t list \<Rightarrow> lstate option" where
  "set_var_extflags st (IT_VARADDR v offset) =
     (if at_ext_reloc (attr st v) then Some st
      else let st = set_attr st v (at_todo_update (\<lambda>_. True)) in
        if on_vlist (ls_tx st) v then Some st
        else if at_class (attr st v) \<noteq> CL_DECL then None
        else let st = set_attr st v (\<lambda>a. a\<lparr>at_class := CL_EXTREF, at_ext_reloc := True\<rparr>) in
          do { tx \<leftarrow> add_to_vlist (ls_tx st) (current (ls_attrs st) v); Some (st\<lparr>ls_tx := tx\<rparr>) })"
| "set_var_extflags st (IT_LIST is) = set_list_extflags st is"
| "set_var_extflags st _ = Some st"
| "set_list_extflags st [] = Some st"
| "set_list_extflags st (i # is) = do { st \<leftarrow> set_var_extflags st i; set_list_extflags st is }"
  by pat_completeness auto

termination
  by (relation "measure (case_sum (\<lambda>(st, i). size i) (\<lambda>(st, is). size_list size is))") auto

text \<open>One pass over the initialised variables, and whether it found a marked one; passes are made until one
  does not.  The loop is \<open>while_option\<close>, so that a loop without end would be \<open>None\<close>; a panic is
  \<open>Some None\<close>.\<close>

fun ext_pass :: "lstate \<Rightarrow> (var_t \<times> initialiser_t) list \<Rightarrow> bool \<Rightarrow> (lstate \<times> bool) option" where
  "ext_pass st [] done_one = Some (st, done_one)"
| "ext_pass st ((v, i) # il) done_one =
     (if at_todo (attr st v) then do {
        st \<leftarrow> set_var_extflags st i;
        ext_pass (set_attr st v (\<lambda>a. a\<lparr>at_ext_reloc := True, at_todo := False\<rparr>)) il True }
      else ext_pass st il done_one)"

definition pass_again :: "(lstate \<times> bool) option \<Rightarrow> bool" where
  "pass_again r = (case r of Some (st, done_one) \<Rightarrow> done_one | None \<Rightarrow> False)"

definition set_ext_relocs :: "lstate \<Rightarrow> (var_t \<times> initialiser_t) list \<Rightarrow> (lstate \<times> bool) option option" where
  "set_ext_relocs st il =
     while_option pass_again
       (\<lambda>r. case r of Some (st, _) \<Rightarrow> ext_pass st il False | None \<Rightarrow> None)
       (ext_pass st il False)"

section \<open>Addresses\<close>

text \<open>The sizes of the four areas so far.\<close>

record areas =
  data_addr :: word64
  extdata_addr :: word64
  bss_addr :: word64
  extbss_addr :: word64

definition area_end :: "areas \<Rightarrow> bool \<Rightarrow> bool \<Rightarrow> word64" where
  "area_end ar initialised ext =
     (if initialised then (if ext then extdata_addr ar else data_addr ar)
      else (if ext then extbss_addr ar else bss_addr ar))"

definition set_area_end :: "areas \<Rightarrow> bool \<Rightarrow> bool \<Rightarrow> word64 \<Rightarrow> areas" where
  "set_area_end ar initialised ext a =
     (if initialised then (if ext then ar\<lparr>extdata_addr := a\<rparr> else ar\<lparr>data_addr := a\<rparr>)
      else (if ext then ar\<lparr>extbss_addr := a\<rparr> else ar\<lparr>bss_addr := a\<rparr>))"

fun assign_addrs :: "typecode_t \<Rightarrow> lstate \<Rightarrow> var_t list \<Rightarrow> areas \<Rightarrow> (lstate \<times> areas) option" where
  "assign_addrs bt st [] ar = Some (st, ar)"
| "assign_addrs bt st (v # vs) ar =
     (let st = (if at_todo (attr st v) then set_attr st v (\<lambda>a. a\<lparr>at_ext_reloc := True, at_todo := False\<rparr>) else st);
          ini = at_has_initialiser (attr st v); ext = at_ext_reloc (attr st v) in
      if at_class (attr st v) = CL_EXTREF then assign_addrs bt st vs ar
      else do {
        tsize \<leftarrow> ci_typesize bt (va_type v);
        a \<leftarrow> ci_align_addr_for_type bt (area_end ar ini ext) (va_type v);
        assign_addrs bt (set_attr st v (at_addr_update (\<lambda>_. a))) vs (set_area_end ar ini ext (a + of_int tsize)) })"

text \<open>The space for the strings that initialisers point to.\<close>

function (sequential) add_stringspace :: "initialiser_t \<Rightarrow> word64 \<Rightarrow> word64"
  and add_list_stringspace :: "initialiser_t list \<Rightarrow> word64 \<Rightarrow> word64" where
  "add_stringspace (IT_STRINGADDR sc offset) a = a + of_nat (length sc)"
| "add_stringspace (IT_LIST is) a = add_list_stringspace is a"
| "add_stringspace _ a = a"
| "add_list_stringspace [] a = a"
| "add_list_stringspace (i # is) a = add_list_stringspace is (add_stringspace i a)"
  by pat_completeness auto

termination
  by (relation "measure (case_sum (\<lambda>(i, a). size i) (\<lambda>(is, a). size_list size is))") auto

fun add_init_strings :: "vattrs \<Rightarrow> (var_t \<times> initialiser_t) list \<Rightarrow> areas \<Rightarrow> areas" where
  "add_init_strings at [] ar = ar"
| "add_init_strings at ((v, i) # il) ar =
     (let ext = at_ext_reloc (at (va_id v)) in
      add_init_strings at il (set_area_end ar True ext (add_stringspace i (area_end ar True ext))))"

definition MAX_ALIGN :: int where "MAX_ALIGN = 4"

section \<open>Names of external variables\<close>

text \<open>\<open>strf("[%s:%d]", name, id)\<close>.\<close>

fun decimal :: "nat \<Rightarrow> string" where
  "decimal n = (if n < 10 then [char_of (48 + n)] else decimal (n div 10) @ [char_of (48 + n mod 10)])"

declare decimal.simps [simp del]

definition static_name :: "string \<Rightarrow> nat \<Rightarrow> string" where
  "static_name name n = ''['' @ name @ '':'' @ decimal n @ '']''"

text \<open>The references and the definitions so far, the last one first; \<open>nrefs\<close> and \<open>ndefs\<close> are their
  lengths.  \<open>ev_unique_id\<close> is the static variable \<open>unique_id\<close>.\<close>

record extvars =
  ev_attrs :: vattrs
  ev_refs :: "(string \<times> word64) list"
  ev_defs :: "(string \<times> word64) list"
  ev_unique_id :: nat

definition make_extvar :: "word64 \<Rightarrow> word64 \<Rightarrow> extvars \<Rightarrow> var_t \<Rightarrow> extvars option" where
  "make_extvar data_size extbss_size ev v =
     (let a = ev_attrs ev (va_id v);
          upd = (\<lambda>a. ev\<lparr>ev_attrs := (ev_attrs ev)(va_id v := a)\<rparr>) in
      if \<not> at_ext_reloc a then
        Some (if at_has_initialiser a then ev else upd (a\<lparr>at_addr := at_addr a + data_size\<rparr>))
      else if at_todo a then None
      else if at_class a = CL_EXTREF \<and> at_addr a = 0 then
        Some ((upd (a\<lparr>at_addr := of_nat (length (ev_refs ev))\<rparr>))\<lparr>ev_refs := (va_name v, 0) # ev_refs ev\<rparr>)
      else if at_class a = CL_EXT \<or> at_class a = CL_STAT then
        (let addr = (if at_has_initialiser a then at_addr a else at_addr a - extbss_size) in
         if \<not> at_has_initialiser a \<and> 0 \<le> sint addr then None
         else
           let ev' = upd (a\<lparr>at_addr := of_nat (length (ev_defs ev)), at_todo := True\<rparr>);
               name = (if at_class a = CL_EXT then va_name v else static_name (va_name v) (ev_unique_id ev)) in
           Some (ev'\<lparr>ev_defs := (name, addr) # ev_defs ev,
                     ev_unique_id := (if at_class a = CL_EXT then ev_unique_id ev else ev_unique_id ev + 1)\<rparr>))
      else None)"

fun make_extvars_loop :: "word64 \<Rightarrow> word64 \<Rightarrow> extvars \<Rightarrow> var_t list \<Rightarrow> extvars option" where
  "make_extvars_loop ds es ev [] = Some ev"
| "make_extvars_loop ds es ev (v # vs) = do { ev \<leftarrow> make_extvar ds es ev v; make_extvars_loop ds es ev vs }"

text \<open>The definitions are numbered behind the references.\<close>

definition number_def :: "nat \<Rightarrow> vattrs \<Rightarrow> var_t \<Rightarrow> vattrs" where
  "number_def nrefs at v =
     (let a = at (va_id v) in
      if at_todo a then at(va_id v := a\<lparr>at_addr := at_addr a + of_nat nrefs, at_todo := False\<rparr>) else at)"

definition make_extvars :: "word64 \<Rightarrow> word64 \<Rightarrow> vattrs \<Rightarrow> nat \<Rightarrow> var_t list \<Rightarrow> extvars option" where
  "make_extvars data_size extbss_size at unique_id vlist =
     do { ev \<leftarrow> make_extvars_loop data_size extbss_size
            \<lparr>ev_attrs = at, ev_refs = [], ev_defs = [], ev_unique_id = unique_id\<rparr> vlist;
          Some (ev\<lparr>ev_attrs := foldl (number_def (length (ev_refs ev))) (ev_attrs ev) vlist\<rparr>) }"

section \<open>Relocations\<close>

text \<open>The text, the images of the areas, the addresses of the next strings, and the lists of relocations: places
  with the index of a name, and places that the address of the data is added to.\<close>

record relocs =
  rs_text :: "byte option list"
  rs_data :: "byte list"
  rs_extdata :: "byte list"
  rs_str_addr :: word64
  rs_extstr_addr :: word64
  rs_ext_relocs :: "(nat \<times> int) list"
  rs_extdata_relocs :: "(nat \<times> int) list"
  rs_static_rps :: "nat list"

definition write_text_long :: "byte option list \<Rightarrow> nat \<Rightarrow> word64 \<Rightarrow> byte option list option" where
  "write_text_long text loc val =
     (if loc + 4 \<le> length text
      then Some (take loc text @ map Some (bytes_of 4 val) @ drop (loc + 4) text) else None)"

text \<open>The value of a relocation is written where its kind says; the place counts from the start of the text, or
  of the external data.\<close>

definition write_reloc :: "nat \<Rightarrow> relocs \<Rightarrow> loctype_t \<Rightarrow> nat \<Rightarrow> word64 \<Rightarrow> (relocs \<times> nat) option" where
  "write_reloc text_size rs lt loc val =
     (case lt of
        RT_TEXTLOC \<Rightarrow> do { t \<leftarrow> write_text_long (rs_text rs) loc val; Some (rs\<lparr>rs_text := t\<rparr>, loc) }
      | RT_DATALOC \<Rightarrow> do { d \<leftarrow> put_bytes (rs_data rs) loc (bytes_of 8 val); Some (rs\<lparr>rs_data := d\<rparr>, loc + text_size) }
      | RT_EXTDATALOC \<Rightarrow> do { d \<leftarrow> put_bytes (rs_extdata rs) loc (bytes_of 8 val); Some (rs\<lparr>rs_extdata := d\<rparr>, loc) })"

definition make_var_reloc :: "nat \<Rightarrow> vattrs \<Rightarrow> relocs \<Rightarrow> loctype_t \<times> nat \<times> var_t \<times> word64 \<Rightarrow> relocs option" where
  "make_var_reloc text_size at rs =
     (\<lambda>(lt, loc, v, offset).
      let a = at (va_id v); ext = at_ext_reloc a in
      if lt = RT_EXTDATALOC \<and> \<not> ext then None
      else do {
        (rs, loc) \<leftarrow> write_reloc text_size rs lt loc (if ext then offset else offset + at_addr a);
        Some (if \<not> ext then rs\<lparr>rs_static_rps := loc # rs_static_rps rs\<rparr>
              else
                let er = (loc, sint (signed_take_bit 31 (at_addr a))) in
                if lt = RT_EXTDATALOC then rs\<lparr>rs_extdata_relocs := er # rs_extdata_relocs rs\<rparr>
                else rs\<lparr>rs_ext_relocs := er # rs_ext_relocs rs\<rparr>) })"

definition make_string_reloc :: "nat \<Rightarrow> relocs \<Rightarrow> loctype_t \<times> nat \<times> byte list \<times> word64 \<Rightarrow> relocs option" where
  "make_string_reloc text_size rs =
     (\<lambda>(lt, loc, sc, offset).
      do { (rs, val) \<leftarrow>
             (if lt = RT_EXTDATALOC then do {
                d \<leftarrow> put_bytes (rs_extdata rs) (unat (rs_extstr_addr rs)) sc;
                Some (rs\<lparr>rs_extdata := d, rs_extstr_addr := rs_extstr_addr rs + of_nat (length sc)\<rparr>, rs_extstr_addr rs + offset) }
              else do {
                d \<leftarrow> put_bytes (rs_data rs) (unat (rs_str_addr rs)) sc;
                Some (rs\<lparr>rs_data := d, rs_str_addr := rs_str_addr rs + of_nat (length sc)\<rparr>, rs_str_addr rs + offset) });
           (rs, loc) \<leftarrow> write_reloc text_size rs lt loc val;
           Some (if lt = RT_EXTDATALOC then rs\<lparr>rs_extdata_relocs := (loc, - 1) # rs_extdata_relocs rs\<rparr>
                 else rs\<lparr>rs_static_rps := loc # rs_static_rps rs\<rparr>) })"

fun make_reloc_list :: "(relocs \<Rightarrow> 'r \<Rightarrow> relocs option) \<Rightarrow> relocs \<Rightarrow> 'r list \<Rightarrow> relocs option" where
  "make_reloc_list f rs [] = Some rs"
| "make_reloc_list f rs (r # rl) = do { rs \<leftarrow> f rs r; make_reloc_list f rs rl }"

text \<open>The places of function indices, in the text and data, and in the external data.\<close>

fun make_func_relocs :: "nat \<Rightarrow> (loctype_t \<times> nat) list \<Rightarrow> nat list \<Rightarrow> nat list \<Rightarrow> nat list \<times> nat list" where
  "make_func_relocs text_size [] statics exts = (statics, exts)"
| "make_func_relocs text_size ((lt, loc) # frs) statics exts =
     (if lt = RT_EXTDATALOC then make_func_relocs text_size frs statics (loc # exts)
      else make_func_relocs text_size frs ((if lt = RT_DATALOC then loc + text_size else loc) # statics) exts)"

definition make_relocs :: "text_t \<Rightarrow> vattrs \<Rightarrow> nat \<Rightarrow> relocs \<Rightarrow> relocs option" where
  "make_relocs tx at text_size rs =
     do { rs \<leftarrow> make_reloc_list (make_var_reloc text_size at) rs (tx_var_relocs tx);
          make_reloc_list (make_string_reloc text_size) rs (tx_string_relocs tx) }"

section \<open>Functions\<close>

text \<open>The address of the first entry is not set; functions are numbered from 1.\<close>

definition make_funcinfo :: "nat \<Rightarrow> func_t list \<Rightarrow> (nat list \<times> (string \<times> nat) list) option" where
  "make_funcinfo nfuncs fs =
     (if 1 + length fs \<noteq> nfuncs then None
      else Some (map fu_addr fs, rev (map (\<lambda>f. (fu_name f, fu_addr f)) (filter (\<lambda>f. \<not> fu_static f) fs))))"

definition make_symvars :: "vattrs \<Rightarrow> var_t list \<Rightarrow> string list" where
  "make_symvars at vars =
     map va_name (filter (\<lambda>v. at_class (at (va_id v)) \<noteq> CL_EXTREF \<and> ty_code (va_type v) \<noteq> DT_FUNC_RETURNING) vars)"

section \<open>The linker's view of a file\<close>

record linkinfo_t =
  li_text :: "byte option list"
  li_text_size :: nat
  li_data :: "byte list"
  li_extdata :: "byte list"
  li_bss_size :: word64
  li_extbss_size :: word64
  li_max_stack_nwords :: word64
  li_undef_vars :: "(string \<times> word64) list"
  li_vars :: "(string \<times> word64) list"
  li_ext_relocs :: "(nat \<times> int) list"
  li_extdata_relocs :: "(nat \<times> int) list"
  li_static_rps :: "nat list"
  li_static_funcrps :: "nat list"
  li_extdata_funcrelocs :: "nat list"
  li_funcaddrs :: "nat list"
  li_funcs :: "(string \<times> nat) list"
  li_undef_funcs :: "(string \<times> int) list"
  li_reg_relocs :: "(nat \<times> word64) list"
  li_symvars :: "string list"

section \<open>Linking\<close>

text \<open>The variables before linking.  Those on the list of static variables have their class there; a declared
  one that is a reference by now has external relocation (\<open>ci_add_var_reloc\<close>).\<close>

function (sequential) referred_vars :: "initialiser_t \<Rightarrow> var_t list"
  and referred_list_vars :: "initialiser_t list \<Rightarrow> var_t list" where
  "referred_vars (IT_VARADDR v offset) = [v]"
| "referred_vars (IT_LIST is) = referred_list_vars is"
| "referred_vars _ = []"
| "referred_list_vars [] = []"
| "referred_list_vars (i # is) = referred_vars i @ referred_list_vars is"
  by pat_completeness auto

termination
  by (relation "measure (case_sum size (size_list size))") auto

definition initial_attrs :: "text_t \<Rightarrow> (var_t \<times> initialiser_t) list \<Rightarrow> vattrs" where
  "initial_attrs tx il n =
     (let vars = tx_vlist tx @ tx_varlist tx @ map fst il @ concat (map (\<lambda>(v, i). referred_vars i) il) in
      case find (\<lambda>v. va_id v = n) vars of
        None \<Rightarrow> \<lparr>at_class = CL_NOCLASS, at_addr = 0, at_ext_reloc = False, at_todo = False, at_has_initialiser = False\<rparr>
      | Some v \<Rightarrow> \<lparr>at_class = va_class v, at_addr = va_addr v, at_ext_reloc = (va_class v = CL_EXTREF), at_todo = False,
                   at_has_initialiser = (n \<in> va_id ` fst ` set il)\<rparr>)"

text \<open>Padding with \<open>OC_NOP\<close>, at most \<open>n\<close> of them.\<close>

fun pad_text :: "nat \<Rightarrow> word64 \<Rightarrow> text_t \<Rightarrow> text_t option" where
  "pad_text 0 aligned_pc tx = (if of_nat (tx_pc tx) < aligned_pc then None else Some tx)"
| "pad_text (Suc n) aligned_pc tx =
     (if of_nat (tx_pc tx) < aligned_pc then do { tx \<leftarrow> ci_code_opcode tx OC_NOP; pad_text n aligned_pc tx } else Some tx)"

definition CI_CP_ONEFILE :: word64 where "CI_CP_ONEFILE = 8"
definition CI_CP_WANT_SYMINFO :: word64 where "CI_CP_WANT_SYMINFO = 0x20"

text \<open>Which variables are external, and all addresses.\<close>

definition mark_externals :: "lstate \<Rightarrow> lstate option" where
  "mark_externals st =
     do { st \<leftarrow> finish_vlist st;
          let one_file = (tx_flags (ls_tx st) AND CI_CP_ONEFILE \<noteq> 0);
          Some (foldl (mark_external one_file) st (tx_vlist (ls_tx st))) }"

definition link_addrs ::
  "typecode_t \<Rightarrow> lstate \<Rightarrow> (var_t \<times> initialiser_t) list \<Rightarrow> (lstate \<times> areas) option" where
  "link_addrs bt st il =
     do { st \<leftarrow> mark_externals st;
          r \<leftarrow> set_ext_relocs st il;
          (st, _) \<leftarrow> r;
          assign_addrs bt st (tx_vlist (ls_tx st)) \<lparr>data_addr = 0, extdata_addr = 0, bss_addr = 0, extbss_addr = 0\<rparr> }"

text \<open>The ends of the data areas: behind the variables come the strings of initialisers, then those of the text.\<close>

definition link_areas ::
  "lstate \<Rightarrow> (var_t \<times> initialiser_t) list \<Rightarrow> areas \<Rightarrow> (word64 \<times> word64) option" where
  "link_areas st il ar =
     do { let ar = add_init_strings (ls_attrs st) il ar;
          d \<leftarrow> ci_align_addr (data_addr ar + sum_list (map (\<lambda>(lt, loc, sc, offset). of_nat (length sc)) (tx_string_relocs (ls_tx st)))) MAX_ALIGN;
          e \<leftarrow> ci_align_addr (extdata_addr ar) MAX_ALIGN;
          Some (d, e) }"

definition max_stack_nwords :: "text_t \<Rightarrow> word64 option" where
  "max_stack_nwords tx =
     (if tx_num_funcs tx \<le> 2 then if tx_max_sp tx mod 8 \<noteq> 0 then None else Some (tx_max_sp tx div 8 + 20) else Some 0)"

text \<open>\<open>ci_compile\<close> behind \<open>compile\<close>: \<open>Some None\<close> is its \<open>NULL\<close>, after a diagnostic of the static
  initialisation.  \<open>unique_id\<close> is the number of static names made before.\<close>

definition link_file ::
  "iparams \<Rightarrow> nat \<Rightarrow> text_t \<Rightarrow> func_t list \<Rightarrow> (var_t \<times> initialiser_t) list \<Rightarrow> linkinfo_t option option" where
  "link_file ip unique_id tx fs il =
     do { aligned_pc \<leftarrow> ci_align_addr (of_nat (tx_pc tx)) MAX_ALIGN;
          tx \<leftarrow> pad_text 4 aligned_pc tx;
          (st, ar) \<leftarrow> link_addrs (ip_bool_type ip) \<lparr>ls_tx = tx, ls_attrs = initial_attrs tx il\<rparr> il;
          (data_size, extdata_size) \<leftarrow> link_areas st il ar;
          (ist, data, extdata) \<leftarrow> ci_do_static_initialisations ip
             \<lparr>is_tx = ls_tx st, is_error = False, is_attrs = ls_attrs st, is_data = []\<rparr> il
             (replicate (unat data_size) 0) (replicate (unat extdata_size) 0);
          if is_error ist then Some None
          else do {
            let tx = is_tx ist;
            nwords \<leftarrow> max_stack_nwords tx;
            ev \<leftarrow> make_extvars data_size (extbss_addr ar) (is_attrs ist) unique_id (tx_vlist tx);
            rs \<leftarrow> make_relocs tx (ev_attrs ev) (tx_pc tx)
               \<lparr>rs_text = tx_text tx, rs_data = data, rs_extdata = extdata, rs_str_addr = data_addr ar,
                rs_extstr_addr = extdata_addr ar, rs_ext_relocs = [], rs_extdata_relocs = [], rs_static_rps = []\<rparr>;
            let frs = make_func_relocs (tx_pc tx) (tx_func_relocs tx) [] [];
            (funcaddrs, funcs) \<leftarrow> make_funcinfo (tx_num_funcs tx) fs;
            Some (Some \<lparr>li_text = rs_text rs, li_text_size = tx_pc tx, li_data = rs_data rs, li_extdata = rs_extdata rs,
              li_bss_size = bss_addr ar, li_extbss_size = extbss_addr ar, li_max_stack_nwords = nwords,
              li_undef_vars = rev (ev_refs ev), li_vars = rev (ev_defs ev),
              li_ext_relocs = rs_ext_relocs rs, li_extdata_relocs = rs_extdata_relocs rs, li_static_rps = rs_static_rps rs,
              li_static_funcrps = fst frs, li_extdata_funcrelocs = snd frs,
              li_funcaddrs = funcaddrs, li_funcs = funcs, li_undef_funcs = rev (tx_undef_funcs tx),
              li_reg_relocs = tx_reg_relocs tx,
              li_symvars = (if tx_flags tx AND CI_CP_WANT_SYMINFO \<noteq> 0 then make_symvars (ev_attrs ev) (tx_varlist tx) else [])\<rparr>) } }"

definition ci_compile ::
  "cparams \<Rightarrow> iparams \<Rightarrow> nat \<Rightarrow> parse_res_t \<Rightarrow> (type_t \<Rightarrow> nat \<Rightarrow> nat \<Rightarrow> word64 option) option \<Rightarrow> (word64 \<Rightarrow> word64) option
     \<Rightarrow> word64 \<Rightarrow> linkinfo_t option option" where
  "ci_compile cp ip unique_id pr checkarg_proc regno_to_addr_proc flags =
     do { (st, fs) \<leftarrow> compile cp pr checkarg_proc regno_to_addr_proc flags;
          link_file ip unique_id (st_tx st) fs (tx_initlist st) }"

end
