(* ===== verification/Ups_Link_Props.thy ===== *)
theory Ups_Link_Props
  imports Ups_Link
begin

text \<open>
  Properties of linking: the passes over the initialised variables end; the variables that get external
  relocation are exactly those that the external ones lead to; and so no relocation of external data is
  against an internal variable.
\<close>

section \<open>Marked variables\<close>

text \<open>What is left to do for a variable.\<close>

definition work_left :: "vattr \<Rightarrow> nat" where
  "work_left a = (if \<not> at_ext_reloc a then 2 else if at_todo a then 1 else 0)"

definition work_sum :: "lstate \<Rightarrow> (var_t \<times> initialiser_t) list \<Rightarrow> nat" where
  "work_sum st il = (\<Sum>(v, i)\<leftarrow>il. work_left (attr st v))"

definition flagged :: "lstate \<Rightarrow> nat set" where
  "flagged st = {n. at_ext_reloc (ls_attrs st n) \<or> at_todo (ls_attrs st n)}"

text \<open>What a step of the propagation keeps.\<close>

definition advances :: "lstate \<Rightarrow> lstate \<Rightarrow> bool" where
  "advances st st' \<longleftrightarrow> (\<forall>n. work_left (ls_attrs st' n) \<le> work_left (ls_attrs st n))
     \<and> (\<forall>n. at_ext_reloc (ls_attrs st n) \<longrightarrow> ls_attrs st' n = ls_attrs st n)
     \<and> (\<forall>n. at_ext_reloc (ls_attrs st' n) \<longrightarrow> at_ext_reloc (ls_attrs st n) \<or> at_todo (ls_attrs st' n))
     \<and> flagged st \<subseteq> flagged st'"

lemma advances_refl [simp]: "advances st st"
  by (simp add: advances_def)

lemma advances_trans: "advances a b \<Longrightarrow> advances b c \<Longrightarrow> advances a c"
  unfolding advances_def by (metis order_trans)

lemma add_to_vlist_attrs: "add_to_vlist tx v = Some tx' \<Longrightarrow> set (tx_vlist tx) \<subseteq> set (tx_vlist tx')"
  by (auto simp: add_to_vlist_def split: if_split_asm)

text \<open>\<open>set_var_extflags\<close> flags the variables of the initialiser, and nothing else.\<close>

lemma set_extflags_step:
  "set_var_extflags st i = Some st' \<Longrightarrow> advances st st' \<and> flagged st' = flagged st \<union> va_id ` set (referred_vars i)"
  "set_list_extflags st is = Some st' \<Longrightarrow> advances st st' \<and> flagged st' = flagged st \<union> va_id ` set (referred_list_vars is)"
proof (induction st i and st "is" arbitrary: st' and st' rule: set_var_extflags_set_list_extflags.induct)
  case (1 st v offset)
  then show ?case
    by (auto simp: advances_def work_left_def flagged_def Let_def bind_Some_iff split: if_split_asm)
next
  case (5 st i "is")
  obtain s where s: "set_var_extflags st i = Some s" "set_list_extflags s is = Some st'"
    using "5.prems" by (auto simp: bind_Some_iff)
  show ?case using "5.IH"(1)[OF s(1)] "5.IH"(2)[OF s] advances_trans by auto
qed auto

section \<open>The passes\<close>

abbreviation done_with :: "lstate \<Rightarrow> var_t \<Rightarrow> lstate" where
  "done_with st v \<equiv> set_attr st v (\<lambda>a. a\<lparr>at_ext_reloc := True, at_todo := False\<rparr>)"

lemma done_with_work_left: "work_left (ls_attrs (done_with st v) n) \<le> work_left (ls_attrs st n)"
  by (simp add: work_left_def)

lemma work_sum_mono:
  "(\<And>n. work_left (ls_attrs st' n) \<le> work_left (ls_attrs st n)) \<Longrightarrow> work_sum st' il \<le> work_sum st il"
  unfolding work_sum_def by (induction il) (auto simp: add_mono split: prod.split)

lemma work_sum_less:
  "(\<And>n. work_left (ls_attrs st' n) \<le> work_left (ls_attrs st n)) \<Longrightarrow> (v, i) \<in> set il \<Longrightarrow>
   work_left (attr st' v) < work_left (attr st v) \<Longrightarrow> work_sum st' il < work_sum st il"
proof (induction il)
  case (Cons p il)
  have le: "work_sum st' il \<le> work_sum st il" using Cons.prems(1) by (rule work_sum_mono)
  show ?case
  proof (cases "p = (v, i)")
    case True
    then show ?thesis using le Cons.prems(3) by (simp add: work_sum_def)
  next
    case False
    then have "work_sum st' il < work_sum st il" using Cons.IH Cons.prems by auto
    then show ?thesis using Cons.prems(1) by (cases p) (simp add: work_sum_def add_le_less_mono)
  qed
qed simp

text \<open>A pass that finds a marked variable has less to do behind it.\<close>

lemma ext_pass_measure:
  assumes "ext_pass st il d = Some (st', d')" "set il \<subseteq> set il0"
  shows "(\<forall>n. work_left (ls_attrs st' n) \<le> work_left (ls_attrs st n)) \<and> (d' \<longrightarrow> d \<or> work_sum st' il0 < work_sum st il0)"
  using assms
proof (induction st il d arbitrary: rule: ext_pass.induct)
  case (2 st v i il done_one)
  show ?case
  proof (cases "at_todo (attr st v)")
    case True
    obtain s where s: "set_var_extflags st i = Some s" "ext_pass (done_with s v) il True = Some (st', d')"
      using "2.prems"(1) True by (auto simp: bind_Some_iff)
    have IH: "work_left (ls_attrs st' n) \<le> work_left (ls_attrs (done_with s v) n)" for n
      using "2.IH"(1)[OF True s] "2.prems"(2) by auto
    have a: "advances st s" using set_extflags_step(1)[OF s(1)] by simp
    have le: "work_left (ls_attrs (done_with s v) n) \<le> work_left (ls_attrs st n)" for n
      using a done_with_work_left[of s v n] order_trans unfolding advances_def by blast
    have "work_left (attr (done_with s v) v) < work_left (attr st v)" using True by (simp add: work_left_def)
    then have "work_sum (done_with s v) il0 < work_sum st il0"
      using work_sum_less[OF le, of v i il0] "2.prems"(2) by simp
    then have "work_sum st' il0 < work_sum st il0"
      using work_sum_mono[OF IH, of il0] by simp
    then show ?thesis using IH le order_trans by blast
  next
    case False
    then show ?thesis using "2.IH"(2) "2.prems" by simp
  qed
qed simp

lemma ext_pass_idle: "ext_pass st il d = Some (st', False) \<Longrightarrow> st' = st \<and> \<not> d \<and> (\<forall>(v, i)\<in>set il. \<not> at_todo (attr st v))"
proof (induction st il d arbitrary: rule: ext_pass.induct)
  case (2 st v i il done_one)
  show ?case
  proof (cases "at_todo (attr st v)")
    case True
    then obtain s where s: "set_var_extflags st i = Some s" "ext_pass (done_with s v) il True = Some (st', False)"
      using "2.prems"(1) by (auto simp: bind_Some_iff)
    show ?thesis using "2.IH"(1)[OF True s] by simp
  next
    case False
    then show ?thesis using "2.IH"(2) "2.prems" by auto
  qed
qed simp

section \<open>The loop\<close>

text \<open>C11. Termination: the passes over the initialised variables come to an end.  Each pass that finds a marked
  variable takes a mark away or gives external relocation to a variable that had none, and a variable gets
  both at most once.\<close>

theorem ext_reloc_passes_end: "\<exists>r. set_ext_relocs st il = Some r"
proof -
  let ?f = "\<lambda>r. case r of Some (st, d) \<Rightarrow> if d then work_sum st il + 1 else 0 | None \<Rightarrow> 0"
  have dec: "?f (case r of Some (st, _) \<Rightarrow> ext_pass st il False | None \<Rightarrow> None) < ?f r" if again: "pass_again r" for r
  proof -
    obtain s where r: "r = Some (s, True)" using again by (auto simp: pass_again_def split: option.splits)
    show ?thesis
    proof (cases "ext_pass s il False")
      case (Some p)
      obtain t d where p: "p = (t, d)" by (cases p)
      have "d \<Longrightarrow> work_sum t il < work_sum s il"
        using ext_pass_measure[OF Some[unfolded p] subset_refl] by simp
      then show ?thesis using r Some p by auto
    qed (simp add: r)
  qed
  then show ?thesis
    unfolding set_ext_relocs_def by (intro measure_while_option_Some[where P = "\<lambda>_. True" and f = ?f]) (use dec in auto)
qed

text \<open>From an initialised variable to those whose address is in its initialiser.\<close>

definition leads_to :: "(var_t \<times> initialiser_t) list \<Rightarrow> (nat \<times> nat) set" where
  "leads_to il = {(va_id v, va_id w) |v i w. (v, i) \<in> set il \<and> w \<in> set (referred_vars i)}"

lemma leads_to_step: "(v, i) \<in> set il \<Longrightarrow> w \<in> set (referred_vars i) \<Longrightarrow> (va_id v, va_id w) \<in> leads_to il"
  by (auto simp: leads_to_def)

definition one_initialiser :: "(var_t \<times> initialiser_t) list \<Rightarrow> bool" where
  "one_initialiser il \<longleftrightarrow> distinct (map (\<lambda>(v, i). va_id v) il)"

text \<open>Variables that the passes are done with have flagged what they lead to.\<close>

definition settled :: "lstate \<Rightarrow> (var_t \<times> initialiser_t) list \<Rightarrow> bool" where
  "settled st il \<longleftrightarrow> (\<forall>(v, i)\<in>set il. at_ext_reloc (attr st v) \<and> \<not> at_todo (attr st v) \<longrightarrow> va_id ` set (referred_vars i) \<subseteq> flagged st)"

lemma one_initialiserD: "one_initialiser il \<Longrightarrow> (v, i) \<in> set il \<Longrightarrow> (w, j) \<in> set il \<Longrightarrow> va_id v = va_id w \<Longrightarrow> i = j"
  unfolding one_initialiser_def by (induction il) (force)+

lemma settled_step:
  assumes st: "settled st il" and vi: "(v, i) \<in> set il" "at_todo (attr st v)" and s: "set_var_extflags st i = Some s"
    and one: "one_initialiser il"
  shows "settled (done_with s v) il" "flagged (done_with s v) = flagged st \<union> va_id ` set (referred_vars i)"
proof -
  note step = set_extflags_step(1)[OF s]
  have a: "advances st s" and f: "flagged s = flagged st \<union> va_id ` set (referred_vars i)" using step by auto
  have "va_id v \<in> flagged s" using f vi(2) by (auto simp: flagged_def)
  then have fd: "flagged (done_with s v) = flagged s" by (auto simp: flagged_def)
  then show "flagged (done_with s v) = flagged st \<union> va_id ` set (referred_vars i)" using f by simp
  show "settled (done_with s v) il"
    unfolding settled_def
  proof (clarify)
    fix w j u
    assume w: "(w, j) \<in> set il" and e: "at_ext_reloc (attr (done_with s v) w)" "\<not> at_todo (attr (done_with s v) w)"
      and u: "u \<in> set (referred_vars j)"
    show "va_id u \<in> flagged (done_with s v)"
    proof (cases "va_id w = va_id v")
      case True
      then have "j = i" using one_initialiserD[OF one w vi(1)] by simp
      then show ?thesis using u fd f by auto
    next
      case False
      then have e': "at_ext_reloc (attr s w)" "\<not> at_todo (attr s w)" using e by auto
      then have "at_ext_reloc (attr st w)" using a unfolding advances_def by blast
      then have "attr s w = attr st w" using a unfolding advances_def by blast
      then have "va_id u \<in> flagged st" using st w e' u unfolding settled_def by fastforce
      then show ?thesis using fd f by auto
    qed
  qed
qed

lemma ext_pass_settled:
  assumes "ext_pass st il d = Some (st', d')" "set il \<subseteq> set il0" "settled st il0" "one_initialiser il0"
    "flagged st \<subseteq> (leads_to il0)\<^sup>* `` F"
  shows "settled st' il0 \<and> flagged st \<subseteq> flagged st' \<and> flagged st' \<subseteq> (leads_to il0)\<^sup>* `` F"
  using assms
proof (induction st il d arbitrary: rule: ext_pass.induct)
  case (2 st v i il done_one)
  have vi: "(v, i) \<in> set il0" using "2.prems"(2) by simp
  show ?case
  proof (cases "at_todo (attr st v)")
    case True
    obtain s where s: "set_var_extflags st i = Some s" "ext_pass (done_with s v) il True = Some (st', d')"
      using "2.prems"(1) True by (auto simp: bind_Some_iff)
    note step = settled_step[OF "2.prems"(3) vi True s(1) "2.prems"(4)]
    have "va_id v \<in> (leads_to il0)\<^sup>* `` F" using "2.prems"(5) True by (auto simp: flagged_def)
    then have "va_id ` set (referred_vars i) \<subseteq> (leads_to il0)\<^sup>* `` F"
      using leads_to_step[OF vi] by (blast intro: rtrancl.rtrancl_into_rtrancl)
    then have "flagged (done_with s v) \<subseteq> (leads_to il0)\<^sup>* `` F" using step(2) "2.prems"(5) by blast
    then show ?thesis using "2.IH"(1)[OF True s _ step(1) "2.prems"(4)] "2.prems"(2) step(2) by auto
  next
    case False
    then show ?thesis using "2.IH"(2) "2.prems" by simp
  qed
qed simp

text \<open>C12. Equivalence: the variables that have external relocation when the passes are over are exactly those that can
  be reached from the marked ones through addresses in initialisers, and no initialised variable is left marked.
  No variable has two initialisers, and variables that have external relocation before have reached their
  successors.\<close>

theorem ext_relocs_are_closure:
  assumes r: "set_ext_relocs st il = Some (Some (st', d))" and one: "one_initialiser il" and st: "settled st il"
  shows "flagged st' = (leads_to il)\<^sup>* `` flagged st \<and> (\<forall>(v, i)\<in>set il. \<not> at_todo (attr st' v))"
proof -
  let ?P = "\<lambda>r. case r of None \<Rightarrow> True | Some (s, d) \<Rightarrow> settled s il \<and> flagged st \<subseteq> flagged s
    \<and> flagged s \<subseteq> (leads_to il)\<^sup>* `` flagged st \<and> (\<not> d \<longrightarrow> (\<forall>(v, i)\<in>set il. \<not> at_todo (attr s v)))"
  have pass: "?P (ext_pass s il False)"
    if s: "settled s il" "flagged st \<subseteq> flagged s" "flagged s \<subseteq> (leads_to il)\<^sup>* `` flagged st" for s
  proof (cases "ext_pass s il False")
    case (Some p)
    obtain s' d' where p: "p = (s', d')" by (cases p)
    have i: "settled s' il \<and> flagged s \<subseteq> flagged s' \<and> flagged s' \<subseteq> (leads_to il)\<^sup>* `` flagged st"
      using ext_pass_settled[OF _ subset_refl s(1) one s(3)] Some p by simp
    have "\<forall>(v, i)\<in>set il. \<not> at_todo (attr s' v)" if "\<not> d'"
      using ext_pass_idle[of s il False s'] Some p that by simp
    then show ?thesis using i s(2) Some p by auto
  qed simp
  have first: "?P (ext_pass st il False)" using st by (intro pass) auto
  have "?P (Some (st', d))"
  proof (rule while_option_rule[where P = ?P, OF _ r[unfolded set_ext_relocs_def] first])
    fix r :: "(lstate \<times> bool) option" assume "?P r" "pass_again r"
    then show "?P (case r of Some (s, _) \<Rightarrow> ext_pass s il False | None \<Rightarrow> None)"
      by (cases r) (auto intro!: pass simp del: ext_pass.simps)
  qed
  moreover have "\<not> d" using while_option_stop[OF r[unfolded set_ext_relocs_def]] by (simp add: pass_again_def)
  ultimately have p: "settled st' il" "flagged st \<subseteq> flagged st'" "flagged st' \<subseteq> (leads_to il)\<^sup>* `` flagged st"
    "\<forall>(v, i)\<in>set il. \<not> at_todo (attr st' v)" by auto
  have "b \<in> flagged st'" if "(a, b) \<in> (leads_to il)\<^sup>*" "a \<in> flagged st'" for a b
    using that
  proof (induction rule: rtrancl_induct)
    case (step b c)
    obtain v i w where l: "(v, i) \<in> set il" "w \<in> set (referred_vars i)" "b = va_id v" "c = va_id w"
      using step.hyps(2) by (auto simp: leads_to_def)
    have "\<not> at_todo (attr st' v)" using p(4) l(1) by auto
    moreover have "va_id v \<in> flagged st'" using step l by simp
    ultimately have "at_ext_reloc (attr st' v)" by (simp add: flagged_def)
    then show ?case using p(1) l \<open>\<not> at_todo (attr st' v)\<close> unfolding settled_def by fastforce
  qed
  then show ?thesis using p by blast
qed

end
