(* ===== verification/Ups_Link_Safe.thy ===== *)
theory Ups_Link_Safe
  imports Ups_Link_Props
begin

text \<open>
  What the relocations of a file are against: external data refers to external variables only, and a program of
  one file has no external data at all.
\<close>

section \<open>Marking\<close>

abbreviation vids :: "text_t \<Rightarrow> nat set" where "vids tx \<equiv> va_id ` set (tx_vlist tx)"

text \<open>Marked variables are no mere declarations, and those without external relocation yet are on the list.\<close>

definition marked_ok :: "lstate \<Rightarrow> bool" where
  "marked_ok st \<longleftrightarrow> (\<forall>n\<in>vids (ls_tx st). at_class (ls_attrs st n) \<noteq> CL_DECL)
     \<and> (\<forall>n\<in>flagged st. at_class (ls_attrs st n) \<noteq> CL_DECL \<and> (at_ext_reloc (ls_attrs st n) \<or> n \<in> vids (ls_tx st)))"

definition same_relocs :: "lstate \<Rightarrow> lstate \<Rightarrow> bool" where
  "same_relocs st st' \<longleftrightarrow> tx_var_relocs (ls_tx st') = tx_var_relocs (ls_tx st)
     \<and> tx_string_relocs (ls_tx st') = tx_string_relocs (ls_tx st) \<and> tx_func_relocs (ls_tx st') = tx_func_relocs (ls_tx st)"

text \<open>Classes change from a declaration to a reference only.\<close>

definition class_kept :: "lstate \<Rightarrow> lstate \<Rightarrow> bool" where
  "class_kept st st' \<longleftrightarrow> (\<forall>n. at_class (ls_attrs st n) \<noteq> CL_DECL \<longrightarrow> at_class (ls_attrs st' n) = at_class (ls_attrs st n))"

lemma class_kept_trans: "class_kept a b \<Longrightarrow> class_kept b c \<Longrightarrow> class_kept a c"
  unfolding class_kept_def by metis

lemma class_kept_done:
  assumes "class_kept (done_with s v) t"
  shows "class_kept s t"
proof -
  have "at_class (ls_attrs (done_with s v) n) = at_class (ls_attrs s n)" for n by simp
  then show ?thesis using assms unfolding class_kept_def by simp
qed

lemma add_to_vlist_step:
  assumes "add_to_vlist tx v = Some tx'"
  shows "vids tx \<subseteq> vids tx'" "vids tx' \<subseteq> insert (va_id v) (vids tx)" "va_class v = CL_DECL \<Longrightarrow> vids tx' = vids tx"
    "tx_var_relocs tx' = tx_var_relocs tx" "tx_string_relocs tx' = tx_string_relocs tx" "tx_func_relocs tx' = tx_func_relocs tx" "tx_flags tx' = tx_flags tx"
    "tx_varlist tx' = tx_varlist tx"
  using assms by (auto simp: add_to_vlist_def split: if_split_asm)

lemma set_extflags_marked:
  "set_var_extflags st i = Some st' \<Longrightarrow> marked_ok st \<Longrightarrow> marked_ok st' \<and> class_kept st st' \<and> same_relocs st st'"
  "set_list_extflags st is = Some st' \<Longrightarrow> marked_ok st \<Longrightarrow> marked_ok st' \<and> class_kept st st' \<and> same_relocs st st'"
proof (induction st i and st "is" arbitrary: st' and st' rule: set_var_extflags_set_list_extflags.induct)
  case (1 st v offset)
  show ?case
  proof (cases "at_ext_reloc (attr st v) \<or> on_vlist (ls_tx st) v")
    case True
    then show ?thesis using 1
      by (auto simp: marked_ok_def class_kept_def same_relocs_def flagged_def on_vlist_def Let_def split: if_split_asm)
  next
    case False
    obtain tx where tx: "add_to_vlist (ls_tx st) (current ((ls_attrs st)(va_id v := (attr st v)\<lparr>at_todo := True, at_class := CL_EXTREF, at_ext_reloc := True\<rparr>)) v) = Some tx"
      "st' = st\<lparr>ls_attrs := (ls_attrs st)(va_id v := (attr st v)\<lparr>at_todo := True, at_class := CL_EXTREF, at_ext_reloc := True\<rparr>), ls_tx := tx\<rparr>"
      "at_class (attr st v) = CL_DECL"
      using 1(1) False by (auto simp: Let_def bind_Some_iff split: if_split_asm)
    note s = add_to_vlist_step[OF tx(1)]
    have id: "va_id (current a v) = va_id v" for a by (simp add: current_def)
    have at: "ls_attrs st' n = (if n = va_id v then (attr st v)\<lparr>at_todo := True, at_class := CL_EXTREF, at_ext_reloc := True\<rparr> else ls_attrs st n)"
      and on: "n \<in> vids (ls_tx st') \<Longrightarrow> n = va_id v \<or> n \<in> vids (ls_tx st)" "n \<in> vids (ls_tx st) \<Longrightarrow> n \<in> vids (ls_tx st')" for n
      using tx(2) s(1,2)[unfolded id] by auto
    have "marked_ok st'" unfolding marked_ok_def
    proof (intro conjI ballI)
      fix n assume "n \<in> vids (ls_tx st')"
      then show "at_class (ls_attrs st' n) \<noteq> CL_DECL" using on(1)[of n] at[of n] 1(2) unfolding marked_ok_def by (cases "n = va_id v") auto
    next
      fix n assume "n \<in> flagged st'"
      then have "n = va_id v \<or> n \<in> flagged st" using at[of n] by (auto simp: flagged_def split: if_split_asm)
      then show "at_class (ls_attrs st' n) \<noteq> CL_DECL" "at_ext_reloc (ls_attrs st' n) \<or> n \<in> vids (ls_tx st')"
        using at[of n] on(2)[of n] 1(2) unfolding marked_ok_def by (cases "n = va_id v"; auto)+
    qed
    then show ?thesis using at tx(2,3) s(4-6) by (auto simp: class_kept_def same_relocs_def)
  qed
next
  case (5 st i "is")
  obtain s where s: "set_var_extflags st i = Some s" "set_list_extflags s is = Some st'"
    using "5.prems" by (auto simp: bind_Some_iff)
  show ?case using "5.IH"(1)[OF s(1) "5.prems"(2)] "5.IH"(2)[OF s] by (auto simp: class_kept_def same_relocs_def)
qed (auto simp: class_kept_def same_relocs_def)

lemma ext_pass_marked:
  "ext_pass st il d = Some (st', d') \<Longrightarrow> marked_ok st \<Longrightarrow> marked_ok st' \<and> class_kept st st' \<and> same_relocs st st'"
proof (induction st il d arbitrary: rule: ext_pass.induct)
  case (2 st v i il done_one)
  show ?case
  proof (cases "at_todo (attr st v)")
    case True
    obtain s where s: "set_var_extflags st i = Some s" "ext_pass (done_with s v) il True = Some (st', d')"
      using "2.prems"(1) True by (auto simp: bind_Some_iff)
    have m: "marked_ok s" "class_kept st s" "same_relocs st s" using set_extflags_marked(1)[OF s(1) "2.prems"(2)] by auto
    have "va_id v \<in> flagged s" using set_extflags_step(1)[OF s(1)] True by (auto simp: flagged_def)
    then have "marked_ok (done_with s v)" using m(1) by (auto simp: marked_ok_def flagged_def)
    then have f: "marked_ok st'" "class_kept (done_with s v) st'" "same_relocs (done_with s v) st'" using "2.IH"(1)[OF True s] by auto
    have "class_kept st st'" by (rule class_kept_trans[OF m(2) class_kept_done[OF f(2)]])
    then show ?thesis using f(1,3) m(3) by (simp add: same_relocs_def)
  next
    case False
    then show ?thesis using "2.IH"(2) "2.prems" by simp
  qed
qed (simp add: class_kept_def same_relocs_def)

text \<open>A property that every pass keeps holds when the passes end.\<close>

lemma set_ext_relocs_keeps:
  assumes r: "set_ext_relocs st il = Some (Some (st', d))" and "P st"
    and pass: "\<And>s s' d. ext_pass s il False = Some (s', d) \<Longrightarrow> P s \<Longrightarrow> P s'"
  shows "P st'"
proof -
  let ?P = "\<lambda>r. case r of None \<Rightarrow> True | Some (s, d) \<Rightarrow> P s"
  have "?P (Some (st', d))"
  proof (rule while_option_rule[where P = ?P, OF _ r[unfolded set_ext_relocs_def]])
    show "?P (ext_pass st il False)" using assms(2) pass by (auto split: option.split)
  next
    fix r :: "(lstate \<times> bool) option" assume "?P r" "pass_again r"
    then show "?P (case r of Some (s, _) \<Rightarrow> ext_pass s il False | None \<Rightarrow> None)"
      using pass by (auto split: option.splits)
  qed
  then show ?thesis by simp
qed

lemma set_ext_relocs_marked:
  assumes "set_ext_relocs st il = Some (Some (st', d))" "marked_ok st"
  shows "marked_ok st' \<and> class_kept st st' \<and> same_relocs st st'"
proof (rule set_ext_relocs_keeps[OF assms(1), where P = "\<lambda>s. marked_ok s \<and> class_kept st s \<and> same_relocs st s"])
  fix s s' d assume "ext_pass s il False = Some (s', d)" "marked_ok s \<and> class_kept st s \<and> same_relocs st s"
  then show "marked_ok s' \<and> class_kept st s' \<and> same_relocs st s'"
    using ext_pass_marked[of s il False s' d] by (auto simp: class_kept_def same_relocs_def)
qed (simp add: assms(2) class_kept_def same_relocs_def)

lemma add_vars_step:
  "add_vars_to_vlist tx at vs = Some tx' \<Longrightarrow> vids tx \<subseteq> vids tx' \<and> tx_var_relocs tx' = tx_var_relocs tx
     \<and> tx_string_relocs tx' = tx_string_relocs tx \<and> tx_func_relocs tx' = tx_func_relocs tx \<and> tx_flags tx' = tx_flags tx"
proof (induction vs arbitrary: tx)
  case (Cons v vs)
  obtain t where t: "add_to_vlist tx (current at v) = Some t" "add_vars_to_vlist t at vs = Some tx'"
    using Cons.prems by (auto simp: bind_Some_iff)
  show ?case using Cons.IH[OF t(2)] add_to_vlist_step(1,4-7)[OF t(1)] by auto
qed simp

lemma finish_vlist_step:
  assumes "finish_vlist st = Some st'"
  shows "ls_attrs st' = ls_attrs st" "same_relocs st st'" "tx_flags (ls_tx st') = tx_flags (ls_tx st)"
    "v \<in> set (tx_vlist (ls_tx st')) \<Longrightarrow> at_class (attr st' v) \<in> {CL_EXTREF, CL_EXT, CL_STAT, CL_LSTAT}"
    "vids (ls_tx st) \<subseteq> vids (ls_tx st')"
proof -
  obtain tx where tx: "add_vars_to_vlist (ls_tx st) (ls_attrs st) (tx_varlist (ls_tx st)) = Some tx" "st' = st\<lparr>ls_tx := tx\<rparr>"
    "\<forall>v\<in>set (tx_vlist tx). at_class (attr st v) \<in> {CL_EXTREF, CL_EXT, CL_STAT, CL_LSTAT}"
    using assms by (auto simp: finish_vlist_def bind_Some_iff split: if_split_asm)
  note s = add_vars_step[OF tx(1)]
  show "ls_attrs st' = ls_attrs st" "same_relocs st st'" "tx_flags (ls_tx st') = tx_flags (ls_tx st)"
    "vids (ls_tx st) \<subseteq> vids (ls_tx st')"
    using s tx(2) by (simp_all add: same_relocs_def)
  show "v \<in> set (tx_vlist (ls_tx st')) \<Longrightarrow> at_class (attr st' v) \<in> {CL_EXTREF, CL_EXT, CL_STAT, CL_LSTAT}"
    using tx(2,3) by simp
qed

text \<open>What marking changes: in a program of one file external variables become static.\<close>

lemma mark_external_step:
  assumes "v \<in> set (tx_vlist (ls_tx st))"
  shows "ls_tx (mark_external b st v) = ls_tx st"
    "at_ext_reloc (ls_attrs (mark_external b st v) n) = at_ext_reloc (ls_attrs st n)"
    "at_has_initialiser (ls_attrs (mark_external b st v) n) = at_has_initialiser (ls_attrs st n)"
    "at_class (ls_attrs (mark_external b st v) n) = at_class (ls_attrs st n)
     \<or> b \<and> at_class (ls_attrs st n) = CL_EXT \<and> at_class (ls_attrs (mark_external b st v) n) = CL_STAT"
    "at_todo (ls_attrs (mark_external b st v) n) \<Longrightarrow> at_todo (ls_attrs st n) \<or> n \<in> vids (ls_tx st) \<and>
      (at_class (ls_attrs (mark_external b st v) n) = CL_EXTREF \<or> \<not> b \<and> at_class (ls_attrs (mark_external b st v) n) = CL_EXT)"
  using assms by (auto simp: mark_external_def Let_def split: if_split_asm)

lemma mark_all_step:
  "set vs \<subseteq> set (tx_vlist (ls_tx st)) \<Longrightarrow>
     ls_tx (foldl (mark_external b) st vs) = ls_tx st
     \<and> at_ext_reloc (ls_attrs (foldl (mark_external b) st vs) n) = at_ext_reloc (ls_attrs st n)
     \<and> at_has_initialiser (ls_attrs (foldl (mark_external b) st vs) n) = at_has_initialiser (ls_attrs st n)
     \<and> (at_class (ls_attrs (foldl (mark_external b) st vs) n) = at_class (ls_attrs st n)
        \<or> b \<and> at_class (ls_attrs st n) = CL_EXT \<and> at_class (ls_attrs (foldl (mark_external b) st vs) n) = CL_STAT)
     \<and> (at_todo (ls_attrs (foldl (mark_external b) st vs) n) \<longrightarrow> at_todo (ls_attrs st n) \<or> n \<in> vids (ls_tx st) \<and>
        (at_class (ls_attrs (foldl (mark_external b) st vs) n) = CL_EXTREF
         \<or> \<not> b \<and> at_class (ls_attrs (foldl (mark_external b) st vs) n) = CL_EXT))"
proof (induction vs arbitrary: st)
  case (Cons v vs)
  have v: "v \<in> set (tx_vlist (ls_tx st))" using Cons.prems by simp
  note m = mark_external_step[OF v, of b]
  have IH: "set vs \<subseteq> set (tx_vlist (ls_tx (mark_external b st v)))" using Cons.prems m(1) by simp
  show ?case using Cons.IH[OF IH] m(1) m(2-5)[of n] by (auto simp del: fun_upd_apply)
qed simp

text \<open>The variables before linking: what has external relocation is a reference.\<close>

definition fresh_attrs :: "vattrs \<Rightarrow> bool" where
  "fresh_attrs at \<longleftrightarrow> (\<forall>n. \<not> at_todo (at n) \<and> (at_ext_reloc (at n) \<longrightarrow> at_class (at n) = CL_EXTREF))"

lemma initial_attrs_fresh: "fresh_attrs (initial_attrs tx il)"
  by (auto simp: fresh_attrs_def initial_attrs_def Let_def split: option.split)

lemma mark_externals_step:
  assumes m: "mark_externals st = Some st'" and f: "fresh_attrs (ls_attrs st)"
  shows "marked_ok st'" "same_relocs st st'" "at_ext_reloc (ls_attrs st' n) = at_ext_reloc (ls_attrs st n)"
    "at_class (ls_attrs st' n) = at_class (ls_attrs st n)
      \<or> tx_flags (ls_tx st) AND CI_CP_ONEFILE \<noteq> 0 \<and> at_class (ls_attrs st n) = CL_EXT \<and> at_class (ls_attrs st' n) = CL_STAT"
    "at_todo (ls_attrs st' n) \<Longrightarrow> at_class (ls_attrs st' n) = CL_EXTREF
      \<or> tx_flags (ls_tx st) AND CI_CP_ONEFILE = 0 \<and> at_class (ls_attrs st' n) = CL_EXT"
    "at_has_initialiser (ls_attrs st' n) = at_has_initialiser (ls_attrs st n)"
proof -
  obtain s where s: "finish_vlist st = Some s" and
    st': "st' = foldl (mark_external (tx_flags (ls_tx s) AND CI_CP_ONEFILE \<noteq> 0)) s (tx_vlist (ls_tx s))"
    using m by (auto simp: mark_externals_def bind_Some_iff Let_def)
  note f1 = finish_vlist_step[OF s]
  note f2 = mark_all_step[OF subset_refl, where st = s and b = "tx_flags (ls_tx s) AND CI_CP_ONEFILE \<noteq> 0", folded st']
  have todo: "\<not> at_todo (ls_attrs s n)" and ext: "at_ext_reloc (ls_attrs s n) \<Longrightarrow> at_class (ls_attrs s n) = CL_EXTREF" for n
    using f f1(1) by (auto simp: fresh_attrs_def)
  have tx: "ls_tx st' = ls_tx s" using f2 by blast
  show "same_relocs st st'" using f1(2) tx by (simp add: same_relocs_def)
  show "at_ext_reloc (ls_attrs st' n) = at_ext_reloc (ls_attrs st n)" "at_has_initialiser (ls_attrs st' n) = at_has_initialiser (ls_attrs st n)"
    using f2[of n] f1(1) by simp_all
  show "at_class (ls_attrs st' n) = at_class (ls_attrs st n)
      \<or> tx_flags (ls_tx st) AND CI_CP_ONEFILE \<noteq> 0 \<and> at_class (ls_attrs st n) = CL_EXT \<and> at_class (ls_attrs st' n) = CL_STAT"
    using f2[of n] f1(1,3) by simp
  show "at_class (ls_attrs st' n) = CL_EXTREF \<or> tx_flags (ls_tx st) AND CI_CP_ONEFILE = 0 \<and> at_class (ls_attrs st' n) = CL_EXT"
    if "at_todo (ls_attrs st' n)"
    using f2[of n] f1(3) todo that by simp
  show "marked_ok st'" unfolding marked_ok_def
  proof (intro conjI ballI)
    fix n assume "n \<in> vids (ls_tx st')"
    then obtain v where v: "v \<in> set (tx_vlist (ls_tx s))" "n = va_id v" using tx by auto
    show "at_class (ls_attrs st' n) \<noteq> CL_DECL" using f1(4)[OF v(1)] f2[of n] v(2) by auto
  next
    fix n assume n: "n \<in> flagged st'"
    show "at_class (ls_attrs st' n) \<noteq> CL_DECL" using n f2[of n] ext[of n] todo[of n] by (auto simp: flagged_def)
    show "at_ext_reloc (ls_attrs st' n) \<or> n \<in> vids (ls_tx st')" using n f2[of n] todo[of n] tx by (auto simp: flagged_def)
  qed
qed

section \<open>Addresses\<close>

text \<open>Assigning addresses turns marks into external relocation and changes nothing else but addresses.\<close>

lemma assign_addrs_step:
  "assign_addrs bt st vs ar = Some (st', ar') \<Longrightarrow>
     ls_tx st' = ls_tx st \<and> at_class (ls_attrs st' n) = at_class (ls_attrs st n)
     \<and> at_has_initialiser (ls_attrs st' n) = at_has_initialiser (ls_attrs st n)
     \<and> (at_ext_reloc (ls_attrs st' n) \<longleftrightarrow> at_ext_reloc (ls_attrs st n) \<or> at_todo (ls_attrs st n) \<and> n \<in> va_id ` set vs)"
proof (induction vs arbitrary: st ar)
  case (Cons v vs)
  let ?s = "if at_todo (attr st v) then done_with st v else st"
  obtain s a where s: "assign_addrs bt s vs a = Some (st', ar')" and
    e: "ls_tx s = ls_tx st" "at_class (ls_attrs s n) = at_class (ls_attrs st n)"
    "at_has_initialiser (ls_attrs s n) = at_has_initialiser (ls_attrs st n)"
    "at_ext_reloc (ls_attrs s n) = at_ext_reloc (ls_attrs ?s n)" "at_todo (ls_attrs s n) = at_todo (ls_attrs ?s n)"
    using Cons.prems by (auto simp: Let_def bind_Some_iff split: if_split_asm)
  show ?case using Cons.IH[OF s] e by (auto split: if_split_asm)
qed simp

section \<open>External data refers to external variables\<close>

text \<open>The variables that have initialisers are defined in the file.\<close>

definition defined_vars :: "vattrs \<Rightarrow> (var_t \<times> initialiser_t) list \<Rightarrow> bool" where
  "defined_vars at il \<longleftrightarrow> (\<forall>(v, i)\<in>set il. at_class (at (va_id v)) \<in> {CL_EXT, CL_STAT, CL_LSTAT})"

definition closed_externals :: "vattrs \<Rightarrow> (var_t \<times> initialiser_t) list \<Rightarrow> bool" where
  "closed_externals at il \<longleftrightarrow> (\<forall>(v, i)\<in>set il. at_class (at (va_id v)) \<noteq> CL_DECL
     \<and> (at_ext_reloc (at (va_id v)) \<longrightarrow> (\<forall>w\<in>set (referred_vars i). at_ext_reloc (at (va_id w)) \<and> at_class (at (va_id w)) \<noteq> CL_DECL)))"

lemma link_addrs_closed:
  assumes l: "link_addrs bt st il = Some (st', ar)" and f: "fresh_attrs (ls_attrs st)"
    and one: "one_initialiser il" and d: "defined_vars (ls_attrs st) il"
  shows "closed_externals (ls_attrs st') il" "same_relocs st st'"
proof -
  obtain s1 s2 x where s1: "mark_externals st = Some s1" and s2: "set_ext_relocs s1 il = Some (Some (s2, x))"
    and a: "assign_addrs bt s2 (tx_vlist (ls_tx s2)) \<lparr>data_addr = 0, extdata_addr = 0, bss_addr = 0, extbss_addr = 0\<rparr> = Some (st', ar)"
    using l by (auto simp: link_addrs_def bind_Some_iff)
  note m1 = mark_externals_step[OF s1 f]
  have d1: "at_class (attr s1 v) \<in> {CL_EXT, CL_STAT, CL_LSTAT} \<and> \<not> at_ext_reloc (attr s1 v)" if "(v, i) \<in> set il" for v i
    using d f m1(3)[of "va_id v"] m1(4)[of "va_id v"] that unfolding defined_vars_def fresh_attrs_def by fastforce
  have "settled s1 il" using d1 by (auto simp: settled_def)
  note c = ext_relocs_are_closure[OF s2 one this]
  have m2: "marked_ok s2" "class_kept s1 s2" "same_relocs s1 s2" using set_ext_relocs_marked[OF s2 m1(1)] by auto
  note as = assign_addrs_step[OF a]
  have ext: "at_ext_reloc (ls_attrs st' n) \<longleftrightarrow> n \<in> flagged s2" for n
    using as[of n] m2(1) unfolding marked_ok_def flagged_def by blast
  show "same_relocs st st'" using m1(2) m2(3) as by (simp add: same_relocs_def)
  show "closed_externals (ls_attrs st') il"
    unfolding closed_externals_def
  proof (clarify, intro conjI impI ballI)
    fix v i assume vi: "(v, i) \<in> set il"
    have "at_class (attr s1 v) \<noteq> CL_DECL" using d1[OF vi] by auto
    then show "at_class (attr st' v) \<noteq> CL_DECL" using m2(2) as[of "va_id v"] d1[OF vi] unfolding class_kept_def by auto
    fix w assume e: "at_ext_reloc (attr st' v)" and w: "w \<in> set (referred_vars i)"
    have "va_id v \<in> (leads_to il)\<^sup>* `` flagged s1" using e ext c by simp
    then have "va_id w \<in> (leads_to il)\<^sup>* `` flagged s1"
      using leads_to_step[OF vi w] by (blast intro: rtrancl.rtrancl_into_rtrancl)
    then have "va_id w \<in> flagged s2" using c by simp
    then show "at_ext_reloc (attr st' w)" "at_class (attr st' w) \<noteq> CL_DECL"
      using ext as[of "va_id w"] m2(1) by (auto simp: marked_ok_def)
  qed
qed

text \<open>Static initialisation: variables that are no declarations stay as they are, and external data gets relocations
  against external variables only.\<close>

definition attrs_grow :: "istate \<Rightarrow> istate \<Rightarrow> bool" where
  "attrs_grow st st' \<longleftrightarrow> (\<forall>n. (at_class (is_attrs st n) \<noteq> CL_DECL \<longrightarrow> is_attrs st' n = is_attrs st n)
     \<and> (at_ext_reloc (is_attrs st n) \<longrightarrow> at_ext_reloc (is_attrs st' n)))"

definition relocs_ok :: "istate \<Rightarrow> bool" where
  "relocs_ok st \<longleftrightarrow> (\<forall>(lt, loc, w, offset)\<in>set (tx_var_relocs (is_tx st)). lt = RT_EXTDATALOC \<longrightarrow> at_ext_reloc (is_attrs st (va_id w)))"

definition may_refer :: "istate \<Rightarrow> loctype_t \<Rightarrow> var_t list \<Rightarrow> bool" where
  "may_refer st lt ws \<longleftrightarrow> (lt = RT_EXTDATALOC \<longrightarrow>
     (\<forall>w\<in>set ws. at_ext_reloc (is_attrs st (va_id w)) \<and> at_class (is_attrs st (va_id w)) \<noteq> CL_DECL))"

lemma attrs_grow_trans: "attrs_grow a b \<Longrightarrow> attrs_grow b c \<Longrightarrow> attrs_grow a c"
  unfolding attrs_grow_def by metis

lemma may_refer_mono: "may_refer a lt ws \<Longrightarrow> attrs_grow a b \<Longrightarrow> may_refer b lt ws"
  unfolding may_refer_def attrs_grow_def by metis

lemma may_refer_append [simp]: "may_refer st lt (xs @ ys) \<longleftrightarrow> may_refer st lt xs \<and> may_refer st lt ys"
  by (auto simp: may_refer_def)

lemma relocs_ok_mono:
  "relocs_ok a \<Longrightarrow> attrs_grow a b \<Longrightarrow> tx_var_relocs (is_tx b) = tx_var_relocs (is_tx a) \<Longrightarrow> relocs_ok b"
  unfolding relocs_ok_def attrs_grow_def by fastforce

lemma attrs_grow_same: "is_attrs b = is_attrs a \<Longrightarrow> attrs_grow a b"
  by (simp add: attrs_grow_def)

lemma put_data_step: "put_data st a bs = Some st' \<Longrightarrow> is_attrs st' = is_attrs st \<and> is_tx st' = is_tx st"
  by (auto simp: put_data_def bind_Some_iff)

lemma get_initialiser_value_step: "get_initialiser_value st i = Some (st', w) \<Longrightarrow> is_attrs st' = is_attrs st \<and> is_tx st' = is_tx st"
  by (auto simp: get_initialiser_value_def split: initialiser_t.splits)

lemma link_var_reloc_step:
  assumes "link_var_reloc st lt loc v offset = Some st'" "relocs_ok st" "may_refer st lt [v]"
  shows "attrs_grow st st' \<and> relocs_ok st'"
proof -
  have id: "va_id (current a v) = va_id v" "va_class (current a v) = at_class (a (va_id v))" "va_name (current a v) = va_name v" for a
    by (simp_all add: current_def)
  have g: "attrs_grow st st'"
    using assms(1) by (auto simp: link_var_reloc_def attrs_grow_def bind_Some_iff Let_def split: if_split_asm)
  obtain w where w: "tx_var_relocs (is_tx st') = (lt, loc, w, offset) # tx_var_relocs (is_tx st)"
    "at_class (is_attrs st (va_id v)) \<noteq> CL_DECL \<Longrightarrow> va_id w = va_id v"
    using assms(1)
    by (auto simp: link_var_reloc_def ci_add_var_reloc_def add_to_vlist_def bind_Some_iff Let_def id split: if_split_asm option.split_asm)
  have "lt = RT_EXTDATALOC \<Longrightarrow> at_ext_reloc (is_attrs st' (va_id w))"
    using assms(3) w(2) g by (auto simp: may_refer_def attrs_grow_def)
  moreover have "at_ext_reloc (is_attrs st' (va_id u))" if "(RT_EXTDATALOC, l, u, k) \<in> set (tx_var_relocs (is_tx st))" for l u k
    using assms(2) g that unfolding relocs_ok_def attrs_grow_def by fastforce
  ultimately show ?thesis using g w(1) by (auto simp: relocs_ok_def)
qed

lemma plain_step:
  assumes "is_attrs st' = is_attrs st \<and> is_tx st' = is_tx st" "relocs_ok st"
  shows "attrs_grow st st' \<and> relocs_ok st'"
  using assms relocs_ok_mono[OF assms(2) attrs_grow_same] by (simp add: attrs_grow_same)

lemma initialise_leaf_step:
  "initialise_integer st i n a = Some st' \<Longrightarrow> is_attrs st' = is_attrs st \<and> is_tx st' = is_tx st"
  "initialise_bitfield st i offset width a = Some st' \<Longrightarrow> is_attrs st' = is_attrs st \<and> is_tx st' = is_tx st"
  "initialise_float ip st i dbl a = Some st' \<Longrightarrow> is_attrs st' = is_attrs st \<and> is_tx st' = is_tx st"
  by (auto simp: initialise_integer_def initialise_bitfield_def initialise_float_def bind_Some_iff Let_def
      split: if_split_asm initialiser_t.split_asm dest!: put_data_step get_initialiser_value_step)

lemma funcname_var_relocs: "tx_var_relocs (fst (ci_funcname_to_index tx f)) = tx_var_relocs tx"
  by (simp add: ci_funcname_to_index_def Let_def split: option.split)

lemma initialise_word_step:
  assumes "initialise_word st i lt a = Some st'" "relocs_ok st" "may_refer st lt (referred_vars i)"
  shows "attrs_grow st st' \<and> relocs_ok st'"
proof -
  obtain s val where s: "put_data s a (bytes_of 8 val) = Some st'" and
    g: "attrs_grow st s \<and> relocs_ok s"
  proof (cases i)
    case (IT_VARADDR v offset)
    then obtain s where "link_var_reloc st lt (unat a) v offset = Some s" "put_data s a (bytes_of 8 0) = Some st'"
      using assms(1) by (auto simp: initialise_word_def bind_Some_iff)
    then show thesis using link_var_reloc_step[of st lt "unat a" v offset s] assms(2,3) IT_VARADDR by (intro that) auto
  next
    case (IT_STRINGADDR sc offset)
    let ?s = "st\<lparr>is_tx := ci_add_string_reloc (is_tx st) lt (unat a) sc offset\<rparr>"
    have "attrs_grow st ?s" by (simp add: attrs_grow_same)
    moreover have "tx_var_relocs (is_tx ?s) = tx_var_relocs (is_tx st)" by (simp add: ci_add_string_reloc_def)
    ultimately show thesis using assms(1) IT_STRINGADDR relocs_ok_mono[OF assms(2), of ?s]
      by (intro that[of ?s 0]) (auto simp: initialise_word_def bind_Some_iff)
  next
    case (IT_FUNCADDR f)
    obtain tx k val where tx: "ci_funcname_to_index (ci_add_func_reloc (is_tx st) lt (unat a)) f = (tx, k)"
      "put_data (st\<lparr>is_tx := tx\<rparr>) a (bytes_of 8 val) = Some st'"
      using assms(1) IT_FUNCADDR by (auto simp: initialise_word_def bind_Some_iff split: prod.split_asm)
    let ?s = "st\<lparr>is_tx := tx\<rparr>"
    have "attrs_grow st ?s" by (simp add: attrs_grow_same)
    moreover have "tx_var_relocs (is_tx ?s) = tx_var_relocs (is_tx st)"
      using funcname_var_relocs[of "ci_add_func_reloc (is_tx st) lt (unat a)" f] tx(1) by (simp add: ci_add_func_reloc_def)
    ultimately show thesis using tx(2) relocs_ok_mono[OF assms(2), of ?s] by (intro that[of ?s]) auto
  qed (use assms(1) plain_step[OF get_initialiser_value_step assms(2)] that in \<open>auto simp: initialise_word_def bind_Some_iff\<close>)
  have "is_attrs st' = is_attrs s \<and> is_tx st' = is_tx s" using put_data_step[OF s] .
  then show ?thesis using g plain_step[of st' s] attrs_grow_trans by blast
qed

text \<open>A property that writing data and the initialisation of words keep is kept by the initialisation of an object.\<close>

lemma initialise_keeps:
  assumes plain: "\<And>s s'. is_attrs s' = is_attrs s \<and> is_tx s' = is_tx s \<Longrightarrow> P s \<Longrightarrow> P s'"
    and word: "\<And>s s' i a. initialise_word s i lt a = Some s' \<Longrightarrow> set (referred_vars i) \<subseteq> W \<Longrightarrow> P s \<Longrightarrow> P s'"
  shows "initialise ip st a t i lt = Some st' \<Longrightarrow> P st \<Longrightarrow> set (referred_vars i) \<subseteq> W \<Longrightarrow> P st'"
    and "initialise_elements ip st a lim elsize el is lt = Some st' \<Longrightarrow> P st \<Longrightarrow> set (referred_list_vars is) \<subseteq> W \<Longrightarrow> P st'"
    and "initialise_members ip st a lim vs is lt = Some st' \<Longrightarrow> P st \<Longrightarrow> set (referred_list_vars is) \<subseteq> W \<Longrightarrow> P st'"
  using word
proof (induction ip st a t i lt and ip st a lim elsize el "is" lt and ip st a lim vs "is" lt
    arbitrary: st' and st' and st' rule: initialise_initialise_elements_initialise_members.induct)
  case (1 ip st a t i lt)
  let ?c = "ci_effective_typecode (ip_bool_type ip) (ty_code t)"
  consider (array) "?c = DT_ARRAY_OF" | (struct) "?c = TY_STRUCT" | (union) "?c = TY_UNION" | (ptr) "?c = DT_PTR_TO"
    | (leaf) "?c \<noteq> DT_ARRAY_OF" "?c \<noteq> TY_STRUCT" "?c \<noteq> TY_UNION" "?c \<noteq> DT_PTR_TO" by blast
  then show ?case
  proof cases
    case array
    obtain el n where el: "ty_base t = Some el" "ci_typesize (ip_bool_type ip) el = Some n"
      using "1.prems"(1) array by (auto simp: initialise.simps Let_def bind_Some_iff split: option.split_asm)
    consider (str) sc k where "i = IT_STRINGBYTES sc k" "put_data st a sc = Some st'"
      | (list) "is" where "i = IT_LIST is"
        "initialise_elements ip st a (a + of_int n * of_int (ty_dim_high t + 1)) (of_int n) el is lt = Some st'"
      using "1.prems"(1) array el by (auto simp: initialise.simps Let_def split: initialiser_t.split_asm if_split_asm)
    then show ?thesis
    proof cases
      case str
      then show ?thesis using put_data_step plain "1.prems"(2) by blast
    next
      case list
      then show ?thesis using "1.IH"(1)[OF HOL.refl array el HOL.refl HOL.refl list] "1.prems"(2-4) by simp
    qed
  next
    case struct
    then show ?thesis
      using "1.prems" "1.IH"(2)[OF HOL.refl]
      by (auto simp: initialise.simps Let_def bind_Some_iff split: initialiser_t.split_asm)
  next
    case union
    obtain v vs j js where u: "ip_members ip t = v # vs" "i = IT_LIST (j # js)" "initialise ip st a (va_type v) j lt = Some st'"
      using "1.prems"(1) union
      by (simp add: initialise.simps Let_def split: initialiser_t.split_asm list.split_asm)
    have w: "set (referred_vars j) \<subseteq> W" using "1.prems"(3) by (simp add: u(2))
    from "1.IH"(3)[OF HOL.refl] union u(1,2) have "initialise ip st a (va_type v) j lt = Some st' \<Longrightarrow> P st \<Longrightarrow> set (referred_vars j) \<subseteq> W \<Longrightarrow> P st'"
      using "1.prems"(4) by simp
    from this[OF u(3) "1.prems"(2) w] show ?thesis .
  next
    case ptr
    then show ?thesis using "1.prems"(1-3) "1.prems"(4)[of st i a st'] by (simp add: initialise.simps Let_def)
  next
    case leaf
    then have "is_attrs st' = is_attrs st \<and> is_tx st' = is_tx st"
      using "1.prems"(1) by (simp add: initialise.simps Let_def split: if_split_asm option.split_asm prod.split_asm)
        (auto dest: initialise_leaf_step)
    then show ?thesis using plain "1.prems"(2) by blast
  qed
next
  case (3 ip st a addrlim elsize el i "is" lt)
  obtain s where s: "\<not> addrlim \<le> a" "initialise ip st a el i lt = Some s"
    "initialise_elements ip s (a + elsize) addrlim elsize el is lt = Some st'"
    using "3.prems"(1) by (auto simp: bind_Some_iff split: if_split_asm)
  have "P s" using "3.IH"(1)[OF s(1,2)] "3.prems"(2-4) by simp
  then show ?case using "3.IH"(2)[OF s] "3.prems"(3,4) by simp
next
  case (6 ip st a maxaddr v vs i "is" lt)
  obtain s where s: "\<not> maxaddr \<le> a + va_addr v" "initialise ip st (a + va_addr v) (va_type v) i lt = Some s"
    "initialise_members ip s a maxaddr vs is lt = Some st'"
    using "6.prems"(1) by (auto simp: bind_Some_iff split: if_split_asm)
  have "P s" using "6.IH"(1)[OF s(1,2)] "6.prems"(2-4) by simp
  then show ?case using "6.IH"(2)[OF s] "6.prems"(3,4) by simp
qed auto

lemma may_refer_subset: "may_refer st lt ws \<Longrightarrow> set us \<subseteq> set ws \<Longrightarrow> may_refer st lt us"
  by (auto simp: may_refer_def)

lemma initialise_step:
  assumes "initialise ip st a t i lt = Some st'" "relocs_ok st" "may_refer st lt (referred_vars i)"
  shows "attrs_grow st st' \<and> relocs_ok st'"
proof (rule initialise_keeps(1)[where P = "\<lambda>s. attrs_grow st s \<and> relocs_ok s", OF _ _ assms(1) _ subset_refl])
  show "attrs_grow st s' \<and> relocs_ok s'" if "is_attrs s' = is_attrs s \<and> is_tx s' = is_tx s" "attrs_grow st s \<and> relocs_ok s" for s s'
    using plain_step[OF that(1)] that(2) attrs_grow_trans by blast
  show "attrs_grow st s' \<and> relocs_ok s'"
    if "initialise_word s j lt b = Some s'" "set (referred_vars j) \<subseteq> set (referred_vars i)" "attrs_grow st s \<and> relocs_ok s" for s s' j b
    using initialise_word_step[OF that(1)] may_refer_mono[OF may_refer_subset[OF assms(3) that(2)]] that(3) attrs_grow_trans by blast
qed (simp add: assms(2) attrs_grow_same)

lemma static_initialisations_step:
  "ci_do_static_initialisations ip st il data extdata = Some (st', data', extdata') \<Longrightarrow> relocs_ok st \<Longrightarrow>
     closed_externals (is_attrs st) il \<Longrightarrow> attrs_grow st st' \<and> relocs_ok st'"
proof (induction ip st il data extdata rule: ci_do_static_initialisations.induct)
  case (2 ip st v i il data extdata)
  let ?ext = "at_ext_reloc (is_attrs st (va_id v))"
  let ?st = "st\<lparr>is_data := (if ?ext then extdata else data)\<rparr>"
  obtain s where s: "initialise ip ?st (at_addr (is_attrs st (va_id v))) (va_type v) i (if ?ext then RT_EXTDATALOC else RT_DATALOC) = Some s"
    and rest: "ci_do_static_initialisations ip s il (if ?ext then data else is_data s) (if ?ext then is_data s else extdata) = Some (st', data', extdata')"
    using "2.prems"(1) by (auto simp: Let_def bind_Some_iff)
  have ok: "relocs_ok ?st" using "2.prems"(2) by (simp add: relocs_ok_def)
  have refer: "may_refer ?st (if ?ext then RT_EXTDATALOC else RT_DATALOC) (referred_vars i)"
    using "2.prems"(3) by (auto simp: may_refer_def closed_externals_def)
  have g: "attrs_grow ?st s" "relocs_ok s" using initialise_step[OF s ok refer] by auto
  then have g': "attrs_grow st s" by (simp add: attrs_grow_def)
  have "closed_externals (is_attrs s) il"
    unfolding closed_externals_def
  proof (clarify, intro conjI impI ballI)
    fix w j assume w: "(w, j) \<in> set il"
    then have c: "at_class (is_attrs st (va_id w)) \<noteq> CL_DECL" using "2.prems"(3) by (auto simp: closed_externals_def)
    then have e: "is_attrs s (va_id w) = is_attrs st (va_id w)" using g' by (simp add: attrs_grow_def)
    then show "at_class (is_attrs s (va_id w)) \<noteq> CL_DECL" using c by simp
    fix u assume u: "at_ext_reloc (is_attrs s (va_id w))" "u \<in> set (referred_vars j)"
    then have "at_ext_reloc (is_attrs st (va_id u)) \<and> at_class (is_attrs st (va_id u)) \<noteq> CL_DECL"
      using "2.prems"(3) w e by (auto simp: closed_externals_def)
    then show "at_ext_reloc (is_attrs s (va_id u))" "at_class (is_attrs s (va_id u)) \<noteq> CL_DECL"
      using g' by (auto simp: attrs_grow_def)
  qed
  then show ?case using "2.IH"[OF HOL.refl s rest g(2)] attrs_grow_trans[OF g'] by blast
qed (simp add: attrs_grow_def)

text \<open>C13. Safety: when the variables have been marked and the static initialisation is done, every relocation of the
  external data is against a variable with external relocation, so \<open>make_relocs\<close> does not panic with
  "extreloc botch".  The initialised variables are defined in the file, each has one initialiser, and the code itself
  has only relocations of the text.\<close>

theorem external_data_relocs_external:
  assumes l: "link_addrs bt \<lparr>ls_tx = tx, ls_attrs = initial_attrs tx il\<rparr> il = Some (st, ar)"
    and i: "ci_do_static_initialisations ip \<lparr>is_tx = ls_tx st, is_error = e, is_attrs = ls_attrs st, is_data = d\<rparr> il data extdata
      = Some (ist, data', extdata')"
    and one: "one_initialiser il" and def_: "defined_vars (initial_attrs tx il) il"
    and text_only: "\<forall>(lt, r)\<in>set (tx_var_relocs tx). lt = RT_TEXTLOC"
  shows "\<forall>(lt, loc, w, offset)\<in>set (tx_var_relocs (is_tx ist)). lt = RT_EXTDATALOC \<longrightarrow> at_ext_reloc (is_attrs ist (va_id w))"
proof -
  let ?l = "\<lparr>ls_tx = tx, ls_attrs = initial_attrs tx il\<rparr>"
  let ?i = "\<lparr>is_tx = ls_tx st, is_error = e, is_attrs = ls_attrs st, is_data = d\<rparr>"
  have f: "fresh_attrs (ls_attrs ?l)" by (simp add: initial_attrs_fresh)
  have c: "closed_externals (ls_attrs st) il" "same_relocs ?l st" using link_addrs_closed[OF l f one] def_ by auto
  have "relocs_ok ?i" using c(2) text_only by (fastforce simp: relocs_ok_def same_relocs_def)
  then have "relocs_ok ist" using static_initialisations_step[OF i] c(1) by simp
  then show ?thesis by (simp add: relocs_ok_def)
qed

end
