(* ===== verification/Ups_Load.thy ===== *)
theory Ups_Load
  imports Ups_Link
begin

text \<open>
  Loading a program of one file (\<open>src/ups/cx_onefile.c\<close>): the text and data of the linker's tables are copied
  behind each other, and the addresses of the data and of library variables are added where the relocation lists
  say.  The library is a parameter.  \<open>None\<close> is a panic or a write outside of the text and data.
\<close>

section \<open>The library\<close>

text \<open>What \<open>get_libaddr\<close> says of a name.\<close>

datatype (plugins only: code size) libaddr = CI_DIRECT_LIBFUNC word64 | CI_INDIRECT_LIBFUNC word64 | CI_DATA word64 | CI_UNDEFINED

text \<open>The addresses of the undefined variables; \<open>None\<close> stands for an entry that is not set, behind a
  diagnostic.  The result is whether every name is one of data.\<close>

fun make_varaddrs :: "(string \<Rightarrow> libaddr) \<Rightarrow> string list \<Rightarrow> bool \<times> word64 option list" where
  "make_varaddrs get_libaddr [] = (True, [])"
| "make_varaddrs get_libaddr (n # ns) =
     (let (ok, as) = make_varaddrs get_libaddr ns in
      case get_libaddr n of
        CI_DATA a \<Rightarrow> (ok, Some a # as)
      | _ \<Rightarrow> (False, None # as))"

text \<open>The table of library functions: whether the call is indirect, and the address.\<close>

fun make_funcrefs :: "(string \<Rightarrow> libaddr) \<Rightarrow> string list \<Rightarrow> bool \<times> (bool \<times> word64) option list" where
  "make_funcrefs get_libaddr [] = (True, [])"
| "make_funcrefs get_libaddr (n # ns) =
     (let (ok, ers) = make_funcrefs get_libaddr ns in
      case get_libaddr n of
        CI_DIRECT_LIBFUNC a \<Rightarrow> (ok, Some (False, a) # ers)
      | CI_INDIRECT_LIBFUNC a \<Rightarrow> (ok, Some (True, a) # ers)
      | _ \<Rightarrow> (False, None # ers))"

section \<open>Relocation\<close>

text \<open>A place in the text has four bytes, a place in the data a whole word.\<close>

definition adjust_location :: "nat \<Rightarrow> byte list \<Rightarrow> nat \<Rightarrow> word64 \<Rightarrow> byte list option" where
  "adjust_location text_size img offset delta =
     (let n = (if offset < text_size then 4 else 8) in
      do { bs \<leftarrow> get_bytes img offset n;
           put_bytes img offset (bytes_of n (word_of bs + delta)) })"

fun static_relocs :: "nat \<Rightarrow> word64 \<Rightarrow> byte list \<Rightarrow> nat list \<Rightarrow> byte list option" where
  "static_relocs text_size data img [] = Some img"
| "static_relocs text_size data img (rp # rps) =
     do { img \<leftarrow> adjust_location text_size img rp data; static_relocs text_size data img rps }"

definition varaddr :: "word64 option list \<Rightarrow> int \<Rightarrow> word64 option" where
  "varaddr varaddrs i = (if 0 \<le> i \<and> nat i < length varaddrs then varaddrs ! nat i else None)"

fun ext_relocs :: "nat \<Rightarrow> word64 option list \<Rightarrow> byte list \<Rightarrow> (nat \<times> int) list \<Rightarrow> byte list option" where
  "ext_relocs text_size varaddrs img [] = Some img"
| "ext_relocs text_size varaddrs img ((loc, i) # ers) =
     do { a \<leftarrow> varaddr varaddrs i;
          img \<leftarrow> adjust_location text_size img loc a;
          ext_relocs text_size varaddrs img ers }"

text \<open>What a program of one file must not have.\<close>

definition no_external_data :: "linkinfo_t \<Rightarrow> bool" where
  "no_external_data li \<longleftrightarrow> li_extdata li = [] \<and> li_extbss_size li = 0 \<and> li_extdata_funcrelocs li = [] \<and> li_extdata_relocs li = []"

definition do_linkinfo_relocs :: "linkinfo_t \<Rightarrow> word64 option list \<Rightarrow> word64 \<Rightarrow> byte list \<Rightarrow> byte list option" where
  "do_linkinfo_relocs li varaddrs data img =
     do { img \<leftarrow> static_relocs (li_text_size li) data img (li_static_rps li);
          img \<leftarrow> ext_relocs (li_text_size li) varaddrs img (li_ext_relocs li);
          if no_external_data li then Some img else None }"

section \<open>The code file\<close>

text \<open>The text, data and uninitialised data in one piece, at the address \<open>base\<close>; bytes of the text that were never
  written count as 0.\<close>

record codefile_image =
  ci_image :: "byte list"
  ci_data_copy :: "byte list"
  ci_funcrefs :: "(bool \<times> word64) option list"
  ci_funcaddrs :: "nat list"

definition text_and_data :: "linkinfo_t \<Rightarrow> byte list" where
  "text_and_data li =
     map (\<lambda>b. case b of Some b \<Rightarrow> b | None \<Rightarrow> 0) (take (li_text_size li) (li_text li)) @ li_data li @ replicate (unat (li_bss_size li)) 0"

definition make_codefile_from_linkinfo ::
  "(string \<Rightarrow> libaddr) \<Rightarrow> word64 \<Rightarrow> linkinfo_t \<Rightarrow> codefile_image option option" where
  "make_codefile_from_linkinfo get_libaddr base li =
     (let (fok, funcrefs) = make_funcrefs get_libaddr (map fst (li_undef_funcs li));
          (vok, varaddrs) = make_varaddrs get_libaddr (map fst (li_undef_vars li)) in
      if \<not> fok \<or> \<not> vok then Some None
      else do {
        img \<leftarrow> do_linkinfo_relocs li varaddrs (base + of_nat (li_text_size li)) (text_and_data li);
        Some (Some \<lparr>ci_image = img, ci_data_copy = li_data li, ci_funcrefs = funcrefs, ci_funcaddrs = li_funcaddrs li\<rparr>) })"

section \<open>The entry point\<close>

text \<open>The first function if no name is given; 0 means that there is none.\<close>

definition entry_point :: "linkinfo_t \<Rightarrow> string option \<Rightarrow> nat" where
  "entry_point li entry_name =
     (case entry_name of
        None \<Rightarrow> (case li_funcaddrs li of [] \<Rightarrow> 0 | a # _ \<Rightarrow> a)
      | Some name \<Rightarrow> (case map_of (li_funcs li) name of None \<Rightarrow> 0 | Some a \<Rightarrow> a))"

definition stack_nwords :: "linkinfo_t \<Rightarrow> word64 \<Rightarrow> word64" where
  "stack_nwords li stack_size =
     (if stack_size = 0 then if li_max_stack_nwords li = 0 then 16 * 1024 div 8 else li_max_stack_nwords li
      else stack_size div 8)"

text \<open>Up to the call of \<open>ci_create_machine\<close>: the code file, the entry point and the size of the stack.\<close>

definition ci_make_machine_from_linkinfo ::
  "(string \<Rightarrow> libaddr) \<Rightarrow> word64 \<Rightarrow> linkinfo_t \<Rightarrow> string option \<Rightarrow> word64 \<Rightarrow> (codefile_image \<times> nat \<times> word64) option option" where
  "ci_make_machine_from_linkinfo get_libaddr base li entry_name stack_size =
     (if entry_point li entry_name = 0 then Some None
      else do {
        cf \<leftarrow> make_codefile_from_linkinfo get_libaddr base li;
        Some (case cf of None \<Rightarrow> None | Some cf \<Rightarrow> Some (cf, entry_point li entry_name, stack_nwords li stack_size)) })"

end
