(* ===== verification/Ups_Static_Props.thy ===== *)
theory Ups_Static_Props
  imports Ups_Static_Init
begin

text \<open>An initialiser writes inside of its object only.  What clients rely on of the area that it writes to, and that
  the loader relocates, is the locale \<open>byte_area\<close>.\<close>

section \<open>The contract of an area\<close>

text \<open>An area of bytes: a range that was written reads back, and ranges beside it are not changed.\<close>

locale byte_area =
  fixes put :: "'a \<Rightarrow> nat \<Rightarrow> byte list \<Rightarrow> 'a option"
    and get :: "'a \<Rightarrow> nat \<Rightarrow> nat \<Rightarrow> byte list option"
  assumes put_get: "put d i bs = Some d' \<Longrightarrow> bs \<noteq> [] \<Longrightarrow> get d' i (length bs) = Some bs"
    and put_other: "put d i bs = Some d' \<Longrightarrow> j + n \<le> i \<or> i + length bs \<le> j \<Longrightarrow> get d' j n = get d j n"
begin

lemma updated:
  assumes "put d i (bytes_of n w) = Some d'" "0 < n"
  shows "get d' i n = Some (bytes_of n w)"
proof -
  have "bytes_of n w \<noteq> []" using assms(2) length_bytes_of[of n w] by (metis length_0_conv less_numeral_extra(3))
  then show ?thesis using put_get[OF assms(1)] by simp
qed

lemma beside: "put d i (bytes_of n w) = Some d' \<Longrightarrow> j + m \<le> i \<or> i + n \<le> j \<Longrightarrow> get d' j m = get d j m"
  using put_other by simp

end

lemma put_bytes_image:
  "put_bytes d i bs = Some d' \<Longrightarrow> length d' = length d \<and> (bs \<noteq> [] \<longrightarrow> i + length bs \<le> length d)
     \<and> (\<forall>k. d' ! k = (if i \<le> k \<and> k < i + length bs then bs ! (k - i) else d ! k))"
proof (induction bs arbitrary: d i)
  case (Cons b bs)
  then have i: "i < length d" and p: "put_bytes (d[i := b]) (Suc i) bs = Some d'" by (auto split: if_split_asm)
  note IH = Cons.IH[OF p]
  have "d' ! k = (if i \<le> k \<and> k < i + length (b # bs) then (b # bs) ! (k - i) else d ! k)" for k
    using IH i by (cases "k = i") (auto simp: nth_Cons' Suc_le_eq)
  then show ?case using IH i by (cases bs) auto
qed auto

interpretation image: byte_area put_bytes get_bytes
proof
  fix d d' :: "byte list" and i j n :: nat and bs :: "byte list"
  assume p: "put_bytes d i bs = Some d'"
  note f = put_bytes_image[OF p]
  show "get_bytes d' i (length bs) = Some bs" if "bs \<noteq> []"
    using f that by (auto simp: get_bytes_def intro!: nth_equalityI)
  show "get_bytes d' j n = get_bytes d j n" if "j + n \<le> i \<or> i + length bs \<le> j"
    using f that by (auto simp: get_bytes_def intro!: nth_equalityI)
qed

section \<open>Objects\<close>

text \<open>Types whose size is known and, if it is stored in the type, stored right; no bit fields, whose members are
  written as whole words.\<close>

fun object_type :: "typecode_t \<Rightarrow> type_t \<Rightarrow> bool" where
  "object_type bt (Type tc sz base high ae al bf) \<longleftrightarrow>
     (sz = - 1 \<or> ci_typesize bt (Type tc (- 1) base high ae al bf) = Some sz)
     \<and> ci_effective_typecode bt tc \<noteq> TY_BITFIELD
     \<and> (ci_effective_typecode bt tc = DT_ARRAY_OF \<longrightarrow> - 1 \<le> high \<and> (case base of None \<Rightarrow> False | Some b \<Rightarrow> object_type bt b))
     \<and> (case ci_typesize bt (Type tc (- 1) base high ae al bf) of None \<Rightarrow> False | Some n \<Rightarrow> 0 \<le> n)"

definition tsize :: "typecode_t \<Rightarrow> type_t \<Rightarrow> nat" where
  "tsize bt t = nat (the (ci_typesize bt t))"

text \<open>The members of a structure or union lie inside of it.\<close>

definition members_inside :: "iparams \<Rightarrow> bool" where
  "members_inside ip \<longleftrightarrow> (\<forall>t v. object_type (ip_bool_type ip) t \<longrightarrow>
     ci_effective_typecode (ip_bool_type ip) (ty_code t) \<in> {TY_STRUCT, TY_UNION} \<longrightarrow> v \<in> set (ip_members ip t) \<longrightarrow>
     object_type (ip_bool_type ip) (va_type v) \<and>
     unat (va_addr v) + tsize (ip_bool_type ip) (va_type v) \<le> tsize (ip_bool_type ip) t)"

lemma typesize_cached:
  assumes "object_type bt (Type tc sz base high ae al bf)"
  shows "ci_typesize bt (Type tc sz base high ae al bf) = ci_typesize bt (Type tc (- 1) base high ae al bf)"
proof (cases "sz = - 1")
  case False
  then have "ci_typesize bt (Type tc sz base high ae al bf) = Some sz" by simp
  then show ?thesis using assms False by (simp del: ci_typesize.simps)
qed simp

lemma object_size: "object_type bt t \<Longrightarrow> ci_typesize bt t = Some (int (tsize bt t))"
proof -
  assume o: "object_type bt t"
  obtain tc sz base high ae al bf where t: "t = Type tc sz base high ae al bf" by (cases t)
  have "ci_typesize bt t = ci_typesize bt (Type tc (- 1) base high ae al bf)" using o unfolding t by (rule typesize_cached)
  then have "\<exists>n. ci_typesize bt t = Some n \<and> 0 \<le> n"
    using o by (auto simp: t simp del: ci_typesize.simps split: option.split_asm)
  then show ?thesis by (auto simp: tsize_def)
qed

lemma array_size:
  assumes "object_type bt t" "ci_effective_typecode bt (ty_code t) = DT_ARRAY_OF" "ty_base t = Some el" "ci_typesize bt el = Some n"
  shows "ci_typesize bt t = Some ((ty_dim_high t + 1) * n) \<and> 0 \<le> ty_dim_high t + 1 \<and> object_type bt el"
proof -
  obtain tc sz base high ae al bf where t: "t = Type tc sz base high ae al bf" by (cases t)
  have s: "ci_typesize bt t = ci_typesize bt (Type tc (- 1) base high ae al bf)" using assms(1) unfolding t by (rule typesize_cached)
  have "ci_typesize bt (Type tc (- 1) base high ae al bf) = Some ((high + 1) * n)" using assms(2-4) by (simp add: t Let_def)
  moreover have "- 1 \<le> high \<and> object_type bt el" using assms(1-3) by (simp add: t del: ci_typesize.simps)
  ultimately show ?thesis unfolding s by (simp add: t del: ci_typesize.simps)
qed

text \<open>The sizes of objects that are written as numbers.\<close>

lemma scalar_size:
  assumes "object_type bt t" "c = ci_effective_typecode bt (ty_code t)"
  shows "c \<in> {DT_PTR_TO, TY_LONG, TY_ULONG, TY_LONGLONG, TY_ULONGLONG, TY_DOUBLE} \<Longrightarrow> tsize bt t = 8"
    "c \<in> {TY_INT, TY_UINT, TY_ENUM, TY_U_ENUM, TY_BOOLEAN, TY_FLOAT} \<Longrightarrow> tsize bt t = 4"
    "c \<in> {TY_SHORT, TY_USHORT} \<Longrightarrow> tsize bt t = 2" "c \<in> {TY_CHAR, TY_UCHAR} \<Longrightarrow> tsize bt t = 1"
proof -
  obtain tc sz base high ae al bf where t: "t = Type tc sz base high ae al bf" by (cases t)
  have s: "ci_typesize bt t = ci_typesize bt (Type tc (- 1) base high ae al bf)" using assms(1) unfolding t by (rule typesize_cached)
  have c: "c = ci_effective_typecode bt tc" using assms(2) t by simp
  show "c \<in> {DT_PTR_TO, TY_LONG, TY_ULONG, TY_LONGLONG, TY_ULONGLONG, TY_DOUBLE} \<Longrightarrow> tsize bt t = 8"
    "c \<in> {TY_INT, TY_UINT, TY_ENUM, TY_U_ENUM, TY_BOOLEAN, TY_FLOAT} \<Longrightarrow> tsize bt t = 4"
    "c \<in> {TY_SHORT, TY_USHORT} \<Longrightarrow> tsize bt t = 2" "c \<in> {TY_CHAR, TY_UCHAR} \<Longrightarrow> tsize bt t = 1"
    unfolding tsize_def s by (elim insertE; simp add: c[symmetric] Let_def)+
qed

section \<open>Writes\<close>

definition keeps_outside :: "nat \<Rightarrow> nat \<Rightarrow> istate \<Rightarrow> istate \<Rightarrow> bool" where
  "keeps_outside lo hi st st' \<longleftrightarrow> length (is_data st') = length (is_data st)
     \<and> (\<forall>k. k < lo \<or> hi \<le> k \<longrightarrow> is_data st' ! k = is_data st ! k)"

lemma keeps_outside_trans: "keeps_outside lo hi a b \<Longrightarrow> keeps_outside lo hi b c \<Longrightarrow> keeps_outside lo hi a c"
  by (simp add: keeps_outside_def)

lemma keeps_outside_mono: "keeps_outside lo hi a b \<Longrightarrow> lo' \<le> lo \<Longrightarrow> hi \<le> hi' \<Longrightarrow> keeps_outside lo' hi' a b"
  by (auto simp: keeps_outside_def)

lemma keeps_outside_refl [simp]: "keeps_outside lo hi a a"
  by (simp add: keeps_outside_def)

lemma put_bytes_step:
  "put_bytes d i bs = Some d' \<Longrightarrow> length d' = length d \<and> (bs \<noteq> [] \<longrightarrow> i + length bs \<le> length d)
     \<and> (\<forall>k. k < i \<or> i + length bs \<le> k \<longrightarrow> d' ! k = d ! k)"
  using put_bytes_image[of d i bs d'] by auto

lemma put_data_outside:
  "put_data st a bs = Some st' \<Longrightarrow> keeps_outside (unat a) (unat a + length bs) st st'
     \<and> (bs \<noteq> [] \<longrightarrow> unat a + length bs \<le> length (is_data st))"
  by (auto simp: put_data_def keeps_outside_def bind_Some_iff dest!: put_bytes_step)

lemma value_data: "get_initialiser_value st i = Some (s, w) \<Longrightarrow> is_data s = is_data st"
  by (auto simp: get_initialiser_value_def split: initialiser_t.splits)

lemma keeps_outside_from: "is_data a = is_data b \<Longrightarrow> keeps_outside lo hi a c = keeps_outside lo hi b c"
  by (simp add: keeps_outside_def)

lemma leaf_outside:
  "initialise_integer st i n a = Some st' \<Longrightarrow> n \<le> 8 \<Longrightarrow> keeps_outside (unat a) (unat a + n) st st'"
  "initialise_float ip st i dbl a = Some st' \<Longrightarrow> keeps_outside (unat a) (unat a + (if dbl then 8 else 4)) st st'"
proof -
  show "keeps_outside (unat a) (unat a + n) st st'" if "initialise_integer st i n a = Some st'" "n \<le> 8"
    using that by (auto simp: initialise_integer_def bind_Some_iff keeps_outside_def dest!: value_data put_data_outside)
  show "keeps_outside (unat a) (unat a + (if dbl then 8 else 4)) st st'" if "initialise_float ip st i dbl a = Some st'"
    using that by (auto simp: initialise_float_def keeps_outside_def split: initialiser_t.splits dest!: put_data_outside)
qed

lemma word_outside: "initialise_word st i lt a = Some st' \<Longrightarrow> keeps_outside (unat a) (unat a + 8) st st'"
  by (auto simp: initialise_word_def link_var_reloc_def bind_Some_iff keeps_outside_def Let_def
      split: initialiser_t.splits prod.splits dest!: value_data put_data_outside)

section \<open>Initialisers\<close>

lemma unat_add_small: "unat a + k < 2 ^ 64 \<Longrightarrow> unat (a + of_nat k) = unat (a :: word64) + k"
  by (simp add: unat_word_ariths unat_of_nat)

text \<open>The end of an array.\<close>

lemma array_end:
  assumes "unat (a :: word64) + nat ((high + 1) * n) < 2 ^ 64" "0 \<le> high + 1" "0 \<le> n"
  shows "unat (a + of_int n * of_int (high + 1)) = unat a + nat (high + 1) * nat n"
proof -
  have k: "nat ((high + 1) * n) = nat (high + 1) * nat n" using assms(2,3) by (simp add: nat_mult_distrib)
  have "of_int n * of_int (high + 1) = (of_nat (nat (high + 1) * nat n) :: word64)"
    using assms(2,3) by (simp add: mult.commute)
  then show ?thesis using unat_add_small[of a "nat (high + 1) * nat n"] assms(1) k by simp
qed

lemma initialise_outside:
  "initialise ip st a t i lt = Some st' \<Longrightarrow> members_inside ip \<Longrightarrow> object_type (ip_bool_type ip) t \<Longrightarrow>
     unat a + tsize (ip_bool_type ip) t < 2 ^ 64 \<Longrightarrow> length (is_data st) < 2 ^ 64 \<Longrightarrow>
     keeps_outside (unat a) (unat a + tsize (ip_bool_type ip) t) st st'"
  "initialise_elements ip st a lim elsize el is lt = Some st' \<Longrightarrow> members_inside ip \<Longrightarrow> object_type (ip_bool_type ip) el \<Longrightarrow>
     elsize = of_nat (tsize (ip_bool_type ip) el) \<Longrightarrow> unat lim = unat a + k * tsize (ip_bool_type ip) el \<Longrightarrow>
     length (is_data st) < 2 ^ 64 \<Longrightarrow> keeps_outside (unat a) (unat lim) st st'"
  "initialise_members ip st a lim vs is lt = Some st' \<Longrightarrow> members_inside ip \<Longrightarrow>
     \<forall>v\<in>set vs. object_type (ip_bool_type ip) (va_type v) \<and> unat (va_addr v) + tsize (ip_bool_type ip) (va_type v) \<le> N \<Longrightarrow>
     unat a + N < 2 ^ 64 \<Longrightarrow> length (is_data st) < 2 ^ 64 \<Longrightarrow> keeps_outside (unat a) (unat a + N) st st'"
proof (induction ip st a t i lt and ip st a lim elsize el "is" lt and ip st a lim vs "is" lt
    arbitrary: st' and st' k and st' N rule: initialise_initialise_elements_initialise_members.induct)
  case (1 ip st a t i lt)
  let ?bt = "ip_bool_type ip"
  let ?c = "ci_effective_typecode ?bt (ty_code t)"
  have nb: "?c \<noteq> TY_BITFIELD" using "1.prems"(3) by (cases t) simp
  note sz = scalar_size[OF "1.prems"(3) HOL.refl]
  consider (array) "?c = DT_ARRAY_OF" | (struct) "?c = TY_STRUCT" | (union) "?c = TY_UNION" | (ptr) "?c = DT_PTR_TO"
    | (leaf) "?c \<noteq> DT_ARRAY_OF" "?c \<noteq> TY_STRUCT" "?c \<noteq> TY_UNION" "?c \<noteq> DT_PTR_TO" by blast
  then show ?case
  proof cases
    case array
    obtain el n where el: "ty_base t = Some el" "ci_typesize ?bt el = Some n"
      using "1.prems"(1) array by (auto simp: initialise.simps Let_def bind_Some_iff split: option.split_asm)
    note as = array_size[OF "1.prems"(3) array el]
    let ?lim = "a + of_int n * of_int (ty_dim_high t + 1)"
    have n: "n = int (tsize ?bt el)" using object_size as el by simp
    have lim: "unat ?lim = unat a + nat (ty_dim_high t + 1) * nat n"
      using array_end[of a "ty_dim_high t" n] "1.prems"(4) as n by (simp add: tsize_def)
    have size: "tsize ?bt t = nat (ty_dim_high t + 1) * nat n" using as n by (simp add: tsize_def nat_mult_distrib)
    consider (str) sc k where "i = IT_STRINGBYTES sc k" "put_data st a sc = Some st'" "\<not> ?lim < a + of_nat (length sc)"
      | (list) "is" where "i = IT_LIST is" "initialise_elements ip st a ?lim (of_int n) el is lt = Some st'"
      using "1.prems"(1) array el by (auto simp: initialise.simps Let_def split: initialiser_t.split_asm if_split_asm)
    then show ?thesis
    proof cases
      case str
      have p: "keeps_outside (unat a) (unat a + length sc) st st'" "sc \<noteq> [] \<Longrightarrow> unat a + length sc < 2 ^ 64"
        using put_data_outside[OF str(2)] "1.prems"(5) by auto
      have "unat a + length sc \<le> unat ?lim"
      proof (cases "sc = []")
        case False
        have "unat (a + of_nat (length sc)) \<le> unat ?lim" using str(3) unfolding not_less word_le_nat_alt .
        then show ?thesis using unat_add_small[OF p(2)[OF False]] by (simp only:)
      qed (use lim in simp)
      then show ?thesis using keeps_outside_mono[OF p(1)] lim size by simp
    next
      case list
      have "keeps_outside (unat a) (unat ?lim) st st'"
        using "1.IH"(1)[OF HOL.refl array el HOL.refl HOL.refl list] "1.prems"(2,5) as n lim by simp
      then show ?thesis using lim size by simp
    qed
  next
    case struct
    then obtain "is" n where i: "i = IT_LIST is" "ci_typesize ?bt t = Some n"
      "initialise_members ip st a (a + of_int n) (ip_members ip t) is lt = Some st'"
      using "1.prems"(1) by (auto simp: initialise.simps Let_def bind_Some_iff split: initialiser_t.split_asm)
    have "\<forall>v\<in>set (ip_members ip t). object_type ?bt (va_type v) \<and> unat (va_addr v) + tsize ?bt (va_type v) \<le> tsize ?bt t"
      using "1.prems"(2,3) struct unfolding members_inside_def by auto
    then show ?thesis using "1.IH"(2)[OF HOL.refl _ struct i] "1.prems"(2,4,5) struct by simp
  next
    case union
    then obtain v vs j js where i: "ip_members ip t = v # vs" "i = IT_LIST (j # js)" "initialise ip st a (va_type v) j lt = Some st'"
      using "1.prems"(1) by (auto simp: initialise.simps Let_def split: initialiser_t.split_asm list.split_asm)
    have v: "object_type ?bt (va_type v)" "tsize ?bt (va_type v) \<le> tsize ?bt t"
      using "1.prems"(2,3) union i(1) unfolding members_inside_def by (force dest: spec[of _ t])+
    have "keeps_outside (unat a) (unat a + tsize ?bt (va_type v)) st st'"
      using "1.IH"(3)[OF HOL.refl _ _ union HOL.refl i(1,2) HOL.refl i(3)] "1.prems"(2,4,5) v union by auto
    then show ?thesis using v(2) keeps_outside_mono by simp
  next
    case ptr
    then show ?thesis using "1.prems"(1) sz(1) word_outside by (simp add: initialise.simps Let_def)
  next
    case leaf
    consider "?c \<in> {TY_CHAR, TY_UCHAR}" | "?c \<in> {TY_SHORT, TY_USHORT}" | "?c \<in> {TY_INT, TY_UINT, TY_ENUM, TY_U_ENUM, TY_BOOLEAN}"
      | "?c \<in> {TY_LONG, TY_ULONG, TY_LONGLONG, TY_ULONGLONG}" | "?c = TY_FLOAT" | "?c = TY_DOUBLE"
      using "1.prems"(1) leaf nb by (auto simp: initialise.simps Let_def split: if_split_asm)
    then show ?thesis
    proof cases
      case 1
      then have "initialise_integer st i 1 a = Some st'" using "1.prems"(1) by (auto simp: initialise.simps Let_def)
      then show ?thesis using leaf_outside(1)[of st i 1 a st'] sz(4)[OF 1] by simp
    next
      case 2
      then have "initialise_integer st i 2 a = Some st'" using "1.prems"(1) by (auto simp: initialise.simps Let_def)
      then show ?thesis using leaf_outside(1)[of st i 2] sz(3)[OF 2] by simp
    next
      case 3
      then have "initialise_integer st i 4 a = Some st'" using "1.prems"(1) by (auto simp: initialise.simps Let_def)
      then show ?thesis using leaf_outside(1)[of st i 4] sz(2) 3 by auto
    next
      case 4
      then have "initialise_integer st i 8 a = Some st'" using "1.prems"(1) by (auto simp: initialise.simps Let_def)
      then show ?thesis using leaf_outside(1)[of st i 8] sz(1) 4 by auto
    next
      case 5
      then have "initialise_float ip st i False a = Some st'" using "1.prems"(1) by (simp add: initialise.simps Let_def)
      then show ?thesis using leaf_outside(2)[of ip st i False] sz(2) 5 by simp
    next
      case 6
      then have "initialise_float ip st i True a = Some st'" using "1.prems"(1) by (simp add: initialise.simps Let_def)
      then show ?thesis using leaf_outside(2)[of ip st i True] sz(1) 6 by simp
    qed
  qed
next
  case (3 ip st a addrlim elsize el i "is" lt)
  let ?n = "tsize (ip_bool_type ip) el"
  obtain s where s: "\<not> addrlim \<le> a" "initialise ip st a el i lt = Some s"
    "initialise_elements ip s (a + elsize) addrlim elsize el is lt = Some st'"
    using "3.prems"(1) by (auto simp: bind_Some_iff split: if_split_asm)
  have lt: "unat a < unat addrlim" using s(1) by (simp add: word_less_nat_alt not_le)
  then obtain j where k: "k = Suc j" using "3.prems"(5) by (cases k) auto
  have e: "unat a + ?n \<le> unat addrlim" using "3.prems"(5) k by simp
  have lim: "unat addrlim < 2 ^ 64" using unsigned_less[of addrlim] by simp
  have a: "unat (a + elsize) = unat a + ?n" using unat_add_small[of a ?n] e lim "3.prems"(4) by simp
  have 1: "keeps_outside (unat a) (unat a + ?n) st s"
    using "3.IH"(1)[OF s(1,2) "3.prems"(2,3)] e lim "3.prems"(6) by simp
  have 2: "keeps_outside (unat (a + elsize)) (unat addrlim) s st'"
    using "3.IH"(2)[OF s "3.prems"(2-4), of j] a k "3.prems"(5,6) 1 by (simp add: keeps_outside_def)
  show ?case using keeps_outside_trans[OF keeps_outside_mono[OF 1 order_refl e] keeps_outside_mono[OF 2 _ order_refl]] a by simp
next
  case (6 ip st a maxaddr v vs i "is" lt)
  let ?n = "tsize (ip_bool_type ip) (va_type v)"
  obtain s where s: "\<not> maxaddr \<le> a + va_addr v" "initialise ip st (a + va_addr v) (va_type v) i lt = Some s"
    "initialise_members ip s a maxaddr vs is lt = Some st'"
    using "6.prems"(1) by (auto simp: bind_Some_iff split: if_split_asm)
  have v: "object_type (ip_bool_type ip) (va_type v)" "unat (va_addr v) + ?n \<le> N" using "6.prems"(3) by auto
  have a: "unat (a + va_addr v) = unat a + unat (va_addr v)"
    using unat_add_small[of a "unat (va_addr v)"] v(2) "6.prems"(4) by simp
  have 1: "keeps_outside (unat a + unat (va_addr v)) (unat a + unat (va_addr v) + ?n) st s"
    using "6.IH"(1)[OF s(1,2) "6.prems"(2) v(1)] a v(2) "6.prems"(4,5) by simp
  have 2: "keeps_outside (unat a) (unat a + N) s st'"
  proof (rule "6.IH"(2)[OF s "6.prems"(2) _ "6.prems"(4)])
    show "length (is_data s) < 2 ^ 64" using 1 "6.prems"(5) by (simp add: keeps_outside_def)
  qed (use "6.prems"(3) in simp)
  have "keeps_outside (unat a) (unat a + N) st s" using keeps_outside_mono[OF 1] v(2) by simp
  then show ?case using keeps_outside_trans 2 by blast
qed auto

text \<open>C18. Bounds: the static initialisation of an object of known size that holds no bit fields and whose members lie inside
  of it changes, with all members, elements and strings of its initialiser, only the bytes of the object.  Bit fields are
  left out because the code writes them as whole 64-bit words, which may reach behind the object.\<close>

theorem initialiser_stays_in_object:
  assumes "initialise ip st a t i lt = Some st'" and "members_inside ip" and "object_type (ip_bool_type ip) t"
    and "unat a + tsize (ip_bool_type ip) t < 2 ^ 64" and "length (is_data st) < 2 ^ 64"
  shows "length (is_data st') = length (is_data st) \<and>
    (\<forall>k. k < unat a \<or> unat a + tsize (ip_bool_type ip) t \<le> k \<longrightarrow> is_data st' ! k = is_data st ! k)"
  using initialise_outside(1)[OF assms] by (simp add: keeps_outside_def)

end
