(* ===== verification/Ups_Load_Props.thy ===== *)
theory Ups_Load_Props
  imports Ups_Link_Safe Ups_Load Ups_Static_Props
begin

text \<open>A program of one file, linked and loaded: it has no external data, and loading adds the address of the data once to
  every place of the relocation list.  What relocation relies on is the contract of a byte area.\<close>

section \<open>No external data\<close>

lemma ext_pass_unmarked: "\<forall>(v, i)\<in>set il. \<not> at_todo (attr st v) \<Longrightarrow> ext_pass st il d = Some (st, d)"
  by (induction il) auto

lemma set_ext_relocs_unmarked:
  assumes "\<forall>(v, i)\<in>set il. \<not> at_todo (attr st v)"
  shows "set_ext_relocs st il = Some (Some (st, False))"
  using ext_pass_unmarked[OF assms] by (simp add: set_ext_relocs_def while_option_unfold pass_again_def)

text \<open>References get no address.\<close>

lemma assign_addrs_refs:
  "assign_addrs bt st vs ar = Some (st', ar') \<Longrightarrow> \<forall>n\<in>flagged st. at_class (ls_attrs st n) = CL_EXTREF \<Longrightarrow>
     extdata_addr ar' = extdata_addr ar \<and> extbss_addr ar' = extbss_addr ar"
proof (induction vs arbitrary: st ar)
  case (Cons v vs)
  let ?s = "if at_todo (attr st v) then done_with st v else st"
  have f: "flagged ?s = flagged st" by (auto simp: flagged_def)
  have c: "at_class (ls_attrs ?s n) = at_class (ls_attrs st n)" for n by simp
  have refs: "\<forall>n\<in>flagged ?s. at_class (ls_attrs ?s n) = CL_EXTREF" using Cons.prems(2) unfolding f c .
  show ?case
  proof (cases "at_class (attr st v) = CL_EXTREF")
    case True
    then have "assign_addrs bt ?s vs ar = Some (st', ar')" using Cons.prems(1) by (simp add: Let_def split: if_split_asm)
    then show ?thesis using Cons.IH refs by blast
  next
    case False
    then have "va_id v \<notin> flagged st" using Cons.prems(2) by auto
    then have n: "\<not> at_todo (attr st v)" "\<not> at_ext_reloc (attr st v)" by (auto simp: flagged_def)
    obtain tsize a where a: "assign_addrs bt (set_attr st v (at_addr_update (\<lambda>_. a))) vs
        (set_area_end ar (at_has_initialiser (attr st v)) False (a + of_int tsize)) = Some (st', ar')"
      using Cons.prems(1) False n by (auto simp: Let_def bind_Some_iff)
    have "\<forall>m\<in>flagged (set_attr st v (at_addr_update (\<lambda>_. a))). at_class (ls_attrs (set_attr st v (at_addr_update (\<lambda>_. a))) m) = CL_EXTREF"
      using Cons.prems(2) by (auto simp: flagged_def split: if_split_asm)
    then show ?thesis using Cons.IH[OF a] by (simp add: set_area_end_def)
  qed
qed simp

lemma link_addrs_one_file:
  assumes l: "link_addrs bt st il = Some (st', ar)" and f: "fresh_attrs (ls_attrs st)"
    and one: "tx_flags (ls_tx st) AND CI_CP_ONEFILE \<noteq> 0" and d: "defined_vars (ls_attrs st) il"
  shows "extdata_addr ar = 0" "extbss_addr ar = 0" "same_relocs st st'"
    "\<forall>(v, i)\<in>set il. \<not> at_ext_reloc (attr st' v) \<and> at_class (attr st' v) \<noteq> CL_DECL"
proof -
  obtain s1 s2 x where s1: "mark_externals st = Some s1" and s2: "set_ext_relocs s1 il = Some (Some (s2, x))"
    and a: "assign_addrs bt s2 (tx_vlist (ls_tx s2)) \<lparr>data_addr = 0, extdata_addr = 0, bss_addr = 0, extbss_addr = 0\<rparr> = Some (st', ar)"
    using l by (auto simp: link_addrs_def bind_Some_iff)
  note m1 = mark_externals_step[OF s1 f]
  have ext: "at_ext_reloc (ls_attrs s1 n) \<Longrightarrow> at_class (ls_attrs s1 n) = CL_EXTREF" for n
    using m1(3,4)[of n] f by (auto simp: fresh_attrs_def)
  have refs: "\<forall>n\<in>flagged s1. at_class (ls_attrs s1 n) = CL_EXTREF" using ext m1(5) one by (auto simp: flagged_def)
  have d1: "at_class (attr s1 v) \<in> {CL_EXT, CL_STAT, CL_LSTAT}" if "(v, i) \<in> set il" for v i
    using d m1(4)[of "va_id v"] that unfolding defined_vars_def by fastforce
  have nf: "va_id v \<notin> flagged s1" if "(v, i) \<in> set il" for v i using refs d1[OF that] by auto
  have "\<forall>(v, i)\<in>set il. \<not> at_todo (attr s1 v)" using nf by (auto simp: flagged_def)
  then have eq: "s2 = s1" using set_ext_relocs_unmarked s2 by simp
  show "extdata_addr ar = 0" "extbss_addr ar = 0" using assign_addrs_refs[OF a] refs eq by auto
  note as = assign_addrs_step[OF a]
  show "same_relocs st st'" using m1(2) as eq by (simp add: same_relocs_def)
  show "\<forall>(v, i)\<in>set il. \<not> at_ext_reloc (attr st' v) \<and> at_class (attr st' v) \<noteq> CL_DECL"
    using as eq nf d1 by (fastforce simp: flagged_def)
qed

section \<open>Internal relocations\<close>

definition internal_relocs :: "text_t \<Rightarrow> bool" where
  "internal_relocs tx \<longleftrightarrow> (\<forall>r\<in>set (tx_var_relocs tx). fst r \<noteq> RT_EXTDATALOC)
     \<and> (\<forall>r\<in>set (tx_string_relocs tx). fst r \<noteq> RT_EXTDATALOC) \<and> (\<forall>r\<in>set (tx_func_relocs tx). fst r \<noteq> RT_EXTDATALOC)"

lemma internal_relocs_ok: "internal_relocs (is_tx st) \<Longrightarrow> relocs_ok st"
  by (fastforce simp: internal_relocs_def relocs_ok_def)

lemma add_var_reloc_lists:
  assumes "ci_add_var_reloc tx lt loc v offset = Some tx'"
  shows "tx_string_relocs tx' = tx_string_relocs tx \<and> tx_func_relocs tx' = tx_func_relocs tx
    \<and> (\<exists>w. tx_var_relocs tx' = (lt, loc, w, offset) # tx_var_relocs tx)"
  using assms by (auto simp: ci_add_var_reloc_def add_to_vlist_def bind_Some_iff Let_def split: if_split_asm option.split_asm)

lemma link_var_reloc_internal:
  assumes "link_var_reloc st lt loc v offset = Some st'" "lt \<noteq> RT_EXTDATALOC" "internal_relocs (is_tx st)"
  shows "internal_relocs (is_tx st')"
proof -
  obtain u w where "ci_add_var_reloc (is_tx st\<lparr>tx_varlist := u\<rparr>) lt loc w offset = Some (is_tx st')"
    using assms(1) by (auto simp: link_var_reloc_def bind_Some_iff Let_def)
  from add_var_reloc_lists[OF this] assms(2,3) show ?thesis by (auto simp: internal_relocs_def)
qed

lemma funcname_internal: "internal_relocs (fst (ci_funcname_to_index tx f)) = internal_relocs tx"
  by (simp add: ci_funcname_to_index_def Let_def internal_relocs_def split: option.split)

lemma initialise_word_internal:
  assumes "initialise_word st i lt a = Some st'" "lt \<noteq> RT_EXTDATALOC" "internal_relocs (is_tx st)"
  shows "internal_relocs (is_tx st')"
proof -
  have p: "put_data s a bs = Some st' \<Longrightarrow> internal_relocs (is_tx s) \<Longrightarrow> ?thesis" for s bs by (simp add: put_data_step)
  show ?thesis
  proof (cases i)
    case (IT_VARADDR v offset)
    then show ?thesis using assms link_var_reloc_internal by (auto simp: initialise_word_def bind_Some_iff intro: p)
  next
    case (IT_FUNCADDR f)
    have "internal_relocs (ci_add_func_reloc (is_tx st) lt (unat a))"
      using assms(2,3) by (simp add: internal_relocs_def ci_add_func_reloc_def)
    then have "internal_relocs (fst (ci_funcname_to_index (ci_add_func_reloc (is_tx st) lt (unat a)) f))"
      by (simp add: funcname_internal)
    then show ?thesis using assms(1) IT_FUNCADDR by (auto simp: initialise_word_def bind_Some_iff split: prod.split_asm intro: p)
  next
    case (IT_STRINGADDR sc offset)
    then show ?thesis using assms
      by (auto simp: initialise_word_def bind_Some_iff intro!: p) (simp add: internal_relocs_def ci_add_string_reloc_def)
  qed (use assms in \<open>auto simp: initialise_word_def bind_Some_iff dest!: get_initialiser_value_step intro!: p\<close>)
qed

lemma initialise_internal:
  assumes "initialise ip st a t i lt = Some st'" "lt \<noteq> RT_EXTDATALOC" "internal_relocs (is_tx st)"
  shows "internal_relocs (is_tx st')" "attrs_grow st st'"
proof -
  show "internal_relocs (is_tx st')"
    using initialise_keeps(1)[where P = "\<lambda>s. internal_relocs (is_tx s)", OF _ _ assms(1,3) subset_refl]
      initialise_word_internal assms(2) by simp
  show "attrs_grow st st'" using initialise_step[OF assms(1) internal_relocs_ok[OF assms(3)]] assms(2) by (simp add: may_refer_def)
qed

text \<open>No initialised variable is external, and none is a mere declaration.\<close>

definition all_internal :: "vattrs \<Rightarrow> (var_t \<times> initialiser_t) list \<Rightarrow> bool" where
  "all_internal at il \<longleftrightarrow> (\<forall>(v, i)\<in>set il. \<not> at_ext_reloc (at (va_id v)) \<and> at_class (at (va_id v)) \<noteq> CL_DECL)"

lemma static_initialisations_internal:
  "ci_do_static_initialisations ip st il data extdata = Some (st', data', extdata') \<Longrightarrow> internal_relocs (is_tx st) \<Longrightarrow>
     all_internal (is_attrs st) il \<Longrightarrow> internal_relocs (is_tx st') \<and> extdata' = extdata"
proof (induction ip st il data extdata rule: ci_do_static_initialisations.induct)
  case (2 ip st v i il data extdata)
  have ext: "\<not> at_ext_reloc (is_attrs st (va_id v))" using "2.prems"(3) by (simp add: all_internal_def)
  obtain s where s: "initialise ip (st\<lparr>is_data := data\<rparr>) (at_addr (is_attrs st (va_id v))) (va_type v) i RT_DATALOC = Some s"
    and rest: "ci_do_static_initialisations ip s il (is_data s) extdata = Some (st', data', extdata')"
    using "2.prems"(1) ext by (auto simp: Let_def bind_Some_iff)
  have g: "internal_relocs (is_tx s)" "attrs_grow (st\<lparr>is_data := data\<rparr>) s"
    using initialise_internal[OF s] "2.prems"(2) by auto
  have "all_internal (is_attrs s) il"
    using "2.prems"(3) g(2) by (fastforce simp: all_internal_def attrs_grow_def)
  then show ?case using "2.IH"[OF HOL.refl] s rest ext g(1) by simp
qed simp

lemma add_init_strings_internal: "all_internal at il \<Longrightarrow> extdata_addr (add_init_strings at il ar) = extdata_addr ar"
  by (induction at il ar rule: add_init_strings.induct) (auto simp: all_internal_def Let_def set_area_end_def)

lemma write_reloc_ext:
  "write_reloc ts rs lt loc val = Some (rs', loc') \<Longrightarrow> lt \<noteq> RT_EXTDATALOC \<Longrightarrow>
     rs_extdata rs' = rs_extdata rs \<and> rs_extdata_relocs rs' = rs_extdata_relocs rs"
  by (auto simp: write_reloc_def bind_Some_iff split: loctype_t.split_asm)

lemma make_var_relocs_ext:
  "make_reloc_list (make_var_reloc ts at) rs rl = Some rs' \<Longrightarrow> \<forall>r\<in>set rl. fst r \<noteq> RT_EXTDATALOC \<Longrightarrow>
     rs_extdata rs' = rs_extdata rs \<and> rs_extdata_relocs rs' = rs_extdata_relocs rs"
proof (induction rl arbitrary: rs)
  case (Cons r rl)
  obtain s where s: "make_var_reloc ts at rs r = Some s" "make_reloc_list (make_var_reloc ts at) s rl = Some rs'"
    using Cons.prems(1) by (auto simp: bind_Some_iff)
  have "rs_extdata s = rs_extdata rs \<and> rs_extdata_relocs s = rs_extdata_relocs rs"
    using s(1) Cons.prems(2) by (cases r) (auto simp: make_var_reloc_def Let_def bind_Some_iff dest: write_reloc_ext split: if_split_asm)
  then show ?case using Cons.IH[OF s(2)] Cons.prems(2) by simp
qed simp

lemma make_string_relocs_ext:
  "make_reloc_list (make_string_reloc ts) rs rl = Some rs' \<Longrightarrow> \<forall>r\<in>set rl. fst r \<noteq> RT_EXTDATALOC \<Longrightarrow>
     rs_extdata rs' = rs_extdata rs \<and> rs_extdata_relocs rs' = rs_extdata_relocs rs"
proof (induction rl arbitrary: rs)
  case (Cons r rl)
  obtain s where s: "make_string_reloc ts rs r = Some s" "make_reloc_list (make_string_reloc ts) s rl = Some rs'"
    using Cons.prems(1) by (auto simp: bind_Some_iff)
  have "rs_extdata s = rs_extdata rs \<and> rs_extdata_relocs s = rs_extdata_relocs rs"
    using s(1) Cons.prems(2) by (cases r) (auto simp: make_string_reloc_def Let_def bind_Some_iff dest!: write_reloc_ext)
  then show ?case using Cons.IH[OF s(2)] Cons.prems(2) by simp
qed simp

lemma make_func_relocs_ext: "\<forall>r\<in>set frs. fst r \<noteq> RT_EXTDATALOC \<Longrightarrow> snd (make_func_relocs ts frs ss es) = es"
  by (induction ts frs ss es rule: make_func_relocs.induct) auto

definition same_tables :: "text_t \<Rightarrow> text_t \<Rightarrow> bool" where
  "same_tables tx tx' \<longleftrightarrow> tx_var_relocs tx' = tx_var_relocs tx \<and> tx_string_relocs tx' = tx_string_relocs tx
     \<and> tx_func_relocs tx' = tx_func_relocs tx \<and> tx_flags tx' = tx_flags tx \<and> tx_vlist tx' = tx_vlist tx \<and> tx_varlist tx' = tx_varlist tx"

lemma code_byte_tables: "ci_code_byte tx b = Some tx' \<Longrightarrow> same_tables tx tx' \<and> tx_pc tx' = tx_pc tx + 1"
  by (auto simp: ci_code_byte_def grow_text_def realloc_text_def same_tables_def Let_def bind_Some_iff split: if_split_asm)

lemma code_nop_tables:
  assumes "ci_code_opcode tx OC_NOP = Some tx'"
  shows "same_tables tx tx' \<and> tx_pc tx' = tx_pc tx + 2"
proof -
  obtain sp mx t where t: "ci_code_byte (tx\<lparr>tx_sp := sp, tx_max_sp := mx\<rparr>) (of_nat (opcode_num OC_NOP) AND 0xff) = Some t"
    "ci_code_byte t (signed_drop_bit 8 (of_nat (opcode_num OC_NOP)) AND 0xff) = Some tx'"
    using assms by (auto simp: ci_code_opcode_def code_opcode_tail_def ci_code_word_def Let_def bind_Some_iff)
  show ?thesis using code_byte_tables[OF t(1)] code_byte_tables[OF t(2)] by (simp add: same_tables_def)
qed

lemma pad_text_tables: "pad_text n a tx = Some tx' \<Longrightarrow> same_tables tx tx'"
proof (induction n arbitrary: tx)
  case (Suc n)
  show ?case
  proof (cases "of_nat (tx_pc tx) < a")
    case True
    then obtain t where t: "ci_code_opcode tx OC_NOP = Some t" "pad_text n a t = Some tx'" using Suc.prems by (auto simp: bind_Some_iff)
    show ?thesis using Suc.IH[OF t(2)] code_nop_tables[OF t(1)] by (simp add: same_tables_def)
  qed (use Suc.prems in \<open>simp add: same_tables_def\<close>)
qed (simp add: same_tables_def split: if_split_asm)

text \<open>\<open>link_file\<close> pads with at most 4 instructions of two bytes, more than the alignment of 4 asks for: a larger
  bound makes no difference.\<close>

lemma pad_text_enough:
  "unat a \<le> tx_pc tx + 2 * n \<Longrightarrow> n \<le> m \<Longrightarrow> tx_pc tx + 2 * m < 2 ^ 64 \<Longrightarrow> pad_text m a tx = pad_text n a tx"
proof (induction n arbitrary: tx m)
  case 0
  then have "\<not> (of_nat (tx_pc tx) :: word64) < a" by (simp add: word_less_nat_alt unat_of_nat)
  then show ?case by (cases m) simp_all
next
  case (Suc n)
  then obtain k where m: "m = Suc k" "n \<le> k" by (cases m) auto
  have "pad_text k a t = pad_text n a t" if "ci_code_opcode tx OC_NOP = Some t" for t
    using code_nop_tables[OF that] Suc.IH[of t k] Suc.prems m by simp
  then show ?case using m(1) by (cases "ci_code_opcode tx OC_NOP") auto
qed

lemma same_tables_attrs: "same_tables tx tx' \<Longrightarrow> initial_attrs tx' il = initial_attrs tx il"
  by (rule ext) (simp add: same_tables_def initial_attrs_def)

lemma not_null: "(if b then Some None else x) = Some (Some y) \<longleftrightarrow> \<not> b \<and> x = Some (Some y)"
  by simp

text \<open>C14. Safety: a program that is linked as one file has no external data, no uninitialised external data and no
  relocations of external data, so that \<open>do_linkinfo_relocs\<close> of the loader only does its relocations and none of
  its panics about external data happens.\<close>

theorem one_file_has_no_external_data:
  assumes li: "link_file ip unique_id tx fs il = Some (Some li)" and one: "tx_flags tx AND CI_CP_ONEFILE \<noteq> 0"
    and d: "defined_vars (initial_attrs tx il) il" and internal: "internal_relocs tx"
  shows "no_external_data li \<and> do_linkinfo_relocs li varaddrs base img =
    do { img \<leftarrow> static_relocs (li_text_size li) base img (li_static_rps li); ext_relocs (li_text_size li) varaddrs img (li_ext_relocs li) }"
proof -
  obtain a tx1 st ar ds es ist data extdata ev rs where
    pad: "pad_text 4 a tx = Some tx1"
    and l: "link_addrs (ip_bool_type ip) \<lparr>ls_tx = tx1, ls_attrs = initial_attrs tx1 il\<rparr> il = Some (st, ar)"
    and ar: "link_areas st il ar = Some (ds, es)"
    and i: "ci_do_static_initialisations ip \<lparr>is_tx = ls_tx st, is_error = False, is_attrs = ls_attrs st, is_data = []\<rparr> il
       (replicate (unat ds) 0) (replicate (unat es) 0) = Some (ist, data, extdata)"
    and ev: "make_extvars ds (extbss_addr ar) (is_attrs ist) unique_id (tx_vlist (is_tx ist)) = Some ev"
    and r: "make_relocs (is_tx ist) (ev_attrs ev) (tx_pc (is_tx ist))
       \<lparr>rs_text = tx_text (is_tx ist), rs_data = data, rs_extdata = extdata, rs_str_addr = data_addr ar,
        rs_extstr_addr = extdata_addr ar, rs_ext_relocs = [], rs_extdata_relocs = [], rs_static_rps = []\<rparr> = Some rs"
    and result: "li_extdata li = rs_extdata rs" "li_extbss_size li = extbss_addr ar" "li_extdata_relocs li = rs_extdata_relocs rs"
      "li_extdata_funcrelocs li = snd (make_func_relocs (tx_pc (is_tx ist)) (tx_func_relocs (is_tx ist)) [] [])"
    using li
    by (clarsimp simp: link_file_def bind_Some_iff Let_def not_null)
  note t = pad_text_tables[OF pad]
  have f: "fresh_attrs (ls_attrs \<lparr>ls_tx = tx1, ls_attrs = initial_attrs tx1 il\<rparr>)" by (simp add: initial_attrs_fresh)
  note la = link_addrs_one_file[OF l f]
  have one': "tx_flags (ls_tx \<lparr>ls_tx = tx1, ls_attrs = initial_attrs tx1 il\<rparr>) AND CI_CP_ONEFILE \<noteq> 0"
    using t one by (simp add: same_tables_def)
  have d': "defined_vars (ls_attrs \<lparr>ls_tx = tx1, ls_attrs = initial_attrs tx1 il\<rparr>) il" using same_tables_attrs[OF t] d by simp
  have all: "all_internal (ls_attrs st) il" using la(4)[OF one' d'] by (simp add: all_internal_def)
  have "es = 0"
    using ar add_init_strings_internal[OF all, of ar] la(1)[OF one' d'] by (simp add: link_areas_def ci_align_addr_def MAX_ALIGN_def bind_Some_iff Let_def)
  have "internal_relocs (ls_tx st)"
    using la(3)[OF one' d'] t internal by (simp add: internal_relocs_def same_relocs_def same_tables_def)
  then have x: "internal_relocs (is_tx ist)" "extdata = []"
    using static_initialisations_internal[OF i] all \<open>es = 0\<close> by auto
  obtain s where s: "make_reloc_list (make_var_reloc (tx_pc (is_tx ist)) (ev_attrs ev))
       \<lparr>rs_text = tx_text (is_tx ist), rs_data = data, rs_extdata = extdata, rs_str_addr = data_addr ar,
        rs_extstr_addr = extdata_addr ar, rs_ext_relocs = [], rs_extdata_relocs = [], rs_static_rps = []\<rparr> (tx_var_relocs (is_tx ist)) = Some s"
    "make_reloc_list (make_string_reloc (tx_pc (is_tx ist))) s (tx_string_relocs (is_tx ist)) = Some rs"
    using r by (auto simp: make_relocs_def bind_Some_iff)
  have "rs_extdata rs = [] \<and> rs_extdata_relocs rs = []"
    using make_var_relocs_ext[OF s(1)] make_string_relocs_ext[OF s(2)] x by (simp add: internal_relocs_def)
  moreover have "li_extdata_funcrelocs li = []" using make_func_relocs_ext x(1) result(4) by (simp add: internal_relocs_def)
  ultimately have "no_external_data li" using result la(2)[OF one' d'] by (simp add: no_external_data_def)
  then show ?thesis by (simp add: do_linkinfo_relocs_def)
qed

section \<open>Relocation\<close>

text \<open>The width of a place, places that do not overlap, and ranges beside all places.\<close>

definition width :: "nat \<Rightarrow> nat \<Rightarrow> nat" where
  "width text_size p = (if p < text_size then 4 else 8)"

fun places_apart :: "nat \<Rightarrow> nat list \<Rightarrow> bool" where
  "places_apart ts [] = True"
| "places_apart ts (p # ps) \<longleftrightarrow> (\<forall>q\<in>set ps. p + width ts p \<le> q \<or> q + width ts q \<le> p) \<and> places_apart ts ps"

lemma adjust_location_step:
  assumes "adjust_location ts img p delta = Some img'"
  obtains bs where "get_bytes img p (width ts p) = Some bs"
    "get_bytes img' p (width ts p) = Some (bytes_of (width ts p) (word_of bs + delta))"
    "\<And>j n. j + n \<le> p \<or> p + width ts p \<le> j \<Longrightarrow> get_bytes img' j n = get_bytes img j n"
proof -
  obtain bs where bs: "get_bytes img p (width ts p) = Some bs"
    "put_bytes img p (bytes_of (width ts p) (word_of bs + delta)) = Some img'"
    using assms by (auto simp: adjust_location_def width_def bind_Some_iff Let_def)
  have "0 < width ts p" by (simp add: width_def)
  then show thesis using that[OF bs(1) image.updated[OF bs(2)]] image.beside[OF bs(2)] by blast
qed

text \<open>C15. Functional: loading adds the address of the data once to every place of the list of static relocations, four
  bytes in the text and a whole word in the data, and changes no byte beside them, if the places do not overlap.\<close>

theorem loading_relocates_once:
  assumes "static_relocs text_size data img rps = Some img'" and "places_apart text_size rps"
  shows "(\<forall>p\<in>set rps. \<exists>bs. get_bytes img p (width text_size p) = Some bs
      \<and> get_bytes img' p (width text_size p) = Some (bytes_of (width text_size p) (word_of bs + data)))
    \<and> (\<forall>j n. (\<forall>p\<in>set rps. j + n \<le> p \<or> p + width text_size p \<le> j) \<longrightarrow> get_bytes img' j n = get_bytes img j n)"
  using assms
proof (induction rps arbitrary: img)
  case (Cons p rps)
  obtain i where i: "adjust_location text_size img p data = Some i" "static_relocs text_size data i rps = Some img'"
    using Cons.prems(1) by (auto simp: bind_Some_iff)
  have ap: "\<forall>q\<in>set rps. p + width text_size p \<le> q \<or> q + width text_size q \<le> p" "places_apart text_size rps"
    using Cons.prems(2) by auto
  obtain bs where bs: "get_bytes img p (width text_size p) = Some bs"
    "get_bytes i p (width text_size p) = Some (bytes_of (width text_size p) (word_of bs + data))"
    and beside: "\<And>j n. j + n \<le> p \<or> p + width text_size p \<le> j \<Longrightarrow> get_bytes i j n = get_bytes img j n"
    by (rule adjust_location_step[OF i(1)]) (rule that; assumption)
  note IH = Cons.IH[OF i(2) ap(2)]
  have "get_bytes img' p (width text_size p) = get_bytes i p (width text_size p)" using IH ap(1) by blast
  moreover have "get_bytes i q (width text_size q) = get_bytes img q (width text_size q)" if "q \<in> set rps" for q
    using beside ap(1) that by auto
  ultimately show ?case using IH bs beside by auto
qed simp

end
