(* ===== verification/Ups_Link_Names.thy ===== *)
theory Ups_Link_Names
  imports Ups_Link
begin

text \<open>The numbers that relocations of external variables carry are positions in the tables of names.\<close>

definition names_var :: "var_t \<Rightarrow> vattr \<Rightarrow> string \<Rightarrow> bool" where
  "names_var v a name \<longleftrightarrow> name = va_name v \<or> at_class a = CL_STAT \<and> (\<exists>n. name = static_name (va_name v) n)"

lemma names_var [simp]:
  "names_var v a (va_name v)" "at_class a = CL_STAT \<Longrightarrow> names_var v a (static_name (va_name v) n)"
  by (auto simp: names_var_def)

text \<open>Where a definition lies: in the external data, or at a negative address before the end of the uninitialised data.\<close>

definition def_addr :: "word64 \<Rightarrow> vattr \<Rightarrow> word64" where
  "def_addr extbss_size a = (if at_has_initialiser a then at_addr a else at_addr a - extbss_size)"

text \<open>A reference that has its number, and a definition that has its number among the definitions.\<close>

definition ref_entry :: "extvars \<Rightarrow> var_t \<Rightarrow> vattr \<Rightarrow> bool" where
  "ref_entry ev v a \<longleftrightarrow> at_class a = CL_EXTREF \<and> \<not> at_todo (ev_attrs ev (va_id v)) \<and>
     (\<exists>k < length (ev_refs ev). at_addr (ev_attrs ev (va_id v)) = of_nat k \<and> rev (ev_refs ev) ! k = (va_name v, 0))"

definition def_entry :: "word64 \<Rightarrow> extvars \<Rightarrow> var_t \<Rightarrow> vattr \<Rightarrow> bool" where
  "def_entry es ev v a \<longleftrightarrow> at_class a \<in> {CL_EXT, CL_STAT} \<and> at_todo (ev_attrs ev (va_id v)) \<and>
     (\<exists>k < length (ev_defs ev). at_addr (ev_attrs ev (va_id v)) = of_nat k
        \<and> (\<exists>name. rev (ev_defs ev) ! k = (name, def_addr es a) \<and> names_var v a name))"

lemma rev_nth_keep: "k < length xs \<Longrightarrow> rev (ys @ xs) ! k = rev xs ! k"
  by (simp add: nth_append)

lemma entries_kept:
  assumes "ev_attrs ev' (va_id v) = ev_attrs ev (va_id v)" "ev_refs ev' = rs @ ev_refs ev" "ev_defs ev' = ds @ ev_defs ev"
  shows "ref_entry ev v a \<Longrightarrow> ref_entry ev' v a" "def_entry es ev v a \<Longrightarrow> def_entry es ev' v a"
proof -
  show "ref_entry ev' v a" if r: "ref_entry ev v a"
  proof -
    obtain k where "k < length (ev_refs ev)" "at_addr (ev_attrs ev (va_id v)) = of_nat k" "rev (ev_refs ev) ! k = (va_name v, 0)"
      using r by (auto simp: ref_entry_def)
    then have "k < length (ev_refs ev') \<and> at_addr (ev_attrs ev' (va_id v)) = of_nat k \<and> rev (ev_refs ev') ! k = (va_name v, 0)"
      using assms rev_nth_keep[of k "ev_refs ev" rs] by simp
    then show ?thesis using r assms(1) unfolding ref_entry_def by auto
  qed
  show "def_entry es ev' v a" if r: "def_entry es ev v a"
  proof -
    obtain k name where "k < length (ev_defs ev)" "at_addr (ev_attrs ev (va_id v)) = of_nat k"
      "rev (ev_defs ev) ! k = (name, def_addr es a)" "names_var v a name"
      using r by (auto simp: def_entry_def)
    then have "k < length (ev_defs ev') \<and> at_addr (ev_attrs ev' (va_id v)) = of_nat k
        \<and> (\<exists>name. rev (ev_defs ev') ! k = (name, def_addr es a) \<and> names_var v a name)"
      using assms rev_nth_keep[of k "ev_defs ev" ds] by simp
    then show ?thesis using r assms(1) unfolding def_entry_def by auto
  qed
qed

lemma make_extvar_step:
  assumes "make_extvar ds es ev v = Some ev'"
  shows "\<exists>rs dfs. ev_refs ev' = rs @ ev_refs ev \<and> ev_defs ev' = dfs @ ev_defs ev \<and> length rs + length dfs \<le> 1"
    "\<And>n. n \<noteq> va_id v \<Longrightarrow> ev_attrs ev' n = ev_attrs ev n"
    "at_ext_reloc (ev_attrs ev (va_id v)) \<Longrightarrow> ref_entry ev' v (ev_attrs ev (va_id v)) \<or> def_entry es ev' v (ev_attrs ev (va_id v))"
proof -
  show "\<exists>rs dfs. ev_refs ev' = rs @ ev_refs ev \<and> ev_defs ev' = dfs @ ev_defs ev \<and> length rs + length dfs \<le> 1"
    "\<And>n. n \<noteq> va_id v \<Longrightarrow> ev_attrs ev' n = ev_attrs ev n"
    using assms by (auto simp: make_extvar_def Let_def split: if_split_asm)
  let ?a = "ev_attrs ev (va_id v)"
  assume x: "at_ext_reloc ?a"
  show "ref_entry ev' v ?a \<or> def_entry es ev' v ?a"
  proof (cases "at_class ?a = CL_EXTREF \<and> at_addr ?a = 0")
    case True
    then show ?thesis using assms x
      by (intro disjI1) (auto simp: make_extvar_def ref_entry_def Let_def nth_append split: if_split_asm intro!: exI[of _ "length (ev_refs ev)"])
  next
    case False
    then show ?thesis using assms x
      by (intro disjI2) (auto simp: make_extvar_def def_entry_def def_addr_def Let_def nth_append split: if_split_asm
          intro!: exI[of _ "length (ev_defs ev)"])
  qed
qed

lemma make_extvars_loop_step:
  "make_extvars_loop ds es ev vs = Some ev' \<Longrightarrow> distinct (map va_id vs) \<Longrightarrow>
     (\<exists>rs dfs. ev_refs ev' = rs @ ev_refs ev \<and> ev_defs ev' = dfs @ ev_defs ev \<and> length rs + length dfs \<le> length vs)
     \<and> (\<forall>n. n \<notin> va_id ` set vs \<longrightarrow> ev_attrs ev' n = ev_attrs ev n)
     \<and> (\<forall>v\<in>set vs. at_ext_reloc (ev_attrs ev (va_id v)) \<longrightarrow>
          ref_entry ev' v (ev_attrs ev (va_id v)) \<or> def_entry es ev' v (ev_attrs ev (va_id v)))"
proof (induction vs arbitrary: ev)
  case (Cons v vs)
  obtain e where e: "make_extvar ds es ev v = Some e" "make_extvars_loop ds es e vs = Some ev'"
    using Cons.prems(1) by (auto simp: bind_Some_iff)
  have v: "va_id v \<notin> va_id ` set vs" using Cons.prems(2) by auto
  note s = make_extvar_step[OF e(1)]
  have d: "distinct (map va_id vs)" using Cons.prems(2) by simp
  obtain r1 d1 where p1: "ev_refs e = r1 @ ev_refs ev" "ev_defs e = d1 @ ev_defs ev" "length r1 + length d1 \<le> 1" using s(1) by blast
  obtain r2 d2 where p2: "ev_refs ev' = r2 @ ev_refs e" "ev_defs ev' = d2 @ ev_defs e" "length r2 + length d2 \<le> length vs"
    using Cons.IH[OF e(2) d] by blast
  have rest: "\<And>n. n \<notin> va_id ` set vs \<Longrightarrow> ev_attrs ev' n = ev_attrs e n"
    "\<And>w. w \<in> set vs \<Longrightarrow> at_ext_reloc (ev_attrs e (va_id w)) \<Longrightarrow>
      ref_entry ev' w (ev_attrs e (va_id w)) \<or> def_entry es ev' w (ev_attrs e (va_id w))"
    using Cons.IH[OF e(2) d] by blast+
  have "ref_entry ev' w (ev_attrs ev (va_id w)) \<or> def_entry es ev' w (ev_attrs ev (va_id w))"
    if w: "w \<in> set (v # vs)" "at_ext_reloc (ev_attrs ev (va_id w))" for w
  proof (cases "w \<in> set vs")
    case True
    then have "va_id w \<noteq> va_id v" using v by (metis imageI)
    then show ?thesis using rest(2)[OF True] s(2)[of "va_id w"] w(2) by simp
  next
    case False
    then have "w = v" using w(1) by simp
    then show ?thesis using s(3) w(2) entries_kept[OF rest(1)[OF v] p2(1,2)] by blast
  qed
  moreover have "\<forall>n. n \<notin> va_id ` set (v # vs) \<longrightarrow> ev_attrs ev' n = ev_attrs ev n" using rest(1) s(2) by auto
  moreover have "ev_refs ev' = (r2 @ r1) @ ev_refs ev \<and> ev_defs ev' = (d2 @ d1) @ ev_defs ev
      \<and> length (r2 @ r1) + length (d2 @ d1) \<le> length (v # vs)" using p1 p2 by simp
  ultimately show ?case by blast
qed simp

lemma number_def_all:
  "distinct (map va_id vs) \<Longrightarrow> v \<in> set vs \<Longrightarrow> foldl (number_def n) at vs (va_id v) =
     (let a = at (va_id v) in if at_todo a then a\<lparr>at_addr := at_addr a + of_nat n, at_todo := False\<rparr> else a)"
proof (induction vs arbitrary: at)
  case (Cons w vs)
  have other: "foldl (number_def n) at vs m = at m" if "m \<notin> va_id ` set vs" for at m
    using that by (induction vs arbitrary: at) (auto simp: number_def_def Let_def)
  show ?case
  proof (cases "v \<in> set vs")
    case True
    then have "va_id v \<noteq> va_id w" using Cons.prems(1) by (metis distinct.simps(2) imageI list.simps(9) set_map)
    then have "number_def n at w (va_id v) = at (va_id v)" by (simp add: number_def_def Let_def)
    then show ?thesis using Cons True by (simp add: Let_def)
  next
    case False
    then have w: "v = w" "va_id v \<notin> va_id ` set vs" using Cons.prems by auto
    have "foldl (number_def n) (number_def n at w) vs (va_id v) = number_def n at w (va_id v)" using other[OF w(2)] .
    then show ?thesis using w(1) by (simp add: number_def_def[of n at w] Let_def)
  qed
qed simp

text \<open>C16. Functional: the number that \<open>make_extvars\<close> gives to an external variable is its position in the list of
  undefined variables followed by the list of defined ones: the entry there has the name of the variable (a static
  one has a name made from it) and, for a definition, its address in the external areas.\<close>

theorem external_index_names_variable:
  assumes m: "make_extvars data_size extbss_size at unique_id vlist = Some ev"
    and d: "distinct (map va_id vlist)" and v: "v \<in> set vlist" "at_ext_reloc (at (va_id v))" and len: "length vlist < 2 ^ 31"
  shows "\<exists>k name a. at_addr (ev_attrs ev (va_id v)) = of_nat k \<and> k < length (ev_refs ev) + length (ev_defs ev)
    \<and> length (ev_refs ev) + length (ev_defs ev) < 2 ^ 31
    \<and> (rev (ev_refs ev) @ rev (ev_defs ev)) ! k = (name, a) \<and> names_var v (at (va_id v)) name
    \<and> a = (if k < length (ev_refs ev) then 0 else def_addr extbss_size (at (va_id v)))
    \<and> (k < length (ev_refs ev) \<longleftrightarrow> at_class (at (va_id v)) = CL_EXTREF)"
proof -
  let ?e = "\<lparr>ev_attrs = at, ev_refs = [], ev_defs = [], ev_unique_id = unique_id\<rparr>"
  obtain e where e: "make_extvars_loop data_size extbss_size ?e vlist = Some e"
    "ev = e\<lparr>ev_attrs := foldl (number_def (length (ev_refs e))) (ev_attrs e) vlist\<rparr>"
    using m by (auto simp: make_extvars_def bind_Some_iff)
  note s = make_extvars_loop_step[OF e(1) d]
  have le: "length (ev_refs e) + length (ev_defs e) \<le> length vlist" using s by auto
  note n = number_def_all[OF d v(1), of "length (ev_refs e)" "ev_attrs e"]
  consider "ref_entry e v (at (va_id v))" | "def_entry extbss_size e v (at (va_id v))" using s v by auto
  then show ?thesis
  proof cases
    case 1
    then obtain k where k: "k < length (ev_refs e)" "at_addr (ev_attrs e (va_id v)) = of_nat k"
      "rev (ev_refs e) ! k = (va_name v, 0)" "\<not> at_todo (ev_attrs e (va_id v))" "at_class (at (va_id v)) = CL_EXTREF"
      by (auto simp: ref_entry_def)
    show ?thesis
      by (rule exI[of _ k], rule exI[of _ "va_name v"], rule exI[of _ 0])
        (use k n le len e(2) in \<open>simp add: Let_def nth_append names_var_def\<close>)
  next
    case 2
    then obtain k name where k: "k < length (ev_defs e)" "at_addr (ev_attrs e (va_id v)) = of_nat k"
      "rev (ev_defs e) ! k = (name, def_addr extbss_size (at (va_id v)))" "names_var v (at (va_id v)) name"
      "at_todo (ev_attrs e (va_id v))" "at_class (at (va_id v)) \<in> {CL_EXT, CL_STAT}"
      by (auto simp: def_entry_def)
    show ?thesis
      by (rule exI[of _ "length (ev_refs e) + k"], rule exI[of _ name], rule exI[of _ "def_addr extbss_size (at (va_id v))"])
        (use k n le len e(2) in \<open>auto simp: Let_def nth_append\<close>)
  qed
qed

end
