(* ===== verification/Ups_Link_Layout.thy ===== *)
theory Ups_Link_Layout
  imports Ups_Layout Ups_Link
begin

text \<open>The addresses of the static variables: in each of the four areas the variables follow one another without
  overlap, each at a multiple of its alignment.\<close>

definition space :: "typecode_t \<Rightarrow> var_t list \<Rightarrow> nat" where
  "space bt vs = (\<Sum>v\<leftarrow>vs. var_size bt v + var_align bt v)"

abbreviation area_of :: "areas \<Rightarrow> vattr \<Rightarrow> word64" where
  "area_of ar a \<equiv> area_end ar (at_has_initialiser a) (at_ext_reloc a)"

definition area_room :: "typecode_t \<Rightarrow> areas \<Rightarrow> var_t list \<Rightarrow> bool" where
  "area_room bt ar vs \<longleftrightarrow> (\<forall>i e. unat (area_end ar i e) + space bt vs < 2 ^ 64)"

lemma area_end_set [simp]: "area_end (set_area_end ar i e a) i' e' = (if i' = i \<and> e' = e then a else area_end ar i' e')"
  by (auto simp: area_end_def set_area_end_def)

text \<open>One variable.\<close>

lemma align_sized:
  assumes "sized_var bt v" "ci_align_addr_for_type bt e (va_type v) = Some a" "ci_typesize bt (va_type v) = Some n"
    and r: "unat e + (var_size bt v + var_align bt v) < 2 ^ 64"
  shows "unat e \<le> unat a \<and> unat a mod var_align bt v = 0 \<and> unat (a + of_int n) = unat a + var_size bt v
    \<and> unat a + var_size bt v \<le> unat e + (var_size bt v + var_align bt v)"
proof -
  obtain al where al: "ci_type_alignment bt (va_type v) = Some al" "0 < al" "al < 2 ^ 31" "0 \<le> n"
    using assms(1,3) by (auto simp: sized_var_def)
  have v: "al = int (var_align bt v)" "n = int (var_size bt v)" using al assms(3) by (simp_all add: var_align_def var_size_def)
  obtain p where p: "a = e + of_nat p" "p < var_align bt v" "(unat e + p) mod var_align bt v = 0"
    using align_up[of "var_align bt v" e] al v assms(2) by (auto simp: ci_align_addr_for_type_def bind_Some_iff)
  have small: "unat (x + of_nat k) = unat x + k" if "unat x + k < 2 ^ 64" for x :: word64 and k
    using that by (simp add: unat_word_ariths unat_of_nat)
  have ua: "unat a = unat e + p" using p r by (simp add: small)
  then have "unat (a + of_int n) = unat a + var_size bt v" using p r v small[of a "var_size bt v"] by simp
  then show ?thesis using ua p by simp
qed

text \<open>All of them: where they lie relative to the area's end before and after.\<close>

definition placed :: "typecode_t \<Rightarrow> areas \<Rightarrow> areas \<Rightarrow> vattr \<Rightarrow> var_t \<Rightarrow> bool" where
  "placed bt ar ar' a v \<longleftrightarrow> unat (area_of ar a) \<le> unat (at_addr a) \<and> unat (at_addr a) mod var_align bt v = 0
     \<and> unat (at_addr a) + var_size bt v \<le> unat (area_of ar' a)"

definition statics_apart :: "typecode_t \<Rightarrow> var_t \<Rightarrow> vattr \<Rightarrow> var_t \<Rightarrow> vattr \<Rightarrow> bool" where
  "statics_apart bt v a w b \<longleftrightarrow> unat (at_addr a) + var_size bt v \<le> unat (at_addr b) \<or> unat (at_addr b) + var_size bt w \<le> unat (at_addr a)"

definition same_area :: "vattr \<Rightarrow> vattr \<Rightarrow> bool" where
  "same_area a b \<longleftrightarrow> at_class a \<noteq> CL_EXTREF \<and> at_class b \<noteq> CL_EXTREF
     \<and> at_has_initialiser a = at_has_initialiser b \<and> at_ext_reloc a = at_ext_reloc b"

lemma assign_addrs_layout:
  "assign_addrs bt st vs ar = Some (st', ar') \<Longrightarrow> distinct (map va_id vs) \<Longrightarrow> \<forall>v\<in>set vs. sized_var bt v \<Longrightarrow> area_room bt ar vs \<Longrightarrow>
     (\<forall>i e. unat (area_end ar i e) \<le> unat (area_end ar' i e))
     \<and> (\<forall>n. n \<notin> va_id ` set vs \<longrightarrow> ls_attrs st' n = ls_attrs st n)
     \<and> (\<forall>v\<in>set vs. at_class (attr st' v) \<noteq> CL_EXTREF \<longrightarrow> placed bt ar ar' (attr st' v) v)
     \<and> (\<forall>v\<in>set vs. \<forall>w\<in>set vs. va_id v \<noteq> va_id w \<longrightarrow> same_area (attr st' v) (attr st' w) \<longrightarrow> statics_apart bt v (attr st' v) w (attr st' w))"
proof (induction vs arbitrary: st ar)
  case (Cons v vs)
  let ?s = "if at_todo (attr st v) then set_attr st v (\<lambda>a. a\<lparr>at_ext_reloc := True, at_todo := False\<rparr>) else st"
  have vn: "va_id v \<notin> va_id ` set vs" and d: "distinct (map va_id vs)" and sz: "\<forall>v\<in>set vs. sized_var bt v"
    using Cons.prems by auto
  have other: "ls_attrs ?s n = ls_attrs st n" if "n \<noteq> va_id v" for n using that by simp
  show ?case
  proof (cases "at_class (attr st v) = CL_EXTREF")
    case True
    then have a: "assign_addrs bt ?s vs ar = Some (st', ar')" using Cons.prems(1) by (simp add: Let_def split: if_split_asm)
    have "area_room bt ar vs"
      unfolding area_room_def
    proof (intro allI)
      fix i e
      have "unat (area_end ar i e) + space bt (v # vs) < 2 ^ 64" using Cons.prems(4) unfolding area_room_def by blast
      then show "unat (area_end ar i e) + space bt vs < 2 ^ 64" by (simp add: space_def)
    qed
    note IH = Cons.IH[OF a d sz this]
    have "attr st' v = attr ?s v" using IH vn by blast
    then have "at_class (attr st' v) = CL_EXTREF" using True by simp
    then show ?thesis using IH other by (auto simp: same_area_def)
  next
    case False
    let ?a0 = "attr ?s v"
    let ?e = "area_of ar ?a0"
    obtain n a where n: "ci_typesize bt (va_type v) = Some n" "ci_align_addr_for_type bt ?e (va_type v) = Some a"
      and r: "assign_addrs bt (set_attr ?s v (at_addr_update (\<lambda>_. a))) vs
        (set_area_end ar (at_has_initialiser ?a0) (at_ext_reloc ?a0) (a + of_int n)) = Some (st', ar')"
      using Cons.prems(1) False by (auto simp: Let_def bind_Some_iff split: if_split_asm)
    let ?t = "set_attr ?s v (at_addr_update (\<lambda>_. a))"
    let ?ar = "set_area_end ar (at_has_initialiser ?a0) (at_ext_reloc ?a0) (a + of_int n)"
    have sp: "space bt (v # vs) = (var_size bt v + var_align bt v) + space bt vs" by (simp add: space_def)
    have e: "unat ?e + space bt (v # vs) < 2 ^ 64" using Cons.prems(4) unfolding area_room_def by blast
    have al: "unat ?e \<le> unat a \<and> unat a mod var_align bt v = 0 \<and> unat (a + of_int n) = unat a + var_size bt v
        \<and> unat a + var_size bt v \<le> unat ?e + (var_size bt v + var_align bt v)"
      using align_sized[OF _ n(2,1)] Cons.prems(3) e sp by simp
    have "area_room bt ?ar vs"
      unfolding area_room_def
    proof (intro allI)
      fix i x
      have "unat (area_end ar i x) + space bt (v # vs) < 2 ^ 64" using Cons.prems(4) unfolding area_room_def by blast
      then show "unat (area_end ?ar i x) + space bt vs < 2 ^ 64" using al e sp by simp
    qed
    note IH = Cons.IH[OF r d sz this]
    have mono: "unat (area_end ar i x) \<le> unat (area_end ?ar i x)" for i x using al by auto
    have av: "attr st' v = ?a0\<lparr>at_addr := a\<rparr>" using IH vn by simp
    have end_: "unat a + var_size bt v \<le> unat (area_of ?ar ?a0)" using al by simp
    have p: "placed bt ?ar ar' (attr st' w) w" if "w \<in> set vs" "at_class (attr st' w) \<noteq> CL_EXTREF" for w using IH that by blast
    have pv: "placed bt ar ar' (attr st' v) v"
    proof -
      have "unat (area_of ?ar ?a0) \<le> unat (area_of ar' ?a0)" using IH by blast
      then show ?thesis using al end_ unfolding placed_def av by simp
    qed
    have pw: "placed bt ar ar' (attr st' w) w" if "w \<in> set vs" "at_class (attr st' w) \<noteq> CL_EXTREF" for w
      using p[OF that] mono order_trans unfolding placed_def by blast
    have head: "unat (at_addr (attr st' v)) + var_size bt v \<le> unat (at_addr (attr st' w))"
      if "w \<in> set vs" "same_area (attr st' v) (attr st' w)" for w
    proof -
      have "area_of ?ar (attr st' w) = area_of ?ar ?a0" using that(2) av by (simp add: same_area_def)
      then show ?thesis using p[OF that(1)] that(2) end_ av unfolding placed_def same_area_def by simp
    qed
    have ap: "statics_apart bt x (attr st' x) y (attr st' y)"
      if xy: "x \<in> set (v # vs)" "y \<in> set (v # vs)" "va_id x \<noteq> va_id y" "same_area (attr st' x) (attr st' y)" for x y
    proof -
      have sym: "same_area (attr st' y) (attr st' x)" using xy(4) by (auto simp: same_area_def)
      consider "x = v" "y \<in> set vs" | "y = v" "x \<in> set vs" | "x \<in> set vs" "y \<in> set vs" using xy(1-3) by (metis set_ConsD)
      then show ?thesis
      proof cases
        case 1
        then show ?thesis using head xy(4) by (simp add: statics_apart_def)
      next
        case 2
        then show ?thesis using head sym by (simp add: statics_apart_def)
      next
        case 3
        then show ?thesis using IH xy(3,4) by blast
      qed
    qed
    have rest: "ls_attrs st' m = ls_attrs st m" if "m \<notin> va_id ` set (v # vs)" for m
    proof -
      have "ls_attrs st' m = ls_attrs ?t m" using IH that by auto
      then show ?thesis using other[of m] that by auto
    qed
    have "unat (area_end ar i x) \<le> unat (area_end ar' i x)" for i x using IH mono order_trans by blast
    then show ?thesis using rest pv pw ap by auto
  qed
qed simp

text \<open>C17. Safety: two static variables that are put in the same area do not overlap; each is at a multiple of its
  alignment and ends before the end of the area.\<close>

theorem statics_do_not_overlap:
  assumes a: "assign_addrs bt st vs \<lparr>data_addr = 0, extdata_addr = 0, bss_addr = 0, extbss_addr = 0\<rparr> = Some (st', ar)"
    and d: "distinct (map va_id vs)" and s: "\<forall>v\<in>set vs. sized_var bt v" and r: "space bt vs < 2 ^ 64"
    and v: "v \<in> set vs" "w \<in> set vs" "va_id v \<noteq> va_id w" and area: "same_area (attr st' v) (attr st' w)"
  shows "statics_apart bt v (attr st' v) w (attr st' w) \<and> unat (at_addr (attr st' v)) mod var_align bt v = 0
    \<and> unat (at_addr (attr st' v)) + var_size bt v \<le> unat (area_of ar (attr st' v))"
proof -
  have "area_room bt \<lparr>data_addr = 0, extdata_addr = 0, bss_addr = 0, extbss_addr = 0\<rparr> vs"
    using r by (simp add: area_room_def area_end_def)
  note l = assign_addrs_layout[OF a d s this]
  have "at_class (attr st' v) \<noteq> CL_EXTREF" using area by (simp add: same_area_def)
  then have "placed bt \<lparr>data_addr = 0, extdata_addr = 0, bss_addr = 0, extbss_addr = 0\<rparr> ar (attr st' v) v"
    using l v(1) by blast
  then show ?thesis using l v area unfolding placed_def by blast
qed

end
