(* ===== verification/Ups_Link_Demo.thy ===== *)
theory Ups_Link_Demo
  imports Ups_Load_Props Ups_Link_Names Ups_Link_Layout Ups_Static_Props Ups_Compile_Sem Ups_Run
begin

text \<open>
  Instances of the properties of linking.  The program is \<open>static long tail = 7; long *head = &tail;\<close>: the external
  variable \<open>head\<close> makes the static variable \<open>tail\<close> external.
\<close>

definition demo_tail :: var_t where
  "demo_tail = demo_var\<lparr>va_id := 1, va_name := ''tail'', va_class := CL_STAT\<rparr>"

definition demo_head :: var_t where
  "demo_head = demo_var\<lparr>va_id := 2, va_name := ''head'', va_class := CL_EXT, va_type := Type DT_PTR_TO 8 (Some demo_long) 0 0 0 None\<rparr>"

definition demo_inits :: "(var_t \<times> initialiser_t) list" where
  "demo_inits = [(demo_tail, IT_INTVAL 7), (demo_head, IT_VARADDR demo_tail 0)]"

definition demo_link_text :: "word64 \<Rightarrow> text_t" where
  "demo_link_text flags = initial_text flags False [] [demo_head, demo_tail] None None"

definition demo_iparams :: iparams where
  "demo_iparams = \<lparr>ip_bool_type = TY_ULONG, ip_members = (\<lambda>_. []), ip_fpu = demo_fpu\<rparr>"

definition demo_lstate :: "word64 \<Rightarrow> lstate" where
  "demo_lstate flags = \<lparr>ls_tx = demo_link_text flags, ls_attrs = initial_attrs (demo_link_text flags) demo_inits\<rparr>"

definition start_areas :: areas where
  "start_areas = \<lparr>data_addr = 0, extdata_addr = 0, bss_addr = 0, extbss_addr = 0\<rparr>"

definition demo_linked :: "lstate \<times> areas" where
  "demo_linked = the (link_addrs TY_ULONG (demo_lstate 0) demo_inits)"

definition demo_marked :: lstate where
  "demo_marked = the (mark_externals (demo_lstate 0))"

lemma demo_inits_ok: "one_initialiser demo_inits" "defined_vars (initial_attrs (demo_link_text flags) demo_inits) demo_inits"
  by (code_simp, simp add: defined_vars_def demo_inits_def initial_attrs_def demo_link_text_def initial_text_def demo_head_def
      demo_tail_def demo_var_def)

lemma demo_text_internal: "internal_relocs (demo_link_text flags)"
  by (simp add: internal_relocs_def demo_link_text_def initial_text_def)

section \<open>Closure\<close>

theorem ext_relocs_are_closure_witness:
  "\<exists>st d. set_ext_relocs demo_marked demo_inits = Some (Some (st, d))
     \<and> flagged st = (leads_to demo_inits)\<^sup>* `` flagged demo_marked \<and> (\<forall>(v, i)\<in>set demo_inits. \<not> at_todo (attr st v))"
proof -
  have "case set_ext_relocs demo_marked demo_inits of Some (Some _) \<Rightarrow> True | _ \<Rightarrow> False" by code_simp
  then obtain st d where r: "set_ext_relocs demo_marked demo_inits = Some (Some (st, d))" by (auto split: option.splits)
  have "\<forall>(v, i)\<in>set demo_inits. \<not> at_ext_reloc (attr demo_marked v)" by code_simp
  then have "settled demo_marked demo_inits" by (auto simp: settled_def)
  then show ?thesis using ext_relocs_are_closure[OF r demo_inits_ok(1)] r by blast
qed

section \<open>External data\<close>

theorem external_data_relocs_external_witness:
  "\<exists>st ar ist data extdata.
     link_addrs TY_ULONG (demo_lstate 0) demo_inits = Some (st, ar)
     \<and> ci_do_static_initialisations demo_iparams \<lparr>is_tx = ls_tx st, is_error = False, is_attrs = ls_attrs st, is_data = []\<rparr>
         demo_inits (replicate 8 0) (replicate 16 0) = Some (ist, data, extdata)
     \<and> (\<forall>(lt, loc, w, offset)\<in>set (tx_var_relocs (is_tx ist)). lt = RT_EXTDATALOC \<longrightarrow> at_ext_reloc (is_attrs ist (va_id w)))"
proof -
  have "link_addrs TY_ULONG (demo_lstate 0) demo_inits \<noteq> None" by code_simp
  then obtain st ar where l: "link_addrs TY_ULONG (demo_lstate 0) demo_inits = Some (st, ar)" by auto
  then have st: "st = fst demo_linked" by (simp add: demo_linked_def)
  have "ci_do_static_initialisations demo_iparams
      \<lparr>is_tx = ls_tx (fst demo_linked), is_error = False, is_attrs = ls_attrs (fst demo_linked), is_data = []\<rparr>
      demo_inits (replicate 8 0) (replicate 16 0) \<noteq> None" by code_simp
  then obtain ist data extdata where i: "ci_do_static_initialisations demo_iparams
      \<lparr>is_tx = ls_tx st, is_error = False, is_attrs = ls_attrs st, is_data = []\<rparr>
      demo_inits (replicate 8 0) (replicate 16 0) = Some (ist, data, extdata)" unfolding st by auto
  have "\<forall>(lt, r)\<in>set (tx_var_relocs (demo_link_text 0)). lt = RT_TEXTLOC" by (simp add: demo_link_text_def initial_text_def)
  then show ?thesis
    using external_data_relocs_external[OF l[unfolded demo_lstate_def] i demo_inits_ok] l i by blast
qed

theorem one_file_has_no_external_data_witness:
  "\<exists>li. link_file demo_iparams 0 (demo_link_text 8) [] demo_inits = Some (Some li) \<and> no_external_data li
     \<and> do_linkinfo_relocs li [] 0x1000 (text_and_data li) =
       do { img \<leftarrow> static_relocs (li_text_size li) 0x1000 (text_and_data li) (li_static_rps li);
            ext_relocs (li_text_size li) [] img (li_ext_relocs li) }"
proof -
  have "case link_file demo_iparams 0 (demo_link_text 8) [] demo_inits of Some (Some _) \<Rightarrow> True | _ \<Rightarrow> False" by code_simp
  then obtain li where li: "link_file demo_iparams 0 (demo_link_text 8) [] demo_inits = Some (Some li)" by (auto split: option.splits)
  have "tx_flags (demo_link_text 8) AND CI_CP_ONEFILE \<noteq> 0" by (simp add: demo_link_text_def initial_text_def CI_CP_ONEFILE_def)
  then show ?thesis
    using one_file_has_no_external_data[OF li _ demo_inits_ok(2) demo_text_internal,
        where varaddrs = "[]" and base = "0x1000" and img = "text_and_data li"] li by blast
qed

text \<open>Four bytes of text and twelve of data, with a place in each.\<close>

theorem loading_relocates_once_witness:
  "\<exists>img bs. static_relocs 4 0x1000 (replicate 16 0) [0, 8] = Some img \<and> get_bytes (replicate 16 0) 8 8 = Some bs
     \<and> get_bytes img 8 8 = Some (bytes_of 8 (word_of bs + 0x1000)) \<and> get_bytes img 4 4 = get_bytes (replicate 16 0) 4 4"
proof -
  have "static_relocs 4 0x1000 (replicate 16 0) [0, 8] \<noteq> None" by code_simp
  then obtain img where img: "static_relocs 4 0x1000 (replicate 16 0) [0, 8] = Some img" by auto
  have "places_apart 4 [0, 8]" by (simp add: width_def)
  then have r: "(\<forall>p\<in>set [0, 8]. \<exists>bs. get_bytes (replicate 16 0) p (width 4 p) = Some bs
      \<and> get_bytes img p (width 4 p) = Some (bytes_of (width 4 p) (word_of bs + 0x1000)))
    \<and> (\<forall>j n. (\<forall>p\<in>set [0, 8]. j + n \<le> p \<or> p + width 4 p \<le> j) \<longrightarrow> get_bytes img j n = get_bytes (replicate 16 0) j n)"
    by (rule loading_relocates_once[OF img])
  then have "\<exists>bs. get_bytes (replicate 16 0) 8 8 = Some bs \<and> get_bytes img 8 8 = Some (bytes_of 8 (word_of bs + 0x1000))"
    by (simp add: width_def)
  moreover have "get_bytes img 4 4 = get_bytes (replicate 16 0) 4 4"
    using r[THEN conjunct2, THEN spec, THEN spec, of 4 4] by (simp add: width_def)
  ultimately show ?thesis using img by blast
qed

section \<open>Names and addresses\<close>

theorem external_index_names_variable_witness:
  "\<exists>ev k name a. make_extvars 0 0 (ls_attrs (fst demo_linked)) 0 [demo_head, demo_tail] = Some ev
     \<and> at_addr (ev_attrs ev (va_id demo_tail)) = of_nat k \<and> (rev (ev_refs ev) @ rev (ev_defs ev)) ! k = (name, a)
     \<and> names_var demo_tail (ls_attrs (fst demo_linked) (va_id demo_tail)) name"
proof -
  have "make_extvars 0 0 (ls_attrs (fst demo_linked)) 0 [demo_head, demo_tail] \<noteq> None" by code_simp
  then obtain ev where ev: "make_extvars 0 0 (ls_attrs (fst demo_linked)) 0 [demo_head, demo_tail] = Some ev" by auto
  have "at_ext_reloc (ls_attrs (fst demo_linked) (va_id demo_tail))" by code_simp
  moreover have "distinct (map va_id [demo_head, demo_tail])" by code_simp
  ultimately show ?thesis using external_index_names_variable[OF ev, of demo_tail] ev by (simp del: rev_append) blast
qed

theorem statics_do_not_overlap_witness:
  "\<exists>st ar. assign_addrs TY_ULONG (demo_lstate 0) [demo_tail, demo_head] start_areas = Some (st, ar)
     \<and> statics_apart TY_ULONG demo_tail (attr st demo_tail) demo_head (attr st demo_head)"
proof -
  have "assign_addrs TY_ULONG (demo_lstate 0) [demo_tail, demo_head] start_areas \<noteq> None" by code_simp
  then obtain st ar where a: "assign_addrs TY_ULONG (demo_lstate 0) [demo_tail, demo_head] start_areas = Some (st, ar)" by auto
  have "case assign_addrs TY_ULONG (demo_lstate 0) [demo_tail, demo_head] start_areas of
      Some (st, ar) \<Rightarrow> at_class (attr st demo_tail) \<noteq> CL_EXTREF \<and> at_class (attr st demo_head) \<noteq> CL_EXTREF
        \<and> at_has_initialiser (attr st demo_tail) = at_has_initialiser (attr st demo_head)
        \<and> at_ext_reloc (attr st demo_tail) = at_ext_reloc (attr st demo_head) | None \<Rightarrow> False" by code_simp
  then have area: "same_area (attr st demo_tail) (attr st demo_head)" using a by (simp add: same_area_def)
  have sized: "\<forall>v\<in>set [demo_tail, demo_head]. sized_var TY_ULONG v"
    by (simp add: sized_var_def demo_tail_def demo_head_def demo_var_def demo_long_def ci_effective_typecode_def)
  have "distinct (map va_id [demo_tail, demo_head])" "space TY_ULONG [demo_tail, demo_head] < 2 ^ 64"
    "va_id demo_tail \<noteq> va_id demo_head"
    by (simp_all add: space_def var_size_def var_align_def demo_tail_def demo_head_def demo_var_def demo_long_def ci_effective_typecode_def)
  then show ?thesis
    using statics_do_not_overlap[OF a[unfolded start_areas_def] _ sized _ _ _ _ area] a by simp
qed

section \<open>An array of two numbers\<close>

definition demo_array :: type_t where
  "demo_array = Type DT_ARRAY_OF (- 1) (Some (Type TY_SHORT 2 None 0 0 0 None)) 1 0 0 None"

definition demo_istate :: istate where
  "demo_istate = \<lparr>is_tx = demo_link_text 0, is_error = False, is_attrs = initial_attrs (demo_link_text 0) [], is_data = replicate 16 0\<rparr>"

theorem initialiser_stays_in_object_witness:
  "\<exists>st. initialise demo_iparams demo_istate 8 demo_array (IT_LIST [IT_INTVAL 1, IT_INTVAL 2]) RT_DATALOC = Some st
     \<and> length (is_data st) = 16 \<and> is_data st ! 7 = 0 \<and> is_data st ! 12 = 0"
proof -
  have "initialise demo_iparams demo_istate 8 demo_array (IT_LIST [IT_INTVAL 1, IT_INTVAL 2]) RT_DATALOC \<noteq> None" by code_simp
  then obtain st where st: "initialise demo_iparams demo_istate 8 demo_array (IT_LIST [IT_INTVAL 1, IT_INTVAL 2]) RT_DATALOC = Some st" by auto
  have "object_type (ip_bool_type demo_iparams) demo_array" "tsize (ip_bool_type demo_iparams) demo_array = 4" by code_simp+
  moreover have "members_inside demo_iparams" by (simp add: members_inside_def demo_iparams_def)
  moreover have "length (is_data demo_istate) = 16" "is_data demo_istate ! 7 = 0" "is_data demo_istate ! 12 = 0" by code_simp+
  ultimately show ?thesis using initialiser_stays_in_object[OF st] st by simp
qed

end
