(* ===== verification/Spec2Isabelle.thy ===== *)
theory Spec2Isabelle
  imports Ups_Data_Props Ups_Runtime_Props Ups_Func_Correct Ups_Layout Ups_Const_Types Ups_Stm_Build_Props Ups_Link_Demo
begin

text \<open>
  A verification library of the C interpreter of ups, a debugger for C.  Ups compiles the C that a user attaches to
  breakpoints, and whole C programs, to the code of a stack machine and interprets that code.  The library models the
  way from the typed program to its execution, and is organised as the program is.

  The program.  A program is scanned and parsed into trees (\<^verbatim>\<open>ci_parse*.c\<close>, \<^verbatim>\<open>ci_expr.c\<close>, \<^verbatim>\<open>ci_decl.c\<close>; not modelled),
  during which \<^verbatim>\<open>ci_stm.c\<close> builds statements and \<^verbatim>\<open>ci_constexpr.c\<close> evaluates constants.  \<^verbatim>\<open>ci_compile.c\<close> lays out
  variables and compiles functions, calling \<^verbatim>\<open>ci_compile_expr.c\<close> for expressions and \<^verbatim>\<open>ci_opcodes.c\<close> to write code;
  then it decides what is visible outside of the file, initialises the static variables and makes relocation tables.
  \<^verbatim>\<open>cx_onefile.c\<close> loads the result.  \<^verbatim>\<open>xc_machine.c\<close> is the machine and what the debugger does with it.

  The configuration is that of a 64-bit little-endian host: \<open>long\<close> and pointers have 8 bytes, \<open>int\<close> 4, a word of
  the machine's stack 8, an opcode 2; \<open>long long\<close> is compiled in and \<open>long double\<close> is not.  Much of the code dates from
  32-bit hosts, which is where most of the flaws come from that the properties of kind \<open>error\<close> and \<open>bounds\<close> show.

  Conventions.  A C integer is a word of its width, or a mathematical integer where the code cannot overflow, or one
  that is wrapped to its width (\<open>to_int\<close>, \<open>signed_take_bit\<close>) where it can.  A panic, an access outside of memory and an operation that C leaves undefined are \<open>None\<close>; where they have to be told apart there
  is a datatype (\<open>sres\<close> of the machine, \<open>cres\<close> of the constant evaluator).  A diagnostic is kept only as the fact that
  there was one, where the code goes on differently.  Objects that the code changes through pointers are
  records keyed by identity: the attributes of variables in linking (\<open>vattrs\<close>), labels, blocks of the arena in memory.

  Foundations.
    \<^item> \<open>Ups_Prelude\<close>: words, bytes (\<open>bytes_of\<close>, \<open>word_of\<close>), memory as a partial map from addresses to bytes.
    \<^item> \<open>Ups_Memory\<close>: the contract of memory (locale \<open>byte_store\<close>, interpreted by the map).
    \<^item> \<open>Ups_Opcodes\<close>: the opcodes and their table (\<^verbatim>\<open>xc_opcodes.h\<close>); numbers, operand widths and stack effects.
    \<^item> \<open>Ups_Types\<close>: type codes, sizes, alignments, operators, variables (\<^verbatim>\<open>symtab.h\<close>, \<^verbatim>\<open>ci_types.c\<close>, \<^verbatim>\<open>ci_util.c\<close>).

  Writing code.
    \<^item> \<open>Ups_Text\<close>: the text buffer, \<open>ci_code_byte\<close> to \<open>ci_code_generic_opcode\<close>, labels, and their effect on the buffer.  The
      clients rely on the locale \<open>code_emitter\<close>, which \<open>ci_code_byte\<close> interprets.
    \<^item> \<open>Ups_Compile_Expr\<close>: \<open>ci_compile_expression\<close> and all the functions it calls.
    \<^item> \<open>Ups_Compile_Stmt\<close>: the layout of frames, statements, functions and \<open>compile\<close>.
    \<^item> \<open>Ups_Compile_Props\<close>, \<open>Ups_Labels\<close>, \<open>Ups_Stmt_Props\<close>, \<open>Ups_Stmt_Code\<close>: the compiler only appends, every label it
      makes is resolved, and the code of a statement has the expected parts (\<open>stm_code\<close>).
    \<^item> \<open>Ups_Layout\<close>: variables of a frame do not overlap, parameters are where the caller pushes them.

  Running code.
    \<^item> \<open>Ups_State\<close>, \<open>Ups_Exec_Control\<close>, \<open>Ups_Exec_Data\<close>, \<open>Ups_Exec_Arith\<close>, \<open>Ups_Machine\<close>: the state of \<open>ci_execute_machine\<close>,
      one definition per instruction, the dispatch (\<open>step\<close>), entry and exit.  Floating arithmetic and the functions
      of the C library are parameters.
    \<^item> \<open>Ups_Run\<close>, \<open>Ups_Exec_Props\<close>, \<open>Ups_Data_Props\<close>: what the instructions do; calls, frames, stores and loads, bit fields,
      division.
    \<^item> \<open>Ups_Arena\<close>, \<open>Ups_Arena_Props\<close>: the blocks that interpreted code gets from \<open>malloc\<close>, and its files; the arena is
      an abstract list of blocks (locale \<open>block_store\<close>).  \<open>malloc\<close> and \<open>free\<close> of the host are parameters.
    \<^item> \<open>Ups_Runtime\<close>, \<open>Ups_Runtime_Props\<close>: creating and resetting machines, breakpoints, calls from the debugger.

  The compiler against the machine.
    \<^item> \<open>Ups_Compile_Sem\<close>: a meaning of integer expressions (\<open>eval\<close>), and the theorem that the machine, run on the code of
      an expression, pushes its value.
    \<^item> \<open>Ups_Stmt_Sem\<close>, \<open>Ups_Stmt_Correct\<close>: a big-step semantics of statements, with outcomes for \<open>break\<close>,
      \<open>continue\<close> and \<open>return\<close>, and the same theorem for statements; loops by induction on the run.  A \<open>break\<close> or
      \<open>continue\<close> that is in no loop does not compile (\<open>compiled_jumps_in\<close>).
    \<^item> \<open>Ups_Func_Correct\<close>: whole functions, from the call to the caller.
    These theorems hold for word-sized variables of the frame, without calls inside of expressions and without \<open>switch\<close>,
    \<open>goto\<close> and labels.  The code, the variables and the scratch words of the stack must lie apart; branches are 16 bits wide, and
    a longer one is a panic of the compiler.

  Constants and statements of the parser.
    \<^item> \<open>Ups_Const\<close>: the evaluator of constant expressions and what the compiler makes of its result.
    \<^item> \<open>Ups_Const_Props\<close>: for the types of up to 32 bits it agrees with C where C defines a value (\<open>c_value\<close>), and the
      code compiled for such a constant pushes that value.  \<open>Ups_Const_Types\<close>: the operations it supports (\<open>supported\<close>)
      cause no panic, and those of \<open>long long\<close> that it does not support do.
    \<^item> \<open>Ups_Stm_Build\<close>: the constructors of statements, and the table of a \<open>switch\<close> with its merge sort.
      \<open>Ups_Stm_Build_Props\<close>: the table is sorted and complete if the labels are less than \<open>2 ^ 31\<close> apart, and what happens
      otherwise.

  Linking and loading.
    \<^item> \<open>Ups_Static_Init\<close>: \<open>ci_do_static_initialisations\<close>.  \<open>Ups_Static_Props\<close>: it writes inside of its objects; the area
      that it writes is the locale \<open>byte_area\<close>, on which the proof of the loader relies too.
    \<^item> \<open>Ups_Link\<close>: \<open>ci_compile\<close> behind \<open>compile\<close>.  The passes that spread external relocation are \<open>while_option\<close>.
      \<open>Ups_Link_Props\<close>: they end, and compute a closure.  \<open>Ups_Link_Safe\<close>: external data refers to external variables.
      \<open>Ups_Link_Names\<close>: the numbers in relocations are positions in the tables of names.  \<open>Ups_Link_Layout\<close>: static
      variables do not overlap.
    \<^item> \<open>Ups_Load\<close>: \<^verbatim>\<open>cx_onefile.c\<close>.  \<open>Ups_Load_Props\<close>: one-file programs have no external data, and loading relocates every
      place once.  \<open>Ups_Link_Demo\<close>: instances.

  Fuel.  The interpreter's loop is the iteration of \<open>step\<close>, and properties speak of runs of it.  The statement
  semantics \<open>run_stm\<close> has fuel: the theorems take any amount with which a statement comes to its end.  \<open>pad_text\<close> writes at most 4
  instructions of padding, enough for the alignment of 4 (\<open>pad_text_enough\<close>).  Recursions over trees, lists and
  labels are structural or have a measure.

  Not modelled.  Scanner, parser and the building and typing of expressions and declarations: text processing around
  generated tables.  Linking of several files and the files that hold it (\<^verbatim>\<open>cx_link.c\<close>, \<^verbatim>\<open>cx_symio.c\<close>), symbol information
  (\<open>make_symfuncs\<close>), the disassembler and \<open>ci_get_next_pc_and_cf\<close>.  The rest of ups: symbol tables of object files,
  control of the target process, windows and menus, which are input and output with the operating system.  The C
  library, floating point arithmetic, and the allocator of the host are parameters.
\<close>

end
